(* ===== verification/Prelude.thy ===== *)
theory Prelude
  imports
    Main
    "HOL-Library.Word"
    "HOL-Library.List_Lexorder"
begin

text \<open>
  Shared vocabulary of the development: the machine integer types of the Rust sources, the
  error-result type with its sequencing operator, little-endian integer encodings, slices of byte
  strings, and the generic lemmas that the component theories rely on.

  Rust values are mapped as follows. \<open>u8\<close>, \<open>u16\<close>, \<open>u32\<close> and \<open>u64\<close> are words of that width. A
  \<open>usize\<close> is a natural number together with explicit overflow branches at \<open>2 ^ 64\<close>, the width of
  the host targets the crates are built for. A byte slice, a \<open>Vec<u8>\<close> and a fixed array
  \<open>[u8; N]\<close> are lists of bytes; the fixed length of an array is stated where it matters. A
  \<open>Result<T, E>\<close> is the sum \<open>'e + 'a\<close> with \<open>Inl\<close> the error.
\<close>

unbundle bit_operations_syntax

section \<open>Machine integers and byte strings\<close>

type_synonym u8 = "8 word"
type_synonym u16 = "16 word"
type_synonym u32 = "32 word"
type_synonym u64 = "64 word"
type_synonym bytes = "u8 list"

named_theorems result_simps "evaluation rules of the error-result combinators"
named_theorems codec_simps "lengths and round trips of the primitive encodings"

text \<open>A byte-string literal \<open>b"..."\<close> of the sources.\<close>

definition ascii :: "string \<Rightarrow> bytes" where
  "ascii s = map of_char s"

lemma length_ascii [simp]: "length (ascii s) = length s"
  by (simp add: ascii_def)

lemma ascii_Nil [simp]: "ascii [] = []"
  by (simp add: ascii_def)

lemma ascii_Cons: "ascii (c # s) = of_char c # ascii s"
  by (simp add: ascii_def)

section \<open>Results\<close>

text \<open>
  \<open>and_then r f\<close> is the \<open>?\<close> operator: the error of \<open>r\<close> is returned at once, a value is passed
  on. \<open>ensure b e\<close> is the macro of the same name and the early \<open>return Err(e)\<close>.
\<close>

definition and_then :: "'e + 'a \<Rightarrow> ('a \<Rightarrow> 'e + 'b) \<Rightarrow> 'e + 'b" where
  "and_then r f = (case r of Inl e \<Rightarrow> Inl e | Inr x \<Rightarrow> f x)"

definition ensure :: "bool \<Rightarrow> 'e \<Rightarrow> 'e + unit" where
  "ensure b e = (if b then Inr () else Inl e)"

definition ok_or :: "'a option \<Rightarrow> 'e \<Rightarrow> 'e + 'a" where
  "ok_or x e = (case x of None \<Rightarrow> Inl e | Some y \<Rightarrow> Inr y)"

definition map_err :: "('e \<Rightarrow> 'f) \<Rightarrow> 'e + 'a \<Rightarrow> 'f + 'a" where
  "map_err g r = (case r of Inl e \<Rightarrow> Inl (g e) | Inr x \<Rightarrow> Inr x)"

definition is_ok :: "'e + 'a \<Rightarrow> bool" where
  "is_ok r = (case r of Inl _ \<Rightarrow> False | Inr _ \<Rightarrow> True)"

lemma and_then_simps [simp, result_simps]:
  "and_then (Inl e) f = Inl e"
  "and_then (Inr x) f = f x"
  by (simp_all add: and_then_def)

lemma and_then_eq_Inr [simp]:
  "and_then r f = Inr y \<longleftrightarrow> (\<exists>x. r = Inr x \<and> f x = Inr y)"
  by (cases r) auto

lemma and_then_eq_Inl:
  "and_then r f = Inl e \<longleftrightarrow> r = Inl e \<or> (\<exists>x. r = Inr x \<and> f x = Inl e)"
  by (cases r) auto

lemma and_then_cong [fundef_cong]:
  "r = r' \<Longrightarrow> (\<And>x. r' = Inr x \<Longrightarrow> f x = g x) \<Longrightarrow> and_then r f = and_then r' g"
  by (cases r') auto

lemma and_then_split:
  "P (and_then r f) \<longleftrightarrow> (\<forall>e. r = Inl e \<longrightarrow> P (Inl e)) \<and> (\<forall>x. r = Inr x \<longrightarrow> P (f x))"
  by (cases r) auto

lemma ensure_simps [simp, result_simps]:
  "ensure True e = Inr ()"
  "ensure False e = Inl e"
  by (simp_all add: ensure_def)

lemma ensure_eq_Inr [simp]: "ensure b e = Inr u \<longleftrightarrow> b"
  by (simp add: ensure_def)

lemma ensure_eq_Inl [simp]: "ensure b e = Inl f \<longleftrightarrow> \<not> b \<and> f = e"
  by (auto simp: ensure_def)

lemma ok_or_simps [simp, result_simps]:
  "ok_or None e = Inl e"
  "ok_or (Some x) e = Inr x"
  by (simp_all add: ok_or_def)

lemma ok_or_eq_Inr [simp]: "ok_or x e = Inr y \<longleftrightarrow> x = Some y"
  by (cases x) auto

lemma ok_or_eq_Inl [simp]: "ok_or x e = Inl f \<longleftrightarrow> x = None \<and> f = e"
  by (cases x) auto

lemma map_err_simps [simp, result_simps]:
  "map_err g (Inl e) = Inl (g e)"
  "map_err g (Inr x) = Inr x"
  by (simp_all add: map_err_def)

lemma map_err_eq_Inr [simp]: "map_err g r = Inr y \<longleftrightarrow> r = Inr y"
  by (cases r) auto

lemma map_err_eq_Inl: "map_err g r = Inl e \<longleftrightarrow> (\<exists>e'. r = Inl e' \<and> e = g e')"
  by (cases r) auto

lemma is_ok_simps [simp, result_simps]:
  "is_ok (Inl e) = False"
  "is_ok (Inr x) = True"
  by (simp_all add: is_ok_def)

lemma is_ok_iff: "is_ok r \<longleftrightarrow> (\<exists>x. r = Inr x)"
  by (cases r) auto

section \<open>Checked machine arithmetic\<close>

text \<open>Rust's \<open>checked_add\<close>, \<open>checked_mul\<close> and \<open>checked_sub\<close> on unsigned integers.\<close>

definition checked_add_word :: "'w::len word \<Rightarrow> 'w word \<Rightarrow> 'w word option" where
  "checked_add_word a b = (if unat a + unat b < 2 ^ LENGTH('w) then Some (a + b) else None)"

definition checked_mul_word :: "'w::len word \<Rightarrow> 'w word \<Rightarrow> 'w word option" where
  "checked_mul_word a b = (if unat a * unat b < 2 ^ LENGTH('w) then Some (a * b) else None)"

lemma checked_add_word_eq_Some [simp]:
  "checked_add_word a b = Some c \<longleftrightarrow> unat c = unat a + unat b"
  for a b c :: "'w::len word"
proof
  assume "checked_add_word a b = Some c"
  then show "unat c = unat a + unat b"
    by (auto simp: checked_add_word_def unat_word_ariths split: if_splits)
next
  assume eq: "unat c = unat a + unat b"
  then have "unat a + unat b < 2 ^ LENGTH('w)" by (metis unsigned_less)
  moreover from this eq have "a + b = c"
    by (simp add: word_unat_eq_iff unat_word_ariths)
  ultimately show "checked_add_word a b = Some c" by (simp add: checked_add_word_def)
qed

lemma checked_mul_word_eq_Some [simp]:
  "checked_mul_word a b = Some c \<longleftrightarrow> unat c = unat a * unat b"
  for a b c :: "'w::len word"
proof
  assume "checked_mul_word a b = Some c"
  then show "unat c = unat a * unat b"
    by (auto simp: checked_mul_word_def unat_word_ariths split: if_splits)
next
  assume eq: "unat c = unat a * unat b"
  then have "unat a * unat b < 2 ^ LENGTH('w)" by (metis unsigned_less)
  moreover from this eq have "a * b = c"
    by (simp add: word_unat_eq_iff unat_word_ariths)
  ultimately show "checked_mul_word a b = Some c" by (simp add: checked_mul_word_def)
qed

lemma checked_add_word_eq_None [simp]:
  "checked_add_word a b = None \<longleftrightarrow> 2 ^ LENGTH('w) \<le> unat a + unat b"
  for a b :: "'w::len word"
  by (auto simp: checked_add_word_def)

lemma checked_mul_word_eq_None [simp]:
  "checked_mul_word a b = None \<longleftrightarrow> 2 ^ LENGTH('w) \<le> unat a * unat b"
  for a b :: "'w::len word"
  by (auto simp: checked_mul_word_def)

text \<open>The same operations on \<open>usize\<close> values.\<close>

definition usize_limit :: nat where
  "usize_limit = 2 ^ 64"

definition checked_add_usize :: "nat \<Rightarrow> nat \<Rightarrow> nat option" where
  "checked_add_usize a b = (if a + b < usize_limit then Some (a + b) else None)"

definition checked_mul_usize :: "nat \<Rightarrow> nat \<Rightarrow> nat option" where
  "checked_mul_usize a b = (if a * b < usize_limit then Some (a * b) else None)"

definition checked_sub_usize :: "nat \<Rightarrow> nat \<Rightarrow> nat option" where
  "checked_sub_usize a b = (if b \<le> a then Some (a - b) else None)"

lemma checked_add_usize_eq_Some [simp]:
  "checked_add_usize a b = Some c \<longleftrightarrow> c = a + b \<and> c < usize_limit"
  by (auto simp: checked_add_usize_def)

lemma checked_mul_usize_eq_Some [simp]:
  "checked_mul_usize a b = Some c \<longleftrightarrow> c = a * b \<and> c < usize_limit"
  by (auto simp: checked_mul_usize_def)

lemma checked_sub_usize_eq_Some [simp]:
  "checked_sub_usize a b = Some c \<longleftrightarrow> b \<le> a \<and> c = a - b"
  by (auto simp: checked_sub_usize_def)

section \<open>Slices\<close>

text \<open>\<open>bytes.get(a..b)\<close>: out of range is \<open>None\<close>.\<close>

definition slice :: "'a list \<Rightarrow> nat \<Rightarrow> nat \<Rightarrow> 'a list" where
  "slice xs a b = take (b - a) (drop a xs)"

definition get_range :: "'a list \<Rightarrow> nat \<Rightarrow> nat \<Rightarrow> 'a list option" where
  "get_range xs a b = (if a \<le> b \<and> b \<le> length xs then Some (slice xs a b) else None)"

lemma length_slice [simp]: "length (slice xs a b) = min (b - a) (length xs - a)"
  by (simp add: slice_def min.commute)

lemma get_range_eq_Some [simp]:
  "get_range xs a b = Some ys \<longleftrightarrow> a \<le> b \<and> b \<le> length xs \<and> ys = slice xs a b"
  by (auto simp: get_range_def)

lemma slice_append_left:
  "b \<le> length xs \<Longrightarrow> slice (xs @ ys) a b = slice xs a b"
  by (cases "a \<le> b") (auto simp: slice_def)

lemma slice_append_right:
  "length xs \<le> a \<Longrightarrow> slice (xs @ ys) a b = slice ys (a - length xs) (b - length xs)"
  by (simp add: slice_def)

lemma slice_full: "b = length xs \<Longrightarrow> slice xs 0 b = xs"
  by (simp add: slice_def)

lemma slice_append_slice:
  "a \<le> b \<Longrightarrow> b \<le> c \<Longrightarrow> slice xs a b @ slice xs b c = slice xs a c"
proof -
  assume "a \<le> b" "b \<le> c"
  then have "slice xs a c = take ((b - a) + (c - b)) (drop a xs)" by (simp add: slice_def)
  also have "\<dots> = slice xs a b @ slice xs b c"
    using \<open>a \<le> b\<close> unfolding take_add by (simp add: slice_def)
  finally show "slice xs a b @ slice xs b c = slice xs a c" by simp
qed

text \<open>
  \<open>buffer[a..].copy_from_slice(ys)\<close>: the bytes from \<open>a\<close> on are replaced in place. Writing the
  fields of a record one after another into a zeroed buffer is appending them.
\<close>

definition overwrite :: "'a list \<Rightarrow> nat \<Rightarrow> 'a list \<Rightarrow> 'a list" where
  "overwrite xs a ys = take a xs @ ys @ drop (a + length ys) xs"

lemma length_overwrite [simp]:
  "a + length ys \<le> length xs \<Longrightarrow> length (overwrite xs a ys) = length xs"
  by (simp add: overwrite_def)

lemma overwrite_zeros:
  "length pre = a \<Longrightarrow>
    overwrite (pre @ replicate n z) a ys = (pre @ ys) @ replicate (n - length ys) z"
  by (simp add: overwrite_def)

text \<open>\<open>slice.starts_with(prefix)\<close>.\<close>

definition starts_with :: "'a list \<Rightarrow> 'a list \<Rightarrow> bool" where
  "starts_with xs pre \<longleftrightarrow> length pre \<le> length xs \<and> take (length pre) xs = pre"

lemma starts_with_iff [simp]: "starts_with xs pre \<longleftrightarrow> (\<exists>ys. xs = pre @ ys)"
  by (auto simp: starts_with_def) (metis append_take_drop_id)

text \<open>\<open>slice.get(i)\<close>.\<close>

definition get_index :: "'a list \<Rightarrow> nat \<Rightarrow> 'a option" where
  "get_index xs i = (if i < length xs then Some (xs ! i) else None)"

lemma get_index_eq_Some [simp]: "get_index xs i = Some x \<longleftrightarrow> i < length xs \<and> xs ! i = x"
  by (auto simp: get_index_def)

section \<open>Loops over a list\<close>

text \<open>
  A \<open>for\<close> loop whose body checks one element, and one whose body also updates the loop's variables:
  the first error leaves the loop.
\<close>

fun check_each :: "('a \<Rightarrow> 'e + unit) \<Rightarrow> 'a list \<Rightarrow> 'e + unit" where
  "check_each check [] = Inr ()"
| "check_each check (x # xs) = and_then (check x) (\<lambda>_. check_each check xs)"

lemma check_each_eq: "check_each check xs = Inr u \<longleftrightarrow> (\<forall>x \<in> set xs. check x = Inr ())"
  by (induction xs) auto

fun run_each :: "('a \<Rightarrow> 's \<Rightarrow> 'e + 's) \<Rightarrow> 'a list \<Rightarrow> 's \<Rightarrow> 'e + 's" where
  "run_each step [] s = Inr s"
| "run_each step (x # xs) s = and_then (step x s) (run_each step xs)"

lemma run_each_append: "run_each step (xs @ ys) s = and_then (run_each step xs s) (run_each step ys)"
  by (induction xs arbitrary: s) (auto split: sum.splits simp: and_then_def)

text \<open>A loop that pushes one result per element.\<close>

fun map_each :: "('a \<Rightarrow> 'e + 'b) \<Rightarrow> 'a list \<Rightarrow> 'e + 'b list" where
  "map_each f [] = Inr []"
| "map_each f (x # xs) = and_then (f x) (\<lambda>y. and_then (map_each f xs) (\<lambda>ys. Inr (y # ys)))"

lemma map_each_eq: "map_each f xs = Inr ys \<longleftrightarrow> list_all2 (\<lambda>x y. f x = Inr y) xs ys"
  by (induction xs arbitrary: ys) (auto simp: list_all2_Cons1)

text \<open>\<open>str::strip_prefix\<close>.\<close>

definition strip_prefix :: "'a list \<Rightarrow> 'a list \<Rightarrow> 'a list option" where
  "strip_prefix pre xs = (if starts_with xs pre then Some (drop (length pre) xs) else None)"

lemma strip_prefix_eq_Some [simp]: "strip_prefix pre xs = Some ys \<longleftrightarrow> xs = pre @ ys"
  by (auto simp: strip_prefix_def)

section \<open>UTF-8\<close>

text \<open>\<open>std::str::from_utf8\<close>: the well-formed byte sequences of the Unicode standard.\<close>

definition in_range :: "u8 \<Rightarrow> u8 \<Rightarrow> u8 \<Rightarrow> bool" where
  "in_range lo hi b \<longleftrightarrow> lo \<le> b \<and> b \<le> hi"

definition utf8_tail :: "u8 \<Rightarrow> bool" where
  "utf8_tail b \<longleftrightarrow> in_range 0x80 0xBF b"

function is_utf8 :: "bytes \<Rightarrow> bool" where
  "is_utf8 bs =
     (case bs of
        [] \<Rightarrow> True
      | b # r0 \<Rightarrow>
          if b \<le> 0x7F then is_utf8 r0
          else (case r0 of
             [] \<Rightarrow> False
           | c # r1 \<Rightarrow>
               if in_range 0xC2 0xDF b then utf8_tail c \<and> is_utf8 r1
               else (case r1 of
                  [] \<Rightarrow> False
                | d # r2 \<Rightarrow>
                    if b = 0xE0 then in_range 0xA0 0xBF c \<and> utf8_tail d \<and> is_utf8 r2
                    else if b = 0xED then in_range 0x80 0x9F c \<and> utf8_tail d \<and> is_utf8 r2
                    else if in_range 0xE1 0xEF b then utf8_tail c \<and> utf8_tail d \<and> is_utf8 r2
                    else (case r2 of
                       [] \<Rightarrow> False
                     | e # r3 \<Rightarrow>
                         (b = 0xF0 \<and> in_range 0x90 0xBF c \<or> in_range 0xF1 0xF3 b \<and> utf8_tail c
                          \<or> b = 0xF4 \<and> in_range 0x80 0x8F c)
                         \<and> utf8_tail d \<and> utf8_tail e \<and> is_utf8 r3))))"
  by auto
termination
  by (relation "measure length") auto

declare is_utf8.simps [simp del]

lemma ascii_is_utf8: "list_all (\<lambda>b. b < 0x80) bs \<Longrightarrow> is_utf8 bs"
proof (induction bs)
  case Nil
  then show ?case by (simp add: is_utf8.simps)
next
  case (Cons b bs)
  then have "b \<le> 0x7F" by (simp add: word_less_nat_alt word_le_nat_alt)
  with Cons show ?case by (subst is_utf8.simps) simp
qed

section \<open>Little-endian encodings\<close>

text \<open>
  \<open>le_encode n x\<close> is the list of the \<open>n\<close> low bytes of \<open>x\<close>, least significant first;
  \<open>le_decode\<close> reads such a list back.
\<close>

primrec le_encode :: "nat \<Rightarrow> nat \<Rightarrow> bytes" where
  "le_encode 0 x = []"
| "le_encode (Suc n) x = word_of_nat x # le_encode n (x div 256)"

primrec le_decode :: "bytes \<Rightarrow> nat" where
  "le_decode [] = 0"
| "le_decode (b # bs) = unat b + 256 * le_decode bs"

lemma le_encode_numeral:
  "le_encode (numeral k) x = word_of_nat x # le_encode (pred_numeral k) (x div 256)"
  by (simp only: numeral_eq_Suc [of k] le_encode.simps)

lemma length_le_encode [simp, codec_simps]: "length (le_encode n x) = n"
  by (induction n arbitrary: x) simp_all

lemma le_decode_bound: "le_decode bs < 256 ^ length bs"
proof (induction bs)
  case Nil
  then show ?case by simp
next
  case (Cons b bs)
  have "unat b < 256" using unsigned_less [of b] by simp
  moreover have "le_decode bs + 1 \<le> 256 ^ length bs" using Cons.IH by simp
  ultimately show ?case by simp
qed

lemma le_decode_encode: "le_decode (le_encode n x) = x mod 256 ^ n"
proof (induction n arbitrary: x)
  case 0
  then show ?case by simp
next
  case (Suc n)
  have "le_decode (le_encode (Suc n) x) = x mod 256 + 256 * (x div 256 mod 256 ^ n)"
    using Suc.IH [of "x div 256"] by (simp add: unat_of_nat)
  also have "\<dots> = x mod (256 * 256 ^ n)"
    by (simp add: mod_mult2_eq)
  finally show ?case by simp
qed

lemma le_encode_decode: "length bs = n \<Longrightarrow> le_encode n (le_decode bs) = bs"
proof (induction bs arbitrary: n)
  case Nil
  then show ?case by simp
next
  case (Cons b bs)
  then obtain m where n: "n = Suc m" and m: "length bs = m" by (cases n) auto
  have b: "unat b < 256" using unsigned_less [of b] by simp
  have "(unat b + 256 * le_decode bs) div 256 = le_decode bs" using b by simp
  moreover have "(word_of_nat (unat b + 256 * le_decode bs) :: u8) = b"
  proof (rule word_unat_eq_iff [THEN iffD2])
    show "unat (word_of_nat (unat b + 256 * le_decode bs) :: u8) = unat b"
      using b by (simp add: unat_of_nat del: of_nat_add of_nat_mult)
  qed
  ultimately show ?case using Cons.IH [OF m] n by simp
qed

definition u16_to_le :: "u16 \<Rightarrow> bytes" where "u16_to_le w = le_encode 2 (unat w)"
definition u32_to_le :: "u32 \<Rightarrow> bytes" where "u32_to_le w = le_encode 4 (unat w)"
definition u64_to_le :: "u64 \<Rightarrow> bytes" where "u64_to_le w = le_encode 8 (unat w)"

definition u16_from_le :: "bytes \<Rightarrow> u16" where "u16_from_le bs = word_of_nat (le_decode bs)"
definition u32_from_le :: "bytes \<Rightarrow> u32" where "u32_from_le bs = word_of_nat (le_decode bs)"
definition u64_from_le :: "bytes \<Rightarrow> u64" where "u64_from_le bs = word_of_nat (le_decode bs)"

lemma length_uN_to_le [simp, codec_simps]:
  "length (u16_to_le a) = 2" "length (u32_to_le b) = 4" "length (u64_to_le c) = 8"
  by (simp_all add: u16_to_le_def u32_to_le_def u64_to_le_def)

lemma le_word_round_trip:
  "256 ^ n = (2::nat) ^ LENGTH('w) \<Longrightarrow>
    word_of_nat (le_decode (le_encode n (unat w))) = w" for w :: "'w::len word"
  using unsigned_less [of w] by (simp add: le_decode_encode)

lemma le_bytes_round_trip:
  assumes "256 ^ n = (2::nat) ^ LENGTH('w)" and "length bs = n"
  shows "le_encode n (unat (word_of_nat (le_decode bs) :: 'w::len word)) = bs"
proof -
  have "unat (word_of_nat (le_decode bs) :: 'w word) = le_decode bs"
    using le_decode_bound [of bs] assms by (simp add: unat_of_nat)
  then show ?thesis using assms by (simp add: le_encode_decode)
qed

lemma uN_from_to_le [simp, codec_simps]:
  "u16_from_le (u16_to_le a) = a" "u32_from_le (u32_to_le b) = b" "u64_from_le (u64_to_le c) = c"
  by (simp_all add: u16_to_le_def u32_to_le_def u64_to_le_def u16_from_le_def u32_from_le_def
      u64_from_le_def le_word_round_trip)

lemma uN_to_from_le [simp, codec_simps]:
  "length bs = 2 \<Longrightarrow> u16_to_le (u16_from_le bs) = bs"
  "length bs = 4 \<Longrightarrow> u32_to_le (u32_from_le bs) = bs"
  "length bs = 8 \<Longrightarrow> u64_to_le (u64_from_le bs) = bs"
  by (simp_all add: u16_to_le_def u32_to_le_def u64_to_le_def u16_from_le_def u32_from_le_def
      u64_from_le_def le_bytes_round_trip)

lemma uN_to_le_inject [simp]:
  "u16_to_le a = u16_to_le a' \<longleftrightarrow> a = a'"
  "u32_to_le b = u32_to_le b' \<longleftrightarrow> b = b'"
  "u64_to_le c = u64_to_le c' \<longleftrightarrow> c = c'"
  by (metis uN_from_to_le)+

lemma uN_from_le_eq:
  "length as = 2 \<Longrightarrow> u16_from_le as = a \<longleftrightarrow> as = u16_to_le a"
  "length bs = 4 \<Longrightarrow> u32_from_le bs = b \<longleftrightarrow> bs = u32_to_le b"
  "length cs = 8 \<Longrightarrow> u64_from_le cs = c \<longleftrightarrow> cs = u64_to_le c"
  by auto

text \<open>A \<open>usize\<close> or \<open>u64\<close> length written as a \<open>u32\<close> prefix, as \<open>u32::try_from\<close> does.\<close>

definition u32_try_from :: "nat \<Rightarrow> u32 option" where
  "u32_try_from n = (if n < 2 ^ 32 then Some (word_of_nat n) else None)"

lemma u32_try_from_eq_Some [simp]: "u32_try_from n = Some w \<longleftrightarrow> unat w = n"
proof
  assume "u32_try_from n = Some w"
  then show "unat w = n" by (auto simp: u32_try_from_def unat_of_nat split: if_splits)
next
  assume "unat w = n"
  moreover have "unat w < 2 ^ 32" using unsigned_less [of w] by simp
  ultimately show "u32_try_from n = Some w" by (auto simp: u32_try_from_def)
qed

text \<open>\<open>u16::try_from\<close> and \<open>u8::try_from\<close> of a \<open>usize\<close>.\<close>

definition u16_try_from :: "nat \<Rightarrow> u16 option" where
  "u16_try_from n = (if n < 2 ^ 16 then Some (word_of_nat n) else None)"

definition u8_try_from :: "nat \<Rightarrow> u8 option" where
  "u8_try_from n = (if n < 2 ^ 8 then Some (word_of_nat n) else None)"

lemma try_from_counts:
  "u16_try_from n = Some w \<longleftrightarrow> n < 65536 \<and> w = word_of_nat n"
  "u8_try_from m = Some v \<longleftrightarrow> m < 256 \<and> v = word_of_nat m"
  by (auto simp: u16_try_from_def u8_try_from_def)

definition u64_try_from :: "nat \<Rightarrow> u64 option" where
  "u64_try_from n = (if n < 2 ^ 64 then Some (word_of_nat n) else None)"

lemma u64_try_from_iff: "u64_try_from n = Some w \<longleftrightarrow> n < 2 ^ 64 \<and> w = word_of_nat n"
  by (auto simp: u64_try_from_def)

lemma unat_u8_bound: "unat (w :: u8) < 256"
  using unsigned_less [of w] by simp

lemma unat_u16_bound: "unat (w :: u16) < 65536"
  using unsigned_less [of w] by simp

lemma unat_u32_bound: "unat (w :: u32) < 4294967296"
  using unsigned_less [of w] by simp

lemma u32_max: "w \<le> (0xFFFFFFFF :: u32)"
  using unat_u32_bound [of w] by (simp add: word_le_nat_alt)

lemma unat_u64_bound: "unat (w :: u64) < 18446744073709551616"
  using unsigned_less [of w] by simp

lemma ex_u64: "(\<exists>w :: u64. unat w = n \<and> Q w) \<longleftrightarrow> n < 2 ^ 64 \<and> Q (word_of_nat n)"
proof
  assume "\<exists>w :: u64. unat w = n \<and> Q w"
  then show "n < 2 ^ 64 \<and> Q (word_of_nat n)" using unat_u64_bound by auto
next
  assume "n < 2 ^ 64 \<and> Q (word_of_nat n)"
  then show "\<exists>w :: u64. unat w = n \<and> Q w"
    by (intro exI [of _ "word_of_nat n"]) (simp add: unat_of_nat)
qed

lemma ex_unat_u64: "(\<exists>w :: u64. n = unat w) \<longleftrightarrow> n < 2 ^ 64"
  using ex_u64 [of n "\<lambda>_. True"] by auto

section \<open>Lists\<close>

lemma length_concat_fixed:
  "(\<And>x. x \<in> set xs \<Longrightarrow> length x = n) \<Longrightarrow> length (concat xs) = n * length xs"
  by (induction xs) simp_all

lemma append_eq_same_length:
  "length xs = length ys \<Longrightarrow> xs @ us = ys @ vs \<longleftrightarrow> xs = ys \<and> us = vs"
  by simp

lemma list_all_eq_replicate: "list_all (\<lambda>b. b = z) xs \<longleftrightarrow> xs = replicate (length xs) z"
  by (induction xs) auto

lemma list_of_length_split:
  "n \<le> length xs \<Longrightarrow> \<exists>ys zs. xs = ys @ zs \<and> length ys = n"
  by (metis append_take_drop_id length_take min_absorb2)

end
