(* ===== verification/Codec.thy ===== *)
theory Codec
  imports Prelude
begin

text \<open>
  The contract every strict wire format of the program promises. A codec has a fallible encoder, a
  fallible decoder and the set of values it is meant for. A valid value survives encoding and
  decoding, and a byte string that decodes at all is the one encoding of a valid value, so there is
  no second spelling of a value, no trailing data and no ignored padding. \<open>fixed_codec\<close> adds a
  constant width. The guest header, the statement and the profile manifest are instances; each
  theory interprets the locale on its own encoder and decoder.
\<close>

locale codec =
  fixes encode :: "'a \<Rightarrow> 'f + bytes"
    and decode :: "bytes \<Rightarrow> 'e + 'a"
    and valid :: "'a \<Rightarrow> bool"
  assumes encode_total: "valid x \<Longrightarrow> \<exists>bs. encode x = Inr bs \<and> decode bs = Inr x"
    and decode_sound: "decode bs = Inr x \<Longrightarrow> valid x \<and> encode x = Inr bs"
begin

lemma decode_encode: "valid x \<Longrightarrow> encode x = Inr bs \<Longrightarrow> decode bs = Inr x"
  by (metis encode_total Inr_inject)

lemma encode_inject: "valid x \<Longrightarrow> valid y \<Longrightarrow> encode x = encode y \<Longrightarrow> x = y"
  by (metis encode_total Inr_inject)

lemma decode_inject: "decode bs = Inr x \<Longrightarrow> decode cs = Inr x \<Longrightarrow> bs = cs"
  by (metis decode_sound Inr_inject)

lemma decode_ok_iff: "(\<exists>x. decode bs = Inr x) \<longleftrightarrow> (\<exists>x. valid x \<and> encode x = Inr bs)"
  using decode_sound decode_encode by blast

lemma decode_eq_iff: "decode bs = Inr x \<longleftrightarrow> valid x \<and> encode x = Inr bs"
  using decode_sound decode_encode by blast

end

locale fixed_codec = codec +
  fixes width :: nat
  assumes encode_width: "valid x \<Longrightarrow> encode x = Inr bs \<Longrightarrow> length bs = width"
begin

lemma decode_width: "decode bs = Inr x \<Longrightarrow> length bs = width"
  using decode_sound encode_width by blast

lemma decode_other_width: "length bs \<noteq> width \<Longrightarrow> \<exists>e. decode bs = Inl e"
  using decode_width by (metis sumE)

lemma encode_prefix_free:
  assumes "valid x" "valid y" "encode x = Inr bs" "encode y = Inr cs" "bs @ us = cs @ vs"
  shows "x = y \<and> us = vs"
proof -
  have "length bs = length cs" using assms encode_width by metis
  with assms(5) have "bs = cs" "us = vs" by auto
  with assms show ?thesis using encode_inject by metis
qed

end

end
