(* ===== verification/GuestAbi.thy ===== *)
theory GuestAbi
  imports Codec
begin

text \<open>
  The private input of the calibration guest (\<open>methods/src/lib.rs\<close>) and the guest program that
  reads it (\<open>methods/guest/src/main.rs\<close>): the 60-byte header with its constructors, encoder and
  strict decoder, the deterministic workload, and the two execution paths with their reads, receipt
  verifications and journal commits. The zkVM environment (\<open>risc0_zkvm::guest::env\<close>) is a parameter.
\<close>

section \<open>The header\<close>

definition GUEST_INPUT_HEADER_BYTES :: nat where "GUEST_INPUT_HEADER_BYTES = 60"
definition GUEST_STATEMENT_CHUNK_BYTES :: nat where "GUEST_STATEMENT_CHUNK_BYTES = 256"
definition MAX_GUEST_STATEMENT_BYTES :: nat where "MAX_GUEST_STATEMENT_BYTES = 16543"

datatype GuestMode =
    Plain
  | VerifyAssumptionZeroRoot
  | VerifyAssumptionExplicitRoot
  | VerifyAssumptionExplicitRootTwice

datatype InputAbiError =
    InvalidHeaderLength nat nat
  | StatementTooLong nat nat
  | InvalidMode u32
  | UnexpectedAssumptionImageId
  | MissingAssumptionImageId

fun guest_mode_code :: "GuestMode \<Rightarrow> u32" where
  "guest_mode_code Plain = 0"
| "guest_mode_code VerifyAssumptionZeroRoot = 1"
| "guest_mode_code VerifyAssumptionExplicitRoot = 2"
| "guest_mode_code VerifyAssumptionExplicitRootTwice = 3"

definition guest_mode_from_u32 :: "u32 \<Rightarrow> InputAbiError + GuestMode" where
  "guest_mode_from_u32 value =
     (if value = 0 then Inr Plain
      else if value = 1 then Inr VerifyAssumptionZeroRoot
      else if value = 2 then Inr VerifyAssumptionExplicitRoot
      else if value = 3 then Inr VerifyAssumptionExplicitRootTwice
      else Inl (InvalidMode value))"

fun assumption_count :: "GuestMode \<Rightarrow> nat" where
  "assumption_count Plain = 0"
| "assumption_count VerifyAssumptionZeroRoot = 1"
| "assumption_count VerifyAssumptionExplicitRoot = 1"
| "assumption_count VerifyAssumptionExplicitRootTwice = 2"

definition verifies_assumption :: "GuestMode \<Rightarrow> bool" where
  "verifies_assumption m = (assumption_count m \<noteq> 0)"

record GuestInputHeader =
  hdr_mode :: GuestMode
  hdr_statement_length :: u32
  hdr_workload_iterations :: u32
  hdr_workload_seed :: u64
  hdr_expected_workload_result :: u64
  hdr_assumption_image_id :: bytes

section \<open>The deterministic workload\<close>

definition workload_round :: "u64 \<Rightarrow> u32 \<Rightarrow> u64" where
  "workload_round state0 round =
     (let state1 = state0 + (0x9e3779b97f4a7c15 XOR ucast round);
          state2 = (state1 XOR drop_bit 30 state1) * 0xbf58476d1ce4e5b9;
          state3 = (state2 XOR drop_bit 27 state2) * 0x94d049bb133111eb
      in state3 XOR drop_bit 31 state3)"

definition workload_result :: "u64 \<Rightarrow> u32 \<Rightarrow> u64" where
  "workload_result state0 iterations =
     fold (\<lambda>round state. workload_round state (word_of_nat round)) [0..<unat iterations] state0"

section \<open>Construction, encoding and decoding\<close>

definition validate_statement_length :: "nat \<Rightarrow> InputAbiError + unit" where
  "validate_statement_length statement_length =
     (if statement_length \<le> MAX_GUEST_STATEMENT_BYTES then Inr ()
      else Inl (StatementTooLong statement_length MAX_GUEST_STATEMENT_BYTES))"

definition validate_mode_image_id :: "GuestMode \<Rightarrow> bytes \<Rightarrow> InputAbiError + unit" where
  "validate_mode_image_id mode assumption_image_id =
     (let is_zero = list_all (\<lambda>byte. byte = 0) assumption_image_id
      in case mode of
           Plain \<Rightarrow> (if is_zero then Inr () else Inl UnexpectedAssumptionImageId)
         | _ \<Rightarrow> (if is_zero then Inl MissingAssumptionImageId else Inr ()))"

definition header_new_for_mode ::
  "GuestMode \<Rightarrow> nat \<Rightarrow> u32 \<Rightarrow> u64 \<Rightarrow> bytes \<Rightarrow> InputAbiError + GuestInputHeader" where
  "header_new_for_mode mode statement_length workload_iterations workload_seed assumption_image_id =
     and_then (validate_statement_length statement_length) (\<lambda>_.
     and_then (validate_mode_image_id mode assumption_image_id) (\<lambda>_.
     and_then (ok_or (u32_try_from statement_length)
                 (StatementTooLong statement_length MAX_GUEST_STATEMENT_BYTES)) (\<lambda>length32.
     Inr \<lparr>hdr_mode = mode,
          hdr_statement_length = length32,
          hdr_workload_iterations = workload_iterations,
          hdr_workload_seed = workload_seed,
          hdr_expected_workload_result = workload_result workload_seed workload_iterations,
          hdr_assumption_image_id = assumption_image_id\<rparr>)))"

definition header_new :: "nat \<Rightarrow> u32 \<Rightarrow> u64 \<Rightarrow> InputAbiError + GuestInputHeader" where
  "header_new statement_length workload_iterations workload_seed =
     header_new_for_mode Plain statement_length workload_iterations workload_seed
       (replicate 32 0)"

definition header_new_verifying_zero_root ::
  "nat \<Rightarrow> u32 \<Rightarrow> u64 \<Rightarrow> bytes \<Rightarrow> InputAbiError + GuestInputHeader" where
  "header_new_verifying_zero_root = header_new_for_mode VerifyAssumptionZeroRoot"

definition header_new_verifying_explicit_root ::
  "nat \<Rightarrow> u32 \<Rightarrow> u64 \<Rightarrow> bytes \<Rightarrow> InputAbiError + GuestInputHeader" where
  "header_new_verifying_explicit_root = header_new_for_mode VerifyAssumptionExplicitRoot"

definition header_new_verifying_explicit_root_twice ::
  "nat \<Rightarrow> u32 \<Rightarrow> u64 \<Rightarrow> bytes \<Rightarrow> InputAbiError + GuestInputHeader" where
  "header_new_verifying_explicit_root_twice =
     header_new_for_mode VerifyAssumptionExplicitRootTwice"

text \<open>\<open>slice.split_first_chunk::<N>()\<close>.\<close>

definition split_first_chunk :: "nat \<Rightarrow> bytes \<Rightarrow> (bytes \<times> bytes) option" where
  "split_first_chunk n bs = (if n \<le> length bs then Some (take n bs, drop n bs) else None)"

definition header_decode :: "bytes \<Rightarrow> InputAbiError + GuestInputHeader" where
  "header_decode bs =
     (let invalid_header = InvalidHeaderLength (length bs) GUEST_INPUT_HEADER_BYTES in
      if length bs \<noteq> GUEST_INPUT_HEADER_BYTES then Inl invalid_header
      else
        and_then (ok_or (split_first_chunk 4 bs) invalid_header) (\<lambda>(mode_bytes, rest1).
        and_then (ok_or (split_first_chunk 4 rest1) invalid_header)
          (\<lambda>(statement_length_bytes, rest2).
        and_then (ok_or (split_first_chunk 4 rest2) invalid_header)
          (\<lambda>(workload_iterations_bytes, rest3).
        and_then (ok_or (split_first_chunk 8 rest3) invalid_header)
          (\<lambda>(workload_seed_bytes, rest4).
        and_then (ok_or (split_first_chunk 8 rest4) invalid_header)
          (\<lambda>(expected_workload_result_bytes, assumption_image_id).
        and_then (ensure (length assumption_image_id = 32) invalid_header) (\<lambda>_.
        and_then (guest_mode_from_u32 (u32_from_le mode_bytes)) (\<lambda>mode.
        (let statement_length = u32_from_le statement_length_bytes in
         and_then (validate_statement_length (unat statement_length)) (\<lambda>_.
         and_then (validate_mode_image_id mode assumption_image_id) (\<lambda>_.
         Inr \<lparr>hdr_mode = mode,
              hdr_statement_length = statement_length,
              hdr_workload_iterations = u32_from_le workload_iterations_bytes,
              hdr_workload_seed = u64_from_le workload_seed_bytes,
              hdr_expected_workload_result = u64_from_le expected_workload_result_bytes,
              hdr_assumption_image_id = assumption_image_id\<rparr>)))))))))))"

definition header_encode :: "GuestInputHeader \<Rightarrow> bytes" where
  "header_encode h =
     u32_to_le (guest_mode_code (hdr_mode h)) @
     u32_to_le (hdr_statement_length h) @
     u32_to_le (hdr_workload_iterations h) @
     u64_to_le (hdr_workload_seed h) @
     u64_to_le (hdr_expected_workload_result h) @
     hdr_assumption_image_id h"

definition encoded_input_length :: "GuestInputHeader \<Rightarrow> nat" where
  "encoded_input_length h = GUEST_INPUT_HEADER_BYTES + unat (hdr_statement_length h)"

definition workload_matches :: "GuestInputHeader \<Rightarrow> bool" where
  "workload_matches h \<longleftrightarrow>
     workload_result (hdr_workload_seed h) (hdr_workload_iterations h)
       = hdr_expected_workload_result h"

text \<open>The header values both constructors and the decoder can produce.\<close>

definition valid_header :: "GuestInputHeader \<Rightarrow> bool" where
  "valid_header h \<longleftrightarrow>
     length (hdr_assumption_image_id h) = 32
     \<and> unat (hdr_statement_length h) \<le> MAX_GUEST_STATEMENT_BYTES
     \<and> (list_all (\<lambda>b. b = 0) (hdr_assumption_image_id h) \<longleftrightarrow> hdr_mode h = Plain)"

lemma guest_mode_round_trip [simp]: "guest_mode_from_u32 (guest_mode_code m) = Inr m"
  by (cases m) (simp_all add: guest_mode_from_u32_def)

lemma guest_mode_from_u32_eq_Inr [simp]:
  "guest_mode_from_u32 v = Inr m \<longleftrightarrow> v = guest_mode_code m"
  by (cases m) (auto simp: guest_mode_from_u32_def split: if_splits)

lemma validate_mode_image_id_eq_Inr [simp]:
  "validate_mode_image_id m i = Inr u \<longleftrightarrow> (list_all (\<lambda>b. b = 0) i \<longleftrightarrow> m = Plain)"
  by (cases m) (auto simp: validate_mode_image_id_def)

lemma validate_statement_length_eq_Inr [simp]:
  "validate_statement_length n = Inr u \<longleftrightarrow> n \<le> MAX_GUEST_STATEMENT_BYTES"
  by (auto simp: validate_statement_length_def)

lemma split_first_chunk_eq_Some [simp]:
  "split_first_chunk n bs = Some (p, r) \<longleftrightarrow> bs = p @ r \<and> length p = n"
  by (auto simp: split_first_chunk_def)

lemma header_decode_eq_Inr:
  "header_decode bs = Inr h \<longleftrightarrow> valid_header h \<and> bs = header_encode h"
proof
  assume "header_decode bs = Inr h"
  then show "valid_header h \<and> bs = header_encode h"
    by (auto simp: header_decode_def Let_def header_encode_def valid_header_def uN_from_le_eq
        split: if_splits)
next
  assume "valid_header h \<and> bs = header_encode h"
  then show "header_decode bs = Inr h"
    by (auto simp: header_decode_def Let_def header_encode_def valid_header_def
        GUEST_INPUT_HEADER_BYTES_def split_first_chunk_def validate_statement_length_def)
qed

lemma length_header_encode: "valid_header h \<Longrightarrow> length (header_encode h) = GUEST_INPUT_HEADER_BYTES"
  by (simp add: header_encode_def valid_header_def GUEST_INPUT_HEADER_BYTES_def)

interpretation guest_header: fixed_codec "\<lambda>h. Inr (header_encode h)" header_decode valid_header
    GUEST_INPUT_HEADER_BYTES
  by unfold_locales (auto simp: header_decode_eq_Inr length_header_encode)

lemma header_decode_encode: "valid_header h \<Longrightarrow> header_decode (header_encode h) = Inr h"
  by (simp add: header_decode_eq_Inr)

lemma header_new_for_mode_eq_Inr:
  "header_new_for_mode m n it seed img = Inr h \<longleftrightarrow>
     n \<le> MAX_GUEST_STATEMENT_BYTES \<and> (list_all (\<lambda>b. b = 0) img \<longleftrightarrow> m = Plain)
     \<and> h = \<lparr>hdr_mode = m, hdr_statement_length = word_of_nat n, hdr_workload_iterations = it,
            hdr_workload_seed = seed, hdr_expected_workload_result = workload_result seed it,
            hdr_assumption_image_id = img\<rparr>"
  by (auto simp: header_new_for_mode_def MAX_GUEST_STATEMENT_BYTES_def unat_of_nat)

section \<open>The workload is a permutation of its seeds\<close>

text \<open>
  Each round adds a constant, xors a right shift and multiplies by an odd constant; all of these are
  injective on 64-bit values, so a header commits to its seed through the expected result.
\<close>

lemma xor_drop_bit_inject:
  fixes x y :: "'w::len word"
  assumes "0 < k" and "x XOR drop_bit k x = y XOR drop_bit k y"
  shows "x = y"
proof -
  define d where "d = x XOR y"
  have step: "bit d i = bit d (k + i)" for i
  proof -
    have "bit (x XOR drop_bit k x) i = bit (y XOR drop_bit k y) i" using assms(2) by simp
    then show ?thesis by (auto simp: d_def bit_xor_iff bit_drop_bit_eq)
  qed
  have far: "bit d i = bit d (m * k + i)" for i m
    by (induction m) (simp_all add: step add.assoc flip: step)
  have "\<not> bit d i" for i
  proof -
    have "LENGTH('w) \<le> LENGTH('w) * k + i" using \<open>0 < k\<close> by (simp add: trans_le_add1)
    then have "\<not> bit d (LENGTH('w) * k + i)" by (auto dest: bit_imp_le_length)
    with far [of i "LENGTH('w)"] show ?thesis by simp
  qed
  then show ?thesis by (auto simp: d_def bit_xor_iff bit_eq_iff)
qed

lemma mult_inverse_inject:
  fixes x y :: "'w::len word"
  assumes "c * c' = 1" and "x * c = y * c"
  shows "x = y"
proof -
  have "x * c * c' = y * c * c'" using assms(2) by simp
  then show ?thesis using assms(1) by (simp add: mult.assoc)
qed

lemma workload_round_inject: "workload_round x r = workload_round y r \<longleftrightarrow> x = y"
proof
  assume "workload_round x r = workload_round y r"
  then show "x = y"
    unfolding workload_round_def Let_def
    by - (drule xor_drop_bit_inject [rotated], simp,
        drule mult_inverse_inject [where c' = "0x319642b2d24d8ec3", rotated], simp,
        drule xor_drop_bit_inject [rotated], simp,
        drule mult_inverse_inject [where c' = "0x96de1b173f119089", rotated], simp,
        drule xor_drop_bit_inject [rotated], simp, simp)
qed simp

lemma workload_fold_inject:
  "fold (\<lambda>r s. workload_round s (word_of_nat r)) rs x
     = fold (\<lambda>r s. workload_round s (word_of_nat r)) rs y \<longleftrightarrow> x = y"
  by (induction rs arbitrary: x y) (simp_all add: workload_round_inject)

lemma workload_result_inject: "workload_result x n = workload_result y n \<longleftrightarrow> x = y"
  by (simp add: workload_result_def workload_fold_inject)

section \<open>Properties\<close>

text \<open>A 60-byte header decodes exactly when it is the encoding of a valid header, and the
  decoded value is that header: every encoding decodes to itself and there is no second byte string
  for a header.\<close>

theorem header_decode_exact:
  "header_decode bs = Inr h \<longleftrightarrow> valid_header h \<and> header_encode h = bs"
  by (metis guest_header.decode_eq_iff Inr_inject)

text \<open>A header built by any constructor is valid, passes its own workload check, carries the
  requested statement length, and two constructions with different seeds differ in the expected
  result.\<close>

theorem constructed_header_ok:
  assumes "header_new_for_mode m n it seed img = Inr h" and "length img = 32"
  shows "valid_header h \<and> workload_matches h \<and> unat (hdr_statement_length h) = n
    \<and> header_decode (header_encode h) = Inr h
    \<and> (hdr_expected_workload_result h = workload_result seed' it \<longleftrightarrow> seed = seed')"
proof -
  have "valid_header h" "workload_matches h" "unat (hdr_statement_length h) = n"
    "hdr_expected_workload_result h = workload_result seed it"
    using assms
    by (auto simp: header_new_for_mode_eq_Inr valid_header_def workload_matches_def unat_of_nat
        MAX_GUEST_STATEMENT_BYTES_def)
  then show ?thesis by (simp add: workload_result_inject header_decode_eq_Inr)
qed

theorem constructed_header_ok_witness:
  "\<exists>h. header_new_for_mode VerifyAssumptionZeroRoot 3 0 9 (1 # replicate 31 0) = Inr h
    \<and> valid_header h \<and> workload_matches h \<and> unat (hdr_statement_length h) = 3"
proof -
  let ?img = "1 # replicate 31 0 :: bytes"
  obtain h where h: "header_new_for_mode VerifyAssumptionZeroRoot 3 0 9 ?img = Inr h"
    by (simp add: header_new_for_mode_def validate_statement_length_def
        validate_mode_image_id_def MAX_GUEST_STATEMENT_BYTES_def u32_try_from_def)
  have "length ?img = 32" by simp
  from constructed_header_ok [OF h this] h show ?thesis by blast
qed

end
