(* ===== verification/GuestProgram.thy ===== *)
theory GuestProgram
  imports GuestAbi
begin

text \<open>
  The calibration guest \<open>methods/guest/src/main.rs\<close>. The zkVM environment is the parameter
  \<open>guest_env\<close>: an opaque world \<open>'w\<close> with the calls the guest makes. \<open>env_laws\<close> states what
  those calls document, over three observations of the world: the private input still unread, the
  journal committed so far and the receipt verifications requested so far.
\<close>

section \<open>The environment\<close>

datatype GuestStop =
    Exit1 \<comment> \<open>\<open>env::exit(1)\<close>\<close>
  | Panicked \<comment> \<open>an exhausted input, a failed \<open>unwrap\<close> or a slice index out of range\<close>

datatype VerifyRequest =
    VerifyJournal bytes bytes \<comment> \<open>image identifier and journal: zero-root self-composition\<close>
  | VerifyClaim bytes bytes \<comment> \<open>claim digest and control root\<close>

record 'w guest_env =
  env_read_slice :: "'w \<Rightarrow> nat \<Rightarrow> (bytes \<times> 'w) option"
  env_commit_slice :: "'w \<Rightarrow> bytes \<Rightarrow> 'w"
  env_verify :: "'w \<Rightarrow> bytes \<Rightarrow> bytes \<Rightarrow> 'w option"
  env_verify_assumption :: "'w \<Rightarrow> bytes \<Rightarrow> bytes \<Rightarrow> 'w option"
  env_digest :: "bytes \<Rightarrow> bytes"
  env_ok_claim_digest :: "bytes \<Rightarrow> bytes \<Rightarrow> bytes"
  env_allowed_control_root :: bytes

definition env_laws ::
  "'w guest_env \<Rightarrow> ('w \<Rightarrow> bytes) \<Rightarrow> ('w \<Rightarrow> bytes) \<Rightarrow> ('w \<Rightarrow> VerifyRequest list) \<Rightarrow> bool" where
  "env_laws e inp jrn req \<longleftrightarrow>
     (\<forall>w n. env_read_slice e w n = None \<longrightarrow> length (inp w) < n)
   \<and> (\<forall>w n bs w'. env_read_slice e w n = Some (bs, w') \<longrightarrow>
        inp w = bs @ inp w' \<and> length bs = n \<and> jrn w' = jrn w \<and> req w' = req w)
   \<and> (\<forall>w bs. inp (env_commit_slice e w bs) = inp w
            \<and> jrn (env_commit_slice e w bs) = jrn w @ bs
            \<and> req (env_commit_slice e w bs) = req w)
   \<and> (\<forall>w img j w'. env_verify e w img j = Some w' \<longrightarrow>
        inp w' = inp w \<and> jrn w' = jrn w \<and> req w' = req w @ [VerifyJournal img j])
   \<and> (\<forall>w c r w'. env_verify_assumption e w c r = Some w' \<longrightarrow>
        inp w' = inp w \<and> jrn w' = jrn w \<and> req w' = req w @ [VerifyClaim c r])"

section \<open>The guest\<close>

definition next_statement_chunk_length :: "nat \<Rightarrow> nat" where
  "next_statement_chunk_length remaining =
     (if remaining < GUEST_STATEMENT_CHUNK_BYTES then remaining else GUEST_STATEMENT_CHUNK_BYTES)"

lemma next_statement_chunk_length_pos:
  "remaining \<noteq> 0 \<Longrightarrow> 0 < next_statement_chunk_length remaining"
  by (simp add: next_statement_chunk_length_def GUEST_STATEMENT_CHUNK_BYTES_def)

lemma next_statement_chunk_length_le: "next_statement_chunk_length remaining \<le> remaining"
  by (simp add: next_statement_chunk_length_def)

definition require_workload :: "GuestInputHeader \<Rightarrow> GuestStop + unit" where
  "require_workload h =
     (let actual = workload_result (hdr_workload_seed h) (hdr_workload_iterations h)
      in if actual \<noteq> hdr_expected_workload_result h then Inl Exit1 else Inr ())"

text \<open>The loop of \<open>run_plain\<close>: one chunk is read and committed per round.\<close>

function plain_loop :: "'w guest_env \<Rightarrow> 'w \<Rightarrow> nat \<Rightarrow> GuestStop + 'w" where
  "plain_loop e w remaining =
     (if remaining = 0 then Inr w
      else
        let chunk_length = next_statement_chunk_length remaining in
        case env_read_slice e w chunk_length of
          None \<Rightarrow> Inl Panicked
        | Some (chunk, w') \<Rightarrow>
            plain_loop e (env_commit_slice e w' chunk) (remaining - chunk_length))"
  by pat_completeness auto
termination
  by (relation "measure (\<lambda>(e, w, remaining). remaining)")
    (auto simp: next_statement_chunk_length_pos)

declare plain_loop.simps [simp del]

definition run_plain :: "'w guest_env \<Rightarrow> GuestInputHeader \<Rightarrow> 'w \<Rightarrow> GuestStop + 'w" where
  "run_plain e h w =
     and_then (require_workload h) (\<lambda>_. plain_loop e w (unat (hdr_statement_length h)))"

text \<open>The read loop of \<open>run_assumption\<close>, filling the retained statement buffer.\<close>

function read_loop ::
  "'w guest_env \<Rightarrow> 'w \<Rightarrow> bytes \<Rightarrow> nat \<Rightarrow> nat \<Rightarrow> GuestStop + (bytes \<times> 'w)" where
  "read_loop e w statement offset remaining =
     (if remaining = 0 then Inr (statement, w)
      else
        let chunk_length = next_statement_chunk_length remaining in
        if length statement < offset + chunk_length then Inl Panicked
        else
          case env_read_slice e w chunk_length of
            None \<Rightarrow> Inl Panicked
          | Some (chunk, w') \<Rightarrow>
              read_loop e w'
                (take offset statement @ chunk @ drop (offset + chunk_length) statement)
                (offset + chunk_length) (remaining - chunk_length))"
  by pat_completeness auto
termination
  by (relation "measure (\<lambda>(e, w, statement, offset, remaining). remaining)")
    (auto simp: next_statement_chunk_length_pos)

declare read_loop.simps [simp del]

text \<open>The commit loop of \<open>run_assumption\<close>.\<close>

function commit_loop ::
  "'w guest_env \<Rightarrow> 'w \<Rightarrow> bytes \<Rightarrow> nat \<Rightarrow> nat \<Rightarrow> GuestStop + 'w" where
  "commit_loop e w statement committed statement_length =
     (if committed = statement_length then Inr w
      else if statement_length < committed then Inl Panicked
      else
        let chunk_length = next_statement_chunk_length (statement_length - committed) in
        if length statement < committed + chunk_length then Inl Panicked
        else
          commit_loop e (env_commit_slice e w (slice statement committed (committed + chunk_length)))
            statement (committed + chunk_length) statement_length)"
  by pat_completeness auto
termination
  by (relation "measure (\<lambda>(e, w, statement, committed, statement_length).
        statement_length - committed)")
    (auto simp: next_statement_chunk_length_pos intro!: diff_less_mono2)

declare commit_loop.simps [simp del]

definition verify_assumptions ::
  "'w guest_env \<Rightarrow> GuestInputHeader \<Rightarrow> bytes \<Rightarrow> 'w \<Rightarrow> GuestStop + 'w" where
  "verify_assumptions e h statement w =
     (let verify_claim = (\<lambda>w.
            let journal_digest = env_digest e statement;
                claim_digest = env_ok_claim_digest e (hdr_assumption_image_id h) journal_digest
            in ok_or (env_verify_assumption e w claim_digest (env_allowed_control_root e)) Panicked)
      in case hdr_mode h of
           Plain \<Rightarrow> Inl Exit1
         | VerifyAssumptionZeroRoot \<Rightarrow>
             ok_or (env_verify e w (hdr_assumption_image_id h) statement) Panicked
         | VerifyAssumptionExplicitRoot \<Rightarrow> verify_claim w
         | VerifyAssumptionExplicitRootTwice \<Rightarrow> and_then (verify_claim w) verify_claim)"

definition run_assumption :: "'w guest_env \<Rightarrow> GuestInputHeader \<Rightarrow> 'w \<Rightarrow> GuestStop + 'w" where
  "run_assumption e h w =
     (let statement_length = unat (hdr_statement_length h) in
      and_then (read_loop e w (replicate MAX_GUEST_STATEMENT_BYTES 0) 0 statement_length)
        (\<lambda>(statement, w1).
      and_then (verify_assumptions e h (take statement_length statement) w1) (\<lambda>w2.
      and_then (require_workload h) (\<lambda>_.
      commit_loop e w2 statement 0 statement_length))))"

definition guest_main :: "'w guest_env \<Rightarrow> 'w \<Rightarrow> GuestStop + 'w" where
  "guest_main e w =
     (case env_read_slice e w GUEST_INPUT_HEADER_BYTES of
        None \<Rightarrow> Inl Panicked
      | Some (header_bytes, w1) \<Rightarrow>
          (case header_decode header_bytes of
             Inl _ \<Rightarrow> Inl Exit1
           | Inr h \<Rightarrow>
               (case hdr_mode h of
                  Plain \<Rightarrow> run_plain e h w1
                | _ \<Rightarrow> run_assumption e h w1)))"

section \<open>What the loops do\<close>

lemma env_readD:
  assumes "env_laws e inp jrn req" "env_read_slice e w n = Some (bs, w')"
  shows "inp w = bs @ inp w'" "length bs = n" "jrn w' = jrn w" "req w' = req w"
  using assms by (auto simp: env_laws_def split: option.splits)

lemma env_read_NoneD: "env_laws e inp jrn req \<Longrightarrow> env_read_slice e w n = None \<Longrightarrow> length (inp w) < n"
  by (auto simp: env_laws_def split: option.splits)

lemma env_commit:
  assumes "env_laws e inp jrn req"
  shows "inp (env_commit_slice e w bs) = inp w" "jrn (env_commit_slice e w bs) = jrn w @ bs"
    "req (env_commit_slice e w bs) = req w"
  using assms by (auto simp: env_laws_def)

lemma require_workload_eq_Inr [simp]: "require_workload h = Inr u \<longleftrightarrow> workload_matches h"
  by (simp add: require_workload_def workload_matches_def)

lemma require_workload_eq_Inl [simp]:
  "require_workload h = Inl s \<longleftrightarrow> \<not> workload_matches h \<and> s = Exit1"
  by (auto simp: require_workload_def workload_matches_def)

text \<open>
  What a loop reads is described by \<open>stmt\<close>, the bytes it consumed; the only way it can fail is to run
  out of input.
\<close>

lemma plain_loop_ok:
  assumes laws: "env_laws e inp jrn req"
  shows "plain_loop e w n = Inr w' \<Longrightarrow>
    \<exists>stmt. length stmt = n \<and> inp w = stmt @ inp w' \<and> jrn w' = jrn w @ stmt \<and> req w' = req w"
  using laws
proof (induction e w n rule: plain_loop.induct)
  case (1 e w n)
  note IH = 1(1) and laws = 1(3)
  show ?case
  proof (cases "n = 0")
    case True
    with 1 show ?thesis by (simp add: plain_loop.simps)
  next
    case False
    let ?c = "next_statement_chunk_length n"
    from False 1(2) obtain chunk w1 where read: "env_read_slice e w ?c = Some (chunk, w1)"
      and rest: "plain_loop e (env_commit_slice e w1 chunk) (n - ?c) = Inr w'"
      by (auto simp: plain_loop.simps [of e w n] Let_def split: option.splits)
    from IH [OF False refl read refl rest laws] obtain stmt where
      "length stmt = n - ?c" "inp w1 = stmt @ inp w'" "jrn w' = (jrn w1 @ chunk) @ stmt"
      "req w' = req w1"
      by (auto simp: env_commit [OF laws])
    with env_readD [OF laws read] next_statement_chunk_length_le [of n] show ?thesis
      by (intro exI [of _ "chunk @ stmt"]) simp
  qed
qed

lemma plain_loop_total:
  assumes laws: "env_laws e inp jrn req"
  shows "n \<le> length (inp w) \<Longrightarrow> \<exists>w'. plain_loop e w n = Inr w'"
  using laws
proof (induction e w n rule: plain_loop.induct)
  case (1 e w n)
  note IH = 1(1) and laws = 1(3)
  show ?case
  proof (cases "n = 0")
    case True
    then show ?thesis by (simp add: plain_loop.simps)
  next
    case False
    let ?c = "next_statement_chunk_length n"
    have "\<not> length (inp w) < ?c" using 1(2) next_statement_chunk_length_le [of n] by simp
    then obtain chunk w1 where read: "env_read_slice e w ?c = Some (chunk, w1)"
      using env_read_NoneD [OF laws, of w ?c] by (cases "env_read_slice e w ?c") auto
    have "n - ?c \<le> length (inp (env_commit_slice e w1 chunk))"
      using env_readD [OF laws read] 1(2) by (simp add: env_commit [OF laws])
    from IH [OF False refl read refl this laws] show ?thesis
      by (simp add: plain_loop.simps [of e w n] False read Let_def)
  qed
qed

lemma read_loop_ok:
  assumes laws: "env_laws e inp jrn req"
  shows "read_loop e w buf off n = Inr (buf', w') \<Longrightarrow> off \<le> length buf \<Longrightarrow>
    \<exists>stmt. length stmt = n \<and> inp w = stmt @ inp w' \<and> jrn w' = jrn w \<and> req w' = req w
      \<and> length buf' = length buf \<and> off + n \<le> length buf \<and> take (off + n) buf' = take off buf @ stmt"
  using laws
proof (induction e w buf off n rule: read_loop.induct)
  case (1 e w buf off n)
  note IH = 1(1) and laws = 1(4)
  show ?case
  proof (cases "n = 0")
    case True
    with 1 show ?thesis by (simp add: read_loop.simps)
  next
    case False
    let ?c = "next_statement_chunk_length n"
    from False 1(2) obtain chunk w1 where fits: "\<not> length buf < off + ?c"
      and read: "env_read_slice e w ?c = Some (chunk, w1)"
      and rest: "read_loop e w1 (take off buf @ chunk @ drop (off + ?c) buf) (off + ?c) (n - ?c)
        = Inr (buf', w')"
      by (auto simp: read_loop.simps [of e w buf off n] Let_def split: option.splits if_splits)
    have len: "length (take off buf @ chunk @ drop (off + ?c) buf) = length buf"
      using env_readD [OF laws read] fits by simp
    with fits IH [OF False refl fits read refl rest _ laws] obtain stmt where
      "length stmt = n - ?c" "inp w1 = stmt @ inp w'" "jrn w' = jrn w1" "req w' = req w1"
      "length buf' = length buf" "off + ?c + (n - ?c) \<le> length buf"
      "take (off + ?c + (n - ?c)) buf' = take (off + ?c) (take off buf @ chunk @ drop (off + ?c) buf) @ stmt"
      by auto
    with env_readD [OF laws read] next_statement_chunk_length_le [of n] fits show ?thesis
      by (intro exI [of _ "chunk @ stmt"]) simp
  qed
qed

lemma read_loop_total:
  assumes laws: "env_laws e inp jrn req"
  shows "n \<le> length (inp w) \<Longrightarrow> off + n \<le> length buf \<Longrightarrow>
    \<exists>buf' w'. read_loop e w buf off n = Inr (buf', w')"
  using laws
proof (induction e w buf off n rule: read_loop.induct)
  case (1 e w buf off n)
  note IH = 1(1) and laws = 1(4)
  show ?case
  proof (cases "n = 0")
    case True
    then show ?thesis by (simp add: read_loop.simps)
  next
    case False
    let ?c = "next_statement_chunk_length n"
    have le: "?c \<le> n" by (rule next_statement_chunk_length_le)
    have "\<not> length (inp w) < ?c" using 1(2) le by simp
    then obtain chunk w1 where read: "env_read_slice e w ?c = Some (chunk, w1)"
      using env_read_NoneD [OF laws, of w ?c] by (cases "env_read_slice e w ?c") auto
    have fits: "\<not> length buf < off + ?c" using 1(3) le by simp
    have "n - ?c \<le> length (inp w1)" using env_readD [OF laws read] 1(2) by simp
    moreover have "off + ?c + (n - ?c) \<le> length (take off buf @ chunk @ drop (off + ?c) buf)"
      using env_readD [OF laws read] 1(3) le by simp
    ultimately show ?thesis
      using IH [OF False refl fits read refl _ _ laws]
      by (simp add: read_loop.simps [of e w buf off n] False read fits Let_def)
  qed
qed

lemma commit_loop_total:
  assumes laws: "env_laws e inp jrn req"
  shows "done \<le> n \<Longrightarrow> n \<le> length stmt \<Longrightarrow>
    \<exists>w'. commit_loop e w stmt done n = Inr w' \<and> inp w' = inp w \<and> req w' = req w
      \<and> jrn w' = jrn w @ slice stmt done n"
  using laws
proof (induction e w stmt "done" n rule: commit_loop.induct)
  case (1 e w stmt m n)
  note IH = 1(1) and laws = 1(4)
  show ?case
  proof (cases "m = n")
    case True
    then show ?thesis by (simp add: commit_loop.simps slice_def)
  next
    case False
    let ?c = "next_statement_chunk_length (n - m)"
    have le: "m + ?c \<le> n" using next_statement_chunk_length_le [of "n - m"] 1(2) by simp
    have lt: "\<not> n < m" and fits: "\<not> length stmt < m + ?c" using 1(2,3) le by simp_all
    from IH [OF False lt refl fits le 1(3) laws] show ?thesis
      using False lt fits slice_append_slice [of m "m + ?c" n stmt] le
      by (auto simp: commit_loop.simps [of e w stmt m n] Let_def env_commit [OF laws])
  qed
qed

section \<open>What the guest commits\<close>

text \<open>The receipt verifications a mode is meant to request, in order.\<close>

definition expected_requests ::
  "'w guest_env \<Rightarrow> GuestInputHeader \<Rightarrow> bytes \<Rightarrow> VerifyRequest list" where
  "expected_requests e h stmt =
     (let claim = VerifyClaim (env_ok_claim_digest e (hdr_assumption_image_id h) (env_digest e stmt))
                    (env_allowed_control_root e)
      in case hdr_mode h of
           Plain \<Rightarrow> []
         | VerifyAssumptionZeroRoot \<Rightarrow> [VerifyJournal (hdr_assumption_image_id h) stmt]
         | VerifyAssumptionExplicitRoot \<Rightarrow> [claim]
         | VerifyAssumptionExplicitRootTwice \<Rightarrow> [claim, claim])"

lemma length_expected_requests: "length (expected_requests e h stmt) = assumption_count (hdr_mode h)"
  by (cases "hdr_mode h") (simp_all add: expected_requests_def Let_def)

lemma env_verifyD:
  assumes "env_laws e inp jrn req"
  shows "env_verify e w img j = Some w' \<Longrightarrow>
      inp w' = inp w \<and> jrn w' = jrn w \<and> req w' = req w @ [VerifyJournal img j]"
    and "env_verify_assumption e w c r = Some w' \<Longrightarrow>
      inp w' = inp w \<and> jrn w' = jrn w \<and> req w' = req w @ [VerifyClaim c r]"
  using assms by (auto simp: env_laws_def)

lemma verify_assumptions_ok:
  assumes "env_laws e inp jrn req" and "verify_assumptions e h stmt w = Inr w'"
  shows "inp w' = inp w \<and> jrn w' = jrn w \<and> req w' = req w @ expected_requests e h stmt"
  using assms(2) env_verifyD [OF assms(1)]
  by (cases "hdr_mode h") (auto simp: verify_assumptions_def expected_requests_def Let_def)

text \<open>The host has the receipt that a request asks for.\<close>

fun grants :: "'w guest_env \<Rightarrow> 'w \<Rightarrow> VerifyRequest \<Rightarrow> bool" where
  "grants e w (VerifyJournal img j) \<longleftrightarrow> env_verify e w img j \<noteq> None"
| "grants e w (VerifyClaim c r) \<longleftrightarrow> env_verify_assumption e w c r \<noteq> None"

text \<open>
  The host has every receipt of a list of requests at the moment it is asked for: in any world that
  has the given input left, the given journal and the earlier requests of the list behind it.
\<close>

definition grants_in_turn ::
  "'w guest_env \<Rightarrow> ('w \<Rightarrow> bytes) \<Rightarrow> ('w \<Rightarrow> bytes) \<Rightarrow> ('w \<Rightarrow> VerifyRequest list)
    \<Rightarrow> bytes \<Rightarrow> bytes \<Rightarrow> VerifyRequest list \<Rightarrow> VerifyRequest list \<Rightarrow> bool" where
  "grants_in_turn e inp jrn req input journal earlier requests \<longleftrightarrow>
     (\<forall>i < length requests. \<forall>w. inp w = input \<longrightarrow> jrn w = journal
        \<longrightarrow> req w = earlier @ take i requests \<longrightarrow> grants e w (requests ! i))"

lemma grants_in_turnD:
  assumes "grants_in_turn e inp jrn req input journal earlier requests" "i < length requests"
    "inp w = input" "jrn w = journal" "req w = earlier @ take i requests"
  shows "grants e w (requests ! i)"
  using assms by (simp add: grants_in_turn_def)

lemma verify_assumptions_total:
  assumes laws: "env_laws e inp jrn req" and mode: "hdr_mode h \<noteq> Plain"
    and grants: "grants_in_turn e inp jrn req (inp w) (jrn w) (req w) (expected_requests e h stmt)"
  shows "\<exists>w'. verify_assumptions e h stmt w = Inr w'"
proof (cases "hdr_mode h")
  case VerifyAssumptionExplicitRootTwice
  let ?c = "env_ok_claim_digest e (hdr_assumption_image_id h) (env_digest e stmt)"
  let ?r = "env_allowed_control_root e"
  have requests: "expected_requests e h stmt = [VerifyClaim ?c ?r, VerifyClaim ?c ?r]"
    using VerifyAssumptionExplicitRootTwice by (simp add: expected_requests_def Let_def)
  have "grants e w (VerifyClaim ?c ?r)"
    using grants_in_turnD [OF grants, of 0 w] by (simp add: requests)
  then obtain w1 where w1: "env_verify_assumption e w ?c ?r = Some w1" by auto
  have "grants e w1 (VerifyClaim ?c ?r)"
    using grants_in_turnD [OF grants, of 1 w1] env_verifyD(2) [OF laws w1] by (simp add: requests)
  then obtain w2 where "env_verify_assumption e w1 ?c ?r = Some w2" by auto
  with w1 show ?thesis
    using VerifyAssumptionExplicitRootTwice by (simp add: verify_assumptions_def Let_def)
qed (use mode grants_in_turnD [OF grants, of 0 w] in
    \<open>auto simp: verify_assumptions_def expected_requests_def Let_def\<close>)

lemma run_plain_ok:
  assumes "env_laws e inp jrn req" and "run_plain e h w = Inr w'"
  shows "workload_matches h \<and> (\<exists>stmt. length stmt = unat (hdr_statement_length h)
    \<and> inp w = stmt @ inp w' \<and> jrn w' = jrn w @ stmt \<and> req w' = req w)"
  using assms plain_loop_ok [OF assms(1)] by (auto simp: run_plain_def)

lemma run_assumption_ok:
  assumes laws: "env_laws e inp jrn req" and run: "run_assumption e h w = Inr w'"
  shows "workload_matches h \<and> (\<exists>stmt. length stmt = unat (hdr_statement_length h)
    \<and> inp w = stmt @ inp w' \<and> jrn w' = jrn w @ stmt \<and> req w' = req w @ expected_requests e h stmt)"
proof -
  let ?n = "unat (hdr_statement_length h)"
  from run obtain buf w1 w2 where
      read: "read_loop e w (replicate MAX_GUEST_STATEMENT_BYTES 0) 0 ?n = Inr (buf, w1)"
    and ver: "verify_assumptions e h (take ?n buf) w1 = Inr w2"
    and match: "workload_matches h"
    and comm: "commit_loop e w2 buf 0 ?n = Inr w'"
    by (auto simp: run_assumption_def Let_def)
  from read_loop_ok [OF laws read] obtain stmt where stmt: "length stmt = ?n" "inp w = stmt @ inp w1"
    "jrn w1 = jrn w" "req w1 = req w" "?n \<le> length buf" "take ?n buf = stmt"
    by fastforce
  from commit_loop_total [OF laws, of 0 ?n buf w2] comm stmt(5,6)
  have "inp w' = inp w2" "req w' = req w2" "jrn w' = jrn w2 @ stmt"
    by (auto simp: slice_def)
  with verify_assumptions_ok [OF laws ver] stmt match show ?thesis by auto
qed

text \<open>C1. Safety of the guest: whenever it terminates normally, its input began with a valid header
  followed by exactly the declared statement, the workload result matched, exactly that statement was
  committed to the journal, and the requested verifications are those of the mode, in order. No other
  input makes the guest commit a complete journal.\<close>

theorem guest_commits_exact_statement:
  assumes laws: "env_laws e inp jrn req" and run: "guest_main e w = Inr w'"
  shows "\<exists>h stmt. valid_header h \<and> workload_matches h
    \<and> length stmt = unat (hdr_statement_length h)
    \<and> inp w = header_encode h @ stmt @ inp w'
    \<and> jrn w' = jrn w @ stmt
    \<and> req w' = req w @ expected_requests e h stmt"
proof -
  from run obtain hb w1 h where
      read: "env_read_slice e w GUEST_INPUT_HEADER_BYTES = Some (hb, w1)"
    and dec: "header_decode hb = Inr h"
    and body: "(case hdr_mode h of Plain \<Rightarrow> run_plain e h w1 | _ \<Rightarrow> run_assumption e h w1) = Inr w'"
    by (auto simp: guest_main_def split: option.splits sum.splits)
  have "workload_matches h \<and> (\<exists>stmt. length stmt = unat (hdr_statement_length h)
    \<and> inp w1 = stmt @ inp w' \<and> jrn w' = jrn w1 @ stmt \<and> req w' = req w1 @ expected_requests e h stmt)"
  proof (cases "hdr_mode h")
    case Plain
    with run_plain_ok [OF laws] body show ?thesis by (simp add: expected_requests_def)
  qed (use run_assumption_ok [OF laws] body in auto)
  with env_readD [OF laws read] dec show ?thesis
    by (auto simp: header_decode_eq_Inr)
qed

text \<open>C2. Progress of the guest: given a complete input -- a valid header whose workload matches, then
  the declared statement -- and a host that has each receipt the mode requests, for the statement and
  image of this input and at the moment it is requested, the guest terminates normally, having read
  no more than that input, committed the statement and made those requests. Nothing is assumed about
  the host having any other receipt.\<close>

theorem guest_finishes:
  assumes laws: "env_laws e inp jrn req"
    and input: "inp w = header_encode h @ stmt @ rest"
    and ok: "valid_header h" "workload_matches h" "length stmt = unat (hdr_statement_length h)"
    and grants: "grants_in_turn e inp jrn req rest (jrn w) (req w) (expected_requests e h stmt)"
  shows "\<exists>w'. guest_main e w = Inr w' \<and> inp w' = rest \<and> jrn w' = jrn w @ stmt
    \<and> req w' = req w @ expected_requests e h stmt"
proof -
  have len: "length (header_encode h) = GUEST_INPUT_HEADER_BYTES"
    using ok(1) by (rule length_header_encode)
  then obtain hb w1 where read: "env_read_slice e w GUEST_INPUT_HEADER_BYTES = Some (hb, w1)"
    using env_read_NoneD [OF laws, of w GUEST_INPUT_HEADER_BYTES] input
    by (cases "env_read_slice e w GUEST_INPUT_HEADER_BYTES") auto
  from env_readD [OF laws read] input len have hb: "hb = header_encode h" and in1: "inp w1 = stmt @ rest"
    and w1: "jrn w1 = jrn w" "req w1 = req w" by auto
  let ?n = "unat (hdr_statement_length h)"
  have plain: "\<exists>w'. run_plain e h w1 = Inr w'"
    using plain_loop_total [OF laws, of ?n w1] in1 ok(2,3) by (simp add: run_plain_def)
  have assumption: "\<exists>w'. run_assumption e h w1 = Inr w'" if conditional: "hdr_mode h \<noteq> Plain"
  proof -
    have "?n \<le> MAX_GUEST_STATEMENT_BYTES" using ok(1) by (simp add: valid_header_def)
    then obtain buf w2 where
      rd: "read_loop e w1 (replicate MAX_GUEST_STATEMENT_BYTES 0) 0 ?n = Inr (buf, w2)"
      using read_loop_total [OF laws, of ?n w1 0 "replicate MAX_GUEST_STATEMENT_BYTES 0"] in1 ok(3)
      by auto
    from read_loop_ok [OF laws rd] obtain s where "length s = ?n" "inp w1 = s @ inp w2"
      "jrn w2 = jrn w1" "req w2 = req w1" "?n \<le> length buf" "take ?n buf = s"
      by fastforce
    then have w2: "inp w2 = rest" "jrn w2 = jrn w" "req w2 = req w" "?n \<le> length buf" "take ?n buf = stmt"
      using in1 ok(3) w1 by auto
    then obtain w3 where "verify_assumptions e h (take ?n buf) w2 = Inr w3"
      using verify_assumptions_total [OF laws conditional, of w2 stmt] grants by auto
    then show ?thesis
      using rd ok(2) commit_loop_total [OF laws, of 0 ?n buf w3] w2(4)
      by (auto simp: run_assumption_def Let_def)
  qed
  have dec: "header_decode hb = Inr h" using ok(1) hb by (simp add: header_decode_eq_Inr)
  with read plain assumption obtain w' where run: "guest_main e w = Inr w'"
    and body: "(case hdr_mode h of Plain \<Rightarrow> run_plain e h w1 | _ \<Rightarrow> run_assumption e h w1) = Inr w'"
    by (cases "hdr_mode h") (auto simp: guest_main_def)
  have "\<exists>s. length s = ?n \<and> inp w1 = s @ inp w' \<and> jrn w' = jrn w1 @ s
      \<and> req w' = req w1 @ expected_requests e h s"
  proof (cases "hdr_mode h")
    case Plain
    with run_plain_ok [OF laws] body show ?thesis by (simp add: expected_requests_def)
  qed (use run_assumption_ok [OF laws] body in auto)
  then show ?thesis
    using run in1 w1 ok(3) by auto
qed

text \<open>The workload gate: with a valid header whose expected result is wrong, the guest never
  terminates normally, and in plain mode it exits with code 1 before reading any statement byte.\<close>

theorem guest_rejects_wrong_workload:
  assumes laws: "env_laws e inp jrn req" and input: "inp w = header_encode h @ rest"
    and h: "valid_header h" "\<not> workload_matches h"
  shows "guest_main e w \<noteq> Inr w' \<and> (hdr_mode h = Plain \<longrightarrow> guest_main e w = Inl Exit1)"
proof -
  have len: "length (header_encode h) = GUEST_INPUT_HEADER_BYTES"
    using h(1) by (rule length_header_encode)
  then obtain hb w1 where read: "env_read_slice e w GUEST_INPUT_HEADER_BYTES = Some (hb, w1)"
    using env_read_NoneD [OF laws, of w GUEST_INPUT_HEADER_BYTES] input
    by (cases "env_read_slice e w GUEST_INPUT_HEADER_BYTES") auto
  with env_readD [OF laws read] input len have "hb = header_encode h" by auto
  then have "header_decode hb = Inr h" using h(1) by (simp add: header_decode_eq_Inr)
  with read h(2) show ?thesis
    by (cases "hdr_mode h")
      (auto simp: guest_main_def run_plain_def run_assumption_def Let_def and_then_eq_Inl)
qed

section \<open>Witnesses\<close>

text \<open>A concrete environment: the world is the unread input, the journal and the requests.\<close>

definition stream_env :: "(bytes \<times> bytes \<times> VerifyRequest list) guest_env" where
  "stream_env =
     \<lparr>env_read_slice = (\<lambda>(i, j, r) n. if length i < n then None else Some (take n i, drop n i, j, r)),
      env_commit_slice = (\<lambda>(i, j, r) bs. (i, j @ bs, r)),
      env_verify = (\<lambda>(i, j, r) img m. Some (i, j, r @ [VerifyJournal img m])),
      env_verify_assumption = (\<lambda>(i, j, r) c root. Some (i, j, r @ [VerifyClaim c root])),
      env_digest = (\<lambda>_. replicate 32 7),
      env_ok_claim_digest = (\<lambda>_ _. replicate 32 8),
      env_allowed_control_root = replicate 32 9\<rparr>"

lemma stream_env_laws: "env_laws stream_env fst (fst \<circ> snd) (snd \<circ> snd)"
  by (auto simp: env_laws_def stream_env_def split: if_splits)

definition sample_header :: "GuestMode \<Rightarrow> u64 \<Rightarrow> GuestInputHeader" where
  "sample_header m expected =
     \<lparr>hdr_mode = m, hdr_statement_length = 3, hdr_workload_iterations = 1, hdr_workload_seed = 5,
      hdr_expected_workload_result = expected,
      hdr_assumption_image_id = (if m = Plain then replicate 32 0 else replicate 32 1)\<rparr>"

lemma sample_header_valid: "valid_header (sample_header m x)"
  by (simp add: valid_header_def sample_header_def MAX_GUEST_STATEMENT_BYTES_def list_all_iff)

lemma sample_header_fields [simp]:
  "hdr_mode (sample_header m x) = m" "hdr_statement_length (sample_header m x) = 3"
  by (simp_all add: sample_header_def)

lemma sample_header_matches:
  "workload_matches (sample_header m x) \<longleftrightarrow> x = workload_result 5 1"
  by (auto simp: workload_matches_def sample_header_def)

text \<open>An environment whose host has one single receipt.\<close>

definition one_receipt_env :: "(bytes \<times> bytes \<times> VerifyRequest list) guest_env" where
  "one_receipt_env = stream_env\<lparr>
     env_verify := (\<lambda>_ _ _. None),
     env_verify_assumption := (\<lambda>(i, j, r) c root.
       if c = replicate 32 8 \<and> root = replicate 32 9 then Some (i, j, r @ [VerifyClaim c root])
       else None)\<rparr>"

lemma one_receipt_env_laws: "env_laws one_receipt_env fst (fst \<circ> snd) (snd \<circ> snd)"
  by (auto simp: env_laws_def one_receipt_env_def stream_env_def split: if_splits)

theorem guest_finishes_witness:
  "\<exists>w'. guest_main one_receipt_env
     (header_encode (sample_header VerifyAssumptionExplicitRootTwice (workload_result 5 1)) @ [1, 2, 3],
      [], []) = Inr w' \<and> (fst \<circ> snd) w' = [1, 2, 3]"
proof -
  let ?h = "sample_header VerifyAssumptionExplicitRootTwice (workload_result 5 1)"
  let ?w = "(header_encode ?h @ [1, 2, 3], [], []) :: bytes \<times> bytes \<times> VerifyRequest list"
  have "grants_in_turn one_receipt_env fst (fst \<circ> snd) (snd \<circ> snd) [] ((fst \<circ> snd) ?w)
      ((snd \<circ> snd) ?w) (expected_requests one_receipt_env ?h [1, 2, 3])"
    by (auto simp: grants_in_turn_def expected_requests_def Let_def one_receipt_env_def stream_env_def
        less_Suc_eq numeral_2_eq_2)
  then show ?thesis
    using guest_finishes [OF one_receipt_env_laws, of ?w ?h "[1, 2, 3]" "[]"]
    by (auto simp: sample_header_valid sample_header_matches)
qed

theorem guest_commits_exact_statement_witness:
  "\<exists>w' h stmt. guest_main stream_env (header_encode (sample_header Plain (workload_result 5 1)) @ [1, 2, 3],
      [], []) = Inr w' \<and> valid_header h \<and> workload_matches h \<and> (fst \<circ> snd) w' = stmt"
proof -
  have pl: "plain_loop stream_env ([1, 2, 3], [], []) 3 = Inr ([], [1, 2, 3], [])"
    by (simp add: plain_loop.simps stream_env_def next_statement_chunk_length_def
        GUEST_STATEMENT_CHUNK_BYTES_def)
  have rd: "env_read_slice stream_env
        (header_encode (sample_header Plain (workload_result 5 1)) @ [1, 2, 3], [], [])
        GUEST_INPUT_HEADER_BYTES
      = Some (header_encode (sample_header Plain (workload_result 5 1)), [1, 2, 3], [], [])"
    using length_header_encode [OF sample_header_valid] by (simp add: stream_env_def)
  have "require_workload (sample_header Plain (workload_result 5 1)) = Inr ()"
    by (simp add: sample_header_matches)
  then have run: "guest_main stream_env
      (header_encode (sample_header Plain (workload_result 5 1)) @ [1, 2, 3], [], [])
      = Inr ([], [1, 2, 3], [])"
    unfolding guest_main_def rd
    by (simp add: header_decode_encode sample_header_valid run_plain_def pl
        sample_header_matches)
  from guest_commits_exact_statement [OF stream_env_laws run] run show ?thesis by fastforce
qed

theorem guest_rejects_wrong_workload_witness:
  "guest_main stream_env
     (header_encode (sample_header Plain (workload_result 5 1 + 1)), [], []) = Inl Exit1"
proof -
  have "\<not> workload_matches (sample_header Plain (workload_result 5 1 + 1))"
    by (simp add: sample_header_matches)
  from guest_rejects_wrong_workload [OF stream_env_laws _ sample_header_valid this, of _ "[]"]
  show ?thesis by simp
qed

end
