(* ===== verification/Canonical.thy ===== *)
theory Canonical
  imports Prelude
begin

text \<open>
  The lexical validators of \<open>reproduction/src/canonical.rs\<close>: fixed-width lowercase hexadecimal and
  canonical unsigned decimals. Text is the list of its bytes as characters. The decoder of the
  \<open>hex\<close> crate is not part of the repository; \<open>hex_decodes\<close> states what it documents on the
  lowercase inputs the program gives it.
\<close>

section \<open>Validators\<close>

datatype LexicalError =
    HexLengthOverflow
  | HexLength nat nat
  | HexCharacters
  | DecimalSpelling

definition is_ascii_digit :: "char \<Rightarrow> bool" where
  "is_ascii_digit c \<longleftrightarrow> c \<in> set ''0123456789''"

definition is_lower_hex_char :: "char \<Rightarrow> bool" where
  "is_lower_hex_char c \<longleftrightarrow> is_ascii_digit c \<or> c \<in> set ''abcdef''"

definition validate_lower_hex_exact :: "string \<Rightarrow> nat \<Rightarrow> LexicalError + unit" where
  "validate_lower_hex_exact value byte_len =
     and_then (ok_or (checked_mul_usize byte_len 2) HexLengthOverflow) (\<lambda>expected_len.
     if length value \<noteq> expected_len then Inl (HexLength (length value) expected_len)
     else if \<not> list_all is_lower_hex_char value then Inl HexCharacters
     else Inr ())"

definition validate_unsigned_decimal :: "string \<Rightarrow> LexicalError + unit" where
  "validate_unsigned_decimal value =
     (let is_canonical =
            (case value of
               [] \<Rightarrow> False
             | first # rest \<Rightarrow>
                 if first = CHR ''0'' \<and> rest = [] then True
                 else if first \<in> set ''123456789'' then list_all is_ascii_digit rest
                 else False)
      in if is_canonical then Inr () else Inl DecimalSpelling)"

section \<open>Hexadecimal text and its bytes\<close>

definition hex_value :: "char \<Rightarrow> nat" where
  "hex_value c = (let n = of_char c in if n < 58 then n - 48 else n - 87)"

fun hex_pairs :: "string \<Rightarrow> bytes" where
  "hex_pairs (a # b # s) = word_of_nat (16 * hex_value a + hex_value b) # hex_pairs s"
| "hex_pairs _ = []"

definition hex_decodes :: "(string \<Rightarrow> nat \<Rightarrow> bytes option) \<Rightarrow> bool" where
  "hex_decodes decode_to_slice \<longleftrightarrow>
     (\<forall>s n. length s = 2 * n \<and> list_all is_lower_hex_char s \<longrightarrow>
        decode_to_slice s n = Some (hex_pairs s))"

definition sample_hex_decode :: "string \<Rightarrow> nat \<Rightarrow> bytes option" where
  "sample_hex_decode s n =
     (if length s = 2 * n \<and> list_all is_lower_hex_char s then Some (hex_pairs s) else None)"

lemma sample_hex_decodes: "hex_decodes sample_hex_decode"
  by (simp add: hex_decodes_def sample_hex_decode_def)

lemma length_hex_pairs: "length s = 2 * n \<Longrightarrow> length (hex_pairs s) = n"
proof (induction s arbitrary: n rule: hex_pairs.induct)
  case (1 a b s)
  then show ?case by (cases n) auto
qed auto

lemma hex_value_bound: "is_lower_hex_char c \<Longrightarrow> hex_value c < 16"
  by (auto simp: is_lower_hex_char_def is_ascii_digit_def hex_value_def)

lemma hex_value_inverse: "is_lower_hex_char c \<Longrightarrow> ''0123456789abcdef'' ! hex_value c = c"
  by (auto simp: is_lower_hex_char_def is_ascii_digit_def hex_value_def)

lemma hex_value_inject:
  "is_lower_hex_char c \<Longrightarrow> is_lower_hex_char d \<Longrightarrow> hex_value c = hex_value d \<Longrightarrow> c = d"
  by (metis hex_value_inverse)

text \<open>Decimal text and its value, the reference for the canonical spelling.\<close>

definition digit_value :: "char \<Rightarrow> nat" where
  "digit_value c = of_char c - 48"

definition decimal_value :: "string \<Rightarrow> nat" where
  "decimal_value s = foldl (\<lambda>v c. 10 * v + digit_value c) 0 s"

definition decimal_digit :: "nat \<Rightarrow> char" where
  "decimal_digit d = ''0123456789'' ! d"

fun decimal_digits :: "nat \<Rightarrow> string" where
  "decimal_digits n =
     (if n < 10 then [decimal_digit n]
      else decimal_digits (n div 10) @ [decimal_digit (n mod 10)])"

declare decimal_digits.simps [simp del]

definition canonical_decimal :: "string \<Rightarrow> bool" where
  "canonical_decimal s \<longleftrightarrow>
     s \<noteq> [] \<and> list_all is_ascii_digit s \<and> (hd s = CHR ''0'' \<longrightarrow> tl s = [])"

lemma is_ascii_digit_iff: "is_ascii_digit c \<longleftrightarrow> c = CHR ''0'' \<or> c \<in> set ''123456789''"
  by (auto simp: is_ascii_digit_def)

lemma validate_unsigned_decimal_iff:
  "validate_unsigned_decimal s = Inr u \<longleftrightarrow> canonical_decimal s"
  by (cases s) (auto simp: validate_unsigned_decimal_def canonical_decimal_def is_ascii_digit_iff)

lemma digit_value_bound: "is_ascii_digit c \<Longrightarrow> digit_value c < 10"
  by (auto simp: is_ascii_digit_def digit_value_def)

lemma decimal_digit_value: "is_ascii_digit c \<Longrightarrow> decimal_digit (digit_value c) = c"
  by (auto simp: is_ascii_digit_def digit_value_def decimal_digit_def)

lemma digit_value_pos: "is_ascii_digit c \<Longrightarrow> c \<noteq> CHR ''0'' \<Longrightarrow> 0 < digit_value c"
  by (auto simp: is_ascii_digit_def digit_value_def)

lemma decimal_digit_cases: "d < 10 \<Longrightarrow> decimal_digit d \<in> set ''0123456789''"
  unfolding decimal_digit_def by (rule nth_mem) simp

lemma decimal_digit_zero: "d < 10 \<Longrightarrow> decimal_digit d = CHR ''0'' \<longleftrightarrow> d = 0"
proof -
  assume "d < 10"
  moreover have "distinct ''0123456789''" by simp
  ultimately have "''0123456789'' ! d = ''0123456789'' ! 0 \<longleftrightarrow> d = 0"
    by (subst nth_eq_iff_index_eq) auto
  then show ?thesis by (simp add: decimal_digit_def)
qed

lemma decimal_value_snoc: "decimal_value (s @ [c]) = 10 * decimal_value s + digit_value c"
  by (simp add: decimal_value_def)

lemma canonical_decimal_butlast:
  "canonical_decimal (s @ [c]) \<Longrightarrow> s \<noteq> [] \<Longrightarrow> canonical_decimal s \<and> hd s \<noteq> CHR ''0''"
  by (cases s) (auto simp: canonical_decimal_def)

lemma decimal_value_pos: "canonical_decimal s \<Longrightarrow> hd s \<noteq> CHR ''0'' \<Longrightarrow> 0 < decimal_value s"
proof (induction s rule: rev_induct)
  case Nil
  then show ?case by (simp add: canonical_decimal_def)
next
  case (snoc c s)
  show ?case
  proof (cases "s = []")
    case True
    with snoc.prems show ?thesis
      by (simp add: decimal_value_def canonical_decimal_def digit_value_pos)
  next
    case False
    with snoc.prems canonical_decimal_butlast [OF snoc.prems(1)] snoc.IH show ?thesis
      by (simp add: decimal_value_snoc)
  qed
qed

lemma decimal_digits_value: "canonical_decimal s \<Longrightarrow> decimal_digits (decimal_value s) = s"
proof (induction s rule: rev_induct)
  case Nil
  then show ?case by (simp add: canonical_decimal_def)
next
  case (snoc c s)
  from snoc.prems have c: "is_ascii_digit c" by (simp add: canonical_decimal_def)
  show ?case
  proof (cases "s = []")
    case True
    with c show ?thesis
      by (simp add: decimal_value_def decimal_digits.simps digit_value_bound decimal_digit_value)
  next
    case False
    note prefix = canonical_decimal_butlast [OF snoc.prems False]
    then have "0 < decimal_value s" by (simp add: decimal_value_pos)
    with c prefix snoc.IH show ?thesis
      using digit_value_bound [OF c]
      by (simp add: decimal_value_snoc decimal_digits.simps [of "10 * _ + _"] decimal_digit_value)
  qed
qed

lemma decimal_digits_canonical:
  "canonical_decimal (decimal_digits n) \<and> (hd (decimal_digits n) = CHR ''0'' \<longrightarrow> n = 0)"
proof (induction n rule: decimal_digits.induct)
  case (1 n)
  show ?case
  proof (cases "n < 10")
    case True
    then show ?thesis
      using decimal_digit_cases [OF True]
      by (simp add: decimal_digits.simps [of n] canonical_decimal_def is_ascii_digit_def
          decimal_digit_zero)
  next
    case False
    then have "canonical_decimal (decimal_digits (n div 10))"
      "hd (decimal_digits (n div 10)) \<noteq> CHR ''0''"
      using "1.IH" by auto
    moreover have "is_ascii_digit (decimal_digit (n mod 10))"
      using decimal_digit_cases [of "n mod 10"] by (simp add: is_ascii_digit_def)
    ultimately show ?thesis
      using False by (auto simp: decimal_digits.simps [of n] canonical_decimal_def)
  qed
qed

lemma decimal_value_digits: "decimal_value (decimal_digits n) = n"
proof (induction n rule: decimal_digits.induct)
  case (1 n)
  have digit: "digit_value (decimal_digit d) = d" if d: "d < 10" for d
  proof -
    have c: "is_ascii_digit (decimal_digit d)"
      using decimal_digit_cases [OF d] by (simp add: is_ascii_digit_def)
    have "distinct ''0123456789''" and ten: "length ''0123456789'' = 10" by simp_all
    from nth_eq_iff_index_eq [OF this(1), of "digit_value (decimal_digit d)" d]
    show ?thesis
      using decimal_digit_value [OF c] digit_value_bound [OF c] d
      unfolding ten by (simp only: decimal_digit_def) simp
  qed
  show ?case
  proof (cases "n < 10")
    case True
    then show ?thesis by (simp add: decimal_digits.simps [of n] decimal_value_def digit)
  next
    case False
    then show ?thesis
      using "1.IH" by (simp add: decimal_digits.simps [of n] decimal_value_snoc digit)
  qed
qed

text \<open>The decimal validator accepts a text exactly when it is the shortest spelling of the number
  it denotes, so every number has one accepted spelling.\<close>

theorem unsigned_decimal_canonical:
  "validate_unsigned_decimal s = Inr () \<longleftrightarrow> s = decimal_digits (decimal_value s)"
proof
  assume "validate_unsigned_decimal s = Inr ()"
  then show "s = decimal_digits (decimal_value s)"
    by (simp add: validate_unsigned_decimal_iff decimal_digits_value)
next
  assume "s = decimal_digits (decimal_value s)"
  then show "validate_unsigned_decimal s = Inr ()"
    using decimal_digits_canonical [of "decimal_value s"] by (simp add: validate_unsigned_decimal_iff)
qed

lemma validate_lower_hex_exact_iff:
  "validate_lower_hex_exact s n = Inr u \<longleftrightarrow>
     n * 2 < usize_limit \<and> length s = n * 2 \<and> list_all is_lower_hex_char s"
  by (auto simp: validate_lower_hex_exact_def split: if_splits)

lemma hex_pairs_inject:
  assumes "length s = 2 * n" "length t = 2 * n" "list_all is_lower_hex_char s"
    "list_all is_lower_hex_char t" "hex_pairs s = hex_pairs t"
  shows "s = t"
  using assms
proof (induction n arbitrary: s t)
  case 0
  then show ?case by simp
next
  case (Suc n)
  have "length s = Suc (Suc (2 * n))" "length t = Suc (Suc (2 * n))" using Suc.prems(1,2) by simp_all
  then obtain a b s' c d t' where s: "s = a # b # s'" and t: "t = c # d # t'"
    by (auto simp: length_Suc_conv)
  note st = s t
  let ?x = "16 * hex_value a + hex_value b" and ?y = "16 * hex_value c + hex_value d"
  have bounds: "hex_value a < 16" "hex_value b < 16" "hex_value c < 16" "hex_value d < 16"
    using Suc.prems st by (auto intro: hex_value_bound)
  have "unat (word_of_nat ?x :: u8) = unat (word_of_nat ?y :: u8)"
    using Suc.prems st by simp
  moreover have "?x < 256" "?y < 256" using bounds by simp_all
  ultimately have "?x = ?y" by (simp add: unat_of_nat del: of_nat_add of_nat_mult)
  then have "?x div 16 = ?y div 16" "?x mod 16 = ?y mod 16" by simp_all
  then have "hex_value a = hex_value c" "hex_value b = hex_value d" using bounds by simp_all
  with Suc st show ?case by (auto intro: hex_value_inject)
qed

end
