(* ===== verification/Constants.thy ===== *)
theory Constants
  imports Canonical
begin

text \<open>
  The frozen construction constants of \<open>reproduction/src/constants.rs\<close> and their validation. The
  values are the source's; \<open>validate_invariants\<close> is the method that recomputes every derived length,
  partition and pin, with its error per relation.
\<close>

section \<open>Values\<close>

definition VERIFY_STARK_OPCODE :: u8 where
  "VERIFY_STARK_OPCODE = 0xB9"

definition VERIFY_STARK_ARITY :: nat where
  "VERIFY_STARK_ARITY = 4"

definition PROOF_WORDS :: nat where
  "PROOF_WORDS = 55667"

definition BYTES_PER_PROOF_WORD :: nat where
  "BYTES_PER_PROOF_WORD = 4"

definition PROOF_BYTES :: nat where
  "PROOF_BYTES = 222668"

definition PROOF_CHUNK_CAPACITY :: nat where
  "PROOF_CHUNK_CAPACITY = 65535"

definition PROOF_CHUNK_LENGTHS :: "nat list" where
  "PROOF_CHUNK_LENGTHS = [65535, 65535, 65535, 26063]"

definition MAX_APPLICATION_PAYLOAD_BYTES :: nat where
  "MAX_APPLICATION_PAYLOAD_BYTES = 16384"

definition ERGO_STATEMENT_DOMAIN :: bytes where
  "ERGO_STATEMENT_DOMAIN = ascii ''Ergo.VerifyStark.Statement''"

definition ERGO_STATEMENT_VERSION_BYTES :: nat where
  "ERGO_STATEMENT_VERSION_BYTES = 1"

definition ERGO_STATEMENT_BOUND_DIGESTS :: nat where
  "ERGO_STATEMENT_BOUND_DIGESTS = 4"

definition DIGEST_BYTES :: nat where
  "DIGEST_BYTES = 32"

definition PAYLOAD_LENGTH_PREFIX_BYTES :: nat where
  "PAYLOAD_LENGTH_PREFIX_BYTES = 4"

definition STATEMENT_PREFIX_BYTES :: nat where
  "STATEMENT_PREFIX_BYTES = 159"

definition MAX_STATEMENT_BYTES :: nat where
  "MAX_STATEMENT_BYTES = STATEMENT_PREFIX_BYTES + MAX_APPLICATION_PAYLOAD_BYTES"

definition MANIFEST_BYTES :: nat where
  "MANIFEST_BYTES = 458"

definition MANIFEST_FORMAT_VERSION :: u8 where
  "MANIFEST_FORMAT_VERSION = 1"

definition MANIFEST_FORMAT_VERSION_BYTES :: nat where
  "MANIFEST_FORMAT_VERSION_BYTES = 1"

definition MANIFEST_U32_BYTES :: nat where
  "MANIFEST_U32_BYTES = 4"

definition MANIFEST_OUTER_PO2_BYTES :: nat where
  "MANIFEST_OUTER_PO2_BYTES = 1"

definition MANIFEST_CONTROL_COUNT :: nat where
  "MANIFEST_CONTROL_COUNT = 10"

definition MANIFEST_CONTROL_ENTRY_BYTES :: nat where
  "MANIFEST_CONTROL_ENTRY_BYTES = 2 + DIGEST_BYTES"

definition MANIFEST_ARTIFACT_REFERENCE_BYTES :: nat where
  "MANIFEST_ARTIFACT_REFERENCE_BYTES = 2 + 4 + DIGEST_BYTES"

definition RISC0_OUTER_PO2 :: u8 where
  "RISC0_OUTER_PO2 = 18"

definition ALGORITHM_ARTIFACT_KIND :: u16 where
  "ALGORITHM_ARTIFACT_KIND = 1"

definition BINARY_DATA_ARTIFACT_KIND :: u16 where
  "BINARY_DATA_ARTIFACT_KIND = 2"

definition PROFILE_ARTIFACT_DOMAIN :: bytes where
  "PROFILE_ARTIFACT_DOMAIN = ascii ''Ergo.StarkProfileArtifact.v1''"

definition PROFILE_ID_DOMAIN :: bytes where
  "PROFILE_ID_DOMAIN = ascii ''Ergo.StarkProfileId.v1''"

definition PROFILE_ID_DOMAIN_SEPARATOR_BYTES :: nat where
  "PROFILE_ID_DOMAIN_SEPARATOR_BYTES = 1"

definition MANIFEST_LENGTH_PREFIX_BYTES :: nat where
  "MANIFEST_LENGTH_PREFIX_BYTES = 4"

definition PROFILE_ID_PREIMAGE_BYTES :: nat where
  "PROFILE_ID_PREIMAGE_BYTES = 485"

definition NORMAL_LIFT_CONTROL_COUNT :: nat where
  "NORMAL_LIFT_CONTROL_COUNT = 8"

definition TERMINAL_CONTROL_KIND_LIFT :: u8 where
  "TERMINAL_CONTROL_KIND_LIFT = 1"

definition TERMINAL_CONTROL_KIND_JOIN :: u8 where
  "TERMINAL_CONTROL_KIND_JOIN = 2"

definition TERMINAL_CONTROL_KIND_RESOLVE :: u8 where
  "TERMINAL_CONTROL_KIND_RESOLVE = 3"

definition MIN_SEGMENT_PO2 :: u8 where
  "MIN_SEGMENT_PO2 = 15"

definition MAX_SEGMENT_PO2 :: u8 where
  "MAX_SEGMENT_PO2 = 22"

definition SUPPORTED_SEGMENT_PO2 :: "u8 list" where
  "SUPPORTED_SEGMENT_PO2 = [15, 16, 17, 18, 19, 20, 21, 22]"

definition RISC0_REPOSITORY :: string where
  "RISC0_REPOSITORY =
     ''https://github.com/risc0/risc0.git''"

definition RISC0_COMMIT :: string where
  "RISC0_COMMIT =
     ''8eb06ab020a92dc5b63ba6dd0836d432aba6d890''"

definition GUEST_BUILDER_OCI_REPOSITORY :: string where
  "GUEST_BUILDER_OCI_REPOSITORY =
     ''risczero/risc0-guest-builder''"

definition GUEST_BUILDER_OCI_DIGEST :: string where
  "GUEST_BUILDER_OCI_DIGEST =
     ''sha256:3e12f71bacd27527a61dea96fa0e53e468c99aa261d3a1019b593f6dbd943eb3''"

definition GUEST_BUILDER_OCI_PLATFORM :: string where
  "GUEST_BUILDER_OCI_PLATFORM =
     ''linux/amd64''"

definition HOST_RUST_OCI_REPOSITORY :: string where
  "HOST_RUST_OCI_REPOSITORY =
     ''docker.io/library/rust''"

definition HOST_RUST_OCI_DIGEST :: string where
  "HOST_RUST_OCI_DIGEST =
     ''sha256:294917190b5a3fed18d3303213943f40ec9b644b3cd6e5cdc8cd029334a770b3''"

definition HOST_RUST_OCI_PLATFORM :: string where
  "HOST_RUST_OCI_PLATFORM =
     ''linux/amd64''"

definition HOST_RUST_VERSION :: string where
  "HOST_RUST_VERSION =
     ''1.89.0''"

definition GUEST_RUST_VERSION :: string where
  "GUEST_RUST_VERSION =
     ''1.88.0''"

definition RISC0_INNER_CONTROL_ROOT_HEX :: string where
  "RISC0_INNER_CONTROL_ROOT_HEX =
     ''a54dc85ac99f851c92d7c96d7318af41dbe7c0194edfcc37eb4d422a998c1f56''"

definition B4_ALTERNATE_CONTROL_ROOT_HEX :: string where
  "B4_ALTERNATE_CONTROL_ROOT_HEX =
     ''eb798a5b87bc5056c2e6a860a3e1333d7eaf2a0f40469337ed29cc2616ab935a''"

definition B4_ALTERNATE_OMITTED_CONTROL_ID_HEX :: string where
  "B4_ALTERNATE_OMITTED_CONTROL_ID_HEX =
     ''1688f04cca489638862dba455c1d5c561513f975c885a3491f0fe12df761c847''"

definition B4_ALTERNATE_VERIFIER_PARAMETERS_HEX :: string where
  "B4_ALTERNATE_VERIFIER_PARAMETERS_HEX =
     ''ac1a73c07c73a8564547195beec2cee2392f8a86bc75f3c373c94d50260c2b9e''"

definition RISC0_JOIN_CONTROL_ID_HEX :: string where
  "RISC0_JOIN_CONTROL_ID_HEX =
     ''7a8f24092c34ed3eb81b3d0a0b796c588c615d3488ef9e61c21dbd1e4b83ea6e''"

definition RISC0_RESOLVE_CONTROL_ID_HEX :: string where
  "RISC0_RESOLVE_CONTROL_ID_HEX =
     ''53a7b23d07f99e5d5685e85874f5181e8486aa267a0ae607ffe9ba47c8bdda4a''"

definition RISC0_NORMAL_LIFT_CONTROL_IDS_HEX :: "string list" where
  "RISC0_NORMAL_LIFT_CONTROL_IDS_HEX =
     [''1ca3ca03030719064ba61b3125bdd326fc57f74e799ef860bdea6f3227381e16'',
      ''c32b3627d2b3d60c64adf523a98bd16c0ff607471f3d6630d1f26d5e9406d841'',
      ''c9b08054994f542a6310b00d9b6fc6528ed7bb6f4ca5476a686847127cdfdc5b'',
      ''e7934a23ddce1423b425cf32aa23be29f48cd40e0b6ff9376dce6f3bf9d0bc35'',
      ''8c2fdd36ede09a4b9d316a43c51f1160cbd8876659c5f35810c3a119c60d3843'',
      ''34530b42028fb631c90e1226bb0e750d4b9b593840d45216f75dca449dac7734'',
      ''fd84d83092a1e1244d423a26d89c892ab098b467c6d82229912deb26e37d2562'',
      ''9d9dbf33535ab11f52a93839dfd23b352b7626009e81d9459fd04e488898ec6a'']"

definition B4_ALTERNATE_CONTROL_ROOT :: bytes where
  "B4_ALTERNATE_CONTROL_ROOT =
     [0xeb, 0x79, 0x8a, 0x5b, 0x87, 0xbc, 0x50, 0x56,
      0xc2, 0xe6, 0xa8, 0x60, 0xa3, 0xe1, 0x33, 0x3d,
      0x7e, 0xaf, 0x2a, 0x0f, 0x40, 0x46, 0x93, 0x37,
      0xed, 0x29, 0xcc, 0x26, 0x16, 0xab, 0x93, 0x5a]"

lemmas constant_sizes =
  VERIFY_STARK_ARITY_def PROOF_WORDS_def BYTES_PER_PROOF_WORD_def PROOF_BYTES_def
    PROOF_CHUNK_CAPACITY_def MAX_APPLICATION_PAYLOAD_BYTES_def ERGO_STATEMENT_VERSION_BYTES_def
    ERGO_STATEMENT_BOUND_DIGESTS_def DIGEST_BYTES_def PAYLOAD_LENGTH_PREFIX_BYTES_def
    STATEMENT_PREFIX_BYTES_def MAX_STATEMENT_BYTES_def MANIFEST_BYTES_def
    MANIFEST_FORMAT_VERSION_BYTES_def MANIFEST_U32_BYTES_def MANIFEST_OUTER_PO2_BYTES_def
    MANIFEST_CONTROL_COUNT_def MANIFEST_CONTROL_ENTRY_BYTES_def
    MANIFEST_ARTIFACT_REFERENCE_BYTES_def PROFILE_ID_DOMAIN_SEPARATOR_BYTES_def
    MANIFEST_LENGTH_PREFIX_BYTES_def PROFILE_ID_PREIMAGE_BYTES_def NORMAL_LIFT_CONTROL_COUNT_def

section \<open>Invariants\<close>

record PinnedInvariants =
  pin_proof_words :: nat
  pin_proof_bytes :: nat
  pin_proof_chunk_lengths :: "nat list"
  pin_max_application_payload_bytes :: nat
  pin_statement_prefix_bytes :: nat
  pin_manifest_bytes :: nat
  pin_profile_id_preimage_bytes :: nat
  pin_supported_segment_po2 :: "u8 list"

definition PINNED_INVARIANTS :: PinnedInvariants where
  "PINNED_INVARIANTS =
     \<lparr>pin_proof_words = PROOF_WORDS,
      pin_proof_bytes = PROOF_BYTES,
      pin_proof_chunk_lengths = PROOF_CHUNK_LENGTHS,
      pin_max_application_payload_bytes = MAX_APPLICATION_PAYLOAD_BYTES,
      pin_statement_prefix_bytes = STATEMENT_PREFIX_BYTES,
      pin_manifest_bytes = MANIFEST_BYTES,
      pin_profile_id_preimage_bytes = PROFILE_ID_PREIMAGE_BYTES,
      pin_supported_segment_po2 = SUPPORTED_SEGMENT_PO2\<rparr>"

datatype InvariantError =
    InvalidPin string
  | ArithmeticOverflowInvariant string
  | Mismatch string
  | InvalidChunk nat
  | InvalidPo2 nat

definition is_lower_hex :: "string \<Rightarrow> nat \<Rightarrow> bool" where
  "is_lower_hex value exact_len \<longleftrightarrow>
     length value = exact_len \<and> list_all is_lower_hex_char value"

text \<open>\<open>str::strip_prefix\<close>.\<close>

definition strip_prefix :: "string \<Rightarrow> string \<Rightarrow> string option" where
  "strip_prefix p s = (if take (length p) s = p then Some (drop (length p) s) else None)"

definition validate_b4_alternate_pins ::
  "(string \<Rightarrow> nat \<Rightarrow> bytes option) \<Rightarrow> InvariantError + unit" where
  "validate_b4_alternate_pins decode_to_slice =
     (if \<not> is_lower_hex B4_ALTERNATE_CONTROL_ROOT_HEX (DIGEST_BYTES * 2)
         \<or> \<not> is_lower_hex B4_ALTERNATE_OMITTED_CONTROL_ID_HEX (DIGEST_BYTES * 2)
         \<or> \<not> is_lower_hex B4_ALTERNATE_VERIFIER_PARAMETERS_HEX (DIGEST_BYTES * 2)
         \<or> B4_ALTERNATE_CONTROL_ROOT_HEX = RISC0_INNER_CONTROL_ROOT_HEX
         \<or> decode_to_slice B4_ALTERNATE_CONTROL_ROOT_HEX DIGEST_BYTES
             \<noteq> Some B4_ALTERNATE_CONTROL_ROOT
      then Inl (InvalidPin ''B4 fixed alternate control-root witness'')
      else Inr ())"

text \<open>The loop over the normal-lift control identifiers, with the ones already seen.\<close>

fun validate_lift_ids :: "string list \<Rightarrow> string list \<Rightarrow> InvariantError + unit" where
  "validate_lift_ids seen [] = Inr ()"
| "validate_lift_ids seen (control_id # ids) =
     (if \<not> is_lower_hex control_id (DIGEST_BYTES * 2) \<or> control_id \<in> set seen
      then Inl (InvalidPin ''RISC Zero normal-lift control IDs'')
      else validate_lift_ids (seen @ [control_id]) ids)"

definition validate_static_pins ::
  "(string \<Rightarrow> nat \<Rightarrow> bytes option) \<Rightarrow> InvariantError + unit" where
  "validate_static_pins decode_to_slice =
     (if RISC0_REPOSITORY \<noteq> ''https://github.com/risc0/risc0.git''
         \<or> RISC0_COMMIT \<noteq> ''8eb06ab020a92dc5b63ba6dd0836d432aba6d890''
      then Inl (InvalidPin ''RISC Zero source'')
      else if \<not> is_lower_hex RISC0_COMMIT 40
      then Inl (InvalidPin ''RISC Zero commit'')
      else if GUEST_BUILDER_OCI_REPOSITORY \<noteq> ''risczero/risc0-guest-builder''
         \<or> GUEST_BUILDER_OCI_DIGEST \<noteq>
             ''sha256:3e12f71bacd27527a61dea96fa0e53e468c99aa261d3a1019b593f6dbd943eb3''
      then Inl (InvalidPin ''guest-builder OCI image'')
      else
        and_then (ok_or (strip_prefix ''sha256:'' GUEST_BUILDER_OCI_DIGEST)
                    (InvalidPin ''guest-builder OCI digest'')) (\<lambda>oci_hex.
      if \<not> is_lower_hex oci_hex 64
      then Inl (InvalidPin ''guest-builder OCI digest'')
      else if GUEST_BUILDER_OCI_PLATFORM \<noteq> ''linux/amd64''
      then Inl (InvalidPin ''guest-builder OCI platform'')
      else if HOST_RUST_OCI_REPOSITORY \<noteq> ''docker.io/library/rust''
         \<or> HOST_RUST_OCI_DIGEST \<noteq>
             ''sha256:294917190b5a3fed18d3303213943f40ec9b644b3cd6e5cdc8cd029334a770b3''
      then Inl (InvalidPin ''host Rust OCI image'')
      else
        and_then (ok_or (strip_prefix ''sha256:'' HOST_RUST_OCI_DIGEST)
                    (InvalidPin ''host Rust OCI digest'')) (\<lambda>host_rust_oci_hex.
      if \<not> is_lower_hex host_rust_oci_hex 64
      then Inl (InvalidPin ''host Rust OCI digest'')
      else if HOST_RUST_OCI_PLATFORM \<noteq> ''linux/amd64''
      then Inl (InvalidPin ''host Rust OCI platform'')
      else if HOST_RUST_VERSION \<noteq> ''1.89.0'' \<or> GUEST_RUST_VERSION \<noteq> ''1.88.0''
      then Inl (InvalidPin ''Rust toolchain version'')
      else if VERIFY_STARK_OPCODE \<noteq> 0xB9 \<or> VERIFY_STARK_ARITY \<noteq> 4
      then Inl (InvalidPin ''VerifyStark opcode shape'')
      else if MANIFEST_FORMAT_VERSION \<noteq> 1
         \<or> RISC0_OUTER_PO2 \<noteq> 18
         \<or> MANIFEST_CONTROL_COUNT \<noteq> NORMAL_LIFT_CONTROL_COUNT + 2
         \<or> TERMINAL_CONTROL_KIND_LIFT \<noteq> 1
         \<or> TERMINAL_CONTROL_KIND_JOIN \<noteq> 2
         \<or> TERMINAL_CONTROL_KIND_RESOLVE \<noteq> 3
         \<or> ALGORITHM_ARTIFACT_KIND \<noteq> 1
         \<or> BINARY_DATA_ARTIFACT_KIND \<noteq> 2
         \<or> PROFILE_ARTIFACT_DOMAIN \<noteq> ascii ''Ergo.StarkProfileArtifact.v1''
      then Inl (InvalidPin ''Manifest V1 scalar grammar'')
      else if \<not> is_lower_hex RISC0_INNER_CONTROL_ROOT_HEX (DIGEST_BYTES * 2)
      then Inl (InvalidPin ''RISC Zero inner control root'')
      else
        and_then (validate_b4_alternate_pins decode_to_slice) (\<lambda>_.
        and_then (validate_lift_ids [] RISC0_NORMAL_LIFT_CONTROL_IDS_HEX) (\<lambda>_.
      if \<not> is_lower_hex RISC0_JOIN_CONTROL_ID_HEX (DIGEST_BYTES * 2)
         \<or> \<not> is_lower_hex RISC0_RESOLVE_CONTROL_ID_HEX (DIGEST_BYTES * 2)
         \<or> RISC0_JOIN_CONTROL_ID_HEX = RISC0_RESOLVE_CONTROL_ID_HEX
         \<or> RISC0_JOIN_CONTROL_ID_HEX \<in> set RISC0_NORMAL_LIFT_CONTROL_IDS_HEX
         \<or> RISC0_RESOLVE_CONTROL_ID_HEX \<in> set RISC0_NORMAL_LIFT_CONTROL_IDS_HEX
      then Inl (InvalidPin ''RISC Zero join/resolve control IDs'')
      else Inr ())))))"

fun validate_chunks ::
  "nat \<Rightarrow> nat \<Rightarrow> nat \<Rightarrow> nat list \<Rightarrow> InvariantError + nat" where
  "validate_chunks count index chunk_total [] = Inr chunk_total"
| "validate_chunks count index chunk_total (chunk_len # chunks) =
     (if chunk_len = 0 \<or> chunk_len > PROOF_CHUNK_CAPACITY then Inl (InvalidChunk index)
      else if index + 1 < count \<and> chunk_len \<noteq> PROOF_CHUNK_CAPACITY then Inl (InvalidChunk index)
      else
        and_then (ok_or (checked_add_usize chunk_total chunk_len)
                    (ArithmeticOverflowInvariant ''proof chunk total'')) (\<lambda>total.
        validate_chunks count (index + 1) total chunks))"

fun validate_po2 :: "nat \<Rightarrow> u8 list \<Rightarrow> InvariantError + unit" where
  "validate_po2 index [] = Inr ()"
| "validate_po2 index (po2 # rest) =
     and_then (ok_or (if index < 256 then Some (word_of_nat index) else None)
                 (ArithmeticOverflowInvariant ''po2 index'')) (\<lambda>index8.
     and_then (ok_or (checked_add_word MIN_SEGMENT_PO2 index8)
                 (ArithmeticOverflowInvariant ''po2 sequence'')) (\<lambda>expected.
     if po2 \<noteq> expected then Inl (InvalidPo2 index) else validate_po2 (index + 1) rest))"

definition expected_statement_prefix :: "nat option" where
  "expected_statement_prefix =
     Option.bind (checked_add_usize (length ERGO_STATEMENT_DOMAIN) ERGO_STATEMENT_VERSION_BYTES)
       (\<lambda>len. Option.bind
          (Option.bind (checked_mul_usize ERGO_STATEMENT_BOUND_DIGESTS DIGEST_BYTES)
            (\<lambda>digest_bytes. checked_add_usize len digest_bytes))
       (\<lambda>len. checked_add_usize len PAYLOAD_LENGTH_PREFIX_BYTES))"

definition expected_profile_preimage :: "nat \<Rightarrow> nat option" where
  "expected_profile_preimage manifest_bytes =
     Option.bind (checked_add_usize (length PROFILE_ID_DOMAIN) PROFILE_ID_DOMAIN_SEPARATOR_BYTES)
       (\<lambda>len. Option.bind (checked_add_usize len MANIFEST_LENGTH_PREFIX_BYTES)
       (\<lambda>len. checked_add_usize len manifest_bytes))"

definition expected_manifest_bytes :: "nat option" where
  "expected_manifest_bytes =
     Option.bind (checked_add_usize MANIFEST_FORMAT_VERSION_BYTES MANIFEST_U32_BYTES)
       (\<lambda>len. Option.bind (checked_add_usize len MANIFEST_U32_BYTES)
       (\<lambda>len. Option.bind (checked_add_usize len MANIFEST_OUTER_PO2_BYTES)
       (\<lambda>len. Option.bind (checked_add_usize len DIGEST_BYTES)
       (\<lambda>len. Option.bind
          (Option.bind (checked_mul_usize MANIFEST_CONTROL_COUNT MANIFEST_CONTROL_ENTRY_BYTES)
            (\<lambda>control_bytes. checked_add_usize len control_bytes))
       (\<lambda>len. Option.bind (checked_mul_usize 2 MANIFEST_ARTIFACT_REFERENCE_BYTES)
            (\<lambda>artifact_bytes. checked_add_usize len artifact_bytes))))))"

definition validate_invariants ::
  "(string \<Rightarrow> nat \<Rightarrow> bytes option) \<Rightarrow> PinnedInvariants \<Rightarrow> InvariantError + unit" where
  "validate_invariants decode_to_slice p =
     and_then (validate_static_pins decode_to_slice) (\<lambda>_.
     and_then (ok_or (checked_mul_usize (pin_proof_words p) BYTES_PER_PROOF_WORD)
                 (ArithmeticOverflowInvariant ''proof byte length'')) (\<lambda>proof_bytes.
     and_then (ensure (proof_bytes = pin_proof_bytes p) (Mismatch ''proof words to bytes'')) (\<lambda>_.
     and_then (validate_chunks (length (pin_proof_chunk_lengths p)) 0 0 (pin_proof_chunk_lengths p))
       (\<lambda>chunk_total.
     and_then (ensure (chunk_total = pin_proof_bytes p) (Mismatch ''proof chunk total'')) (\<lambda>_.
     and_then (ok_or expected_statement_prefix
                 (ArithmeticOverflowInvariant ''statement prefix'')) (\<lambda>prefix.
     and_then (ensure (prefix = pin_statement_prefix_bytes p) (Mismatch ''statement prefix'')) (\<lambda>_.
     and_then (ok_or (checked_add_usize (pin_statement_prefix_bytes p)
                        (pin_max_application_payload_bytes p))
                 (ArithmeticOverflowInvariant ''maximum statement length'')) (\<lambda>maximum.
     and_then (ensure (maximum = MAX_STATEMENT_BYTES) (Mismatch ''maximum statement length'')) (\<lambda>_.
     and_then (ok_or (expected_profile_preimage (pin_manifest_bytes p))
                 (ArithmeticOverflowInvariant ''profile ID preimage'')) (\<lambda>preimage.
     and_then (ensure (preimage = pin_profile_id_preimage_bytes p)
                 (Mismatch ''profile ID preimage'')) (\<lambda>_.
     and_then (ok_or expected_manifest_bytes
                 (ArithmeticOverflowInvariant ''profile manifest'')) (\<lambda>manifest.
     and_then (ensure (manifest = pin_manifest_bytes p) (Mismatch ''profile manifest'')) (\<lambda>_.
     and_then (ok_or (Option.bind (checked_sub_usize (unat MAX_SEGMENT_PO2) (unat MIN_SEGMENT_PO2))
                        (\<lambda>difference. checked_add_usize difference 1))
                 (ArithmeticOverflowInvariant ''supported po2 count'')) (\<lambda>po2_count.
     and_then (ensure (length (pin_supported_segment_po2 p) = po2_count)
                 (Mismatch ''supported po2 count'')) (\<lambda>_.
     validate_po2 0 (pin_supported_segment_po2 p))))))))))))))))"

definition validate_pinned_invariants ::
  "(string \<Rightarrow> nat \<Rightarrow> bytes option) \<Rightarrow> InvariantError + unit" where
  "validate_pinned_invariants decode_to_slice = validate_invariants decode_to_slice PINNED_INVARIANTS"

section \<open>Evaluation of the frozen values\<close>

lemma control_ids_lower_hex:
  "is_lower_hex RISC0_INNER_CONTROL_ROOT_HEX 64"
  "is_lower_hex RISC0_JOIN_CONTROL_ID_HEX 64"
  "is_lower_hex RISC0_RESOLVE_CONTROL_ID_HEX 64"
  "list_all (\<lambda>s. is_lower_hex s 64) RISC0_NORMAL_LIFT_CONTROL_IDS_HEX"
  by code_simp+

lemma control_ids_distinct:
  "distinct (RISC0_NORMAL_LIFT_CONTROL_IDS_HEX @ [RISC0_JOIN_CONTROL_ID_HEX, RISC0_RESOLVE_CONTROL_ID_HEX])"
  by code_simp

lemma alternate_pins_lower_hex:
  "is_lower_hex B4_ALTERNATE_CONTROL_ROOT_HEX 64"
  "is_lower_hex B4_ALTERNATE_OMITTED_CONTROL_ID_HEX 64"
  "is_lower_hex B4_ALTERNATE_VERIFIER_PARAMETERS_HEX 64"
  "B4_ALTERNATE_CONTROL_ROOT_HEX \<noteq> RISC0_INNER_CONTROL_ROOT_HEX"
  by code_simp+

lemma alternate_root_bytes: "hex_pairs B4_ALTERNATE_CONTROL_ROOT_HEX = B4_ALTERNATE_CONTROL_ROOT"
  by code_simp

lemma validate_b4_alternate_pins_ok:
  "hex_decodes d \<Longrightarrow> validate_b4_alternate_pins d = Inr ()"
  using alternate_pins_lower_hex alternate_root_bytes
  by (simp add: validate_b4_alternate_pins_def DIGEST_BYTES_def hex_decodes_def is_lower_hex_def)

lemma validate_static_pins_ok:
  assumes "hex_decodes d"
  shows "validate_static_pins d = Inr ()"
proof -
  have "validate_b4_alternate_pins d = validate_b4_alternate_pins sample_hex_decode"
    using assms sample_hex_decodes by (simp add: validate_b4_alternate_pins_ok)
  then have "validate_static_pins d = validate_static_pins sample_hex_decode"
    by (simp only: validate_static_pins_def)
  also have "\<dots> = Inr ()" by code_simp
  finally show ?thesis .
qed

lemma domain_lengths:
  "length ERGO_STATEMENT_DOMAIN = 26" "length PROFILE_ID_DOMAIN = 22"
  by code_simp+

lemma expected_lengths:
  "expected_statement_prefix = Some 159" "expected_manifest_bytes = Some 458"
  "expected_profile_preimage n = (if n + 27 < usize_limit then Some (n + 27) else None)"
  by (simp_all add: expected_statement_prefix_def expected_manifest_bytes_def
      expected_profile_preimage_def domain_lengths constant_sizes checked_add_usize_def
      checked_mul_usize_def usize_limit_def add.commute)

lemma validate_chunks_four:
  "validate_chunks 4 0 0 [a, b, c, e] = Inr t \<longleftrightarrow>
     a = 65535 \<and> b = 65535 \<and> c = 65535 \<and> 0 < e \<and> e \<le> 65535 \<and> t = 196605 + e"
  by (auto simp: PROOF_CHUNK_CAPACITY_def usize_limit_def)

lemma validate_po2_Cons:
  assumes "i \<le> 200"
  shows "validate_po2 i (x # ps) = Inr u \<longleftrightarrow>
    x = 15 + word_of_nat i \<and> validate_po2 (Suc i) ps = Inr u"
proof -
  have "unat (15 + word_of_nat i :: u8) = 15 + i"
    using assms by (simp add: unat_word_ariths unat_of_nat)
  then have sum: "checked_add_word MIN_SEGMENT_PO2 (word_of_nat i) = Some (15 + word_of_nat i)"
    using assms by (simp add: MIN_SEGMENT_PO2_def unat_of_nat)
  show ?thesis using assms
    by (simp add: sum del: checked_add_word_eq_Some)
qed

lemma validate_po2_eight:
  "validate_po2 0 [a, b, c, d, e, f, g, h] = Inr u \<longleftrightarrow>
     [a, b, c, d, e, f, g, h] = [15, 16, 17, 18, 19, 20, 21, 22]"
  by (simp add: validate_po2_Cons del: validate_po2.simps(2))

lemma po2_count:
  "Option.bind (checked_sub_usize (unat MAX_SEGMENT_PO2) (unat MIN_SEGMENT_PO2))
     (\<lambda>difference. checked_add_usize difference 1) = Some 8"
  by (simp add: MAX_SEGMENT_PO2_def MIN_SEGMENT_PO2_def usize_limit_def checked_add_usize_def
      checked_sub_usize_def)

lemma pinned_sizes:
  "BYTES_PER_PROOF_WORD = 4" "MAX_STATEMENT_BYTES = 16543"
  by (simp_all add: constant_sizes)

declare validate_po2.simps [simp del] validate_chunks.simps [simp del]

lemma validate_invariants_eight:
  assumes "hex_decodes decode_to_slice" and "pin_proof_chunk_lengths p = [a, b, c, e]"
    and "pin_supported_segment_po2 p = [q, r, s, t, u, v, w, x]"
  shows "validate_invariants decode_to_slice p = Inr () \<longleftrightarrow>
    pin_proof_bytes p = 4 * pin_proof_words p
    \<and> a = 65535 \<and> b = 65535 \<and> c = 65535 \<and> 0 < e \<and> e \<le> 65535 \<and> pin_proof_bytes p = 196605 + e
    \<and> pin_statement_prefix_bytes p = 159 \<and> pin_max_application_payload_bytes p = 16384
    \<and> pin_manifest_bytes p = 458 \<and> pin_profile_id_preimage_bytes p = 485
    \<and> [q, r, s, t, u, v, w, x] = [15, 16, 17, 18, 19, 20, 21, 22]"
proof -
  have eight: "length [q, r, s, t, u, v, w, x] = 8" and four: "length [a, b, c, e] = 4" by simp_all
  show ?thesis
    unfolding validate_invariants_def assms(2,3) eight four expected_lengths po2_count pinned_sizes
      validate_static_pins_ok [OF assms(1)]
    by (auto simp: validate_chunks_four validate_po2_eight usize_limit_def
        simp del: list.inject list.size)
qed

lemma validate_invariants_accepts:
  assumes "hex_decodes decode_to_slice" and "pin_proof_bytes p = 4 * pin_proof_words p"
    and "pin_proof_chunk_lengths p = [65535, 65535, 65535, e]" and "0 < e" and "e \<le> 65535"
    and "pin_proof_bytes p = 196605 + e" and "pin_statement_prefix_bytes p = 159"
    and "pin_max_application_payload_bytes p = 16384" and "pin_manifest_bytes p = 458"
    and "pin_profile_id_preimage_bytes p = 485"
    and "pin_supported_segment_po2 p = [15, 16, 17, 18, 19, 20, 21, 22]"
  shows "validate_invariants decode_to_slice p = Inr ()"
  using validate_invariants_eight [OF assms(1,3,11)] assms by simp

section \<open>Properties\<close>

text \<open>The frozen values pass their own validation, whatever hexadecimal decoder of the documented
  behaviour is used.\<close>

theorem pinned_invariants_hold:
  assumes "hex_decodes decode_to_slice"
  shows "validate_pinned_invariants decode_to_slice = Inr ()"
proof -
  have fields: "pin_proof_words PINNED_INVARIANTS = 55667"
    "pin_proof_bytes PINNED_INVARIANTS = 222668"
    "pin_proof_chunk_lengths PINNED_INVARIANTS = [65535, 65535, 65535, 26063]"
    "pin_statement_prefix_bytes PINNED_INVARIANTS = 159"
    "pin_max_application_payload_bytes PINNED_INVARIANTS = 16384"
    "pin_manifest_bytes PINNED_INVARIANTS = 458"
    "pin_profile_id_preimage_bytes PINNED_INVARIANTS = 485"
    "pin_supported_segment_po2 PINNED_INVARIANTS = [15, 16, 17, 18, 19, 20, 21, 22]"
    by (simp_all add: PINNED_INVARIANTS_def constant_sizes PROOF_CHUNK_LENGTHS_def
        SUPPORTED_SEGMENT_PO2_def)
  show ?thesis
    by (simp add: validate_pinned_invariants_def validate_invariants_accepts [OF assms] fields)
qed

theorem pinned_invariants_hold_witness: "validate_pinned_invariants sample_hex_decode = Inr ()"
  by (rule pinned_invariants_hold [OF sample_hex_decodes])

text \<open>The validation is complete: a set of invariants passes exactly when the byte length is four
  times the word length, the four chunks are three full ones and a nonempty rest that add up to it,
  and the statement, manifest, preimage and exponent values are the only consistent ones.\<close>

theorem validate_invariants_iff:
  assumes "hex_decodes decode_to_slice" and "length (pin_proof_chunk_lengths p) = 4"
    and "length (pin_supported_segment_po2 p) = 8"
  shows "validate_invariants decode_to_slice p = Inr () \<longleftrightarrow>
    pin_proof_bytes p = 4 * pin_proof_words p
    \<and> (\<exists>rest. pin_proof_chunk_lengths p = [65535, 65535, 65535, rest] \<and> 0 < rest \<and> rest \<le> 65535
          \<and> pin_proof_bytes p = 196605 + rest)
    \<and> pin_statement_prefix_bytes p = 159 \<and> pin_max_application_payload_bytes p = 16384
    \<and> pin_manifest_bytes p = 458 \<and> pin_profile_id_preimage_bytes p = 485
    \<and> pin_supported_segment_po2 p = [15, 16, 17, 18, 19, 20, 21, 22]"
proof -
  obtain a b c e where chunks: "pin_proof_chunk_lengths p = [a, b, c, e]"
    using assms(2) by (auto simp: numeral_eq_Suc length_Suc_conv)
  obtain q r s t u v w x where po2: "pin_supported_segment_po2 p = [q, r, s, t, u, v, w, x]"
    using assms(3) by (auto simp: numeral_eq_Suc length_Suc_conv)
  show ?thesis
    using validate_invariants_eight [OF assms(1) chunks po2] chunks po2 by auto
qed

theorem validate_invariants_iff_witness:
  "validate_invariants sample_hex_decode
     (PINNED_INVARIANTS\<lparr>pin_proof_chunk_lengths := [65535, 65535, 26063, 65535]\<rparr>) \<noteq> Inr ()"
  using validate_invariants_iff [OF sample_hex_decodes,
      of "PINNED_INVARIANTS\<lparr>pin_proof_chunk_lengths := [65535, 65535, 26063, 65535]\<rparr>"]
  by (simp add: PINNED_INVARIANTS_def SUPPORTED_SEGMENT_PO2_def)

end
