(* ===== verification/ErgoStatement.thy ===== *)
theory ErgoStatement
  imports Codec Constants
begin

text \<open>
  The strict codec of \<open>ErgoStatementV1\<close> (\<open>reproduction/src/ergo_statement.rs\<close>): the typed field
  layout, the encoder that writes the fields into a zeroed buffer through their spans, and the
  parser. Each \<open>ensure!\<close> and \<open>context\<close> of the source is a constructor of \<open>StatementError\<close>. The
  codec is an interpretation of the locale \<open>codec\<close>.
\<close>

section \<open>Fields, spans and the layout\<close>

definition STATEMENT_VERSION :: u8 where
  "STATEMENT_VERSION = 1"

datatype ErgoStatementField =
    ChainDomainId | ProfileId | ProgramId | ContractId | PayloadLength | ApplicationPayload

definition all_fields :: "ErgoStatementField list" where
  "all_fields = [ChainDomainId, ProfileId, ProgramId, ContractId, PayloadLength, ApplicationPayload]"

fun ordinal :: "ErgoStatementField \<Rightarrow> nat" where
  "ordinal ChainDomainId = 0"
| "ordinal ProfileId = 1"
| "ordinal ProgramId = 2"
| "ordinal ContractId = 3"
| "ordinal PayloadLength = 4"
| "ordinal ApplicationPayload = 5"

datatype StatementError =
    PayloadTooLarge nat
  | DomainSpanOverflow
  | FieldSpanOverflow
  | LayoutDiffersFromFrozen
  | SpanTruncated ErgoStatementField
  | PayloadLengthExceedsU32
  | ValueWidthDiffers ErgoStatementField
  | DestinationTruncated ErgoStatementField
  | EncodedLengthDiffers
  | StatementLengthOutOfBounds
  | DomainSeparatorInvalid
  | VersionNotV1
  | CursorInconsistent
  | ShorterThanPrefix
  | DigestWrongWidth string
  | LengthPrefixWrongWidth
  | PayloadPrefixDiffers
  | ReencodeChangedBytes

record FieldSpan =
  span_field :: ErgoStatementField
  span_start :: nat
  span_end :: nat

definition span_len :: "FieldSpan \<Rightarrow> nat" where
  "span_len s = span_end s - span_start s"

definition span_bytes :: "FieldSpan \<Rightarrow> bytes \<Rightarrow> StatementError + bytes" where
  "span_bytes s statement =
     ok_or (get_range statement (span_start s) (span_end s)) (SpanTruncated (span_field s))"

record StatementLayout =
  layout_spans :: "FieldSpan list"

definition next_span ::
  "nat \<Rightarrow> ErgoStatementField \<Rightarrow> nat \<Rightarrow> StatementError + FieldSpan \<times> nat" where
  "next_span cursor field width =
     and_then (ok_or (checked_add_usize cursor width) FieldSpanOverflow) (\<lambda>end.
     Inr (\<lparr>span_field = field, span_start = cursor, span_end = end\<rparr>, end))"

definition layout_for_payload_length :: "nat \<Rightarrow> StatementError + StatementLayout" where
  "layout_for_payload_length payload_length =
     and_then (ensure (payload_length \<le> MAX_APPLICATION_PAYLOAD_BYTES)
                 (PayloadTooLarge payload_length)) (\<lambda>_.
     and_then (ok_or (checked_add_usize (length ERGO_STATEMENT_DOMAIN) 1) DomainSpanOverflow)
       (\<lambda>c0.
     and_then (next_span c0 ChainDomainId DIGEST_BYTES) (\<lambda>(s0, c1).
     and_then (next_span c1 ProfileId DIGEST_BYTES) (\<lambda>(s1, c2).
     and_then (next_span c2 ProgramId DIGEST_BYTES) (\<lambda>(s2, c3).
     and_then (next_span c3 ContractId DIGEST_BYTES) (\<lambda>(s3, c4).
     and_then (next_span c4 PayloadLength 4) (\<lambda>(s4, c5).
     and_then (next_span c5 ApplicationPayload payload_length) (\<lambda>(s5, c6).
     and_then (ensure (span_start s5 = STATEMENT_PREFIX_BYTES \<and> span_end s5 \<le> MAX_STATEMENT_BYTES)
                 LayoutDiffersFromFrozen) (\<lambda>_.
     Inr \<lparr>layout_spans = [s0, s1, s2, s3, s4, s5]\<rparr>)))))))))"

definition layout_span :: "StatementLayout \<Rightarrow> ErgoStatementField \<Rightarrow> FieldSpan" where
  "layout_span l field = layout_spans l ! ordinal field"

definition layout_payload_length :: "StatementLayout \<Rightarrow> nat" where
  "layout_payload_length l = span_len (layout_spans l ! 5)"

definition statement_length :: "StatementLayout \<Rightarrow> nat" where
  "statement_length l = span_end (layout_spans l ! 5)"

section \<open>The statement value and its encoder\<close>

record ErgoStatement =
  st_chain_domain_id :: bytes
  st_profile_id :: bytes
  st_program_id :: bytes
  st_contract_id :: bytes
  st_application_payload :: bytes

definition statement_new ::
  "bytes \<Rightarrow> bytes \<Rightarrow> bytes \<Rightarrow> bytes \<Rightarrow> bytes \<Rightarrow> StatementError + ErgoStatement" where
  "statement_new chain_domain_id profile_id program_id contract_id application_payload =
     and_then (ensure (length application_payload \<le> MAX_APPLICATION_PAYLOAD_BYTES)
                 (PayloadTooLarge (length application_payload))) (\<lambda>_.
     Inr \<lparr>st_chain_domain_id = chain_domain_id, st_profile_id = profile_id,
          st_program_id = program_id, st_contract_id = contract_id,
          st_application_payload = application_payload\<rparr>)"

definition statement_layout :: "ErgoStatement \<Rightarrow> StatementError + StatementLayout" where
  "statement_layout s = layout_for_payload_length (length (st_application_payload s))"

definition write_field :: "bytes \<Rightarrow> FieldSpan \<Rightarrow> bytes \<Rightarrow> StatementError + bytes" where
  "write_field statement span value =
     and_then (ensure (span_len span = length value) (ValueWidthDiffers (span_field span))) (\<lambda>_.
     and_then (ok_or (get_range statement (span_start span) (span_end span))
                 (DestinationTruncated (span_field span))) (\<lambda>_.
     Inr (overwrite statement (span_start span) value)))"

definition statement_encode :: "ErgoStatement \<Rightarrow> StatementError + bytes" where
  "statement_encode s =
     and_then (ok_or (u32_try_from (length (st_application_payload s))) PayloadLengthExceedsU32)
       (\<lambda>payload_length.
     and_then (statement_layout s) (\<lambda>layout.
       let expected_length = statement_length layout;
           zeroed = replicate expected_length 0;
           with_domain = overwrite zeroed 0 ERGO_STATEMENT_DOMAIN;
           with_version =
             overwrite with_domain (length ERGO_STATEMENT_DOMAIN) [STATEMENT_VERSION] in
       and_then (write_field with_version (layout_span layout ChainDomainId) (st_chain_domain_id s))
         (\<lambda>b1.
       and_then (write_field b1 (layout_span layout ProfileId) (st_profile_id s)) (\<lambda>b2.
       and_then (write_field b2 (layout_span layout ProgramId) (st_program_id s)) (\<lambda>b3.
       and_then (write_field b3 (layout_span layout ContractId) (st_contract_id s)) (\<lambda>b4.
       and_then (write_field b4 (layout_span layout PayloadLength) (u32_to_le payload_length)) (\<lambda>b5.
       and_then (write_field b5 (layout_span layout ApplicationPayload) (st_application_payload s))
         (\<lambda>b6.
       and_then (ensure (length b6 = expected_length) EncodedLengthDiffers) (\<lambda>_. Inr b6)))))))))"

section \<open>The parser\<close>

definition digest_field :: "bytes \<Rightarrow> FieldSpan \<Rightarrow> string \<Rightarrow> StatementError + bytes" where
  "digest_field bs span label =
     and_then (span_bytes span bs) (\<lambda>field.
     and_then (ensure (length field = DIGEST_BYTES) (DigestWrongWidth label)) (\<lambda>_. Inr field))"

definition parse_ergo_statement_v1 :: "bytes \<Rightarrow> StatementError + ErgoStatement" where
  "parse_ergo_statement_v1 bs =
     and_then (ensure (STATEMENT_PREFIX_BYTES \<le> length bs \<and> length bs \<le> MAX_STATEMENT_BYTES)
                 StatementLengthOutOfBounds) (\<lambda>_.
     and_then (ensure (starts_with bs ERGO_STATEMENT_DOMAIN) DomainSeparatorInvalid) (\<lambda>_.
       let cursor = length ERGO_STATEMENT_DOMAIN in
     and_then (ensure (get_index bs cursor = Some STATEMENT_VERSION) VersionNotV1) (\<lambda>_.
       let cursor = cursor + 1 in
     and_then (ensure (cursor = length ERGO_STATEMENT_DOMAIN + 1) CursorInconsistent) (\<lambda>_.
     and_then (ok_or (checked_sub_usize (length bs) STATEMENT_PREFIX_BYTES) ShorterThanPrefix)
       (\<lambda>actual_payload_length.
     and_then (layout_for_payload_length actual_payload_length) (\<lambda>layout.
     and_then (digest_field bs (layout_span layout ChainDomainId) ''statement chain-domain ID'')
       (\<lambda>chain_domain_id.
     and_then (digest_field bs (layout_span layout ProfileId) ''statement profile ID'')
       (\<lambda>profile_id.
     and_then (digest_field bs (layout_span layout ProgramId) ''statement program ID'')
       (\<lambda>program_id.
     and_then (digest_field bs (layout_span layout ContractId) ''statement contract ID'')
       (\<lambda>contract_id.
     and_then (span_bytes (layout_span layout PayloadLength) bs) (\<lambda>prefix.
     and_then (ensure (length prefix = 4) LengthPrefixWrongWidth) (\<lambda>_.
       let payload_length = u32_from_le prefix in
     and_then (span_bytes (layout_span layout ApplicationPayload) bs) (\<lambda>application_payload.
     and_then (ensure (unat payload_length = length application_payload) PayloadPrefixDiffers) (\<lambda>_.
     and_then (statement_new chain_domain_id profile_id program_id contract_id application_payload)
       (\<lambda>statement.
     and_then (statement_encode statement) (\<lambda>encoded.
     and_then (ensure (encoded = bs) ReencodeChangedBytes) (\<lambda>_. Inr statement)))))))))))))))))"

section \<open>The layout in closed form\<close>

definition frozen_spans :: "nat \<Rightarrow> FieldSpan list" where
  "frozen_spans n =
     [\<lparr>span_field = ChainDomainId, span_start = 27, span_end = 59\<rparr>,
      \<lparr>span_field = ProfileId, span_start = 59, span_end = 91\<rparr>,
      \<lparr>span_field = ProgramId, span_start = 91, span_end = 123\<rparr>,
      \<lparr>span_field = ContractId, span_start = 123, span_end = 155\<rparr>,
      \<lparr>span_field = PayloadLength, span_start = 155, span_end = 159\<rparr>,
      \<lparr>span_field = ApplicationPayload, span_start = 159, span_end = 159 + n\<rparr>]"

lemma next_span_small:
  "cursor + width < 100000 \<Longrightarrow> next_span cursor field width =
     Inr (\<lparr>span_field = field, span_start = cursor, span_end = cursor + width\<rparr>, cursor + width)"
  by (simp add: next_span_def checked_add_usize_def usize_limit_def)

lemma layout_closed_form:
  "layout_for_payload_length n =
     (if n \<le> 16384 then Inr \<lparr>layout_spans = frozen_spans n\<rparr> else Inl (PayloadTooLarge n))"
  by (simp add: layout_for_payload_length_def next_span_small domain_lengths constant_sizes
      checked_add_usize_def usize_limit_def frozen_spans_def)

lemma frozen_span_simps [simp]:
  "layout_span \<lparr>layout_spans = frozen_spans n\<rparr> ChainDomainId =
     \<lparr>span_field = ChainDomainId, span_start = 27, span_end = 59\<rparr>"
  "layout_span \<lparr>layout_spans = frozen_spans n\<rparr> ProfileId =
     \<lparr>span_field = ProfileId, span_start = 59, span_end = 91\<rparr>"
  "layout_span \<lparr>layout_spans = frozen_spans n\<rparr> ProgramId =
     \<lparr>span_field = ProgramId, span_start = 91, span_end = 123\<rparr>"
  "layout_span \<lparr>layout_spans = frozen_spans n\<rparr> ContractId =
     \<lparr>span_field = ContractId, span_start = 123, span_end = 155\<rparr>"
  "layout_span \<lparr>layout_spans = frozen_spans n\<rparr> PayloadLength =
     \<lparr>span_field = PayloadLength, span_start = 155, span_end = 159\<rparr>"
  "layout_span \<lparr>layout_spans = frozen_spans n\<rparr> ApplicationPayload =
     \<lparr>span_field = ApplicationPayload, span_start = 159, span_end = 159 + n\<rparr>"
  "statement_length \<lparr>layout_spans = frozen_spans n\<rparr> = 159 + n"
  "layout_payload_length \<lparr>layout_spans = frozen_spans n\<rparr> = n"
  by (simp_all add: layout_span_def frozen_spans_def statement_length_def
      layout_payload_length_def span_len_def)

section \<open>The encoder appends the fields\<close>

definition valid_statement :: "ErgoStatement \<Rightarrow> bool" where
  "valid_statement s \<longleftrightarrow>
     length (st_chain_domain_id s) = DIGEST_BYTES \<and> length (st_profile_id s) = DIGEST_BYTES
     \<and> length (st_program_id s) = DIGEST_BYTES \<and> length (st_contract_id s) = DIGEST_BYTES
     \<and> length (st_application_payload s) \<le> MAX_APPLICATION_PAYLOAD_BYTES"

text \<open>The byte grammar of the statement: the fields in order, nothing between them.\<close>

definition statement_grammar :: "ErgoStatement \<Rightarrow> bytes" where
  "statement_grammar s =
     ERGO_STATEMENT_DOMAIN @ [STATEMENT_VERSION] @ st_chain_domain_id s @ st_profile_id s
     @ st_program_id s @ st_contract_id s
     @ u32_to_le (word_of_nat (length (st_application_payload s))) @ st_application_payload s"

lemma write_field_appends:
  assumes "length pre = span_start span" and "span_end span = span_start span + length value"
    and "length value \<le> n"
  shows "write_field (pre @ replicate n 0) span value =
    Inr ((pre @ value) @ replicate (n - length value) 0)"
  using assms
  by (simp add: write_field_def span_len_def get_range_def overwrite_zeros del: append_assoc)

lemma statement_encode_valid:
  assumes "valid_statement s"
  shows "statement_encode s = Inr (statement_grammar s)"
proof -
  let ?n = "length (st_application_payload s)"
  let ?pre = "ERGO_STATEMENT_DOMAIN @ [STATEMENT_VERSION]"
  have n: "?n \<le> 16384" using assms by (simp add: valid_statement_def constant_sizes)
  have u32: "u32_try_from ?n = Some (word_of_nat ?n)" using n by (simp add: u32_try_from_def)
  have start: "overwrite (overwrite (replicate (159 + ?n) 0) 0 ERGO_STATEMENT_DOMAIN) 26
      [STATEMENT_VERSION] = ?pre @ replicate (132 + ?n) 0"
    using overwrite_zeros [of "[]" 0 "159 + ?n" 0 ERGO_STATEMENT_DOMAIN]
      overwrite_zeros [of ERGO_STATEMENT_DOMAIN 26 "133 + ?n" 0 "[STATEMENT_VERSION]"]
    by (simp add: domain_lengths)
  show ?thesis
    using assms n
    unfolding statement_encode_def statement_layout_def layout_closed_form u32 Let_def
    by (simp add: start write_field_appends domain_lengths valid_statement_def constant_sizes
        statement_grammar_def del: append_assoc and_then_eq_Inr)
qed

lemma statement_encode_oversized:
  "16384 < length (st_application_payload s) \<Longrightarrow> \<exists>e. statement_encode s = Inl e"
  by (cases "u32_try_from (length (st_application_payload s))")
    (simp_all add: statement_encode_def statement_layout_def layout_closed_form del: u32_try_from_eq_Some)

lemma length_statement_grammar:
  "valid_statement s \<Longrightarrow>
    length (statement_grammar s) = STATEMENT_PREFIX_BYTES + length (st_application_payload s)"
  by (simp add: statement_grammar_def valid_statement_def constant_sizes domain_lengths)

section \<open>The parser inverts the encoder\<close>

lemma grammar_slices:
  assumes "valid_statement s"
  shows "slice (statement_grammar s) 27 59 = st_chain_domain_id s"
    and "slice (statement_grammar s) 59 91 = st_profile_id s"
    and "slice (statement_grammar s) 91 123 = st_program_id s"
    and "slice (statement_grammar s) 123 155 = st_contract_id s"
    and "slice (statement_grammar s) 155 159 =
      u32_to_le (word_of_nat (length (st_application_payload s)))"
    and "slice (statement_grammar s) 159 (159 + length (st_application_payload s)) =
      st_application_payload s"
  using assms
  by (simp_all add: slice_def statement_grammar_def valid_statement_def domain_lengths constant_sizes)

lemma grammar_start:
  "starts_with (statement_grammar s) ERGO_STATEMENT_DOMAIN"
  "get_index (statement_grammar s) 26 = Some STATEMENT_VERSION"
  by (simp_all add: statement_grammar_def nth_append domain_lengths)

lemma parse_grammar:
  assumes "valid_statement s"
  shows "parse_ergo_statement_v1 (statement_grammar s) = Inr s"
proof -
  let ?n = "length (st_application_payload s)"
  have n: "?n \<le> 16384" and widths: "length (st_chain_domain_id s) = 32"
    "length (st_profile_id s) = 32" "length (st_program_id s) = 32" "length (st_contract_id s) = 32"
    using assms by (simp_all add: valid_statement_def constant_sizes)
  have total: "length (statement_grammar s) = 159 + ?n"
    using length_statement_grammar [OF assms] by (simp add: constant_sizes)
  have new: "statement_new (st_chain_domain_id s) (st_profile_id s) (st_program_id s)
      (st_contract_id s) (st_application_payload s) = Inr s"
    using n by (simp add: statement_new_def constant_sizes)
  have sub: "checked_sub_usize (159 + ?n) 159 = Some ?n" by simp
  show ?thesis
    using n unfolding parse_ergo_statement_v1_def Let_def total
    by (simp add: grammar_start total domain_lengths constant_sizes sub layout_closed_form
        digest_field_def span_bytes_def get_range_def grammar_slices [OF assms] widths
        new statement_encode_valid [OF assms] unat_of_nat del: starts_with_iff
        get_index_eq_Some and_then_eq_Inr)
qed

lemma parse_sound:
  assumes "parse_ergo_statement_v1 bs = Inr s"
  shows "valid_statement s \<and> statement_encode s = Inr bs"
  using assms
  by (auto simp: parse_ergo_statement_v1_def Let_def digest_field_def statement_new_def
      valid_statement_def simp del: checked_sub_usize_eq_Some get_index_eq_Some starts_with_iff)

interpretation statement: codec statement_encode parse_ergo_statement_v1 valid_statement
  by unfold_locales (use statement_encode_valid parse_grammar parse_sound in auto)

lemma statement_new_eq_Inr [simp]:
  "statement_new cd pid prog cid payload = Inr s \<longleftrightarrow>
     length payload \<le> MAX_APPLICATION_PAYLOAD_BYTES
     \<and> s = \<lparr>st_chain_domain_id = cd, st_profile_id = pid, st_program_id = prog,
            st_contract_id = cid, st_application_payload = payload\<rparr>"
  by (auto simp: statement_new_def)

lemma slice_then [simp]:
  "a \<le> b \<Longrightarrow> b \<le> c \<Longrightarrow> slice xs a b @ slice xs b c = slice xs a c"
  "a \<le> b \<Longrightarrow> b \<le> c \<Longrightarrow> slice xs a b @ slice xs b c @ rest = slice xs a c @ rest"
  by (simp_all add: slice_append_slice flip: append_assoc)

lemma take_slice: "take a xs = slice xs 0 a"
  by (simp add: slice_def)

lemma layout_eq_Inr:
  "layout_for_payload_length n = Inr l \<longleftrightarrow>
     n \<le> 16384 \<and> l = \<lparr>layout_spans = frozen_spans n\<rparr>"
  by (auto simp: layout_closed_form)

lemma frozen_spans_tile:
  "length bs = 159 + n \<Longrightarrow>
    take 27 bs @ concat (map (\<lambda>s. slice bs (span_start s) (span_end s)) (frozen_spans n)) = bs"
  by (simp add: frozen_spans_def take_slice slice_full)

section \<open>Properties\<close>

text \<open>C26. Parsing accepts a byte string exactly when it is the encoding of a well-formed statement,
  and returns that statement: the decoder, the encoder and the grammar agree on every input.\<close>

theorem parse_exact:
  "parse_ergo_statement_v1 bs = Inr s \<longleftrightarrow> valid_statement s \<and> statement_encode s = Inr bs"
  by (rule statement.decode_eq_iff)

text \<open>A layout names every field once in wire order, its spans tile the statement behind the
  domain and version without gap or overlap, and it never exceeds the frozen maximum.\<close>

theorem layout_tiles:
  assumes "layout_for_payload_length n = Inr l" and "length bs = statement_length l"
  shows "map span_field (layout_spans l) = all_fields
    \<and> (\<forall>f. span_field (layout_span l f) = f)
    \<and> take 27 bs @ concat (map (\<lambda>s. slice bs (span_start s) (span_end s)) (layout_spans l)) = bs
    \<and> layout_payload_length l = n \<and> statement_length l \<le> MAX_STATEMENT_BYTES"
proof -
  have l: "l = \<lparr>layout_spans = frozen_spans n\<rparr>" and n: "n \<le> 16384"
    using assms(1) by (simp_all add: layout_eq_Inr)
  have "span_field (layout_span l f) = f" for f by (cases f) (simp_all add: l)
  then show ?thesis
    using assms(2) n frozen_spans_tile [of bs n]
    by (simp add: l constant_sizes) (simp add: frozen_spans_def all_fields_def)
qed

theorem layout_tiles_witness:
  "\<exists>l. layout_for_payload_length 2 = Inr l
    \<and> take 27 (replicate 161 7 :: bytes)
        @ concat (map (\<lambda>s. slice (replicate 161 7) (span_start s) (span_end s)) (layout_spans l))
      = replicate 161 7"
proof -
  let ?l = "\<lparr>layout_spans = frozen_spans 2\<rparr>"
  have "layout_for_payload_length 2 = Inr ?l" by (simp add: layout_eq_Inr)
  moreover have "length (replicate 161 7 :: bytes) = statement_length ?l" by simp
  ultimately show ?thesis using layout_tiles [of 2 ?l "replicate 161 7"] by blast
qed

end
