(* ===== verification/ProfileIdentity.thy ===== *)
theory ProfileIdentity
  imports ErgoStatement
begin

text \<open>
  The pure byte constructions of \<open>reproduction/src/profile.rs\<close>: the contract identifier, the
  concatenating constructor of the statement, the profile-identifier preimage and its comparison.
  BLAKE2b-256 is the \<open>blake2\<close> crate and appears as the parameter \<open>blake2b_256\<close>. The statement
  constructor is proved equivalent to the span-based encoder of \<open>ErgoStatement\<close>.
\<close>

section \<open>Definitions\<close>

datatype ProfileConstructionError =
    ApplicationPayloadTooLarge nat nat
  | InvalidManifestLength nat nat
  | ArithmeticOverflow string
  | DerivedLengthMismatch string nat nat

datatype ProfileIdPreimageValidationError =
    Construction ProfileConstructionError
  | PreimageMismatch

definition require_length :: "string \<Rightarrow> nat \<Rightarrow> nat \<Rightarrow> ProfileConstructionError + unit" where
  "require_length construct actual expected =
     (if actual = expected then Inr () else Inl (DerivedLengthMismatch construct actual expected))"

definition ergo_statement_v1_from_contract_id ::
  "bytes \<Rightarrow> bytes \<Rightarrow> bytes \<Rightarrow> bytes \<Rightarrow> bytes \<Rightarrow> ProfileConstructionError + bytes" where
  "ergo_statement_v1_from_contract_id chain_domain_id profile_id program_id contract_id
     application_payload =
     (if length application_payload > MAX_APPLICATION_PAYLOAD_BYTES
      then Inl (ApplicationPayloadTooLarge (length application_payload) MAX_APPLICATION_PAYLOAD_BYTES)
      else
        and_then (ok_or (u32_try_from (length application_payload))
                    (ArithmeticOverflow ''application payload length prefix'')) (\<lambda>payload_length.
        and_then (ok_or (checked_mul_usize ERGO_STATEMENT_BOUND_DIGESTS DIGEST_BYTES)
                    (ArithmeticOverflow ''statement digest fields'')) (\<lambda>digest_fields_length.
        and_then (ok_or
            (Option.bind (checked_add_usize (length ERGO_STATEMENT_DOMAIN) ERGO_STATEMENT_VERSION_BYTES)
              (\<lambda>len. Option.bind (checked_add_usize len digest_fields_length)
              (\<lambda>len. checked_add_usize len PAYLOAD_LENGTH_PREFIX_BYTES)))
            (ArithmeticOverflow ''statement prefix'')) (\<lambda>derived_prefix_length.
        and_then (require_length ''statement prefix'' derived_prefix_length STATEMENT_PREFIX_BYTES)
          (\<lambda>_.
        and_then (ok_or (checked_add_usize derived_prefix_length (length application_payload))
                    (ArithmeticOverflow ''complete statement'')) (\<lambda>expected_length.
        if expected_length > MAX_STATEMENT_BYTES
        then Inl (DerivedLengthMismatch ''maximum statement'' expected_length MAX_STATEMENT_BYTES)
        else
          let statement = ERGO_STATEMENT_DOMAIN @ [0x01] @ chain_domain_id @ profile_id @ program_id
                @ contract_id @ u32_to_le payload_length @ application_payload in
          and_then (require_length ''complete statement'' (length statement) expected_length)
            (\<lambda>_. Inr statement)))))))"

definition contract_id :: "(bytes \<Rightarrow> bytes) \<Rightarrow> bytes \<Rightarrow> bytes" where
  "contract_id blake2b_256 self_proposition_bytes = blake2b_256 self_proposition_bytes"

definition ergo_statement_v1 ::
  "(bytes \<Rightarrow> bytes) \<Rightarrow> bytes \<Rightarrow> bytes \<Rightarrow> bytes \<Rightarrow> bytes \<Rightarrow> bytes
     \<Rightarrow> ProfileConstructionError + bytes" where
  "ergo_statement_v1 blake2b_256 chain_domain_id profile_id program_id self_proposition_bytes
     application_payload =
     ergo_statement_v1_from_contract_id chain_domain_id profile_id program_id
       (contract_id blake2b_256 self_proposition_bytes) application_payload"

definition profile_id_preimage :: "bytes \<Rightarrow> ProfileConstructionError + bytes" where
  "profile_id_preimage manifest_bytes =
     (if length manifest_bytes \<noteq> MANIFEST_BYTES
      then Inl (InvalidManifestLength (length manifest_bytes) MANIFEST_BYTES)
      else
        and_then (ok_or (u32_try_from (length manifest_bytes))
                    (ArithmeticOverflow ''profile manifest length prefix'')) (\<lambda>manifest_length.
        and_then (ok_or
            (Option.bind (checked_add_usize (length PROFILE_ID_DOMAIN) PROFILE_ID_DOMAIN_SEPARATOR_BYTES)
              (\<lambda>len. Option.bind (checked_add_usize len MANIFEST_LENGTH_PREFIX_BYTES)
              (\<lambda>len. checked_add_usize len (length manifest_bytes))))
            (ArithmeticOverflow ''profile ID preimage'')) (\<lambda>expected_length.
        and_then (require_length ''profile ID preimage'' expected_length PROFILE_ID_PREIMAGE_BYTES)
          (\<lambda>_.
          let preimage = PROFILE_ID_DOMAIN @ [0x00] @ u32_to_le manifest_length @ manifest_bytes in
          and_then (require_length ''profile ID preimage'' (length preimage) expected_length) (\<lambda>_.
          and_then (ensure (length preimage = PROFILE_ID_PREIMAGE_BYTES)
                      (DerivedLengthMismatch ''profile ID preimage'' (length preimage)
                         PROFILE_ID_PREIMAGE_BYTES)) (\<lambda>_.
          Inr preimage))))))"

definition hash_profile_id ::
  "(bytes \<Rightarrow> bytes) \<Rightarrow> bytes \<Rightarrow> ProfileConstructionError + bytes" where
  "hash_profile_id blake2b_256 manifest_bytes =
     and_then (profile_id_preimage manifest_bytes) (\<lambda>preimage. Inr (blake2b_256 preimage))"

definition validate_profile_id_preimage ::
  "bytes \<Rightarrow> bytes \<Rightarrow> ProfileIdPreimageValidationError + unit" where
  "validate_profile_id_preimage manifest_bytes claimed_preimage =
     and_then (map_err Construction (profile_id_preimage manifest_bytes)) (\<lambda>expected.
     if expected = claimed_preimage then Inr () else Inl PreimageMismatch)"

section \<open>Closed forms\<close>

lemma require_length_eq_Inr [simp]: "require_length c a e = Inr u \<longleftrightarrow> a = e"
  by (simp add: require_length_def)

lemma require_length_same [simp]: "require_length c a a = Inr ()"
  by (simp add: require_length_def)

lemma from_contract_id_closed_form:
  assumes "length cd = 32" "length pid = 32" "length prog = 32" "length cid = 32"
  shows "ergo_statement_v1_from_contract_id cd pid prog cid payload =
    (if length payload \<le> 16384
     then Inr (statement_grammar \<lparr>st_chain_domain_id = cd, st_profile_id = pid,
            st_program_id = prog, st_contract_id = cid, st_application_payload = payload\<rparr>)
     else Inl (ApplicationPayloadTooLarge (length payload) 16384))"
  using assms
  by (simp add: ergo_statement_v1_from_contract_id_def constant_sizes domain_lengths Let_def
      checked_add_usize_def checked_mul_usize_def usize_limit_def u32_try_from_def
      statement_grammar_def STATEMENT_VERSION_def del: and_then_eq_Inr)

lemma profile_id_preimage_closed_form:
  "profile_id_preimage m =
    (if length m = 458 then Inr (PROFILE_ID_DOMAIN @ [0] @ u32_to_le 458 @ m)
     else Inl (InvalidManifestLength (length m) 458))"
  by (simp add: profile_id_preimage_def constant_sizes domain_lengths Let_def
      checked_add_usize_def usize_limit_def u32_try_from_def del: and_then_eq_Inr)

section \<open>Properties\<close>

text \<open>The concatenating statement constructor and the span-based encoder are equivalent: on
  32-byte digests they accept the same payloads and produce the same bytes, and what they produce
  parses back to the fields that went in.\<close>

theorem statement_constructors_agree:
  assumes "length cd = 32" "length pid = 32" "length prog = 32"
    and "length (blake2b_256 proposition) = 32"
  shows "ergo_statement_v1 blake2b_256 cd pid prog proposition payload = Inr bs \<longleftrightarrow>
    (\<exists>s. statement_new cd pid prog (contract_id blake2b_256 proposition) payload = Inr s
       \<and> statement_encode s = Inr bs \<and> parse_ergo_statement_v1 bs = Inr s)"
proof -
  let ?s = "\<lparr>st_chain_domain_id = cd, st_profile_id = pid, st_program_id = prog,
    st_contract_id = contract_id blake2b_256 proposition, st_application_payload = payload\<rparr>"
  have cid: "length (contract_id blake2b_256 proposition) = 32"
    using assms by (simp add: contract_id_def)
  have "valid_statement ?s \<longleftrightarrow> length payload \<le> 16384"
    using assms cid by (simp add: valid_statement_def constant_sizes)
  then show ?thesis
    using statement_encode_valid [of ?s] parse_grammar [of ?s] assms cid
    by (auto simp: ergo_statement_v1_def from_contract_id_closed_form constant_sizes)
qed

theorem statement_constructors_agree_witness:
  "\<exists>bs s. ergo_statement_v1 (\<lambda>_. replicate 32 4) (replicate 32 1) (replicate 32 2) (replicate 32 3)
      [9, 9] [5] = Inr bs \<and> parse_ergo_statement_v1 bs = Inr s \<and> st_application_payload s = [5]"
proof -
  obtain bs where bs: "ergo_statement_v1 (\<lambda>_. replicate 32 4) (replicate 32 1) (replicate 32 2)
      (replicate 32 3) [9, 9] [5] = Inr bs"
    by (simp add: ergo_statement_v1_def from_contract_id_closed_form contract_id_def)
  then show ?thesis
    using statement_constructors_agree [of "replicate 32 1" "replicate 32 2" "replicate 32 3"
        "\<lambda>_. replicate 32 4" "[9, 9]" "[5]" bs] by auto
qed

text \<open>A claimed preimage is accepted exactly for a 458-byte manifest and the one 485-byte string
  built from it, so two manifests accepted for one preimage are equal, and equal profile identifiers
  of accepted manifests name equal manifests unless the hash collides on their two preimages.\<close>

theorem profile_preimage_binds:
  assumes "validate_profile_id_preimage m p = Inr ()"
  shows "length m = 458 \<and> length p = 485 \<and> profile_id_preimage m = Inr p
    \<and> hash_profile_id blake2b_256 m = Inr (blake2b_256 p)
    \<and> (validate_profile_id_preimage m' p = Inr () \<longrightarrow> m' = m)
    \<and> (validate_profile_id_preimage m' p' = Inr () \<longrightarrow>
         hash_profile_id blake2b_256 m = hash_profile_id blake2b_256 m' \<longrightarrow>
         m = m' \<or> (p \<noteq> p' \<and> blake2b_256 p = blake2b_256 p'))"
  using assms
  by (auto simp: validate_profile_id_preimage_def hash_profile_id_def profile_id_preimage_closed_form
      domain_lengths split: if_splits)

theorem profile_preimage_binds_witness:
  "length (PROFILE_ID_DOMAIN @ [0] @ u32_to_le 458 @ replicate 458 6) = 485
    \<and> hash_profile_id (\<lambda>bs. take 32 bs) (replicate 458 6) = Inr (take 32 (PROFILE_ID_DOMAIN @ [0] @ u32_to_le 458 @ replicate 458 6))"
proof -
  let ?m = "replicate 458 6 :: bytes" and ?p = "PROFILE_ID_DOMAIN @ [0] @ u32_to_le 458 @ replicate 458 6"
  have "validate_profile_id_preimage ?m ?p = Inr ()"
    by (simp add: validate_profile_id_preimage_def profile_id_preimage_closed_form)
  from profile_preimage_binds [OF this, of "\<lambda>bs. take 32 bs"] show ?thesis by blast
qed

end
