(* ===== verification/ProfileManifest.thy ===== *)
theory ProfileManifest
  imports ProfileIdentity "HOL-Library.Product_Lexorder"
begin

text \<open>
  The strict codec of the binary Manifest V1 (\<open>reproduction/src/profile_manifest.rs\<close>): the cursor
  over the raw bytes, the 458-byte encoder, the grammar check on the typed terminal-control table and
  the two artifact references, the comparison with the initial construction target and the
  validation of a whole profile package. The codec is an interpretation of the locale
  \<open>fixed_codec\<close> with width 458. BLAKE2b-256 and the hexadecimal decoder are parameters.
\<close>

section \<open>Data\<close>

definition TERMINAL_CONTROL_COUNT :: nat where
  "TERMINAL_CONTROL_COUNT = MANIFEST_CONTROL_COUNT"

record TerminalControl =
  tc_kind :: u8
  tc_parameter :: u8
  tc_control_id :: bytes

record ProfileArtifactReference =
  ar_kind :: u16
  ar_length :: u32
  ar_digest :: bytes

record StarkProfileManifest =
  mf_raw_bytes :: bytes
  mf_exact_proof_bytes :: u32
  mf_max_application_payload_bytes :: u32
  mf_outer_po2 :: u8
  mf_inner_control_root :: bytes
  mf_terminal_controls :: "TerminalControl list"
  mf_algorithm_artifact :: ProfileArtifactReference
  mf_binary_data_artifact :: ProfileArtifactReference

record ProfileArtifacts =
  pa_algorithm :: bytes
  pa_binary_data :: bytes

record ValidatedProfilePackage =
  vp_manifest :: StarkProfileManifest
  vp_artifacts :: ProfileArtifacts

datatype InitialProfileTargetField =
    ExactProofBytes | MaxApplicationPayloadBytes | OuterPo2 | InnerControlRoot

datatype ProfileManifestError =
    InvalidLength nat nat
  | UnsupportedVersion u8
  | ZeroProofLength
  | UnsupportedControlKind nat u8
  | InvalidControlParameter nat u8 u8
  | ControlOrder nat
  | DuplicateControlId nat
  | ArtifactKind nat u16 u16
  | EmptyArtifact nat
  | ArtifactTooLarge u16 nat
  | ArtifactLengthMismatch u16 u32 nat
  | ArtifactDigestMismatch u16
  | InitialTargetMismatch InitialProfileTargetField
  | InitialControlMismatch nat
  | ProfileIdMismatch
  | InvalidFrozenDigest
  | InternalLayout

section \<open>Artifact references\<close>

text \<open>The streaming hash is one hash of the concatenated updates.\<close>

definition artifact_preimage :: "u16 \<Rightarrow> u32 \<Rightarrow> bytes \<Rightarrow> bytes" where
  "artifact_preimage artifact_kind artifact_length artifact_bytes =
     PROFILE_ARTIFACT_DOMAIN @ [0x00] @ u16_to_le artifact_kind @ u32_to_le artifact_length
     @ artifact_bytes"

definition profile_artifact_digest ::
  "(bytes \<Rightarrow> bytes) \<Rightarrow> u16 \<Rightarrow> bytes \<Rightarrow> ProfileManifestError + bytes" where
  "profile_artifact_digest blake2b_256 artifact_kind artifact_bytes =
     and_then (ok_or (u32_try_from (length artifact_bytes))
                 (ArtifactTooLarge artifact_kind (length artifact_bytes))) (\<lambda>artifact_length.
     Inr (blake2b_256 (artifact_preimage artifact_kind artifact_length artifact_bytes)))"

definition reference_from_artifact ::
  "(bytes \<Rightarrow> bytes) \<Rightarrow> u16 \<Rightarrow> bytes \<Rightarrow> ProfileManifestError + ProfileArtifactReference" where
  "reference_from_artifact blake2b_256 artifact_kind artifact_bytes =
     and_then (ok_or (u32_try_from (length artifact_bytes))
                 (ArtifactTooLarge artifact_kind (length artifact_bytes))) (\<lambda>artifact_length.
     and_then (profile_artifact_digest blake2b_256 artifact_kind artifact_bytes) (\<lambda>artifact_digest.
     Inr \<lparr>ar_kind = artifact_kind, ar_length = artifact_length, ar_digest = artifact_digest\<rparr>))"

definition validate_artifact_reference_shape ::
  "ProfileArtifactReference \<Rightarrow> u16 \<Rightarrow> nat \<Rightarrow> ProfileManifestError + unit" where
  "validate_artifact_reference_shape reference expected_kind index =
     (if ar_kind reference \<noteq> expected_kind
      then Inl (ArtifactKind index (ar_kind reference) expected_kind)
      else if ar_length reference = 0 then Inl (EmptyArtifact index)
      else Inr ())"

definition validate_artifact_reference ::
  "(bytes \<Rightarrow> bytes) \<Rightarrow> ProfileArtifactReference \<Rightarrow> bytes \<Rightarrow> ProfileManifestError + unit" where
  "validate_artifact_reference blake2b_256 reference artifact_bytes =
     (if unat (ar_length reference) \<noteq> length artifact_bytes
      then Inl (ArtifactLengthMismatch (ar_kind reference) (ar_length reference)
                  (length artifact_bytes))
      else
        and_then (profile_artifact_digest blake2b_256 (ar_kind reference) artifact_bytes) (\<lambda>digest.
        if ar_digest reference \<noteq> digest then Inl (ArtifactDigestMismatch (ar_kind reference))
        else Inr ()))"

definition append_artifact_reference :: "bytes \<Rightarrow> ProfileArtifactReference \<Rightarrow> bytes" where
  "append_artifact_reference bs reference =
     bs @ u16_to_le (ar_kind reference) @ u32_to_le (ar_length reference) @ ar_digest reference"

section \<open>The grammar\<close>

definition control_key :: "TerminalControl \<Rightarrow> u8 \<times> u8" where
  "control_key c = (tc_kind c, tc_parameter c)"

text \<open>The loop of \<open>validate_v1_grammar\<close> over the table; \<open>earlier\<close> holds the entries before the index.\<close>

fun validate_controls ::
  "TerminalControl list \<Rightarrow> TerminalControl list \<Rightarrow> ProfileManifestError + unit" where
  "validate_controls earlier [] = Inr ()"
| "validate_controls earlier (control # rest) =
     (let index = length earlier in
      and_then
        (if tc_kind control = TERMINAL_CONTROL_KIND_LIFT then Inr ()
         else if tc_kind control = TERMINAL_CONTROL_KIND_JOIN
              \<or> tc_kind control = TERMINAL_CONTROL_KIND_RESOLVE
         then (if tc_parameter control \<noteq> 0
               then Inl (InvalidControlParameter index (tc_kind control) (tc_parameter control))
               else Inr ())
         else Inl (UnsupportedControlKind index (tc_kind control))) (\<lambda>_.
      if index \<noteq> 0 \<and> control_key control \<le> control_key (earlier ! (index - 1))
      then Inl (ControlOrder index)
      else if list_ex (\<lambda>e. tc_control_id e = tc_control_id control) earlier
      then Inl (DuplicateControlId index)
      else validate_controls (earlier @ [control]) rest))"

definition validate_v1_grammar :: "StarkProfileManifest \<Rightarrow> ProfileManifestError + unit" where
  "validate_v1_grammar m =
     (if mf_exact_proof_bytes m = 0 then Inl ZeroProofLength
      else
        and_then (validate_controls [] (mf_terminal_controls m)) (\<lambda>_.
        and_then (validate_artifact_reference_shape (mf_algorithm_artifact m)
                    ALGORITHM_ARTIFACT_KIND 0) (\<lambda>_.
        validate_artifact_reference_shape (mf_binary_data_artifact m) BINARY_DATA_ARTIFACT_KIND 1)))"

section \<open>Encoding\<close>

definition append_control :: "bytes \<Rightarrow> TerminalControl \<Rightarrow> bytes" where
  "append_control bs control = bs @ [tc_kind control] @ [tc_parameter control] @ tc_control_id control"

definition encode_fields :: "StarkProfileManifest \<Rightarrow> ProfileManifestError + bytes" where
  "encode_fields m =
     (let bs = [MANIFEST_FORMAT_VERSION];
          bs = bs @ u32_to_le (mf_exact_proof_bytes m);
          bs = bs @ u32_to_le (mf_max_application_payload_bytes m);
          bs = bs @ [mf_outer_po2 m];
          bs = bs @ mf_inner_control_root m;
          bs = foldl append_control bs (mf_terminal_controls m);
          bs = append_artifact_reference bs (mf_algorithm_artifact m);
          bs = append_artifact_reference bs (mf_binary_data_artifact m) in
      if length bs = MANIFEST_BYTES then Inr bs else Inl InternalLayout)"

definition manifest_new ::
  "u32 \<Rightarrow> u32 \<Rightarrow> u8 \<Rightarrow> bytes \<Rightarrow> TerminalControl list \<Rightarrow> ProfileArtifactReference
     \<Rightarrow> ProfileArtifactReference \<Rightarrow> ProfileManifestError + StarkProfileManifest" where
  "manifest_new exact_proof_bytes max_application_payload_bytes outer_po2 inner_control_root
     terminal_controls algorithm_artifact binary_data_artifact =
     (let manifest =
        \<lparr>mf_raw_bytes = replicate MANIFEST_BYTES 0,
         mf_exact_proof_bytes = exact_proof_bytes,
         mf_max_application_payload_bytes = max_application_payload_bytes,
         mf_outer_po2 = outer_po2,
         mf_inner_control_root = inner_control_root,
         mf_terminal_controls = terminal_controls,
         mf_algorithm_artifact = algorithm_artifact,
         mf_binary_data_artifact = binary_data_artifact\<rparr> in
      and_then (validate_v1_grammar manifest) (\<lambda>_.
      and_then (encode_fields manifest) (\<lambda>raw.
      Inr (manifest\<lparr>mf_raw_bytes := raw\<rparr>))))"

definition manifest_encode :: "StarkProfileManifest \<Rightarrow> ProfileManifestError + bytes" where
  "manifest_encode m =
     and_then (validate_v1_grammar m) (\<lambda>_.
     and_then (encode_fields m) (\<lambda>raw.
     if raw \<noteq> mf_raw_bytes m then Inl InternalLayout else Inr (mf_raw_bytes m)))"

section \<open>The cursor and decoding\<close>

record ManifestCursor =
  cur_bytes :: bytes
  cur_position :: nat

definition cursor_new :: "bytes \<Rightarrow> ManifestCursor" where
  "cursor_new bs = \<lparr>cur_bytes = bs, cur_position = 0\<rparr>"

definition take_array ::
  "nat \<Rightarrow> ManifestCursor \<Rightarrow> ProfileManifestError + bytes \<times> ManifestCursor" where
  "take_array n c =
     and_then (ok_or (checked_add_usize (cur_position c) n) InternalLayout) (\<lambda>end.
     and_then (ok_or (get_range (cur_bytes c) (cur_position c) end) InternalLayout) (\<lambda>field.
     let c = c\<lparr>cur_position := end\<rparr> in
     and_then (ensure (length field = n) InternalLayout) (\<lambda>_. Inr (field, c))))"

definition take_u8 :: "ManifestCursor \<Rightarrow> ProfileManifestError + u8 \<times> ManifestCursor" where
  "take_u8 c = and_then (take_array 1 c) (\<lambda>(bs, c). Inr (bs ! 0, c))"

definition take_u16_le :: "ManifestCursor \<Rightarrow> ProfileManifestError + u16 \<times> ManifestCursor" where
  "take_u16_le c = and_then (take_array 2 c) (\<lambda>(bs, c). Inr (u16_from_le bs, c))"

definition take_u32_le :: "ManifestCursor \<Rightarrow> ProfileManifestError + u32 \<times> ManifestCursor" where
  "take_u32_le c = and_then (take_array 4 c) (\<lambda>(bs, c). Inr (u32_from_le bs, c))"

definition take_artifact_reference ::
  "ManifestCursor \<Rightarrow> ProfileManifestError + ProfileArtifactReference \<times> ManifestCursor" where
  "take_artifact_reference c =
     and_then (take_u16_le c) (\<lambda>(kind, c).
     and_then (take_u32_le c) (\<lambda>(len, c).
     and_then (take_array DIGEST_BYTES c) (\<lambda>(digest, c).
     Inr (\<lparr>ar_kind = kind, ar_length = len, ar_digest = digest\<rparr>, c))))"

fun take_controls ::
  "nat \<Rightarrow> ManifestCursor \<Rightarrow> ProfileManifestError + TerminalControl list \<times> ManifestCursor" where
  "take_controls 0 c = Inr ([], c)"
| "take_controls (Suc n) c =
     and_then (take_u8 c) (\<lambda>(kind, c).
     and_then (take_u8 c) (\<lambda>(parameter, c).
     and_then (take_array DIGEST_BYTES c) (\<lambda>(control_id, c).
     and_then (take_controls n c) (\<lambda>(rest, c).
     Inr (\<lparr>tc_kind = kind, tc_parameter = parameter, tc_control_id = control_id\<rparr> # rest, c)))))"

definition manifest_decode :: "bytes \<Rightarrow> ProfileManifestError + StarkProfileManifest" where
  "manifest_decode bs =
     (if length bs \<noteq> MANIFEST_BYTES then Inl (InvalidLength (length bs) MANIFEST_BYTES)
      else
        and_then (take_u8 (cursor_new bs)) (\<lambda>(version, c).
        if version \<noteq> MANIFEST_FORMAT_VERSION then Inl (UnsupportedVersion version)
        else
          and_then (take_u32_le c) (\<lambda>(exact_proof_bytes, c).
          and_then (take_u32_le c) (\<lambda>(max_application_payload_bytes, c).
          and_then (take_u8 c) (\<lambda>(outer_po2, c).
          and_then (take_array DIGEST_BYTES c) (\<lambda>(inner_control_root, c).
          and_then (take_controls TERMINAL_CONTROL_COUNT c) (\<lambda>(terminal_controls, c).
          and_then (ensure (length terminal_controls = TERMINAL_CONTROL_COUNT) InternalLayout) (\<lambda>_.
          and_then (take_artifact_reference c) (\<lambda>(algorithm_artifact, c).
          and_then (take_artifact_reference c) (\<lambda>(binary_data_artifact, c).
          if cur_position c \<noteq> MANIFEST_BYTES then Inl InternalLayout
          else
            and_then (manifest_new exact_proof_bytes max_application_payload_bytes outer_po2
                        inner_control_root terminal_controls algorithm_artifact
                        binary_data_artifact) (\<lambda>manifest.
            if mf_raw_bytes manifest \<noteq> bs then Inl InternalLayout else Inr manifest)))))))))))"

section \<open>Initial target and packages\<close>

definition decode_frozen_digest ::
  "(string \<Rightarrow> nat \<Rightarrow> bytes option) \<Rightarrow> string \<Rightarrow> ProfileManifestError + bytes" where
  "decode_frozen_digest decode_to_slice value =
     ok_or (decode_to_slice value DIGEST_BYTES) InvalidFrozenDigest"

fun validate_lift_targets ::
  "(string \<Rightarrow> nat \<Rightarrow> bytes option) \<Rightarrow> TerminalControl list \<Rightarrow> nat \<Rightarrow> u8 list
     \<Rightarrow> ProfileManifestError + unit" where
  "validate_lift_targets d controls index [] = Inr ()"
| "validate_lift_targets d controls index (expected_parameter # rest) =
     (let control = controls ! index in
      if tc_kind control \<noteq> TERMINAL_CONTROL_KIND_LIFT \<or> tc_parameter control \<noteq> expected_parameter
      then Inl (InitialControlMismatch index)
      else
        and_then (decode_frozen_digest d (RISC0_NORMAL_LIFT_CONTROL_IDS_HEX ! index)) (\<lambda>expected.
        if tc_control_id control \<noteq> expected then Inl (InitialControlMismatch index)
        else validate_lift_targets d controls (index + 1) rest))"

text \<open>The comparison of a join or resolve entry; \<open>||\<close> evaluates the decoder last.\<close>

definition validate_single_target ::
  "(string \<Rightarrow> nat \<Rightarrow> bytes option) \<Rightarrow> TerminalControl \<Rightarrow> u8 \<Rightarrow> string \<Rightarrow> nat
     \<Rightarrow> ProfileManifestError + unit" where
  "validate_single_target d control kind hex index =
     (if tc_kind control \<noteq> kind \<or> tc_parameter control \<noteq> 0 then Inl (InitialControlMismatch index)
      else
        and_then (decode_frozen_digest d hex) (\<lambda>expected.
        if tc_control_id control \<noteq> expected then Inl (InitialControlMismatch index) else Inr ()))"

definition validate_initial_profile_target ::
  "(string \<Rightarrow> nat \<Rightarrow> bytes option) \<Rightarrow> StarkProfileManifest \<Rightarrow> ProfileManifestError + unit" where
  "validate_initial_profile_target d m =
     and_then (ok_or (u32_try_from PROOF_BYTES) InternalLayout) (\<lambda>expected_proof_bytes.
     and_then (ok_or (u32_try_from MAX_APPLICATION_PAYLOAD_BYTES) InternalLayout)
       (\<lambda>expected_payload_bytes.
     if mf_exact_proof_bytes m \<noteq> expected_proof_bytes
     then Inl (InitialTargetMismatch ExactProofBytes)
     else if mf_max_application_payload_bytes m \<noteq> expected_payload_bytes
     then Inl (InitialTargetMismatch MaxApplicationPayloadBytes)
     else if mf_outer_po2 m \<noteq> RISC0_OUTER_PO2 then Inl (InitialTargetMismatch OuterPo2)
     else
       and_then (decode_frozen_digest d RISC0_INNER_CONTROL_ROOT_HEX) (\<lambda>root.
       if mf_inner_control_root m \<noteq> root then Inl (InitialTargetMismatch InnerControlRoot)
       else
         and_then (validate_lift_targets d (mf_terminal_controls m) 0 SUPPORTED_SEGMENT_PO2) (\<lambda>_.
         let join_index = length SUPPORTED_SEGMENT_PO2 in
         and_then (validate_single_target d (mf_terminal_controls m ! join_index)
                     TERMINAL_CONTROL_KIND_JOIN RISC0_JOIN_CONTROL_ID_HEX join_index) (\<lambda>_.
         let resolve_index = join_index + 1 in
         validate_single_target d (mf_terminal_controls m ! resolve_index)
           TERMINAL_CONTROL_KIND_RESOLVE RISC0_RESOLVE_CONTROL_ID_HEX resolve_index)))))"

definition validate_artifact_package ::
  "(bytes \<Rightarrow> bytes) \<Rightarrow> StarkProfileManifest \<Rightarrow> bytes \<Rightarrow> bytes \<Rightarrow> ProfileManifestError + unit" where
  "validate_artifact_package blake2b_256 m algorithm_bytes binary_data_bytes =
     and_then (validate_artifact_reference blake2b_256 (mf_algorithm_artifact m) algorithm_bytes)
       (\<lambda>_. validate_artifact_reference blake2b_256 (mf_binary_data_artifact m) binary_data_bytes)"

definition manifest_profile_id ::
  "(bytes \<Rightarrow> bytes) \<Rightarrow> StarkProfileManifest \<Rightarrow> ProfileManifestError + bytes" where
  "manifest_profile_id blake2b_256 m =
     and_then (manifest_encode m) (\<lambda>_.
     map_err (\<lambda>_. InternalLayout) (hash_profile_id blake2b_256 (mf_raw_bytes m)))"

definition manifest_profile_id_preimage :: "StarkProfileManifest \<Rightarrow> ProfileManifestError + bytes" where
  "manifest_profile_id_preimage m =
     and_then (manifest_encode m) (\<lambda>_.
     map_err (\<lambda>_. InternalLayout) (profile_id_preimage (mf_raw_bytes m)))"

definition validate_profile_package ::
  "(bytes \<Rightarrow> bytes) \<Rightarrow> bytes \<Rightarrow> ProfileArtifacts \<Rightarrow> bytes
     \<Rightarrow> ProfileManifestError + ValidatedProfilePackage" where
  "validate_profile_package blake2b_256 manifest_bytes artifacts expected_profile_id =
     and_then (manifest_decode manifest_bytes) (\<lambda>manifest.
     and_then (manifest_profile_id blake2b_256 manifest) (\<lambda>actual_profile_id.
     if actual_profile_id \<noteq> expected_profile_id then Inl ProfileIdMismatch
     else
       and_then (validate_artifact_package blake2b_256 manifest (pa_algorithm artifacts)
                   (pa_binary_data artifacts)) (\<lambda>_.
       Inr \<lparr>vp_manifest = manifest, vp_artifacts = artifacts\<rparr>)))"

section \<open>Accepted control tables\<close>

definition control_shape :: "TerminalControl \<Rightarrow> bool" where
  "control_shape c \<longleftrightarrow>
     tc_kind c = TERMINAL_CONTROL_KIND_LIFT
     \<or> (tc_kind c = TERMINAL_CONTROL_KIND_JOIN \<or> tc_kind c = TERMINAL_CONTROL_KIND_RESOLVE)
         \<and> tc_parameter c = 0"

lemma sorted_wrt_snoc:
  "sorted_wrt (<) (xs @ [x]) \<longleftrightarrow> sorted_wrt (<) xs \<and> (xs \<noteq> [] \<longrightarrow> last xs < x)"
  for xs :: "'a::linorder list"
proof (cases xs rule: rev_cases)
  case (snoc ys y)
  then show ?thesis by (auto simp: sorted_wrt_append)
qed simp

lemma validate_controls_iff:
  assumes "sorted_wrt (<) (map control_key earlier)" "distinct (map tc_control_id earlier)"
  shows "validate_controls earlier rest = Inr u \<longleftrightarrow>
    list_all control_shape rest \<and> sorted_wrt (<) (map control_key (earlier @ rest))
    \<and> distinct (map tc_control_id (earlier @ rest))"
  using assms
proof (induction rest arbitrary: earlier)
  case Nil
  then show ?case by simp
next
  case (Cons c rest)
  have last: "earlier \<noteq> [] \<Longrightarrow> last (map control_key earlier) = control_key (earlier ! (length earlier - 1))"
    by (simp add: last_map last_conv_nth)
  have ordered: "sorted_wrt (<) (map control_key (earlier @ [c])) \<longleftrightarrow>
      \<not> (length earlier \<noteq> 0 \<and> control_key c \<le> control_key (earlier ! (length earlier - 1)))"
    using Cons.prems(1) last by (auto simp: sorted_wrt_snoc)
  have fresh: "distinct (map tc_control_id (earlier @ [c])) \<longleftrightarrow>
      \<not> list_ex (\<lambda>e. tc_control_id e = tc_control_id c) earlier"
    using Cons.prems(2) by (auto simp: list_ex_iff) (metis image_eqI)
  let ?good = "sorted_wrt (<) (map control_key (earlier @ [c]))
    \<and> distinct (map tc_control_id (earlier @ [c]))"
  have "validate_controls earlier (c # rest) = Inr u \<longleftrightarrow>
      control_shape c \<and> ?good \<and> validate_controls (earlier @ [c]) rest = Inr u"
    unfolding ordered fresh validate_controls.simps Let_def and_then_eq_Inr control_shape_def
    by (simp split: if_splits del: One_nat_def)
  moreover have "sorted_wrt (<) (map control_key (earlier @ c # rest)) \<Longrightarrow>
      sorted_wrt (<) (map control_key (earlier @ [c]))"
    "distinct (map tc_control_id (earlier @ c # rest)) \<Longrightarrow>
      distinct (map tc_control_id (earlier @ [c]))"
    by (auto simp: sorted_wrt_append)
  ultimately show ?case using Cons.IH [of "earlier @ [c]"] by auto
qed

lemma validate_shape_eq_Inr [simp]:
  "validate_artifact_reference_shape r k i = Inr u \<longleftrightarrow> ar_kind r = k \<and> ar_length r \<noteq> 0"
  by (auto simp: validate_artifact_reference_shape_def)

lemma validate_v1_grammar_eq_Inr:
  "validate_v1_grammar m = Inr u \<longleftrightarrow>
     mf_exact_proof_bytes m \<noteq> 0
     \<and> list_all control_shape (mf_terminal_controls m)
     \<and> sorted_wrt (<) (map control_key (mf_terminal_controls m))
     \<and> distinct (map tc_control_id (mf_terminal_controls m))
     \<and> ar_kind (mf_algorithm_artifact m) = ALGORITHM_ARTIFACT_KIND
     \<and> ar_length (mf_algorithm_artifact m) \<noteq> 0
     \<and> ar_kind (mf_binary_data_artifact m) = BINARY_DATA_ARTIFACT_KIND
     \<and> ar_length (mf_binary_data_artifact m) \<noteq> 0"
  by (auto simp: validate_v1_grammar_def validate_controls_iff)

section \<open>The encoding in closed form\<close>

definition encode_reference :: "ProfileArtifactReference \<Rightarrow> bytes" where
  "encode_reference r = u16_to_le (ar_kind r) @ u32_to_le (ar_length r) @ ar_digest r"

definition encode_controls :: "TerminalControl list \<Rightarrow> bytes" where
  "encode_controls cs = concat (map (\<lambda>c. tc_kind c # tc_parameter c # tc_control_id c) cs)"

definition manifest_grammar :: "StarkProfileManifest \<Rightarrow> bytes" where
  "manifest_grammar m =
     MANIFEST_FORMAT_VERSION # u32_to_le (mf_exact_proof_bytes m)
     @ u32_to_le (mf_max_application_payload_bytes m) @ mf_outer_po2 m # mf_inner_control_root m
     @ encode_controls (mf_terminal_controls m) @ encode_reference (mf_algorithm_artifact m)
     @ encode_reference (mf_binary_data_artifact m)"

lemma foldl_append_control: "foldl append_control bs cs = bs @ encode_controls cs"
  by (induction cs arbitrary: bs) (simp_all add: append_control_def encode_controls_def)

lemma encode_fields_closed_form:
  "encode_fields m =
    (if length (manifest_grammar m) = MANIFEST_BYTES then Inr (manifest_grammar m)
     else Inl InternalLayout)"
  by (simp add: encode_fields_def Let_def foldl_append_control append_artifact_reference_def
      manifest_grammar_def encode_reference_def)

text \<open>The widths the array types of the source fix.\<close>

definition manifest_widths :: "StarkProfileManifest \<Rightarrow> bool" where
  "manifest_widths m \<longleftrightarrow>
     length (mf_inner_control_root m) = 32
     \<and> length (mf_terminal_controls m) = 10
     \<and> list_all (\<lambda>c. length (tc_control_id c) = 32) (mf_terminal_controls m)
     \<and> length (ar_digest (mf_algorithm_artifact m)) = 32
     \<and> length (ar_digest (mf_binary_data_artifact m)) = 32"

lemma length_encode_controls:
  "list_all (\<lambda>c. length (tc_control_id c) = 32) cs \<Longrightarrow> length (encode_controls cs) = 34 * length cs"
  by (induction cs) (simp_all add: encode_controls_def)

lemma length_manifest_grammar: "manifest_widths m \<Longrightarrow> length (manifest_grammar m) = 458"
  by (simp add: manifest_grammar_def manifest_widths_def length_encode_controls encode_reference_def)

section \<open>Reading back\<close>

definition cursor_at :: "bytes \<Rightarrow> bytes \<Rightarrow> ManifestCursor" where
  "cursor_at consumed rest = \<lparr>cur_bytes = consumed @ rest, cur_position = length consumed\<rparr>"

lemma cursor_new_at: "cursor_new bs = cursor_at [] bs"
  by (simp add: cursor_new_def cursor_at_def)

lemma take_array_at:
  assumes "length field = n" and "length consumed + n < usize_limit"
  shows "take_array n (cursor_at consumed (field @ rest)) =
    Inr (field, cursor_at (consumed @ field) rest)"
  using assms
  by (simp add: take_array_def cursor_at_def checked_add_usize_def get_range_def slice_def Let_def
      del: and_then_eq_Inr)

lemma take_ints_at:
  assumes "length consumed < 1000"
  shows "take_u8 (cursor_at consumed (b # rest)) = Inr (b, cursor_at (consumed @ [b]) rest)"
    and "take_u16_le (cursor_at consumed (u16_to_le h @ rest)) =
      Inr (h, cursor_at (consumed @ u16_to_le h) rest)"
    and "take_u32_le (cursor_at consumed (u32_to_le w @ rest)) =
      Inr (w, cursor_at (consumed @ u32_to_le w) rest)"
  using assms take_array_at [of "[b]" 1 consumed rest] take_array_at [of "u16_to_le h" 2 consumed rest]
    take_array_at [of "u32_to_le w" 4 consumed rest]
  by (simp_all add: take_u8_def take_u16_le_def take_u32_le_def usize_limit_def)

lemma take_array_small:
  "length field = n \<Longrightarrow> length consumed + n < 1000 \<Longrightarrow>
    take_array n (cursor_at consumed (field @ rest)) = Inr (field, cursor_at (consumed @ field) rest)"
  by (rule take_array_at) (simp_all add: usize_limit_def)

lemma take_controls_at:
  assumes "list_all (\<lambda>c. length (tc_control_id c) = 32) cs"
    and "length consumed + 34 * length cs < 1000" and "length cs = n"
  shows "take_controls n (cursor_at consumed (encode_controls cs @ rest)) =
    Inr (cs, cursor_at (consumed @ encode_controls cs) rest)"
  using assms
proof (induction cs arbitrary: consumed n)
  case Nil
  then show ?case by (simp add: encode_controls_def)
next
  case (Cons c cs)
  obtain m where n: "n = Suc m" "length cs = m" using Cons.prems(3) by auto
  have split: "encode_controls (c # cs) = tc_kind c # tc_parameter c # tc_control_id c @ encode_controls cs"
    by (simp add: encode_controls_def)
  let ?before = "consumed @ [tc_kind c, tc_parameter c] @ tc_control_id c"
  have rest: "take_controls m (cursor_at ?before (encode_controls cs @ rest)) =
      Inr (cs, cursor_at (?before @ encode_controls cs) rest)"
    using Cons.prems n by (intro Cons.IH) simp_all
  show ?case
    using Cons.prems rest unfolding n split
    by (simp add: take_ints_at take_array_small DIGEST_BYTES_def del: and_then_eq_Inr)
qed

lemma take_artifact_reference_at:
  "length (ar_digest r) = 32 \<Longrightarrow> length consumed < 900 \<Longrightarrow>
    take_artifact_reference (cursor_at consumed (encode_reference r @ rest)) =
      Inr (r, cursor_at (consumed @ encode_reference r) rest)"
  by (simp add: take_artifact_reference_def encode_reference_def take_ints_at take_array_small
      DIGEST_BYTES_def del: and_then_eq_Inr)

lemma take_array_width: "take_array n c = Inr (field, c') \<Longrightarrow> length field = n"
  by (auto simp: take_array_def Let_def)

lemma take_reference_width:
  "take_artifact_reference c = Inr (r, c') \<Longrightarrow> length (ar_digest r) = DIGEST_BYTES"
  by (auto simp: take_artifact_reference_def dest: take_array_width)

lemma take_controls_width:
  "take_controls n c = Inr (cs, c') \<Longrightarrow>
    length cs = n \<and> list_all (\<lambda>c. length (tc_control_id c) = DIGEST_BYTES) cs"
  by (induction n arbitrary: c cs) (auto dest: take_array_width)

definition valid_manifest :: "StarkProfileManifest \<Rightarrow> bool" where
  "valid_manifest m \<longleftrightarrow>
     manifest_widths m \<and> validate_v1_grammar m = Inr () \<and> mf_raw_bytes m = manifest_grammar m"

lemma grammar_raw_irrelevant:
  "validate_v1_grammar (m\<lparr>mf_raw_bytes := r\<rparr>) = validate_v1_grammar m"
  "manifest_grammar (m\<lparr>mf_raw_bytes := r\<rparr>) = manifest_grammar m"
  "manifest_widths (m\<lparr>mf_raw_bytes := r\<rparr>) = manifest_widths m"
  by (simp_all add: validate_v1_grammar_def manifest_grammar_def manifest_widths_def)

lemma manifest_new_eq_Inr:
  "manifest_new pb pl po root cs a b = Inr m \<longleftrightarrow>
     mf_exact_proof_bytes m = pb \<and> mf_max_application_payload_bytes m = pl
     \<and> mf_outer_po2 m = po \<and> mf_inner_control_root m = root \<and> mf_terminal_controls m = cs
     \<and> mf_algorithm_artifact m = a \<and> mf_binary_data_artifact m = b
     \<and> validate_v1_grammar m = Inr () \<and> length (manifest_grammar m) = MANIFEST_BYTES
     \<and> mf_raw_bytes m = manifest_grammar m"
  unfolding manifest_new_def Let_def encode_fields_closed_form
  by (cases m) (auto simp: validate_v1_grammar_def manifest_grammar_def)

lemma manifest_encode_eq_Inr:
  "manifest_encode m = Inr bs \<longleftrightarrow>
     validate_v1_grammar m = Inr () \<and> length (manifest_grammar m) = MANIFEST_BYTES
     \<and> manifest_grammar m = mf_raw_bytes m \<and> bs = mf_raw_bytes m"
  by (auto simp: manifest_encode_def encode_fields_closed_form)

lemma manifest_decode_sound:
  assumes "manifest_decode bs = Inr m"
  shows "valid_manifest m \<and> manifest_encode m = Inr bs"
proof -
  obtain pb pl po root cs a b c1 c2 c3 c4 c5 c6 where len: "length bs = MANIFEST_BYTES"
    and root: "take_array DIGEST_BYTES c1 = Inr (root, c2)"
    and cs: "take_controls TERMINAL_CONTROL_COUNT c2 = Inr (cs, c3)"
    and a: "take_artifact_reference c3 = Inr (a, c4)"
    and b: "take_artifact_reference c5 = Inr (b, c6)"
    and new: "manifest_new pb pl po root cs a b = Inr m" and raw: "mf_raw_bytes m = bs"
    using assms by (auto simp: manifest_decode_def split: if_splits)
  have "manifest_widths m"
    using new take_array_width [OF root] take_controls_width [OF cs] take_reference_width [OF a]
      take_reference_width [OF b]
    by (auto simp: manifest_new_eq_Inr manifest_widths_def constant_sizes TERMINAL_CONTROL_COUNT_def)
  then show ?thesis
    using new raw len
    by (auto simp: valid_manifest_def manifest_encode_eq_Inr manifest_new_eq_Inr)
qed

lemma manifest_decode_grammar:
  assumes "valid_manifest m"
  shows "manifest_decode (manifest_grammar m) = Inr m"
proof -
  have w: "manifest_widths m" and g: "validate_v1_grammar m = Inr ()"
    and raw: "mf_raw_bytes m = manifest_grammar m"
    using assms by (simp_all add: valid_manifest_def)
  note len = length_manifest_grammar [OF w]
  have lens: "length (mf_inner_control_root m) = 32" "length (mf_terminal_controls m) = 10"
    "list_all (\<lambda>c. length (tc_control_id c) = 32) (mf_terminal_controls m)"
    "length (ar_digest (mf_algorithm_artifact m)) = 32"
    "length (ar_digest (mf_binary_data_artifact m)) = 32"
    using w by (simp_all add: manifest_widths_def)
  have refs: "length (encode_reference (mf_algorithm_artifact m)) = 38"
    "length (encode_reference (mf_binary_data_artifact m)) = 38"
    "length (encode_controls (mf_terminal_controls m)) = 340"
    using lens by (simp_all add: encode_reference_def length_encode_controls)
  have new: "manifest_new (mf_exact_proof_bytes m) (mf_max_application_payload_bytes m)
      (mf_outer_po2 m) (mf_inner_control_root m) (mf_terminal_controls m) (mf_algorithm_artifact m)
      (mf_binary_data_artifact m) = Inr m"
    using g raw len by (simp add: manifest_new_eq_Inr constant_sizes)
  have last: "take_artifact_reference (cursor_at consumed (encode_reference (mf_binary_data_artifact m)))
      = Inr (mf_binary_data_artifact m, cursor_at (consumed @ encode_reference (mf_binary_data_artifact m)) [])"
    if "length consumed < 900" for consumed
    using take_artifact_reference_at [OF lens(5) that, of "[]"] by simp
  have pos: "cur_position (cursor_at consumed rest) = length consumed" for consumed rest
    by (simp add: cursor_at_def)
  show ?thesis
    unfolding manifest_decode_def len cursor_new_at
    by (subst (1) manifest_grammar_def)
      (simp add: take_ints_at take_array_small take_controls_at take_artifact_reference_at last lens
        refs pos new raw constant_sizes TERMINAL_CONTROL_COUNT_def del: and_then_eq_Inr)
qed

interpretation manifest: fixed_codec manifest_encode manifest_decode valid_manifest MANIFEST_BYTES
proof unfold_locales
  fix m bs
  show "valid_manifest m \<Longrightarrow> \<exists>bs. manifest_encode m = Inr bs \<and> manifest_decode bs = Inr m"
    using manifest_decode_grammar [of m] length_manifest_grammar [of m]
    by (auto simp: manifest_encode_eq_Inr valid_manifest_def MANIFEST_BYTES_def)
  show "manifest_decode bs = Inr m \<Longrightarrow> valid_manifest m \<and> manifest_encode m = Inr bs"
    by (rule manifest_decode_sound)
  show "valid_manifest m \<Longrightarrow> manifest_encode m = Inr bs \<Longrightarrow> length bs = MANIFEST_BYTES"
    by (auto simp: manifest_encode_eq_Inr)
qed

section \<open>The initial target in closed form\<close>

definition initial_terminal_controls :: "TerminalControl list" where
  "initial_terminal_controls =
     map2 (\<lambda>p h. \<lparr>tc_kind = TERMINAL_CONTROL_KIND_LIFT, tc_parameter = p, tc_control_id = hex_pairs h\<rparr>)
       SUPPORTED_SEGMENT_PO2 RISC0_NORMAL_LIFT_CONTROL_IDS_HEX
     @ [\<lparr>tc_kind = TERMINAL_CONTROL_KIND_JOIN, tc_parameter = 0,
           tc_control_id = hex_pairs RISC0_JOIN_CONTROL_ID_HEX\<rparr>,
         \<lparr>tc_kind = TERMINAL_CONTROL_KIND_RESOLVE, tc_parameter = 0,
           tc_control_id = hex_pairs RISC0_RESOLVE_CONTROL_ID_HEX\<rparr>]"

definition initial_inner_root :: bytes where
  "initial_inner_root = hex_pairs RISC0_INNER_CONTROL_ROOT_HEX"

lemma frozen_digests:
  assumes "hex_decodes d"
  shows "decode_frozen_digest d RISC0_INNER_CONTROL_ROOT_HEX = Inr initial_inner_root"
    and "decode_frozen_digest d RISC0_JOIN_CONTROL_ID_HEX = Inr (hex_pairs RISC0_JOIN_CONTROL_ID_HEX)"
    and "decode_frozen_digest d RISC0_RESOLVE_CONTROL_ID_HEX =
      Inr (hex_pairs RISC0_RESOLVE_CONTROL_ID_HEX)"
    and "i < 8 \<Longrightarrow> decode_frozen_digest d (RISC0_NORMAL_LIFT_CONTROL_IDS_HEX ! i) =
      Inr (hex_pairs (RISC0_NORMAL_LIFT_CONTROL_IDS_HEX ! i))"
proof -
  have ok: "is_lower_hex h 64 \<Longrightarrow> decode_frozen_digest d h = Inr (hex_pairs h)" for h
    using assms by (simp add: decode_frozen_digest_def hex_decodes_def is_lower_hex_def DIGEST_BYTES_def)
  have "length RISC0_NORMAL_LIFT_CONTROL_IDS_HEX = 8" by code_simp
  then have "i < 8 \<Longrightarrow> is_lower_hex (RISC0_NORMAL_LIFT_CONTROL_IDS_HEX ! i) 64"
    using control_ids_lower_hex(4) by (simp add: list_all_length)
  then show "i < 8 \<Longrightarrow> decode_frozen_digest d (RISC0_NORMAL_LIFT_CONTROL_IDS_HEX ! i) =
      Inr (hex_pairs (RISC0_NORMAL_LIFT_CONTROL_IDS_HEX ! i))" by (rule ok)
qed (use assms control_ids_lower_hex in \<open>simp_all add: decode_frozen_digest_def hex_decodes_def
    is_lower_hex_def DIGEST_BYTES_def initial_inner_root_def\<close>)

lemma validate_lift_targets_iff:
  assumes "hex_decodes d" and "i + length ps \<le> 8"
  shows "validate_lift_targets d cs i ps = Inr u \<longleftrightarrow>
    (\<forall>j < length ps. cs ! (i + j) = \<lparr>tc_kind = TERMINAL_CONTROL_KIND_LIFT, tc_parameter = ps ! j,
       tc_control_id = hex_pairs (RISC0_NORMAL_LIFT_CONTROL_IDS_HEX ! (i + j))\<rparr>)"
  using assms(2)
proof (induction ps arbitrary: i)
  case Nil
  then show ?case by simp
next
  case (Cons p ps)
  have here: "decode_frozen_digest d (RISC0_NORMAL_LIFT_CONTROL_IDS_HEX ! i) =
      Inr (hex_pairs (RISC0_NORMAL_LIFT_CONTROL_IDS_HEX ! i))"
    using Cons.prems by (intro frozen_digests [OF assms(1)]) simp
  have "validate_lift_targets d cs i (p # ps) = Inr u \<longleftrightarrow>
      cs ! i = \<lparr>tc_kind = TERMINAL_CONTROL_KIND_LIFT, tc_parameter = p,
        tc_control_id = hex_pairs (RISC0_NORMAL_LIFT_CONTROL_IDS_HEX ! i)\<rparr>
      \<and> validate_lift_targets d cs (Suc i) ps = Inr u"
    by (cases "cs ! i") (auto simp: Let_def here)
  then show ?case using Cons.IH [of "Suc i"] Cons.prems by (auto simp: less_Suc_eq_0_disj)
qed

lemma validate_single_target_eq_Inr:
  "decode_frozen_digest d h = Inr x \<Longrightarrow>
    validate_single_target d c k h i = Inr u \<longleftrightarrow>
      c = \<lparr>tc_kind = k, tc_parameter = 0, tc_control_id = x\<rparr>"
  by (cases c) (auto simp: validate_single_target_def)

lemma initial_control_nth:
  "length initial_terminal_controls = 10"
  "i < 8 \<Longrightarrow> initial_terminal_controls ! i =
     \<lparr>tc_kind = TERMINAL_CONTROL_KIND_LIFT, tc_parameter = SUPPORTED_SEGMENT_PO2 ! i,
      tc_control_id = hex_pairs (RISC0_NORMAL_LIFT_CONTROL_IDS_HEX ! i)\<rparr>"
  "initial_terminal_controls ! 8 = \<lparr>tc_kind = TERMINAL_CONTROL_KIND_JOIN, tc_parameter = 0,
     tc_control_id = hex_pairs RISC0_JOIN_CONTROL_ID_HEX\<rparr>"
  "initial_terminal_controls ! 9 = \<lparr>tc_kind = TERMINAL_CONTROL_KIND_RESOLVE, tc_parameter = 0,
     tc_control_id = hex_pairs RISC0_RESOLVE_CONTROL_ID_HEX\<rparr>"
proof -
  have "length RISC0_NORMAL_LIFT_CONTROL_IDS_HEX = 8" "length SUPPORTED_SEGMENT_PO2 = 8"
    by code_simp+
  then show "length initial_terminal_controls = 10"
    "i < 8 \<Longrightarrow> initial_terminal_controls ! i =
     \<lparr>tc_kind = TERMINAL_CONTROL_KIND_LIFT, tc_parameter = SUPPORTED_SEGMENT_PO2 ! i,
      tc_control_id = hex_pairs (RISC0_NORMAL_LIFT_CONTROL_IDS_HEX ! i)\<rparr>"
    "initial_terminal_controls ! 8 = \<lparr>tc_kind = TERMINAL_CONTROL_KIND_JOIN, tc_parameter = 0,
     tc_control_id = hex_pairs RISC0_JOIN_CONTROL_ID_HEX\<rparr>"
    "initial_terminal_controls ! 9 = \<lparr>tc_kind = TERMINAL_CONTROL_KIND_RESOLVE, tc_parameter = 0,
     tc_control_id = hex_pairs RISC0_RESOLVE_CONTROL_ID_HEX\<rparr>"
    by (simp_all add: initial_terminal_controls_def nth_append)
qed

lemma controls_eq_initial_iff:
  assumes "length cs = 10"
  shows "cs = initial_terminal_controls \<longleftrightarrow>
    (\<forall>j < 8. cs ! j = initial_terminal_controls ! j)
    \<and> cs ! 8 = initial_terminal_controls ! 8 \<and> cs ! 9 = initial_terminal_controls ! 9"
proof -
  have ten: "(\<forall>j < 10. P j) \<longleftrightarrow> (\<forall>j < 8. P j) \<and> P 8 \<and> P 9" for P :: "nat \<Rightarrow> bool"
    by (simp add: numeral_eq_Suc All_less_Suc) blast
  show ?thesis
    using assms initial_control_nth(1) by (simp add: list_eq_iff_nth_eq ten)
qed

lemma validate_initial_target_iff:
  assumes "hex_decodes d" and "length (mf_terminal_controls m) = 10"
  shows "validate_initial_profile_target d m = Inr () \<longleftrightarrow>
    mf_exact_proof_bytes m = 222668 \<and> mf_max_application_payload_bytes m = 16384
    \<and> mf_outer_po2 m = 18 \<and> mf_inner_control_root m = initial_inner_root
    \<and> mf_terminal_controls m = initial_terminal_controls"
proof -
  have po2: "length SUPPORTED_SEGMENT_PO2 = 8" by code_simp
  have lifts: "validate_lift_targets d (mf_terminal_controls m) 0 SUPPORTED_SEGMENT_PO2 = Inr u \<longleftrightarrow>
      (\<forall>j < 8. mf_terminal_controls m ! j = initial_terminal_controls ! j)" for u
    using validate_lift_targets_iff [OF assms(1), of 0 SUPPORTED_SEGMENT_PO2]
    by (auto simp: po2 initial_control_nth)
  have sizes: "u32_try_from PROOF_BYTES = Some 222668"
    "u32_try_from MAX_APPLICATION_PAYLOAD_BYTES = Some 16384"
    by (simp_all add: constant_sizes)
  show ?thesis
    unfolding validate_initial_profile_target_def controls_eq_initial_iff [OF assms(2)]
    by (auto simp: sizes Let_def frozen_digests [OF assms(1)] lifts po2 initial_control_nth(3,4)
        validate_single_target_eq_Inr RISC0_OUTER_PO2_def)
qed

lemma initial_controls_grammar:
  "list_all control_shape initial_terminal_controls"
  "sorted_wrt (<) (map control_key initial_terminal_controls)"
  "distinct (map tc_control_id initial_terminal_controls)"
  "list_all (\<lambda>c. length (tc_control_id c) = 32) initial_terminal_controls"
  "length initial_inner_root = 32"
  by code_simp+

section \<open>Binding by hashes\<close>

lemma validate_artifact_reference_eq_Inr:
  "validate_artifact_reference H r bs = Inr u \<longleftrightarrow>
     unat (ar_length r) = length bs \<and> ar_digest r = H (artifact_preimage (ar_kind r) (ar_length r) bs)"
  by (auto simp: validate_artifact_reference_def profile_artifact_digest_def split: if_splits)
    (metis word_unat_eq_iff)

lemma artifact_preimage_inject:
  "artifact_preimage k n bs = artifact_preimage k' n' cs \<longleftrightarrow> k = k' \<and> n = n' \<and> bs = cs"
  by (auto simp: artifact_preimage_def append_eq_same_length)

lemma manifest_profile_id_eq_Inr:
  assumes "manifest_decode bs = Inr m"
  shows "manifest_profile_id H m = Inr x \<longleftrightarrow>
    x = H (PROFILE_ID_DOMAIN @ [0] @ u32_to_le 458 @ bs)"
proof -
  have encode: "manifest_encode m = Inr bs" using manifest_decode_sound [OF assms] by simp
  have raw: "mf_raw_bytes m = bs" using encode by (auto simp: manifest_encode_eq_Inr)
  have len: "length bs = 458" using manifest.decode_width [OF assms] by (simp add: MANIFEST_BYTES_def)
  show ?thesis
    unfolding manifest_profile_id_def encode raw hash_profile_id_def profile_id_preimage_closed_form
    by (auto simp: len)
qed

lemma validate_profile_package_eq_Inr:
  "validate_profile_package H bs artifacts pid = Inr p \<longleftrightarrow>
     (\<exists>m. manifest_decode bs = Inr m \<and> pid = H (PROFILE_ID_DOMAIN @ [0] @ u32_to_le 458 @ bs)
        \<and> validate_artifact_reference H (mf_algorithm_artifact m) (pa_algorithm artifacts) = Inr ()
        \<and> validate_artifact_reference H (mf_binary_data_artifact m) (pa_binary_data artifacts) = Inr ()
        \<and> p = \<lparr>vp_manifest = m, vp_artifacts = artifacts\<rparr>)"
  by (auto simp: validate_profile_package_def validate_artifact_package_def manifest_profile_id_eq_Inr
      split: if_splits)

lemma filter_key_le_one:
  assumes "distinct (map f xs)" and "\<And>x. x \<in> set xs \<Longrightarrow> P x \<Longrightarrow> f x = k"
  shows "length (filter P xs) \<le> 1"
proof -
  have "distinct (map f (filter P xs))" using assms(1) by (rule distinct_map_filter)
  moreover have "set (map f (filter P xs)) \<subseteq> {k}" using assms(2) by auto
  ultimately have "length (map f (filter P xs)) \<le> card {k}"
    by (metis card_mono distinct_card finite.emptyI finite.insertI)
  then show ?thesis by simp
qed

lemma three_kinds_length:
  "list_all control_shape cs \<Longrightarrow>
    length cs = length (filter (\<lambda>c. tc_kind c = TERMINAL_CONTROL_KIND_LIFT) cs)
      + length (filter (\<lambda>c. tc_kind c = TERMINAL_CONTROL_KIND_JOIN) cs)
      + length (filter (\<lambda>c. tc_kind c = TERMINAL_CONTROL_KIND_RESOLVE) cs)"
  by (induction cs)
    (auto simp: control_shape_def TERMINAL_CONTROL_KIND_LIFT_def TERMINAL_CONTROL_KIND_JOIN_def
      TERMINAL_CONTROL_KIND_RESOLVE_def)

section \<open>Properties\<close>

text \<open>C27. Decoding accepts a byte string exactly when it is the 458-byte encoding of a manifest that
  satisfies the grammar, and returns that manifest with its raw bytes.\<close>

theorem manifest_decode_exact:
  "manifest_decode bs = Inr m \<longleftrightarrow> valid_manifest m \<and> manifest_encode m = Inr bs"
  by (rule manifest.decode_eq_iff)

text \<open>The control table of a decoded manifest has ten entries with strictly increasing kind and
  parameter, pairwise distinct identifiers, at most one join and one resolve and so at least eight
  lifts, and the manifest spells out 458 bytes.\<close>

theorem decoded_control_table:
  assumes "manifest_decode bs = Inr m"
  shows "length (mf_terminal_controls m) = 10 \<and> length bs = 458
    \<and> sorted_wrt (<) (map control_key (mf_terminal_controls m))
    \<and> distinct (map tc_control_id (mf_terminal_controls m))
    \<and> length (filter (\<lambda>c. tc_kind c = TERMINAL_CONTROL_KIND_JOIN) (mf_terminal_controls m)) \<le> 1
    \<and> length (filter (\<lambda>c. tc_kind c = TERMINAL_CONTROL_KIND_RESOLVE) (mf_terminal_controls m)) \<le> 1
    \<and> 8 \<le> length (filter (\<lambda>c. tc_kind c = TERMINAL_CONTROL_KIND_LIFT) (mf_terminal_controls m))"
proof -
  let ?cs = "mf_terminal_controls m"
  have m: "valid_manifest m" "length bs = 458"
    using manifest.decode_sound [OF assms] manifest.decode_width [OF assms]
    by (simp_all add: MANIFEST_BYTES_def)
  then have ten: "length ?cs = 10" and shape: "list_all control_shape ?cs"
    and keys: "sorted_wrt (<) (map control_key ?cs)" and ids: "distinct (map tc_control_id ?cs)"
    by (simp_all add: valid_manifest_def manifest_widths_def validate_v1_grammar_eq_Inr)
  have distinct: "distinct (map control_key ?cs)"
    using keys by (simp add: strict_sorted_iff)
  have joins: "length (filter (\<lambda>c. tc_kind c = TERMINAL_CONTROL_KIND_JOIN) ?cs) \<le> 1"
    by (rule filter_key_le_one [OF distinct, where k = "(TERMINAL_CONTROL_KIND_JOIN, 0)"])
      (use shape in \<open>auto simp: list_all_iff control_shape_def control_key_def
        TERMINAL_CONTROL_KIND_LIFT_def TERMINAL_CONTROL_KIND_JOIN_def\<close>)
  have resolves: "length (filter (\<lambda>c. tc_kind c = TERMINAL_CONTROL_KIND_RESOLVE) ?cs) \<le> 1"
    by (rule filter_key_le_one [OF distinct, where k = "(TERMINAL_CONTROL_KIND_RESOLVE, 0)"])
      (use shape in \<open>auto simp: list_all_iff control_shape_def control_key_def
        TERMINAL_CONTROL_KIND_LIFT_def TERMINAL_CONTROL_KIND_RESOLVE_def\<close>)
  show ?thesis
    using three_kinds_length [OF shape] ten m(2) keys ids joins resolves by simp
qed

definition sample_reference :: "u16 \<Rightarrow> ProfileArtifactReference" where
  "sample_reference k = \<lparr>ar_kind = k, ar_length = 1, ar_digest = replicate 32 0\<rparr>"

definition sample_manifest :: StarkProfileManifest where
  "sample_manifest =
     (let m = \<lparr>mf_raw_bytes = [], mf_exact_proof_bytes = 222668,
         mf_max_application_payload_bytes = 16384, mf_outer_po2 = 18,
         mf_inner_control_root = initial_inner_root, mf_terminal_controls = initial_terminal_controls,
         mf_algorithm_artifact = sample_reference 1, mf_binary_data_artifact = sample_reference 2\<rparr> in
      m\<lparr>mf_raw_bytes := manifest_grammar m\<rparr>)"

lemma valid_manifest_raw:
  "valid_manifest (m\<lparr>mf_raw_bytes := manifest_grammar m\<rparr>) \<longleftrightarrow>
     manifest_widths m \<and> validate_v1_grammar m = Inr ()"
  by (simp add: valid_manifest_def grammar_raw_irrelevant)

lemma sample_manifest_valid: "valid_manifest sample_manifest"
  unfolding sample_manifest_def Let_def valid_manifest_raw
  by (simp add: manifest_widths_def validate_v1_grammar_eq_Inr sample_reference_def
      initial_controls_grammar initial_control_nth(1) ALGORITHM_ARTIFACT_KIND_def
      BINARY_DATA_ARTIFACT_KIND_def)

lemma sample_manifest_decodes: "manifest_decode (mf_raw_bytes sample_manifest) = Inr sample_manifest"
  using manifest_decode_grammar [OF sample_manifest_valid] sample_manifest_valid
  by (simp add: valid_manifest_def)

theorem decoded_control_table_witness:
  "8 \<le> length (filter (\<lambda>c. tc_kind c = TERMINAL_CONTROL_KIND_LIFT)
      (mf_terminal_controls sample_manifest))"
  using decoded_control_table [OF sample_manifest_decodes] by blast

text \<open>A decoded manifest meets the initial target exactly when the constructor, applied to the frozen
  scalars, root and ten controls and to the manifest's own two artifact references, returns it: the
  target leaves only the artifact references open.\<close>

theorem initial_target_exact:
  assumes "hex_decodes d" and "manifest_decode bs = Inr m"
  shows "validate_initial_profile_target d m = Inr () \<longleftrightarrow>
    manifest_new 222668 16384 18 initial_inner_root initial_terminal_controls
      (mf_algorithm_artifact m) (mf_binary_data_artifact m) = Inr m"
proof -
  have m: "valid_manifest m" using manifest.decode_sound [OF assms(2)] by simp
  then have ten: "length (mf_terminal_controls m) = 10"
    by (simp add: valid_manifest_def manifest_widths_def)
  show ?thesis
    using m length_manifest_grammar [of m]
    by (auto simp: validate_initial_target_iff [OF assms(1) ten] manifest_new_eq_Inr valid_manifest_def
        MANIFEST_BYTES_def)
qed

theorem initial_target_exact_witness:
  "validate_initial_profile_target sample_hex_decode sample_manifest = Inr ()"
proof -
  have "manifest_new 222668 16384 18 initial_inner_root initial_terminal_controls
      (mf_algorithm_artifact sample_manifest) (mf_binary_data_artifact sample_manifest)
    = Inr sample_manifest"
    using sample_manifest_valid length_manifest_grammar [of sample_manifest]
    by (simp add: manifest_new_eq_Inr valid_manifest_def MANIFEST_BYTES_def)
      (simp add: sample_manifest_def Let_def)
  then show ?thesis
    using initial_target_exact [OF sample_hex_decodes sample_manifest_decodes] by simp
qed

text \<open>The byte string under the profile identifier, and the one under an artifact digest.\<close>

abbreviation profile_hashed :: "bytes \<Rightarrow> bytes" where
  "profile_hashed bs \<equiv> PROFILE_ID_DOMAIN @ [0] @ u32_to_le 458 @ bs"

abbreviation artifact_hashed :: "u16 \<Rightarrow> bytes \<Rightarrow> bytes" where
  "artifact_hashed k bs \<equiv> artifact_preimage k (word_of_nat (length bs)) bs"

lemma artifact_reference_binds:
  assumes "validate_artifact_reference H r bs = Inr ()" and "validate_artifact_reference H r cs = Inr ()"
  shows "H (artifact_hashed (ar_kind r) bs) = H (artifact_hashed (ar_kind r) cs)"
proof -
  have "word_of_nat (length ds) = ar_length r" if "validate_artifact_reference H r ds = Inr ()" for ds
    using that unfolding validate_artifact_reference_eq_Inr by (metis of_nat_unat ucast_id)
  then show ?thesis using assms unfolding validate_artifact_reference_eq_Inr by simp
qed

lemma artifact_hashed_inject: "artifact_hashed k bs = artifact_hashed k cs \<longleftrightarrow> bs = cs"
  by (auto simp: artifact_preimage_inject)

text \<open>C28. A profile identifier binds the whole package: two packages accepted under one identifier
  carry the same manifest and the same artifacts, or BLAKE2b-256 collides on the two profile preimages,
  on the two preimages of the algorithm artifacts or on those of the binary-data artifacts, which are
  then different byte strings with one digest. An accepted package holds the decoded manifest and the
  artifacts it was given, and the identifier is that of its manifest.\<close>

theorem package_identity_binds:
  assumes "validate_profile_package H bs arts pid = Inr p"
    and "validate_profile_package H bs' arts' pid = Inr p'"
  shows "vp_artifacts p = arts \<and> manifest_decode bs = Inr (vp_manifest p)
    \<and> manifest_profile_id H (vp_manifest p) = Inr pid
    \<and> (bs = bs' \<and> arts = arts' \<and> p = p'
      \<or> (\<exists>(x, y) \<in> {(profile_hashed bs, profile_hashed bs'),
            (artifact_hashed ALGORITHM_ARTIFACT_KIND (pa_algorithm arts),
             artifact_hashed ALGORITHM_ARTIFACT_KIND (pa_algorithm arts')),
            (artifact_hashed BINARY_DATA_ARTIFACT_KIND (pa_binary_data arts),
             artifact_hashed BINARY_DATA_ARTIFACT_KIND (pa_binary_data arts'))}.
          x \<noteq> y \<and> H x = H y))"
proof -
  obtain m where m: "manifest_decode bs = Inr m" "p = \<lparr>vp_manifest = m, vp_artifacts = arts\<rparr>"
    "pid = H (profile_hashed bs)"
    "validate_artifact_reference H (mf_algorithm_artifact m) (pa_algorithm arts) = Inr ()"
    "validate_artifact_reference H (mf_binary_data_artifact m) (pa_binary_data arts) = Inr ()"
    using assms(1) by (auto simp: validate_profile_package_eq_Inr)
  obtain m' where m': "manifest_decode bs' = Inr m'" "p' = \<lparr>vp_manifest = m', vp_artifacts = arts'\<rparr>"
    "pid = H (profile_hashed bs')"
    "validate_artifact_reference H (mf_algorithm_artifact m') (pa_algorithm arts') = Inr ()"
    "validate_artifact_reference H (mf_binary_data_artifact m') (pa_binary_data arts') = Inr ()"
    using assms(2) by (auto simp: validate_profile_package_eq_Inr)
  have kinds: "ar_kind (mf_algorithm_artifact m) = ALGORITHM_ARTIFACT_KIND"
    "ar_kind (mf_binary_data_artifact m) = BINARY_DATA_ARTIFACT_KIND"
    using manifest_decode_sound [OF m(1)] by (simp_all add: valid_manifest_def validate_v1_grammar_eq_Inr)
  have own: "vp_artifacts p = arts" "manifest_decode bs = Inr (vp_manifest p)"
    "manifest_profile_id H (vp_manifest p) = Inr pid"
    using m by (simp_all add: manifest_profile_id_eq_Inr [OF m(1)])
  show ?thesis
  proof (cases "bs = bs'")
    case False
    then show ?thesis using own m(3) m'(3) by simp
  next
    case True
    then have "m' = m" using m(1) m'(1) by simp
    then have same: "H (artifact_hashed ALGORITHM_ARTIFACT_KIND (pa_algorithm arts))
          = H (artifact_hashed ALGORITHM_ARTIFACT_KIND (pa_algorithm arts'))"
        "H (artifact_hashed BINARY_DATA_ARTIFACT_KIND (pa_binary_data arts))
          = H (artifact_hashed BINARY_DATA_ARTIFACT_KIND (pa_binary_data arts'))"
      using artifact_reference_binds [OF m(4)] artifact_reference_binds [OF m(5)] m'(4,5) kinds
      by (metis, metis)
    have "arts = arts'"
      if "pa_algorithm arts = pa_algorithm arts'" "pa_binary_data arts = pa_binary_data arts'"
      using that by (cases arts; cases arts') simp
    then show ?thesis
      using own same True \<open>m' = m\<close> m(2) m'(2) by (auto simp: artifact_hashed_inject)
  qed
qed

text \<open>Under a hash that maps everything to one digest, two packages with different algorithm artifacts
  are accepted under one identifier, and the collision is on the preimages of these two artifacts.\<close>

theorem package_identity_binds_witness:
  "\<exists>p p'. validate_profile_package (\<lambda>_. replicate 32 0) (mf_raw_bytes sample_manifest)
        \<lparr>pa_algorithm = [0], pa_binary_data = [1]\<rparr> (replicate 32 0) = Inr p
    \<and> validate_profile_package (\<lambda>_. replicate 32 0) (mf_raw_bytes sample_manifest)
        \<lparr>pa_algorithm = [2], pa_binary_data = [1]\<rparr> (replicate 32 0) = Inr p'
    \<and> p \<noteq> p' \<and> manifest_decode (mf_raw_bytes sample_manifest) = Inr (vp_manifest p)
    \<and> artifact_hashed ALGORITHM_ARTIFACT_KIND [0] \<noteq> artifact_hashed ALGORITHM_ARTIFACT_KIND [2]"
proof -
  let ?H = "\<lambda>_ :: bytes. replicate 32 0 :: bytes"
  have accepted: "\<exists>p. validate_profile_package ?H (mf_raw_bytes sample_manifest)
      \<lparr>pa_algorithm = [a], pa_binary_data = [b]\<rparr> (replicate 32 0) = Inr p" for a b
    using sample_manifest_decodes
    by (auto simp: validate_profile_package_eq_Inr validate_artifact_reference_eq_Inr
        sample_manifest_def Let_def sample_reference_def)
  obtain p p' where p: "validate_profile_package ?H (mf_raw_bytes sample_manifest)
      \<lparr>pa_algorithm = [0], pa_binary_data = [1]\<rparr> (replicate 32 0) = Inr p"
    "validate_profile_package ?H (mf_raw_bytes sample_manifest)
      \<lparr>pa_algorithm = [2], pa_binary_data = [1]\<rparr> (replicate 32 0) = Inr p'"
    using accepted by blast
  have "p \<noteq> p'" using p by (auto simp: validate_profile_package_eq_Inr)
  then show ?thesis
    using package_identity_binds [OF p] p by (intro exI [of _ p] exI [of _ p']) auto
qed

end
