(* ===== verification/ReceiptClaim.thy ===== *)
theory ReceiptClaim
  imports Codec
begin

text \<open>
  The byte-level construction of the receipt-claim chain (\<open>reproduction/src/claim.rs\<close>): the
  tagged-struct preimage with its checked length arithmetic and the four digests of an OK claim.
  SHA-256 is the \<open>sha2\<close> crate and appears as the parameter \<open>sha256\<close>; a hasher fed piece by piece
  hashes the concatenation of the pieces.
\<close>

section \<open>Definitions\<close>

definition CLAIM_DIGEST_BYTES :: nat where
  "CLAIM_DIGEST_BYTES = 32"

definition ZERO_DIGEST :: bytes where
  "ZERO_DIGEST = replicate CLAIM_DIGEST_BYTES 0"

record ReceiptClaimDigests =
  rc_journal_digest :: bytes
  rc_post :: bytes
  rc_output :: bytes
  rc_expected_claim :: bytes

datatype ClaimConstructionError =
    InvalidImageIdLength nat nat
  | TooManyTaggedStructChildren nat nat
  | ClaimArithmeticOverflow string
  | Sha256InputTooLong string nat

definition checked_sha256_input_length :: "string \<Rightarrow> nat \<Rightarrow> ClaimConstructionError + unit" where
  "checked_sha256_input_length construct byte_length =
     and_then (ok_or (if byte_length < 2 ^ 64 then Some byte_length else None)
                 (Sha256InputTooLong construct byte_length)) (\<lambda>encoded_byte_length.
     if checked_mul_usize encoded_byte_length 8 = None
     then Inl (Sha256InputTooLong construct byte_length)
     else Inr ())"

definition sha256_bytes ::
  "(bytes \<Rightarrow> bytes) \<Rightarrow> string \<Rightarrow> bytes \<Rightarrow> ClaimConstructionError + bytes" where
  "sha256_bytes sha256 construct bs =
     and_then (checked_sha256_input_length construct (length bs)) (\<lambda>_. Inr (sha256 bs))"

definition tagged_struct_preimage_length ::
  "nat \<Rightarrow> nat \<Rightarrow> ClaimConstructionError + u16 \<times> nat" where
  "tagged_struct_preimage_length down_count data_count =
     and_then (ok_or (if down_count < 2 ^ 16 then Some (word_of_nat down_count) else None)
                 (TooManyTaggedStructChildren down_count 65535)) (\<lambda>encoded_down_count.
     and_then (ok_or (checked_mul_usize down_count CLAIM_DIGEST_BYTES)
                 (ClaimArithmeticOverflow ''tagged-struct child digests'')) (\<lambda>down_bytes.
     and_then (ok_or (checked_mul_usize data_count 4)
                 (ClaimArithmeticOverflow ''tagged-struct data bytes'')) (\<lambda>data_bytes.
     and_then (ok_or
         (Option.bind (checked_add_usize CLAIM_DIGEST_BYTES down_bytes)
           (\<lambda>len. Option.bind (checked_add_usize len data_bytes)
           (\<lambda>len. checked_add_usize len 2)))
         (ClaimArithmeticOverflow ''complete tagged-struct preimage'')) (\<lambda>preimage_length.
     Inr (encoded_down_count, preimage_length)))))"

definition tagged_preimage :: "bytes \<Rightarrow> bytes list \<Rightarrow> u32 list \<Rightarrow> u16 \<Rightarrow> bytes" where
  "tagged_preimage tag_digest down data down_count =
     tag_digest @ concat down @ concat (map u32_to_le data) @ u16_to_le down_count"

definition tagged_struct_sha256 ::
  "(bytes \<Rightarrow> bytes) \<Rightarrow> string \<Rightarrow> bytes list \<Rightarrow> u32 list \<Rightarrow> ClaimConstructionError + bytes" where
  "tagged_struct_sha256 sha256 tag down data =
     and_then (tagged_struct_preimage_length (length down) (length data))
       (\<lambda>(down_count, preimage_length).
     and_then (checked_sha256_input_length ''tagged-struct preimage'' preimage_length) (\<lambda>_.
     and_then (sha256_bytes sha256 ''tagged-struct tag'' (ascii tag)) (\<lambda>tag_digest.
     Inr (sha256 (tagged_preimage tag_digest down data down_count)))))"

definition ok_post_digest :: "(bytes \<Rightarrow> bytes) \<Rightarrow> ClaimConstructionError + bytes" where
  "ok_post_digest sha256 = tagged_struct_sha256 sha256 ''risc0.SystemState'' [ZERO_DIGEST] [0]"

definition ok_output_digest :: "(bytes \<Rightarrow> bytes) \<Rightarrow> bytes \<Rightarrow> ClaimConstructionError + bytes" where
  "ok_output_digest sha256 journal_digest =
     tagged_struct_sha256 sha256 ''risc0.Output'' [journal_digest, ZERO_DIGEST] []"

definition ok_receipt_claim_digests ::
  "(bytes \<Rightarrow> bytes) \<Rightarrow> bytes \<Rightarrow> bytes \<Rightarrow> ClaimConstructionError + ReceiptClaimDigests" where
  "ok_receipt_claim_digests sha256 image_id journal =
     and_then (ensure (length image_id = CLAIM_DIGEST_BYTES)
                 (InvalidImageIdLength (length image_id) CLAIM_DIGEST_BYTES)) (\<lambda>_.
     and_then (sha256_bytes sha256 ''receipt journal'' journal) (\<lambda>journal_digest.
     and_then (ok_post_digest sha256) (\<lambda>post.
     and_then (ok_output_digest sha256 journal_digest) (\<lambda>output.
     and_then (tagged_struct_sha256 sha256 ''risc0.ReceiptClaim''
                 [ZERO_DIGEST, image_id, post, output] [0, 0]) (\<lambda>expected_claim.
     Inr \<lparr>rc_journal_digest = journal_digest, rc_post = post, rc_output = output,
          rc_expected_claim = expected_claim\<rparr>)))))"

section \<open>Lengths and closed forms\<close>

lemma checked_sha256_input_length_eq_Inr [simp]:
  "checked_sha256_input_length c n = Inr u \<longleftrightarrow> 8 * n < 2 ^ 64"
  by (auto simp: checked_sha256_input_length_def checked_mul_usize_def usize_limit_def
      split: if_splits)

lemma sha256_bytes_eq_Inr [simp]:
  "sha256_bytes H c bs = Inr d \<longleftrightarrow> 8 * length bs < 2 ^ 64 \<and> d = H bs"
  by (auto simp: sha256_bytes_def)

lemma tagged_struct_preimage_length_eq_Inr:
  "tagged_struct_preimage_length n k = Inr (c, len) \<longleftrightarrow>
     n < 2 ^ 16 \<and> c = word_of_nat n \<and> len = 34 + 32 * n + 4 * k \<and> len < 2 ^ 64"
  by (auto simp: tagged_struct_preimage_length_def CLAIM_DIGEST_BYTES_def usize_limit_def
      bind_eq_Some_conv)

lemma length_concat_u32 [simp]: "length (concat (map u32_to_le xs)) = 4 * length xs"
  by (induction xs) simp_all

lemma length_tagged_preimage:
  assumes "length tag_digest = 32" and "\<And>d. d \<in> set down \<Longrightarrow> length d = 32"
  shows "length (tagged_preimage tag_digest down data c) = 34 + 32 * length down + 4 * length data"
proof -
  have "length (concat down) = 32 * length down" using assms(2) by (rule length_concat_fixed)
  then show ?thesis using assms(1) by (simp add: tagged_preimage_def)
qed

lemma tagged_struct_sha256_small:
  assumes "length down < 2 ^ 16" "length data < 2 ^ 16" "length tag < 2 ^ 16"
  shows "tagged_struct_sha256 H tag down data =
    Inr (H (tagged_preimage (H (ascii tag)) down data (word_of_nat (length down))))"
proof -
  have "tagged_struct_preimage_length (length down) (length data) =
      Inr (word_of_nat (length down), 34 + 32 * length down + 4 * length data)"
    using assms by (simp add: tagged_struct_preimage_length_eq_Inr)
  then show ?thesis using assms by (simp add: tagged_struct_sha256_def)
qed

section \<open>The preimage determines its parts\<close>

lemma concat_fixed_inject:
  assumes "length xs = length ys" and "0 < n"
    and "\<And>x. x \<in> set xs \<Longrightarrow> length x = n" and "\<And>y. y \<in> set ys \<Longrightarrow> length y = n"
  shows "concat xs @ us = concat ys @ vs \<longleftrightarrow> xs = ys \<and> us = vs"
  using assms
proof (induction xs ys rule: list_induct2)
  case (Cons x xs y ys)
  then have "length x = length y" by simp
  then show ?case using Cons by auto
qed simp

lemma words_concat_inject:
  "concat (map u32_to_le xs) = concat (map u32_to_le ys) \<longleftrightarrow> xs = ys"
proof
  assume eq: "concat (map u32_to_le xs) = concat (map u32_to_le ys)"
  have "4 * length xs = 4 * length ys" using arg_cong [OF eq, of length] by simp
  then have "length xs = length ys" by simp
  then show "xs = ys" using eq by (induction xs ys rule: list_induct2) auto
qed simp

lemma tagged_preimage_inject:
  assumes "length t = 32" "length t' = 32"
    and "\<And>d. d \<in> set down \<Longrightarrow> length d = 32" and "\<And>d. d \<in> set down' \<Longrightarrow> length d = 32"
    and "length down < 2 ^ 16" "length down' < 2 ^ 16"
  shows "tagged_preimage t down data (word_of_nat (length down))
      = tagged_preimage t' down' data' (word_of_nat (length down'))
    \<longleftrightarrow> t = t' \<and> down = down' \<and> data = data'"
proof
  assume eq: "tagged_preimage t down data (word_of_nat (length down))
      = tagged_preimage t' down' data' (word_of_nat (length down'))"
  let ?body = "\<lambda>t down data. t @ concat down @ concat (map u32_to_le data)"
  have "?body t down data @ u16_to_le (word_of_nat (length down))
      = ?body t' down' data' @ u16_to_le (word_of_nat (length down'))"
    using eq by (simp add: tagged_preimage_def)
  then have body: "?body t down data = ?body t' down' data'"
    and suffix: "u16_to_le (word_of_nat (length down)) = u16_to_le (word_of_nat (length down'))"
    by (metis append_eq_append_conv length_uN_to_le(1))+
  have "(word_of_nat (length down) :: u16) = word_of_nat (length down')" using suffix by simp
  then have "unat (word_of_nat (length down) :: u16) = unat (word_of_nat (length down') :: u16)"
    by simp
  then have count: "length down = length down'" using assms(5,6) by (simp add: unat_of_nat)
  have "t = t'" and "concat down @ concat (map u32_to_le data)
      = concat down' @ concat (map u32_to_le data')"
    using body assms(1,2) by auto
  then show "t = t' \<and> down = down' \<and> data = data'"
    using concat_fixed_inject [OF count, of 32] assms(3,4) words_concat_inject by auto
qed simp

section \<open>Properties\<close>

definition post_preimage :: "(bytes \<Rightarrow> bytes) \<Rightarrow> bytes" where
  "post_preimage sha256 = tagged_preimage (sha256 (ascii ''risc0.SystemState'')) [ZERO_DIGEST] [0] 1"

definition output_preimage :: "(bytes \<Rightarrow> bytes) \<Rightarrow> bytes \<Rightarrow> bytes" where
  "output_preimage sha256 journal_digest =
     tagged_preimage (sha256 (ascii ''risc0.Output'')) [journal_digest, ZERO_DIGEST] [] 2"

definition claim_preimage :: "(bytes \<Rightarrow> bytes) \<Rightarrow> bytes \<Rightarrow> bytes \<Rightarrow> bytes" where
  "claim_preimage sha256 image_id output =
     tagged_preimage (sha256 (ascii ''risc0.ReceiptClaim''))
       [ZERO_DIGEST, image_id, sha256 (post_preimage sha256), output] [0, 0] 4"

lemma ok_claim_chain_closed_form:
  assumes "\<And>bs. length (sha256 bs) = 32"
  shows "ok_receipt_claim_digests sha256 img journal = Inr d \<longleftrightarrow>
      length img = 32 \<and> 8 * length journal < 2 ^ 64
      \<and> d = \<lparr>rc_journal_digest = sha256 journal, rc_post = sha256 (post_preimage sha256),
          rc_output = sha256 (output_preimage sha256 (sha256 journal)),
          rc_expected_claim =
            sha256 (claim_preimage sha256 img (sha256 (output_preimage sha256 (sha256 journal))))\<rparr>"
  using assms
  by (auto simp: ok_receipt_claim_digests_def ok_post_digest_def ok_output_digest_def
      tagged_struct_sha256_small post_preimage_def output_preimage_def claim_preimage_def
      CLAIM_DIGEST_BYTES_def)

text \<open>The claim chain is computed for exactly the 32-byte image identifiers and the journals
  SHA-256 can represent, by the four nested formulas over preimages of 70, 98 and 170 bytes; no
  length check of the tagged structs can fail.\<close>

theorem ok_claim_chain:
  assumes "\<And>bs. length (sha256 bs) = 32"
  shows "(ok_receipt_claim_digests sha256 img journal = Inr d \<longleftrightarrow>
      length img = 32 \<and> 8 * length journal < 2 ^ 64
      \<and> d = \<lparr>rc_journal_digest = sha256 journal, rc_post = sha256 (post_preimage sha256),
          rc_output = sha256 (output_preimage sha256 (sha256 journal)),
          rc_expected_claim =
            sha256 (claim_preimage sha256 img (sha256 (output_preimage sha256 (sha256 journal))))\<rparr>)
    \<and> length (post_preimage sha256) = 70
    \<and> length (output_preimage sha256 (sha256 journal)) = 98
    \<and> length (claim_preimage sha256 img (sha256 (output_preimage sha256 (sha256 journal))))
      = 138 + length img"
proof -
  have "length (post_preimage sha256) = 70"
    "length (output_preimage sha256 (sha256 journal)) = 98"
    "length (claim_preimage sha256 img out) = 138 + length img"
    if "length out = 32" for out
    using assms that
    by (simp_all add: post_preimage_def output_preimage_def claim_preimage_def tagged_preimage_def
        ZERO_DIGEST_def CLAIM_DIGEST_BYTES_def)
  then show ?thesis
    using assms ok_claim_chain_closed_form [of sha256 img journal d] by blast
qed

theorem ok_claim_chain_witness:
  "\<exists>d. ok_receipt_claim_digests (\<lambda>_. replicate 32 5) (replicate 32 1) [7] = Inr d
    \<and> rc_post d = replicate 32 5"
proof -
  have "length (replicate 32 (5 :: u8)) = 32" by simp
  then show ?thesis
    using ok_claim_chain [of "\<lambda>_. replicate 32 5" "replicate 32 1" "[7]"] by simp
qed

text \<open>The expected claim binds the image identifier and the journal: two chains with the same
  expected claim have the same image, journal and digests, unless SHA-256 collides on the two claim
  preimages, the two output preimages or the two journals.\<close>

theorem expected_claim_binds:
  assumes len: "\<And>bs. length (sha256 bs) = 32"
    and "ok_receipt_claim_digests sha256 img journal = Inr d"
    and "ok_receipt_claim_digests sha256 img' journal' = Inr d'"
    and "rc_expected_claim d = rc_expected_claim d'"
    and "rc_expected_claim d = rc_expected_claim d' \<longrightarrow>
      claim_preimage sha256 img (rc_output d) = claim_preimage sha256 img' (rc_output d')"
    and "rc_output d = rc_output d' \<longrightarrow>
      output_preimage sha256 (rc_journal_digest d) = output_preimage sha256 (rc_journal_digest d')"
    and "sha256 journal = sha256 journal' \<longrightarrow> journal = journal'"
  shows "img = img' \<and> journal = journal' \<and> d = d'"
proof -
  have d: "length img = 32" "rc_journal_digest d = sha256 journal" "length (rc_output d) = 32"
    using assms(2) len by (auto simp: ok_claim_chain_closed_form [OF len])
  have d': "length img' = 32" "rc_journal_digest d' = sha256 journal'" "length (rc_output d') = 32"
    using assms(3) len by (auto simp: ok_claim_chain_closed_form [OF len])
  have "img = img'" "rc_output d = rc_output d'"
    using assms(4,5) d d' len by (auto simp: claim_preimage_def tagged_preimage_def)
  moreover from this assms(6) have "sha256 journal = sha256 journal'"
    using d d' len by (auto simp: output_preimage_def tagged_preimage_def)
  ultimately show ?thesis using assms(2,3,7) by auto
qed

theorem expected_claim_binds_witness:
  "\<exists>d. ok_receipt_claim_digests (\<lambda>_. replicate 32 5) (replicate 32 1) [7] = Inr d
    \<and> (\<forall>d'. ok_receipt_claim_digests (\<lambda>_. replicate 32 5) (replicate 32 1) [7] = Inr d' \<longrightarrow> d = d')"
proof -
  let ?H = "\<lambda>_ :: bytes. replicate 32 5 :: bytes"
  have len: "length (?H bs) = 32" for bs by simp
  obtain d where d: "ok_receipt_claim_digests ?H (replicate 32 1) [7] = Inr d"
    by (simp add: ok_claim_chain_closed_form)
  have "d = d'" if "ok_receipt_claim_digests ?H (replicate 32 1) [7] = Inr d'" for d'
    using expected_claim_binds [OF len d that] d that by auto
  with d show ?thesis by blast
qed

end
