(* ===== verification/Seal.thy ===== *)
theory Seal
  imports Codec Constants
begin

text \<open>
  The raw-seal grammar of the initial profile (\<open>reproduction/src/seal.rs\<close>): the two span tables with
  their contiguity check, the word decoder, the semantic projection that assigns word indices to
  seven roles, and the search for a word whose byte reversal is rejected. Of the constants artifact
  only the parameters the projection reads are modelled (\<open>SealParameters\<close>); its codec is another
  module.
\<close>

section \<open>Spans and their validation\<close>

record SealWordSpan =
  sp_name :: string
  sp_start :: nat
  sp_end :: nat

definition seal_span_len :: "SealWordSpan \<Rightarrow> nat" where
  "seal_span_len s = sp_end s - sp_start s"

definition seal_span_is_empty :: "SealWordSpan \<Rightarrow> bool" where
  "seal_span_is_empty s \<longleftrightarrow> sp_start s = sp_end s"

abbreviation word_span :: "string \<Rightarrow> nat \<Rightarrow> nat \<Rightarrow> SealWordSpan" where
  "word_span n a b \<equiv> \<lparr>sp_name = n, sp_start = a, sp_end = b\<rparr>"

definition QUERY_COUNT :: nat where
  "QUERY_COUNT = 50"

definition QUERY_RECORD_WORDS :: nat where
  "QUERY_RECORD_WORDS = 1019"

definition TOP_LEVEL_WORD_SPANS :: "SealWordSpan list" where
  "TOP_LEVEL_WORD_SPANS =
     [word_span ''output'' 0 32,
      word_span ''outerPo2'' 32 33,
      word_span ''codeTop'' 33 289,
      word_span ''dataTop'' 289 545,
      word_span ''accumTop'' 545 801,
      word_span ''checkTop'' 801 1057,
      word_span ''coeffU'' 1057 3693,
      word_span ''friRound1Top'' 3693 3949,
      word_span ''friRound2Top'' 3949 4205,
      word_span ''friRound3Top'' 4205 4461,
      word_span ''finalCoefficients'' 4461 4717,
      word_span ''queries'' 4717 55667]"

definition QUERY_WORD_SPANS :: "SealWordSpan list" where
  "QUERY_WORD_SPANS =
     [word_span ''accumOpening'' 0 132,
      word_span ''codeOpening'' 132 275,
      word_span ''dataOpening'' 275 523,
      word_span ''checkOpening'' 523 659,
      word_span ''friRound1Opening'' 659 811,
      word_span ''friRound2Opening'' 811 931,
      word_span ''friRound3Opening'' 931 1019]"

definition SEMANTIC_MERKLE_TOP_SPAN_INDICES :: "nat list" where
  "SEMANTIC_MERKLE_TOP_SPAN_INDICES = [2, 3, 4, 5, 7, 8, 9]"

definition SEMANTIC_MERKLE_TOP_SPAN_NAMES :: "string list" where
  "SEMANTIC_MERKLE_TOP_SPAN_NAMES =
     [''codeTop'', ''dataTop'', ''accumTop'', ''checkTop'', ''friRound1Top'', ''friRound2Top'',
      ''friRound3Top'']"

datatype SealError =
    SpanNonContiguousOrEmpty string string
  | LayoutEndMismatch string nat nat
  | TopLevelEmpty
  | QueryCensusOverflow
  | QueryRegionMismatch nat nat
  | RawSealLength nat nat
  | ChunkLengthMismatch
  | OutputWidthDiffers
  | QueryCountDiffers
  | FriWidthOverflows
  | OpeningWidthsDiffer
  | MerkleTopsDiffer
  | RoleCensusDiffers
  | RoleCandidatesInvalid nat
  | QueryOffsetOverflows
  | OpeningWidthExceedsSpan
  | LeafOffsetOverflows
  | LeafWidthOverflows
  | SiblingOffsetOverflows
  | RoleEmpty
  | NonReducedWord nat u32
  | NoByteOrderCandidate nat

fun validate_spans ::
  "string \<Rightarrow> nat \<Rightarrow> SealWordSpan list \<Rightarrow> SealError + nat" where
  "validate_spans label cursor [] = Inr cursor"
| "validate_spans label cursor (span # rest) =
     and_then (ensure (sp_start span = cursor \<and> sp_end span > sp_start span)
                 (SpanNonContiguousOrEmpty label (sp_name span))) (\<lambda>_.
     validate_spans label (sp_end span) rest)"

definition validate_contiguous ::
  "SealWordSpan list \<Rightarrow> nat \<Rightarrow> nat \<Rightarrow> string \<Rightarrow> SealError + unit" where
  "validate_contiguous spans expected_start expected_end label =
     and_then (validate_spans label expected_start spans) (\<lambda>cursor.
     ensure (cursor = expected_end) (LayoutEndMismatch label cursor expected_end))"

definition validate_seal_layout :: "SealError + unit" where
  "validate_seal_layout =
     and_then (validate_contiguous TOP_LEVEL_WORD_SPANS 0 PROOF_WORDS ''top-level'') (\<lambda>_.
     and_then (validate_contiguous QUERY_WORD_SPANS 0 QUERY_RECORD_WORDS ''query-record'') (\<lambda>_.
     and_then (if TOP_LEVEL_WORD_SPANS = [] then Inl TopLevelEmpty
               else Inr (last TOP_LEVEL_WORD_SPANS)) (\<lambda>query_region.
     and_then (ok_or (checked_mul_usize QUERY_COUNT QUERY_RECORD_WORDS) QueryCensusOverflow)
       (\<lambda>expected_query_words.
     ensure (sp_name query_region = ''queries''
             \<and> seal_span_len query_region = expected_query_words)
       (QueryRegionMismatch (seal_span_len query_region) expected_query_words)))))"

section \<open>Words\<close>

text \<open>\<open>slice.chunks_exact(n)\<close>: the incomplete last chunk is dropped.\<close>

function chunks_exact :: "nat \<Rightarrow> 'a list \<Rightarrow> 'a list list" where
  "chunks_exact n xs =
     (if n = 0 \<or> length xs < n then [] else take n xs # chunks_exact n (drop n xs))"
  by auto
termination
  by (relation "measure (\<lambda>(n, xs). length xs)") auto

declare chunks_exact.simps [simp del]

fun decode_words :: "bytes list \<Rightarrow> SealError + u32 list" where
  "decode_words [] = Inr []"
| "decode_words (chunk # rest) =
     and_then (ensure (length chunk = 4) ChunkLengthMismatch) (\<lambda>_.
     and_then (decode_words rest) (\<lambda>words. Inr (u32_from_le chunk # words)))"

definition decode_seal_words :: "bytes \<Rightarrow> SealError + u32 list" where
  "decode_seal_words raw_seal =
     and_then validate_seal_layout (\<lambda>_.
     and_then (ensure (length raw_seal = PROOF_BYTES) (RawSealLength (length raw_seal) PROOF_BYTES))
       (\<lambda>_. decode_words (chunks_exact 4 raw_seal)))"

section \<open>The semantic projection\<close>

datatype SealSemanticRole =
    RootOutput | ClaimOutput | MerkleTops | Coefficients | FinalCoefficients | OpeningLeaves
  | OpeningSiblings

definition all_roles :: "SealSemanticRole list" where
  "all_roles =
     [RootOutput, ClaimOutput, MerkleTops, Coefficients, FinalCoefficients, OpeningLeaves,
      OpeningSiblings]"

fun role_ordinal :: "SealSemanticRole \<Rightarrow> nat" where
  "role_ordinal RootOutput = 0"
| "role_ordinal ClaimOutput = 1"
| "role_ordinal MerkleTops = 2"
| "role_ordinal Coefficients = 3"
| "role_ordinal FinalCoefficients = 4"
| "role_ordinal OpeningLeaves = 5"
| "role_ordinal OpeningSiblings = 6"

text \<open>The fields of the authenticated constants artifact that the projection reads.\<close>

record SealParameters =
  b2_modulus :: u32
  b2_extension_degree :: u8
  b2_queries :: u8
  b2_fri_fold :: u8
  b2_output_size :: u8
  b2_check_size :: u8
  b2_group_sizes :: "u8 list"

record SealSemanticProjection =
  pj_modulus :: u32
  pj_opening_column_widths :: "nat list"
  pj_words_by_role :: "nat list list"

definition projection_words :: "SealSemanticProjection \<Rightarrow> SealSemanticRole \<Rightarrow> nat list" where
  "projection_words p role = pj_words_by_role p ! role_ordinal role"

fun openings_of_query ::
  "nat \<Rightarrow> (SealWordSpan \<times> nat) list \<Rightarrow> nat list \<times> nat list \<Rightarrow> SealError + nat list \<times> nat list" where
  "openings_of_query query_start [] (leaves, siblings) = Inr (leaves, siblings)"
| "openings_of_query query_start ((opening, width) # rest) (leaves, siblings) =
     and_then (ensure (width \<le> seal_span_len opening) OpeningWidthExceedsSpan) (\<lambda>_.
     and_then (ok_or (checked_add_usize query_start (sp_start opening)) LeafOffsetOverflows)
       (\<lambda>leaf_start.
     and_then (ok_or (checked_add_usize leaf_start width) LeafWidthOverflows) (\<lambda>leaf_end.
     and_then (ok_or (checked_add_usize query_start (sp_end opening)) SiblingOffsetOverflows)
       (\<lambda>opening_end.
     openings_of_query query_start rest
       (leaves @ [leaf_start..<leaf_end], siblings @ [leaf_end..<opening_end])))))"

fun openings_of_queries ::
  "nat \<Rightarrow> nat list \<Rightarrow> nat list \<Rightarrow> nat list \<times> nat list \<Rightarrow> SealError + nat list \<times> nat list" where
  "openings_of_queries region_start [] widths acc = Inr acc"
| "openings_of_queries region_start (query # queries) widths acc =
     and_then (ok_or (checked_mul_usize query QUERY_RECORD_WORDS) QueryOffsetOverflows) (\<lambda>offset.
     and_then (ok_or (checked_add_usize region_start offset) QueryOffsetOverflows) (\<lambda>query_start.
     and_then (openings_of_query query_start (zip QUERY_WORD_SPANS widths) acc) (\<lambda>acc.
     openings_of_queries region_start queries widths acc)))"

definition derive_opening_word_partition :: "nat list \<Rightarrow> SealError + nat list \<times> nat list" where
  "derive_opening_word_partition widths =
     openings_of_queries (sp_start (TOP_LEVEL_WORD_SPANS ! 11)) [0..<QUERY_COUNT] widths ([], [])"

text \<open>\<open>iterator.step_by(2)\<close>.\<close>

fun step_by_two :: "'a list \<Rightarrow> 'a list" where
  "step_by_two (x # y # rest) = x # step_by_two rest"
| "step_by_two xs = xs"

definition span_range :: "SealWordSpan \<Rightarrow> nat list" where
  "span_range s = [sp_start s..<sp_end s]"

text \<open>\<open>windows(2).all(|pair| pair[0] < pair[1])\<close>.\<close>

fun adjacent_less :: "nat list \<Rightarrow> bool" where
  "adjacent_less (x # y # rest) = (x < y \<and> adjacent_less (y # rest))"
| "adjacent_less _ = True"

fun check_roles :: "(SealSemanticRole \<times> nat list) list \<Rightarrow> SealError + unit" where
  "check_roles [] = Inr ()"
| "check_roles ((role, words) # rest) =
     and_then (ensure (words \<noteq> [] \<and> list_all (\<lambda>word. word < PROOF_WORDS) words \<and> adjacent_less words)
                 (RoleCandidatesInvalid (role_ordinal role))) (\<lambda>_. check_roles rest)"

definition derive_projection :: "SealParameters \<Rightarrow> SealError + SealSemanticProjection" where
  "derive_projection b2 =
     and_then validate_seal_layout (\<lambda>_.
     let output = TOP_LEVEL_WORD_SPANS ! 0;
         output_words = unat (b2_output_size b2) in
     and_then (ensure (sp_name output = ''output'' \<and> seal_span_len output = output_words
                       \<and> output_words = 32) OutputWidthDiffers) (\<lambda>_.
     and_then (ensure (unat (b2_queries b2) = QUERY_COUNT) QueryCountDiffers) (\<lambda>_.
     and_then (ok_or (checked_mul_usize (unat (b2_fri_fold b2)) (unat (b2_extension_degree b2)))
                 FriWidthOverflows) (\<lambda>fri_width.
     let opening_column_widths =
           [unat (b2_group_sizes b2 ! 0), unat (b2_group_sizes b2 ! 1), unat (b2_group_sizes b2 ! 2),
            unat (b2_check_size b2), fri_width, fri_width, fri_width] in
     and_then (ensure (opening_column_widths = [12, 23, 128, 16, 64, 64, 64]) OpeningWidthsDiffer)
       (\<lambda>_.
     let root_output =
           step_by_two [sp_start output..<sp_start output + output_words div 2];
         claim_output = [sp_start output + output_words div 2..<sp_end output] in
     and_then (ensure (map (\<lambda>index. sp_name (TOP_LEVEL_WORD_SPANS ! index))
                         SEMANTIC_MERKLE_TOP_SPAN_INDICES
                       = SEMANTIC_MERKLE_TOP_SPAN_NAMES) MerkleTopsDiffer) (\<lambda>_.
     let merkle_tops =
           concat (map (\<lambda>index. span_range (TOP_LEVEL_WORD_SPANS ! index))
                     SEMANTIC_MERKLE_TOP_SPAN_INDICES);
         coefficients = span_range (TOP_LEVEL_WORD_SPANS ! 6);
         final_coefficients = span_range (TOP_LEVEL_WORD_SPANS ! 10) in
     and_then (derive_opening_word_partition opening_column_widths)
       (\<lambda>(opening_leaves, opening_siblings).
     let words_by_role =
           [root_output, claim_output, merkle_tops, coefficients, final_coefficients,
            opening_leaves, opening_siblings] in
     and_then (ensure (map length words_by_role = [8, 16, 1792, 2636, 256, 18550, 32400])
                 RoleCensusDiffers) (\<lambda>_.
     and_then (check_roles (zip all_roles words_by_role)) (\<lambda>_.
     Inr \<lparr>pj_modulus = b2_modulus b2, pj_opening_column_widths = opening_column_widths,
          pj_words_by_role = words_by_role\<rparr>)))))))))"

section \<open>Candidates\<close>

record SealByteOrderCandidate =
  bc_word_index :: nat
  bc_original_word :: u32
  bc_reversed_word :: u32
  bc_before_bytes :: bytes
  bc_replacement_bytes :: bytes

definition fixed_semantic_representative ::
  "SealSemanticProjection \<Rightarrow> SealSemanticRole \<Rightarrow> SealError + nat" where
  "fixed_semantic_representative projection role =
     ok_or (get_index (projection_words projection role) 0) RoleEmpty"

fun find_non_reduced :: "u32 \<Rightarrow> nat \<Rightarrow> u32 list \<Rightarrow> (nat \<times> u32) option" where
  "find_non_reduced modulus index [] = None"
| "find_non_reduced modulus index (word # rest) =
     (if word \<ge> modulus then Some (index, word) else find_non_reduced modulus (index + 1) rest)"

fun scan_candidates ::
  "u32 \<Rightarrow> u32 list \<Rightarrow> nat \<Rightarrow> nat list \<Rightarrow> SealError + SealByteOrderCandidate" where
  "scan_candidates modulus words role [] = Inl (NoByteOrderCandidate role)"
| "scan_candidates modulus words role (word_index # rest) =
     (let original_word = words ! word_index;
          before_bytes = u32_to_le original_word;
          replacement_bytes =
            [before_bytes ! 3, before_bytes ! 2, before_bytes ! 1, before_bytes ! 0];
          reversed_word = u32_from_le replacement_bytes in
      if replacement_bytes \<noteq> before_bytes \<and> reversed_word \<ge> modulus
      then Inr \<lparr>bc_word_index = word_index, bc_original_word = original_word,
                bc_reversed_word = reversed_word, bc_before_bytes = before_bytes,
                bc_replacement_bytes = replacement_bytes\<rparr>
      else scan_candidates modulus words role rest)"

definition first_byte_order_candidate ::
  "bytes \<Rightarrow> SealSemanticProjection \<Rightarrow> SealSemanticRole \<Rightarrow> SealError + SealByteOrderCandidate" where
  "first_byte_order_candidate raw_seal projection role =
     and_then (decode_seal_words raw_seal) (\<lambda>words.
     case find_non_reduced (pj_modulus projection) 0 words of
       Some (word_index, word) \<Rightarrow> Inl (NonReducedWord word_index word)
     | None \<Rightarrow>
         scan_candidates (pj_modulus projection) words (role_ordinal role)
           (projection_words projection role))"

section \<open>The layout holds\<close>

lemma seal_layout_ok: "validate_seal_layout = Inr ()"
  by (simp add: validate_seal_layout_def validate_contiguous_def TOP_LEVEL_WORD_SPANS_def
      QUERY_WORD_SPANS_def QUERY_COUNT_def QUERY_RECORD_WORDS_def PROOF_WORDS_def seal_span_len_def
      usize_limit_def)

section \<open>Decoding words\<close>

lemma chunks_exact_Nil [simp]: "chunks_exact n [] = []"
  by (subst chunks_exact.simps) auto

lemma chunks_exact_step:
  "0 < n \<Longrightarrow> length c = n \<Longrightarrow> chunks_exact n (c @ xs) = c # chunks_exact n xs"
  by (subst chunks_exact.simps) simp

lemma chunks_exact_concat:
  "0 < n \<Longrightarrow> (\<And>c. c \<in> set cs \<Longrightarrow> length c = n) \<Longrightarrow> chunks_exact n (concat cs) = cs"
  by (induction cs) (simp_all add: chunks_exact_step)

lemma split_chunks:
  assumes "length xs = n * k"
  shows "\<exists>cs. xs = concat cs \<and> length cs = k \<and> (\<forall>c \<in> set cs. length c = n)"
  using assms
proof (induction k arbitrary: xs)
  case 0
  then show ?case by (intro exI [of _ "[]"]) simp
next
  case (Suc k)
  have "length (drop n xs) = n * k" using Suc.prems by simp
  with Suc.IH obtain cs where "drop n xs = concat cs" "length cs = k" "\<forall>c \<in> set cs. length c = n"
    by blast
  then show ?case
    using Suc.prems append_take_drop_id [of n xs]
    by (intro exI [of _ "take n xs # cs"]) auto
qed

lemma decode_words_chunks:
  "(\<And>c. c \<in> set cs \<Longrightarrow> length c = 4) \<Longrightarrow> decode_words cs = Inr (map u32_from_le cs)"
  by (induction cs) simp_all

definition encode_words :: "u32 list \<Rightarrow> bytes" where
  "encode_words ws = concat (map u32_to_le ws)"

lemma length_encode_words [simp]: "length (encode_words ws) = 4 * length ws"
  by (induction ws) (simp_all add: encode_words_def)

lemma decode_encode_words:
  assumes "length ws = PROOF_WORDS"
  shows "decode_seal_words (encode_words ws) = Inr ws"
proof -
  have "chunks_exact 4 (encode_words ws) = map u32_to_le ws"
    unfolding encode_words_def by (rule chunks_exact_concat) auto
  moreover have "decode_words (map u32_to_le ws) = Inr ws"
    by (subst decode_words_chunks) (auto simp: o_def)
  ultimately show ?thesis
    using assms by (simp add: decode_seal_words_def seal_layout_ok PROOF_BYTES_def PROOF_WORDS_def
        BYTES_PER_PROOF_WORD_def)
qed

lemma decode_seal_words_sound:
  assumes "decode_seal_words raw = Inr ws"
  shows "length ws = PROOF_WORDS \<and> encode_words ws = raw"
proof -
  have len: "length raw = 4 * PROOF_WORDS" and dec: "decode_words (chunks_exact 4 raw) = Inr ws"
    using assms
    by (auto simp: decode_seal_words_def seal_layout_ok PROOF_BYTES_def BYTES_PER_PROOF_WORD_def
        PROOF_WORDS_def)
  obtain cs where cs: "raw = concat cs" "length cs = PROOF_WORDS" "\<forall>c \<in> set cs. length c = 4"
    using split_chunks [OF len] by blast
  have "chunks_exact 4 raw = cs" using cs by (simp add: chunks_exact_concat)
  then have ws: "ws = map u32_from_le cs" using dec cs by (simp add: decode_words_chunks)
  have "map u32_to_le ws = cs" unfolding ws using cs(3) by (induction cs) auto
  then show ?thesis using ws cs by (simp add: encode_words_def)
qed

interpretation seal_words: fixed_codec "\<lambda>ws. Inr (encode_words ws)" decode_seal_words
    "\<lambda>ws. length ws = PROOF_WORDS" PROOF_BYTES
  by unfold_locales
    (auto simp: decode_encode_words PROOF_BYTES_def BYTES_PER_PROOF_WORD_def PROOF_WORDS_def
      dest: decode_seal_words_sound)

section \<open>The opening partition in closed form\<close>

declare upt_rec_numeral [simp del]

definition frozen_openings :: "(SealWordSpan \<times> nat) list" where
  "frozen_openings = zip QUERY_WORD_SPANS [12, 23, 128, 16, 64, 64, 64]"

definition leaves_at :: "(SealWordSpan \<times> nat) list \<Rightarrow> nat \<Rightarrow> nat list" where
  "leaves_at ops q = concat (map (\<lambda>(s, w). [q + sp_start s..<q + sp_start s + w]) ops)"

definition siblings_at :: "(SealWordSpan \<times> nat) list \<Rightarrow> nat \<Rightarrow> nat list" where
  "siblings_at ops q = concat (map (\<lambda>(s, w). [q + sp_start s + w..<q + sp_end s]) ops)"

definition fitting_opening :: "SealWordSpan \<times> nat \<Rightarrow> bool" where
  "fitting_opening = (\<lambda>(s, w). sp_start s + w \<le> sp_end s \<and> sp_end s \<le> 1019)"

lemma openings_of_query_closed_form:
  "list_all fitting_opening ops \<Longrightarrow> q < 100000 \<Longrightarrow>
    openings_of_query q ops acc = Inr (fst acc @ leaves_at ops q, snd acc @ siblings_at ops q)"
proof (induction ops arbitrary: acc)
  case Nil
  then show ?case by (cases acc) (simp add: leaves_at_def siblings_at_def)
next
  case (Cons op ops)
  obtain s w where op: "op = (s, w)" by (cases op)
  obtain l r where acc: "acc = (l, r)" by (cases acc)
  have fits: "sp_start s + w \<le> sp_end s" "sp_end s \<le> 1019"
    using Cons.prems(1) by (simp_all add: op fitting_opening_def)
  then have "w \<le> seal_span_len s" by (simp add: seal_span_len_def)
  then show ?case
    using Cons fits
    by (simp add: op acc checked_add_usize_def usize_limit_def leaves_at_def siblings_at_def
        del: and_then_eq_Inr)
qed

lemma openings_of_queries_closed_form:
  assumes "list_all fitting_opening (zip QUERY_WORD_SPANS widths)" and "\<forall>q \<in> set qs. q < 50"
  shows "openings_of_queries 4717 qs widths acc =
    Inr (fst acc @ concat (map (\<lambda>q. leaves_at (zip QUERY_WORD_SPANS widths) (4717 + q * 1019)) qs),
         snd acc @ concat (map (\<lambda>q. siblings_at (zip QUERY_WORD_SPANS widths) (4717 + q * 1019)) qs))"
  using assms(2)
proof (induction qs arbitrary: acc)
  case (Cons q qs)
  then have "q < 50" by simp
  then have "checked_mul_usize q QUERY_RECORD_WORDS = Some (q * 1019)"
    "checked_add_usize 4717 (q * 1019) = Some (4717 + q * 1019)" "4717 + q * 1019 < 100000"
    by (simp_all add: usize_limit_def QUERY_RECORD_WORDS_def)
  then show ?case
    using Cons by (simp add: openings_of_query_closed_form [OF assms(1)] del: and_then_eq_Inr
        checked_mul_usize_eq_Some checked_add_usize_eq_Some)
qed simp

definition opening_leaf_words :: "nat list" where
  "opening_leaf_words = concat (map (\<lambda>q. leaves_at frozen_openings (4717 + q * 1019)) [0..<50])"

definition opening_sibling_words :: "nat list" where
  "opening_sibling_words = concat (map (\<lambda>q. siblings_at frozen_openings (4717 + q * 1019)) [0..<50])"

lemma frozen_openings_fit: "list_all fitting_opening frozen_openings"
  by (simp add: frozen_openings_def QUERY_WORD_SPANS_def fitting_opening_def)

lemma derive_partition_closed_form:
  "derive_opening_word_partition [12, 23, 128, 16, 64, 64, 64]
    = Inr (opening_leaf_words, opening_sibling_words)"
proof -
  have "sp_start (TOP_LEVEL_WORD_SPANS ! 11) = 4717" by (simp add: TOP_LEVEL_WORD_SPANS_def)
  then show ?thesis
    using openings_of_queries_closed_form [of "[12, 23, 128, 16, 64, 64, 64]" "[0..<50]" "([], [])"]
      frozen_openings_fit
    by (simp add: derive_opening_word_partition_def opening_leaf_words_def opening_sibling_words_def
        frozen_openings_def QUERY_COUNT_def)
qed

lemma frozen_at:
  "leaves_at frozen_openings q = [q..<q + 12] @ [q + 132..<q + 155] @ [q + 275..<q + 403]
     @ [q + 523..<q + 539] @ [q + 659..<q + 723] @ [q + 811..<q + 875] @ [q + 931..<q + 995]"
  "siblings_at frozen_openings q = [q + 12..<q + 132] @ [q + 155..<q + 275] @ [q + 403..<q + 523]
     @ [q + 539..<q + 659] @ [q + 723..<q + 811] @ [q + 875..<q + 931] @ [q + 995..<q + 1019]"
  by (simp_all add: leaves_at_def siblings_at_def frozen_openings_def QUERY_WORD_SPANS_def
      add.assoc)

lemma frozen_at_block:
  "sorted_wrt (<) (leaves_at frozen_openings q)" "sorted_wrt (<) (siblings_at frozen_openings q)"
  "set (leaves_at frozen_openings q) \<inter> set (siblings_at frozen_openings q) = {}"
  "set (leaves_at frozen_openings q) \<union> set (siblings_at frozen_openings q) = {q..<q + 1019}"
  "length (leaves_at frozen_openings q) = 371" "length (siblings_at frozen_openings q) = 648"
  by (auto simp: frozen_at sorted_wrt_append)

lemma blocks_sorted:
  fixes f :: "nat \<Rightarrow> nat list"
  assumes "\<And>q. sorted_wrt (<) (f q)" and "\<And>q. set (f q) \<subseteq> {a + q * k..<a + q * k + k}"
  shows "sorted_wrt (<) (concat (map f [0..<n])) \<and> set (concat (map f [0..<n])) \<subseteq> {a..<a + n * k}"
proof (induction n)
  case (Suc n)
  have block: "set (f n) \<subseteq> {a + n * k..<a + n * k + k}" by (rule assms(2))
  have "\<forall>x \<in> set (concat (map f [0..<n])). \<forall>y \<in> set (f n). x < y"
    using Suc.IH block by fastforce
  moreover have "set (concat (map f [0..<n])) \<subseteq> {a..<a + Suc n * k}"
    using Suc.IH by fastforce
  moreover have "set (f n) \<subseteq> {a..<a + Suc n * k}" using block by fastforce
  ultimately show ?case using Suc.IH assms(1) by (simp add: sorted_wrt_append)
qed simp

lemma blocks_union:
  "(\<Union>q < n. {a + q * k..<a + q * k + k}) = {a..<a + n * k}" for a k n :: nat
proof (induction n)
  case (Suc n)
  have "{a..<a + n * k} \<union> {a + n * k..<a + n * k + k} = {a..<a + Suc n * k}"
    by (subst ivl_disj_un_two(3)) auto
  then show ?case using Suc.IH by (simp add: lessThan_Suc Un_commute)
qed simp

lemma blocks_disjoint:
  "q \<noteq> q' \<Longrightarrow> {a + q * k..<a + q * k + k} \<inter> {a + q' * k..<a + q' * k + k} = {}"
  for a k q q' :: nat
proof -
  have "a + q * k + k \<le> a + q' * k" if "q < q'" for q q'
  proof -
    have "Suc q * k \<le> q' * k" using that by (intro mult_right_mono) auto
    then show ?thesis by simp
  qed
  then show "q \<noteq> q' \<Longrightarrow> ?thesis" by (cases q q' rule: linorder_cases) fastforce+
qed

lemma opening_words:
  "sorted_wrt (<) opening_leaf_words" "sorted_wrt (<) opening_sibling_words"
  "set opening_leaf_words \<union> set opening_sibling_words = {4717..<55667}"
  "set opening_leaf_words \<inter> set opening_sibling_words = {}"
  "length opening_leaf_words = 18550" "length opening_sibling_words = 32400"
proof -
  let ?l = "\<lambda>q. leaves_at frozen_openings (4717 + q * 1019)"
  let ?s = "\<lambda>q. siblings_at frozen_openings (4717 + q * 1019)"
  have in_block: "set (?l q) \<subseteq> {4717 + q * 1019..<4717 + q * 1019 + 1019}"
    "set (?s q) \<subseteq> {4717 + q * 1019..<4717 + q * 1019 + 1019}" for q
    using frozen_at_block(4) [of "4717 + q * 1019"] by auto
  show "sorted_wrt (<) opening_leaf_words" "sorted_wrt (<) opening_sibling_words"
    unfolding opening_leaf_words_def opening_sibling_words_def
    using blocks_sorted [of ?l 4717 1019 50] blocks_sorted [of ?s 4717 1019 50] in_block
    by (simp_all only: frozen_at_block)
  have sets: "set opening_leaf_words = (\<Union>q < 50. set (?l q))"
    "set opening_sibling_words = (\<Union>q < 50. set (?s q))"
    by (auto simp: opening_leaf_words_def opening_sibling_words_def atLeast0LessThan)
  have "set opening_leaf_words \<union> set opening_sibling_words = (\<Union>q < 50. set (?l q) \<union> set (?s q))"
    unfolding sets by blast
  also have "\<dots> = {4717..<4717 + 50 * 1019}"
    unfolding frozen_at_block(4) by (rule blocks_union)
  finally show "set opening_leaf_words \<union> set opening_sibling_words = {4717..<55667}" by simp
  show "set opening_leaf_words \<inter> set opening_sibling_words = {}"
  proof (rule ccontr)
    assume "\<not> ?thesis"
    then obtain x q q' where x: "x \<in> set (?l q)" "x \<in> set (?s q')" unfolding sets by blast
    have "q = q'" using x in_block blocks_disjoint [of q q' 4717 1019] by blast
    then show False using x frozen_at_block(3) [of "4717 + q * 1019"] by blast
  qed
  show "length opening_leaf_words = 18550" "length opening_sibling_words = 32400"
    by (simp_all add: opening_leaf_words_def opening_sibling_words_def length_concat o_def
        frozen_at_block sum_list_triv)
qed

fun role_words :: "SealSemanticRole \<Rightarrow> nat list" where
  "role_words RootOutput = [0, 2, 4, 6, 8, 10, 12, 14]"
| "role_words ClaimOutput = [16..<32]"
| "role_words MerkleTops = [33..<289] @ [289..<545] @ [545..<801] @ [801..<1057]
     @ [3693..<3949] @ [3949..<4205] @ [4205..<4461]"
| "role_words Coefficients = [1057..<3693]"
| "role_words FinalCoefficients = [4461..<4717]"
| "role_words OpeningLeaves = opening_leaf_words"
| "role_words OpeningSiblings = opening_sibling_words"

lemma role_words_sorted: "sorted_wrt (<) (role_words r)"
  by (cases r) (auto simp: opening_words sorted_wrt_append)

lemma role_words_bound: "w \<in> set (role_words r) \<Longrightarrow> w < 55667"
  using opening_words(3) by (cases r) auto

lemma role_words_nonempty: "role_words r \<noteq> []"
  using opening_words(5,6) by (cases r) auto

lemma adjacent_less_sorted: "sorted_wrt (<) xs \<Longrightarrow> adjacent_less xs"
  by (induction xs rule: adjacent_less.induct) auto

lemma check_roles_ok: "check_roles (map (\<lambda>r. (r, role_words r)) rs) = Inr ()"
  by (induction rs)
    (auto simp: role_words_sorted adjacent_less_sorted role_words_nonempty list_all_iff
      PROOF_WORDS_def dest: role_words_bound)

lemma role_census:
  "map (\<lambda>r. length (role_words r)) all_roles = [8, 16, 1792, 2636, 256, 18550, 32400]"
  by (simp add: all_roles_def opening_words)

lemma step_sixteen: "step_by_two [0..<16] = [0, 2, 4, 6, 8, 10, 12, 14]"
  by code_simp

lemma role_sources:
  "step_by_two [0..<16] = role_words RootOutput"
  "concat (map (\<lambda>index. span_range (TOP_LEVEL_WORD_SPANS ! index)) SEMANTIC_MERKLE_TOP_SPAN_INDICES)
     = role_words MerkleTops"
  "span_range (TOP_LEVEL_WORD_SPANS ! 6) = role_words Coefficients"
  "span_range (TOP_LEVEL_WORD_SPANS ! 10) = role_words FinalCoefficients"
  "map (\<lambda>index. sp_name (TOP_LEVEL_WORD_SPANS ! index)) SEMANTIC_MERKLE_TOP_SPAN_INDICES
     = SEMANTIC_MERKLE_TOP_SPAN_NAMES"
  "TOP_LEVEL_WORD_SPANS ! 0 = word_span ''output'' 0 32"
  by (simp_all add: SEMANTIC_MERKLE_TOP_SPAN_INDICES_def SEMANTIC_MERKLE_TOP_SPAN_NAMES_def
      span_range_def TOP_LEVEL_WORD_SPANS_def step_sixteen)

definition frozen_parameters :: "SealParameters \<Rightarrow> bool" where
  "frozen_parameters b2 \<longleftrightarrow>
     b2_output_size b2 = 32 \<and> b2_queries b2 = 50
     \<and> unat (b2_fri_fold b2) * unat (b2_extension_degree b2) = 64 \<and> b2_check_size b2 = 16
     \<and> b2_group_sizes b2 ! 0 = 12 \<and> b2_group_sizes b2 ! 1 = 23 \<and> b2_group_sizes b2 ! 2 = 128"

lemma unat_u8_eq: "n < 256 \<Longrightarrow> unat (w :: u8) = n \<longleftrightarrow> w = word_of_nat n"
  by (auto simp: unat_of_nat)

lemma frozen_parameters_unat:
  "frozen_parameters b2 \<longleftrightarrow>
     unat (b2_output_size b2) = 32 \<and> unat (b2_queries b2) = 50
     \<and> unat (b2_fri_fold b2) * unat (b2_extension_degree b2) = 64 \<and> unat (b2_check_size b2) = 16
     \<and> unat (b2_group_sizes b2 ! 0) = 12 \<and> unat (b2_group_sizes b2 ! 1) = 23
     \<and> unat (b2_group_sizes b2 ! 2) = 128"
  by (simp add: frozen_parameters_def unat_u8_eq)

lemma derive_projection_frozen:
  assumes "frozen_parameters b2"
  shows "derive_projection b2 =
    Inr \<lparr>pj_modulus = b2_modulus b2, pj_opening_column_widths = [12, 23, 128, 16, 64, 64, 64],
         pj_words_by_role = map role_words all_roles\<rparr>"
proof -
  note params = assms [unfolded frozen_parameters_unat]
  have words: "[role_words RootOutput, [16..<32], role_words MerkleTops, role_words Coefficients,
      role_words FinalCoefficients, opening_leaf_words, opening_sibling_words]
    = map role_words all_roles"
    by (simp add: all_roles_def)
  have zip: "zip all_roles (map role_words all_roles) = map (\<lambda>r. (r, role_words r)) all_roles"
    by (simp add: all_roles_def)
  show ?thesis
    unfolding derive_projection_def seal_layout_ok Let_def role_sources
    using params role_census
    by (simp add: seal_span_len_def QUERY_COUNT_def checked_mul_usize_def usize_limit_def
        derive_partition_closed_form role_sources words zip check_roles_ok o_def
        del: and_then_eq_Inr role_words.simps list.map)
qed

lemma derive_projection_eq_Inr:
  "derive_projection b2 = Inr p \<longleftrightarrow> frozen_parameters b2 \<and>
     p = \<lparr>pj_modulus = b2_modulus b2, pj_opening_column_widths = [12, 23, 128, 16, 64, 64, 64],
          pj_words_by_role = map role_words all_roles\<rparr>"
proof (cases "frozen_parameters b2")
  case True
  then show ?thesis by (auto simp: derive_projection_frozen)
next
  case False
  then have "derive_projection b2 \<noteq> Inr p"
    unfolding frozen_parameters_unat
    by (auto simp: derive_projection_def Let_def QUERY_COUNT_def)
  with False show ?thesis by simp
qed

lemma projection_words_derived:
  "derive_projection b2 = Inr p \<Longrightarrow> projection_words p r = role_words r"
  by (cases r) (auto simp: derive_projection_eq_Inr projection_words_def all_roles_def)

lemma cover_complement:
  assumes "E \<union> D = {0..<16}" "E \<inter> D = {}"
  shows "E \<union> {16..<32} \<union> {33..<55667} = {0..<55667 :: nat} - insert 32 D" (is "?l = ?r")
proof -
  have D: "x \<in> D \<longleftrightarrow> x < 16 \<and> x \<notin> E" for x using assms by (auto simp: set_eq_iff)
  have E: "x \<in> E \<Longrightarrow> x < 16" for x using assms by auto
  have "x \<in> ?l \<longleftrightarrow> x \<in> ?r" for x using D [of x] E [of x] by auto
  then show ?thesis by blast
qed

lemma role_words_cover:
  "(\<Union>r. set (role_words r)) = {0..<55667} - {1, 3, 5, 7, 9, 11, 13, 15, 32}"
proof -
  have "r \<in> set all_roles" for r by (cases r) (simp_all add: all_roles_def)
  then have roles: "(\<Union>r. set (role_words r)) = (\<Union>r \<in> set all_roles. set (role_words r))" by blast
  have tops: "set (role_words MerkleTops) = {33..<1057} \<union> {3693..<4461}" by auto
  have "{33..<1057} \<union> {3693..<4461} \<union> {1057..<3693} \<union> {4461..<4717} = {33..<4717 :: nat}" by auto
  then have "(\<Union>r. set (role_words r))
      = set (role_words RootOutput) \<union> {16..<32} \<union> ({33..<4717} \<union> {4717..<55667})"
    unfolding roles opening_words(3) [symmetric] using tops
    by (simp add: all_roles_def Un_ac del: role_words.simps(1,3))
  also have "{33..<4717} \<union> {4717..<55667} = {33..<55667 :: nat}" by auto
  also have "set (role_words RootOutput) \<union> {16..<32} \<union> {33..<55667}
      = {0..<55667} - insert 32 {1, 3, 5, 7, 9, 11, 13, 15}"
    by (rule cover_complement) (auto simp: set_eq_iff, presburger)
  also have "insert 32 {1, 3, 5, 7, 9, 11, 13, 15} = {1, 3, 5, 7, 9, 11, 13, 15, 32 :: nat}" by auto
  finally show ?thesis .
qed

section \<open>The candidate scan\<close>

lemma find_non_reduced_None:
  "find_non_reduced m i ws = None \<longleftrightarrow> (\<forall>w \<in> set ws. w < m)"
  by (induction ws arbitrary: i) (auto simp: not_le)

lemma find_non_reduced_Some:
  "find_non_reduced m i ws = Some (j, w) \<longleftrightarrow>
     (\<exists>k. j = i + k \<and> k < length ws \<and> w = ws ! k \<and> m \<le> w \<and> (\<forall>l < k. ws ! l < m))"
proof (induction ws arbitrary: i)
  case (Cons x ws)
  show ?case
  proof (cases "m \<le> x")
    case True
    then show ?thesis by (auto simp: less_Suc_eq_0_disj not_le intro: ccontr)
  next
    case False
    have split: "(\<exists>k. Q k) \<longleftrightarrow> Q 0 \<or> (\<exists>k. Q (Suc k))" for Q :: "nat \<Rightarrow> bool"
      by (metis not0_implies_Suc)
    have "(\<exists>k. j = i + k \<and> k < length (x # ws) \<and> w = (x # ws) ! k \<and> m \<le> w \<and> (\<forall>l < k. (x # ws) ! l < m))
        \<longleftrightarrow> (\<exists>k. j = i + 1 + k \<and> k < length ws \<and> w = ws ! k \<and> m \<le> w \<and> (\<forall>l < k. ws ! l < m))"
      using False by (subst split) (auto simp: All_less_Suc2 not_le)
    then show ?thesis using False Cons.IH [of "i + 1"] by simp
  qed
qed simp

definition rejected_reversal :: "u32 \<Rightarrow> u32 \<Rightarrow> bool" where
  "rejected_reversal modulus w \<longleftrightarrow>
     rev (u32_to_le w) \<noteq> u32_to_le w \<and> modulus \<le> u32_from_le (rev (u32_to_le w))"

lemma list_of_four:
  assumes "length xs = 4"
  obtains a b c d where "xs = [a, b, c, d]"
proof -
  have "length xs = Suc (Suc (Suc (Suc 0)))" using assms by simp
  then show thesis using that by (auto simp: length_Suc_conv)
qed

lemma four_bytes_rev: "[u32_to_le w ! 3, u32_to_le w ! 2, u32_to_le w ! 1, u32_to_le w ! 0] = rev (u32_to_le w)"
proof -
  obtain a b c d where "u32_to_le w = [a, b, c, d]"
    using list_of_four [OF length_uN_to_le(2)] by blast
  then show ?thesis by simp
qed

definition candidate_at :: "u32 list \<Rightarrow> nat \<Rightarrow> SealByteOrderCandidate" where
  "candidate_at words i =
     \<lparr>bc_word_index = i, bc_original_word = words ! i,
      bc_reversed_word = u32_from_le (rev (u32_to_le (words ! i))),
      bc_before_bytes = u32_to_le (words ! i), bc_replacement_bytes = rev (u32_to_le (words ! i))\<rparr>"

lemma scan_candidates_step:
  "scan_candidates m words r (i # is) =
     (if rejected_reversal m (words ! i) then Inr (candidate_at words i)
      else scan_candidates m words r is)"
  by (simp add: Let_def four_bytes_rev rejected_reversal_def candidate_at_def del: One_nat_def)

lemma scan_candidates_sound:
  "scan_candidates m words r is = Inr c \<Longrightarrow>
    \<exists>pre i post. is = pre @ i # post \<and> c = candidate_at words i \<and> rejected_reversal m (words ! i)
      \<and> (\<forall>j \<in> set pre. \<not> rejected_reversal m (words ! j))"
proof (induction "is")
  case (Cons i "is")
  show ?case
  proof (cases "rejected_reversal m (words ! i)")
    case True
    then show ?thesis
      using Cons.prems by (intro exI [of _ "[]"]) (simp add: scan_candidates_step del: scan_candidates.simps)
  next
    case False
    then have "scan_candidates m words r is = Inr c"
      using Cons.prems by (simp add: scan_candidates_step del: scan_candidates.simps)
    then obtain pre k post where "is = pre @ k # post" "c = candidate_at words k"
      "rejected_reversal m (words ! k)" "\<forall>j \<in> set pre. \<not> rejected_reversal m (words ! j)"
      using Cons.IH by blast
    then show ?thesis using False by (intro exI [of _ "i # pre"]) auto
  qed
qed simp

lemma scan_candidates_eq_Inl:
  "scan_candidates m words r is = Inl e \<longleftrightarrow>
    e = NoByteOrderCandidate r \<and> (\<forall>j \<in> set is. \<not> rejected_reversal m (words ! j))"
  by (induction "is") (auto simp: scan_candidates_step simp del: scan_candidates.simps(2))

lemma first_byte_order_candidate_eq_Inl:
  assumes "decode_seal_words raw = Inr words"
  shows "first_byte_order_candidate raw p role = Inl e \<longleftrightarrow>
    (\<exists>i w. find_non_reduced (pj_modulus p) 0 words = Some (i, w) \<and> e = NonReducedWord i w)
    \<or> (\<forall>w \<in> set words. w < pj_modulus p) \<and> e = NoByteOrderCandidate (role_ordinal role)
      \<and> (\<forall>j \<in> set (projection_words p role). \<not> rejected_reversal (pj_modulus p) (words ! j))"
  using assms find_non_reduced_None [of "pj_modulus p" 0 words]
  by (cases "find_non_reduced (pj_modulus p) 0 words")
    (auto simp: first_byte_order_candidate_def scan_candidates_eq_Inl)

lemma encode_words_append: "encode_words (xs @ ys) = encode_words xs @ encode_words ys"
  by (simp add: encode_words_def)

lemma encode_words_update:
  assumes "i < length ws"
  shows "encode_words (ws[i := w]) = overwrite (encode_words ws) (4 * i) (u32_to_le w)"
    and "slice (encode_words ws) (4 * i) (4 * i + 4) = u32_to_le (ws ! i)"
proof -
  have split: "encode_words ws
      = encode_words (take i ws) @ u32_to_le (ws ! i) @ encode_words (drop (Suc i) ws)"
    by (subst id_take_nth_drop [OF assms]) (simp add: encode_words_def)
  have len: "length (encode_words (take i ws)) = 4 * i" using assms by simp
  show "encode_words (ws[i := w]) = overwrite (encode_words ws) (4 * i) (u32_to_le w)"
    unfolding split using assms len
    by (simp add: upd_conv_take_nth_drop encode_words_append overwrite_def)
      (simp add: encode_words_def)
  show "slice (encode_words ws) (4 * i) (4 * i + 4) = u32_to_le (ws ! i)"
    unfolding split using len by (simp add: slice_def)
qed

section \<open>Properties\<close>

text \<open>Decoding accepts exactly the raw seals of 55,667 words: the words determine the bytes and
  the bytes the words, and any other length is refused.\<close>

theorem seal_words_exact:
  "decode_seal_words raw = Inr ws \<longleftrightarrow> length ws = 55667 \<and> encode_words ws = raw"
  using seal_words.decode_eq_iff [of raw ws] by (simp add: PROOF_WORDS_def)

text \<open>C34. The projection exists exactly for the frozen parameters. Its seven roles list their words in
  serialized order, are pairwise disjoint and cover the whole seal except the eight odd padding words
  of the root and the exponent word.\<close>

theorem projection_partitions_seal:
  "(\<exists>p. derive_projection b2 = Inr p) = frozen_parameters b2
    \<and> (\<forall>p. derive_projection b2 = Inr p \<longrightarrow>
        (\<forall>r. sorted_wrt (<) (projection_words p r))
        \<and> (\<forall>r r'. r \<noteq> r' \<longrightarrow> set (projection_words p r) \<inter> set (projection_words p r') = {})
        \<and> (\<Union>r. set (projection_words p r))
            = {0..<55667} - {1, 3, 5, 7, 9, 11, 13, 15, 32})"
proof -
  have openings: "set opening_leaf_words \<subseteq> {4717..<55667}" "set opening_sibling_words \<subseteq> {4717..<55667}"
    using opening_words(3) by auto
  have disjoint: "set (role_words r) \<inter> set (role_words r') = {}" if "r \<noteq> r'" for r r'
    using that openings opening_words(4) by (cases r; cases r') auto
  have "(\<exists>p. derive_projection b2 = Inr p) = frozen_parameters b2"
    by (simp add: derive_projection_eq_Inr)
  moreover have "projection_words p = role_words" if "derive_projection b2 = Inr p" for p
    using projection_words_derived [OF that] by blast
  ultimately show ?thesis
    by (intro conjI allI impI) (simp_all only: role_words_sorted disjoint role_words_cover simp_thms)
qed

text \<open>A candidate is sound: every word of the seal is reduced, the candidate is the first word of
  its role whose reversed bytes differ and are not reduced, and writing the reversed bytes into the
  seal changes that word alone, into a non-reduced value.\<close>

theorem byte_order_candidate_sound:
  assumes "derive_projection b2 = Inr p" and "first_byte_order_candidate raw p role = Inr c"
  shows "\<exists>words pre post. decode_seal_words raw = Inr words
    \<and> (\<forall>w \<in> set words. w < b2_modulus b2)
    \<and> projection_words p role = pre @ bc_word_index c # post
    \<and> (\<forall>j \<in> set pre. \<not> rejected_reversal (b2_modulus b2) (words ! j))
    \<and> bc_before_bytes c = slice raw (4 * bc_word_index c) (4 * bc_word_index c + 4)
    \<and> bc_replacement_bytes c = rev (bc_before_bytes c)
    \<and> decode_seal_words (overwrite raw (4 * bc_word_index c) (bc_replacement_bytes c))
        = Inr (words[bc_word_index c := bc_reversed_word c])
    \<and> bc_original_word c < b2_modulus b2 \<and> b2_modulus b2 \<le> bc_reversed_word c"
proof -
  have m: "pj_modulus p = b2_modulus b2" using assms(1) by (simp add: derive_projection_eq_Inr)
  obtain words where words: "decode_seal_words raw = Inr words"
    and none: "find_non_reduced (b2_modulus b2) 0 words = None"
    and scan: "scan_candidates (b2_modulus b2) words (role_ordinal role) (projection_words p role) = Inr c"
    using assms(2)
    by (auto simp: first_byte_order_candidate_def m split: option.splits)
      (metis not_None_eq surj_pair)
  have reduced: "\<forall>w \<in> set words. w < b2_modulus b2" using none by (simp add: find_non_reduced_None)
  obtain pre i post where i: "projection_words p role = pre @ i # post" "c = candidate_at words i"
    "rejected_reversal (b2_modulus b2) (words ! i)"
    "\<forall>j \<in> set pre. \<not> rejected_reversal (b2_modulus b2) (words ! j)"
    using scan_candidates_sound [OF scan] by blast
  have raw: "length words = 55667" "encode_words words = raw"
    using decode_seal_words_sound [OF words] by (simp_all add: PROOF_WORDS_def)
  have "i \<in> set (role_words role)"
    using i(1) projection_words_derived [OF assms(1), of role] by (metis in_set_conv_decomp)
  then have bound: "i < length words" using role_words_bound raw(1) by simp
  have "overwrite raw (4 * i) (rev (u32_to_le (words ! i)))
      = encode_words (words[i := u32_from_le (rev (u32_to_le (words ! i)))])"
    using encode_words_update(1) [OF bound] raw(2) by simp
  then have "decode_seal_words (overwrite raw (4 * i) (rev (u32_to_le (words ! i))))
      = Inr (words[i := u32_from_le (rev (u32_to_le (words ! i)))])"
    using decode_encode_words [of "words[i := _]"] raw(1) by (simp add: PROOF_WORDS_def)
  moreover have "words ! i < b2_modulus b2" using reduced bound by simp
  ultimately show ?thesis
    using words reduced i encode_words_update(2) [OF bound] raw(2)
    by (intro exI [of _ words] exI [of _ pre] exI [of _ post])
      (auto simp: candidate_at_def rejected_reversal_def)
qed

definition sample_parameters :: SealParameters where
  "sample_parameters =
     \<lparr>b2_modulus = 2013265921, b2_extension_degree = 4, b2_queries = 50, b2_fri_fold = 16,
      b2_output_size = 32, b2_check_size = 16, b2_group_sizes = [12, 23, 128]\<rparr>"

theorem projection_partitions_seal_witness:
  "\<exists>p. derive_projection sample_parameters = Inr p
    \<and> (\<Union>r. set (projection_words p r)) = {0..<55667} - {1, 3, 5, 7, 9, 11, 13, 15, 32}"
proof -
  have "frozen_parameters sample_parameters" by (simp add: frozen_parameters_def sample_parameters_def)
  then obtain p where p: "derive_projection sample_parameters = Inr p"
    using projection_partitions_seal [THEN conjunct1] by metis
  show ?thesis
    using p projection_partitions_seal [THEN conjunct2, THEN spec, THEN mp, OF p,
        THEN conjunct2, THEN conjunct2]
    by (intro exI [of _ p] conjI)
qed

lemma rejected_reversal_sample: "rejected_reversal 2013265921 121"
  by (simp add: rejected_reversal_def u32_to_le_def le_encode_numeral u32_from_le_def)

theorem byte_order_candidate_sound_witness:
  "\<exists>p c words. derive_projection sample_parameters = Inr p
    \<and> first_byte_order_candidate (encode_words (replicate 55667 121)) p Coefficients = Inr c
    \<and> decode_seal_words (overwrite (encode_words (replicate 55667 121)) (4 * bc_word_index c)
        (bc_replacement_bytes c)) = Inr (words[bc_word_index c := bc_reversed_word c])"
proof -
  obtain p where p: "derive_projection sample_parameters = Inr p"
    using derive_projection_frozen [of sample_parameters]
    by (simp add: frozen_parameters_def sample_parameters_def)
  have words: "projection_words p Coefficients = 1057 # [1058..<3693]"
    unfolding projection_words_derived [OF p] by (simp add: upt_rec_numeral)
  have m: "pj_modulus p = 2013265921"
    using p by (simp add: derive_projection_eq_Inr sample_parameters_def)
  have none: "find_non_reduced 2013265921 0 (replicate 55667 121) = None"
    by (simp add: find_non_reduced_None)
  have "first_byte_order_candidate (encode_words (replicate 55667 121)) p Coefficients
      = Inr (candidate_at (replicate 55667 121) 1057)"
    by (simp add: first_byte_order_candidate_def decode_encode_words PROOF_WORDS_def m none words
        scan_candidates_step rejected_reversal_sample del: scan_candidates.simps)
  from byte_order_candidate_sound [OF p this] p this show ?thesis by blast
qed

text \<open>C35. A seal with a word outside the field is reported before any candidate, at its first such
  word, whatever the role. A seal of reduced words is reported to have no candidate, under the ordinal
  of the role, exactly when no word of the role has reversed bytes that differ and denote a value
  outside the field; otherwise a candidate is found.\<close>

theorem non_reduced_word_reported:
  assumes "decode_seal_words raw = Inr words"
  shows "(first_byte_order_candidate raw p role = Inl (NonReducedWord i w) \<longleftrightarrow>
      i < length words \<and> w = words ! i \<and> pj_modulus p \<le> w \<and> (\<forall>j < i. words ! j < pj_modulus p))
    \<and> (first_byte_order_candidate raw p role = Inl (NoByteOrderCandidate k) \<longleftrightarrow>
      k = role_ordinal role \<and> (\<forall>i < length words. words ! i < pj_modulus p)
      \<and> \<not> (\<exists>j \<in> set (projection_words p role).
            rev (u32_to_le (words ! j)) \<noteq> u32_to_le (words ! j)
            \<and> pj_modulus p \<le> u32_from_le (rev (u32_to_le (words ! j)))))
    \<and> ((\<exists>c. first_byte_order_candidate raw p role = Inr c) \<longleftrightarrow>
      (\<forall>i < length words. words ! i < pj_modulus p)
      \<and> (\<exists>j \<in> set (projection_words p role).
            rev (u32_to_le (words ! j)) \<noteq> u32_to_le (words ! j)
            \<and> pj_modulus p \<le> u32_from_le (rev (u32_to_le (words ! j)))))"
proof (intro conjI)
  note split = first_byte_order_candidate_eq_Inl [OF assms]
  have reduced: "(\<forall>i < length words. words ! i < pj_modulus p) \<longleftrightarrow> (\<forall>w \<in> set words. w < pj_modulus p)"
    by (rule all_set_conv_all_nth [symmetric])
  show "first_byte_order_candidate raw p role = Inl (NonReducedWord i w) \<longleftrightarrow>
      i < length words \<and> w = words ! i \<and> pj_modulus p \<le> w \<and> (\<forall>j < i. words ! j < pj_modulus p)"
    by (auto simp: split find_non_reduced_Some)
  show none: "first_byte_order_candidate raw p role = Inl (NoByteOrderCandidate k) \<longleftrightarrow>
      k = role_ordinal role \<and> (\<forall>i < length words. words ! i < pj_modulus p)
      \<and> \<not> (\<exists>j \<in> set (projection_words p role).
            rev (u32_to_le (words ! j)) \<noteq> u32_to_le (words ! j)
            \<and> pj_modulus p \<le> u32_from_le (rev (u32_to_le (words ! j))))" for k
    unfolding split reduced by (auto simp: rejected_reversal_def)
  have "(\<exists>c. first_byte_order_candidate raw p role = Inr c) \<longleftrightarrow>
      (\<forall>e. first_byte_order_candidate raw p role \<noteq> Inl e)"
    by (cases "first_byte_order_candidate raw p role") simp_all
  also have "\<dots> \<longleftrightarrow> (\<forall>w \<in> set words. w < pj_modulus p)
      \<and> (\<exists>j \<in> set (projection_words p role). rejected_reversal (pj_modulus p) (words ! j))"
    unfolding split using find_non_reduced_None [of "pj_modulus p" 0 words] by (metis not_None_eq surj_pair)
  finally show "(\<exists>c. first_byte_order_candidate raw p role = Inr c) \<longleftrightarrow>
      (\<forall>i < length words. words ! i < pj_modulus p)
      \<and> (\<exists>j \<in> set (projection_words p role).
            rev (u32_to_le (words ! j)) \<noteq> u32_to_le (words ! j)
            \<and> pj_modulus p \<le> u32_from_le (rev (u32_to_le (words ! j))))"
    unfolding reduced by (simp add: rejected_reversal_def)
qed

theorem non_reduced_word_reported_witness:
  "\<exists>p. derive_projection sample_parameters = Inr p
    \<and> first_byte_order_candidate (encode_words (replicate 55667 0xFFFFFFFF)) p Coefficients
        = Inl (NonReducedWord 0 0xFFFFFFFF)
    \<and> first_byte_order_candidate (encode_words (replicate 55667 0)) p FinalCoefficients
        = Inl (NoByteOrderCandidate 4)
    \<and> (\<exists>c. first_byte_order_candidate (encode_words (replicate 55667 121)) p Coefficients = Inr c)"
proof -
  obtain p where p: "derive_projection sample_parameters = Inr p"
    using derive_projection_frozen [of sample_parameters]
    by (simp add: frozen_parameters_def sample_parameters_def)
  have m: "pj_modulus p = 2013265921"
    using p by (simp add: derive_projection_eq_Inr sample_parameters_def)
  have decodes: "decode_seal_words (encode_words (replicate 55667 w)) = Inr (replicate 55667 w)" for w
    by (simp add: decode_encode_words PROOF_WORDS_def)
  have bound: "j < 55667" if "j \<in> set (projection_words p r)" for j r
    using that role_words_bound unfolding projection_words_derived [OF p] by blast
  have "1057 \<in> set (projection_words p Coefficients)"
    unfolding projection_words_derived [OF p] by simp
  then show ?thesis
    using p m
      non_reduced_word_reported [OF decodes, of "0xFFFFFFFF" p Coefficients 0 "0xFFFFFFFF", THEN conjunct1]
      non_reduced_word_reported [OF decodes, of 0 p FinalCoefficients _ _ 4, THEN conjunct2, THEN conjunct1]
      non_reduced_word_reported [OF decodes, of 121 p Coefficients, THEN conjunct2, THEN conjunct2]
      rejected_reversal_sample bound
    by (intro exI [of _ p]) (auto simp: rejected_reversal_def u32_to_le_def le_encode_numeral)
qed

end
