(* ===== verification/Capacity.thy ===== *)
theory Capacity
  imports Canonical
begin

text \<open>
  The capacity contract of the tmpfs provider
  (\<open>appliance/h0-tmpfs-provider/crates/contract/src/lib.rs\<close>): validated profiles and logical
  bounds, the projection of a replay plan onto 64-bit counters, the aggregation of the four plans,
  the derived inode, page and byte limits with memory admission, and the mount request that is built
  from them and revalidated. Every checked operation is a branch.
\<close>

section \<open>Bounds, profiles and roles\<close>

definition REPLAY_PLAN_COUNT :: nat where
  "REPLAY_PLAN_COUNT = 4"

definition MOUNT_ROOT_INODES :: u64 where
  "MOUNT_ROOT_INODES = 1"

definition ROLE_ROOT_INODES :: u64 where
  "ROLE_ROOT_INODES = word_of_nat REPLAY_PLAN_COUNT"

definition TMPFS_INTERNAL_RESERVE_PAGES :: u64 where
  "TMPFS_INTERNAL_RESERVE_PAGES = 1"

definition PROVIDER_PROFILE_ID :: string where
  "PROVIDER_PROFILE_ID = ''eip0045-b4-tmpfs-metadata-provider-v1''"

datatype CapacityTerm =
    EntryCount | PlanContentBytes | RoundedContentBytes | PayloadPages | FinalInodes | InodeLimit
  | ReservePages | AllocatedPages | SizeBytes | RequiredMemoryBytes

datatype ProfileField =
    PageSize | MinimumHardwareMemoryBytes | CgroupMemoryCeilingBytes | MaximumEntries
  | MaximumContentBytesPerEntry

datatype ReplayRole = RustValidatorBuild | JvmValidatorBuild | RustVerifier | JvmVerifier

definition replay_roles :: "ReplayRole list" where
  "replay_roles = [RustValidatorBuild, JvmValidatorBuild, RustVerifier, JvmVerifier]"

fun replay_role_ordinal :: "ReplayRole \<Rightarrow> nat" where
  "replay_role_ordinal RustValidatorBuild = 0"
| "replay_role_ordinal JvmValidatorBuild = 1"
| "replay_role_ordinal RustVerifier = 2"
| "replay_role_ordinal JvmVerifier = 3"

datatype CapacityError =
    InvalidProfileField ProfileField
  | PlanCount nat nat
  | PlanRoleOrder nat ReplayRole ReplayRole
  | PlanProfileDrift ReplayRole
  | PlanEntryLimitExceeded ReplayRole u64 u64
  | EntryContentLimitExceeded ReplayRole nat u64 u64
  | PlanContentLimitExceeded ReplayRole u64 u64
  | AggregateEntryLimitExceeded u64 u64
  | AggregateContentLimitExceeded u64 u64
  | CapacityOverflow CapacityTerm
  | HardwareMemoryAdmission u64 u64
  | CgroupMemoryAdmission u64 u64

record LogicalPlanBounds =
  lb_entries :: u64
  lb_content_bytes_per_entry :: u64
  lb_content_bytes :: u64

definition logical_bounds_try_new ::
  "u64 \<Rightarrow> u64 \<Rightarrow> u64 \<Rightarrow> CapacityError + LogicalPlanBounds" where
  "logical_bounds_try_new maximum_entries maximum_content_bytes_per_entry maximum_content_bytes =
     (if maximum_entries = 0 then Inl (InvalidProfileField MaximumEntries)
      else if maximum_content_bytes_per_entry > maximum_content_bytes
      then Inl (InvalidProfileField MaximumContentBytesPerEntry)
      else Inr \<lparr>lb_entries = maximum_entries,
                lb_content_bytes_per_entry = maximum_content_bytes_per_entry,
                lb_content_bytes = maximum_content_bytes\<rparr>)"

record ProviderCapacityProfile =
  pf_page_size :: u64
  pf_peak_transient_inodes :: u64
  pf_peak_transient_pages :: u64
  pf_minimum_hardware_memory_bytes :: u64
  pf_cgroup_memory_ceiling_bytes :: u64
  pf_process_reserve_bytes :: u64
  pf_logical_plan_bounds :: "LogicalPlanBounds list"
  pf_maximum_aggregate_entries :: u64
  pf_maximum_aggregate_content_bytes :: u64

definition profile_try_new ::
  "ProviderCapacityProfile \<Rightarrow> CapacityError + ProviderCapacityProfile" where
  "profile_try_new parameters =
     (if pf_page_size parameters = 0 then Inl (InvalidProfileField PageSize)
      else if pf_minimum_hardware_memory_bytes parameters = 0
      then Inl (InvalidProfileField MinimumHardwareMemoryBytes)
      else if pf_cgroup_memory_ceiling_bytes parameters = 0
      then Inl (InvalidProfileField CgroupMemoryCeilingBytes)
      else Inr parameters)"

definition logical_bounds :: "ProviderCapacityProfile \<Rightarrow> ReplayRole \<Rightarrow> LogicalPlanBounds" where
  "logical_bounds profile role = pf_logical_plan_bounds profile ! replay_role_ordinal role"

section \<open>Checked arithmetic\<close>

definition cap_add :: "u64 \<Rightarrow> u64 \<Rightarrow> CapacityTerm \<Rightarrow> CapacityError + u64" where
  "cap_add left right term = ok_or (checked_add_word left right) (CapacityOverflow term)"

definition cap_mul :: "u64 \<Rightarrow> u64 \<Rightarrow> CapacityTerm \<Rightarrow> CapacityError + u64" where
  "cap_mul left right term = ok_or (checked_mul_word left right) (CapacityOverflow term)"

definition checked_round_up :: "u64 \<Rightarrow> u64 \<Rightarrow> CapacityTerm \<Rightarrow> CapacityError + u64" where
  "checked_round_up v multiple term =
     (if multiple = 0 then Inl (InvalidProfileField PageSize)
      else let remainder = v mod multiple in
        if remainder = 0 then Inr v else cap_add v (multiple - remainder) term)"

section \<open>One plan\<close>

datatype ReplayEntryCapacity = Directory | RegularFile u64 | SymbolicLink u64

fun entry_content_length :: "ReplayEntryCapacity \<Rightarrow> u64" where
  "entry_content_length Directory = 0"
| "entry_content_length (RegularFile content_length) = content_length"
| "entry_content_length (SymbolicLink content_length) = content_length"

record ReplayPlanCapacity =
  rp_profile :: ProviderCapacityProfile
  rp_role :: ReplayRole
  rp_entry_count :: u64
  rp_content_bytes :: u64
  rp_payload_pages :: u64

fun accumulate_entries ::
  "ProviderCapacityProfile \<Rightarrow> ReplayRole \<Rightarrow> nat \<Rightarrow> ReplayEntryCapacity list \<Rightarrow> u64 \<Rightarrow> u64
     \<Rightarrow> CapacityError + u64 \<times> u64" where
  "accumulate_entries profile role entry_index [] content_bytes payload_pages =
     Inr (content_bytes, payload_pages)"
| "accumulate_entries profile role entry_index (entry # entries) content_bytes payload_pages =
     (let bounds = logical_bounds profile role;
          content_length = entry_content_length entry in
      if content_length > lb_content_bytes_per_entry bounds
      then Inl (EntryContentLimitExceeded role entry_index content_length
                  (lb_content_bytes_per_entry bounds))
      else
        and_then (cap_add content_bytes content_length PlanContentBytes) (\<lambda>content_bytes.
        if content_bytes > lb_content_bytes bounds
        then Inl (PlanContentLimitExceeded role content_bytes (lb_content_bytes bounds))
        else
          and_then (checked_round_up content_length (pf_page_size profile) RoundedContentBytes)
            (\<lambda>rounded.
          and_then (cap_add payload_pages (rounded div pf_page_size profile) PayloadPages)
            (\<lambda>payload_pages.
          accumulate_entries profile role (entry_index + 1) entries content_bytes payload_pages))))"

definition plan_try_from_entries ::
  "ProviderCapacityProfile \<Rightarrow> ReplayRole \<Rightarrow> ReplayEntryCapacity list
     \<Rightarrow> CapacityError + ReplayPlanCapacity" where
  "plan_try_from_entries profile role entries =
     (let bounds = logical_bounds profile role in
      and_then (ok_or (if length entries < 2 ^ 64 then Some (word_of_nat (length entries)) else None)
                  (CapacityOverflow EntryCount)) (\<lambda>entry_count.
      if entry_count > lb_entries bounds
      then Inl (PlanEntryLimitExceeded role entry_count (lb_entries bounds))
      else
        and_then (accumulate_entries profile role 0 entries 0 0) (\<lambda>(content_bytes, payload_pages).
        Inr \<lparr>rp_profile = profile, rp_role = role, rp_entry_count = entry_count,
             rp_content_bytes = content_bytes, rp_payload_pages = payload_pages\<rparr>)))"

section \<open>Four plans\<close>

record CapacityTerms =
  ct_profile :: ProviderCapacityProfile
  ct_entry_count :: u64
  ct_final_inodes :: u64
  ct_inode_limit :: u64
  ct_payload_pages :: u64
  ct_reserve_pages :: u64
  ct_size_bytes :: u64
  ct_required_memory_bytes :: u64

fun aggregate_loop ::
  "ProviderCapacityProfile \<Rightarrow> nat \<Rightarrow> (ReplayPlanCapacity \<times> ReplayRole) list \<Rightarrow> u64 \<Rightarrow> u64 \<Rightarrow> u64
     \<Rightarrow> CapacityError + u64 \<times> u64 \<times> u64" where
  "aggregate_loop profile index [] entry_count content_bytes payload_pages =
     Inr (entry_count, content_bytes, payload_pages)"
| "aggregate_loop profile index ((plan, expected_role) # rest) entry_count content_bytes
     payload_pages =
     (if rp_role plan \<noteq> expected_role then Inl (PlanRoleOrder index expected_role (rp_role plan))
      else if rp_profile plan \<noteq> profile then Inl (PlanProfileDrift (rp_role plan))
      else let bounds = logical_bounds profile (rp_role plan) in
        if rp_entry_count plan > lb_entries bounds
        then Inl (PlanEntryLimitExceeded (rp_role plan) (rp_entry_count plan) (lb_entries bounds))
        else if rp_content_bytes plan > lb_content_bytes bounds
        then Inl (PlanContentLimitExceeded (rp_role plan) (rp_content_bytes plan)
                    (lb_content_bytes bounds))
        else
          and_then (cap_add entry_count (rp_entry_count plan) EntryCount) (\<lambda>entry_count.
          and_then (cap_add content_bytes (rp_content_bytes plan) PlanContentBytes) (\<lambda>content_bytes.
          and_then (cap_add payload_pages (rp_payload_pages plan) PayloadPages) (\<lambda>payload_pages.
          aggregate_loop profile (index + 1) rest entry_count content_bytes payload_pages))))"

definition aggregate_replay_plans ::
  "ProviderCapacityProfile \<Rightarrow> ReplayPlanCapacity list \<Rightarrow> CapacityError + u64 \<times> u64" where
  "aggregate_replay_plans profile plans =
     (if length plans \<noteq> REPLAY_PLAN_COUNT then Inl (PlanCount (length plans) REPLAY_PLAN_COUNT)
      else
        and_then (aggregate_loop profile 0 (zip plans replay_roles) 0 0 0)
          (\<lambda>(entry_count, content_bytes, payload_pages).
        if entry_count > pf_maximum_aggregate_entries profile
        then Inl (AggregateEntryLimitExceeded entry_count (pf_maximum_aggregate_entries profile))
        else if content_bytes > pf_maximum_aggregate_content_bytes profile
        then Inl (AggregateContentLimitExceeded content_bytes
                    (pf_maximum_aggregate_content_bytes profile))
        else Inr (entry_count, payload_pages)))"

definition admit_memory :: "ProviderCapacityProfile \<Rightarrow> u64 \<Rightarrow> CapacityError + unit" where
  "admit_memory profile required =
     (if required > pf_minimum_hardware_memory_bytes profile
      then Inl (HardwareMemoryAdmission required (pf_minimum_hardware_memory_bytes profile))
      else if required > pf_cgroup_memory_ceiling_bytes profile
      then Inl (CgroupMemoryAdmission required (pf_cgroup_memory_ceiling_bytes profile))
      else Inr ())"

definition derive_capacity_terms ::
  "ProviderCapacityProfile \<Rightarrow> ReplayPlanCapacity list \<Rightarrow> CapacityError + CapacityTerms" where
  "derive_capacity_terms profile plans =
     and_then (aggregate_replay_plans profile plans) (\<lambda>(entry_count, payload_pages).
     and_then (cap_add MOUNT_ROOT_INODES ROLE_ROOT_INODES FinalInodes) (\<lambda>permanent_roots.
     and_then (cap_add permanent_roots entry_count FinalInodes) (\<lambda>final_inodes.
     and_then (cap_add final_inodes (pf_peak_transient_inodes profile) InodeLimit) (\<lambda>inode_limit.
     and_then (cap_add final_inodes (pf_peak_transient_pages profile) ReservePages) (\<lambda>transient.
     and_then (cap_add transient TMPFS_INTERNAL_RESERVE_PAGES ReservePages) (\<lambda>reserve_pages.
     and_then (cap_add payload_pages reserve_pages AllocatedPages) (\<lambda>allocated_pages.
     and_then (cap_mul allocated_pages (pf_page_size profile) SizeBytes) (\<lambda>size_bytes.
     and_then (cap_add size_bytes (pf_process_reserve_bytes profile) RequiredMemoryBytes)
       (\<lambda>required_memory_bytes.
     and_then (admit_memory profile required_memory_bytes) (\<lambda>_.
     Inr \<lparr>ct_profile = profile, ct_entry_count = entry_count, ct_final_inodes = final_inodes,
          ct_inode_limit = inode_limit, ct_payload_pages = payload_pages,
          ct_reserve_pages = reserve_pages, ct_size_bytes = size_bytes,
          ct_required_memory_bytes = required_memory_bytes\<rparr>))))))))))"

section \<open>The mount request\<close>

definition TMPFS_FILESYSTEM_TYPE :: string where
  "TMPFS_FILESYSTEM_TYPE = ''tmpfs''"

definition TMPFS_ROOT_MODE :: u16 where
  "TMPFS_ROOT_MODE = 448"

definition TMPFS_INNER_OWNER :: u32 where
  "TMPFS_INNER_OWNER = 0"

datatype MountVfsFlag = ReadWrite | NoSuid | NoDev | NoExec

definition FIXED_MOUNT_VFS_FLAGS :: "MountVfsFlag list" where
  "FIXED_MOUNT_VFS_FLAGS = [ReadWrite, NoSuid, NoDev, NoExec]"

datatype MountDataOption =
    OptionSizeBytes u64 | OptionInodeLimit u64 | OptionMode u16 | OptionUid u32 | OptionGid u32

datatype MountRequestError =
    CapacityFailure CapacityError | FilesystemTypeDrift | VfsFlagsDrift | DataOptionsDrift
  | RootModeDrift | InnerOwnerDrift | CapacityDrift

record MountRequest =
  mr_filesystem_type :: string
  mr_vfs_flags :: "MountVfsFlag list"
  mr_data_options :: "MountDataOption list"
  mr_root_mode :: u16
  mr_inner_owner_uid :: u32
  mr_inner_owner_gid :: u32
  mr_capacity :: CapacityTerms
  mr_plan_bindings :: "ReplayPlanCapacity list"

definition fixed_mount_data_options :: "CapacityTerms \<Rightarrow> MountDataOption list" where
  "fixed_mount_data_options capacity =
     [OptionSizeBytes (ct_size_bytes capacity), OptionInodeLimit (ct_inode_limit capacity),
      OptionMode TMPFS_ROOT_MODE, OptionUid TMPFS_INNER_OWNER, OptionGid TMPFS_INNER_OWNER]"

definition validate_canonical :: "MountRequest \<Rightarrow> MountRequestError + unit" where
  "validate_canonical r =
     and_then (map_err CapacityFailure
                 (derive_capacity_terms (ct_profile (mr_capacity r)) (mr_plan_bindings r)))
       (\<lambda>capacity.
     if mr_capacity r \<noteq> capacity then Inl CapacityDrift
     else if mr_filesystem_type r \<noteq> TMPFS_FILESYSTEM_TYPE then Inl FilesystemTypeDrift
     else if mr_vfs_flags r \<noteq> FIXED_MOUNT_VFS_FLAGS then Inl VfsFlagsDrift
     else if mr_root_mode r \<noteq> TMPFS_ROOT_MODE then Inl RootModeDrift
     else if mr_inner_owner_uid r \<noteq> TMPFS_INNER_OWNER \<or> mr_inner_owner_gid r \<noteq> TMPFS_INNER_OWNER
     then Inl InnerOwnerDrift
     else if mr_data_options r \<noteq> fixed_mount_data_options capacity then Inl DataOptionsDrift
     else Inr ())"

definition mount_request_try_from_replay_plans ::
  "ProviderCapacityProfile \<Rightarrow> ReplayPlanCapacity list \<Rightarrow> MountRequestError + MountRequest" where
  "mount_request_try_from_replay_plans profile plans =
     and_then (map_err CapacityFailure (derive_capacity_terms profile plans)) (\<lambda>capacity.
     and_then (ensure (length plans = REPLAY_PLAN_COUNT)
                 (CapacityFailure (PlanCount (length plans) REPLAY_PLAN_COUNT))) (\<lambda>_.
     let request = \<lparr>mr_filesystem_type = TMPFS_FILESYSTEM_TYPE,
           mr_vfs_flags = FIXED_MOUNT_VFS_FLAGS,
           mr_data_options = fixed_mount_data_options capacity,
           mr_root_mode = TMPFS_ROOT_MODE,
           mr_inner_owner_uid = TMPFS_INNER_OWNER,
           mr_inner_owner_gid = TMPFS_INNER_OWNER,
           mr_capacity = capacity,
           mr_plan_bindings = plans\<rparr> in
     and_then (validate_canonical request) (\<lambda>_. Inr request)))"

text \<open>\<open>format!\<close> prints an unsigned integer in its shortest decimal spelling.\<close>

definition canonical_data_options :: "MountRequest \<Rightarrow> string" where
  "canonical_data_options r =
     ''size='' @ decimal_digits (unat (ct_size_bytes (mr_capacity r)))
     @ '',nr_inodes='' @ decimal_digits (unat (ct_inode_limit (mr_capacity r)))
     @ '',mode=0700,uid=0,gid=0''"

section \<open>The counters as natural numbers\<close>

definition ceil_div :: "nat \<Rightarrow> nat \<Rightarrow> nat" where
  "ceil_div n p = (n + p - 1) div p"

lemma cap_add_eq_Inr [simp]: "cap_add a b t = Inr c \<longleftrightarrow> unat c = unat a + unat b"
  by (simp add: cap_add_def)

lemma cap_mul_eq_Inr [simp]: "cap_mul a b t = Inr c \<longleftrightarrow> unat c = unat a * unat b"
  by (simp add: cap_mul_def)

lemma ceil_div_exact:
  assumes "0 < p" "n mod p = 0"
  shows "ceil_div n p * p = n"
proof -
  obtain k where n: "n = p * k" using assms(2) by (auto simp: mod_eq_0_iff_dvd)
  have "n + p - 1 = (p - 1) + p * k" using n assms(1) by (simp add: Nat.add_diff_assoc)
  then have "ceil_div n p = k" using assms(1) by (simp only: ceil_div_def div_mult_self2) simp
  then show ?thesis using n by simp
qed

lemma ceil_div_partial:
  assumes "0 < p" "n mod p \<noteq> 0"
  shows "ceil_div n p * p = n + (p - n mod p)"
proof -
  define q r where "q = n div p" and "r = n mod p"
  have n: "n = p * q + r" and rp: "0 < r" "r < p"
    using assms by (simp_all add: q_def r_def)
  have "n + p - 1 = (r - 1) + p * (q + 1)" using n rp by (simp add: algebra_simps)
  then have "ceil_div n p = q + 1" using rp by (simp only: ceil_div_def div_mult_self2) simp
  then show ?thesis using n rp by (simp add: algebra_simps flip: r_def)
qed

lemma checked_round_up_eq_Inr:
  assumes "p \<noteq> 0"
  shows "checked_round_up v p t = Inr r \<longleftrightarrow> unat r = ceil_div (unat v) (unat p) * unat p"
proof -
  have p: "0 < unat p" using assms by (simp add: unat_gt_0)
  have rem: "v mod p = 0 \<longleftrightarrow> unat v mod unat p = 0"
    by (metis unat_eq_zero unat_mod)
  have less: "unat (v mod p) < unat p" using p by (simp add: unat_mod)
  show ?thesis
  proof (cases "v mod p = 0")
    case True
    then have "ceil_div (unat v) (unat p) * unat p = unat v" using p rem by (simp add: ceil_div_exact)
    with True assms show ?thesis by (auto simp: checked_round_up_def word_unat_eq_iff)
  next
    case False
    then have "ceil_div (unat v) (unat p) * unat p = unat v + (unat p - unat v mod unat p)"
      using p rem by (simp add: ceil_div_partial)
    moreover have "unat (p - v mod p) = unat p - unat v mod unat p"
      using less by (simp add: unat_sub word_le_nat_alt unat_mod)
    ultimately show ?thesis using False assms by (simp add: checked_round_up_def Let_def)
  qed
qed

lemma rounded_pages:
  "p \<noteq> 0 \<Longrightarrow> unat r = k * unat p \<Longrightarrow> unat (r div p) = k"
  by (simp add: unat_div unat_gt_0)

text \<open>What the projection counts, over natural numbers.\<close>

definition content_sum :: "ReplayEntryCapacity list \<Rightarrow> nat" where
  "content_sum entries = sum_list (map (\<lambda>e. unat (entry_content_length e)) entries)"

definition page_sum :: "nat \<Rightarrow> ReplayEntryCapacity list \<Rightarrow> nat" where
  "page_sum page entries = sum_list (map (\<lambda>e. ceil_div (unat (entry_content_length e)) page) entries)"

definition entry_fits :: "ProviderCapacityProfile \<Rightarrow> ReplayRole \<Rightarrow> ReplayEntryCapacity \<Rightarrow> bool" where
  "entry_fits profile role e \<longleftrightarrow>
     entry_content_length e \<le> lb_content_bytes_per_entry (logical_bounds profile role)
     \<and> ceil_div (unat (entry_content_length e)) (unat (pf_page_size profile))
         * unat (pf_page_size profile) < 2 ^ 64"

lemma accumulate_entries_eq_Inr:
  assumes page: "pf_page_size profile \<noteq> 0"
    and "unat c \<le> unat (lb_content_bytes (logical_bounds profile role))"
  shows "accumulate_entries profile role i entries c p = Inr (c', p') \<longleftrightarrow>
    list_all (entry_fits profile role) entries
    \<and> unat c' = unat c + content_sum entries
    \<and> unat c' \<le> unat (lb_content_bytes (logical_bounds profile role))
    \<and> unat p' = unat p + page_sum (unat (pf_page_size profile)) entries"
  using assms(2)
proof (induction entries arbitrary: i c p)
  case Nil
  then show ?case by (auto simp: content_sum_def page_sum_def word_unat_eq_iff)
next
  case (Cons e es)
  let ?b = "logical_bounds profile role"
  let ?l = "unat (entry_content_length e)" and ?P = "unat (pf_page_size profile)"
  have sums: "content_sum (e # es) = ?l + content_sum es"
    "page_sum ?P (e # es) = ceil_div ?l ?P + page_sum ?P es"
    by (simp_all add: content_sum_def page_sum_def)
  have IH: "accumulate_entries profile role (i + 1) es (word_of_nat (unat c + ?l))
        (word_of_nat (unat p + ceil_div ?l ?P)) = Inr (c', p') \<longleftrightarrow>
      list_all (entry_fits profile role) es \<and> unat c' = unat c + ?l + content_sum es
      \<and> unat c' \<le> unat (lb_content_bytes ?b) \<and> unat p' = unat p + ceil_div ?l ?P + page_sum ?P es"
    if "unat c + ?l < 2 ^ 64" "unat c + ?l \<le> unat (lb_content_bytes ?b)"
      "unat p + ceil_div ?l ?P < 2 ^ 64"
    using Cons.IH [of "word_of_nat (unat c + ?l)"] that by (simp add: unat_of_nat del: of_nat_add)
  have "accumulate_entries profile role i (e # es) c p = Inr (c', p') \<longleftrightarrow>
      ?l \<le> unat (lb_content_bytes_per_entry ?b)
      \<and> (\<exists>c1. unat c1 = unat c + ?l \<and> unat c1 \<le> unat (lb_content_bytes ?b)
         \<and> (\<exists>r. unat r = ceil_div ?l ?P * ?P
            \<and> (\<exists>p1. unat p1 = unat p + unat (r div pf_page_size profile)
               \<and> accumulate_entries profile role (i + 1) es c1 p1 = Inr (c', p'))))"
    by (simp add: Let_def checked_round_up_eq_Inr [OF page] word_less_nat_alt not_less)
      (use not_less in blast)
  also have "\<dots> \<longleftrightarrow> ?l \<le> unat (lb_content_bytes_per_entry ?b)
      \<and> unat c + ?l < 2 ^ 64 \<and> unat c + ?l \<le> unat (lb_content_bytes ?b)
      \<and> ceil_div ?l ?P * ?P < 2 ^ 64 \<and> unat p + ceil_div ?l ?P < 2 ^ 64
      \<and> accumulate_entries profile role (i + 1) es (word_of_nat (unat c + ?l))
          (word_of_nat (unat p + ceil_div ?l ?P)) = Inr (c', p')"
    unfolding ex_u64
    by (simp add: rounded_pages [OF page, where k = "ceil_div ?l ?P"] unat_of_nat ex_u64
        del: of_nat_add of_nat_mult cong: conj_cong)
  also have "\<dots> \<longleftrightarrow> list_all (entry_fits profile role) (e # es)
    \<and> unat c' = unat c + content_sum (e # es) \<and> unat c' \<le> unat (lb_content_bytes ?b)
    \<and> unat p' = unat p + page_sum ?P (e # es)"
    unfolding sums using IH unat_u64_bound [of c'] unat_u64_bound [of p']
    by (auto simp: entry_fits_def [of _ _ e] word_le_nat_alt simp del: of_nat_add)
  finally show ?case .
qed

lemma ceil_div_le: "0 < p \<Longrightarrow> ceil_div n p \<le> n"
proof -
  assume p: "0 < p"
  have "n + p - 1 < (n + 1) * p" using p by (cases p) (simp_all add: algebra_simps)
  then have "(n + p - 1) div p < n + 1" using p by (simp add: div_less_iff_less_mult)
  then show ?thesis by (simp add: ceil_div_def)
qed

lemma ceil_div_covers: "0 < p \<Longrightarrow> n \<le> ceil_div n p * p"
  by (cases "n mod p = 0") (simp add: ceil_div_exact, metis ceil_div_partial le_add1)

lemma page_sum_le: "0 < p \<Longrightarrow> page_sum p es \<le> content_sum es"
  by (induction es) (simp_all add: page_sum_def content_sum_def add_mono ceil_div_le)

lemma page_sum_covers: "0 < p \<Longrightarrow> content_sum es \<le> page_sum p es * p"
proof (induction es)
  case (Cons e es)
  have "unat (entry_content_length e) \<le> ceil_div (unat (entry_content_length e)) p * p"
    using Cons.prems by (rule ceil_div_covers)
  then show ?case using Cons by (simp add: page_sum_def content_sum_def algebra_simps)
qed (simp add: page_sum_def content_sum_def)

lemma plan_try_from_entries_eq_Inr:
  assumes page: "pf_page_size profile \<noteq> 0"
  shows "plan_try_from_entries profile role entries = Inr plan \<longleftrightarrow>
    length entries \<le> unat (lb_entries (logical_bounds profile role))
    \<and> list_all (entry_fits profile role) entries
    \<and> content_sum entries \<le> unat (lb_content_bytes (logical_bounds profile role))
    \<and> rp_profile plan = profile \<and> rp_role plan = role
    \<and> unat (rp_entry_count plan) = length entries
    \<and> unat (rp_content_bytes plan) = content_sum entries
    \<and> unat (rp_payload_pages plan) = page_sum (unat (pf_page_size profile)) entries"
proof -
  have count: "(word_of_nat (length entries) :: u64) \<le> lb_entries (logical_bounds profile role)
      \<longleftrightarrow> length entries \<le> unat (lb_entries (logical_bounds profile role))"
    if "length entries < 2 ^ 64"
    using that by (simp add: word_le_nat_alt unat_of_nat)
  have bound: "length entries < 2 ^ 64"
    if "length entries \<le> unat (lb_entries (logical_bounds profile role))"
    using that unat_u64_bound [of "lb_entries (logical_bounds profile role)"] by simp
  have word: "w = word_of_nat (length entries) \<longleftrightarrow> unat w = length entries"
    if "length entries < 2 ^ 64" for w :: u64
    using that by (auto simp: word_unat_eq_iff unat_of_nat)
  have loop: "accumulate_entries profile role 0 entries 0 0 = Inr (cb, pp) \<longleftrightarrow>
      list_all (entry_fits profile role) entries \<and> unat cb = content_sum entries
      \<and> content_sum entries \<le> unat (lb_content_bytes (logical_bounds profile role))
      \<and> unat pp = page_sum (unat (pf_page_size profile)) entries" for cb pp
    by (subst accumulate_entries_eq_Inr [OF page]) auto
  show ?thesis
  proof (cases "length entries < 2 ^ 64")
    case True
    show ?thesis
      using True count [OF True] word [OF True, symmetric]
      by (cases plan) (auto simp: plan_try_from_entries_def Let_def loop not_le [symmetric] split: if_splits)
  next
    case False
    then show ?thesis using bound by (auto simp: plan_try_from_entries_def)
  qed
qed

section \<open>The four plans as natural numbers\<close>

definition plan_fits :: "ProviderCapacityProfile \<Rightarrow> ReplayPlanCapacity \<times> ReplayRole \<Rightarrow> bool" where
  "plan_fits profile = (\<lambda>(plan, role).
     rp_role plan = role \<and> rp_profile plan = profile
     \<and> rp_entry_count plan \<le> lb_entries (logical_bounds profile role)
     \<and> rp_content_bytes plan \<le> lb_content_bytes (logical_bounds profile role))"

definition total :: "(ReplayPlanCapacity \<Rightarrow> u64) \<Rightarrow> ReplayPlanCapacity list \<Rightarrow> nat" where
  "total f plans = sum_list (map (\<lambda>p. unat (f p)) plans)"

lemma aggregate_loop_eq_Inr:
  assumes "length plans = length roles"
  shows "aggregate_loop profile i (zip plans roles) a b c = Inr (a', b', c') \<longleftrightarrow>
    list_all (plan_fits profile) (zip plans roles)
    \<and> unat a' = unat a + total rp_entry_count plans
    \<and> unat b' = unat b + total rp_content_bytes plans
    \<and> unat c' = unat c + total rp_payload_pages plans"
  using assms
proof (induction plans roles arbitrary: i a b c rule: list_induct2)
  case Nil
  then show ?case by (auto simp: total_def word_unat_eq_iff)
next
  case (Cons p ps r rs)
  have "aggregate_loop profile i (zip (p # ps) (r # rs)) a b c = Inr (a', b', c') \<longleftrightarrow>
      plan_fits profile (p, r)
      \<and> (\<exists>x. unat x = unat a + unat (rp_entry_count p)
         \<and> (\<exists>y. unat y = unat b + unat (rp_content_bytes p)
            \<and> (\<exists>z. unat z = unat c + unat (rp_payload_pages p)
               \<and> aggregate_loop profile (i + 1) (zip ps rs) x y z = Inr (a', b', c'))))"
    by (auto simp: plan_fits_def Let_def not_less not_le [symmetric])
  also have "\<dots> \<longleftrightarrow> list_all (plan_fits profile) (zip (p # ps) (r # rs))
    \<and> unat a' = unat a + total rp_entry_count (p # ps)
    \<and> unat b' = unat b + total rp_content_bytes (p # ps)
    \<and> unat c' = unat c + total rp_payload_pages (p # ps)"
    unfolding ex_u64 Cons.IH
    using unat_u64_bound [of a'] unat_u64_bound [of b'] unat_u64_bound [of c']
    by (auto simp: total_def unat_of_nat simp del: of_nat_add)
  finally show ?case .
qed

lemma aggregate_replay_plans_eq_Inr:
  "aggregate_replay_plans profile plans = Inr (n, pages) \<longleftrightarrow>
     length plans = 4 \<and> list_all (plan_fits profile) (zip plans replay_roles)
     \<and> unat n = total rp_entry_count plans \<and> unat pages = total rp_payload_pages plans
     \<and> total rp_entry_count plans \<le> unat (pf_maximum_aggregate_entries profile)
     \<and> total rp_content_bytes plans \<le> unat (pf_maximum_aggregate_content_bytes profile)"
proof (cases "length plans = 4")
  case True
  then have "length plans = length replay_roles" by (simp add: replay_roles_def)
  note loop = aggregate_loop_eq_Inr [OF this, of profile 0 0 0 0]
  have "aggregate_replay_plans profile plans = Inr (n, pages) \<longleftrightarrow>
      n \<le> pf_maximum_aggregate_entries profile
      \<and> (\<exists>b. unat b = total rp_content_bytes plans
         \<and> b \<le> pf_maximum_aggregate_content_bytes profile
         \<and> aggregate_loop profile 0 (zip plans replay_roles) 0 0 0 = Inr (n, b, pages))"
    using True loop
    by (auto simp: aggregate_replay_plans_def REPLAY_PLAN_COUNT_def not_le [symmetric] split: if_splits)
  then show ?thesis
    using True unat_u64_bound [of "pf_maximum_aggregate_content_bytes profile"]
    unfolding loop by (auto simp: ex_u64 word_le_nat_alt unat_of_nat)
qed (simp add: aggregate_replay_plans_def REPLAY_PLAN_COUNT_def)

section \<open>Terms and requests\<close>

lemma admit_memory_eq_Inr [simp]:
  "admit_memory profile required = Inr u \<longleftrightarrow>
     required \<le> pf_minimum_hardware_memory_bytes profile
     \<and> required \<le> pf_cgroup_memory_ceiling_bytes profile"
  by (auto simp: admit_memory_def)

text \<open>The capacity formula over natural numbers: one page for every inode and for the reserve, the
  payload pages and the transient pages.\<close>

definition capacity_pages :: "ProviderCapacityProfile \<Rightarrow> ReplayPlanCapacity list \<Rightarrow> nat" where
  "capacity_pages profile plans =
     total rp_payload_pages plans
     + (5 + total rp_entry_count plans + unat (pf_peak_transient_pages profile) + 1)"

definition terms_spec ::
  "ProviderCapacityProfile \<Rightarrow> ReplayPlanCapacity list \<Rightarrow> CapacityTerms \<Rightarrow> bool" where
  "terms_spec profile plans t \<longleftrightarrow>
     ct_profile t = profile
     \<and> unat (ct_entry_count t) = total rp_entry_count plans
     \<and> unat (ct_final_inodes t) = 5 + total rp_entry_count plans
     \<and> unat (ct_inode_limit t) =
         5 + total rp_entry_count plans + unat (pf_peak_transient_inodes profile)
     \<and> unat (ct_payload_pages t) = total rp_payload_pages plans
     \<and> unat (ct_reserve_pages t) =
         5 + total rp_entry_count plans + unat (pf_peak_transient_pages profile) + 1
     \<and> unat (ct_size_bytes t) = capacity_pages profile plans * unat (pf_page_size profile)
     \<and> unat (ct_required_memory_bytes t) =
         unat (ct_size_bytes t) + unat (pf_process_reserve_bytes profile)"

definition plans_admissible :: "ProviderCapacityProfile \<Rightarrow> ReplayPlanCapacity list \<Rightarrow> bool" where
  "plans_admissible profile plans \<longleftrightarrow>
     length plans = 4 \<and> list_all (plan_fits profile) (zip plans replay_roles)
     \<and> total rp_entry_count plans \<le> unat (pf_maximum_aggregate_entries profile)
     \<and> total rp_content_bytes plans \<le> unat (pf_maximum_aggregate_content_bytes profile)"

lemma role_root_inodes: "unat ROLE_ROOT_INODES = 4"
  unfolding ROLE_ROOT_INODES_def REPLAY_PLAN_COUNT_def of_nat_numeral by simp

lemma derive_capacity_terms_eq_Inr:
  assumes "pf_page_size profile \<noteq> 0"
  shows "derive_capacity_terms profile plans = Inr t \<longleftrightarrow>
    plans_admissible profile plans \<and> terms_spec profile plans t
    \<and> ct_required_memory_bytes t \<le> pf_minimum_hardware_memory_bytes profile
    \<and> ct_required_memory_bytes t \<le> pf_cgroup_memory_ceiling_bytes profile"
proof
  assume "derive_capacity_terms profile plans = Inr t"
  then show "plans_admissible profile plans \<and> terms_spec profile plans t
    \<and> ct_required_memory_bytes t \<le> pf_minimum_hardware_memory_bytes profile
    \<and> ct_required_memory_bytes t \<le> pf_cgroup_memory_ceiling_bytes profile"
    by (auto simp: derive_capacity_terms_def aggregate_replay_plans_eq_Inr plans_admissible_def
        terms_spec_def capacity_pages_def MOUNT_ROOT_INODES_def role_root_inodes
        TMPFS_INTERNAL_RESERVE_PAGES_def algebra_simps)
next
  assume R: "plans_admissible profile plans \<and> terms_spec profile plans t
    \<and> ct_required_memory_bytes t \<le> pf_minimum_hardware_memory_bytes profile
    \<and> ct_required_memory_bytes t \<le> pf_cgroup_memory_ceiling_bytes profile"
  then have spec: "terms_spec profile plans t" by simp
  have aggregate: "aggregate_replay_plans profile plans = Inr (ct_entry_count t, ct_payload_pages t)"
    using R by (simp add: aggregate_replay_plans_eq_Inr plans_admissible_def terms_spec_def)
  have "0 < unat (pf_page_size profile)" using assms by (simp add: unat_gt_0)
  then have "capacity_pages profile plans \<le> capacity_pages profile plans * unat (pf_page_size profile)"
    by simp
  moreover have "capacity_pages profile plans * unat (pf_page_size profile) < 2 ^ 64"
    using spec unat_u64_bound [of "ct_size_bytes t"] by (simp add: terms_spec_def)
  ultimately have "capacity_pages profile plans < 2 ^ 64" by (rule le_less_trans)
  then obtain allocated :: u64 where allocated: "unat allocated = capacity_pages profile plans"
    using ex_u64 [of "capacity_pages profile plans" "\<lambda>_. True"] by blast
  have "5 + total rp_entry_count plans + unat (pf_peak_transient_pages profile) < 2 ^ 64"
    using allocated unat_u64_bound [of allocated] by (simp add: capacity_pages_def)
  then obtain transient :: u64 where
    transient: "unat transient = 5 + total rp_entry_count plans + unat (pf_peak_transient_pages profile)"
    using ex_u64 [of "5 + total rp_entry_count plans + unat (pf_peak_transient_pages profile)"
        "\<lambda>_. True"] by blast
  have sums: "cap_add MOUNT_ROOT_INODES ROLE_ROOT_INODES FinalInodes = Inr 5"
    "cap_add 5 (ct_entry_count t) FinalInodes = Inr (ct_final_inodes t)"
    "cap_add (ct_final_inodes t) (pf_peak_transient_inodes profile) InodeLimit = Inr (ct_inode_limit t)"
    "cap_add (ct_final_inodes t) (pf_peak_transient_pages profile) ReservePages = Inr transient"
    "cap_add transient TMPFS_INTERNAL_RESERVE_PAGES ReservePages = Inr (ct_reserve_pages t)"
    "cap_add (ct_payload_pages t) (ct_reserve_pages t) AllocatedPages = Inr allocated"
    "cap_mul allocated (pf_page_size profile) SizeBytes = Inr (ct_size_bytes t)"
    "cap_add (ct_size_bytes t) (pf_process_reserve_bytes profile) RequiredMemoryBytes
      = Inr (ct_required_memory_bytes t)"
    using spec allocated transient
    by (simp_all add: terms_spec_def capacity_pages_def MOUNT_ROOT_INODES_def role_root_inodes
        TMPFS_INTERNAL_RESERVE_PAGES_def)
  have admit: "admit_memory profile (ct_required_memory_bytes t) = Inr ()" using R by simp
  have "\<lparr>ct_profile = profile, ct_entry_count = ct_entry_count t, ct_final_inodes = ct_final_inodes t,
      ct_inode_limit = ct_inode_limit t, ct_payload_pages = ct_payload_pages t,
      ct_reserve_pages = ct_reserve_pages t, ct_size_bytes = ct_size_bytes t,
      ct_required_memory_bytes = ct_required_memory_bytes t\<rparr> = t"
    using spec by (cases t) (simp add: terms_spec_def)
  then show "derive_capacity_terms profile plans = Inr t"
    unfolding derive_capacity_terms_def aggregate
    by (simp add: sums admit del: and_then_eq_Inr cap_add_eq_Inr cap_mul_eq_Inr)
qed

lemma mount_request_eq_Inr:
  "mount_request_try_from_replay_plans profile plans = Inr r \<longleftrightarrow>
     (\<exists>t. derive_capacity_terms profile plans = Inr t
        \<and> r = \<lparr>mr_filesystem_type = ''tmpfs'', mr_vfs_flags = [ReadWrite, NoSuid, NoDev, NoExec],
               mr_data_options = fixed_mount_data_options t, mr_root_mode = 448,
               mr_inner_owner_uid = 0, mr_inner_owner_gid = 0, mr_capacity = t,
               mr_plan_bindings = plans\<rparr>)"
proof -
  have "ct_profile t = profile \<and> length plans = 4" if "derive_capacity_terms profile plans = Inr t" for t
    using that by (auto simp: derive_capacity_terms_def aggregate_replay_plans_eq_Inr)
  then show ?thesis
    by (auto simp: mount_request_try_from_replay_plans_def validate_canonical_def Let_def
        TMPFS_FILESYSTEM_TYPE_def FIXED_MOUNT_VFS_FLAGS_def TMPFS_ROOT_MODE_def
        TMPFS_INNER_OWNER_def REPLAY_PLAN_COUNT_def)
qed

section \<open>A sample profile\<close>

definition sample_profile :: ProviderCapacityProfile where
  "sample_profile =
     \<lparr>pf_page_size = 4096, pf_peak_transient_inodes = 2, pf_peak_transient_pages = 3,
      pf_minimum_hardware_memory_bytes = 1000000, pf_cgroup_memory_ceiling_bytes = 900000,
      pf_process_reserve_bytes = 100,
      pf_logical_plan_bounds = replicate 4
        \<lparr>lb_entries = 5, lb_content_bytes_per_entry = 6000, lb_content_bytes = 20000\<rparr>,
      pf_maximum_aggregate_entries = 10, pf_maximum_aggregate_content_bytes = 50000\<rparr>"

definition sample_plan :: "ReplayRole \<Rightarrow> ReplayPlanCapacity" where
  "sample_plan role =
     \<lparr>rp_profile = sample_profile, rp_role = role, rp_entry_count = 2, rp_content_bytes = 5000,
      rp_payload_pages = 2\<rparr>"

definition sample_terms :: CapacityTerms where
  "sample_terms =
     \<lparr>ct_profile = sample_profile, ct_entry_count = 8, ct_final_inodes = 13, ct_inode_limit = 15,
      ct_payload_pages = 8, ct_reserve_pages = 17, ct_size_bytes = 102400,
      ct_required_memory_bytes = 102500\<rparr>"

lemma sample_profile_valid: "profile_try_new sample_profile = Inr sample_profile"
  by (simp add: profile_try_new_def sample_profile_def)

lemma sample_bounds: "logical_bounds sample_profile role =
    \<lparr>lb_entries = 5, lb_content_bytes_per_entry = 6000, lb_content_bytes = 20000\<rparr>"
  by (cases role) (simp_all add: logical_bounds_def sample_profile_def)

lemma sample_page: "pf_page_size sample_profile = 4096"
  by (simp add: sample_profile_def)

lemma sample_entries_fit:
  "list_all (entry_fits sample_profile role) [Directory, RegularFile 5000]
    \<and> content_sum [Directory, RegularFile 5000] = 5000
    \<and> page_sum 4096 [Directory, RegularFile 5000] = 2"
  by (simp add: entry_fits_def sample_bounds sample_page ceil_div_def content_sum_def page_sum_def)

lemma sample_plan_projected:
  "plan_try_from_entries sample_profile role [Directory, RegularFile 5000] = Inr (sample_plan role)"
  using sample_entries_fit
  by (simp add: plan_try_from_entries_eq_Inr sample_page sample_bounds sample_plan_def)

lemma sample_terms_spec:
  "plans_admissible sample_profile (map sample_plan replay_roles)"
  "terms_spec sample_profile (map sample_plan replay_roles) sample_terms"
  by (simp_all add: plans_admissible_def replay_roles_def plan_fits_def sample_plan_def sample_bounds
      total_def terms_spec_def capacity_pages_def sample_terms_def)
    (simp_all add: sample_profile_def)

lemma sample_terms_derived:
  "derive_capacity_terms sample_profile (map sample_plan replay_roles) = Inr sample_terms"
  using sample_terms_spec
  by (simp add: derive_capacity_terms_eq_Inr sample_page) (simp add: sample_terms_def sample_profile_def)

section \<open>Properties\<close>

text \<open>Under a validated profile a plan is projected exactly when its entry count, every payload
  and the payload sum respect the bounds of its role and no rounded payload leaves 64 bits; the
  counters then are the entry count, the sum of the lengths and the sum of the pages rounded up one
  entry at a time. The page counter itself never overflows.\<close>

theorem plan_projection_exact:
  assumes "profile_try_new parameters = Inr profile"
  shows "plan_try_from_entries profile role entries = Inr plan \<longleftrightarrow>
    length entries \<le> unat (lb_entries (logical_bounds profile role))
    \<and> list_all (entry_fits profile role) entries
    \<and> content_sum entries \<le> unat (lb_content_bytes (logical_bounds profile role))
    \<and> rp_profile plan = profile \<and> rp_role plan = role
    \<and> unat (rp_entry_count plan) = length entries
    \<and> unat (rp_content_bytes plan) = content_sum entries
    \<and> unat (rp_payload_pages plan) = page_sum (unat (pf_page_size profile)) entries"
proof -
  have "pf_page_size profile \<noteq> 0" using assms by (auto simp: profile_try_new_def split: if_splits)
  then show ?thesis by (rule plan_try_from_entries_eq_Inr)
qed

theorem plan_projection_exact_witness:
  "plan_try_from_entries sample_profile RustVerifier [Directory, RegularFile 5000]
      = Inr (sample_plan RustVerifier)
    \<and> (\<forall>plan. plan_try_from_entries sample_profile RustVerifier [RegularFile 6001] \<noteq> Inr plan)"
  using plan_projection_exact [OF sample_profile_valid, of RustVerifier "[Directory, RegularFile 5000]"
      "sample_plan RustVerifier"]
    plan_projection_exact [OF sample_profile_valid, of RustVerifier "[RegularFile 6001]"]
    sample_entries_fit
  by (simp add: sample_bounds sample_page sample_plan_def entry_fits_def)

text \<open>C36. The derived terms refine the capacity formula over natural numbers: derivation succeeds
  exactly for admissible plans whose terms, computed without wrap-around, fit 64 bits and the two
  memory ceilings, and returns those terms.\<close>

theorem capacity_terms_refine:
  assumes "profile_try_new parameters = Inr profile"
  shows "derive_capacity_terms profile plans = Inr t \<longleftrightarrow>
    plans_admissible profile plans \<and> terms_spec profile plans t
    \<and> ct_required_memory_bytes t \<le> pf_minimum_hardware_memory_bytes profile
    \<and> ct_required_memory_bytes t \<le> pf_cgroup_memory_ceiling_bytes profile"
proof -
  have "pf_page_size profile \<noteq> 0" using assms by (auto simp: profile_try_new_def split: if_splits)
  then show ?thesis by (rule derive_capacity_terms_eq_Inr)
qed

theorem capacity_terms_refine_witness:
  "derive_capacity_terms sample_profile (map sample_plan replay_roles) = Inr sample_terms"
  using capacity_terms_refine [OF sample_profile_valid] sample_terms_spec
  by simp (simp add: sample_terms_def sample_profile_def)

text \<open>A mount request never drifts: it is produced exactly when the capacity derivation succeeds,
  every refusal is a refusal of that derivation, its file system, flags, mode, owners and options are
  the fixed ones, and the tmpfs it asks for holds the payload of all four plans and a page for every
  inode.\<close>

theorem mount_request_never_drifts:
  assumes "pf_page_size profile \<noteq> 0"
    and "list_all2 (\<lambda>(role, entries) plan. plan_try_from_entries profile role entries = Inr plan)
      inventory plans"
  shows "(case mount_request_try_from_replay_plans profile plans of
      Inl e \<Rightarrow> \<exists>c. e = CapacityFailure c \<and> derive_capacity_terms profile plans = Inl c
    | Inr r \<Rightarrow> derive_capacity_terms profile plans = Inr (mr_capacity r)
        \<and> validate_canonical r = Inr () \<and> mr_plan_bindings r = plans
        \<and> mr_vfs_flags r = [ReadWrite, NoSuid, NoDev, NoExec] \<and> mr_root_mode r = 448
        \<and> sum_list (map (\<lambda>(role, entries). content_sum entries) inventory)
            + (5 + sum_list (map (\<lambda>(role, entries). length entries) inventory))
              * unat (pf_page_size profile)
          \<le> unat (ct_size_bytes (mr_capacity r)))"
proof (cases "derive_capacity_terms profile plans")
  case (Inl c)
  then show ?thesis by (simp add: mount_request_try_from_replay_plans_def)
next
  case (Inr t)
  let ?P = "unat (pf_page_size profile)"
  have spec: "terms_spec profile plans t"
    using Inr derive_capacity_terms_eq_Inr [OF assms(1)] by simp
  obtain r where r: "mount_request_try_from_replay_plans profile plans = Inr r"
    using Inr mount_request_eq_Inr by blast
  then have fields: "mr_capacity r = t" "mr_plan_bindings r = plans"
    "mr_vfs_flags r = [ReadWrite, NoSuid, NoDev, NoExec]" "mr_root_mode r = 448"
    using Inr by (auto simp: mount_request_eq_Inr)
  have canonical: "validate_canonical r = Inr ()"
    using r by (auto simp: mount_request_try_from_replay_plans_def Let_def)
  have counts: "total rp_entry_count plans = sum_list (map (\<lambda>(role, es). length es) inventory)
      \<and> sum_list (map (\<lambda>(role, es). content_sum es) inventory) \<le> total rp_payload_pages plans * ?P"
    using assms(2)
  proof (induction inventory plans rule: list_all2_induct)
    case Nil
    then show ?case by (simp add: total_def)
  next
    case (Cons x xs plan plans)
    obtain role es where x: "x = (role, es)" by (cases x)
    have "content_sum es \<le> page_sum ?P es * ?P"
      using assms(1) by (intro page_sum_covers) (simp add: unat_gt_0)
    then show ?case
      using Cons plan_try_from_entries_eq_Inr [OF assms(1), of role es plan]
      by (simp add: x total_def add_mult_distrib)
  qed
  have "unat (ct_size_bytes t) = capacity_pages profile plans * ?P"
    using spec by (simp add: terms_spec_def)
  then have "total rp_payload_pages plans * ?P + (5 + total rp_entry_count plans) * ?P
      \<le> unat (ct_size_bytes t)"
    by (simp add: capacity_pages_def flip: add_mult_distrib)
  then show ?thesis using r fields canonical counts Inr by simp
qed

theorem mount_request_never_drifts_witness:
  "\<exists>r. mount_request_try_from_replay_plans sample_profile (map sample_plan replay_roles) = Inr r
    \<and> validate_canonical r = Inr () \<and> mr_capacity r = sample_terms"
proof -
  let ?plans = "map sample_plan replay_roles"
  let ?inventory = "map (\<lambda>r. (r, [Directory, RegularFile 5000])) replay_roles"
  have plans: "list_all2 (\<lambda>(role, entries) plan. plan_try_from_entries sample_profile role entries = Inr plan)
      ?inventory ?plans"
    by (simp add: list_all2_map1 list_all2_map2 list_all2_same sample_plan_projected)
  have page: "pf_page_size sample_profile \<noteq> 0" by (simp add: sample_page)
  show ?thesis
    using mount_request_never_drifts [OF page plans] sample_terms_derived
    by (cases "mount_request_try_from_replay_plans sample_profile ?plans") auto
qed

end
