(* ===== verification/AttemptPhase.thy ===== *)
theory AttemptPhase
  imports Prelude
begin

text \<open>
  The phase labels of an attempt (\<open>appliance/h0-tmpfs-provider/crates/contract/src/state.rs\<close>): the
  compiled order, the one-byte wire code and the progress model whose only transition is the next
  label. The model is a step relation; its reachable states and its runs are characterised by rule
  induction.
\<close>

datatype AttemptPhase =
    ExternalBootEvidenceAccepted | SupervisorStarted | GeneratorBound | AttemptAllocated
  | WorkerBlocked | UserMapsVerified | WorkerExecBound | ManifestAcknowledged | ProcessSealed
  | MountedLive | ParentChildLiveBarrierJoined | ObservationStaged | RootfsCleaned | NoAcquireSealed
  | OrdinaryUnmounted | ExitObserved | Reaped | CgroupZero | NamesRemoved | InventoryRestored
  | ResultSealed | Closed | ResultQueued | SourceMinted | GeneratorCommitted

definition ATTEMPT_PHASE_COUNT :: nat where
  "ATTEMPT_PHASE_COUNT = 25"

definition all_phases :: "AttemptPhase list" where
  "all_phases =
     [ExternalBootEvidenceAccepted, SupervisorStarted, GeneratorBound, AttemptAllocated,
      WorkerBlocked, UserMapsVerified, WorkerExecBound, ManifestAcknowledged, ProcessSealed,
      MountedLive, ParentChildLiveBarrierJoined, ObservationStaged, RootfsCleaned, NoAcquireSealed,
      OrdinaryUnmounted, ExitObserved, Reaped, CgroupZero, NamesRemoved, InventoryRestored,
      ResultSealed, Closed, ResultQueued, SourceMinted, GeneratorCommitted]"

fun wire_code :: "AttemptPhase \<Rightarrow> u8" where
  "wire_code ExternalBootEvidenceAccepted = 0"
| "wire_code SupervisorStarted = 1"
| "wire_code GeneratorBound = 2"
| "wire_code AttemptAllocated = 3"
| "wire_code WorkerBlocked = 4"
| "wire_code UserMapsVerified = 5"
| "wire_code WorkerExecBound = 6"
| "wire_code ManifestAcknowledged = 7"
| "wire_code ProcessSealed = 8"
| "wire_code MountedLive = 9"
| "wire_code ParentChildLiveBarrierJoined = 10"
| "wire_code ObservationStaged = 11"
| "wire_code RootfsCleaned = 12"
| "wire_code NoAcquireSealed = 13"
| "wire_code OrdinaryUnmounted = 14"
| "wire_code ExitObserved = 15"
| "wire_code Reaped = 16"
| "wire_code CgroupZero = 17"
| "wire_code NamesRemoved = 18"
| "wire_code InventoryRestored = 19"
| "wire_code ResultSealed = 20"
| "wire_code Closed = 21"
| "wire_code ResultQueued = 22"
| "wire_code SourceMinted = 23"
| "wire_code GeneratorCommitted = 24"

definition next_phase :: "AttemptPhase \<Rightarrow> AttemptPhase option" where
  "next_phase p = get_index all_phases (unat (wire_code p) + 1)"

datatype PhaseError =
    NonAdjacent AttemptPhase AttemptPhase AttemptPhase
  | Terminal AttemptPhase

record AttemptProgress =
  ap_current :: AttemptPhase

definition progress_start :: AttemptProgress where
  "progress_start = \<lparr>ap_current = ExternalBootEvidenceAccepted\<rparr>"

definition try_advance :: "AttemptProgress \<Rightarrow> AttemptPhase \<Rightarrow> PhaseError + AttemptProgress" where
  "try_advance m requested =
     (case next_phase (ap_current m) of
        None \<Rightarrow> Inl (Terminal (ap_current m))
      | Some expected \<Rightarrow>
          if requested \<noteq> expected then Inl (NonAdjacent (ap_current m) requested expected)
          else Inr \<lparr>ap_current = requested\<rparr>)"

section \<open>The order of the labels\<close>

definition phase_index :: "AttemptPhase \<Rightarrow> nat" where
  "phase_index p = unat (wire_code p)"

lemma phase_index_inject [simp]: "phase_index p = phase_index q \<longleftrightarrow> p = q"
  by (cases p; cases q) (simp_all add: phase_index_def)

lemma phase_at_index [simp]: "all_phases ! phase_index p = p" "phase_index p < 25"
  by (cases p; simp add: phase_index_def all_phases_def)+

lemma length_all_phases [simp]: "length all_phases = 25"
  by (simp add: all_phases_def)

lemma index_of_phase [simp]: "i < 25 \<Longrightarrow> phase_index (all_phases ! i) = i"
proof -
  have "map phase_index all_phases = [0..<25]"
    by (simp add: all_phases_def phase_index_def upt_rec)
  then have "i < length all_phases \<Longrightarrow> phase_index (all_phases ! i) = [0..<25] ! i"
    using nth_map [of i all_phases phase_index] by simp
  then show "i < 25 \<Longrightarrow> phase_index (all_phases ! i) = i" by simp
qed

instantiation AttemptPhase :: linorder
begin

definition less_eq_AttemptPhase :: "AttemptPhase \<Rightarrow> AttemptPhase \<Rightarrow> bool" where
  "less_eq_AttemptPhase p q \<longleftrightarrow> phase_index p \<le> phase_index q"

definition less_AttemptPhase :: "AttemptPhase \<Rightarrow> AttemptPhase \<Rightarrow> bool" where
  "less_AttemptPhase p q \<longleftrightarrow> phase_index p < phase_index q"

instance
  by standard (auto simp: less_eq_AttemptPhase_def less_AttemptPhase_def dest: phase_index_inject [THEN iffD1, OF le_antisym])

end

lemma next_phase_eq_Some: "next_phase p = Some q \<longleftrightarrow> phase_index q = Suc (phase_index p)"
proof
  assume "next_phase p = Some q"
  then show "phase_index q = Suc (phase_index p)"
    by (auto simp: next_phase_def simp flip: phase_index_def)
next
  assume adjacent: "phase_index q = Suc (phase_index p)"
  then have "Suc (phase_index p) < 25" using phase_at_index(2) [of q] by simp
  moreover have "all_phases ! Suc (phase_index p) = q" using phase_at_index(1) [of q] adjacent by simp
  ultimately show "next_phase p = Some q" by (simp add: next_phase_def flip: phase_index_def)
qed

lemma try_advance_eq_Inr:
  "try_advance m q = Inr m' \<longleftrightarrow>
     phase_index q = Suc (phase_index (ap_current m)) \<and> m' = \<lparr>ap_current = q\<rparr>"
  by (cases "next_phase (ap_current m)")
    (auto simp: try_advance_def simp flip: next_phase_eq_Some)

lemma progress_eta [simp]: "\<lparr>ap_current = ap_current m\<rparr> = m"
  by (cases m) simp

section \<open>Runs\<close>

inductive advances :: "AttemptProgress \<Rightarrow> AttemptPhase list \<Rightarrow> AttemptProgress \<Rightarrow> bool" where
  stay: "advances m [] m"
| step: "advances m ps m' \<Longrightarrow> try_advance m' q = Inr m'' \<Longrightarrow> advances m (ps @ [q]) m''"

inductive_cases advances_snocE: "advances m (ps @ [q]) m'"

definition reachable :: "AttemptProgress \<Rightarrow> bool" where
  "reachable m \<longleftrightarrow> (\<exists>ps. advances progress_start ps m)"

lemma advances_order:
  "advances m ps m' \<Longrightarrow>
    phase_index (ap_current m') = phase_index (ap_current m) + length ps
    \<and> ps = take (length ps) (drop (Suc (phase_index (ap_current m))) all_phases)"
proof (induction rule: advances.induct)
  case (stay m)
  then show ?case by simp
next
  case (step m ps m' q m'')
  let ?rest = "drop (Suc (phase_index (ap_current m))) all_phases"
  have q: "phase_index q = Suc (phase_index (ap_current m'))" "m'' = \<lparr>ap_current = q\<rparr>"
    using step.hyps by (simp_all add: try_advance_eq_Inr)
  have bound: "phase_index q < 25" by simp
  then have len: "length ps < length ?rest" using q step.IH by simp
  have "?rest ! length ps = q" using q step.IH bound phase_at_index(1) [of q] by simp
  then have "take (Suc (length ps)) ?rest = ps @ [q]"
    using len step.IH by (metis take_Suc_conv_app_nth)
  then show ?case using q step.IH by simp
qed

lemma advances_exists:
  "phase_index (ap_current m) + n < 25 \<Longrightarrow>
    advances m (take n (drop (Suc (phase_index (ap_current m))) all_phases))
      \<lparr>ap_current = all_phases ! (phase_index (ap_current m) + n)\<rparr>"
proof (induction n)
  case 0
  show ?case by (simp add: advances.stay)
next
  case (Suc n)
  let ?rest = "drop (Suc (phase_index (ap_current m))) all_phases"
  let ?q = "all_phases ! (phase_index (ap_current m) + Suc n)"
  have run: "advances m (take n ?rest) \<lparr>ap_current = all_phases ! (phase_index (ap_current m) + n)\<rparr>"
    using Suc by simp
  have "try_advance \<lparr>ap_current = all_phases ! (phase_index (ap_current m) + n)\<rparr> ?q
      = Inr \<lparr>ap_current = ?q\<rparr>"
    using Suc.prems by (simp add: try_advance_eq_Inr)
  from advances.step [OF run this] have "advances m (take n ?rest @ [?q]) \<lparr>ap_current = ?q\<rparr>" .
  moreover have "take (Suc n) ?rest = take n ?rest @ [?q]"
    using Suc.prems by (simp add: take_Suc_conv_app_nth)
  ultimately show ?case by simp
qed

section \<open>Properties\<close>

text \<open>C37. There is one successful order: a run from the start that advances through a list of labels
  exists exactly when the list is an initial part of the compiled order after the first label, and it
  ends at the last label requested; so no label is skipped, repeated or revisited.\<close>

theorem only_successful_order:
  "advances progress_start ps m \<longleftrightarrow>
    (\<exists>n < 25. ps = take n (tl all_phases) \<and> m = \<lparr>ap_current = all_phases ! n\<rparr>)"
proof
  have start: "phase_index (ap_current progress_start) = 0"
    by (simp add: progress_start_def phase_index_def)
  {
    assume run: "advances progress_start ps m"
    have len: "phase_index (ap_current m) = length ps" and ps: "ps = take (length ps) (tl all_phases)"
      using advances_order [OF run] by (simp_all add: start drop_Suc)
    have "ap_current m = all_phases ! length ps" using phase_at_index(1) [of "ap_current m"] len by simp
    moreover have "length ps < 25" using phase_at_index(2) [of "ap_current m"] len by simp
    ultimately show "\<exists>n < 25. ps = take n (tl all_phases) \<and> m = \<lparr>ap_current = all_phases ! n\<rparr>"
      using ps by (intro exI [of _ "length ps"]) simp
  }
  assume "\<exists>n < 25. ps = take n (tl all_phases) \<and> m = \<lparr>ap_current = all_phases ! n\<rparr>"
  then show "advances progress_start ps m"
    using advances_exists [of progress_start] by (auto simp: start drop_Suc)
qed

text \<open>Every label is reachable, the order of labels is the order of their wire codes, and of the
  25 labels a state accepts exactly one, or none at the terminal label, where it reports the end.\<close>

theorem one_successor:
  "reachable m
    \<and> (p < q \<longleftrightarrow> wire_code p < wire_code q)
    \<and> (if ap_current m = GeneratorCommitted
       then try_advance m q = Inl (Terminal GeneratorCommitted)
       else \<exists>!r. try_advance m r = Inr \<lparr>ap_current = r\<rparr>)"
proof -
  let ?n = "phase_index (ap_current m)"
  have "advances progress_start (take ?n (tl all_phases)) \<lparr>ap_current = all_phases ! ?n\<rparr>"
    using advances_exists [of progress_start ?n]
    by (simp add: progress_start_def phase_index_def [of ExternalBootEvidenceAccepted] drop_Suc)
  then have "reachable m" unfolding reachable_def by auto
  moreover have "p < q \<longleftrightarrow> wire_code p < wire_code q"
    by (simp add: less_AttemptPhase_def phase_index_def word_less_nat_alt)
  moreover have "try_advance m q = Inl (Terminal GeneratorCommitted)"
    if "ap_current m = GeneratorCommitted"
    using that by (simp add: try_advance_def next_phase_def get_index_def)
  moreover have "\<exists>!r. try_advance m r = Inr \<lparr>ap_current = r\<rparr>" if "ap_current m \<noteq> GeneratorCommitted"
  proof -
    have "?n \<noteq> phase_index GeneratorCommitted" using that by simp
    then have "Suc ?n < 25" using phase_at_index(2) [of "ap_current m"] by (simp add: phase_index_def)
    then have "phase_index r = Suc ?n \<longleftrightarrow> r = all_phases ! Suc ?n" for r
      using index_of_phase phase_at_index(1) by metis
    then show ?thesis by (simp add: try_advance_eq_Inr)
  qed
  ultimately show ?thesis by simp
qed

end
