(* ===== verification/OutputManifest.thy ===== *)
theory OutputManifest
  imports Canonical "HOL-Library.Char_ord" "HOL-Library.Multiset"
begin

text \<open>
  The proof-output manifest (\<open>reproduction/src/manifest.rs\<close>): the shape check on entries, the
  traversal that inventories a directory tree, and the validation that rebuilds and compares. A file
  system state is a tree as the traversal sees it, the failures of the operating system included. A
  node is what \<open>symlink_metadata\<close> answers for it: a directory with the entries \<open>read_dir\<close> yields, in
  their order, or one that \<open>read_dir\<close> cannot read; a regular file with what opening it, inspecting the
  open file and reading it yield; a link or reparse point; any other object; or an error. An entry
  that the iteration of its directory fails to yield is a child of its own kind, whose name plays no
  part. So a file can change, vanish or become unreadable between the inspection of its path and the
  end of its hashing. Building takes two states, one for each snapshot.
  SHA-256 (\<open>sha256\<close>), the hexadecimal encoder (\<open>hex_encode\<close>) and the test whether an operating-system
  name is UTF-8 (\<open>name_is_utf8\<close>) are parameters.
\<close>

section \<open>Entries and their shape\<close>

record ManifestEntry =
  me_path :: string
  me_length :: string
  me_sha256 :: string

datatype ManifestError =
    RelativePathEmpty
  | RelativePathNotAscii
  | RelativePathForm
  | SegmentEmpty
  | SegmentStart
  | SegmentUnsafeByte
  | NotUnsignedDecimal
  | LeadingZero
  | OutsideU64
  | NotLowercaseDigest
  | NotStrictOrder nat
  | NonUtf8Segment
  | LinkForbidden
  | NeitherDirectoryNorFile
  | CannotReadDirectory
  | CannotEnumerateDirectory
  | CannotInspectEntry
  | CannotOpenFile
  | CannotInspectOpenFile
  | NotRegularFile
  | CannotHashFile
  | FileLengthOverflow
  | ChangedWhileHashing nat nat
  | RootMissing
  | RootNotDirectory
  | RootNotEmpty string
  | SnapshotsDiffer
  | EntryCountMismatch nat nat
  | EntryMismatch nat

definition is_ascii_char :: "char \<Rightarrow> bool" where
  "is_ascii_char c \<longleftrightarrow> (of_char c :: nat) < 128"

definition is_segment_start :: "char \<Rightarrow> bool" where
  "is_segment_start c \<longleftrightarrow> c \<in> set ''abcdefghijklmnopqrstuvwxyz'' \<or> c \<in> set ''0123456789''"

definition is_segment_byte :: "char \<Rightarrow> bool" where
  "is_segment_byte c \<longleftrightarrow> is_segment_start c \<or> c \<in> set ''._-''"

text \<open>\<open>str::split(c)\<close> on one character: always at least one piece.\<close>

fun split_char :: "char \<Rightarrow> string \<Rightarrow> string list" where
  "split_char c [] = [[]]"
| "split_char c (x # xs) =
     (if x = c then [] # split_char c xs
      else (x # hd (split_char c xs)) # tl (split_char c xs))"

fun join_slash :: "string list \<Rightarrow> string" where
  "join_slash [] = []"
| "join_slash [s] = s"
| "join_slash (s # t # rest) = s @ ''/'' @ join_slash (t # rest)"

definition validate_path_segment :: "string \<Rightarrow> ManifestError + unit" where
  "validate_path_segment segment =
     (if segment = [] then Inl SegmentEmpty
      else if \<not> is_segment_start (segment ! 0) then Inl SegmentStart
      else if \<not> list_all is_segment_byte segment then Inl SegmentUnsafeByte
      else Inr ())"

fun validate_segments :: "string list \<Rightarrow> ManifestError + unit" where
  "validate_segments [] = Inr ()"
| "validate_segments (segment # rest) =
     and_then (validate_path_segment segment) (\<lambda>_. validate_segments rest)"

definition validate_relative_path :: "string \<Rightarrow> ManifestError + unit" where
  "validate_relative_path path =
     (if path = [] then Inl RelativePathEmpty
      else if \<not> list_all is_ascii_char path then Inl RelativePathNotAscii
      else if starts_with path ''/'' \<or> CHR 0x5C \<in> set path then Inl RelativePathForm
      else validate_segments (split_char (CHR ''/'') path))"

definition validate_decimal_u64 :: "string \<Rightarrow> ManifestError + u64" where
  "validate_decimal_u64 value =
     (if value = [] \<or> \<not> list_all is_ascii_digit value then Inl NotUnsignedDecimal
      else if length value > 1 \<and> starts_with value ''0'' then Inl LeadingZero
      else ok_or (if decimal_value value < 2 ^ 64 then Some (word_of_nat (decimal_value value))
                  else None) OutsideU64)"

definition validate_sha256 :: "string \<Rightarrow> ManifestError + unit" where
  "validate_sha256 value =
     (if length value \<noteq> 64 \<or> \<not> list_all is_lower_hex_char value then Inl NotLowercaseDigest
      else Inr ())"

fun validate_entries ::
  "string option \<Rightarrow> nat \<Rightarrow> ManifestEntry list \<Rightarrow> ManifestError + unit" where
  "validate_entries previous index [] = Inr ()"
| "validate_entries previous index (entry # rest) =
     and_then (validate_relative_path (me_path entry)) (\<lambda>_.
     and_then (validate_decimal_u64 (me_length entry)) (\<lambda>_.
     and_then (validate_sha256 (me_sha256 entry)) (\<lambda>_.
     if (case previous of Some p \<Rightarrow> p \<ge> me_path entry | None \<Rightarrow> False)
     then Inl (NotStrictOrder index)
     else validate_entries (Some (me_path entry)) (index + 1) rest)))"

definition validate_manifest_shape :: "ManifestEntry list \<Rightarrow> ManifestError + unit" where
  "validate_manifest_shape entries = validate_entries None 0 entries"

section \<open>The traversal\<close>

text \<open>
  Opening and reading a file: the open fails, the open file cannot be inspected, it is a link or
  reparse point, it is no regular file, or it has a length and the reader returns chunks, \<open>None\<close> for a
  read that fails.
\<close>

datatype opened_file =
    OpenFails
  | InspectionFails
  | OpenedLink
  | OpenedOther
  | OpenedFile nat "bytes option list"

datatype node =
    FileNode opened_file
  | DirNode "(string \<times> node) list"
  | UnreadableDirNode
  | LinkNode
  | SpecialNode
  | UninspectableNode
  | EntryFails

text \<open>The read loop of \<open>hash_regular_file\<close>: an empty read ends it.\<close>

fun read_chunks :: "nat \<Rightarrow> bytes \<Rightarrow> bytes option list \<Rightarrow> ManifestError + nat \<times> bytes" where
  "read_chunks observed hashed [] = Inr (observed, hashed)"
| "read_chunks observed hashed (None # rest) = Inl CannotHashFile"
| "read_chunks observed hashed (Some chunk # rest) =
     (if chunk = [] then Inr (observed, hashed)
      else
        and_then (ok_or (checked_add_usize observed (length chunk)) FileLengthOverflow) (\<lambda>observed.
        read_chunks observed (hashed @ chunk) rest))"

definition hash_regular_file ::
  "(bytes \<Rightarrow> bytes) \<Rightarrow> (bytes \<Rightarrow> string) \<Rightarrow> opened_file \<Rightarrow> ManifestError + nat \<times> string" where
  "hash_regular_file sha256 hex_encode opened =
     (case opened of
        OpenFails \<Rightarrow> Inl CannotOpenFile
      | InspectionFails \<Rightarrow> Inl CannotInspectOpenFile
      | OpenedLink \<Rightarrow> Inl LinkForbidden
      | OpenedOther \<Rightarrow> Inl NotRegularFile
      | OpenedFile expected_length chunks \<Rightarrow>
          and_then (read_chunks 0 [] chunks) (\<lambda>(observed_length, hashed).
          if observed_length \<noteq> expected_length
          then Inl (ChangedWhileHashing expected_length observed_length)
          else Inr (observed_length, hex_encode (sha256 hashed))))"

fun check_components :: "(string \<Rightarrow> bool) \<Rightarrow> string list \<Rightarrow> ManifestError + unit" where
  "check_components name_is_utf8 [] = Inr ()"
| "check_components name_is_utf8 (segment # rest) =
     and_then (ensure (name_is_utf8 segment) NonUtf8Segment) (\<lambda>_.
     and_then (validate_path_segment segment) (\<lambda>_. check_components name_is_utf8 rest))"

definition canonical_relative_path ::
  "(string \<Rightarrow> bool) \<Rightarrow> string list \<Rightarrow> ManifestError + string" where
  "canonical_relative_path name_is_utf8 components =
     and_then (check_components name_is_utf8 components) (\<lambda>_.
     let canonical = join_slash components in
     and_then (validate_relative_path canonical) (\<lambda>_. Inr canonical))"

fun node_weight :: "node \<Rightarrow> nat" where
  "node_weight (DirNode children) = Suc (sum_list (map (\<lambda>(n, t). Suc (node_weight t)) children))"
| "node_weight _ = 0"

definition children_weight :: "(string \<times> node) list \<Rightarrow> nat" where
  "children_weight children = sum_list (map (\<lambda>(n, t). Suc (node_weight t)) children)"

lemma children_weight_simps [simp]:
  "children_weight [] = 0"
  "children_weight ((n, t) # cs) = Suc (node_weight t) + children_weight cs"
  "node_weight (DirNode cs) = Suc (children_weight cs)"
  by (simp_all add: children_weight_def)

declare node_weight.simps(1) [simp del]

lemma children_weight_sort [simp]: "children_weight (sort_key f cs) = children_weight cs"
proof -
  have "mset (map g (sort_key f cs)) = mset (map g cs)" for g :: "string \<times> node \<Rightarrow> nat" by simp
  then have "sum_mset (mset (map g (sort_key f cs))) = sum_mset (mset (map g cs))"
    for g :: "string \<times> node \<Rightarrow> nat" by metis
  then show ?thesis unfolding children_weight_def sum_mset_sum_list .
qed

text \<open>
  \<open>read_dir\<close> with the collection of its entries: \<open>None\<close> is a directory it cannot read, and the first
  entry that fails makes the whole collection fail.
\<close>

definition list_directory ::
  "(string \<times> node) list option \<Rightarrow> ManifestError + (string \<times> node) list" where
  "list_directory children =
     and_then (ok_or children CannotReadDirectory) (\<lambda>children.
     and_then (ensure (\<not> list_ex (\<lambda>(_, child). child = EntryFails) children) CannotEnumerateDirectory)
       (\<lambda>_. Inr children))"

lemma list_directory_eq_Inr:
  "list_directory children = Inr cs \<longleftrightarrow> children = Some cs \<and> EntryFails \<notin> snd ` set cs"
  by (force simp: list_directory_def list_ex_iff)

text \<open>\<open>directory\<close> and \<open>path\<close> are the components below the root; \<open>sort_by_key(file_name)\<close> is stable.\<close>

function (sequential)
  collect_directory ::
    "(bytes \<Rightarrow> bytes) \<Rightarrow> (bytes \<Rightarrow> string) \<Rightarrow> (string \<Rightarrow> bool) \<Rightarrow> string list
      \<Rightarrow> (string \<times> node) list option \<Rightarrow> ManifestEntry list \<Rightarrow> ManifestError + ManifestEntry list"
  and collect_children ::
    "(bytes \<Rightarrow> bytes) \<Rightarrow> (bytes \<Rightarrow> string) \<Rightarrow> (string \<Rightarrow> bool) \<Rightarrow> string list
      \<Rightarrow> (string \<times> node) list \<Rightarrow> ManifestEntry list \<Rightarrow> ManifestError + ManifestEntry list" where
  "collect_directory sha256 hex_encode name_is_utf8 directory children output =
     and_then (list_directory children) (\<lambda>children.
     collect_children sha256 hex_encode name_is_utf8 directory (sort_key fst children) output)"
| "collect_children sha256 hex_encode name_is_utf8 directory [] output = Inr output"
| "collect_children sha256 hex_encode name_is_utf8 directory ((file_name, child) # rest) output =
     and_then (ensure (name_is_utf8 file_name) NonUtf8Segment) (\<lambda>_.
     and_then (validate_path_segment file_name) (\<lambda>_.
     let path = directory @ [file_name] in
     and_then
       (case child of
          LinkNode \<Rightarrow> Inl LinkForbidden
        | UninspectableNode \<Rightarrow> Inl CannotInspectEntry
        | DirNode children \<Rightarrow>
            collect_directory sha256 hex_encode name_is_utf8 path (Some children) output
        | UnreadableDirNode \<Rightarrow>
            collect_directory sha256 hex_encode name_is_utf8 path None output
        | FileNode opened \<Rightarrow>
            and_then (canonical_relative_path name_is_utf8 path) (\<lambda>relative.
            and_then (hash_regular_file sha256 hex_encode opened) (\<lambda>(len, digest).
            Inr (output @ [\<lparr>me_path = relative, me_length = decimal_digits len,
                           me_sha256 = digest\<rparr>])))
        | SpecialNode \<Rightarrow> Inl NeitherDirectoryNorFile
        | EntryFails \<Rightarrow> Inl CannotEnumerateDirectory) (\<lambda>output.
     collect_children sha256 hex_encode name_is_utf8 directory rest output)))"
  by pat_completeness auto
termination
  by (relation "measure (\<lambda>x. case x of
      Inl (_, _, _, _, None, _) \<Rightarrow> 0
    | Inl (_, _, _, _, Some cs, _) \<Rightarrow> 2 * children_weight cs + 1
    | Inr (_, _, _, _, cs, _) \<Rightarrow> 2 * children_weight cs)")
    (auto simp: list_directory_eq_Inr)

declare collect_directory.simps [simp del] collect_children.simps [simp del]

section \<open>Building and validating\<close>

text \<open>
  \<open>None\<close> is a root that does not exist or cannot be inspected. The result is what a \<open>read_dir\<close> of the
  root yields afterwards.
\<close>

definition require_ordinary_directory ::
  "node option \<Rightarrow> ManifestError + (string \<times> node) list option" where
  "require_ordinary_directory root =
     (case root of
        None \<Rightarrow> Inl RootMissing
      | Some LinkNode \<Rightarrow> Inl LinkForbidden
      | Some UninspectableNode \<Rightarrow> Inl RootMissing
      | Some (DirNode children) \<Rightarrow> Inr (Some children)
      | Some UnreadableDirNode \<Rightarrow> Inr None
      | Some _ \<Rightarrow> Inl RootNotDirectory)"

definition require_empty_before_generation :: "node option \<Rightarrow> ManifestError + unit" where
  "require_empty_before_generation root =
     and_then (require_ordinary_directory root) (\<lambda>children.
     and_then (list_directory children) (\<lambda>children.
     case sort (map fst children) of
       [] \<Rightarrow> Inr ()
     | name # _ \<Rightarrow> Inl (RootNotEmpty name)))"

definition build_manifest_snapshot ::
  "(bytes \<Rightarrow> bytes) \<Rightarrow> (bytes \<Rightarrow> string) \<Rightarrow> (string \<Rightarrow> bool) \<Rightarrow> (string \<times> node) list option
     \<Rightarrow> ManifestError + ManifestEntry list" where
  "build_manifest_snapshot sha256 hex_encode name_is_utf8 root =
     and_then (collect_directory sha256 hex_encode name_is_utf8 [] root []) (\<lambda>entries.
     let entries = sort_key me_path entries in
     and_then (validate_manifest_shape entries) (\<lambda>_. Inr entries))"

text \<open>\<open>root\<close> is the state the root check and the first snapshot see, \<open>later\<close> what the second
  snapshot's \<open>read_dir\<close> of the root yields.\<close>

definition build_proof_output_manifest ::
  "(bytes \<Rightarrow> bytes) \<Rightarrow> (bytes \<Rightarrow> string) \<Rightarrow> (string \<Rightarrow> bool) \<Rightarrow> node option
     \<Rightarrow> (string \<times> node) list option \<Rightarrow> ManifestError + ManifestEntry list" where
  "build_proof_output_manifest sha256 hex_encode name_is_utf8 root later =
     and_then (require_ordinary_directory root) (\<lambda>children.
     and_then (build_manifest_snapshot sha256 hex_encode name_is_utf8 children) (\<lambda>first.
     and_then (build_manifest_snapshot sha256 hex_encode name_is_utf8 later) (\<lambda>second.
     if first \<noteq> second then Inl SnapshotsDiffer else Inr second)))"

fun compare_entries ::
  "nat \<Rightarrow> (ManifestEntry \<times> ManifestEntry) list \<Rightarrow> ManifestError + unit" where
  "compare_entries index [] = Inr ()"
| "compare_entries index ((expected_entry, actual_entry) # rest) =
     (if expected_entry \<noteq> actual_entry then Inl (EntryMismatch index)
      else compare_entries (index + 1) rest)"

definition validate_proof_output_manifest ::
  "(bytes \<Rightarrow> bytes) \<Rightarrow> (bytes \<Rightarrow> string) \<Rightarrow> (string \<Rightarrow> bool) \<Rightarrow> node option
     \<Rightarrow> (string \<times> node) list option \<Rightarrow> ManifestEntry list \<Rightarrow> ManifestError + unit" where
  "validate_proof_output_manifest sha256 hex_encode name_is_utf8 root later expected =
     and_then (validate_manifest_shape expected) (\<lambda>_.
     and_then (build_proof_output_manifest sha256 hex_encode name_is_utf8 root later) (\<lambda>actual.
     if length actual \<noteq> length expected
     then Inl (EntryCountMismatch (length expected) (length actual))
     else compare_entries 0 (zip expected actual)))"

section \<open>Paths\<close>

definition safe_segment :: "string \<Rightarrow> bool" where
  "safe_segment s \<longleftrightarrow> s \<noteq> [] \<and> is_segment_start (hd s) \<and> list_all is_segment_byte s"

lemma validate_path_segment_eq_Inr [simp]:
  "validate_path_segment s = Inr u \<longleftrightarrow> safe_segment s"
  by (auto simp: validate_path_segment_def safe_segment_def hd_conv_nth)

lemma validate_segments_eq_Inr [simp]:
  "validate_segments ss = Inr u \<longleftrightarrow> list_all safe_segment ss"
  by (induction ss) auto

lemma segment_byte_facts:
  "is_segment_byte c \<Longrightarrow> c \<noteq> CHR ''/'' \<and> c \<noteq> CHR 0x5C \<and> is_ascii_char c"
  by (auto simp: is_segment_byte_def is_segment_start_def is_ascii_char_def)

lemma split_char_not_Nil [simp]: "split_char c s \<noteq> []"
  by (cases s) auto

lemma join_slash_Cons: "ss \<noteq> [] \<Longrightarrow> join_slash (s # ss) = s @ ''/'' @ join_slash ss"
  by (cases ss) auto

lemma join_split: "join_slash (split_char (CHR ''/'') s) = s"
proof (induction s)
  case (Cons x xs)
  obtain p ps where p: "split_char (CHR ''/'') xs = p # ps"
    by (cases "split_char (CHR ''/'') xs") auto
  then show ?case using Cons by (cases ps) (auto simp: join_slash_Cons)
qed simp

lemma split_single: "c \<notin> set s \<Longrightarrow> split_char c s = [s]"
  by (induction s) auto

lemma split_append: "c \<notin> set s \<Longrightarrow> split_char c (s @ c # t) = s # split_char c t"
  by (induction s) auto

lemma split_join:
  "ss \<noteq> [] \<Longrightarrow> (\<And>s. s \<in> set ss \<Longrightarrow> CHR ''/'' \<notin> set s) \<Longrightarrow>
    split_char (CHR ''/'') (join_slash ss) = ss"
proof (induction ss)
  case (Cons s ss)
  then show ?case
    by (cases "ss = []") (auto simp: split_single join_slash_Cons split_append)
qed simp

lemma safe_segment_no_slash: "safe_segment s \<Longrightarrow> CHR ''/'' \<notin> set s"
  using segment_byte_facts by (fastforce simp: safe_segment_def list_all_iff)

lemma join_slash_chars: "c \<in> set (join_slash ss) \<Longrightarrow> c = CHR ''/'' \<or> (\<exists>s \<in> set ss. c \<in> set s)"
  by (induction ss rule: join_slash.induct) auto

lemma join_slash_inject:
  "list_all safe_segment ss \<Longrightarrow> list_all safe_segment ts \<Longrightarrow> ss \<noteq> [] \<Longrightarrow> ts \<noteq> [] \<Longrightarrow>
    join_slash ss = join_slash ts \<longleftrightarrow> ss = ts"
  by (metis list_all_iff safe_segment_no_slash split_join)

lemma join_slash_start:
  "list_all safe_segment ss \<Longrightarrow> ss \<noteq> [] \<Longrightarrow>
    join_slash ss \<noteq> [] \<and> is_segment_start (hd (join_slash ss))"
  by (cases ss rule: join_slash.cases) (auto simp: safe_segment_def)

lemma validate_relative_path_eq_Inr:
  "validate_relative_path p = Inr u \<longleftrightarrow>
     (\<exists>ss. ss \<noteq> [] \<and> list_all safe_segment ss \<and> p = join_slash ss)"
proof
  assume "validate_relative_path p = Inr u"
  then have "list_all safe_segment (split_char (CHR ''/'') p)"
    by (auto simp: validate_relative_path_def split: if_splits)
  then show "\<exists>ss. ss \<noteq> [] \<and> list_all safe_segment ss \<and> p = join_slash ss"
    by (intro exI [of _ "split_char (CHR ''/'') p"]) (simp add: join_split)
next
  assume "\<exists>ss. ss \<noteq> [] \<and> list_all safe_segment ss \<and> p = join_slash ss"
  then obtain ss where ss: "ss \<noteq> []" "list_all safe_segment ss" "p = join_slash ss" by blast
  have chars: "c = CHR ''/'' \<or> is_segment_byte c" if "c \<in> set p" for c
    using join_slash_chars [of c ss] that ss by (auto simp: list_all_iff safe_segment_def)
  have "is_ascii_char (CHR ''/'')" by (simp add: is_ascii_char_def)
  then have "list_all is_ascii_char p" "CHR 0x5C \<notin> set p"
    using chars segment_byte_facts by (auto simp: list_all_iff)
  moreover have "p \<noteq> []" "hd p \<noteq> CHR ''/''"
    using join_slash_start [OF ss(2,1)] segment_byte_facts [of "hd p"] ss(3)
    by (auto simp: is_segment_byte_def)
  moreover have "split_char (CHR ''/'') p = ss"
    using ss split_join [of ss] safe_segment_no_slash by (auto simp: list_all_iff)
  ultimately show "validate_relative_path p = Inr u"
    using ss(2) by (auto simp: validate_relative_path_def)
qed

lemma check_components_eq_Inr [simp]:
  "check_components u ss = Inr x \<longleftrightarrow> list_all (\<lambda>s. u s \<and> safe_segment s) ss"
  by (induction ss) auto

lemma canonical_relative_path_eq_Inr:
  "ss \<noteq> [] \<Longrightarrow> canonical_relative_path u ss = Inr r \<longleftrightarrow>
    list_all (\<lambda>s. u s \<and> safe_segment s) ss \<and> r = join_slash ss"
  by (auto simp: canonical_relative_path_def validate_relative_path_eq_Inr list_all_iff Let_def)

section \<open>The shape of a manifest\<close>

definition entry_shape :: "ManifestEntry \<Rightarrow> bool" where
  "entry_shape e \<longleftrightarrow>
     (\<exists>ss. ss \<noteq> [] \<and> list_all safe_segment ss \<and> me_path e = join_slash ss)
     \<and> canonical_decimal (me_length e) \<and> decimal_value (me_length e) < 2 ^ 64
     \<and> length (me_sha256 e) = 64 \<and> list_all is_lower_hex_char (me_sha256 e)"

lemma validate_decimal_u64_eq_Inr:
  "validate_decimal_u64 v = Inr w \<longleftrightarrow> canonical_decimal v \<and> decimal_value v = unat w"
proof -
  have lead: "length v > 1 \<and> starts_with v ''0'' \<longleftrightarrow> \<not> (hd v = CHR ''0'' \<longrightarrow> tl v = [])"
    if "v \<noteq> []"
    using that by (cases v; cases "tl v") auto
  show ?thesis
  proof (cases "v = []")
    case False
    show ?thesis
      unfolding validate_decimal_u64_def lead [OF False]
      using False unat_u64_bound [of w]
      by (auto simp: canonical_decimal_def unat_of_nat simp del: starts_with_iff)
  qed (simp add: validate_decimal_u64_def canonical_decimal_def)
qed

lemma validate_sha256_eq_Inr [simp]:
  "validate_sha256 v = Inr u \<longleftrightarrow> length v = 64 \<and> list_all is_lower_hex_char v"
  by (auto simp: validate_sha256_def)

lemma entry_shape_iff:
  "validate_relative_path (me_path e) = Inr () \<and> (\<exists>w. validate_decimal_u64 (me_length e) = Inr w)
      \<and> validate_sha256 (me_sha256 e) = Inr () \<longleftrightarrow> entry_shape e"
proof -
  have "(\<exists>w :: u64. decimal_value (me_length e) = unat w) \<longleftrightarrow> decimal_value (me_length e) < 2 ^ 64"
    by (rule ex_unat_u64)
  then show ?thesis
    by (auto simp: entry_shape_def validate_relative_path_eq_Inr validate_decimal_u64_eq_Inr)
qed

lemma validate_entries_iff:
  "validate_entries prev i es = Inr u \<longleftrightarrow>
     list_all entry_shape es
     \<and> sorted_wrt (<) ((case prev of None \<Rightarrow> [] | Some p \<Rightarrow> [p]) @ map me_path es)"
proof (induction es arbitrary: prev i)
  case Nil
  then show ?case by (cases prev) simp_all
next
  case (Cons e es)
  have "validate_entries prev i (e # es) = Inr u \<longleftrightarrow>
      entry_shape e \<and> (case prev of None \<Rightarrow> True | Some p \<Rightarrow> p < me_path e)
      \<and> validate_entries (Some (me_path e)) (i + 1) es = Inr u"
    unfolding entry_shape_iff [symmetric] by (cases prev) (auto simp: not_le)
  then show ?case
    unfolding Cons.IH by (cases prev) (auto intro: less_trans)
qed

lemma validate_manifest_shape_iff:
  "validate_manifest_shape es = Inr u \<longleftrightarrow>
     list_all entry_shape es \<and> sorted_wrt (<) (map me_path es)"
  by (simp add: validate_manifest_shape_def validate_entries_iff)

section \<open>What the traversal collects\<close>

definition reads :: "bytes option list \<Rightarrow> bytes option list" where
  "reads chunks = takeWhile (\<lambda>c. c \<noteq> Some []) chunks"

definition read_all :: "bytes option list \<Rightarrow> bytes" where
  "read_all chunks = concat (map the (reads chunks))"

text \<open>No read fails before the end of the file.\<close>

definition reads_succeed :: "bytes option list \<Rightarrow> bool" where
  "reads_succeed chunks \<longleftrightarrow> None \<notin> set (reads chunks)"

lemma read_chunks_eq_Inr:
  "n < usize_limit \<Longrightarrow> read_chunks n h chunks = Inr (n', h') \<longleftrightarrow>
     reads_succeed chunks \<and> n' = n + length (read_all chunks) \<and> h' = h @ read_all chunks
     \<and> n' < usize_limit"
proof (induction chunks arbitrary: n h)
  case Nil
  then show ?case by (auto simp: read_all_def reads_def reads_succeed_def)
next
  case (Cons x chunks)
  show ?case
  proof (cases x)
    case None
    then show ?thesis by (simp add: reads_succeed_def reads_def)
  next
    case (Some c)
    show ?thesis
    proof (cases "c = [] \<or> usize_limit \<le> n + length c")
      case True
      then show ?thesis
        using Cons.prems Some
        by (auto simp: read_all_def reads_def reads_succeed_def checked_add_usize_def)
    next
      case False
      then show ?thesis
        using Cons.IH [of "n + length c" "h @ c"] Some
        by (auto simp: read_all_def reads_def reads_succeed_def checked_add_usize_def)
    qed
  qed
qed

lemma hash_regular_file_eq_Inr:
  "hash_regular_file H X opened = Inr (len, d) \<longleftrightarrow>
     (\<exists>chunks. opened = OpenedFile len chunks \<and> reads_succeed chunks \<and> len = length (read_all chunks)
        \<and> len < usize_limit \<and> d = X (H (read_all chunks)))"
  by (auto simp: hash_regular_file_def read_chunks_eq_Inr usize_limit_def
      split: if_splits opened_file.splits)

text \<open>A regular file of a tree, by its components.\<close>

inductive file_in :: "(string \<times> node) list \<Rightarrow> string list \<Rightarrow> bytes option list \<Rightarrow> bool" where
  here: "(n, FileNode (OpenedFile len chunks)) \<in> set cs \<Longrightarrow> file_in cs [n] chunks"
| below: "(n, DirNode ds) \<in> set cs \<Longrightarrow> file_in ds p chunks \<Longrightarrow> file_in cs (n # p) chunks"

inductive_simps file_in_Cons: "file_in cs (n # p) chunks"
inductive_simps file_in_Nil [simp]: "file_in cs [] chunks"

definition entry_of ::
  "(bytes \<Rightarrow> bytes) \<Rightarrow> (bytes \<Rightarrow> string) \<Rightarrow> string list \<Rightarrow> bytes option list \<Rightarrow> ManifestEntry" where
  "entry_of H X p chunks =
     \<lparr>me_path = join_slash p, me_length = decimal_digits (length (read_all chunks)),
      me_sha256 = X (H (read_all chunks))\<rparr>"

text \<open>
  The trees the traversal accepts: safe names, no links or special files, every directory and every
  entry readable, every file a regular file when it is opened, readable to its end, and of the length
  its metadata announced.
\<close>

fun clean_node :: "(string \<Rightarrow> bool) \<Rightarrow> node \<Rightarrow> bool" where
  "clean_node u (FileNode opened) \<longleftrightarrow>
     (case opened of
        OpenedFile len chunks \<Rightarrow>
          reads_succeed chunks \<and> len = length (read_all chunks) \<and> len < usize_limit
      | _ \<Rightarrow> False)"
| "clean_node u (DirNode cs) \<longleftrightarrow>
     (\<forall>c \<in> set cs. u (fst c) \<and> safe_segment (fst c) \<and> clean_node u (snd c))"
| "clean_node u _ \<longleftrightarrow> False"

definition clean_children :: "(string \<Rightarrow> bool) \<Rightarrow> (string \<times> node) list \<Rightarrow> bool" where
  "clean_children u cs \<longleftrightarrow> clean_node u (DirNode cs)"

lemma clean_children_simps [simp]:
  "clean_children u []"
  "clean_children u ((n, t) # cs) \<longleftrightarrow>
     u n \<and> safe_segment n \<and> clean_node u t \<and> clean_children u cs"
  "clean_children u (sort_key f cs) = clean_children u cs"
  by (simp_all add: clean_children_def)

definition collected ::
  "(bytes \<Rightarrow> bytes) \<Rightarrow> (bytes \<Rightarrow> string) \<Rightarrow> string list \<Rightarrow> (string \<times> node) list \<Rightarrow> ManifestEntry set" where
  "collected H X dir cs = {entry_of H X (dir @ p) chunks | p chunks. file_in cs p chunks}"

lemma file_in_set: "set cs = set ds \<Longrightarrow> file_in cs p chunks = file_in ds p chunks"
  by (cases p) (auto simp: file_in_Cons)

lemma file_in_first:
  "file_in ((n, t) # cs) p chunks \<longleftrightarrow>
     (\<exists>len. t = FileNode (OpenedFile len chunks) \<and> p = [n])
     \<or> (\<exists>ds q. t = DirNode ds \<and> p = n # q \<and> file_in ds q chunks) \<or> file_in cs p chunks"
  by (cases p) (auto simp: file_in_Cons)

lemma collected_simps:
  "collected H X dir [] = {}"
  "collected H X dir ((n, FileNode (OpenedFile len chunks)) # cs) =
     insert (entry_of H X (dir @ [n]) chunks) (collected H X dir cs)"
  "collected H X dir ((n, DirNode ds) # cs) = collected H X (dir @ [n]) ds \<union> collected H X dir cs"
  "collected H X dir (sort_key f cs) = collected H X dir cs"
proof -
  have "\<not> file_in [] p chunks" for p chunks by (cases p) (simp_all add: file_in_Cons)
  then show "collected H X dir [] = {}" by (simp add: collected_def)
  show "collected H X dir ((n, FileNode (OpenedFile len chunks)) # cs) =
     insert (entry_of H X (dir @ [n]) chunks) (collected H X dir cs)"
    unfolding collected_def file_in_first by auto
  show "collected H X dir ((n, DirNode ds) # cs) = collected H X (dir @ [n]) ds \<union> collected H X dir cs"
    unfolding collected_def file_in_first by auto
  show "collected H X dir (sort_key f cs) = collected H X dir cs"
    unfolding collected_def by (simp add: file_in_set [of "sort_key f cs" cs])
qed

fun distinct_node :: "node \<Rightarrow> bool" where
  "distinct_node (DirNode cs) \<longleftrightarrow>
     distinct (map fst cs) \<and> (\<forall>c \<in> set cs. distinct_node (snd c))"
| "distinct_node _ \<longleftrightarrow> True"

definition distinct_children :: "(string \<times> node) list \<Rightarrow> bool" where
  "distinct_children cs \<longleftrightarrow> distinct_node (DirNode cs)"

lemma distinct_children_simps [simp]:
  "distinct_children []"
  "distinct_children ((n, t) # cs) \<longleftrightarrow>
     n \<notin> fst ` set cs \<and> distinct_node t \<and> distinct_children cs"
  by (auto simp: distinct_children_def)

lemma distinct_children_sort [simp]: "distinct_children (sort_key f cs) = distinct_children cs"
proof -
  have "mset (map fst (sort_key f cs)) = mset (map fst cs)" by simp
  then have "distinct (map fst (sort_key f cs)) = distinct (map fst cs)" by (rule mset_eq_imp_distinct_iff)
  then show ?thesis by (simp add: distinct_children_def)
qed

lemma file_in_path: "file_in cs p chunks \<Longrightarrow> p \<noteq> [] \<and> hd p \<in> fst ` set cs"
  by (induction rule: file_in.induct) force+

lemma file_in_safe:
  "file_in cs p chunks \<Longrightarrow> clean_children u cs \<Longrightarrow> list_all (\<lambda>s. u s \<and> safe_segment s) p"
  by (induction rule: file_in.induct) (force simp: clean_children_def)+

lemma collected_paths_disjoint:
  assumes "list_all safe_segment dir" and "clean_children u cs" and "clean_children u ds"
    and "fst ` set cs \<inter> fst ` set ds = {}"
  shows "me_path ` collected H X dir cs \<inter> me_path ` collected H X dir ds = {}"
proof -
  have False if "file_in cs p a" "file_in ds q b" "join_slash (dir @ p) = join_slash (dir @ q)" for p q a b
  proof -
    have "list_all safe_segment p" "list_all safe_segment q"
      using file_in_safe [OF that(1) assms(2)] file_in_safe [OF that(2) assms(3)]
      by (simp_all add: list_all_iff)
    then have "dir @ p = dir @ q"
      using join_slash_inject [of "dir @ p" "dir @ q"] that assms(1)
      by (metis append_is_Nil_conv file_in_path list_all_append)
    then show False
      using file_in_path [OF that(1)] file_in_path [OF that(2)] assms(4) by auto
  qed
  then show ?thesis unfolding collected_def entry_of_def by fastforce
qed

definition collects ::
  "(bytes \<Rightarrow> bytes) \<Rightarrow> (bytes \<Rightarrow> string) \<Rightarrow> (string \<Rightarrow> bool) \<Rightarrow> string list \<Rightarrow> (string \<times> node) list
     \<Rightarrow> ManifestEntry list \<Rightarrow> ManifestError + ManifestEntry list \<Rightarrow> bool" where
  "collects H X u dir cs out result \<longleftrightarrow>
     (if clean_children u cs
      then \<exists>es. result = Inr (out @ es) \<and> set es = collected H X dir cs
        \<and> (distinct_children cs \<longrightarrow> distinct (map me_path es))
      else \<exists>e. result = Inl e)"

text \<open>The part of one iteration that handles the child itself.\<close>

definition handle_child ::
  "(bytes \<Rightarrow> bytes) \<Rightarrow> (bytes \<Rightarrow> string) \<Rightarrow> (string \<Rightarrow> bool) \<Rightarrow> string list \<Rightarrow> node
     \<Rightarrow> ManifestEntry list \<Rightarrow> ManifestError + ManifestEntry list" where
  "handle_child H X u path child out =
     (case child of
        LinkNode \<Rightarrow> Inl LinkForbidden
      | UninspectableNode \<Rightarrow> Inl CannotInspectEntry
      | DirNode ds \<Rightarrow> collect_directory H X u path (Some ds) out
      | UnreadableDirNode \<Rightarrow> collect_directory H X u path None out
      | FileNode opened \<Rightarrow>
          and_then (canonical_relative_path u path) (\<lambda>relative.
          and_then (hash_regular_file H X opened) (\<lambda>(len, digest).
          Inr (out @ [\<lparr>me_path = relative, me_length = decimal_digits len, me_sha256 = digest\<rparr>])))
      | SpecialNode \<Rightarrow> Inl NeitherDirectoryNorFile
      | EntryFails \<Rightarrow> Inl CannotEnumerateDirectory)"

lemma collect_children_Cons:
  "collect_children H X u dir ((n, child) # rest) out =
     (if u n \<and> safe_segment n
      then and_then (handle_child H X u (dir @ [n]) child out) (collect_children H X u dir rest)
      else Inl (if u n then projl (validate_path_segment n) else NonUtf8Segment))"
proof (cases "validate_path_segment n")
  case (Inl e)
  then have "\<not> safe_segment n" by (metis Inl_Inr_False validate_path_segment_eq_Inr)
  then show ?thesis using Inl by (simp add: collect_children.simps)
next
  case (Inr x)
  then have "safe_segment n" by simp
  with Inr show ?thesis
    by (cases "u n") (simp_all add: collect_children.simps handle_child_def Let_def
        del: validate_path_segment_eq_Inr)
qed

lemma hash_error: "\<not> clean_node u (FileNode opened) \<Longrightarrow> \<exists>e. hash_regular_file H X opened = Inl e"
  using hash_regular_file_eq_Inr [of H X opened]
  by (cases "hash_regular_file H X opened") (auto split: opened_file.splits)

lemma collect_unreadable: "collect_directory H X u dir None out = Inl CannotReadDirectory"
  by (simp add: collect_directory.simps list_directory_def)

lemma handle_child_spec:
  assumes path: "path \<noteq> []" "list_all (\<lambda>s. u s \<and> safe_segment s) path"
    and below: "\<And>ds. child = DirNode ds \<Longrightarrow>
      collects H X u path ds out (collect_directory H X u path (Some ds) out)"
  shows "if clean_node u child
    then \<exists>es. handle_child H X u path child out = Inr (out @ es)
      \<and> set es = collected H X (butlast path) [(last path, child)]
      \<and> (distinct_node child \<longrightarrow> distinct (map me_path es))
    else \<exists>e. handle_child H X u path child out = Inl e"
proof (cases child)
  case (FileNode opened)
  have relative: "canonical_relative_path u path = Inr (join_slash path)"
    using path by (simp add: canonical_relative_path_eq_Inr)
  show ?thesis
  proof (cases "clean_node u child")
    case True
    then obtain len chunks where opened: "opened = OpenedFile len chunks" "reads_succeed chunks"
      "len = length (read_all chunks)" "len < usize_limit"
      using FileNode by (auto split: opened_file.splits)
    then have "hash_regular_file H X opened = Inr (len, X (H (read_all chunks)))"
      by (simp add: hash_regular_file_eq_Inr)
    then show ?thesis
      using True FileNode opened path(1)
      by (simp add: handle_child_def relative collected_simps entry_of_def)
  next
    case False
    then show ?thesis
      using hash_error [of u opened H X] FileNode by (auto simp: handle_child_def relative)
  qed
next
  case (DirNode ds)
  then show ?thesis
    using below [of ds] path(1)
    by (auto simp: handle_child_def collects_def clean_children_def distinct_children_def
        collected_simps simp del: clean_node.simps distinct_node.simps split: if_splits)
qed (simp_all add: handle_child_def collect_unreadable)

lemma collect_step:
  assumes dir: "list_all (\<lambda>s. u s \<and> safe_segment s) dir"
    and below: "\<And>ds. child = DirNode ds \<Longrightarrow> u n \<Longrightarrow> safe_segment n \<Longrightarrow>
      collects H X u (dir @ [n]) ds out (collect_directory H X u (dir @ [n]) (Some ds) out)"
    and rest: "\<And>out'. u n \<Longrightarrow> safe_segment n \<Longrightarrow> handle_child H X u (dir @ [n]) child out = Inr out' \<Longrightarrow>
      collects H X u dir rest out' (collect_children H X u dir rest out')"
  shows "collects H X u dir ((n, child) # rest) out
    (collect_children H X u dir ((n, child) # rest) out)"
proof (cases "u n \<and> safe_segment n \<and> clean_node u child")
  case False
  have "\<exists>e. handle_child H X u (dir @ [n]) child out = Inl e" if "u n" "safe_segment n"
    using handle_child_spec [of "dir @ [n]" u child H X out] dir below that False by auto
  then show ?thesis using False by (auto simp: collects_def collect_children_Cons)
next
  case True
  then obtain es where es: "handle_child H X u (dir @ [n]) child out = Inr (out @ es)"
    "set es = collected H X dir [(n, child)]" "distinct_node child \<Longrightarrow> distinct (map me_path es)"
    using handle_child_spec [of "dir @ [n]" u child H X out] dir below by auto
  have later: "collects H X u dir rest (out @ es) (collect_children H X u dir rest (out @ es))"
    using rest True es(1) by simp
  show ?thesis
  proof (cases "clean_children u rest")
    case False
    then show ?thesis using later True es(1) by (auto simp: collects_def collect_children_Cons)
  next
    case clean: True
    then obtain fs where fs: "collect_children H X u dir rest (out @ es) = Inr ((out @ es) @ fs)"
      "set fs = collected H X dir rest" "distinct_children rest \<Longrightarrow> distinct (map me_path fs)"
      using later by (auto simp: collects_def)
    have all: "collected H X dir ((n, child) # rest)
        = collected H X dir [(n, child)] \<union> collected H X dir rest"
      using True by (cases child) (auto simp: collected_simps split: opened_file.splits)
    have "distinct (map me_path (es @ fs))" if "distinct_children ((n, child) # rest)"
    proof -
      have "me_path ` set es \<inter> me_path ` set fs = {}"
        unfolding es(2) fs(2)
        by (rule collected_paths_disjoint [where u = u]) (use dir True clean that in \<open>auto simp: list_all_iff\<close>)
      then show ?thesis using that es(3) fs(3) by simp
    qed
    then show ?thesis
      using True clean es fs all by (auto simp: collects_def collect_children_Cons)
  qed
qed

lemma clean_children_listed: "clean_children u cs \<Longrightarrow> list_directory (Some cs) = Inr cs"
  by (force simp: list_directory_eq_Inr clean_children_def)

lemma list_directory_Some: "list_directory (Some cs) = Inr cs \<or> (\<exists>e. list_directory (Some cs) = Inl e)"
  by (cases "list_directory (Some cs)") (auto simp: list_directory_eq_Inr)

lemma collect_spec:
  "\<lbrakk>list_all (\<lambda>s. u s \<and> safe_segment s) dir; children = Some cs\<rbrakk> \<Longrightarrow>
    collects H X u dir cs out (collect_directory H X u dir children out)"
  "list_all (\<lambda>s. u s \<and> safe_segment s) dir \<Longrightarrow>
    collects H X u dir ds out (collect_children H X u dir ds out)"
proof (induction H X u dir children out and H X u dir ds out arbitrary: cs
    rule: collect_directory_collect_children.induct)
  case (1 H X u dir children out)
  show ?case
  proof (cases "list_directory (Some cs) = Inr cs")
    case True
    then show ?thesis
      using 1 by (auto simp: collect_directory.simps collects_def collected_simps split: if_splits)
  next
    case False
    then have "\<exists>e. list_directory (Some cs) = Inl e" "\<not> clean_children u cs"
      using list_directory_Some clean_children_listed by blast+
    then show ?thesis
      using 1 by (auto simp: collect_directory.simps collects_def)
  qed
next
  case (2 H X u dir out)
  then show ?case by (simp add: collects_def collect_children.simps collected_simps)
next
  case (3 H X u dir n child rest out)
  then show ?case
    by (intro collect_step) (auto simp: handle_child_def)
qed

section \<open>Properties\<close>

text \<open>The shape check accepts exactly the lists whose entries have a path of safe segments, a
  canonical decimal length below 2 to the 64 and a 64-digit lowercase digest and whose paths increase
  strictly; an accepted path splits into its segments and none of them is empty, a dot or two dots.\<close>

theorem manifest_shape_exact:
  "(validate_manifest_shape es = Inr () \<longleftrightarrow>
      list_all entry_shape es \<and> sorted_wrt (<) (map me_path es))
    \<and> (validate_manifest_shape es = Inr () \<longrightarrow>
      (\<forall>e \<in> set es. \<forall>s \<in> set (split_char (CHR ''/'') (me_path e)).
         s \<noteq> [] \<and> s \<noteq> ''.'' \<and> s \<noteq> ''..''))"
proof -
  have "s \<noteq> [] \<and> s \<noteq> ''.'' \<and> s \<noteq> ''..''"
    if e: "entry_shape e" and s: "s \<in> set (split_char (CHR ''/'') (me_path e))" for e s
  proof -
    obtain ss where ss: "ss \<noteq> []" "list_all safe_segment ss" "me_path e = join_slash ss"
      using e by (auto simp: entry_shape_def)
    then have "split_char (CHR ''/'') (me_path e) = ss"
      using split_join safe_segment_no_slash by (simp add: list_all_iff)
    then have "safe_segment s" using s ss(2) by (simp add: list_all_iff)
    then show ?thesis by (auto simp: safe_segment_def is_segment_start_def)
  qed
  then show ?thesis by (auto simp: validate_manifest_shape_iff list_all_iff)
qed

lemma snapshot_eq_Inr:
  "build_manifest_snapshot H X u children = Inr m \<longleftrightarrow>
     (\<exists>cs. children = Some cs \<and> clean_children u cs \<and> sorted_wrt (<) (map me_path m)
       \<and> list_all entry_shape m \<and> set m = collected H X [] cs
       \<and> (\<exists>es. collect_directory H X u [] (Some cs) [] = Inr es \<and> m = sort_key me_path es))"
proof (cases children)
  case None
  then show ?thesis by (simp add: build_manifest_snapshot_def collect_unreadable)
next
  case (Some cs)
  have spec: "collects H X u [] cs [] (collect_directory H X u [] (Some cs) [])"
    using collect_spec(1) [of u "[]" "Some cs" cs] by simp
  have snapshot: "build_manifest_snapshot H X u children = Inr m \<longleftrightarrow>
      (\<exists>es. collect_directory H X u [] (Some cs) [] = Inr es \<and> m = sort_key me_path es
         \<and> list_all entry_shape m \<and> sorted_wrt (<) (map me_path m))"
    unfolding Some by (auto simp: build_manifest_snapshot_def Let_def validate_manifest_shape_iff)
  have clean: "clean_children u cs \<and> set es = collected H X [] cs"
    if "collect_directory H X u [] (Some cs) [] = Inr es" for es
    using spec that by (simp add: collects_def split: if_splits)
  show ?thesis
  proof
    assume "build_manifest_snapshot H X u children = Inr m"
    then obtain es where es: "collect_directory H X u [] (Some cs) [] = Inr es"
      "m = sort_key me_path es" "list_all entry_shape m" "sorted_wrt (<) (map me_path m)"
      using snapshot by blast
    have "set m = collected H X [] cs" using clean [OF es(1)] es(2) by simp
    with clean [OF es(1)] es Some show "\<exists>cs. children = Some cs \<and> clean_children u cs
       \<and> sorted_wrt (<) (map me_path m) \<and> list_all entry_shape m \<and> set m = collected H X [] cs
       \<and> (\<exists>es. collect_directory H X u [] (Some cs) [] = Inr es \<and> m = sort_key me_path es)"
      by blast
  qed (use snapshot Some in blast)
qed

lemma build_eq_Inr:
  "build_proof_output_manifest H X u root later = Inr m \<longleftrightarrow>
     (\<exists>cs. root = Some (DirNode cs) \<and> build_manifest_snapshot H X u (Some cs) = Inr m
        \<and> build_manifest_snapshot H X u later = Inr m)"
proof -
  have "build_manifest_snapshot H X u None \<noteq> Inr m" for m
    by (simp add: build_manifest_snapshot_def collect_unreadable)
  then show ?thesis
    by (auto simp: build_proof_output_manifest_def require_ordinary_directory_def
        split: option.splits node.splits)
qed

lemma compare_entries_eq_Inr:
  "length xs = length ys \<Longrightarrow> compare_entries i (zip xs ys) = Inr u \<longleftrightarrow> xs = ys"
  by (induction xs ys arbitrary: i rule: list_induct2) auto

lemma clean_tree_builds:
  assumes "clean_children name_is_utf8 cs" and "distinct_children cs"
    and "\<And>bs. length (hex_encode (sha256 bs)) = 64
      \<and> list_all is_lower_hex_char (hex_encode (sha256 bs))"
  shows "\<exists>m. build_proof_output_manifest sha256 hex_encode name_is_utf8 (Some (DirNode cs)) (Some cs) = Inr m
    \<and> validate_proof_output_manifest sha256 hex_encode name_is_utf8 (Some (DirNode cs)) (Some cs) m = Inr ()"
proof -
  obtain es where es: "collect_directory sha256 hex_encode name_is_utf8 [] (Some cs) [] = Inr es"
    "set es = collected sha256 hex_encode [] cs" "distinct (map me_path es)"
    using collect_spec(1) [of name_is_utf8 "[]" "Some cs" cs sha256 hex_encode "[]"] assms(1,2)
    by (auto simp: collects_def)
  let ?m = "sort_key me_path es"
  have "sorted (map me_path ?m)" by simp
  moreover have "distinct (map me_path ?m)"
  proof -
    have "mset (map me_path ?m) = mset (map me_path es)" by simp
    then show ?thesis using es(3) mset_eq_imp_distinct_iff by blast
  qed
  ultimately have sorted: "sorted_wrt (<) (map me_path ?m)" by (simp add: strict_sorted_iff)
  have "entry_shape e" if e: "e \<in> set ?m" for e
  proof -
    obtain p chunks where p: "e = entry_of sha256 hex_encode p chunks" "file_in cs p chunks"
      using e es(2) by (auto simp: collected_def)
    then have "list_all safe_segment p" "p \<noteq> []"
      using file_in_safe [OF p(2) assms(1)] file_in_path [OF p(2)] by (simp_all add: list_all_iff)
    moreover have "length (read_all chunks) < 2 ^ 64"
      using p(2) assms(1)
      by (induction rule: file_in.induct) (force simp: clean_children_def usize_limit_def)+
    ultimately show ?thesis
      using p(1) assms(3) decimal_digits_canonical [of "length (read_all chunks)"]
      by (auto simp: entry_shape_def entry_of_def decimal_value_digits)
  qed
  then have "build_manifest_snapshot sha256 hex_encode name_is_utf8 (Some cs) = Inr ?m"
    using es sorted assms(1) by (auto simp: snapshot_eq_Inr list_all_iff)
  then have build: "build_proof_output_manifest sha256 hex_encode name_is_utf8 (Some (DirNode cs)) (Some cs) = Inr ?m"
    by (auto simp: build_eq_Inr)
  then have "validate_manifest_shape ?m = Inr ()"
    by (auto simp: build_eq_Inr snapshot_eq_Inr validate_manifest_shape_iff)
  then show ?thesis
    using build by (auto simp: validate_proof_output_manifest_def compare_entries_eq_Inr)
qed


definition sample_entry :: ManifestEntry where
  "sample_entry = \<lparr>me_path = ''a/b'', me_length = ''1'', me_sha256 = replicate 64 (CHR ''0'')\<rparr>"

theorem manifest_shape_exact_witness:
  "validate_manifest_shape [sample_entry] = Inr () \<and> [] \<notin> set (split_char (CHR ''/'') ''a/b'')"
proof -
  have "validate_manifest_shape [sample_entry] = Inr ()"
    by (simp add: validate_manifest_shape_def sample_entry_def validate_relative_path_def
        is_ascii_char_def validate_path_segment_def is_segment_start_def is_segment_byte_def
        validate_decimal_u64_def is_ascii_digit_def decimal_value_def digit_value_def
        validate_sha256_def is_lower_hex_char_def list_all_iff)
  then show ?thesis
    using manifest_shape_exact [of "[sample_entry]"] by (auto simp: sample_entry_def)
qed

definition sample_tree :: "(string \<times> node) list" where
  "sample_tree =
     [(''po2-15'', DirNode [(''seal.bin'', FileNode (OpenedFile 3 [Some [1, 2], Some [3], Some []]))]),
      (''a.bin'', FileNode (OpenedFile 0 [Some []]))]"

definition sample_sha256 :: "bytes \<Rightarrow> bytes" where
  "sample_sha256 bs = replicate 32 (word_of_nat (length bs))"

definition sample_hex :: "bytes \<Rightarrow> string" where
  "sample_hex bs = replicate 64 CHR ''0''"

lemma sample_tree_clean:
  "clean_children (\<lambda>_. True) sample_tree" "distinct_children sample_tree"
  "length (sample_hex (sample_sha256 bs)) = 64"
  "list_all is_lower_hex_char (sample_hex (sample_sha256 bs))"
  by (simp_all add: sample_tree_def clean_children_def distinct_children_def safe_segment_def
      is_segment_start_def is_segment_byte_def read_all_def reads_def reads_succeed_def usize_limit_def sample_hex_def
      is_lower_hex_char_def is_ascii_digit_def list_all_iff)

text \<open>C38. A built manifest is the inventory of the tree: the root is a directory without links or
  special files, every regular file has exactly one entry with its path, length and digest, there is
  no other entry, the paths increase strictly, and both snapshots saw the same files.\<close>

theorem built_manifest_is_inventory:
  assumes "build_proof_output_manifest sha256 hex_encode name_is_utf8 root later = Inr m"
  shows "\<exists>cs ds. root = Some (DirNode cs) \<and> clean_children name_is_utf8 cs
    \<and> later = Some ds \<and> clean_children name_is_utf8 ds
    \<and> sorted_wrt (<) (map me_path m)
    \<and> set m = {entry_of sha256 hex_encode p chunks | p chunks. file_in cs p chunks}
    \<and> set m = {entry_of sha256 hex_encode p chunks | p chunks. file_in ds p chunks}
    \<and> validate_manifest_shape m = Inr ()"
  using assms
  by (auto simp: build_eq_Inr snapshot_eq_Inr collected_def validate_manifest_shape_iff)

theorem built_manifest_is_inventory_witness:
  "\<exists>m. build_proof_output_manifest sample_sha256 sample_hex (\<lambda>_. True) (Some (DirNode sample_tree))
      (Some sample_tree) = Inr m
    \<and> set m = {entry_of sample_sha256 sample_hex p chunks | p chunks. file_in sample_tree p chunks}"
proof -
  obtain m where m: "build_proof_output_manifest sample_sha256 sample_hex (\<lambda>_. True)
      (Some (DirNode sample_tree)) (Some sample_tree) = Inr m"
    using clean_tree_builds [of "\<lambda>_. True" sample_tree sample_hex sample_sha256] sample_tree_clean
    by auto
  from built_manifest_is_inventory [OF m] m show ?thesis by blast
qed

text \<open>C40. Validation accepts an expected manifest exactly when building succeeds and returns that very
  manifest.\<close>

theorem manifest_validation_exact:
  "validate_proof_output_manifest sha256 hex_encode name_is_utf8 root later expected = Inr () \<longleftrightarrow>
    build_proof_output_manifest sha256 hex_encode name_is_utf8 root later = Inr expected"
proof -
  have shape: "validate_manifest_shape m = Inr ()"
    if "build_proof_output_manifest sha256 hex_encode name_is_utf8 root later = Inr m" for m
    using that by (auto simp: build_eq_Inr snapshot_eq_Inr validate_manifest_shape_iff)
  show ?thesis
    using shape compare_entries_eq_Inr [of expected expected 0]
    by (auto simp: validate_proof_output_manifest_def compare_entries_eq_Inr split: if_splits)
qed

text \<open>C39. Capture succeeds on every clean tree: a tree of distinct safe names without links or special
  files, in which the operating system lets every directory be listed, every entry be inspected and
  every file be opened and read to its end, and whose files stay unchanged while they are read and
  between the snapshots, has a manifest, and validation accepts it.\<close>

theorem clean_tree_is_captured:
  assumes "clean_children name_is_utf8 cs" and "distinct_children cs"
    and "\<And>bs. length (hex_encode (sha256 bs)) = 64
      \<and> list_all is_lower_hex_char (hex_encode (sha256 bs))"
  shows "\<exists>m. build_proof_output_manifest sha256 hex_encode name_is_utf8 (Some (DirNode cs)) (Some cs) = Inr m
    \<and> validate_proof_output_manifest sha256 hex_encode name_is_utf8 (Some (DirNode cs)) (Some cs) m = Inr ()"
  using clean_tree_builds [of name_is_utf8 cs hex_encode sha256] assms by blast

theorem clean_tree_is_captured_witness:
  "\<exists>m. build_proof_output_manifest sample_sha256 sample_hex (\<lambda>_. True) (Some (DirNode sample_tree))
      (Some sample_tree) = Inr m
    \<and> validate_proof_output_manifest sample_sha256 sample_hex (\<lambda>_. True) (Some (DirNode sample_tree))
      (Some sample_tree) m = Inr ()"
  using clean_tree_is_captured [of "\<lambda>_. True" sample_tree sample_hex sample_sha256] sample_tree_clean
  by simp

end
