(* ===== verification/OciPath.thy ===== *)
theory OciPath
  imports Prelude "HOL-Library.Multiset"
begin

text \<open>
  The lexical rules of an OCI layer
  (\<open>generator/src/b4_campaign_executor/oci_image_layout_import/layer.rs\<close>): member paths, the
  canonical ustar name/prefix split, symbolic-link targets, whiteout names and the set of whiteout
  targets. A Rust string is its list of UTF-8 bytes, so lengths and the order of paths are those of
  the bytes; a \<open>BTreeSet<String>\<close> is the ascending list of its elements.
\<close>

section \<open>Strings as bytes\<close>

definition SLASH :: u8 where "SLASH = 0x2F"

text \<open>\<open>str::split(c)\<close>: always at least one piece.\<close>

fun split_byte :: "u8 \<Rightarrow> bytes \<Rightarrow> bytes list" where
  "split_byte c [] = [[]]"
| "split_byte c (x # xs) =
     (if x = c then [] # split_byte c xs
      else (x # hd (split_byte c xs)) # tl (split_byte c xs))"

text \<open>\<open>str::rsplit_once(c)\<close>: the parts before and after the last occurrence.\<close>

fun rsplit_once :: "u8 \<Rightarrow> bytes \<Rightarrow> (bytes \<times> bytes) option" where
  "rsplit_once c [] = None"
| "rsplit_once c (x # xs) =
     (case rsplit_once c xs of
        Some (a, b) \<Rightarrow> Some (x # a, b)
      | None \<Rightarrow> if x = c then Some ([], xs) else None)"

text \<open>\<open>str::match_indices(c)\<close>: the positions of the occurrences, ascending.\<close>

definition match_indices :: "u8 \<Rightarrow> bytes \<Rightarrow> nat list" where
  "match_indices c xs = filter (\<lambda>i. xs ! i = c) [0..<length xs]"

definition ends_with :: "bytes \<Rightarrow> bytes \<Rightarrow> bool" where
  "ends_with xs suf \<longleftrightarrow>
     length suf \<le> length xs \<and> drop (length xs - length suf) xs = suf"

section \<open>Errors\<close>

datatype PathError =
    PathLength | PathNotRelative | DirectoryTrailingSlash | FileTrailingSlash
  | PathEmpty | PathNotContained | NoCanonicalSplit
  | SymlinkTargetEmpty | SymlinkEscapes
  | WhiteoutBasename | WhiteoutConflict

section \<open>Member paths\<close>

definition USTAR_PATH_MAX_BYTES :: nat where "USTAR_PATH_MAX_BYTES = 240"

definition TYPE_REGULAR :: u8 where "TYPE_REGULAR = 0x30"
definition TYPE_SYMLINK :: u8 where "TYPE_SYMLINK = 0x32"
definition TYPE_DIRECTORY :: u8 where "TYPE_DIRECTORY = 0x35"

definition validate_normalized_layer_path :: "bytes \<Rightarrow> PathError + unit" where
  "validate_normalized_layer_path path =
     and_then (ensure (path \<noteq> []) PathEmpty) (\<lambda>_.
     ensure (list_all (\<lambda>component. component \<noteq> [] \<and> component \<noteq> ascii ''.''
               \<and> component \<noteq> ascii ''..'') (split_byte SLASH path)) PathNotContained)"

definition normalize_ustar_header_path :: "bytes \<Rightarrow> u8 \<Rightarrow> PathError + bytes" where
  "normalize_ustar_header_path path typeflag =
     and_then (ensure (path \<noteq> [] \<and> length path \<le> USTAR_PATH_MAX_BYTES) PathLength) (\<lambda>_.
     and_then (ensure (\<not> starts_with path [SLASH]) PathNotRelative) (\<lambda>_.
     and_then (if typeflag = TYPE_DIRECTORY
               then and_then (ensure (ends_with path [SLASH] \<and> \<not> ends_with path [SLASH, SLASH])
                               DirectoryTrailingSlash) (\<lambda>_. Inr (take (length path - 1) path))
               else and_then (ensure (\<not> ends_with path [SLASH]) FileTrailingSlash)
                      (\<lambda>_. Inr path)) (\<lambda>normalized.
     and_then (validate_normalized_layer_path normalized) (\<lambda>_. Inr normalized))))"

text \<open>
  The loop over \<open>path.rmatch_indices('/')\<close>: the separators are tried from the last one, that is
  along the reversed list of \<open>match_indices\<close>.
\<close>

fun split_loop :: "bytes \<Rightarrow> nat list \<Rightarrow> PathError + bytes \<times> bytes" where
  "split_loop path [] = Inl NoCanonicalSplit"
| "split_loop path (separator # rest) =
     (let prefix = take separator path; name = drop (separator + 1) path in
      if name \<noteq> [] \<and> length prefix \<le> 155 \<and> length name \<le> 100 then Inr (prefix, name)
      else split_loop path rest)"

definition canonical_ustar_split :: "bytes \<Rightarrow> PathError + bytes \<times> bytes" where
  "canonical_ustar_split path =
     (if length path \<le> 100 then Inr ([], path)
      else split_loop path (rev (match_indices SLASH path)))"

section \<open>Symbolic-link targets\<close>

text \<open>The resolution stack of \<open>validate_symlink_target\<close>; its top is the last element.\<close>

fun resolve_components :: "bytes list \<Rightarrow> bytes list \<Rightarrow> PathError + bytes list" where
  "resolve_components resolved [] = Inr resolved"
| "resolve_components resolved (component # rest) =
     (if component = [] \<or> component = ascii ''.'' then resolve_components resolved rest
      else if component = ascii ''..''
      then and_then (ensure (resolved \<noteq> []) SymlinkEscapes)
             (\<lambda>_. resolve_components (butlast resolved) rest)
      else resolve_components (resolved @ [component]) rest)"

definition symlink_base :: "bytes \<Rightarrow> bytes \<Rightarrow> bytes list" where
  "symlink_base entry_path target =
     (if starts_with target [SLASH] then [] else butlast (split_byte SLASH entry_path))"

definition validate_symlink_target :: "bytes \<Rightarrow> bytes \<Rightarrow> PathError + unit" where
  "validate_symlink_target entry_path target =
     and_then (ensure (target \<noteq> []) SymlinkTargetEmpty) (\<lambda>_.
     and_then (resolve_components (symlink_base entry_path target) (split_byte SLASH target))
       (\<lambda>_. Inr ()))"

section \<open>Whiteouts\<close>

definition WHITEOUT_PREFIX :: bytes where "WHITEOUT_PREFIX = ascii ''.wh.''"
definition OPAQUE_BASENAME :: bytes where "OPAQUE_BASENAME = ascii ''.wh..wh..opq''"

definition whiteout_target :: "bytes \<Rightarrow> PathError + bytes option" where
  "whiteout_target path =
     (let (parent, basename) = (case rsplit_once SLASH path of
                                  Some pb \<Rightarrow> pb | None \<Rightarrow> ([], path)) in
      if \<not> starts_with basename WHITEOUT_PREFIX then Inr None
      else if basename = OPAQUE_BASENAME then Inr (Some parent)
      else let target_name = drop 4 basename in
        and_then (ensure (target_name \<noteq> []) WhiteoutBasename) (\<lambda>_.
        let target = (if parent = [] then target_name else parent @ [SLASH] @ target_name) in
        and_then (validate_normalized_layer_path target) (\<lambda>_. Inr (Some target))))"

text \<open>
  \<open>existing\<close> is the ascending list of the set; \<open>range(from..).next()\<close> is its first element that
  is not below \<open>from\<close>.
\<close>

definition range_first :: "bytes list \<Rightarrow> bytes \<Rightarrow> bytes option" where
  "range_first existing from = List.find (\<lambda>x. from \<le> x) existing"

definition insert_nonoverlapping_whiteout ::
  "bytes list \<Rightarrow> bytes \<Rightarrow> PathError + bytes list" where
  "insert_nonoverlapping_whiteout existing candidate =
     and_then (ensure (candidate \<notin> set existing) WhiteoutConflict) (\<lambda>_.
     and_then
       (if candidate = [] then ensure (existing = []) WhiteoutConflict
        else
          and_then (ensure ([] \<notin> set existing) WhiteoutConflict) (\<lambda>_.
          and_then (ensure (list_all (\<lambda>separator. take separator candidate \<notin> set existing)
                      (match_indices SLASH candidate)) WhiteoutConflict) (\<lambda>_.
          let descendant_prefix = candidate @ [SLASH] in
          case range_first existing descendant_prefix of
            Some descendant \<Rightarrow>
              ensure (\<not> starts_with descendant descendant_prefix) WhiteoutConflict
          | None \<Rightarrow> Inr ()))) (\<lambda>_.
     Inr (insort candidate existing)))"

section \<open>Components\<close>

fun join_slashes :: "bytes list \<Rightarrow> bytes" where
  "join_slashes [] = []"
| "join_slashes [c] = c"
| "join_slashes (c # d # rest) = c @ SLASH # join_slashes (d # rest)"

lemma split_byte_not_Nil [simp]: "split_byte c xs \<noteq> []"
  by (cases xs) auto

lemma join_slashes_Cons:
  "cs \<noteq> [] \<Longrightarrow> join_slashes (c # cs) = c @ SLASH # join_slashes cs"
  by (cases cs) simp_all

lemma join_slashes_extend:
  "cs \<noteq> [] \<Longrightarrow> join_slashes ((x # hd cs) # tl cs) = x # join_slashes cs"
  by (cases cs rule: join_slashes.cases) simp_all

lemma byte_join_split [simp]: "join_slashes (split_byte SLASH xs) = xs"
  by (induction xs) (simp_all add: join_slashes_Cons join_slashes_extend)

lemma split_pieces: "d \<in> set (split_byte c xs) \<Longrightarrow> c \<notin> set d"
proof (induction xs arbitrary: d)
  case Nil
  then show ?case by simp
next
  case (Cons x xs)
  have hd: "c \<notin> set (hd (split_byte c xs))" by (rule Cons.IH) simp
  have tl: "c \<notin> set e" if "e \<in> set (tl (split_byte c xs))" for e
    using that by (intro Cons.IH) (simp add: list.set_sel(2))
  show ?case using Cons.prems Cons.IH hd tl by (auto split: if_splits)
qed

lemma byte_split_append:
  "c \<notin> set xs \<Longrightarrow> split_byte c (xs @ c # ys) = xs # split_byte c ys"
  by (induction xs) auto

lemma byte_split_single: "c \<notin> set xs \<Longrightarrow> split_byte c xs = [xs]"
  by (induction xs) auto

lemma byte_split_join:
  "cs \<noteq> [] \<Longrightarrow> list_all (\<lambda>d. SLASH \<notin> set d) cs \<Longrightarrow> split_byte SLASH (join_slashes cs) = cs"
  by (induction cs rule: join_slashes.induct) (simp_all add: byte_split_append byte_split_single)

lemma split_snoc: "split_byte c (xs @ [c]) = split_byte c xs @ [[]]"
  by (induction xs) simp_all

text \<open>A component that names a child of its directory.\<close>

definition ordinary_component :: "bytes \<Rightarrow> bool" where
  "ordinary_component d \<longleftrightarrow>
     d \<noteq> [] \<and> d \<noteq> ascii ''.'' \<and> d \<noteq> ascii ''..'' \<and> SLASH \<notin> set d"

definition contained_path :: "bytes \<Rightarrow> bool" where
  "contained_path path \<longleftrightarrow>
     (\<exists>cs. cs \<noteq> [] \<and> list_all ordinary_component cs \<and> path = join_slashes cs)"

lemma split_nonempty_path:
  assumes "list_all (\<lambda>d. d \<noteq> []) (split_byte SLASH path)"
  shows "path \<noteq> []" "\<not> starts_with path [SLASH]" "\<not> ends_with path [SLASH]"
proof -
  show "path \<noteq> []" using assms by auto
  show "\<not> starts_with path [SLASH]" using assms by auto
  show "\<not> ends_with path [SLASH]"
  proof
    assume "ends_with path [SLASH]"
    then have "path = take (length path - 1) path @ [SLASH]"
      unfolding ends_with_def by (metis append_take_drop_id length_Cons list.size(3) One_nat_def)
    then obtain xs where "path = xs @ [SLASH]" by blast
    then have "[] \<in> set (split_byte SLASH path)" by (simp add: split_snoc)
    then show False using assms by (auto simp: list_all_iff)
  qed
qed

lemma validate_normalized_eq:
  "validate_normalized_layer_path path = Inr u \<longleftrightarrow> contained_path path"
proof -
  have "validate_normalized_layer_path path = Inr u \<longleftrightarrow>
      path \<noteq> [] \<and> list_all (\<lambda>d. d \<noteq> [] \<and> d \<noteq> ascii ''.'' \<and> d \<noteq> ascii ''..'') (split_byte SLASH path)"
    by (simp add: validate_normalized_layer_path_def)
  also have "\<dots> \<longleftrightarrow> list_all ordinary_component (split_byte SLASH path)"
    using split_pieces [of _ SLASH path] split_nonempty_path(1) [of path]
    by (auto simp: list_all_iff ordinary_component_def)
  also have "\<dots> \<longleftrightarrow> contained_path path"
  proof
    assume "list_all ordinary_component (split_byte SLASH path)"
    then show "contained_path path"
      unfolding contained_path_def by (intro exI [of _ "split_byte SLASH path"]) simp
  next
    assume "contained_path path"
    then obtain cs where cs: "cs \<noteq> []" "list_all ordinary_component cs" "path = join_slashes cs"
      unfolding contained_path_def by blast
    then have "split_byte SLASH path = cs"
      by (simp add: byte_split_join list_all_iff ordinary_component_def)
    then show "list_all ordinary_component (split_byte SLASH path)" using cs by simp
  qed
  finally show ?thesis .
qed

lemma contained_path_shape:
  assumes "contained_path path"
  shows "path \<noteq> []" "\<not> starts_with path [SLASH]" "\<not> ends_with path [SLASH]"
proof -
  from assms have "validate_normalized_layer_path path = Inr ()" by (simp add: validate_normalized_eq)
  then have "list_all (\<lambda>d. d \<noteq> []) (split_byte SLASH path)"
    by (auto simp: validate_normalized_layer_path_def list_all_iff)
  from split_nonempty_path [OF this]
  show "path \<noteq> []" "\<not> starts_with path [SLASH]" "\<not> ends_with path [SLASH]" by simp_all
qed

lemma ends_with_snoc: "ends_with path [x] \<longleftrightarrow> (\<exists>ys. path = ys @ [x])"
  unfolding ends_with_def
  by (cases path rule: rev_cases) auto

lemma ends_with_two: "ends_with path [x, y] \<longleftrightarrow> (\<exists>ys. path = ys @ [x, y])"
proof
  assume "ends_with path [x, y]"
  then show "\<exists>ys. path = ys @ [x, y]"
    unfolding ends_with_def by (metis append_take_drop_id)
qed (auto simp: ends_with_def)

lemma normalize_path_eq_Inr:
  "normalize_ustar_header_path path typeflag = Inr normalized \<longleftrightarrow>
    length path \<le> 240 \<and> contained_path normalized
    \<and> path = normalized @ (if typeflag = TYPE_DIRECTORY then [SLASH] else [])"
proof (cases "typeflag = TYPE_DIRECTORY")
  case True
  show ?thesis
  proof
    assume "normalize_ustar_header_path path typeflag = Inr normalized"
    with True show "length path \<le> 240 \<and> contained_path normalized
        \<and> path = normalized @ (if typeflag = TYPE_DIRECTORY then [SLASH] else [])"
      by (auto simp: normalize_ustar_header_path_def USTAR_PATH_MAX_BYTES_def
          validate_normalized_eq ends_with_snoc)
  next
    assume r: "length path \<le> 240 \<and> contained_path normalized
        \<and> path = normalized @ (if typeflag = TYPE_DIRECTORY then [SLASH] else [])"
    note shape = contained_path_shape [of normalized]
    have "\<not> starts_with path [SLASH]"
      using r shape True by (cases normalized) auto
    moreover have "\<not> ends_with path [SLASH, SLASH]"
      using r shape True by (auto simp: ends_with_two ends_with_snoc)
    ultimately show "normalize_ustar_header_path path typeflag = Inr normalized"
      using r True by (auto simp: normalize_ustar_header_path_def USTAR_PATH_MAX_BYTES_def
          validate_normalized_eq ends_with_snoc)
  qed
next
  case False
  then show ?thesis
    using contained_path_shape [of normalized]
    by (auto simp: normalize_ustar_header_path_def USTAR_PATH_MAX_BYTES_def validate_normalized_eq)
qed

text \<open>
  A header path is accepted exactly when it is at most 240 bytes long and spells a nonempty
  sequence of ordinary components separated by single slashes, followed by one slash for a directory
  and by nothing for any other type; the normalized path is the spelling without that slash.
\<close>

theorem normalized_path_exact:
  "normalize_ustar_header_path path typeflag = Inr normalized \<longleftrightarrow>
    length path \<le> 240 \<and> contained_path normalized
    \<and> path = normalized @ (if typeflag = TYPE_DIRECTORY then [SLASH] else [])"
  by (rule normalize_path_eq_Inr)

section \<open>The canonical split\<close>

text \<open>A separator that leaves a nonempty name and fits both ustar fields.\<close>

definition admissible_split :: "bytes \<Rightarrow> nat \<Rightarrow> bool" where
  "admissible_split path i \<longleftrightarrow>
     i < length path \<and> path ! i = SLASH \<and> i \<le> 155 \<and> i + 1 < length path
     \<and> length path - (i + 1) \<le> 100"

lemma split_loop_step:
  "n < length path \<Longrightarrow> path ! n = SLASH \<Longrightarrow>
    split_loop path (n # rest) =
      (if admissible_split path n then Inr (take n path, drop (n + 1) path) else split_loop path rest)"
  by (auto simp: admissible_split_def Let_def)

lemma split_loop_find:
  "n \<le> length path \<Longrightarrow>
    split_loop path (rev (filter (\<lambda>i. path ! i = SLASH) [0..<n])) =
      (case List.find (admissible_split path) (rev [0..<n]) of
         Some i \<Rightarrow> Inr (take i path, drop (i + 1) path) | None \<Rightarrow> Inl NoCanonicalSplit)"
proof (induction n)
  case 0
  then show ?case by simp
next
  case (Suc n)
  show ?case
  proof (cases "path ! n = SLASH")
    case True
    then show ?thesis
      using Suc split_loop_step [of n path] by (simp del: split_loop.simps(2))
  next
    case False
    then have "\<not> admissible_split path n" by (simp add: admissible_split_def)
    then show ?thesis using False Suc by simp
  qed
qed

lemma canonical_split_find:
  "canonical_ustar_split path =
    (if length path \<le> 100 then Inr ([], path)
     else case List.find (admissible_split path) (rev [0..<length path]) of
            Some i \<Rightarrow> Inr (take i path, drop (i + 1) path)
          | None \<Rightarrow> Inl NoCanonicalSplit)"
  using split_loop_find [of "length path" path]
  by (simp add: canonical_ustar_split_def match_indices_def)

lemma canonical_split_joins:
  assumes "canonical_ustar_split path = Inr (p, q)"
  shows "path = (if length path \<le> 100 then q else p @ SLASH # q)"
    and "length path \<le> 100 \<Longrightarrow> p = []" and "length p \<le> 155" and "length q \<le> 100"
proof -
  have "path = (if length path \<le> 100 then q else p @ SLASH # q)
      \<and> (length path \<le> 100 \<longrightarrow> p = []) \<and> length p \<le> 155 \<and> length q \<le> 100"
  proof (cases "length path \<le> 100")
    case True
    then show ?thesis using assms by (simp add: canonical_ustar_split_def)
  next
    case False
    then obtain i where find: "List.find (admissible_split path) (rev [0..<length path]) = Some i"
      and i: "p = take i path" "q = drop (i + 1) path"
      using assms by (auto simp: canonical_split_find split: option.splits)
    from find have adm: "admissible_split path i" by (metis find_Some_iff)
    then have "path = p @ SLASH # q"
      using i unfolding admissible_split_def by (metis Suc_eq_plus1 id_take_nth_drop)
    then show ?thesis using i adm False by (auto simp: admissible_split_def)
  qed
  then show "path = (if length path \<le> 100 then q else p @ SLASH # q)"
    and "length path \<le> 100 \<Longrightarrow> p = []" and "length p \<le> 155" and "length q \<le> 100"
    by simp_all
qed

lemma canonical_split_name:
  assumes "canonical_ustar_split path = Inr (p, q)" "path \<noteq> []"
  shows "q \<noteq> []"
proof (cases "length path \<le> 100")
  case True
  then show ?thesis using assms by (simp add: canonical_ustar_split_def)
next
  case False
  then obtain i where find: "List.find (admissible_split path) (rev [0..<length path]) = Some i"
    and q: "q = drop (i + 1) path"
    using assms by (auto simp: canonical_split_find split: option.splits)
  from find have "admissible_split path i" by (metis find_Some_iff)
  then show ?thesis using q by (simp add: admissible_split_def)
qed

text \<open>
  A path of at most 100 bytes is stored whole in the name field. A longer path is split at its
  last slash for which the prefix has at most 155 bytes and the name between 1 and 100, and is refused
  exactly when no slash is such; the two parts with their slash are the path.
\<close>

theorem canonical_split_exact:
  "canonical_ustar_split path =
    (if length path \<le> 100 then Inr ([], path)
     else case List.find (admissible_split path) (rev [0..<length path]) of
            Some i \<Rightarrow> Inr (take i path, drop (i + 1) path)
          | None \<Rightarrow> Inl NoCanonicalSplit)
   \<and> (case canonical_ustar_split path of
        Inr (p, q) \<Rightarrow> (if length path \<le> 100 then q else p @ SLASH # q) = path
          \<and> length p \<le> 155 \<and> length q \<le> 100
      | Inl e \<Rightarrow> True)"
proof (rule conjI [OF canonical_split_find])
  show "case canonical_ustar_split path of
        Inr (p, q) \<Rightarrow> (if length path \<le> 100 then q else p @ SLASH # q) = path
          \<and> length p \<le> 155 \<and> length q \<le> 100
      | Inl e \<Rightarrow> True"
  proof (cases "canonical_ustar_split path")
    case (Inr pq)
    obtain p q where pq: "pq = (p, q)" by fastforce
    show ?thesis using canonical_split_joins [of path p q] Inr pq by simp
  qed simp
qed

section \<open>Symbolic links stay inside the layer\<close>

definition component_step :: "bytes \<Rightarrow> int" where
  "component_step d =
     (if d = [] \<or> d = ascii ''.'' then 0 else if d = ascii ''..'' then - 1 else 1)"

definition depth_after :: "nat \<Rightarrow> bytes list \<Rightarrow> int" where
  "depth_after base cs = int base + sum_list (map component_step cs)"

lemma depth_prefixes_Cons:
  "(\<forall>k \<le> length (c # cs). 0 \<le> depth_after b (take k (c # cs))) \<longleftrightarrow>
    0 \<le> int b + component_step c
    \<and> (\<forall>k \<le> length cs. 0 \<le> depth_after (nat (int b + component_step c)) (take k cs))"
proof -
  have "(\<forall>k \<le> length (c # cs). 0 \<le> depth_after b (take k (c # cs))) \<longleftrightarrow>
      (\<forall>k \<le> length cs. 0 \<le> depth_after b (c # take k cs))"
  proof (intro iffI allI impI)
    fix k assume "\<forall>k \<le> length (c # cs). 0 \<le> depth_after b (take k (c # cs))" "k \<le> length cs"
    then show "0 \<le> depth_after b (c # take k cs)"
      by (metis Suc_le_mono length_Cons take_Suc_Cons)
  next
    fix k assume "\<forall>k \<le> length cs. 0 \<le> depth_after b (c # take k cs)" "k \<le> length (c # cs)"
    then show "0 \<le> depth_after b (take k (c # cs))"
      by (cases k) (auto simp: depth_after_def)
  qed
  moreover have "0 \<le> int b + component_step c"
    if "\<forall>k \<le> length cs. 0 \<le> depth_after b (c # take k cs)"
    using that [THEN spec, of 0] by (simp add: depth_after_def)
  moreover have "depth_after b (c # ds) = depth_after (nat (int b + component_step c)) ds"
    if "0 \<le> int b + component_step c" for ds using that by (simp add: depth_after_def)
  ultimately show ?thesis by auto
qed

lemma resolve_stays_inside:
  "is_ok (resolve_components resolved cs) \<longleftrightarrow>
    (\<forall>k \<le> length cs. 0 \<le> depth_after (length resolved) (take k cs))"
proof (induction resolved cs rule: resolve_components.induct)
  case (1 resolved)
  then show ?case by (simp add: depth_after_def)
next
  case (2 resolved component rest)
  consider "component = [] \<or> component = ascii ''.''"
    | "component = ascii ''..''" "component \<noteq> []" "component \<noteq> ascii ''.''" "resolved = []"
    | "component = ascii ''..''" "component \<noteq> []" "component \<noteq> ascii ''.''" "resolved \<noteq> []"
    | "component \<noteq> []" "component \<noteq> ascii ''.''" "component \<noteq> ascii ''..''"
    by blast
  then show ?case
  proof cases
    case 1
    then show ?thesis unfolding depth_prefixes_Cons using 2 by (auto simp: component_step_def)
  next
    case 2
    then show ?thesis unfolding depth_prefixes_Cons by (simp add: component_step_def)
  next
    case 3
    then have "nat (int (length resolved) + component_step component) = length (butlast resolved)"
      by (simp add: component_step_def nat_diff_distrib')
    then show ?thesis unfolding depth_prefixes_Cons using 3 2(2)
      by (cases resolved) (auto simp: component_step_def)
  next
    case 4
    then have "nat (int (length resolved) + component_step component) = length (resolved @ [component])"
      by (simp add: component_step_def nat_add_distrib)
    then show ?thesis unfolding depth_prefixes_Cons using 4 2(3)
      by (simp add: component_step_def)
  qed
qed

lemma resolve_error: "resolve_components resolved cs = Inl e \<Longrightarrow> e = SymlinkEscapes"
  by (induction resolved cs rule: resolve_components.induct)
    (auto simp: and_then_eq_Inl split: if_splits)

lemma length_split_byte: "length (split_byte c bs) = Suc (count_list bs c)"
proof (induction bs)
  case (Cons x xs)
  then have "split_byte c xs \<noteq> []" by auto
  with Cons show ?case by simp
qed simp

text \<open>
  The depth at which following a link begins, from the bytes of the two paths alone: the layer root for
  a target that begins with a slash, otherwise the directory that holds the link, which is as deep as
  the path of the link has slashes.
\<close>

definition link_depth :: "bytes \<Rightarrow> bytes \<Rightarrow> nat" where
  "link_depth entry_path target =
     (if target \<noteq> [] \<and> hd target = SLASH then 0 else count_list entry_path SLASH)"

lemma length_symlink_base: "length (symlink_base entry_path target) = link_depth entry_path target"
  by (cases target) (simp_all add: symlink_base_def link_depth_def length_split_byte)

text \<open>
  C31. A symbolic-link target is accepted exactly when it is nonempty and following its components
  never leaves the layer root: starting at depth 0 when the target begins with a slash and otherwise at
  the depth of the directory that holds the link (the number of slashes in the path of the entry),
  after every prefix of the components the depth, one more for each name and one less for each \<open>..\<close>, is
  not negative. Every other nonempty target is reported as escaping.
\<close>

theorem symlink_containment_exact:
  "validate_symlink_target entry_path target =
    (if target = [] then Inl SymlinkTargetEmpty
     else if list_all (\<lambda>k. 0 \<le> depth_after (link_depth entry_path target)
                               (take k (split_byte SLASH target)))
               [0..<length (split_byte SLASH target) + 1]
     then Inr () else Inl SymlinkEscapes)"
proof -
  let ?r = "resolve_components (symlink_base entry_path target) (split_byte SLASH target)"
  let ?in = "list_all (\<lambda>k. 0 \<le> depth_after (link_depth entry_path target)
      (take k (split_byte SLASH target))) [0..<length (split_byte SLASH target) + 1]"
  have "?in \<longleftrightarrow> is_ok ?r"
    unfolding resolve_stays_inside length_symlink_base
    by (auto simp: list_all_iff less_Suc_eq_le simp del: upt_Suc)
  then show ?thesis
    using resolve_error [of "symlink_base entry_path target" "split_byte SLASH target"]
    by (cases ?r) (simp_all add: validate_symlink_target_def del: upt_Suc)
qed

section \<open>Whiteout targets never overlap\<close>

text \<open>One path contains the other, or they are the same; the empty path is the layer root.\<close>

definition covers :: "bytes \<Rightarrow> bytes \<Rightarrow> bool" where
  "covers a b \<longleftrightarrow> a = [] \<or> starts_with b (a @ [SLASH])"

definition overlaps :: "bytes \<Rightarrow> bytes \<Rightarrow> bool" where
  "overlaps a b \<longleftrightarrow> a = b \<or> covers a b \<or> covers b a"

lemma overlaps_sym: "overlaps a b \<longleftrightarrow> overlaps b a"
  by (auto simp: overlaps_def)

lemma le_append_prefix: "p \<le> y \<Longrightarrow> y \<le> p @ r \<Longrightarrow> \<exists>s. y = p @ s" for p :: bytes
proof (induction p arbitrary: y)
  case Nil
  then show ?case by simp
next
  case (Cons a p)
  then show ?case by (cases y) auto
qed

lemma prefix_le: "p \<le> p @ r" for p :: bytes
  by (induction p) auto

lemma range_first_extension:
  assumes "sorted xs"
  shows "(case range_first xs p of Some d \<Rightarrow> \<not> starts_with d p | None \<Rightarrow> True)
    \<longleftrightarrow> \<not> (\<exists>x \<in> set xs. starts_with x p)"
  using assms
proof (induction xs)
  case Nil
  then show ?case by (simp add: range_first_def)
next
  case (Cons x xs)
  show ?case
  proof (cases "p \<le> x")
    case True
    have "starts_with x p" if "y \<in> set xs" "starts_with y p" for y
    proof -
      have "x \<le> y" using Cons.prems that(1) by simp
      then show ?thesis using that(2) True le_append_prefix [of p x] by auto
    qed
    then show ?thesis using True by (auto simp: range_first_def)
  next
    case False
    then have "\<not> starts_with x p" using prefix_le [of p] by auto
    then show ?thesis using False Cons by (simp add: range_first_def)
  qed
qed

lemma ancestor_positions:
  "list_all (\<lambda>i. take i c \<notin> set xs) (match_indices SLASH c) \<longleftrightarrow>
    \<not> (\<exists>x \<in> set xs. starts_with c (x @ [SLASH]))"
proof -
  have "(\<exists>i < length c. c ! i = SLASH \<and> take i c \<in> set xs) \<longleftrightarrow>
      (\<exists>x \<in> set xs. starts_with c (x @ [SLASH]))"
  proof
    assume "\<exists>i < length c. c ! i = SLASH \<and> take i c \<in> set xs"
    then obtain i where i: "i < length c" "c ! i = SLASH" "take i c \<in> set xs" by blast
    then have "c = (take i c @ [SLASH]) @ drop (Suc i) c" using id_take_nth_drop [of i c] by simp
    then have "starts_with c (take i c @ [SLASH])" unfolding starts_with_iff by blast
    with i show "\<exists>x \<in> set xs. starts_with c (x @ [SLASH])" by blast
  next
    assume "\<exists>x \<in> set xs. starts_with c (x @ [SLASH])"
    then obtain x r where "x \<in> set xs" "c = (x @ [SLASH]) @ r" by auto
    then show "\<exists>i < length c. c ! i = SLASH \<and> take i c \<in> set xs"
      by (intro exI [of _ "length x"]) (simp add: nth_append)
  qed
  then show ?thesis by (auto simp: match_indices_def list_all_iff)
qed

lemma insert_whiteout_eq:
  assumes "sorted xs"
  shows "insert_nonoverlapping_whiteout xs c =
    (if list_ex (overlaps c) xs then Inl WhiteoutConflict else Inr (insort c xs))"
proof (cases "c = []")
  case True
  then show ?thesis
    by (cases xs) (auto simp: insert_nonoverlapping_whiteout_def overlaps_def covers_def ensure_def)
next
  case False
  have "insert_nonoverlapping_whiteout xs c =
      (if c \<notin> set xs \<and> [] \<notin> set xs
          \<and> list_all (\<lambda>i. take i c \<notin> set xs) (match_indices SLASH c)
          \<and> (case range_first xs (c @ [SLASH]) of
               Some d \<Rightarrow> \<not> starts_with d (c @ [SLASH]) | None \<Rightarrow> True)
       then Inr (insort c xs) else Inl WhiteoutConflict)"
    using False
    by (simp add: insert_nonoverlapping_whiteout_def ensure_def del: starts_with_iff split: option.split)
  also have "\<dots> = (if list_ex (overlaps c) xs then Inl WhiteoutConflict else Inr (insort c xs))"
    unfolding range_first_extension [OF assms] ancestor_positions
    using False by (auto simp: list_ex_iff overlaps_def covers_def simp del: starts_with_iff)
  finally show ?thesis .
qed

fun insert_whiteouts :: "bytes list \<Rightarrow> bytes list \<Rightarrow> PathError + bytes list" where
  "insert_whiteouts existing [] = Inr existing"
| "insert_whiteouts existing (c # cs) =
     and_then (insert_nonoverlapping_whiteout existing c) (\<lambda>existing. insert_whiteouts existing cs)"

lemma insert_whiteouts_eq:
  "sorted xs \<Longrightarrow>
    insert_whiteouts xs cs =
      (if sorted_wrt (\<lambda>a b. \<not> overlaps a b) cs \<and> list_all (\<lambda>c. \<not> list_ex (overlaps c) xs) cs
       then Inr (sort (xs @ cs)) else Inl WhiteoutConflict)"
proof (induction cs arbitrary: xs)
  case Nil
  then show ?case by (simp add: sorted_sort_id)
next
  case (Cons c cs)
  have mid: "sort (insort c xs @ cs) = sort (xs @ c # cs)"
    by (rule properties_for_sort) simp_all
  have "list_all (\<lambda>d. \<not> list_ex (overlaps d) (insort c xs)) cs \<longleftrightarrow>
      list_all (\<lambda>d. \<not> overlaps c d) cs \<and> list_all (\<lambda>d. \<not> list_ex (overlaps d) xs) cs"
    by (auto simp: list_all_iff list_ex_iff set_insort_key overlaps_sym [of c])
  then show ?case
    using Cons.IH [of "insort c xs"] Cons.prems mid
    by (auto simp: insert_whiteout_eq sorted_insort list_all_iff)
qed

text \<open>
  Inserting whiteout targets one after another succeeds exactly when no two of them overlap, that
  is when none is equal to another or an ancestor of it; the set is then the ascending list of all of
  them, and otherwise the conflict is reported.
\<close>

theorem whiteouts_never_overlap:
  "insert_whiteouts [] targets =
    (if sorted_wrt (\<lambda>a b. \<not> overlaps a b) targets then Inr (sort targets) else Inl WhiteoutConflict)"
  using insert_whiteouts_eq [of "[]" targets] by (simp add: list_all_iff)

end
