(* ===== verification/OciTranscript.thy ===== *)
theory OciTranscript
  imports OciPath
begin

text \<open>
  The changeset transcript of an OCI layer and the replay sinks in front of which it stands
  (\<open>generator/src/b4_campaign_executor/oci_image_layout_import/layer.rs\<close>). The incremental SHA-256
  hasher (crate \<open>sha2\<close>) is the list of the bytes it was fed; \<open>finish\<close> applies the parameter
  \<open>sha256\<close> to it. The trait \<open>OciLayerReplaySinkV1\<close> is the record \<open>replay_sink\<close> of its three
  methods over a state \<open>'w\<close>; the locale \<open>observing_sink\<close> states what a sink that records the event
  stream promises, and both sinks of the module are interpretations of it.
\<close>

section \<open>Entries\<close>

definition IO_BUFFER_BYTES :: nat where "IO_BUFFER_BYTES = 16 * 1024"

definition CHANGESET_TRANSCRIPT_DOMAIN :: bytes where
  "CHANGESET_TRANSCRIPT_DOMAIN = ascii ''EIP-0045 OCI layer changeset transcript v1'' @ [0]"

datatype Whiteout = Remove bytes | OpaqueDirectory bytes

datatype EntryKind =
    EntryRegularFile u64 u64
  | EntryDirectory u64 u64
  | EntrySymbolicLink u64 u64 bytes
  | EntryWhiteout u64 u64 Whiteout

record ReplayEntry =
  en_path :: bytes
  en_kind :: EntryKind

datatype TranscriptError =
    EntryAlreadyOpen | NoOpenEntry | ChunkRange | PayloadForNonRegular | PayloadTooLong
  | PayloadUnfinished | TranscriptOpen

section \<open>The transcript\<close>

record Transcript =
  tr_hashed :: bytes
  tr_entry_open :: bool
  tr_remaining :: "u64 option"

definition transcript_new :: Transcript where
  "transcript_new =
     \<lparr>tr_hashed = CHANGESET_TRANSCRIPT_DOMAIN, tr_entry_open = False, tr_remaining = None\<rparr>"

definition hash_update :: "bytes \<Rightarrow> Transcript \<Rightarrow> Transcript" where
  "hash_update bs t = t\<lparr>tr_hashed := tr_hashed t @ bs\<rparr>"

definition update_string :: "bytes \<Rightarrow> Transcript \<Rightarrow> Transcript" where
  "update_string value t = hash_update value (hash_update (u64_to_le (word_of_nat (length value))) t)"

definition update_entry_identity :: "bytes \<Rightarrow> u64 \<Rightarrow> u64 \<Rightarrow> Transcript \<Rightarrow> Transcript" where
  "update_entry_identity path mode byte_length t =
     hash_update (u64_to_le byte_length) (hash_update (u64_to_le mode) (update_string path t))"

definition transcript_begin_entry :: "Transcript \<Rightarrow> ReplayEntry \<Rightarrow> TranscriptError + Transcript" where
  "transcript_begin_entry t entry =
     and_then (ensure (\<not> tr_entry_open t) EntryAlreadyOpen) (\<lambda>_.
     let t = hash_update [0x01] t;
         t = (case en_kind entry of
                EntryRegularFile mode byte_length \<Rightarrow>
                  (let t = update_entry_identity (en_path entry) mode byte_length
                             (hash_update [0x10] t) in
                   t\<lparr>tr_remaining := Some byte_length\<rparr>)
              | EntryDirectory mode byte_length \<Rightarrow>
                  (let t = update_entry_identity (en_path entry) mode byte_length
                             (hash_update [0x11] t) in
                   t\<lparr>tr_remaining := None\<rparr>)
              | EntrySymbolicLink mode byte_length target \<Rightarrow>
                  (let t = update_entry_identity (en_path entry) mode byte_length
                             (hash_update [0x12] t);
                       t = update_string target t in
                   t\<lparr>tr_remaining := None\<rparr>)
              | EntryWhiteout mode byte_length operation \<Rightarrow>
                  (let t = (case operation of
                              Remove target \<Rightarrow>
                                update_string target
                                  (update_entry_identity (en_path entry) mode byte_length
                                     (hash_update [0x13] t))
                            | OpaqueDirectory path \<Rightarrow>
                                update_string path
                                  (update_entry_identity (en_path entry) mode byte_length
                                     (hash_update [0x14] t))) in
                   t\<lparr>tr_remaining := None\<rparr>)) in
     Inr (t\<lparr>tr_entry_open := True\<rparr>))"

definition transcript_write_chunk :: "Transcript \<Rightarrow> bytes \<Rightarrow> TranscriptError + Transcript" where
  "transcript_write_chunk t chunk =
     and_then (ensure (tr_entry_open t) NoOpenEntry) (\<lambda>_.
     and_then (ensure (chunk \<noteq> [] \<and> length chunk \<le> IO_BUFFER_BYTES) ChunkRange) (\<lambda>_.
     and_then (ok_or (tr_remaining t) PayloadForNonRegular) (\<lambda>remaining.
     let chunk_bytes = word_of_nat (length chunk) :: u64 in
     and_then (ensure (chunk_bytes \<le> remaining) PayloadTooLong) (\<lambda>_.
     Inr (hash_update chunk (t\<lparr>tr_remaining := Some (remaining - chunk_bytes)\<rparr>))))))"

definition transcript_finish_entry :: "Transcript \<Rightarrow> TranscriptError + Transcript" where
  "transcript_finish_entry t =
     and_then (ensure (tr_entry_open t) NoOpenEntry) (\<lambda>_.
     and_then (ensure ((case tr_remaining t of Some r \<Rightarrow> r | None \<Rightarrow> 0) = 0) PayloadUnfinished) (\<lambda>_.
     Inr ((hash_update [0xFF] t)\<lparr>tr_entry_open := False, tr_remaining := None\<rparr>)))"

definition transcript_finish :: "(bytes \<Rightarrow> bytes) \<Rightarrow> Transcript \<Rightarrow> TranscriptError + bytes" where
  "transcript_finish sha256 t =
     and_then (ensure (\<not> tr_entry_open t) TranscriptOpen) (\<lambda>_. Inr (sha256 (tr_hashed t)))"

section \<open>Sinks\<close>

record ('w, 'e) replay_sink =
  sink_begin_entry :: "'w \<Rightarrow> ReplayEntry \<Rightarrow> 'e + 'w"
  sink_write_chunk :: "'w \<Rightarrow> bytes \<Rightarrow> 'e + 'w"
  sink_finish_entry :: "'w \<Rightarrow> 'e + 'w"

text \<open>\<open>TranscriptReplaySinkV1\<close> delegates to its transcript.\<close>

definition transcript_sink :: "(Transcript, TranscriptError) replay_sink" where
  "transcript_sink =
     \<lparr>sink_begin_entry = transcript_begin_entry,
      sink_write_chunk = transcript_write_chunk,
      sink_finish_entry = transcript_finish_entry\<rparr>"

datatype 'e AuthenticatedError = TranscriptRefused TranscriptError | DownstreamRefused 'e

text \<open>\<open>AuthenticatedReplaySinkV1\<close>: the transcript first, then the downstream sink.\<close>

definition authenticated_sink ::
  "('w, 'e) replay_sink \<Rightarrow> (Transcript \<times> 'w, 'e AuthenticatedError) replay_sink" where
  "authenticated_sink downstream =
     \<lparr>sink_begin_entry = (\<lambda>(t, w) entry.
        and_then (map_err TranscriptRefused (transcript_begin_entry t entry)) (\<lambda>t.
        and_then (map_err DownstreamRefused (sink_begin_entry downstream w entry)) (\<lambda>w. Inr (t, w)))),
      sink_write_chunk = (\<lambda>(t, w) chunk.
        and_then (map_err TranscriptRefused (transcript_write_chunk t chunk)) (\<lambda>t.
        and_then (map_err DownstreamRefused (sink_write_chunk downstream w chunk)) (\<lambda>w. Inr (t, w)))),
      sink_finish_entry = (\<lambda>(t, w).
        and_then (map_err TranscriptRefused (transcript_finish_entry t)) (\<lambda>t.
        and_then (map_err DownstreamRefused (sink_finish_entry downstream w)) (\<lambda>w. Inr (t, w))))\<rparr>"

section \<open>Events\<close>

text \<open>
  The calls a sink receives, and the bytes the transcript records for one. A state of the transcript
  is open with the number of payload bytes still owed.
\<close>

datatype ReplayEvent = Begin ReplayEntry | Chunk bytes | Finish

definition encode_string :: "bytes \<Rightarrow> bytes" where
  "encode_string s = u64_to_le (word_of_nat (length s)) @ s"

definition encode_entry :: "ReplayEntry \<Rightarrow> bytes" where
  "encode_entry entry =
     (let p = encode_string (en_path entry) in
      case en_kind entry of
        EntryRegularFile m n \<Rightarrow> [0x01, 0x10] @ p @ u64_to_le m @ u64_to_le n
      | EntryDirectory m n \<Rightarrow> [0x01, 0x11] @ p @ u64_to_le m @ u64_to_le n
      | EntrySymbolicLink m n t \<Rightarrow> [0x01, 0x12] @ p @ u64_to_le m @ u64_to_le n @ encode_string t
      | EntryWhiteout m n (Remove t) \<Rightarrow>
          [0x01, 0x13] @ p @ u64_to_le m @ u64_to_le n @ encode_string t
      | EntryWhiteout m n (OpaqueDirectory t) \<Rightarrow>
          [0x01, 0x14] @ p @ u64_to_le m @ u64_to_le n @ encode_string t)"

fun encode_event :: "ReplayEvent \<Rightarrow> bytes" where
  "encode_event (Begin entry) = encode_entry entry"
| "encode_event (Chunk chunk) = chunk"
| "encode_event Finish = [0xFF]"

fun feed :: "('w, 'e) replay_sink \<Rightarrow> 'w \<Rightarrow> ReplayEvent \<Rightarrow> 'e + 'w" where
  "feed sink w (Begin entry) = sink_begin_entry sink w entry"
| "feed sink w (Chunk chunk) = sink_write_chunk sink w chunk"
| "feed sink w Finish = sink_finish_entry sink w"

fun feed_all :: "('w, 'e) replay_sink \<Rightarrow> 'w \<Rightarrow> ReplayEvent list \<Rightarrow> 'e + 'w" where
  "feed_all sink w [] = Inr w"
| "feed_all sink w (e # es) = and_then (feed sink w e) (\<lambda>w. feed_all sink w es)"

text \<open>The protocol state an event sequence must follow: idle, or open with an optional debt.\<close>

datatype protocol = Idle | Open "nat option"

fun protocol_step :: "protocol \<Rightarrow> ReplayEvent \<Rightarrow> protocol option" where
  "protocol_step Idle (Begin entry) =
     (case en_kind entry of EntryRegularFile m n \<Rightarrow> Some (Open (Some (unat n))) | _ \<Rightarrow> Some (Open None))"
| "protocol_step (Open (Some n)) (Chunk c) =
     (if c \<noteq> [] \<and> length c \<le> IO_BUFFER_BYTES \<and> length c \<le> n then Some (Open (Some (n - length c)))
      else None)"
| "protocol_step (Open (Some n)) Finish = (if n = 0 then Some Idle else None)"
| "protocol_step (Open None) Finish = Some Idle"
| "protocol_step _ _ = None"

fun protocol_run :: "protocol \<Rightarrow> ReplayEvent list \<Rightarrow> protocol option" where
  "protocol_run p [] = Some p"
| "protocol_run p (e # es) = Option.bind (protocol_step p e) (\<lambda>p. protocol_run p es)"

locale observing_sink =
  fixes sink :: "('w, 'e) replay_sink"
    and observed :: "'w \<Rightarrow> bytes"
    and phase :: "'w \<Rightarrow> protocol"
  assumes feed_sound: "feed sink w e = Inr w' \<Longrightarrow>
      protocol_step (phase w) e = Some (phase w') \<and> observed w' = observed w @ encode_event e"
begin

lemma feed_all_sound:
  "feed_all sink w es = Inr w' \<Longrightarrow>
    protocol_run (phase w) es = Some (phase w')
    \<and> observed w' = observed w @ concat (map encode_event es)"
proof (induction es arbitrary: w)
  case Nil
  then show ?case by simp
next
  case (Cons e es)
  then obtain v where "feed sink w e = Inr v" "feed_all sink v es = Inr w'" by auto
  with feed_sound [of w e v] Cons.IH [of v] show ?case by simp
qed

end

text \<open>A sink that refuses nothing but a breach of the protocol.\<close>

locale lawful_sink = observing_sink +
  assumes feed_total: "protocol_step (phase w) e = Some p \<Longrightarrow> \<exists>w'. feed sink w e = Inr w'"
begin

lemma feed_all_total: "protocol_run (phase w) es = Some p \<Longrightarrow> \<exists>w'. feed_all sink w es = Inr w'"
proof (induction es arbitrary: w)
  case Nil
  then show ?case by simp
next
  case (Cons e es)
  then obtain q where q: "protocol_step (phase w) e = Some q" "protocol_run q es = Some p"
    by (auto split: bind_splits)
  then obtain v where v: "feed sink w e = Inr v" using feed_total by blast
  with q feed_sound have "protocol_run (phase v) es = Some p" by fastforce
  from Cons.IH [OF this] v show ?case by auto
qed

lemma feed_all_exact:
  "case feed_all sink w es of
     Inr w' \<Rightarrow> protocol_run (phase w) es = Some (phase w')
       \<and> observed w' = observed w @ concat (map encode_event es)
   | Inl e \<Rightarrow> protocol_run (phase w) es = None"
proof (cases "feed_all sink w es")
  case (Inl e)
  have "protocol_run (phase w) es = None"
  proof (rule ccontr)
    assume "protocol_run (phase w) es \<noteq> None"
    then show False using feed_all_total [of w es] Inl by auto
  qed
  with Inl show ?thesis by simp
next
  case (Inr w')
  with feed_all_sound [OF Inr] show ?thesis by simp
qed

end

definition transcript_phase :: "Transcript \<Rightarrow> protocol" where
  "transcript_phase t =
     (if tr_entry_open t then Open (map_option unat (tr_remaining t)) else Idle)"

lemma transcript_begin_eq_Inr:
  "transcript_begin_entry t entry = Inr t' \<longleftrightarrow>
    \<not> tr_entry_open t \<and>
    t' = \<lparr>tr_hashed = tr_hashed t @ encode_entry entry, tr_entry_open = True,
         tr_remaining = (case en_kind entry of EntryRegularFile m n \<Rightarrow> Some n | _ \<Rightarrow> None)\<rparr>"
  by (auto simp: transcript_begin_entry_def Let_def hash_update_def update_entry_identity_def
      update_string_def encode_entry_def encode_string_def
      split: EntryKind.splits Whiteout.splits)

lemma io_buffer_bound: "n \<le> IO_BUFFER_BYTES \<Longrightarrow> unat (word_of_nat n :: u64) = n"
  by (simp add: IO_BUFFER_BYTES_def unat_of_nat)

lemma transcript_write_eq_Inr:
  "transcript_write_chunk t chunk = Inr t' \<longleftrightarrow>
    tr_entry_open t \<and> chunk \<noteq> [] \<and> length chunk \<le> IO_BUFFER_BYTES \<and>
    (\<exists>r. tr_remaining t = Some r \<and> length chunk \<le> unat r \<and>
       t' = t\<lparr>tr_hashed := tr_hashed t @ chunk,
              tr_remaining := Some (r - word_of_nat (length chunk))\<rparr>)"
  by (auto simp: transcript_write_chunk_def Let_def hash_update_def word_le_nat_alt io_buffer_bound)

lemma transcript_finish_eq_Inr:
  "transcript_finish_entry t = Inr t' \<longleftrightarrow>
    tr_entry_open t \<and> (case tr_remaining t of Some r \<Rightarrow> r = 0 | None \<Rightarrow> True) \<and>
    t' = \<lparr>tr_hashed = tr_hashed t @ [0xFF], tr_entry_open = False, tr_remaining = None\<rparr>"
  by (cases t) (auto simp: transcript_finish_entry_def hash_update_def split: option.splits)

lemma transcript_feed_sound:
  "feed transcript_sink t e = Inr t' \<Longrightarrow>
    protocol_step (transcript_phase t) e = Some (transcript_phase t')
    \<and> tr_hashed t' = tr_hashed t @ encode_event e"
proof (cases e)
  case (Begin entry)
  assume "feed transcript_sink t e = Inr t'"
  with Begin show ?thesis
    by (auto simp: transcript_sink_def transcript_begin_eq_Inr transcript_phase_def
        split: EntryKind.split)
next
  case (Chunk c)
  assume "feed transcript_sink t e = Inr t'"
  with Chunk obtain r where r: "tr_entry_open t" "c \<noteq> []" "length c \<le> IO_BUFFER_BYTES"
    "tr_remaining t = Some r" "length c \<le> unat r"
    "t' = t\<lparr>tr_hashed := tr_hashed t @ c, tr_remaining := Some (r - word_of_nat (length c))\<rparr>"
    by (auto simp: transcript_sink_def transcript_write_eq_Inr)
  then have "unat (r - word_of_nat (length c)) = unat r - length c"
    by (simp add: unat_sub word_le_nat_alt io_buffer_bound)
  with r Chunk show ?thesis by (simp add: transcript_phase_def)
next
  case Finish
  assume "feed transcript_sink t e = Inr t'"
  with Finish show ?thesis
    by (auto simp: transcript_sink_def transcript_finish_eq_Inr transcript_phase_def
        split: option.splits)
qed

lemma transcript_feed_total:
  "protocol_step (transcript_phase t) e = Some p \<Longrightarrow> \<exists>t'. feed transcript_sink t e = Inr t'"
  by (cases e; cases "tr_remaining t")
    (auto simp: transcript_sink_def transcript_begin_eq_Inr transcript_write_eq_Inr
      transcript_finish_eq_Inr transcript_phase_def unat_eq_0 split: if_splits)

interpretation transcript: lawful_sink transcript_sink tr_hashed transcript_phase
  by unfold_locales (use transcript_feed_sound transcript_feed_total in blast)+

lemma authenticated_feed:
  "feed (authenticated_sink downstream) (t, w) e = Inr (t', w') \<longleftrightarrow>
    feed transcript_sink t e = Inr t' \<and> feed downstream w e = Inr w'"
  by (cases e) (auto simp: authenticated_sink_def transcript_sink_def)

interpretation authenticated: observing_sink "authenticated_sink downstream"
    "\<lambda>(t, w). tr_hashed t" "\<lambda>(t, w). transcript_phase t"
  for downstream :: "('w, 'e) replay_sink"
proof
  fix w w' :: "Transcript \<times> 'w" and e
  assume "feed (authenticated_sink downstream) w e = Inr w'"
  then show "protocol_step (case w of (t, w) \<Rightarrow> transcript_phase t) e
        = Some (case w' of (t, w) \<Rightarrow> transcript_phase t)
      \<and> (case w' of (t, w) \<Rightarrow> tr_hashed t) = (case w of (t, w) \<Rightarrow> tr_hashed t) @ encode_event e"
    using transcript_feed_sound
    by (cases w; cases w') (auto simp: authenticated_feed)
qed

section \<open>The changeset a stream describes\<close>

fun owed :: "ReplayEntry \<Rightarrow> nat" where
  "owed entry = (case en_kind entry of EntryRegularFile m n \<Rightarrow> unat n | _ \<Rightarrow> 0)"

text \<open>Each entry with its payload; \<open>current\<close> is the entry that is open.\<close>

fun changeset :: "(ReplayEntry \<times> bytes) option \<Rightarrow> ReplayEvent list \<Rightarrow> (ReplayEntry \<times> bytes) list" where
  "changeset current [] = []"
| "changeset current (Begin entry # es) = changeset (Some (entry, [])) es"
| "changeset current (Chunk c # es) =
     changeset (map_option (\<lambda>(entry, payload). (entry, payload @ c)) current) es"
| "changeset current (Finish # es) =
     (case current of Some ep \<Rightarrow> ep # changeset None es | None \<Rightarrow> changeset None es)"

definition encode_changeset :: "(ReplayEntry \<times> bytes) list \<Rightarrow> bytes" where
  "encode_changeset cs = concat (map (\<lambda>(entry, payload). encode_entry entry @ payload @ [0xFF]) cs)"

definition string_fits :: "bytes \<Rightarrow> bool" where
  "string_fits s \<longleftrightarrow> length s < usize_limit"

definition entry_fits_usize :: "ReplayEntry \<Rightarrow> bool" where
  "entry_fits_usize entry \<longleftrightarrow>
     string_fits (en_path entry) \<and>
     (case en_kind entry of
        EntrySymbolicLink m n t \<Rightarrow> string_fits t
      | EntryWhiteout m n (Remove t) \<Rightarrow> string_fits t
      | EntryWhiteout m n (OpaqueDirectory t) \<Rightarrow> string_fits t
      | _ \<Rightarrow> True)"

lemma encode_string_inject:
  assumes "string_fits s" "string_fits s'"
  shows "encode_string s @ r = encode_string s' @ r' \<longleftrightarrow> s = s' \<and> r = r'"
proof
  assume eq: "encode_string s @ r = encode_string s' @ r'"
  then have w: "(word_of_nat (length s) :: u64) = word_of_nat (length s')"
    and rest: "s @ r = s' @ r'"
    by (auto simp: encode_string_def append_eq_same_length)
  have "length s = length s'"
    using arg_cong [OF w, of unat] assms by (simp add: string_fits_def usize_limit_def unat_of_nat)
  with rest show "s = s' \<and> r = r'" by simp
qed simp

lemma u64_to_le_append: "u64_to_le a @ r = u64_to_le a' @ r' \<longleftrightarrow> a = a' \<and> r = r'"
  by (simp add: append_eq_same_length)

lemma encode_entry_inject:
  assumes "entry_fits_usize e" "entry_fits_usize e'"
    and "encode_entry e @ r = encode_entry e' @ r'"
  shows "e = e' \<and> r = r'"
  using assms
  by (cases e; cases e')
    (auto simp: encode_entry_def entry_fits_usize_def encode_string_inject u64_to_le_append
      split: EntryKind.splits Whiteout.splits)

definition exact_payload :: "ReplayEntry \<times> bytes \<Rightarrow> bool" where
  "exact_payload ep \<longleftrightarrow> length (snd ep) = owed (fst ep)"

lemma encode_changeset_inject:
  assumes "list_all exact_payload cs" "list_all exact_payload ds"
    and "list_all (entry_fits_usize \<circ> fst) cs" "list_all (entry_fits_usize \<circ> fst) ds"
    and "encode_changeset cs = encode_changeset ds"
  shows "cs = ds"
  using assms
proof (induction cs arbitrary: ds)
  case Nil
  then show ?case
    by (cases ds) (auto simp: encode_changeset_def split: prod.splits)
next
  case (Cons c cs)
  obtain e p where c: "c = (e, p)" by fastforce
  from Cons.prems(5) c obtain d ds' where ds: "ds = d # ds'"
    by (cases ds) (auto simp: encode_changeset_def)
  obtain e' p' where d: "d = (e', p')" by fastforce
  have eq: "encode_entry e @ (p @ 0xFF # encode_changeset cs)
      = encode_entry e' @ (p' @ 0xFF # encode_changeset ds')"
    using Cons.prems(5) c d ds by (simp add: encode_changeset_def)
  have e: "e = e'" and rest: "p @ 0xFF # encode_changeset cs = p' @ 0xFF # encode_changeset ds'"
    using encode_entry_inject [OF _ _ eq] Cons.prems c d ds by auto
  have "length p = length p'" using Cons.prems(1,2) c d ds e by (simp add: exact_payload_def)
  with rest have "p = p'" "encode_changeset cs = encode_changeset ds'" by auto
  with Cons.IH [of ds'] Cons.prems c d ds e show ?case by simp
qed

lemma open_cases:
  obtains "p = Idle" | n where "p = Open (Some n)" | "p = Open None"
  by (cases p; metis option.exhaust)

fun open_with :: "protocol \<Rightarrow> (ReplayEntry \<times> bytes) option \<Rightarrow> bool" where
  "open_with Idle None = True"
| "open_with (Open (Some n)) (Some (entry, payload)) = (length payload + n = owed entry)"
| "open_with (Open None) (Some (entry, payload)) = (payload = [] \<and> owed entry = 0)"
| "open_with _ _ = False"

fun pending :: "(ReplayEntry \<times> bytes) option \<Rightarrow> bytes" where
  "pending None = []"
| "pending (Some (entry, payload)) = encode_entry entry @ payload"

lemma encode_changeset_Cons:
  "encode_changeset ((entry, payload) # cs) = encode_entry entry @ payload @ 0xFF # encode_changeset cs"
  by (simp add: encode_changeset_def)

lemma complete_stream_encodes:
  assumes "protocol_run p es = Some Idle" "open_with p current"
  shows "pending current @ concat (map encode_event es) = encode_changeset (changeset current es)
    \<and> list_all exact_payload (changeset current es)"
  using assms
proof (induction es arbitrary: p current)
  case Nil
  then show ?case by (cases current) (auto simp: encode_changeset_def)
next
  case (Cons e es)
  then obtain q where q: "protocol_step p e = Some q" "protocol_run q es = Some Idle"
    by (auto split: bind_splits)
  show ?case
  proof (cases e)
    case (Begin entry)
    with q Cons.prems(2) have "p = Idle" "current = None"
      by (cases p; cases current; auto)+
    moreover have "open_with q (Some (entry, []))"
      using q(1) Begin \<open>p = Idle\<close> by (auto simp: owed.simps split: EntryKind.splits)
    ultimately show ?thesis using Cons.IH [OF q(2), of "Some (entry, [])"] Begin by simp
  next
    case (Chunk c)
    with q obtain n where n: "p = Open (Some n)" "length c \<le> n" "q = Open (Some (n - length c))"
      by (cases p rule: open_cases) (auto split: if_splits)
    with Cons.prems(2) obtain entry payload where cur: "current = Some (entry, payload)"
      "length payload + n = owed entry" by (cases current) auto
    then have "open_with q (Some (entry, payload @ c))" using n by simp
    from Cons.IH [OF q(2) this] show ?thesis using Chunk cur by simp
  next
    case Finish
    with q(1) have p: "p = Open None \<or> p = Open (Some 0)" "q = Idle"
      by (cases p rule: open_cases; auto split: if_splits)+
    with Cons.prems(2) obtain entry payload where cur: "current = Some (entry, payload)"
      "exact_payload (entry, payload)" by (cases current) (auto simp: exact_payload_def)
    from Cons.IH [OF q(2), of None] show ?thesis
      using Finish cur p by (simp add: encode_changeset_Cons)
  qed
qed

definition events_fit :: "ReplayEvent list \<Rightarrow> bool" where
  "events_fit es \<longleftrightarrow> list_all (\<lambda>e. case e of Begin entry \<Rightarrow> entry_fits_usize entry | _ \<Rightarrow> True) es"

lemma changeset_entries_fit:
  "events_fit es \<Longrightarrow> (case current of Some (entry, _) \<Rightarrow> entry_fits_usize entry | None \<Rightarrow> True) \<Longrightarrow>
    list_all (entry_fits_usize \<circ> fst) (changeset current es)"
  by (induction current es rule: changeset.induct)
    (auto simp: events_fit_def split: option.splits)

section \<open>Properties\<close>

text \<open>
  C29. The transcript accepts exactly the event streams that follow the protocol (entries one at a time,
  payload chunks of 1 to 16384 bytes only inside a regular file and exactly as many bytes as declared),
  has then hashed the domain followed by the encodings of the events in order, and yields a digest
  exactly when no entry is open.
\<close>

theorem transcript_records_stream:
  "case feed_all transcript_sink transcript_new es of
     Inr t \<Rightarrow> protocol_run Idle es = Some (transcript_phase t)
       \<and> tr_hashed t = CHANGESET_TRANSCRIPT_DOMAIN @ concat (map encode_event es)
       \<and> transcript_finish sha256 t =
           (if transcript_phase t = Idle then Inr (sha256 (tr_hashed t)) else Inl TranscriptOpen)
   | Inl e \<Rightarrow> protocol_run Idle es = None"
proof -
  have "transcript_phase transcript_new = Idle" "tr_hashed transcript_new = CHANGESET_TRANSCRIPT_DOMAIN"
    by (simp_all add: transcript_new_def transcript_phase_def)
  with transcript.feed_all_exact [of transcript_new es] show ?thesis
    by (auto simp: transcript_finish_def transcript_phase_def split: sum.splits if_splits)
qed

text \<open>
  C30. A transcript digest binds the changeset: two complete event streams with one digest describe the
  same entries with the same payloads, however the payloads were cut into chunks, unless SHA-256
  collides on the two hashed byte strings.
\<close>

theorem transcript_binds_changeset:
  assumes "feed_all transcript_sink transcript_new es = Inr t"
    and "feed_all transcript_sink transcript_new es' = Inr t'"
    and "transcript_finish sha256 t = Inr digest" and "transcript_finish sha256 t' = Inr digest"
    and "sha256 (tr_hashed t) = sha256 (tr_hashed t') \<longrightarrow> tr_hashed t = tr_hashed t'"
    and "events_fit es" and "events_fit es'"
  shows "changeset None es = changeset None es'"
proof -
  have complete: "protocol_run Idle fs = Some Idle
      \<and> tr_hashed s = CHANGESET_TRANSCRIPT_DOMAIN @ encode_changeset (changeset None fs)
      \<and> list_all exact_payload (changeset None fs)"
    if s: "feed_all transcript_sink transcript_new fs = Inr s" "transcript_finish sha256 s = Inr digest"
    for fs s
  proof -
    have "protocol_run Idle fs = Some Idle"
      "tr_hashed s = CHANGESET_TRANSCRIPT_DOMAIN @ concat (map encode_event fs)"
      using transcript.feed_all_sound [OF s(1)] s(2)
      by (auto simp: transcript_finish_def transcript_new_def transcript_phase_def)
    with complete_stream_encodes [of Idle fs None] show ?thesis by simp
  qed
  have "tr_hashed t = tr_hashed t'" using assms(3-5) by (simp add: transcript_finish_def)
  with complete [OF assms(1,3)] complete [OF assms(2,4)]
  have "encode_changeset (changeset None es) = encode_changeset (changeset None es')" by simp
  then show ?thesis
    using complete [OF assms(1,3)] complete [OF assms(2,4)] assms(6,7)
    by (intro encode_changeset_inject) (simp_all add: changeset_entries_fit)
qed

definition sample_events :: "ReplayEvent list" where
  "sample_events =
     [Begin \<lparr>en_path = ascii ''a'', en_kind = EntryRegularFile 0x124 2\<rparr>, Chunk [1], Chunk [2], Finish]"

definition sample_merged_events :: "ReplayEvent list" where
  "sample_merged_events =
     [Begin \<lparr>en_path = ascii ''a'', en_kind = EntryRegularFile 0x124 2\<rparr>, Chunk [1, 2], Finish]"

theorem transcript_binds_changeset_witness:
  "changeset None sample_events = changeset None sample_merged_events
    \<and> (\<exists>t. feed_all transcript_sink transcript_new sample_events = Inr t)"
proof -
  let ?e = "\<lparr>en_path = ascii ''a'', en_kind = EntryRegularFile 0x124 2\<rparr>"
  let ?h = "CHANGESET_TRANSCRIPT_DOMAIN @ encode_entry ?e"
  let ?t = "\<lparr>tr_hashed = ?h @ [1, 2, 0xFF], tr_entry_open = False, tr_remaining = None\<rparr>"
  have b: "transcript_begin_entry transcript_new ?e
      = Inr \<lparr>tr_hashed = ?h, tr_entry_open = True, tr_remaining = Some 2\<rparr>"
    by (simp only: transcript_begin_eq_Inr) (simp add: transcript_new_def)
  have "feed_all transcript_sink transcript_new sample_events = Inr ?t"
    "feed_all transcript_sink transcript_new sample_merged_events = Inr ?t"
    by (simp_all add: sample_events_def sample_merged_events_def transcript_sink_def b
        transcript_write_eq_Inr transcript_finish_eq_Inr IO_BUFFER_BYTES_def)
  moreover have "events_fit sample_events" "events_fit sample_merged_events"
    by (simp_all add: events_fit_def sample_events_def sample_merged_events_def entry_fits_usize_def
        string_fits_def usize_limit_def)
  moreover have "transcript_finish id ?t = Inr (tr_hashed ?t)" by (simp add: transcript_finish_def)
  ultimately show ?thesis
    using transcript_binds_changeset [of sample_events ?t sample_merged_events ?t id] by blast
qed

end
