(* ===== verification/ArtifactImport.thy ===== *)
theory ArtifactImport
  imports Prelude
begin

text \<open>
  The roles and budgets of physical artifact imports
  (\<open>generator/src/b4_campaign_executor/artifact_import_contract.rs\<close>). The limits structs are records,
  their getters the selectors. An error keeps the budget's name; the caller's diagnostic label is not
  modelled. The locale \<open>budget\<close> is the contract of every accumulating operation; each of the eight is
  an interpretation of it.
\<close>

section \<open>Roles and limits\<close>

datatype Amd64ElfPolicy = Static | Runtime
datatype JvmJarPolicy = SourceRead | CanonicalExecutable

datatype ArtifactRole =
    ReviewedGitBundle
  | OciImageLayoutUstar
  | Risc0GuestElf
  | Amd64Elf Amd64ElfPolicy
  | JvmJar JvmJarPolicy

definition all_artifact_roles :: "ArtifactRole list" where
  "all_artifact_roles =
     [ReviewedGitBundle, OciImageLayoutUstar, Risc0GuestElf, Amd64Elf Static, Amd64Elf Runtime,
      JvmJar SourceRead, JvmJar CanonicalExecutable]"

record Risc0GuestElfLimits =
  rl_maximum_loaded_words :: u64

record RuntimeAmd64ElfLimits =
  rt_maximum_dynamic_entries :: u64
  rt_maximum_needed_libraries :: u64

record Amd64ElfLimits =
  el_maximum_program_headers :: u64
  el_maximum_section_headers :: u64
  el_runtime_linkage :: "RuntimeAmd64ElfLimits option"

record StartupClosureLimits =
  sc_distinct_objects :: u64
  sc_dependency_edges :: u64
  sc_depth :: u64
  sc_aggregate_distinct_object_bytes :: u64
  sc_dynamic_basename_bytes :: u64
  sc_runpath_components :: u64
  sc_runpath_component_bytes :: u64

definition startup_dependency_closure_limits :: StartupClosureLimits where
  "startup_dependency_closure_limits =
     \<lparr>sc_distinct_objects = 512,
      sc_dependency_edges = 4096,
      sc_depth = 64,
      sc_aggregate_distinct_object_bytes = 4294967296,
      sc_dynamic_basename_bytes = 240,
      sc_runpath_components = 16,
      sc_runpath_component_bytes = 240\<rparr>"

record LayerLimits =
  ll_maximum_uncompressed_tar_bytes :: u64
  ll_maximum_tar_entries :: u64
  ll_maximum_regular_file_payload_bytes :: u64
  ll_maximum_layers :: u64

record RootfsLimits =
  fs_maximum_regular_file_bytes :: u64
  fs_maximum_entries :: u64

record OciLimits =
  ol_maximum_outer_ustar_member_payload_bytes :: u64
  ol_maximum_json_bytes :: u64
  ol_layer_stream :: LayerLimits
  ol_post_changeset_rootfs :: RootfsLimits

record JvmJarLimits =
  jl_maximum_decompressed_regular_file_bytes :: u64
  jl_maximum_single_decompressed_entry_bytes :: u64
  jl_maximum_entries :: u64

datatype ContentLimits =
    EncodedOnly
  | OciContent OciLimits
  | Risc0Content Risc0GuestElfLimits
  | Amd64Content Amd64ElfLimits
  | JarContent JvmJarLimits

record ImportLimits =
  il_minimum_encoded_bytes :: u64
  il_maximum_encoded_bytes :: u64
  il_encoded_byte_multiple :: "u64 option"
  il_content :: ContentLimits

fun role_limits :: "ArtifactRole \<Rightarrow> ImportLimits" where
  "role_limits ReviewedGitBundle =
     \<lparr>il_minimum_encoded_bytes = 1, il_maximum_encoded_bytes = 1073741824,
      il_encoded_byte_multiple = None, il_content = EncodedOnly\<rparr>"
| "role_limits OciImageLayoutUstar =
     \<lparr>il_minimum_encoded_bytes = 6144, il_maximum_encoded_bytes = 17179869184,
      il_encoded_byte_multiple = Some 512,
      il_content = OciContent
        \<lparr>ol_maximum_outer_ustar_member_payload_bytes = 8589934591,
         ol_maximum_json_bytes = 1048576,
         ol_layer_stream =
           \<lparr>ll_maximum_uncompressed_tar_bytes = 34359738368,
            ll_maximum_tar_entries = 1000000,
            ll_maximum_regular_file_payload_bytes = 1073741824,
            ll_maximum_layers = 128\<rparr>,
         ol_post_changeset_rootfs =
           \<lparr>fs_maximum_regular_file_bytes = 34359738368, fs_maximum_entries = 1000000\<rparr>\<rparr>\<rparr>"
| "role_limits Risc0GuestElf =
     \<lparr>il_minimum_encoded_bytes = 1, il_maximum_encoded_bytes = 4194304,
      il_encoded_byte_multiple = None,
      il_content = Risc0Content \<lparr>rl_maximum_loaded_words = 1048576\<rparr>\<rparr>"
| "role_limits (Amd64Elf policy) =
     \<lparr>il_minimum_encoded_bytes = 64, il_maximum_encoded_bytes = 1073741824,
      il_encoded_byte_multiple = None,
      il_content = Amd64Content
        \<lparr>el_maximum_program_headers = 65534,
         el_maximum_section_headers = 65279,
         el_runtime_linkage =
           (case policy of
              Static \<Rightarrow> None
            | Runtime \<Rightarrow> Some \<lparr>rt_maximum_dynamic_entries = 65534, rt_maximum_needed_libraries = 4096\<rparr>)\<rparr>\<rparr>"
| "role_limits (JvmJar _) =
     \<lparr>il_minimum_encoded_bytes = 22, il_maximum_encoded_bytes = 1073741824,
      il_encoded_byte_multiple = None,
      il_content = JarContent
        \<lparr>jl_maximum_decompressed_regular_file_bytes = 1073741824,
         jl_maximum_single_decompressed_entry_bytes = 1073741824,
         jl_maximum_entries = 65534\<rparr>\<rparr>"

section \<open>Operations\<close>

datatype BudgetError =
    SumOverflow string | BudgetExceeded string | OutsideRange string | NotMultiple u64
  | NoContract string

definition validate_ceiling :: "u64 \<Rightarrow> u64 \<Rightarrow> string \<Rightarrow> BudgetError + unit" where
  "validate_ceiling value maximum name = ensure (value \<le> maximum) (BudgetExceeded name)"

definition checked_sum :: "u64 \<Rightarrow> u64 \<Rightarrow> u64 \<Rightarrow> string \<Rightarrow> BudgetError + u64" where
  "checked_sum current additional maximum name =
     and_then (ok_or (checked_add_word current additional) (SumOverflow name)) (\<lambda>acc.
     and_then (ensure (acc \<le> maximum) (BudgetExceeded name)) (\<lambda>_. Inr acc))"

definition in_closed_range :: "u64 \<Rightarrow> u64 \<Rightarrow> u64 \<Rightarrow> string \<Rightarrow> BudgetError + unit" where
  "in_closed_range low high value name = ensure (low \<le> value \<and> value \<le> high) (OutsideRange name)"

definition validate_encoded_length :: "ImportLimits \<Rightarrow> u64 \<Rightarrow> BudgetError + unit" where
  "validate_encoded_length limits byte_length =
     and_then (in_closed_range (il_minimum_encoded_bytes limits) (il_maximum_encoded_bytes limits)
                 byte_length ''encoded byte length'') (\<lambda>_.
     case il_encoded_byte_multiple limits of
       Some multiple \<Rightarrow> ensure (byte_length mod multiple = 0) (NotMultiple multiple)
     | None \<Rightarrow> Inr ())"

definition require_oci :: "ImportLimits \<Rightarrow> BudgetError + OciLimits" where
  "require_oci limits =
     (case il_content limits of OciContent l \<Rightarrow> Inr l | _ \<Rightarrow> Inl (NoContract ''OCI nested-budget''))"

definition require_risc0_guest_elf :: "ImportLimits \<Rightarrow> BudgetError + Risc0GuestElfLimits" where
  "require_risc0_guest_elf limits =
     (case il_content limits of Risc0Content l \<Rightarrow> Inr l
      | _ \<Rightarrow> Inl (NoContract ''RISC Zero guest-ELF loader-work''))"

definition require_amd64_elf :: "ImportLimits \<Rightarrow> BudgetError + Amd64ElfLimits" where
  "require_amd64_elf limits =
     (case il_content limits of Amd64Content l \<Rightarrow> Inr l
      | _ \<Rightarrow> Inl (NoContract ''AMD64-ELF parser-work''))"

definition require_jvm_jar :: "ImportLimits \<Rightarrow> BudgetError + JvmJarLimits" where
  "require_jvm_jar limits =
     (case il_content limits of JarContent l \<Rightarrow> Inr l | _ \<Rightarrow> Inl (NoContract ''JVM-JAR nested-budget''))"

definition require_runtime_linkage :: "Amd64ElfLimits \<Rightarrow> BudgetError + RuntimeAmd64ElfLimits" where
  "require_runtime_linkage limits = ok_or (el_runtime_linkage limits) (NoContract ''runtime-linkage work'')"

definition checked_add_loaded_words :: "Risc0GuestElfLimits \<Rightarrow> u64 \<Rightarrow> u64 \<Rightarrow> BudgetError + u64" where
  "checked_add_loaded_words limits current additional =
     checked_sum current additional (rl_maximum_loaded_words limits) ''loaded-word''"

definition validate_program_header_count :: "Amd64ElfLimits \<Rightarrow> u64 \<Rightarrow> BudgetError + unit" where
  "validate_program_header_count limits count =
     in_closed_range 1 (el_maximum_program_headers limits) count ''program-header count''"

definition validate_section_header_count :: "Amd64ElfLimits \<Rightarrow> u64 \<Rightarrow> BudgetError + unit" where
  "validate_section_header_count limits count =
     ensure (count \<le> el_maximum_section_headers limits) (OutsideRange ''section-header count'')"

definition validate_dynamic_entry_count :: "RuntimeAmd64ElfLimits \<Rightarrow> u64 \<Rightarrow> BudgetError + unit" where
  "validate_dynamic_entry_count limits count =
     in_closed_range 1 (rt_maximum_dynamic_entries limits) count ''dynamic-entry count''"

definition validate_needed_library_count :: "RuntimeAmd64ElfLimits \<Rightarrow> u64 \<Rightarrow> BudgetError + unit" where
  "validate_needed_library_count limits count =
     ensure (count \<le> rt_maximum_needed_libraries limits) (OutsideRange ''DT_NEEDED count'')"

definition checked_add_distinct_objects :: "StartupClosureLimits \<Rightarrow> u64 \<Rightarrow> u64 \<Rightarrow> BudgetError + u64" where
  "checked_add_distinct_objects limits current additional =
     checked_sum current additional (sc_distinct_objects limits) ''distinct startup object''"

definition checked_add_dependency_edges :: "StartupClosureLimits \<Rightarrow> u64 \<Rightarrow> u64 \<Rightarrow> BudgetError + u64" where
  "checked_add_dependency_edges limits current additional =
     checked_sum current additional (sc_dependency_edges limits) ''startup dependency edge''"

definition validate_depth :: "StartupClosureLimits \<Rightarrow> u64 \<Rightarrow> BudgetError + unit" where
  "validate_depth limits depth = validate_ceiling depth (sc_depth limits) ''startup dependency depth''"

definition checked_add_distinct_object_bytes ::
  "StartupClosureLimits \<Rightarrow> u64 \<Rightarrow> u64 \<Rightarrow> BudgetError + u64" where
  "checked_add_distinct_object_bytes limits current additional =
     checked_sum current additional (sc_aggregate_distinct_object_bytes limits)
       ''aggregate distinct startup-object byte''"

definition validate_dynamic_basename_bytes :: "StartupClosureLimits \<Rightarrow> u64 \<Rightarrow> BudgetError + unit" where
  "validate_dynamic_basename_bytes limits byte_length =
     in_closed_range 1 (sc_dynamic_basename_bytes limits) byte_length ''dynamic basename byte length''"

definition validate_runpath_component_count :: "StartupClosureLimits \<Rightarrow> u64 \<Rightarrow> BudgetError + unit" where
  "validate_runpath_component_count limits count =
     in_closed_range 1 (sc_runpath_components limits) count ''RUNPATH component count''"

definition validate_runpath_component_bytes :: "StartupClosureLimits \<Rightarrow> u64 \<Rightarrow> BudgetError + unit" where
  "validate_runpath_component_bytes limits byte_length =
     in_closed_range 1 (sc_runpath_component_bytes limits) byte_length ''RUNPATH component byte length''"

definition validate_json_bytes :: "OciLimits \<Rightarrow> u64 \<Rightarrow> BudgetError + unit" where
  "validate_json_bytes limits byte_length =
     in_closed_range 2 (ol_maximum_json_bytes limits) byte_length ''JSON byte length''"

definition validate_outer_ustar_member_payload_bytes :: "OciLimits \<Rightarrow> u64 \<Rightarrow> BudgetError + unit" where
  "validate_outer_ustar_member_payload_bytes limits byte_length =
     validate_ceiling byte_length (ol_maximum_outer_ustar_member_payload_bytes limits)
       ''outer-ustar member payload byte''"

definition checked_add_uncompressed_tar_bytes :: "LayerLimits \<Rightarrow> u64 \<Rightarrow> u64 \<Rightarrow> BudgetError + u64" where
  "checked_add_uncompressed_tar_bytes limits current additional =
     checked_sum current additional (ll_maximum_uncompressed_tar_bytes limits)
       ''uncompressed layer-tar byte''"

definition checked_add_tar_entries :: "LayerLimits \<Rightarrow> u64 \<Rightarrow> u64 \<Rightarrow> BudgetError + u64" where
  "checked_add_tar_entries limits current additional =
     checked_sum current additional (ll_maximum_tar_entries limits) ''layer-tar entry''"

definition validate_regular_file_payload_bytes :: "LayerLimits \<Rightarrow> u64 \<Rightarrow> BudgetError + unit" where
  "validate_regular_file_payload_bytes limits byte_length =
     validate_ceiling byte_length (ll_maximum_regular_file_payload_bytes limits)
       ''layer regular-file payload byte''"

definition checked_add_layer :: "LayerLimits \<Rightarrow> u64 \<Rightarrow> u64 \<Rightarrow> BudgetError + u64" where
  "checked_add_layer limits current additional =
     checked_sum current additional (ll_maximum_layers limits) ''layer''"

definition validate_final_regular_file_bytes :: "RootfsLimits \<Rightarrow> u64 \<Rightarrow> BudgetError + unit" where
  "validate_final_regular_file_bytes limits byte_length =
     validate_ceiling byte_length (fs_maximum_regular_file_bytes limits)
       ''post-changeset rootfs regular-file byte''"

definition validate_final_entry_count :: "RootfsLimits \<Rightarrow> u64 \<Rightarrow> BudgetError + unit" where
  "validate_final_entry_count limits count =
     validate_ceiling count (fs_maximum_entries limits) ''post-changeset rootfs entry''"

definition checked_add_decompressed_regular_file_bytes ::
  "JvmJarLimits \<Rightarrow> u64 \<Rightarrow> u64 \<Rightarrow> BudgetError + u64" where
  "checked_add_decompressed_regular_file_bytes limits current additional =
     checked_sum current additional (jl_maximum_decompressed_regular_file_bytes limits)
       ''decompressed regular-file byte''"

definition validate_single_decompressed_entry_bytes :: "JvmJarLimits \<Rightarrow> u64 \<Rightarrow> BudgetError + unit" where
  "validate_single_decompressed_entry_bytes limits byte_length =
     validate_ceiling byte_length (jl_maximum_single_decompressed_entry_bytes limits)
       ''single decompressed entry byte''"

definition checked_add_jar_entry :: "JvmJarLimits \<Rightarrow> u64 \<Rightarrow> u64 \<Rightarrow> BudgetError + u64" where
  "checked_add_jar_entry limits current additional =
     checked_sum current additional (jl_maximum_entries limits) ''JAR entry''"

section \<open>Accumulation\<close>

fun accumulate :: "(u64 \<Rightarrow> u64 \<Rightarrow> BudgetError + u64) \<Rightarrow> u64 \<Rightarrow> u64 list \<Rightarrow> BudgetError + u64" where
  "accumulate add current [] = Inr current"
| "accumulate add current (n # ns) = and_then (add current n) (\<lambda>acc. accumulate add acc ns)"

lemma checked_sum_eq_Inr [simp]:
  "checked_sum current additional maximum name = Inr acc \<longleftrightarrow>
    unat acc = unat current + unat additional \<and> acc \<le> maximum"
  by (auto simp: checked_sum_def)

lemma validate_ceiling_eq_Inr [simp]: "validate_ceiling value maximum name = Inr u \<longleftrightarrow> value \<le> maximum"
  by (simp add: validate_ceiling_def)

text \<open>
  The contract of an accumulating operation with a ceiling: it returns the exact sum or fails, and it
  fails exactly when the exact sum, computed without wrap-around, is above the ceiling.
\<close>

locale budget =
  fixes add :: "u64 \<Rightarrow> u64 \<Rightarrow> BudgetError + u64" and maximum :: u64
  assumes add_eq_Inr:
    "add current additional = Inr acc \<longleftrightarrow>
      unat acc = unat current + unat additional \<and> acc \<le> maximum"
begin

lemma accumulate_value:
  "accumulate add current ns = Inr acc \<Longrightarrow>
    unat acc = unat current + sum_list (map unat ns) \<and> (ns = [] \<or> acc \<le> maximum)"
proof (induction ns arbitrary: current)
  case Nil
  then show ?case by simp
next
  case (Cons n ns)
  then obtain mid where mid: "add current n = Inr mid" "accumulate add mid ns = Inr acc" by auto
  from mid(1) have "unat mid = unat current + unat n" "mid \<le> maximum" by (simp_all add: add_eq_Inr)
  with Cons.IH [OF mid(2)] mid(2) show ?case by (cases ns) auto
qed

lemma accumulate_succeeds:
  "unat current + sum_list (map unat ns) \<le> unat maximum \<Longrightarrow> \<exists>acc. accumulate add current ns = Inr acc"
proof (induction ns arbitrary: current)
  case Nil
  then show ?case by simp
next
  case (Cons n ns)
  let ?mid = "current + n"
  have bound: "unat maximum < 2 ^ LENGTH(64)" by (rule unsigned_less)
  have mid: "unat ?mid = unat current + unat n"
    using Cons.prems bound by (intro unat_add_lem [THEN iffD1]) simp
  have "?mid \<le> maximum" using mid Cons.prems by (simp add: word_le_nat_alt)
  then have "add current n = Inr ?mid" using mid by (simp add: add_eq_Inr)
  moreover have "unat ?mid + sum_list (map unat ns) \<le> unat maximum" using mid Cons.prems by simp
  ultimately show ?case using Cons.IH by auto
qed

lemma accumulate_exact:
  "case accumulate add 0 ns of
     Inr acc \<Rightarrow> unat acc = sum_list (map unat ns) \<and> acc \<le> maximum
   | Inl e \<Rightarrow> unat maximum < sum_list (map unat ns)"
proof (cases "accumulate add 0 ns")
  case (Inl e)
  then have "\<not> sum_list (map unat ns) \<le> unat maximum" using accumulate_succeeds [of 0 ns] by auto
  with Inl show ?thesis by simp
next
  case (Inr acc)
  with accumulate_value [OF Inr] show ?thesis by (cases ns) auto
qed

end

interpretation loaded_words: budget "checked_add_loaded_words l" "rl_maximum_loaded_words l" for l
  by unfold_locales (simp add: checked_add_loaded_words_def)

interpretation startup_objects: budget "checked_add_distinct_objects l" "sc_distinct_objects l" for l
  by unfold_locales (simp add: checked_add_distinct_objects_def)

interpretation startup_edges: budget "checked_add_dependency_edges l" "sc_dependency_edges l" for l
  by unfold_locales (simp add: checked_add_dependency_edges_def)

interpretation startup_bytes:
    budget "checked_add_distinct_object_bytes l" "sc_aggregate_distinct_object_bytes l" for l
  by unfold_locales (simp add: checked_add_distinct_object_bytes_def)

interpretation layer_bytes:
    budget "checked_add_uncompressed_tar_bytes l" "ll_maximum_uncompressed_tar_bytes l" for l
  by unfold_locales (simp add: checked_add_uncompressed_tar_bytes_def)

interpretation layer_entries: budget "checked_add_tar_entries l" "ll_maximum_tar_entries l" for l
  by unfold_locales (simp add: checked_add_tar_entries_def)

interpretation layers: budget "checked_add_layer l" "ll_maximum_layers l" for l
  by unfold_locales (simp add: checked_add_layer_def)

interpretation jar_bytes:
    budget "checked_add_decompressed_regular_file_bytes l" "jl_maximum_decompressed_regular_file_bytes l"
  for l
  by unfold_locales (simp add: checked_add_decompressed_regular_file_bytes_def)

interpretation jar_entries: budget "checked_add_jar_entry l" "jl_maximum_entries l" for l
  by unfold_locales (simp add: checked_add_jar_entry_def)

section \<open>Properties\<close>

text \<open>
  The role selects the contract: of the four nested contracts a role's limits carry the one of its own
  kind and no other, the range of encoded lengths is nonempty and its ends are admitted, and the
  linkage budgets exist for the runtime policy only.
\<close>

definition carries :: "'e + 'a \<Rightarrow> bool" where
  "carries r \<longleftrightarrow> (case r of Inr _ \<Rightarrow> True | Inl _ \<Rightarrow> False)"

theorem role_contract:
  "let limits = role_limits role in
    (carries (require_oci limits) \<longleftrightarrow> role = OciImageLayoutUstar)
    \<and> (carries (require_risc0_guest_elf limits) \<longleftrightarrow> role = Risc0GuestElf)
    \<and> (carries (require_amd64_elf limits) \<longleftrightarrow> (\<exists>policy. role = Amd64Elf policy))
    \<and> (carries (require_jvm_jar limits) \<longleftrightarrow> (\<exists>policy. role = JvmJar policy))
    \<and> (carries (and_then (require_amd64_elf limits) require_runtime_linkage) \<longleftrightarrow> role = Amd64Elf Runtime)
    \<and> validate_encoded_length limits (il_minimum_encoded_bytes limits) = Inr ()
    \<and> validate_encoded_length limits (il_maximum_encoded_bytes limits) = Inr ()
    \<and> validate_encoded_length limits (il_minimum_encoded_bytes limits - 1) \<noteq> Inr ()
    \<and> validate_encoded_length limits (il_maximum_encoded_bytes limits + 1) \<noteq> Inr ()
    \<and> role \<in> set all_artifact_roles"
proof (cases role)
  case (Amd64Elf policy)
  then show ?thesis
    by (cases policy)
      (simp_all add: Let_def carries_def require_oci_def require_risc0_guest_elf_def require_amd64_elf_def
        require_jvm_jar_def require_runtime_linkage_def validate_encoded_length_def in_closed_range_def
        all_artifact_roles_def)
next
  case (JvmJar policy)
  then show ?thesis
    by (cases policy)
      (simp_all add: Let_def carries_def require_oci_def require_risc0_guest_elf_def require_amd64_elf_def
        require_jvm_jar_def require_runtime_linkage_def validate_encoded_length_def in_closed_range_def
        all_artifact_roles_def)
qed (simp_all add: Let_def carries_def require_oci_def require_risc0_guest_elf_def require_amd64_elf_def
      require_jvm_jar_def require_runtime_linkage_def validate_encoded_length_def in_closed_range_def
      all_artifact_roles_def)

text \<open>
  The budgets of a startup closure and of a layer's entries are exact over any sequence of additions:
  the running total is returned while the exact sum stays within the ceiling, and the walk fails
  exactly when the sum, computed without wrap-around, is above it.
\<close>

theorem budget_accumulation_exact:
  "(case accumulate (checked_add_distinct_objects s) 0 ns of
      Inr acc \<Rightarrow> unat acc = sum_list (map unat ns) \<and> acc \<le> sc_distinct_objects s
    | Inl e \<Rightarrow> unat (sc_distinct_objects s) < sum_list (map unat ns))
   \<and> (case accumulate (checked_add_distinct_object_bytes s) 0 ns of
      Inr acc \<Rightarrow> unat acc = sum_list (map unat ns) \<and> acc \<le> sc_aggregate_distinct_object_bytes s
    | Inl e \<Rightarrow> unat (sc_aggregate_distinct_object_bytes s) < sum_list (map unat ns))
   \<and> (case accumulate (checked_add_tar_entries l) 0 ns of
      Inr acc \<Rightarrow> unat acc = sum_list (map unat ns) \<and> acc \<le> ll_maximum_tar_entries l
    | Inl e \<Rightarrow> unat (ll_maximum_tar_entries l) < sum_list (map unat ns))"
  using startup_objects.accumulate_exact startup_bytes.accumulate_exact layer_entries.accumulate_exact
  by blast

declare role_limits.simps [simp del]

end
