(* ===== verification/OciLayer.thy ===== *)
theory OciLayer
  imports OciTranscript ArtifactImport
begin

text \<open>
  The ustar stream of an OCI layer
  (\<open>generator/src/b4_campaign_executor/oci_image_layout_import/layer.rs\<close>): the header parser, the
  entry rules and counters, the inspection loop that drives the transcript and a replay sink, and the
  gzip envelope. A reader is the list of the bytes it delivers before its end or its first error;
  \<open>read_exact\<close> fails when fewer are left. The Deflate decoder (crate \<open>flate2\<close>), SHA-256 and CRC-32
  are parameters.
\<close>

section \<open>Limits\<close>

text \<open>The stream limits of the OCI role, the value the two getters below reach.\<close>

definition oci_layer_limits :: LayerLimits where
  "oci_layer_limits =
     \<lparr>ll_maximum_uncompressed_tar_bytes = 34359738368, ll_maximum_tar_entries = 1000000,
      ll_maximum_regular_file_payload_bytes = 1073741824, ll_maximum_layers = 128\<rparr>"

definition oci_image_limits :: OciLimits where
  "oci_image_limits =
     \<lparr>ol_maximum_outer_ustar_member_payload_bytes = 8589934591, ol_maximum_json_bytes = 1048576,
      ol_layer_stream = oci_layer_limits,
      ol_post_changeset_rootfs =
        \<lparr>fs_maximum_regular_file_bytes = 34359738368, fs_maximum_entries = 1000000\<rparr>\<rparr>"

lemma oci_role_limits: "require_oci (role_limits OciImageLayoutUstar) = Inr oci_image_limits"
  by (simp add: role_limits.simps require_oci_def oci_image_limits_def oci_layer_limits_def)

datatype EntryError =
    EntryBudget BudgetError | CountOverflow string | AggregateBytes
  | WhiteoutType | WhiteoutMode | WhiteoutPayload | WhiteoutLinkname
  | RegularMode | RegularLinkname | DirectoryMode | DirectoryPayload | DirectoryLinkname
  | SymlinkMode | SymlinkPayload | EntryType | EntryPath PathError

section \<open>Counters\<close>

record LayerCounters =
  lc_entry_count :: u64
  lc_regular_file_count :: u64
  lc_directory_count :: u64
  lc_symbolic_link_count :: u64
  lc_whiteout_count :: u64
  lc_regular_file_bytes :: u64

definition counters_default :: LayerCounters where
  "counters_default =
     \<lparr>lc_entry_count = 0, lc_regular_file_count = 0, lc_directory_count = 0,
      lc_symbolic_link_count = 0, lc_whiteout_count = 0, lc_regular_file_bytes = 0\<rparr>"

definition add_entry :: "LayerLimits \<Rightarrow> LayerCounters \<Rightarrow> EntryError + LayerCounters" where
  "add_entry limits c =
     and_then (map_err EntryBudget (checked_add_tar_entries limits (lc_entry_count c) 1)) (\<lambda>n.
     Inr (c\<lparr>lc_entry_count := n\<rparr>))"

definition add_regular :: "LayerLimits \<Rightarrow> u64 \<Rightarrow> LayerCounters \<Rightarrow> EntryError + LayerCounters" where
  "add_regular limits byte_length c =
     and_then (map_err EntryBudget (validate_regular_file_payload_bytes limits byte_length)) (\<lambda>_.
     and_then (ok_or (checked_add_word (lc_regular_file_count c) 1) (CountOverflow ''regular-file''))
       (\<lambda>n.
     and_then (ok_or (checked_add_word (lc_regular_file_bytes c) byte_length)
                 (CountOverflow ''regular-file byte'')) (\<lambda>total.
     and_then (ensure (total \<le> ll_maximum_uncompressed_tar_bytes limits) AggregateBytes) (\<lambda>_.
     Inr (c\<lparr>lc_regular_file_count := n, lc_regular_file_bytes := total\<rparr>)))))"

definition add_directory :: "LayerCounters \<Rightarrow> EntryError + LayerCounters" where
  "add_directory c =
     and_then (ok_or (checked_add_word (lc_directory_count c) 1) (CountOverflow ''directory'')) (\<lambda>n.
     Inr (c\<lparr>lc_directory_count := n\<rparr>))"

definition add_symbolic_link :: "LayerCounters \<Rightarrow> EntryError + LayerCounters" where
  "add_symbolic_link c =
     and_then (ok_or (checked_add_word (lc_symbolic_link_count c) 1) (CountOverflow ''symbolic-link''))
       (\<lambda>n. Inr (c\<lparr>lc_symbolic_link_count := n\<rparr>))"

definition add_whiteout :: "LayerCounters \<Rightarrow> EntryError + LayerCounters" where
  "add_whiteout c =
     and_then (ok_or (checked_add_word (lc_whiteout_count c) 1) (CountOverflow ''whiteout'')) (\<lambda>n.
     Inr (c\<lparr>lc_whiteout_count := n\<rparr>))"

section \<open>Header fields\<close>

definition USTAR_BLOCK_BYTES :: nat where "USTAR_BLOCK_BYTES = 512"
definition OCI_LAYER_UID_GID :: u64 where "OCI_LAYER_UID_GID = 65532"

datatype HeaderError =
    ChecksumEncoding | ChecksumMismatch | MagicMismatch | VersionMismatch | ReservedNonZero
  | NumericFieldEmpty | NumericTerminator string | NumericDigits string | NumericOverflow string
  | BytesAfterNul string | FieldEmpty string | FieldNotUtf8 string
  | SplitNotCanonical | MemberOrder | UidMismatch | GidMismatch | MtimeNonZero
  | OwnerNamesNonEmpty | DeviceNonZero | HeaderPath PathError

fun octal_fold :: "string \<Rightarrow> u64 \<Rightarrow> bytes \<Rightarrow> HeaderError + u64" where
  "octal_fold label value [] = Inr value"
| "octal_fold label value (byte # rest) =
     and_then (ok_or (Option.bind (checked_mul_word value 8)
                        (\<lambda>value. checked_add_word value (ucast (byte - 0x30))))
                 (NumericOverflow label)) (\<lambda>value. octal_fold label value rest)"

definition octal_digits :: "bytes \<Rightarrow> string \<Rightarrow> HeaderError + u64" where
  "octal_digits digits label =
     and_then (ensure (digits \<noteq> [] \<and> list_all (in_range 0x30 0x37) digits) (NumericDigits label)) (\<lambda>_.
     octal_fold label 0 digits)"

definition canonical_octal :: "bytes \<Rightarrow> string \<Rightarrow> HeaderError + u64" where
  "canonical_octal field label =
     (if field = [] then Inl NumericFieldEmpty
      else
        and_then (ensure (last field = 0) (NumericTerminator label)) (\<lambda>_.
        octal_digits (butlast field) label))"

definition canonical_field_string :: "bytes \<Rightarrow> string \<Rightarrow> bool \<Rightarrow> HeaderError + bytes" where
  "canonical_field_string field label allow_empty =
     (let end = length (takeWhile (\<lambda>b. b \<noteq> 0) field) in
      and_then (ensure (list_all (\<lambda>b. b = 0) (drop end field)) (BytesAfterNul label)) (\<lambda>_.
      and_then (ensure (allow_empty \<or> end \<noteq> 0) (FieldEmpty label)) (\<lambda>_.
      and_then (ensure (is_utf8 (take end field)) (FieldNotUtf8 label)) (\<lambda>_.
      Inr (take end field)))))"

definition validate_ustar_checksum :: "bytes \<Rightarrow> HeaderError + unit" where
  "validate_ustar_checksum header =
     and_then (ensure (header ! 154 = 0 \<and> header ! 155 = 0x20) ChecksumEncoding) (\<lambda>_.
     and_then (octal_digits (slice header 148 154) ''OCI ustar checksum'') (\<lambda>declared.
     let checksum_header = overwrite header 148 (replicate 8 0x20);
         observed = sum_list (map ucast checksum_header) in
     ensure (declared = observed) ChecksumMismatch))"

section \<open>The header\<close>

record ParsedUstarHeader =
  ph_path :: bytes
  ph_typeflag :: u8
  ph_mode :: u64
  ph_payload_bytes :: u64
  ph_linkname :: bytes
  ph_whiteout_target :: "bytes option"

definition parse_ustar_header :: "bytes \<Rightarrow> bytes option \<Rightarrow> HeaderError + ParsedUstarHeader" where
  "parse_ustar_header header previous_path =
     and_then (validate_ustar_checksum header) (\<lambda>_.
     and_then (ensure (slice header 257 263 = ascii ''ustar'' @ [0]) MagicMismatch) (\<lambda>_.
     and_then (ensure (slice header 263 265 = ascii ''00'') VersionMismatch) (\<lambda>_.
     and_then (ensure (list_all (\<lambda>b. b = 0) (drop 500 header)) ReservedNonZero) (\<lambda>_.
     and_then (canonical_field_string (slice header 0 100) ''OCI ustar name'' False) (\<lambda>name.
     and_then (canonical_field_string (slice header 345 500) ''OCI ustar prefix'' True) (\<lambda>prefix.
     let header_path = (if prefix = [] then name else prefix @ [SLASH] @ name);
         typeflag = header ! 156 in
     and_then (map_err HeaderPath (normalize_ustar_header_path header_path typeflag)) (\<lambda>path.
     and_then (map_err HeaderPath (canonical_ustar_split header_path))
       (\<lambda>(canonical_prefix, canonical_name).
     and_then (ensure (prefix = canonical_prefix \<and> name = canonical_name) SplitNotCanonical) (\<lambda>_.
     and_then (case previous_path of
                 Some previous \<Rightarrow> ensure (path > previous) MemberOrder
               | None \<Rightarrow> Inr ()) (\<lambda>_.
     and_then (canonical_octal (slice header 100 108) ''OCI ustar mode'') (\<lambda>mode.
     and_then (canonical_octal (slice header 108 116) ''OCI ustar uid'') (\<lambda>uid.
     and_then (ensure (uid = OCI_LAYER_UID_GID) UidMismatch) (\<lambda>_.
     and_then (canonical_octal (slice header 116 124) ''OCI ustar gid'') (\<lambda>gid.
     and_then (ensure (gid = OCI_LAYER_UID_GID) GidMismatch) (\<lambda>_.
     and_then (canonical_octal (slice header 124 136) ''OCI ustar size'') (\<lambda>payload_bytes.
     and_then (canonical_octal (slice header 136 148) ''OCI ustar mtime'') (\<lambda>mtime.
     and_then (ensure (mtime = 0) MtimeNonZero) (\<lambda>_.
     and_then (canonical_field_string (slice header 265 297) ''OCI ustar uname'' True) (\<lambda>uname.
     and_then (if uname = []
               then and_then (canonical_field_string (slice header 297 329) ''OCI ustar gname'' True)
                      (\<lambda>gname. ensure (gname = []) OwnerNamesNonEmpty)
               else Inl OwnerNamesNonEmpty) (\<lambda>_.
     and_then (canonical_octal (slice header 329 337) ''OCI ustar devmajor'') (\<lambda>devmajor.
     and_then (if devmajor = 0
               then and_then (canonical_octal (slice header 337 345) ''OCI ustar devminor'')
                      (\<lambda>devminor. ensure (devminor = 0) DeviceNonZero)
               else Inl DeviceNonZero) (\<lambda>_.
     and_then (canonical_field_string (slice header 157 257) ''OCI ustar linkname'' True) (\<lambda>linkname.
     and_then (map_err HeaderPath (whiteout_target path)) (\<lambda>target.
     Inr \<lparr>ph_path = path, ph_typeflag = typeflag, ph_mode = mode, ph_payload_bytes = payload_bytes,
          ph_linkname = linkname, ph_whiteout_target = target\<rparr>))))))))))))))))))))))))"

section \<open>Entries\<close>

definition validate_and_count_ustar_entry ::
  "LayerLimits \<Rightarrow> ParsedUstarHeader \<Rightarrow> LayerCounters \<Rightarrow> bytes list
     \<Rightarrow> EntryError + LayerCounters \<times> bytes list" where
  "validate_and_count_ustar_entry limits parsed counters whiteout_targets =
     and_then (add_entry limits counters) (\<lambda>counters.
     case ph_whiteout_target parsed of
       Some target \<Rightarrow>
         and_then (ensure (ph_typeflag parsed = TYPE_REGULAR) WhiteoutType) (\<lambda>_.
         and_then (ensure (ph_mode parsed = 0) WhiteoutMode) (\<lambda>_.
         and_then (ensure (ph_payload_bytes parsed = 0) WhiteoutPayload) (\<lambda>_.
         and_then (ensure (ph_linkname parsed = []) WhiteoutLinkname) (\<lambda>_.
         and_then (map_err EntryPath (insert_nonoverlapping_whiteout whiteout_targets target))
           (\<lambda>whiteout_targets.
         and_then (add_whiteout counters) (\<lambda>counters. Inr (counters, whiteout_targets)))))))
     | None \<Rightarrow>
         and_then
           (if ph_typeflag parsed = TYPE_REGULAR then
              and_then (ensure (ph_mode parsed = 0x124 \<or> ph_mode parsed = 0x16D) RegularMode) (\<lambda>_.
              and_then (ensure (ph_linkname parsed = []) RegularLinkname) (\<lambda>_.
              add_regular limits (ph_payload_bytes parsed) counters))
            else if ph_typeflag parsed = TYPE_DIRECTORY then
              and_then (ensure (ph_mode parsed = 0x16D) DirectoryMode) (\<lambda>_.
              and_then (ensure (ph_payload_bytes parsed = 0) DirectoryPayload) (\<lambda>_.
              and_then (ensure (ph_linkname parsed = []) DirectoryLinkname) (\<lambda>_.
              add_directory counters)))
            else if ph_typeflag parsed = TYPE_SYMLINK then
              and_then (ensure (ph_mode parsed = 0x1FF) SymlinkMode) (\<lambda>_.
              and_then (ensure (ph_payload_bytes parsed = 0) SymlinkPayload) (\<lambda>_.
              and_then (map_err EntryPath
                          (validate_symlink_target (ph_path parsed) (ph_linkname parsed))) (\<lambda>_.
              add_symbolic_link counters)))
            else Inl EntryType)
           (\<lambda>counters. Inr (counters, whiteout_targets)))"

definition replay_entry :: "ParsedUstarHeader \<Rightarrow> ReplayEntry" where
  "replay_entry parsed =
     \<lparr>en_path = ph_path parsed,
      en_kind =
        (case ph_whiteout_target parsed of
           Some target \<Rightarrow>
             EntryWhiteout (ph_mode parsed) (ph_payload_bytes parsed)
               (if (case rsplit_once SLASH (ph_path parsed) of
                      Some (_, basename) \<Rightarrow> basename | None \<Rightarrow> ph_path parsed) = OPAQUE_BASENAME
                then OpaqueDirectory target else Remove target)
         | None \<Rightarrow>
             if ph_typeflag parsed = TYPE_REGULAR
             then EntryRegularFile (ph_mode parsed) (ph_payload_bytes parsed)
             else if ph_typeflag parsed = TYPE_DIRECTORY
             then EntryDirectory (ph_mode parsed) (ph_payload_bytes parsed)
             else EntrySymbolicLink (ph_mode parsed) (ph_payload_bytes parsed) (ph_linkname parsed))\<rparr>"

section \<open>The stream\<close>

datatype 'e LayerError =
    HeaderTruncated | SecondBlockTruncated | SecondBlockNonZero
  | PayloadTruncated | PaddingTruncated | PaddingNonZero
  | BadHeader HeaderError | BadEntry EntryError | BadTranscript TranscriptError
  | SinkRejectedEntry 'e | SinkRejectedChunk 'e | SinkRejectedFinish 'e

definition read_exact :: "nat \<Rightarrow> bytes \<Rightarrow> (bytes \<times> bytes) option" where
  "read_exact n source = (if n \<le> length source then Some (take n source, drop n source) else None)"

text \<open>A call on the optional sink; \<open>w\<close> is the sink's state.\<close>

definition sink_call ::
  "('e \<Rightarrow> 'e LayerError) \<Rightarrow> ('w, 'e) replay_sink option \<Rightarrow> (('w, 'e) replay_sink \<Rightarrow> 'e + 'w)
     \<Rightarrow> 'w \<Rightarrow> 'e LayerError + 'w" where
  "sink_call err sink f w = (case sink of Some s \<Rightarrow> map_err err (f s) | None \<Rightarrow> Inr w)"

function consume_payload ::
  "('w, 'e) replay_sink option \<Rightarrow> nat \<Rightarrow> bytes \<Rightarrow> Transcript \<Rightarrow> 'w
     \<Rightarrow> 'e LayerError + bytes \<times> Transcript \<times> 'w" where
  "consume_payload sink remaining source transcript w =
     (if remaining = 0 then Inr (source, transcript, w)
      else
        let request = min IO_BUFFER_BYTES remaining in
        and_then (ok_or (read_exact request source) PayloadTruncated) (\<lambda>(chunk, source).
        and_then (map_err BadTranscript (transcript_write_chunk transcript chunk)) (\<lambda>transcript.
        and_then (sink_call SinkRejectedChunk sink (\<lambda>s. sink_write_chunk s w chunk) w) (\<lambda>w.
        consume_payload sink (remaining - request) source transcript w))))"
  by pat_completeness auto
termination
  by (relation "measure (\<lambda>(sink, remaining, source, transcript, w). remaining)")
    (auto simp: IO_BUFFER_BYTES_def)

declare consume_payload.simps [simp del]

definition padding_bytes :: "u64 \<Rightarrow> nat" where
  "padding_bytes payload_bytes =
     (USTAR_BLOCK_BYTES - unat payload_bytes mod USTAR_BLOCK_BYTES) mod USTAR_BLOCK_BYTES"

definition consume_payload_and_padding ::
  "('w, 'e) replay_sink option \<Rightarrow> u64 \<Rightarrow> bytes \<Rightarrow> Transcript \<Rightarrow> 'w
     \<Rightarrow> 'e LayerError + bytes \<times> Transcript \<times> 'w" where
  "consume_payload_and_padding sink payload_bytes source transcript w =
     and_then (consume_payload sink (unat payload_bytes) source transcript w)
       (\<lambda>(source, transcript, w).
     and_then (ok_or (read_exact (padding_bytes payload_bytes) source) PaddingTruncated)
       (\<lambda>(padding, source).
     and_then (ensure (list_all (\<lambda>b. b = 0) padding) PaddingNonZero) (\<lambda>_.
     Inr (source, transcript, w))))"

lemma read_exact_eq_Some [simp]:
  "read_exact n source = Some (xs, rest) \<longleftrightarrow> source = xs @ rest \<and> length xs = n"
  by (auto simp: read_exact_def)

lemma consume_payload_source:
  "consume_payload sink remaining source transcript w = Inr (source', transcript', w') \<Longrightarrow>
    \<exists>payload. source = payload @ source' \<and> length payload = remaining"
proof (induction sink remaining source transcript w rule: consume_payload.induct)
  case (1 sink remaining source transcript w)
  show ?case
  proof (cases "remaining = 0")
    case True
    then show ?thesis using 1(2) by (simp add: consume_payload.simps)
  next
    case False
    then obtain chunk rest t v where step: "source = chunk @ rest"
      "length chunk = min IO_BUFFER_BYTES remaining"
      "transcript_write_chunk transcript chunk = Inr t"
      "sink_call SinkRejectedChunk sink (\<lambda>s. sink_write_chunk s w chunk) w = Inr v"
      and more: "consume_payload sink (remaining - min IO_BUFFER_BYTES remaining) rest t v
        = Inr (source', transcript', w')"
      using 1(2) by (subst (asm) consume_payload.simps) (auto simp: Let_def)
    have "\<exists>payload. rest = payload @ source' \<and>
        length payload = remaining - min IO_BUFFER_BYTES remaining"
      by (rule 1(1) [OF False refl _ refl _ _ more]) (use step in auto)
    then show ?thesis using step by auto
  qed
qed

lemma consume_source:
  assumes "consume_payload_and_padding sink n source transcript w = Inr (source', transcript', w')"
  shows "\<exists>payload. source = payload @ replicate (padding_bytes n) 0 @ source' \<and> length payload = unat n"
proof -
  obtain s t v padding where c: "consume_payload sink (unat n) source transcript w = Inr (s, t, v)"
    and p: "s = padding @ source'" "length padding = padding_bytes n" "list_all (\<lambda>b. b = 0) padding"
    using assms by (auto simp: consume_payload_and_padding_def)
  have "padding = replicate (padding_bytes n) 0"
    using p(2,3) replicate_length_same [of padding 0] by (simp add: list_all_iff)
  then show ?thesis using consume_payload_source [OF c] p by auto
qed

text \<open>One round of the loop of \<open>inspect_exact_ustar\<close> after a header that is not a terminator.\<close>

definition inspect_member ::
  "('w, 'e) replay_sink option \<Rightarrow> LayerLimits \<Rightarrow> bytes \<Rightarrow> bytes \<Rightarrow> LayerCounters \<Rightarrow> bytes option
     \<Rightarrow> bytes list \<Rightarrow> Transcript \<Rightarrow> 'w
     \<Rightarrow> 'e LayerError + bytes \<times> LayerCounters \<times> bytes \<times> bytes list \<times> Transcript \<times> 'w" where
  "inspect_member sink limits header source counters previous_path whiteout_targets transcript w =
     and_then (map_err BadHeader (parse_ustar_header header previous_path)) (\<lambda>parsed.
     and_then (map_err BadEntry
                 (validate_and_count_ustar_entry limits parsed counters whiteout_targets))
       (\<lambda>(counters, whiteout_targets).
     let entry = replay_entry parsed in
     and_then (map_err BadTranscript (transcript_begin_entry transcript entry)) (\<lambda>transcript.
     and_then (sink_call SinkRejectedEntry sink (\<lambda>s. sink_begin_entry s w entry) w) (\<lambda>w.
     and_then (consume_payload_and_padding sink (ph_payload_bytes parsed) source transcript w)
       (\<lambda>(source, transcript, w).
     and_then (map_err BadTranscript (transcript_finish_entry transcript)) (\<lambda>transcript.
     and_then (sink_call SinkRejectedFinish sink (\<lambda>s. sink_finish_entry s w) w) (\<lambda>w.
     Inr (source, counters, ph_path parsed, whiteout_targets, transcript, w))))))))"

lemma inspect_member_source:
  "inspect_member sink limits header source counters previous targets t w
      = Inr (source', counters', path, targets', t', w') \<Longrightarrow> length source' \<le> length source"
  by (auto simp: inspect_member_def Let_def dest!: consume_source)

function inspect_loop ::
  "('w, 'e) replay_sink option \<Rightarrow> LayerLimits \<Rightarrow> bytes \<Rightarrow> LayerCounters \<Rightarrow> bytes option
     \<Rightarrow> bytes list \<Rightarrow> Transcript \<Rightarrow> 'w \<Rightarrow> 'e LayerError + LayerCounters \<times> Transcript \<times> bytes \<times> 'w" where
  "inspect_loop sink limits source counters previous_path whiteout_targets transcript w =
     and_then (ok_or (read_exact USTAR_BLOCK_BYTES source) HeaderTruncated) (\<lambda>(header, source).
     if list_all (\<lambda>b. b = 0) header then
       and_then (ok_or (read_exact USTAR_BLOCK_BYTES source) SecondBlockTruncated) (\<lambda>(second, source).
       and_then (ensure (list_all (\<lambda>b. b = 0) second) SecondBlockNonZero) (\<lambda>_.
       Inr (counters, transcript, source, w)))
     else
       and_then (inspect_member sink limits header source counters previous_path whiteout_targets
                   transcript w)
         (\<lambda>(source, counters, path, whiteout_targets, transcript, w).
       inspect_loop sink limits source counters (Some path) whiteout_targets transcript w))"
  by pat_completeness auto
termination
  by (relation "measure (\<lambda>(sink, limits, source, counters, previous, targets, transcript, w).
        length source)")
    (auto simp: USTAR_BLOCK_BYTES_def dest!: inspect_member_source)

declare inspect_loop.simps [simp del]

definition inspect_exact_ustar ::
  "(bytes \<Rightarrow> bytes) \<Rightarrow> ('w, 'e) replay_sink option \<Rightarrow> LayerLimits \<Rightarrow> bytes \<Rightarrow> 'w
     \<Rightarrow> 'e LayerError + LayerCounters \<times> bytes \<times> bytes \<times> 'w" where
  "inspect_exact_ustar sha256 sink limits source w =
     and_then (inspect_loop sink limits source counters_default None [] transcript_new w)
       (\<lambda>(counters, transcript, source, w).
     and_then (map_err BadTranscript (transcript_finish sha256 transcript)) (\<lambda>digest.
     Inr (counters, digest, source, w)))"

section \<open>The gzip envelope\<close>

definition GZIP_HEADER :: bytes where
  "GZIP_HEADER = [0x1F, 0x8B, 0x08, 0x00, 0x00, 0x00, 0x00, 0x00, 0x00, 0xFF]"

definition GZIP_TRAILER_BYTES :: nat where "GZIP_TRAILER_BYTES = 8"
definition OCI_LAYER_MIN_COMPRESSED_BYTES :: u64 where "OCI_LAYER_MIN_COMPRESSED_BYTES = 20"
definition OCI_LAYER_MIN_UNCOMPRESSED_BYTES :: u64 where "OCI_LAYER_MIN_UNCOMPRESSED_BYTES = 1024"

record ExpectedLayer =
  xl_compressed_digest :: bytes
  xl_compressed_bytes :: u64
  xl_uncompressed_bytes :: u64

record LayerReceipt =
  lr_compressed_byte_length :: nat
  lr_compressed_sha256 :: bytes
  lr_uncompressed_byte_length :: nat
  lr_uncompressed_sha256 :: bytes
  lr_counters :: LayerCounters
  lr_changeset_transcript_sha256 :: bytes

datatype 'e ImportError =
    BadRole BudgetError | CompressedLengthRange | UncompressedLengthRange | GzipHeaderTruncated | GzipHeaderMismatch
  | BadLayer "'e LayerError" | DeflateProbe | TrailingDecoded | UncompressedLength
  | GzipTrailerTruncated | Crc32Mismatch | IsizeMismatch | SecondMember | TrailingBytes
  | CompressedLength | CompressedDigest | ReplayUnfinished TranscriptError | TranscriptsDiffer

text \<open>
  The third-party functions: \<open>gz_inflate\<close> maps the compressed bytes to the bytes the decoder delivers
  and, when it then reports the end of the stream, the compressed bytes it has not consumed; \<open>None\<close>
  stands for an error after that output.
\<close>

record gzip_env =
  gz_inflate :: "bytes \<Rightarrow> bytes \<times> bytes option"
  gz_crc32 :: "bytes \<Rightarrow> u32"
  gz_sha256 :: "bytes \<Rightarrow> bytes"

text \<open>
  \<open>ObservedUncompressedReader::read\<close> with a one-byte buffer, after \<open>consumed\<close> of the delivered bytes:
  the number of bytes read, or an error. At the ceiling the decoder is probed instead.
\<close>

definition observed_probe :: "nat \<Rightarrow> bytes \<times> bytes option \<Rightarrow> nat \<Rightarrow> nat option" where
  "observed_probe maximum stream consumed =
     (let (output, ending) = stream in
      if consumed < length output then (if consumed = maximum then None else Some 1)
      else if ending = None then None else Some 0)"

definition check_gzip_trailer ::
  "gzip_env \<Rightarrow> bytes \<Rightarrow> bytes \<Rightarrow> 'e ImportError + unit" where
  "check_gzip_trailer env decoded compressed_rest =
     and_then (ok_or (read_exact GZIP_TRAILER_BYTES compressed_rest) GzipTrailerTruncated)
       (\<lambda>(trailer, trailing).
     and_then (ensure (u32_from_le (take 4 trailer) = gz_crc32 env decoded) Crc32Mismatch) (\<lambda>_.
     and_then (ensure (u32_from_le (drop 4 trailer) = word_of_nat (length decoded mod 2 ^ 32))
                 IsizeMismatch) (\<lambda>_.
     if trailing = [] then Inr ()
     else if trailing ! 0 = 0x1F \<and> length trailing \<ge> 2 \<and> trailing ! 1 = 0x8B
     then Inl SecondMember else Inl TrailingBytes)))"

definition inspect_authenticated_inner ::
  "gzip_env \<Rightarrow> ('w, 'e) replay_sink option \<Rightarrow> bytes \<Rightarrow> ExpectedLayer \<Rightarrow> 'w
     \<Rightarrow> 'e ImportError + LayerReceipt \<times> 'w" where
  "inspect_authenticated_inner env sink source expectation w =
     (and_then (map_err BadRole (require_oci (role_limits OciImageLayoutUstar))) (\<lambda>oci_limits.
      let limits = ol_layer_stream oci_limits;
          expected_compressed = xl_compressed_bytes expectation;
          expected_uncompressed = xl_uncompressed_bytes expectation;
          role_maximum = ll_maximum_uncompressed_tar_bytes limits in
      and_then (ensure (OCI_LAYER_MIN_COMPRESSED_BYTES \<le> expected_compressed
                        \<and> expected_compressed \<le> ol_maximum_outer_ustar_member_payload_bytes oci_limits)
                  CompressedLengthRange) (\<lambda>_.
      and_then (ensure (OCI_LAYER_MIN_UNCOMPRESSED_BYTES \<le> expected_uncompressed
                        \<and> expected_uncompressed \<le> role_maximum
                        \<and> expected_uncompressed mod 512 = 0) UncompressedLengthRange) (\<lambda>_.
      let bounded = take (unat expected_compressed) source in
      and_then (ok_or (read_exact (length GZIP_HEADER) bounded) GzipHeaderTruncated)
        (\<lambda>(header, compressed).
      and_then (ensure (header = GZIP_HEADER) GzipHeaderMismatch) (\<lambda>_.
      let stream = gz_inflate env compressed;
          maximum = min (unat expected_uncompressed) (unat role_maximum);
          visible = take maximum (fst stream) in
      and_then (map_err BadLayer
                  (inspect_exact_ustar (gz_sha256 env) sink limits visible w))
        (\<lambda>(counters, changeset_digest, rest, w).
      let consumed = length visible - length rest in
      and_then (ok_or (observed_probe maximum stream consumed) DeflateProbe) (\<lambda>probed.
      and_then (ensure (probed = 0) TrailingDecoded) (\<lambda>_.
      and_then (ensure (consumed = unat expected_uncompressed) UncompressedLength) (\<lambda>_.
      and_then (ok_or (snd stream) DeflateProbe) (\<lambda>compressed_rest.
      let decoded = take consumed (fst stream) in
      and_then (check_gzip_trailer env decoded compressed_rest) (\<lambda>_.
      and_then (ensure (length bounded = unat expected_compressed) CompressedLength) (\<lambda>_.
      and_then (ensure (gz_sha256 env bounded = xl_compressed_digest expectation) CompressedDigest)
        (\<lambda>_.
      Inr (\<lparr>lr_compressed_byte_length = length bounded,
            lr_compressed_sha256 = gz_sha256 env bounded,
            lr_uncompressed_byte_length = consumed,
            lr_uncompressed_sha256 = gz_sha256 env decoded,
            lr_counters = counters,
            lr_changeset_transcript_sha256 = changeset_digest\<rparr>, w)))))))))))))))"

definition inspect_authenticated_oci_layer ::
  "gzip_env \<Rightarrow> bytes \<Rightarrow> ExpectedLayer \<Rightarrow> TranscriptError ImportError + LayerReceipt" where
  "inspect_authenticated_oci_layer env source expectation =
     and_then (inspect_authenticated_inner env (None :: (unit, TranscriptError) replay_sink option)
                 source expectation ()) (\<lambda>(receipt, w). Inr receipt)"

definition replay_authenticated_oci_layer ::
  "gzip_env \<Rightarrow> bytes \<Rightarrow> ExpectedLayer \<Rightarrow> TranscriptError ImportError + LayerReceipt" where
  "replay_authenticated_oci_layer env source expectation =
     and_then (inspect_authenticated_inner env (Some transcript_sink) source expectation transcript_new)
       (\<lambda>(receipt, sink).
     and_then (map_err ReplayUnfinished (transcript_finish (gz_sha256 env) sink)) (\<lambda>replay_transcript.
     and_then (ensure (replay_transcript = lr_changeset_transcript_sha256 receipt) TranscriptsDiffer)
       (\<lambda>_. Inr receipt)))"

definition replay_authenticated_oci_layer_with_sink ::
  "gzip_env \<Rightarrow> bytes \<Rightarrow> ExpectedLayer \<Rightarrow> ('w, 'e) replay_sink \<Rightarrow> 'w
     \<Rightarrow> 'e AuthenticatedError ImportError + LayerReceipt \<times> 'w" where
  "replay_authenticated_oci_layer_with_sink env source expectation downstream w =
     and_then (inspect_authenticated_inner env (Some (authenticated_sink downstream)) source
                 expectation (transcript_new, w)) (\<lambda>(receipt, (sink, w)).
     and_then (map_err ReplayUnfinished (transcript_finish (gz_sha256 env) sink)) (\<lambda>replay_transcript.
     and_then (ensure (replay_transcript = lr_changeset_transcript_sha256 receipt) TranscriptsDiffer)
       (\<lambda>_. Inr (receipt, w))))"

end
