(* ===== verification/UstarHeader.thy ===== *)
theory UstarHeader
  imports OciLayer
begin

text \<open>
  The ustar header as an exact encoding: the parser of \<open>OciLayer\<close> accepts a 512-byte block exactly when
  it is the canonical spelling of the parsed record, so a member's header is determined by its path,
  type, mode, size and link name.
\<close>

section \<open>Octal numbers\<close>

fun octal_encode :: "nat \<Rightarrow> nat \<Rightarrow> bytes" where
  "octal_encode 0 v = []"
| "octal_encode (Suc n) v = octal_encode n (v div 8) @ [word_of_nat (48 + v mod 8)]"

definition octal_step :: "nat \<Rightarrow> u8 \<Rightarrow> nat" where
  "octal_step v b = 8 * v + (unat b - 48)"

definition octal_value :: "bytes \<Rightarrow> nat" where
  "octal_value bs = foldl octal_step 0 bs"

definition octal_digit :: "u8 \<Rightarrow> bool" where
  "octal_digit b \<longleftrightarrow> 48 \<le> unat b \<and> unat b \<le> 55"

lemma in_range_digit: "in_range 0x30 0x37 = octal_digit"
  by (auto simp: fun_eq_iff in_range_def octal_digit_def word_le_nat_alt)

lemma length_octal_encode [simp]: "length (octal_encode n v) = n"
  by (induction n arbitrary: v) simp_all

lemma unat_digit [simp]: "unat (word_of_nat (48 + v mod 8) :: u8) = 48 + v mod 8"
  by (simp add: unat_of_nat del: of_nat_add)

lemma octal_encode_digits: "list_all octal_digit (octal_encode n v)"
  by (induction n arbitrary: v) (auto simp: octal_digit_def simp del: of_nat_add)

lemma octal_value_snoc: "octal_value (bs @ [b]) = 8 * octal_value bs + (unat b - 48)"
  by (simp add: octal_value_def octal_step_def)

lemma octal_value_encode: "octal_value (octal_encode n v) = v mod 8 ^ n"
proof (induction n arbitrary: v)
  case 0
  then show ?case by (simp add: octal_value_def)
next
  case (Suc n)
  have "v mod (8 * 8 ^ n) = 8 * (v div 8 mod 8 ^ n) + v mod 8" by (simp add: mod_mult2_eq)
  then show ?case using Suc by (simp add: octal_value_snoc del: of_nat_add)
qed

lemma octal_encode_value:
  "list_all octal_digit bs \<Longrightarrow>
    octal_encode (length bs) (octal_value bs) = bs \<and> octal_value bs < 8 ^ length bs"
proof (induction bs rule: rev_induct)
  case Nil
  then show ?case by (simp add: octal_value_def)
next
  case (snoc b bs)
  define d where "d = unat b - 48"
  have d: "d < 8" "unat b = 48 + d" using snoc.prems by (auto simp: d_def octal_digit_def)
  then have "(word_of_nat (48 + d) :: u8) = b" unfolding d(2) [symmetric] by simp
  moreover have "octal_value (bs @ [b]) = 8 * octal_value bs + d"
    using d by (simp add: octal_value_snoc)
  moreover have "(8 * octal_value bs + d) div 8 = octal_value bs" "(8 * octal_value bs + d) mod 8 = d"
    using d by simp_all
  ultimately show ?case using snoc d by simp
qed

lemma octal_step_mono: "v \<le> foldl octal_step v bs"
proof (induction bs arbitrary: v)
  case (Cons b bs)
  have "v \<le> octal_step v b" by (simp add: octal_step_def)
  with Cons.IH [of "octal_step v b"] show ?case by simp
qed simp

lemma octal_fold_eq_Inr:
  "list_all octal_digit bs \<Longrightarrow>
    octal_fold label v bs = Inr w \<longleftrightarrow> unat w = foldl octal_step (unat v) bs"
proof (induction bs arbitrary: v)
  case Nil
  then show ?case by (auto simp: word_unat_eq_iff)
next
  case (Cons b bs)
  have d: "unat (ucast (b - 0x30) :: u64) = unat b - 48"
  proof -
    have "(0x30 :: u8) \<le> b" using Cons.prems by (simp add: octal_digit_def word_le_nat_alt)
    then have "unat (b - 0x30) = unat b - 48" by (simp add: unat_sub)
    moreover have "unat (ucast c :: u64) = unat c" for c :: u8
    proof -
      have "unat c < 256" using unsigned_less [of c] by simp
      then show ?thesis by (simp add: unsigned_ucast_eq take_bit_nat_eq_self)
    qed
    ultimately show ?thesis by simp
  qed
  have "octal_fold label v (b # bs) = Inr w \<longleftrightarrow>
      (\<exists>x. unat x = octal_step (unat v) b \<and> octal_fold label x bs = Inr w)"
  proof
    assume "octal_fold label v (b # bs) = Inr w"
    then show "\<exists>x. unat x = octal_step (unat v) b \<and> octal_fold label x bs = Inr w"
      using d by (auto simp: Option.bind_eq_Some_conv octal_step_def mult.commute)
  next
    assume "\<exists>x. unat x = octal_step (unat v) b \<and> octal_fold label x bs = Inr w"
    then obtain x where x: "unat x = octal_step (unat v) b" "octal_fold label x bs = Inr w" by blast
    have "unat v * 8 < 2 ^ 64" using x(1) unat_u64_bound [of x] by (simp add: octal_step_def)
    then have "unat (v * 8) = unat v * 8" by (simp add: unat_word_ariths)
    then show "octal_fold label v (b # bs) = Inr w"
      using x d by (simp add: Option.bind_eq_Some_conv octal_step_def mult.commute) metis
  qed
  also have "\<dots> \<longleftrightarrow> unat w = foldl octal_step (octal_step (unat v) b) bs"
  proof
    assume "\<exists>x. unat x = octal_step (unat v) b \<and> octal_fold label x bs = Inr w"
    then show "unat w = foldl octal_step (octal_step (unat v) b) bs" using Cons by auto
  next
    assume r: "unat w = foldl octal_step (octal_step (unat v) b) bs"
    then have "octal_step (unat v) b < 2 ^ 64"
      using octal_step_mono [of "octal_step (unat v) b" bs] unat_u64_bound [of w] by simp
    then have "unat (word_of_nat (octal_step (unat v) b) :: u64) = octal_step (unat v) b"
      by (simp add: unat_of_nat)
    then show "\<exists>x. unat x = octal_step (unat v) b \<and> octal_fold label x bs = Inr w"
      using r Cons by (intro exI [of _ "word_of_nat (octal_step (unat v) b)"]) simp
  qed
  finally show ?case by simp
qed

lemma octal_digits_eq_Inr:
  "octal_digits bs label = Inr w \<longleftrightarrow>
    bs \<noteq> [] \<and> unat w < 8 ^ length bs \<and> bs = octal_encode (length bs) (unat w)"
proof
  assume "octal_digits bs label = Inr w"
  then have "bs \<noteq> []" "list_all octal_digit bs" "unat w = octal_value bs"
    by (auto simp: octal_digits_def in_range_digit octal_fold_eq_Inr octal_value_def)
  then show "bs \<noteq> [] \<and> unat w < 8 ^ length bs \<and> bs = octal_encode (length bs) (unat w)"
    using octal_encode_value by simp
next
  assume r: "bs \<noteq> [] \<and> unat w < 8 ^ length bs \<and> bs = octal_encode (length bs) (unat w)"
  then have "list_all octal_digit bs" using octal_encode_digits by metis
  moreover have "octal_value bs = unat w" using r octal_value_encode by (metis mod_less)
  ultimately show "octal_digits bs label = Inr w"
    using r by (simp add: octal_digits_def in_range_digit octal_fold_eq_Inr octal_value_def)
qed

definition octal_field :: "nat \<Rightarrow> nat \<Rightarrow> bytes" where
  "octal_field n v = octal_encode (n - 1) v @ [0]"

lemma canonical_octal_eq_Inr:
  assumes "2 \<le> length field"
  shows "canonical_octal field label = Inr w \<longleftrightarrow>
    unat w < 8 ^ (length field - 1) \<and> field = octal_field (length field) (unat w)"
proof (cases field rule: rev_cases)
  case Nil
  then show ?thesis using assms by simp
next
  case (snoc ds t)
  then show ?thesis using assms
    by (auto simp: canonical_octal_def octal_digits_eq_Inr octal_field_def)
qed

section \<open>Text fields\<close>

definition text_field :: "nat \<Rightarrow> bytes \<Rightarrow> bytes" where
  "text_field n s = s @ replicate (n - length s) 0"

lemma takeWhile_nonzero: "(0 :: u8) \<notin> set s \<Longrightarrow> takeWhile (\<lambda>b. b \<noteq> 0) (s @ replicate k 0) = s"
  by (induction s) (cases k; auto)+

lemma canonical_field_string_eq_Inr:
  "canonical_field_string field label allow_empty = Inr s \<longleftrightarrow>
    field = text_field (length field) s \<and> length s \<le> length field \<and> 0 \<notin> set s \<and> is_utf8 s
    \<and> (allow_empty \<or> s \<noteq> [])"
proof -
  let ?t = "takeWhile (\<lambda>b. b \<noteq> 0) field"
  have take: "take (length ?t) field = ?t" by (metis takeWhile_eq_take)
  have drop: "drop (length ?t) field = dropWhile (\<lambda>b. b \<noteq> 0) field" by (metis dropWhile_eq_drop)
  show ?thesis
  proof
    assume "canonical_field_string field label allow_empty = Inr s"
    then have s: "s = ?t" "list_all (\<lambda>b. b = 0) (dropWhile (\<lambda>b. b \<noteq> 0) field)" "is_utf8 s"
      "allow_empty \<or> s \<noteq> []"
      by (auto simp: canonical_field_string_def Let_def take drop)
    have zeros: "dropWhile (\<lambda>b. b \<noteq> 0) field
        = replicate (length (dropWhile (\<lambda>b. b \<noteq> 0) field)) 0"
      by (rule replicate_length_same [symmetric, OF s(2) [unfolded list_all_iff]])
    have len: "length (dropWhile (\<lambda>b. b \<noteq> 0) field) = length field - length s"
      by (simp only: drop [symmetric] length_drop s(1))
    have "field = ?t @ dropWhile (\<lambda>b. b \<noteq> 0) field" by simp
    then have "field = text_field (length field) s"
      unfolding text_field_def s(1) [symmetric] zeros [unfolded len] .
    moreover have "length s \<le> length field" using s(1) by (simp add: length_takeWhile_le)
    moreover have "0 \<notin> set s" using s(1) by (auto dest: set_takeWhileD)
    ultimately show "field = text_field (length field) s \<and> length s \<le> length field \<and> 0 \<notin> set s
        \<and> is_utf8 s \<and> (allow_empty \<or> s \<noteq> [])" using s by simp
  next
    assume r: "field = text_field (length field) s \<and> length s \<le> length field \<and> 0 \<notin> set s
        \<and> is_utf8 s \<and> (allow_empty \<or> s \<noteq> [])"
    then obtain k where k: "field = s @ replicate k 0" by (auto simp: text_field_def)
    have "0 \<notin> set s" "is_utf8 s" "allow_empty \<or> s \<noteq> []" using r by blast+
    then show "canonical_field_string field label allow_empty = Inr s"
      unfolding k by (auto simp: canonical_field_string_def Let_def takeWhile_nonzero list_all_iff)
  qed
qed

section \<open>The block as a list of fields\<close>

text \<open>The widths of the seventeen fields of a ustar header, in order.\<close>

definition field_widths :: "nat list" where
  "field_widths = [100, 8, 8, 8, 12, 12, 8, 1, 100, 6, 2, 32, 32, 8, 8, 155, 12]"

definition fields_of :: "bytes \<Rightarrow> bytes list" where
  "fields_of h =
     [slice h 0 100, slice h 100 108, slice h 108 116, slice h 116 124, slice h 124 136,
      slice h 136 148, slice h 148 156, slice h 156 157, slice h 157 257, slice h 257 263,
      slice h 263 265, slice h 265 297, slice h 297 329, slice h 329 337, slice h 337 345,
      slice h 345 500, slice h 500 512]"

lemma fields_of_widths: "length h = 512 \<Longrightarrow> map length (fields_of h) = field_widths"
  by (simp add: fields_of_def field_widths_def)

lemma slice_same_split:
  "a \<le> b \<Longrightarrow> b \<le> c \<Longrightarrow> slice g a b = slice h a b \<Longrightarrow> slice g b c = slice h b c \<Longrightarrow>
    slice g a c = slice h a c"
  by (metis slice_append_slice)

lemma concat_fields_of: "length h = 512 \<Longrightarrow> concat (fields_of h) = h"
  by (simp add: fields_of_def slice_append_slice slice_full)

lemma same_widths_concat:
  "map length xs = map length ys \<Longrightarrow> concat xs = concat ys \<Longrightarrow> xs = ys"
proof (induction xs arbitrary: ys)
  case (Cons x xs)
  then show ?case by (cases ys) (auto simp: append_eq_same_length)
qed simp

lemma fields_of_concat:
  assumes "map length fs = field_widths"
  shows "fields_of (concat fs) = fs"
proof -
  have len: "length (concat fs) = 512"
    using assms by (simp add: length_concat field_widths_def)
  show ?thesis
    by (rule same_widths_concat) (simp_all add: fields_of_widths [OF len] concat_fields_of [OF len] assms)
qed

section \<open>The canonical header of a record\<close>

definition spelled_path :: "ParsedUstarHeader \<Rightarrow> bytes" where
  "spelled_path p = ph_path p @ (if ph_typeflag p = TYPE_DIRECTORY then [SLASH] else [])"

definition header_fields :: "bytes \<Rightarrow> bytes \<Rightarrow> bytes \<Rightarrow> ParsedUstarHeader \<Rightarrow> bytes list" where
  "header_fields name checksum prefix p =
     [text_field 100 name, octal_field 8 (unat (ph_mode p)), octal_field 8 65532, octal_field 8 65532,
      octal_field 12 (unat (ph_payload_bytes p)), octal_field 12 0, checksum, [ph_typeflag p],
      text_field 100 (ph_linkname p), ascii ''ustar'' @ [0], ascii ''00'', replicate 32 0,
      replicate 32 0, octal_field 8 0, octal_field 8 0, text_field 155 prefix, replicate 12 0]"

definition byte_sum :: "bytes \<Rightarrow> nat" where
  "byte_sum bs = sum_list (map unat bs)"

definition checksum_field :: "nat \<Rightarrow> bytes" where
  "checksum_field n = octal_encode 6 n @ [0, 0x20]"

definition ustar_encode :: "ParsedUstarHeader \<Rightarrow> bytes" where
  "ustar_encode p =
     (case canonical_ustar_split (spelled_path p) of
        Inl _ \<Rightarrow> []
      | Inr (prefix, name) \<Rightarrow>
          let blank = concat (header_fields name (replicate 8 0x20) prefix p) in
          concat (header_fields name (checksum_field (byte_sum blank)) prefix p))"

definition text_ok :: "nat \<Rightarrow> bytes \<Rightarrow> bool" where
  "text_ok n s \<longleftrightarrow> length s \<le> n \<and> 0 \<notin> set s \<and> is_utf8 s"

definition ustar_valid :: "ParsedUstarHeader \<Rightarrow> bool" where
  "ustar_valid p \<longleftrightarrow>
     contained_path (ph_path p) \<and> length (spelled_path p) \<le> 240
     \<and> (case canonical_ustar_split (spelled_path p) of
          Inl _ \<Rightarrow> False | Inr (prefix, name) \<Rightarrow> text_ok 155 prefix \<and> text_ok 100 name)
     \<and> unat (ph_mode p) < 8 ^ 7 \<and> unat (ph_payload_bytes p) < 8 ^ 11
     \<and> text_ok 100 (ph_linkname p)
     \<and> whiteout_target (ph_path p) = Inr (ph_whiteout_target p)"

lemma length_octal_field [simp]: "0 < n \<Longrightarrow> length (octal_field n v) = n"
  by (simp add: octal_field_def)

lemma length_text_field [simp]: "length s \<le> n \<Longrightarrow> length (text_field n s) = n"
  by (simp add: text_field_def)

lemma byte_sum_bound: "byte_sum bs \<le> 255 * length bs"
proof (induction bs)
  case (Cons b bs)
  have "unat b < 256" using unsigned_less [of b] by simp
  then show ?case using Cons by (simp add: byte_sum_def)
qed (simp add: byte_sum_def)

lemma unat_ucast_u8 [simp]: "unat (ucast b :: u64) = unat b" for b :: u8
proof -
  have "unat b < 256" using unsigned_less [of b] by simp
  then show ?thesis by (simp add: unsigned_ucast_eq take_bit_nat_eq_self)
qed

lemma unat_sum_ucast:
  "length bs \<le> 512 \<Longrightarrow> unat (sum_list (map ucast bs) :: u64) = byte_sum bs"
proof (induction bs)
  case Nil
  then show ?case by (simp add: byte_sum_def)
next
  case (Cons b bs)
  have "unat b + byte_sum bs = byte_sum (b # bs)" by (simp add: byte_sum_def)
  moreover have "byte_sum (b # bs) < 2 ^ 64"
    using byte_sum_bound [of "b # bs"] Cons.prems by simp
  ultimately show ?case using Cons by (simp add: unat_word_ariths)
qed

lemma slice_single: "i < length h \<Longrightarrow> slice h i (Suc i) = [h ! i]"
  by (simp add: slice_def take_Suc_conv_app_nth hd_drop_conv_nth take_Suc)

lemma checksum_eq_Inr:
  assumes "length h = 512"
  shows "validate_ustar_checksum h = Inr u \<longleftrightarrow>
    slice h 148 156 = checksum_field (byte_sum (overwrite h 148 (replicate 8 0x20)))"
proof -
  let ?n = "byte_sum (overwrite h 148 (replicate 8 0x20))"
  have split: "slice h 148 156 = slice h 148 154 @ [h ! 154, h ! 155]"
    using slice_append_slice [of 148 154 156 h] slice_append_slice [of 154 155 156 h]
      slice_single [of 154 h] slice_single [of 155 h] assms by simp
  have len: "length (overwrite h 148 (replicate 8 0x20)) = 512" using assms by simp
  have small: "?n < 262144" using byte_sum_bound [of "overwrite h 148 (replicate 8 0x20)"] len by simp
  have six: "length (slice h 148 154) = 6" using assms by simp
  then have ne: "slice h 148 154 \<noteq> []" by (metis list.size(3) zero_neq_numeral)
  have "validate_ustar_checksum h = Inr u \<longleftrightarrow> h ! 154 = 0 \<and> h ! 155 = 0x20 \<and>
      octal_digits (slice h 148 154) ''OCI ustar checksum''
        = Inr (sum_list (map ucast (overwrite h 148 (replicate 8 0x20))))"
    by (auto simp: validate_ustar_checksum_def Let_def)
  also have "\<dots> \<longleftrightarrow> h ! 154 = 0 \<and> h ! 155 = 0x20 \<and> slice h 148 154 = octal_encode 6 ?n"
    using ne six small len by (simp add: octal_digits_eq_Inr unat_sum_ucast del: length_slice)
  also have "\<dots> \<longleftrightarrow> slice h 148 156 = checksum_field ?n"
    unfolding split checksum_field_def using assms by (auto simp: append_eq_append_conv)
  finally show ?thesis .
qed

lemma parse_fields:
  "parse_ustar_header h prev = Inr p \<longleftrightarrow>
    validate_ustar_checksum h = Inr ()
    \<and> slice h 257 263 = ascii ''ustar'' @ [0] \<and> slice h 263 265 = ascii ''00''
    \<and> list_all (\<lambda>b. b = 0) (drop 500 h)
    \<and> ph_typeflag p = h ! 156
    \<and> (\<exists>name prefix.
         canonical_field_string (slice h 0 100) ''OCI ustar name'' False = Inr name
       \<and> canonical_field_string (slice h 345 500) ''OCI ustar prefix'' True = Inr prefix
       \<and> normalize_ustar_header_path (if prefix = [] then name else prefix @ SLASH # name) (h ! 156)
           = Inr (ph_path p)
       \<and> canonical_ustar_split (if prefix = [] then name else prefix @ SLASH # name)
           = Inr (prefix, name))
    \<and> (case prev of Some q \<Rightarrow> q < ph_path p | None \<Rightarrow> True)
    \<and> canonical_octal (slice h 100 108) ''OCI ustar mode'' = Inr (ph_mode p)
    \<and> canonical_octal (slice h 108 116) ''OCI ustar uid'' = Inr 65532
    \<and> canonical_octal (slice h 116 124) ''OCI ustar gid'' = Inr 65532
    \<and> canonical_octal (slice h 124 136) ''OCI ustar size'' = Inr (ph_payload_bytes p)
    \<and> canonical_octal (slice h 136 148) ''OCI ustar mtime'' = Inr 0
    \<and> canonical_field_string (slice h 265 297) ''OCI ustar uname'' True = Inr []
    \<and> canonical_field_string (slice h 297 329) ''OCI ustar gname'' True = Inr []
    \<and> canonical_octal (slice h 329 337) ''OCI ustar devmajor'' = Inr 0
    \<and> canonical_octal (slice h 337 345) ''OCI ustar devminor'' = Inr 0
    \<and> canonical_field_string (slice h 157 257) ''OCI ustar linkname'' True = Inr (ph_linkname p)
    \<and> whiteout_target (ph_path p) = Inr (ph_whiteout_target p)"
  unfolding parse_ustar_header_def Let_def OCI_LAYER_UID_GID_def
  by (cases p; cases prev) (auto split: if_splits)

text \<open>Reading the fields of a block: each text or octal field determines its bytes.\<close>

definition fields_match :: "bytes \<Rightarrow> bytes \<Rightarrow> bytes \<Rightarrow> ParsedUstarHeader \<Rightarrow> bool" where
  "fields_match h name prefix p \<longleftrightarrow>
     fields_of h = header_fields name (slice h 148 156) prefix p
     \<and> slice h 148 156 = checksum_field (byte_sum (overwrite h 148 (replicate 8 0x20)))"

lemma parse_match:
  assumes "length h = 512"
  shows "parse_ustar_header h prev = Inr p \<longleftrightarrow>
    (\<exists>name prefix. fields_match h name prefix p
       \<and> text_ok 100 name \<and> name \<noteq> [] \<and> text_ok 155 prefix
       \<and> normalize_ustar_header_path (if prefix = [] then name else prefix @ SLASH # name)
           (ph_typeflag p) = Inr (ph_path p)
       \<and> canonical_ustar_split (if prefix = [] then name else prefix @ SLASH # name)
           = Inr (prefix, name))
    \<and> (case prev of Some q \<Rightarrow> q < ph_path p | None \<Rightarrow> True)
    \<and> unat (ph_mode p) < 8 ^ 7 \<and> unat (ph_payload_bytes p) < 8 ^ 11
    \<and> text_ok 100 (ph_linkname p)
    \<and> whiteout_target (ph_path p) = Inr (ph_whiteout_target p)"
proof -
  have tail: "list_all (\<lambda>b. b = 0) (drop 500 h) \<longleftrightarrow> slice h 500 512 = replicate 12 0"
  proof -
    have "slice h 500 512 = drop 500 h" using assms by (simp add: slice_def)
    moreover have "length (drop 500 h) = 12" using assms by simp
    ultimately show ?thesis by (simp only: list_all_eq_replicate)
  qed
  have type: "slice h 156 157 = [t] \<longleftrightarrow> h ! 156 = t" for t
    using slice_single [of 156 h] assms by simp
  have oct: "canonical_octal (slice h a b) l = Inr w \<longleftrightarrow>
      unat w < 8 ^ (b - a - 1) \<and> slice h a b = octal_field (b - a) (unat w)"
    if "a + 2 \<le> b" "b \<le> 512" for a b l w
    using canonical_octal_eq_Inr [of "slice h a b"] that assms by simp
  have text_iff: "canonical_field_string (slice h a b) l e = Inr s \<longleftrightarrow>
      slice h a b = text_field (b - a) s \<and> text_ok (b - a) s \<and> (e \<or> s \<noteq> [])"
    if "a \<le> b" "b \<le> 512" for a b l e s
    using canonical_field_string_eq_Inr [of "slice h a b"] that assms by (auto simp: text_ok_def)
  have octs: "canonical_octal (slice h 100 108) l = Inr w \<longleftrightarrow>
      unat w < 8 ^ 7 \<and> slice h 100 108 = octal_field 8 (unat w)"
    "canonical_octal (slice h 108 116) l = Inr 65532 \<longleftrightarrow> slice h 108 116 = octal_field 8 65532"
    "canonical_octal (slice h 116 124) l = Inr 65532 \<longleftrightarrow> slice h 116 124 = octal_field 8 65532"
    "canonical_octal (slice h 124 136) l = Inr w \<longleftrightarrow>
      unat w < 8 ^ 11 \<and> slice h 124 136 = octal_field 12 (unat w)"
    "canonical_octal (slice h 136 148) l = Inr 0 \<longleftrightarrow> slice h 136 148 = octal_field 12 0"
    "canonical_octal (slice h 329 337) l = Inr 0 \<longleftrightarrow> slice h 329 337 = octal_field 8 0"
    "canonical_octal (slice h 337 345) l = Inr 0 \<longleftrightarrow> slice h 337 345 = octal_field 8 0"
    for l w
    by (subst oct; simp)+
  have txts: "canonical_field_string (slice h 0 100) l False = Inr s \<longleftrightarrow>
      slice h 0 100 = text_field 100 s \<and> text_ok 100 s \<and> s \<noteq> []"
    "canonical_field_string (slice h 345 500) l True = Inr s \<longleftrightarrow>
      slice h 345 500 = text_field 155 s \<and> text_ok 155 s"
    "canonical_field_string (slice h 265 297) l True = Inr [] \<longleftrightarrow> slice h 265 297 = replicate 32 0"
    "canonical_field_string (slice h 297 329) l True = Inr [] \<longleftrightarrow> slice h 297 329 = replicate 32 0"
    "canonical_field_string (slice h 157 257) l True = Inr s \<longleftrightarrow>
      slice h 157 257 = text_field 100 s \<and> text_ok 100 s"
    for l s
    by (subst text_iff; simp add: text_field_def text_ok_def is_utf8.simps)+
  have fields: "fields_of h = header_fields name ck prefix p \<longleftrightarrow>
      slice h 0 100 = text_field 100 name \<and> slice h 100 108 = octal_field 8 (unat (ph_mode p))
      \<and> slice h 108 116 = octal_field 8 65532 \<and> slice h 116 124 = octal_field 8 65532
      \<and> slice h 124 136 = octal_field 12 (unat (ph_payload_bytes p))
      \<and> slice h 136 148 = octal_field 12 0 \<and> slice h 148 156 = ck \<and> h ! 156 = ph_typeflag p
      \<and> slice h 157 257 = text_field 100 (ph_linkname p)
      \<and> slice h 257 263 = ascii ''ustar'' @ [0] \<and> slice h 263 265 = ascii ''00''
      \<and> slice h 265 297 = replicate 32 0 \<and> slice h 297 329 = replicate 32 0
      \<and> slice h 329 337 = octal_field 8 0 \<and> slice h 337 345 = octal_field 8 0
      \<and> slice h 345 500 = text_field 155 prefix \<and> slice h 500 512 = replicate 12 0"
    for name ck prefix
    by (simp only: fields_of_def header_fields_def list.inject type simp_thms)
  show ?thesis
    unfolding parse_fields fields_match_def checksum_eq_Inr [OF assms] tail octs txts fields
    by (rule iffI; elim exE conjE; intro exI conjI; (assumption | simp only: simp_thms))
qed

lemma header_fields_widths:
  "length name \<le> 100 \<Longrightarrow> length prefix \<le> 155 \<Longrightarrow> length (ph_linkname p) \<le> 100 \<Longrightarrow> length ck = 8 \<Longrightarrow>
    map length (header_fields name ck prefix p) = field_widths"
  by (simp add: header_fields_def field_widths_def)

lemma overwrite_checksum:
  assumes "length name \<le> 100" "length ck = 8" "length ck' = 8"
  shows "overwrite (concat (header_fields name ck prefix p)) 148 ck'
    = concat (header_fields name ck' prefix p)"
proof -
  define A where "A = text_field 100 name @ octal_field 8 (unat (ph_mode p)) @ octal_field 8 65532
    @ octal_field 8 65532 @ octal_field 12 (unat (ph_payload_bytes p)) @ octal_field 12 0"
  define B where "B = [ph_typeflag p] @ text_field 100 (ph_linkname p) @ (ascii ''ustar'' @ [0])
    @ ascii ''00'' @ replicate 32 0 @ replicate 32 0 @ octal_field 8 0 @ octal_field 8 0
    @ text_field 155 prefix @ replicate 12 (0 :: u8)"
  have split: "concat (header_fields name c prefix p) = A @ c @ B" for c
    by (simp add: header_fields_def A_def B_def)
  have "length A = 148" using assms(1) by (simp add: A_def)
  then show ?thesis unfolding split overwrite_def using assms(2,3) by simp
qed

lemma length_checksum_field [simp]: "length (checksum_field n) = 8"
  by (simp add: checksum_field_def)

lemma ustar_encode_split:
  "canonical_ustar_split (spelled_path p) = Inr (prefix, name) \<Longrightarrow>
    ustar_encode p = concat (header_fields name
      (checksum_field (byte_sum (concat (header_fields name (replicate 8 0x20) prefix p)))) prefix p)"
  by (simp add: ustar_encode_def Let_def)

lemma split_spelling:
  assumes "contained_path (ph_path p)" "canonical_ustar_split (spelled_path p) = Inr (prefix, name)"
  shows "(if prefix = [] then name else prefix @ SLASH # name) = spelled_path p" "name \<noteq> []"
proof -
  have ne: "spelled_path p \<noteq> []" and slash: "\<not> starts_with (spelled_path p) [SLASH]"
    using contained_path_shape [OF assms(1)]
    by (cases "ph_path p"; simp add: spelled_path_def)+
  show "name \<noteq> []" by (rule canonical_split_name [OF assms(2) ne])
  show "(if prefix = [] then name else prefix @ SLASH # name) = spelled_path p"
  proof (cases "length (spelled_path p) \<le> 100")
    case True
    then show ?thesis using canonical_split_joins(1,2) [OF assms(2)] by simp
  next
    case False
    then have "spelled_path p = prefix @ SLASH # name" using canonical_split_joins(1) [OF assms(2)] by simp
    with slash show ?thesis by auto
  qed
qed

lemma header_parse_sound:
  assumes len: "length h = 512" and parse: "parse_ustar_header h prev = Inr p"
  shows "ustar_valid p \<and> (case prev of Some q \<Rightarrow> q < ph_path p | None \<Rightarrow> True) \<and> h = ustar_encode p"
proof -
  obtain name prefix where m: "fields_match h name prefix p" "text_ok 100 name" "text_ok 155 prefix"
    and norm: "normalize_ustar_header_path (if prefix = [] then name else prefix @ SLASH # name)
        (ph_typeflag p) = Inr (ph_path p)"
    and split: "canonical_ustar_split (if prefix = [] then name else prefix @ SLASH # name)
        = Inr (prefix, name)"
    and rest: "case prev of Some q \<Rightarrow> q < ph_path p | None \<Rightarrow> True" "unat (ph_mode p) < 8 ^ 7"
      "unat (ph_payload_bytes p) < 8 ^ 11" "text_ok 100 (ph_linkname p)"
      "whiteout_target (ph_path p) = Inr (ph_whiteout_target p)"
    using parse parse_match [OF len, of prev p] by blast
  have spell: "(if prefix = [] then name else prefix @ SLASH # name) = spelled_path p"
    and path: "contained_path (ph_path p)" "length (spelled_path p) \<le> 240"
  proof -
    have n: "length (if prefix = [] then name else prefix @ SLASH # name) \<le> 240"
      "contained_path (ph_path p)"
      "(if prefix = [] then name else prefix @ SLASH # name) = spelled_path p"
      using norm unfolding normalize_path_eq_Inr spelled_path_def by blast+
    show "(if prefix = [] then name else prefix @ SLASH # name) = spelled_path p" by (rule n(3))
    show "contained_path (ph_path p)" by (rule n(2))
    show "length (spelled_path p) \<le> 240" using n(1) unfolding n(3) .
  qed
  note split = split [unfolded spell]
  have h: "h = concat (header_fields name (slice h 148 156) prefix p)"
    using m(1) concat_fields_of [OF len] by (metis fields_match_def)
  have "overwrite h 148 (replicate 8 0x20) = concat (header_fields name (replicate 8 0x20) prefix p)"
    by (subst h, rule overwrite_checksum) (use m(2) len in \<open>simp_all add: text_ok_def\<close>)
  then have "h = ustar_encode p"
    using h m(1) unfolding ustar_encode_split [OF split] fields_match_def by metis
  then show ?thesis using path split m(2,3) rest by (simp add: ustar_valid_def)
qed

lemma header_parse_complete:
  assumes valid: "ustar_valid p" and after: "case prev of Some q \<Rightarrow> q < ph_path p | None \<Rightarrow> True"
  shows "length (ustar_encode p) = 512 \<and> parse_ustar_header (ustar_encode p) prev = Inr p"
proof -
  obtain prefix name where split: "canonical_ustar_split (spelled_path p) = Inr (prefix, name)"
    and ok: "text_ok 155 prefix" "text_ok 100 name"
    using valid by (auto simp: ustar_valid_def split: sum.splits)
  define ck where "ck = checksum_field (byte_sum (concat (header_fields name (replicate 8 0x20) prefix p)))"
  let ?h = "ustar_encode p"
  have h: "?h = concat (header_fields name ck prefix p)"
    unfolding ck_def by (rule ustar_encode_split [OF split])
  have link: "length (ph_linkname p) \<le> 100" using valid by (simp add: ustar_valid_def text_ok_def)
  have widths: "map length (header_fields name ck prefix p) = field_widths"
    using ok link by (intro header_fields_widths) (simp_all add: text_ok_def ck_def)
  have fields: "fields_of ?h = header_fields name ck prefix p"
    unfolding h by (rule fields_of_concat [OF widths])
  have len: "length ?h = 512"
    unfolding h using widths by (simp add: length_concat field_widths_def)
  have "slice ?h 148 156 = ck"
    using arg_cong [OF fields, of "\<lambda>fs. fs ! 6"] by (simp add: fields_of_def header_fields_def)
  moreover have "overwrite ?h 148 (replicate 8 0x20)
      = concat (header_fields name (replicate 8 0x20) prefix p)"
    unfolding h by (rule overwrite_checksum) (use ok in \<open>simp_all add: text_ok_def ck_def\<close>)
  ultimately have match: "fields_match ?h name prefix p"
    using fields by (simp add: fields_match_def ck_def)
  have norm: "normalize_ustar_header_path (spelled_path p) (ph_typeflag p) = Inr (ph_path p)"
    using valid by (simp add: normalize_path_eq_Inr ustar_valid_def spelled_path_def)
  have path: "contained_path (ph_path p)" using valid by (simp add: ustar_valid_def)
  have rest: "unat (ph_mode p) < 8 ^ 7" "unat (ph_payload_bytes p) < 8 ^ 11"
    "text_ok 100 (ph_linkname p)" "whiteout_target (ph_path p) = Inr (ph_whiteout_target p)"
    using valid by (simp_all add: ustar_valid_def)
  note spell = split_spelling [OF path split]
  have "\<exists>name prefix. fields_match ?h name prefix p
       \<and> text_ok 100 name \<and> name \<noteq> [] \<and> text_ok 155 prefix
       \<and> normalize_ustar_header_path (if prefix = [] then name else prefix @ SLASH # name)
           (ph_typeflag p) = Inr (ph_path p)
       \<and> canonical_ustar_split (if prefix = [] then name else prefix @ SLASH # name)
           = Inr (prefix, name)"
    by (rule exI [of _ name], rule exI [of _ prefix], unfold spell(1))
      (intro conjI match ok spell(2) norm split)
  then have "parse_ustar_header ?h prev = Inr p"
    unfolding parse_match [OF len] by (intro conjI after rest)
  with len show ?thesis by simp
qed

text \<open>
  C15. The header parser is exact: a 512-byte block is accepted after a given path exactly when its
  record is well formed (a contained path of at most 240 bytes that fits the ustar split, UTF-8 texts
  without NUL, numbers within their octal fields, the whiteout reading of the path), the path is above
  the previous one, and the block is the canonical spelling of that record with its checksum.
\<close>

theorem ustar_header_exact:
  "length header = 512 \<and> parse_ustar_header header previous_path = Inr parsed \<longleftrightarrow>
    ustar_valid parsed
    \<and> (case previous_path of Some previous \<Rightarrow> previous < ph_path parsed | None \<Rightarrow> True)
    \<and> header = ustar_encode parsed"
  using header_parse_sound header_parse_complete by blast

end
