(* ===== verification/OciLayerBinding.thy ===== *)
theory OciLayerBinding
  imports OciLayerFacts UstarHeader
begin

text \<open>
  The members of an accepted layer stream. Inspection is unrolled into the list of its members with
  their headers and payload chunks; from it follow the structure of an accepted stream, the effects a
  downstream sink receives, and that the changeset digest determines the whole tar stream.
\<close>

section \<open>Members\<close>

record member =
  mb_parsed :: ParsedUstarHeader
  mb_chunks :: "bytes list"

definition mb_payload :: "member \<Rightarrow> bytes" where
  "mb_payload m = concat (mb_chunks m)"

definition mb_bytes :: "member \<Rightarrow> bytes" where
  "mb_bytes m = ustar_encode (mb_parsed m) @ mb_payload m
     @ replicate (padding_bytes (ph_payload_bytes (mb_parsed m))) 0"

definition mb_events :: "member \<Rightarrow> ReplayEvent list" where
  "mb_events m = Begin (replay_entry (mb_parsed m)) # map Chunk (mb_chunks m) @ [Finish]"

text \<open>The members the loop admits from a state of its variables, and the variables it ends with.\<close>

fun admits ::
  "LayerLimits \<Rightarrow> bytes option \<Rightarrow> LayerCounters \<Rightarrow> bytes list \<Rightarrow> member list \<Rightarrow> LayerCounters
     \<Rightarrow> bytes list \<Rightarrow> bool" where
  "admits limits previous counters targets [] counters' targets' =
     (counters' = counters \<and> targets' = targets)"
| "admits limits previous counters targets (m # ms) counters' targets' =
     (ustar_valid (mb_parsed m)
      \<and> (case previous of Some q \<Rightarrow> q < ph_path (mb_parsed m) | None \<Rightarrow> True)
      \<and> length (mb_payload m) = unat (ph_payload_bytes (mb_parsed m))
      \<and> (\<exists>c ts. validate_and_count_ustar_entry limits (mb_parsed m) counters targets = Inr (c, ts)
           \<and> admits limits (Some (ph_path (mb_parsed m))) c ts ms counters' targets'))"

definition fed :: "('w, 'e) replay_sink option \<Rightarrow> 'w \<Rightarrow> ReplayEvent list \<Rightarrow> 'w \<Rightarrow> bool" where
  "fed sink w es w' \<longleftrightarrow> (case sink of Some s \<Rightarrow> feed_all s w es = Inr w' | None \<Rightarrow> w' = w)"

lemma feed_all_append:
  "feed_all sink w (es @ fs) = and_then (feed_all sink w es) (\<lambda>w. feed_all sink w fs)"
  by (induction es arbitrary: w) (simp_all add: and_then_def split: sum.split)

lemma fed_simps [simp]:
  "fed sink w [] w' \<longleftrightarrow> w' = w"
  "fed sink w (es @ fs) w' \<longleftrightarrow> (\<exists>v. fed sink w es v \<and> fed sink v fs w')"
  by (auto simp: fed_def feed_all_append split: option.split)

lemma fed_Cons: "fed sink w (e # es) w' \<longleftrightarrow> (\<exists>v. fed sink w [e] v \<and> fed sink v es w')"
  using fed_simps(2) [of sink w "[e]" es w'] by simp

lemma fed_chunks:
  "fed sink w (map Chunk (c # cs)) w' \<longleftrightarrow>
    (\<exists>v. fed sink w [Chunk c] v \<and> fed sink v (map Chunk cs) w')"
  using fed_Cons [of sink w "Chunk c" "map Chunk cs" w'] by simp

lemma fed_member:
  "fed sink w (mb_events m) w' \<longleftrightarrow>
    (\<exists>u v. fed sink w [Begin (replay_entry (mb_parsed m))] u
       \<and> fed sink u (map Chunk (mb_chunks m)) v \<and> fed sink v [Finish] w')"
  unfolding mb_events_def
  using fed_Cons [of sink w "Begin (replay_entry (mb_parsed m))" _ w'] by simp

lemma read_exact_append [simp]: "length xs = n \<Longrightarrow> read_exact n (xs @ ys) = Some (xs, ys)"
  by (simp add: read_exact_def)

lemma sink_call_fed:
  "sink_call err sink (\<lambda>s. feed s w e) w = Inr w' \<longleftrightarrow> fed sink w [e] w'"
  by (auto simp: sink_call_def fed_def split: option.split)

lemmas sink_calls =
  sink_call_fed [where e = "Begin entry" for entry, simplified feed.simps]
  sink_call_fed [where e = "Chunk chunk" for chunk, simplified feed.simps]
  sink_call_fed [where e = Finish, simplified feed.simps]

lemma consume_payload_events:
  "consume_payload sink n source t w = Inr (source', t', w') \<Longrightarrow>
    \<exists>chunks. source = concat chunks @ source' \<and> length (concat chunks) = n
      \<and> fed (Some transcript_sink) t (map Chunk chunks) t' \<and> fed sink w (map Chunk chunks) w'"
proof (induction n arbitrary: source t w rule: less_induct)
  case (less n)
  show ?case
  proof (cases "n = 0")
    case True
    then show ?thesis using less.prems by (intro exI [of _ "[]"]) (simp add: consume_payload.simps)
  next
    case False
    then obtain chunk rest t1 w1 where step: "source = chunk @ rest" "length chunk = min IO_BUFFER_BYTES n"
      "transcript_write_chunk t chunk = Inr t1" "fed sink w [Chunk chunk] w1"
      and more: "consume_payload sink (n - min IO_BUFFER_BYTES n) rest t1 w1 = Inr (source', t', w')"
      using less.prems by (subst (asm) consume_payload.simps) (auto simp: Let_def sink_calls)
    have "n - min IO_BUFFER_BYTES n < n" using False by (simp add: IO_BUFFER_BYTES_def)
    from less.IH [OF this more] obtain chunks where IH: "rest = concat chunks @ source'"
      "length (concat chunks) = n - min IO_BUFFER_BYTES n"
      "fed (Some transcript_sink) t1 (map Chunk chunks) t'" "fed sink w1 (map Chunk chunks) w'"
      by blast
    have "fed (Some transcript_sink) t [Chunk chunk] t1" using step(3) by (simp add: fed_def)
    then have "fed (Some transcript_sink) t (map Chunk (chunk # chunks)) t'"
      "fed sink w (map Chunk (chunk # chunks)) w'"
      unfolding fed_chunks using IH(3,4) step(4) by blast+
    moreover have "source = concat (chunk # chunks) @ source'" "length (concat (chunk # chunks)) = n"
      using IH(1,2) step(1,2) by (simp_all del: length_concat)
    ultimately show ?thesis by blast
  qed
qed

lemma inspect_member_events:
  assumes "inspect_member sink limits header source counters previous targets t w
      = Inr (source', counters', path, targets', t', w')" and "length header = 512"
  shows "\<exists>m. header @ source = mb_bytes m @ source' \<and> path = ph_path (mb_parsed m)
    \<and> (\<forall>ms c ts. admits limits (Some path) counters' targets' ms c ts \<longrightarrow>
         admits limits previous counters targets (m # ms) c ts)
    \<and> fed (Some transcript_sink) t (mb_events m) t' \<and> fed sink w (mb_events m) w'"
proof -
  obtain p t1 w1 s2 t2 w2 where p: "parse_ustar_header header previous = Inr p"
    and v: "validate_and_count_ustar_entry limits p counters targets = Inr (counters', targets')"
    and path: "path = ph_path p"
    and start: "transcript_begin_entry t (replay_entry p) = Inr t1"
      "fed sink w [Begin (replay_entry p)] w1"
    and body: "consume_payload_and_padding sink (ph_payload_bytes p) source t1 w1 = Inr (source', t2, w2)"
    and finish: "transcript_finish_entry t2 = Inr t'" "fed sink w2 [Finish] w'"
    using assms(1) by (auto simp: inspect_member_def Let_def sink_calls)
  obtain s padding where c: "consume_payload sink (unat (ph_payload_bytes p)) source t1 w1 = Inr (s, t2, w2)"
    and s: "s = padding @ source'" "length padding = padding_bytes (ph_payload_bytes p)"
      "list_all (\<lambda>b. b = 0) padding"
    using body by (auto simp: consume_payload_and_padding_def)
  have zeros: "padding = replicate (padding_bytes (ph_payload_bytes p)) 0"
    using s(2,3) by (simp add: list_all_eq_replicate)
  obtain chunks where ch: "source = concat chunks @ s" "length (concat chunks) = unat (ph_payload_bytes p)"
    "fed (Some transcript_sink) t1 (map Chunk chunks) t2" "fed sink w1 (map Chunk chunks) w2"
    using consume_payload_events [OF c] by blast
  have h: "ustar_valid p" "case previous of Some q \<Rightarrow> q < ph_path p | None \<Rightarrow> True"
    "header = ustar_encode p"
    using header_parse_sound [OF assms(2) p] by simp_all
  let ?m = "\<lparr>mb_parsed = p, mb_chunks = chunks\<rparr>"
  have "fed (Some transcript_sink) t [Begin (replay_entry p)] t1"
    "fed (Some transcript_sink) t2 [Finish] t'"
    using start(1) finish(1) by (simp_all add: fed_def)
  then have "fed (Some transcript_sink) t (mb_events ?m) t'"
    unfolding fed_member using ch(3) by auto
  moreover have "fed sink w (mb_events ?m) w'"
    unfolding fed_member using start(2) ch(4) finish(2) by auto
  moreover have "header @ source = mb_bytes ?m @ source'"
    using h(3) ch(1) s(1) zeros by (simp add: mb_bytes_def mb_payload_def)
  moreover have "admits limits previous counters targets (?m # ms) c ts"
    if "admits limits (Some path) counters' targets' ms c ts" for ms c ts
    using that h(1,2) v ch(2) path
    by (cases previous) (auto simp: mb_payload_def simp del: length_concat)
  ultimately show ?thesis using path by (intro exI [of _ ?m]) simp
qed

lemma inspect_loop_events:
  "inspect_loop sink limits source counters previous targets t w = Inr (counters', t', source', w') \<Longrightarrow>
    \<exists>ms targets'. source = concat (map mb_bytes ms) @ replicate 1024 0 @ source'
      \<and> admits limits previous counters targets ms counters' targets'
      \<and> fed (Some transcript_sink) t (concat (map mb_events ms)) t'
      \<and> fed sink w (concat (map mb_events ms)) w'"
proof (induction "length source" arbitrary: source counters previous targets t w rule: less_induct)
  case less
  obtain header rest where head: "source = header @ rest" "length header = 512"
    using less.prems by (subst (asm) inspect_loop.simps) (auto simp: USTAR_BLOCK_BYTES_def)
  show ?case
  proof (cases "list_all (\<lambda>b. b = 0) header")
    case True
    then obtain second where "rest = second @ source'" "length second = 512"
      "list_all (\<lambda>b. b = 0) second" "counters' = counters" "t' = t" "w' = w"
      using less.prems head by (subst (asm) inspect_loop.simps) (auto simp: USTAR_BLOCK_BYTES_def)
    moreover have "header @ second = replicate (512 + 512) 0" if "length second = 512"
        "list_all (\<lambda>b. b = 0) second" for second :: bytes
      using that True head replicate_add [of 512 512 "0 :: u8"] by (simp add: list_all_eq_replicate)
    ultimately have "source = replicate 1024 0 @ source'"
      using head by (metis append.assoc numeral_Bit0)
    then show ?thesis
      using \<open>counters' = counters\<close> \<open>t' = t\<close> \<open>w' = w\<close> by (intro exI [of _ "[]"] exI [of _ targets]) simp
  next
    case False
    then obtain s1 c1 path ts1 t1 w1 where step:
      "inspect_member sink limits header rest counters previous targets t w
        = Inr (s1, c1, path, ts1, t1, w1)"
      and more: "inspect_loop sink limits s1 c1 (Some path) ts1 t1 w1 = Inr (counters', t', source', w')"
      using less.prems head
      by (subst (asm) inspect_loop.simps) (auto simp: USTAR_BLOCK_BYTES_def)
    obtain m where m: "header @ rest = mb_bytes m @ s1" "path = ph_path (mb_parsed m)"
      "\<And>ms c ts. admits limits (Some path) c1 ts1 ms c ts \<Longrightarrow>
         admits limits previous counters targets (m # ms) c ts"
      "fed (Some transcript_sink) t (mb_events m) t1" "fed sink w (mb_events m) w1"
      using inspect_member_events [OF step head(2)] by blast
    have "length s1 < length source"
      using inspect_member_source [OF step] head by simp
    from less.hyps [OF this more] obtain ms targets' where IH:
      "s1 = concat (map mb_bytes ms) @ replicate 1024 0 @ source'"
      "admits limits (Some path) c1 ts1 ms counters' targets'"
      "fed (Some transcript_sink) t1 (concat (map mb_events ms)) t'"
      "fed sink w1 (concat (map mb_events ms)) w'"
      by blast
    have "fed (Some transcript_sink) t (concat (map mb_events (m # ms))) t'"
      "fed sink w (concat (map mb_events (m # ms))) w'"
      using m(4,5) IH(3,4) by auto
    moreover have "source = concat (map mb_bytes (m # ms)) @ replicate 1024 0 @ source'"
      using head m(1) IH(1) by simp
    ultimately show ?thesis using m(3) [OF IH(2)] by blast
  qed
qed

section \<open>What the loop variables say about the members\<close>

definition is_whiteout :: "ParsedUstarHeader \<Rightarrow> bool" where
  "is_whiteout p \<longleftrightarrow> ph_whiteout_target p \<noteq> None"

definition has_type :: "u8 \<Rightarrow> ParsedUstarHeader \<Rightarrow> bool" where
  "has_type t p \<longleftrightarrow> \<not> is_whiteout p \<and> ph_typeflag p = t"

definition members_of :: "(ParsedUstarHeader \<Rightarrow> bool) \<Rightarrow> member list \<Rightarrow> nat" where
  "members_of P ms = length (filter (P \<circ> mb_parsed) ms)"

definition whiteout_targets :: "member list \<Rightarrow> bytes list" where
  "whiteout_targets ms = List.map_filter (ph_whiteout_target \<circ> mb_parsed) ms"

definition payload_total :: "member list \<Rightarrow> nat" where
  "payload_total ms = sum_list (map (length \<circ> mb_payload) ms)"

definition member_rules :: "ParsedUstarHeader \<Rightarrow> bool" where
  "member_rules p \<longleftrightarrow>
     (if is_whiteout p
      then ph_typeflag p = TYPE_REGULAR \<and> ph_mode p = 0 \<and> ph_payload_bytes p = 0 \<and> ph_linkname p = []
      else if ph_typeflag p = TYPE_REGULAR
      then (ph_mode p = 0x124 \<or> ph_mode p = 0x16D) \<and> ph_linkname p = []
      else if ph_typeflag p = TYPE_DIRECTORY
      then ph_mode p = 0x16D \<and> ph_payload_bytes p = 0 \<and> ph_linkname p = []
      else ph_typeflag p = TYPE_SYMLINK \<and> ph_mode p = 0x1FF \<and> ph_payload_bytes p = 0
        \<and> validate_symlink_target (ph_path p) (ph_linkname p) = Inr ())"

definition counters_step :: "ParsedUstarHeader \<Rightarrow> LayerCounters \<Rightarrow> LayerCounters \<Rightarrow> bool" where
  "counters_step p c c' \<longleftrightarrow>
     unat (lc_entry_count c') = unat (lc_entry_count c) + 1
   \<and> unat (lc_whiteout_count c') = unat (lc_whiteout_count c) + of_bool (is_whiteout p)
   \<and> unat (lc_regular_file_count c') = unat (lc_regular_file_count c) + of_bool (has_type TYPE_REGULAR p)
   \<and> unat (lc_directory_count c') = unat (lc_directory_count c) + of_bool (has_type TYPE_DIRECTORY p)
   \<and> unat (lc_symbolic_link_count c') = unat (lc_symbolic_link_count c) + of_bool (has_type TYPE_SYMLINK p)
   \<and> unat (lc_regular_file_bytes c') = unat (lc_regular_file_bytes c) + unat (ph_payload_bytes p)"

lemma types_differ:
  "TYPE_REGULAR \<noteq> TYPE_DIRECTORY" "TYPE_REGULAR \<noteq> TYPE_SYMLINK" "TYPE_DIRECTORY \<noteq> TYPE_SYMLINK"
  by (simp_all add: TYPE_REGULAR_def TYPE_DIRECTORY_def TYPE_SYMLINK_def)

lemma validate_entry_step:
  assumes "validate_and_count_ustar_entry limits p c ts = Inr (c', ts')"
  shows "counters_step p c c'" "member_rules p" "lc_entry_count c' \<le> ll_maximum_tar_entries limits"
    "lc_regular_file_bytes c \<le> ll_maximum_uncompressed_tar_bytes limits \<Longrightarrow>
      lc_regular_file_bytes c' \<le> ll_maximum_uncompressed_tar_bytes limits"
    "insert_whiteouts ts (case ph_whiteout_target p of Some t \<Rightarrow> [t] | None \<Rightarrow> []) = Inr ts'"
  using assms types_differ types_differ [symmetric]
  by (auto simp: validate_and_count_ustar_entry_def add_entry_def checked_add_tar_entries_def
      checked_sum_def add_whiteout_def add_regular_def validate_regular_file_payload_bytes_def
      validate_ceiling_def add_directory_def add_symbolic_link_def counters_step_def member_rules_def
      is_whiteout_def has_type_def split: option.splits if_splits)

lemma member_totals [simp]:
  "members_of P [] = 0" "payload_total [] = 0" "whiteout_targets [] = []"
  "members_of P (m # ms) = of_bool (P (mb_parsed m)) + members_of P ms"
  "payload_total (m # ms) = length (mb_payload m) + payload_total ms"
  by (simp_all add: members_of_def payload_total_def whiteout_targets_def map_filter_simps)

lemma insert_whiteouts_append:
  "insert_whiteouts ts (xs @ ys) = and_then (insert_whiteouts ts xs) (\<lambda>ts. insert_whiteouts ts ys)"
  by (induction ts xs rule: insert_whiteouts.induct) (simp_all add: and_then_def split: sum.split)

lemma whiteout_targets_Cons:
  "whiteout_targets (m # ms) =
    (case ph_whiteout_target (mb_parsed m) of Some t \<Rightarrow> [t] | None \<Rightarrow> []) @ whiteout_targets ms"
  by (simp add: whiteout_targets_def map_filter_simps split: option.split)

definition counters_total :: "LayerCounters \<Rightarrow> member list \<Rightarrow> LayerCounters \<Rightarrow> bool" where
  "counters_total c ms c' \<longleftrightarrow>
     unat (lc_entry_count c') = unat (lc_entry_count c) + length ms
   \<and> unat (lc_whiteout_count c') = unat (lc_whiteout_count c) + members_of is_whiteout ms
   \<and> unat (lc_regular_file_count c')
       = unat (lc_regular_file_count c) + members_of (has_type TYPE_REGULAR) ms
   \<and> unat (lc_directory_count c')
       = unat (lc_directory_count c) + members_of (has_type TYPE_DIRECTORY) ms
   \<and> unat (lc_symbolic_link_count c')
       = unat (lc_symbolic_link_count c) + members_of (has_type TYPE_SYMLINK) ms
   \<and> unat (lc_regular_file_bytes c') = unat (lc_regular_file_bytes c) + payload_total ms"

definition lawful_member :: "member \<Rightarrow> bool" where
  "lawful_member m \<longleftrightarrow>
     ustar_valid (mb_parsed m) \<and> member_rules (mb_parsed m)
     \<and> length (mb_payload m) = unat (ph_payload_bytes (mb_parsed m))"

lemma admits_summary:
  "admits limits prev c ts ms c' ts' \<Longrightarrow>
    counters_total c ms c' \<and> list_all lawful_member ms
    \<and> insert_whiteouts ts (whiteout_targets ms) = Inr ts'"
proof (induction limits prev c ts ms c' ts' rule: admits.induct)
  case (1 limits previous counters targets counters' targets')
  then show ?case by (simp add: counters_total_def)
next
  case (2 limits previous counters targets m ms counters' targets')
  then obtain c1 ts1 where v:
    "validate_and_count_ustar_entry limits (mb_parsed m) counters targets = Inr (c1, ts1)"
    and a: "admits limits (Some (ph_path (mb_parsed m))) c1 ts1 ms counters' targets'"
    and m: "ustar_valid (mb_parsed m)" "length (mb_payload m) = unat (ph_payload_bytes (mb_parsed m))"
    by auto
  note IH = 2(1) [OF a] and step = validate_entry_step(1,2,5) [OF v]
  have "counters_total counters (m # ms) counters'"
    using conjunct1 [OF IH] step(1) m(2) by (simp add: counters_total_def counters_step_def)
  then show ?case
    using IH step(2,3) m by (simp add: lawful_member_def whiteout_targets_Cons insert_whiteouts_append)
qed

lemma admits_bounds:
  assumes "admits limits prev c ts ms c' ts'"
    and "lc_entry_count c \<le> ll_maximum_tar_entries limits"
    and "lc_regular_file_bytes c \<le> ll_maximum_uncompressed_tar_bytes limits"
  shows "lc_entry_count c' \<le> ll_maximum_tar_entries limits"
    and "lc_regular_file_bytes c' \<le> ll_maximum_uncompressed_tar_bytes limits"
  using assms
  by (induction limits prev c ts ms c' ts' rule: admits.induct)
    (auto, (blast dest: validate_entry_step(3,4))+)

lemma admits_sorted:
  assumes "admits limits prev c ts ms c' ts'"
  shows "sorted_wrt (<) ((case prev of Some q \<Rightarrow> [q] | None \<Rightarrow> []) @ map (\<lambda>m. ph_path (mb_parsed m)) ms)"
  using assms
proof (induction limits prev c ts ms c' ts' rule: admits.induct)
  case (1 limits previous counters targets counters' targets')
  then show ?case by (cases previous) simp_all
next
  case (2 limits previous counters targets m ms counters' targets')
  then obtain c1 ts1 where a: "admits limits (Some (ph_path (mb_parsed m))) c1 ts1 ms counters' targets'"
    and after: "case previous of Some q \<Rightarrow> q < ph_path (mb_parsed m) | None \<Rightarrow> True" by auto
  have "sorted_wrt (<) (ph_path (mb_parsed m) # map (\<lambda>m. ph_path (mb_parsed m)) ms)"
    using 2(1) [OF a] by simp
  then show ?case using after by (cases previous) (auto dest: order.strict_trans)
qed

lemma kinds_partition:
  "list_all lawful_member ms \<Longrightarrow>
    members_of is_whiteout ms + members_of (has_type TYPE_REGULAR) ms
      + members_of (has_type TYPE_DIRECTORY) ms + members_of (has_type TYPE_SYMLINK) ms = length ms"
  using types_differ
  by (induction ms) (auto simp: lawful_member_def member_rules_def has_type_def split: if_splits)

section \<open>The changeset of a stream\<close>

definition layer_changeset :: "member list \<Rightarrow> (ReplayEntry \<times> bytes) list" where
  "layer_changeset ms = map (\<lambda>m. (replay_entry (mb_parsed m), mb_payload m)) ms"

lemma changeset_chunks:
  "changeset (Some (entry, payload)) (map Chunk cs @ Finish # es)
    = (entry, payload @ concat cs) # changeset None es"
  by (induction cs arbitrary: payload) simp_all

lemma changeset_events: "changeset None (concat (map mb_events ms)) = layer_changeset ms"
  by (induction ms) (simp_all add: mb_events_def layer_changeset_def changeset_chunks mb_payload_def)

lemma transcript_of_members:
  assumes "fed (Some transcript_sink) transcript_new (concat (map mb_events ms)) t"
    and "transcript_finish sha256 t = Inr digest"
  shows "tr_hashed t = CHANGESET_TRANSCRIPT_DOMAIN @ encode_changeset (layer_changeset ms)
    \<and> digest = sha256 (tr_hashed t) \<and> list_all exact_payload (layer_changeset ms)
    \<and> protocol_run Idle (concat (map mb_events ms)) = Some Idle"
proof -
  have fed: "feed_all transcript_sink transcript_new (concat (map mb_events ms)) = Inr t"
    using assms(1) by (simp add: fed_def)
  have new: "transcript_phase transcript_new = Idle" "tr_hashed transcript_new = CHANGESET_TRANSCRIPT_DOMAIN"
    by (simp_all add: transcript_new_def transcript_phase_def)
  have final: "transcript_phase t = Idle" "digest = sha256 (tr_hashed t)"
    using assms(2) by (auto simp: transcript_finish_def transcript_phase_def)
  have run: "protocol_run Idle (concat (map mb_events ms)) = Some Idle"
    "tr_hashed t = CHANGESET_TRANSCRIPT_DOMAIN @ concat (map encode_event (concat (map mb_events ms)))"
    using transcript.feed_all_sound [OF fed] new final by simp_all
  from complete_stream_encodes [OF run(1), of None] run final show ?thesis
    by (simp add: changeset_events del: map_concat)
qed

lemma whiteout_target_length: "whiteout_target path = Inr (Some target) \<Longrightarrow> length target \<le> length path"
proof -
  have split: "length a + 1 + length b = length xs" if "rsplit_once c xs = Some (a, b)" for c xs a b
    using that by (induction xs arbitrary: a) (auto split: option.splits if_splits)
  assume "whiteout_target path = Inr (Some target)"
  then show ?thesis
    using split [of SLASH path]
    by (auto simp: whiteout_target_def Let_def split: if_splits option.splits)
qed

lemma member_entry_fits: "lawful_member m \<Longrightarrow> entry_fits_usize (replay_entry (mb_parsed m))"
proof -
  let ?p = "mb_parsed m"
  assume m: "lawful_member m"
  then have v: "ustar_valid ?p" by (simp add: lawful_member_def)
  then have path: "length (ph_path ?p) \<le> 240" by (simp add: ustar_valid_def spelled_path_def split: if_splits)
  have link: "length (ph_linkname ?p) \<le> 100" using v by (simp add: ustar_valid_def text_ok_def)
  have target: "length t \<le> 240" if "ph_whiteout_target ?p = Some t" for t
    using v that whiteout_target_length [of "ph_path ?p" t] path by (simp add: ustar_valid_def)
  show ?thesis
    using path link target
    by (auto simp: entry_fits_usize_def replay_entry_def string_fits_def usize_limit_def
        split: option.split)
qed

text \<open>The bytes that the parser's transcript has hashed when the terminator is reached.\<close>

definition layer_transcript ::
  "('w, 'e) replay_sink option \<Rightarrow> LayerLimits \<Rightarrow> bytes \<Rightarrow> 'w \<Rightarrow> bytes" where
  "layer_transcript sink limits source w =
     (case inspect_loop sink limits source counters_default None [] transcript_new w of
        Inr (counters, t, rest, w') \<Rightarrow> tr_hashed t | Inl e \<Rightarrow> [])"

lemma inspect_exact_members:
  assumes "inspect_exact_ustar sha256 sink limits source w = Inr (counters, digest, rest, w')"
  shows "\<exists>ms targets. source = concat (map mb_bytes ms) @ replicate 1024 0 @ rest
    \<and> admits limits None counters_default [] ms counters targets
    \<and> layer_transcript sink limits source w
        = CHANGESET_TRANSCRIPT_DOMAIN @ encode_changeset (layer_changeset ms)
    \<and> digest = sha256 (layer_transcript sink limits source w)
    \<and> list_all exact_payload (layer_changeset ms)
    \<and> fed sink w (concat (map mb_events ms)) w'"
proof -
  obtain t where loop: "inspect_loop sink limits source counters_default None [] transcript_new w
      = Inr (counters, t, rest, w')" and fin: "transcript_finish sha256 t = Inr digest"
    using assms by (auto simp: inspect_exact_ustar_def)
  from inspect_loop_events [OF loop] obtain ms targets where ms:
    "source = concat (map mb_bytes ms) @ replicate 1024 0 @ rest"
    "admits limits None counters_default [] ms counters targets"
    "fed (Some transcript_sink) transcript_new (concat (map mb_events ms)) t"
    "fed sink w (concat (map mb_events ms)) w'"
    by blast
  have "layer_transcript sink limits source w = tr_hashed t" by (simp add: layer_transcript_def loop)
  with ms transcript_of_members [OF ms(3) fin] show ?thesis
    by (intro exI [of _ ms] exI [of _ targets]) simp
qed

lemma replay_entry_determines:
  assumes "lawful_member m" "lawful_member m'"
    and "replay_entry (mb_parsed m) = replay_entry (mb_parsed m')"
  shows "mb_parsed m = mb_parsed m'"
proof -
  let ?p = "mb_parsed m" and ?q = "mb_parsed m'"
  have path: "ph_path ?p = ph_path ?q" using assms(3) by (simp add: replay_entry_def)
  have target: "ph_whiteout_target ?p = ph_whiteout_target ?q"
    using assms(1,2) path by (simp add: lawful_member_def ustar_valid_def)
  have "ph_typeflag ?p = ph_typeflag ?q \<and> ph_mode ?p = ph_mode ?q
      \<and> ph_payload_bytes ?p = ph_payload_bytes ?q \<and> ph_linkname ?p = ph_linkname ?q"
    using assms path target types_differ
    by (cases "ph_whiteout_target ?p")
      (auto simp: lawful_member_def member_rules_def is_whiteout_def replay_entry_def split: if_splits)
  then show ?thesis using path target by (simp add: ParsedUstarHeader.equality)
qed

lemma layer_changeset_determines:
  assumes "list_all lawful_member ms" "list_all lawful_member ns"
    and "layer_changeset ms = layer_changeset ns"
  shows "map mb_bytes ms = map mb_bytes ns"
  using assms
proof (induction ms arbitrary: ns)
  case Nil
  then show ?case by (simp add: layer_changeset_def)
next
  case (Cons m ms)
  then obtain n ns' where n: "ns = n # ns'" by (cases ns) (auto simp: layer_changeset_def)
  have "mb_parsed m = mb_parsed n" "mb_payload m = mb_payload n"
    using Cons.prems n replay_entry_determines [of m n] by (auto simp: layer_changeset_def)
  then show ?case using Cons n by (simp add: mb_bytes_def layer_changeset_def)
qed

section \<open>A sample layer\<close>

text \<open>One regular file of two bytes, for the witnesses.\<close>


definition sample_ustar_header :: ParsedUstarHeader where
  "sample_ustar_header =
     \<lparr>ph_path = [0x61], ph_typeflag = TYPE_REGULAR, ph_mode = 0x124, ph_payload_bytes = 2,
      ph_linkname = [], ph_whiteout_target = None\<rparr>"

definition sample_member :: member where
  "sample_member = \<lparr>mb_parsed = sample_ustar_header, mb_chunks = [[1, 2]]\<rparr>"

definition sample_tar :: bytes where
  "sample_tar = mb_bytes sample_member @ replicate 1024 0"

definition sample_counters :: LayerCounters where
  "sample_counters = counters_default\<lparr>lc_entry_count := 1, lc_regular_file_count := 1,
     lc_regular_file_bytes := 2\<rparr>"

definition sample_transcript :: bytes where
  "sample_transcript = CHANGESET_TRANSCRIPT_DOMAIN @ encode_changeset (layer_changeset [sample_member])"

lemma sample_ustar_header_valid: "ustar_valid sample_ustar_header"
proof -
  have "canonical_ustar_split [0x61] = Inr ([], [0x61])" by code_simp
  moreover have "whiteout_target [0x61] = Inr None" by code_simp
  moreover have "contained_path [0x61]"
    unfolding contained_path_def
    by (rule exI [of _ "[[0x61]]"]) code_simp
  moreover have "is_utf8 [0x61]" "is_utf8 []" by code_simp+
  ultimately show ?thesis
    by (simp add: ustar_valid_def sample_ustar_header_def spelled_path_def text_ok_def TYPE_REGULAR_def
       TYPE_DIRECTORY_def)
qed

lemma sample_ustar_header_block:
  "length (ustar_encode sample_ustar_header) = 512"
  "parse_ustar_header (ustar_encode sample_ustar_header) None = Inr sample_ustar_header"
  using header_parse_complete [OF sample_ustar_header_valid, of None] by simp_all

lemma zeros_not_a_header: "\<not> list_all (\<lambda>b. b = 0) (ustar_encode sample_ustar_header)"
proof
  assume "list_all (\<lambda>b. b = 0) (ustar_encode sample_ustar_header)"
  then have z: "ustar_encode sample_ustar_header = replicate 512 0"
    by (simp add: list_all_eq_replicate sample_ustar_header_block)
  have "parse_ustar_header (replicate 512 0) None \<noteq> Inr sample_ustar_header"
    by (simp add: parse_ustar_header_def validate_ustar_checksum_def)
  then show False using z sample_ustar_header_block by simp
qed

lemma sample_admitted:
  "validate_and_count_ustar_entry oci_layer_limits sample_ustar_header counters_default []
     = Inr (sample_counters, [])"
  by (simp add: validate_and_count_ustar_entry_def sample_ustar_header_def sample_counters_def
      counters_default_def add_entry_def add_regular_def checked_add_tar_entries_def checked_sum_def
      validate_regular_file_payload_bytes_def validate_ceiling_def oci_layer_limits_def
      checked_add_word_def TYPE_REGULAR_def)

text \<open>The transcript's states over the sample's three events.\<close>

definition sample_entry_hash :: bytes where
  "sample_entry_hash = CHANGESET_TRANSCRIPT_DOMAIN @ encode_entry (replay_entry sample_ustar_header)"

lemma sample_entry:
  "replay_entry sample_ustar_header = \<lparr>en_path = [0x61], en_kind = EntryRegularFile 0x124 2\<rparr>"
  by (simp add: replay_entry_def sample_ustar_header_def)

lemma sample_transcript_steps:
  "transcript_begin_entry transcript_new (replay_entry sample_ustar_header)
     = Inr \<lparr>tr_hashed = sample_entry_hash, tr_entry_open = True, tr_remaining = Some 2\<rparr>"
  "transcript_write_chunk \<lparr>tr_hashed = sample_entry_hash, tr_entry_open = True, tr_remaining = Some 2\<rparr> [1, 2]
     = Inr \<lparr>tr_hashed = sample_entry_hash @ [1, 2], tr_entry_open = True, tr_remaining = Some 0\<rparr>"
  "transcript_finish_entry
      \<lparr>tr_hashed = sample_entry_hash @ [1, 2], tr_entry_open = True, tr_remaining = Some 0\<rparr>
     = Inr \<lparr>tr_hashed = sample_transcript, tr_entry_open = False, tr_remaining = None\<rparr>"
proof -
  show "transcript_begin_entry transcript_new (replay_entry sample_ustar_header)
     = Inr \<lparr>tr_hashed = sample_entry_hash, tr_entry_open = True, tr_remaining = Some 2\<rparr>"
    by (simp only: transcript_begin_eq_Inr)
      (simp add: transcript_new_def sample_entry_hash_def sample_entry)
  show "transcript_write_chunk
      \<lparr>tr_hashed = sample_entry_hash, tr_entry_open = True, tr_remaining = Some 2\<rparr> [1, 2]
     = Inr \<lparr>tr_hashed = sample_entry_hash @ [1, 2], tr_entry_open = True, tr_remaining = Some 0\<rparr>"
    by (simp add: transcript_write_eq_Inr IO_BUFFER_BYTES_def)
  show "transcript_finish_entry
      \<lparr>tr_hashed = sample_entry_hash @ [1, 2], tr_entry_open = True, tr_remaining = Some 0\<rparr>
     = Inr \<lparr>tr_hashed = sample_transcript, tr_entry_open = False, tr_remaining = None\<rparr>"
    by (simp add: transcript_finish_eq_Inr sample_transcript_def sample_entry_hash_def layer_changeset_def
        sample_member_def mb_payload_def encode_changeset_def)
qed

lemma inspect_loop_member:
  assumes "length header = 512" "\<not> list_all (\<lambda>b. b = 0) header"
    and "inspect_member sink limits header body counters previous targets t w
      = Inr (source', counters', path, targets', t', w')"
  shows "inspect_loop sink limits (header @ body) counters previous targets t w
    = inspect_loop sink limits source' counters' (Some path) targets' t' w'"
  using assms by (subst inspect_loop.simps) (simp add: USTAR_BLOCK_BYTES_def)

lemma inspect_loop_terminator:
  "inspect_loop sink limits (replicate 1024 0 @ rest) counters previous targets t w
    = Inr (counters, t, rest, w)"
proof -
  have "replicate 1024 (0 :: u8) = replicate 512 0 @ replicate 512 0"
    by (simp flip: replicate_add)
  then show ?thesis
    by (subst inspect_loop.simps) (simp add: USTAR_BLOCK_BYTES_def list_all_iff)
qed

lemma sample_layer_inspected:
  assumes "sink_call SinkRejectedEntry sink
      (\<lambda>s. sink_begin_entry s w (replay_entry sample_ustar_header)) w = Inr w1"
    and "sink_call SinkRejectedChunk sink (\<lambda>s. sink_write_chunk s w1 [1, 2]) w1 = Inr w2"
    and "sink_call SinkRejectedFinish sink (\<lambda>s. sink_finish_entry s w2) w2 = Inr w3"
  shows "inspect_loop sink oci_layer_limits (sample_tar @ rest) counters_default None [] transcript_new w
    = Inr (sample_counters,
        \<lparr>tr_hashed = sample_transcript, tr_entry_open = False, tr_remaining = None\<rparr>, rest, w3)"
proof -
  let ?body = "[1, 2] @ replicate 510 0 @ replicate 1024 0 @ rest"
  have n: "unat (ph_payload_bytes sample_ustar_header) = 2" "padding_bytes (ph_payload_bytes sample_ustar_header) = 510"
    by (simp_all add: sample_ustar_header_def padding_bytes_def USTAR_BLOCK_BYTES_def)
  have tar: "sample_tar @ rest = ustar_encode sample_ustar_header @ ?body"
    by (simp add: sample_tar_def mb_bytes_def sample_member_def mb_payload_def n(2))
  have "consume_payload_and_padding sink (ph_payload_bytes sample_ustar_header) ?body
      \<lparr>tr_hashed = sample_entry_hash, tr_entry_open = True, tr_remaining = Some 2\<rparr> w1
    = Inr (replicate 1024 0 @ rest,
       \<lparr>tr_hashed = sample_entry_hash @ [1, 2], tr_entry_open = True, tr_remaining = Some 0\<rparr>, w2)"
    unfolding consume_payload_and_padding_def
    by (simp add: n consume_payload.simps IO_BUFFER_BYTES_def read_exact_def Let_def
        sample_transcript_steps assms list_all_iff del: and_then_eq_Inr read_exact_eq_Some)
  then have member: "inspect_member sink oci_layer_limits (ustar_encode sample_ustar_header) ?body counters_default
      None [] transcript_new w
    = Inr (replicate 1024 0 @ rest, sample_counters, ph_path sample_ustar_header, [],
        \<lparr>tr_hashed = sample_transcript, tr_entry_open = False, tr_remaining = None\<rparr>, w3)"
    by (simp add: inspect_member_def sample_ustar_header_block sample_admitted sample_transcript_steps assms)
  show ?thesis
    unfolding tar
    by (simp only: inspect_loop_member [OF sample_ustar_header_block(1) zeros_not_a_header member]
        inspect_loop_terminator)
qed

lemma and_then_weak_cong: "m = m' \<Longrightarrow> and_then m f = and_then m' f"
  by simp

text \<open>A sink that keeps the events it is driven with.\<close>

definition recording_sink :: "(ReplayEvent list, unit) replay_sink" where
  "recording_sink =
     \<lparr>sink_begin_entry = (\<lambda>w entry. Inr (w @ [Begin entry])),
      sink_write_chunk = (\<lambda>w chunk. Inr (w @ [Chunk chunk])),
      sink_finish_entry = (\<lambda>w. Inr (w @ [Finish]))\<rparr>"

lemma sample_inspection:
  "inspect_exact_ustar sha256 (None :: (unit, unit) replay_sink option) oci_layer_limits (sample_tar @ rest) ()
    = Inr (sample_counters, sha256 sample_transcript, rest, ())"
  by (simp add: inspect_exact_ustar_def sample_layer_inspected [where w = "()"] sink_call_def
      transcript_finish_def)

lemma sample_layer_transcript:
  "layer_transcript (None :: (unit, unit) replay_sink option) oci_layer_limits (sample_tar @ rest) ()
    = sample_transcript"
  by (simp add: layer_transcript_def sample_layer_inspected [where w = "()"] sink_call_def)

definition sample_layer :: bytes where
  "sample_layer = GZIP_HEADER @ [3, 0] @ [0, 0, 0, 0] @ [0, 8, 0, 0]"

definition sample_gzip :: gzip_env where
  "sample_gzip = \<lparr>gz_inflate = (\<lambda>bs. (sample_tar, Some (drop 2 bs))), gz_crc32 = (\<lambda>bs. 0), gz_sha256 = id\<rparr>"


definition sample_expectation :: ExpectedLayer where
  "sample_expectation =
     \<lparr>xl_compressed_digest = sample_layer, xl_compressed_bytes = 20, xl_uncompressed_bytes = 2048\<rparr>"

lemma length_sample_tar: "length sample_tar = 2048"
  by (simp add: sample_tar_def mb_bytes_def sample_member_def mb_payload_def sample_ustar_header_block
      padding_bytes_def USTAR_BLOCK_BYTES_def) (simp add: sample_ustar_header_def)

lemma sample_replay_inspection:
  "inspect_exact_ustar sha256 (Some (authenticated_sink recording_sink)) oci_layer_limits sample_tar
      (transcript_new, [])
    = Inr (sample_counters, sha256 sample_transcript, [],
        \<lparr>tr_hashed = sample_transcript, tr_entry_open = False, tr_remaining = None\<rparr>,
        mb_events sample_member)"
proof -
  have "inspect_loop (Some (authenticated_sink recording_sink)) oci_layer_limits (sample_tar @ [])
      counters_default None [] transcript_new (transcript_new, [])
    = Inr (sample_counters, \<lparr>tr_hashed = sample_transcript, tr_entry_open = False, tr_remaining = None\<rparr>,
        [], \<lparr>tr_hashed = sample_transcript, tr_entry_open = False, tr_remaining = None\<rparr>,
        mb_events sample_member)"
    by (rule sample_layer_inspected [where
            ?w1.0 = "(\<lparr>tr_hashed = sample_entry_hash, tr_entry_open = True, tr_remaining = Some 2\<rparr>,
              [Begin (replay_entry sample_ustar_header)])" and
            ?w2.0 = "(\<lparr>tr_hashed = sample_entry_hash @ [1, 2], tr_entry_open = True,
              tr_remaining = Some 0\<rparr>, [Begin (replay_entry sample_ustar_header), Chunk [1, 2]])"])
      (simp_all add: sink_call_def authenticated_sink_def recording_sink_def sample_transcript_steps
        mb_events_def sample_member_def)
  then show ?thesis by (simp add: inspect_exact_ustar_def transcript_finish_def)
qed

definition sample_receipt :: LayerReceipt where
  "sample_receipt =
     \<lparr>lr_compressed_byte_length = 20, lr_compressed_sha256 = sample_layer,
      lr_uncompressed_byte_length = 2048, lr_uncompressed_sha256 = sample_tar,
      lr_counters = sample_counters, lr_changeset_transcript_sha256 = sample_transcript\<rparr>"

lemma sample_trailer:
  "check_gzip_trailer sample_gzip sample_tar [0, 0, 0, 0, 0, 8, 0, 0] = Inr ()"
proof -
  have "u32_from_le [0, 0, 0, 0] = 0" "u32_from_le [0, 8, 0, 0] = 2048" by code_simp+
  then show ?thesis
    by (simp add: check_gzip_trailer_def read_exact_def GZIP_TRAILER_BYTES_def sample_gzip_def
        length_sample_tar del: read_exact_eq_Some)
qed

lemma sample_authenticated:
  "inspect_authenticated_inner sample_gzip (Some (authenticated_sink recording_sink)) sample_layer
      sample_expectation (transcript_new, [])
    = Inr (sample_receipt, \<lparr>tr_hashed = sample_transcript, tr_entry_open = False, tr_remaining = None\<rparr>,
        mb_events sample_member)"
proof -
  have range: "OCI_LAYER_MIN_COMPRESSED_BYTES \<le> 20" "(20 :: u64) \<le> 8589934591"
    "OCI_LAYER_MIN_UNCOMPRESSED_BYTES \<le> 2048"
    "(2048 :: u64) \<le> ll_maximum_uncompressed_tar_bytes oci_layer_limits" "(2048 :: u64) mod 512 = 0"
    "unat (ll_maximum_uncompressed_tar_bytes oci_layer_limits) = 34359738368"
    by (simp_all add: OCI_LAYER_MIN_COMPRESSED_BYTES_def OCI_LAYER_MIN_UNCOMPRESSED_BYTES_def
        oci_layer_limits_def)
  have "take 20 sample_layer = sample_layer" "length sample_layer = 20"
    "read_exact (length GZIP_HEADER) sample_layer = Some (GZIP_HEADER, [3, 0, 0, 0, 0, 0, 0, 8, 0, 0])"
    by (simp_all add: sample_layer_def GZIP_HEADER_def read_exact_def del: read_exact_eq_Some)
  moreover have "gz_inflate sample_gzip [3, 0, 0, 0, 0, 0, 0, 8, 0, 0]
      = (sample_tar, Some [0, 0, 0, 0, 0, 8, 0, 0])" "gz_sha256 sample_gzip = id"
    by (simp_all add: sample_gzip_def)
  ultimately show ?thesis
    by (simp add: inspect_authenticated_inner_def oci_role_limits oci_image_limits_def
        sample_expectation_def range length_sample_tar
        sample_replay_inspection observed_probe_def sample_trailer sample_receipt_def
        del: and_then_eq_Inr read_exact_eq_Some cong: and_then_weak_cong)
qed

section \<open>Properties\<close>

text \<open>
  C5. An accepted layer stream is exactly its members followed by two zero blocks: each member is its
  canonical header, its payload and zero padding; the paths increase strictly, every member obeys the
  rule of its kind, no two whiteouts overlap, the counters count the members by kind within the limits,
  and the digest is that of the changeset.
\<close>

theorem accepted_layer_structure:
  assumes "inspect_exact_ustar sha256 sink limits source w = Inr (counters, digest, rest, w')"
  shows "\<exists>ms. source = concat (map mb_bytes ms) @ replicate 1024 0 @ rest
    \<and> list_all lawful_member ms
    \<and> sorted_wrt (<) (map (\<lambda>m. ph_path (mb_parsed m)) ms)
    \<and> sorted_wrt (\<lambda>a b. \<not> overlaps a b) (whiteout_targets ms)
    \<and> counters_total counters_default ms counters
    \<and> lc_entry_count counters \<le> ll_maximum_tar_entries limits
    \<and> lc_regular_file_bytes counters \<le> ll_maximum_uncompressed_tar_bytes limits
    \<and> unat (lc_entry_count counters) = unat (lc_regular_file_count counters)
        + unat (lc_directory_count counters) + unat (lc_symbolic_link_count counters)
        + unat (lc_whiteout_count counters)
    \<and> digest = sha256 (CHANGESET_TRANSCRIPT_DOMAIN @ encode_changeset (layer_changeset ms))"
proof -
  obtain ms targets where ms: "source = concat (map mb_bytes ms) @ replicate 1024 0 @ rest"
    "admits limits None counters_default [] ms counters targets"
    "digest = sha256 (CHANGESET_TRANSCRIPT_DOMAIN @ encode_changeset (layer_changeset ms))"
    using inspect_exact_members [OF assms] by auto
  note summary = admits_summary [OF ms(2)]
  have zero: "lc_entry_count counters_default \<le> ll_maximum_tar_entries limits"
    "lc_regular_file_bytes counters_default \<le> ll_maximum_uncompressed_tar_bytes limits"
    by (simp_all add: counters_default_def)
  have whiteouts: "sorted_wrt (\<lambda>a b. \<not> overlaps a b) (whiteout_targets ms)"
    using summary insert_whiteouts_eq [of "[]" "whiteout_targets ms"] by (auto split: if_splits)
  have sorted: "sorted_wrt (<) (map (\<lambda>m. ph_path (mb_parsed m)) ms)"
    using admits_sorted [OF ms(2)] by simp
  have "unat (lc_entry_count counters) = unat (lc_regular_file_count counters)
        + unat (lc_directory_count counters) + unat (lc_symbolic_link_count counters)
        + unat (lc_whiteout_count counters)"
    using summary kinds_partition [of ms] by (simp add: counters_total_def counters_default_def)
  then show ?thesis
    using ms summary admits_bounds [OF ms(2) zero] sorted whiteouts by blast
qed

theorem accepted_layer_structure_witness:
  "\<exists>ms. sample_tar @ [0xAA] = concat (map mb_bytes ms) @ replicate 1024 0 @ [0xAA]
    \<and> list_all lawful_member ms \<and> counters_total counters_default ms sample_counters"
  using accepted_layer_structure [OF sample_inspection [of id "[0xAA]"]] by blast

text \<open>
  C4. The changeset digest binds the tar stream: two accepted streams with the same digest are byte for
  byte the same up to and including their terminators, unless SHA-256 collides on the two hashed
  transcripts.
\<close>

theorem changeset_digest_binds_tar:
  assumes "inspect_exact_ustar sha256 sink limits source w = Inr (counters, digest, rest, v)"
    and "inspect_exact_ustar sha256 sink' limits' source' w' = Inr (counters', digest, rest', v')"
    and "sha256 (layer_transcript sink limits source w) = sha256 (layer_transcript sink' limits' source' w')
      \<longrightarrow> layer_transcript sink limits source w = layer_transcript sink' limits' source' w'"
  shows "\<exists>tar. source = tar @ rest \<and> source' = tar @ rest'"
proof -
  obtain ms targets where ms: "source = concat (map mb_bytes ms) @ replicate 1024 0 @ rest"
    "admits limits None counters_default [] ms counters targets"
    "layer_transcript sink limits source w
      = CHANGESET_TRANSCRIPT_DOMAIN @ encode_changeset (layer_changeset ms)"
    "digest = sha256 (layer_transcript sink limits source w)"
    "list_all exact_payload (layer_changeset ms)"
    using inspect_exact_members [OF assms(1)] by blast
  obtain ns targets' where ns: "source' = concat (map mb_bytes ns) @ replicate 1024 0 @ rest'"
    "admits limits' None counters_default [] ns counters' targets'"
    "layer_transcript sink' limits' source' w'
      = CHANGESET_TRANSCRIPT_DOMAIN @ encode_changeset (layer_changeset ns)"
    "digest = sha256 (layer_transcript sink' limits' source' w')"
    "list_all exact_payload (layer_changeset ns)"
    using inspect_exact_members [OF assms(2)] by blast
  have lawful: "list_all lawful_member ms" "list_all lawful_member ns"
    using admits_summary [OF ms(2)] admits_summary [OF ns(2)] by simp_all
  then have fits: "list_all (entry_fits_usize \<circ> fst) (layer_changeset ms)"
    "list_all (entry_fits_usize \<circ> fst) (layer_changeset ns)"
    by (auto simp: list_all_iff layer_changeset_def member_entry_fits)
  have "encode_changeset (layer_changeset ms) = encode_changeset (layer_changeset ns)"
    using assms(3) ms(3,4) ns(3,4) by simp
  then have "layer_changeset ms = layer_changeset ns"
    by (intro encode_changeset_inject ms(5) ns(5) fits)
  then have "map mb_bytes ms = map mb_bytes ns" by (rule layer_changeset_determines [OF lawful])
  then show ?thesis
    using ms(1) ns(1)
    by (intro exI [of _ "concat (map mb_bytes ms) @ replicate 1024 0"]) simp
qed

theorem changeset_digest_binds_tar_witness:
  "\<exists>tar. sample_tar @ [0xAA] = tar @ [0xAA] \<and> sample_tar @ [0xBB] = tar @ [0xBB]"
  by (rule changeset_digest_binds_tar [OF sample_inspection [of id "[0xAA]"] sample_inspection [of id "[0xBB]"]])
    (simp add: sample_layer_transcript)

text \<open>
  C6. A receipt from a replay with a downstream sink vouches for the effects: the sink was driven, from
  its initial state to the returned one, by a complete event stream that follows the protocol, and the
  receipt's changeset digest is the digest of that stream's encoding.
\<close>

theorem downstream_effects_authenticated:
  assumes "replay_authenticated_oci_layer_with_sink env source expectation downstream w
    = Inr (receipt, w')"
  shows "\<exists>es. feed_all downstream w es = Inr w' \<and> protocol_run Idle es = Some Idle
    \<and> lr_changeset_transcript_sha256 receipt
        = gz_sha256 env (CHANGESET_TRANSCRIPT_DOMAIN @ concat (map encode_event es))
    \<and> lr_compressed_sha256 receipt = xl_compressed_digest expectation"
proof -
  obtain t where inner: "inspect_authenticated_inner env (Some (authenticated_sink downstream)) source
      expectation (transcript_new, w) = Inr (receipt, (t, w'))"
    and fin: "transcript_finish (gz_sha256 env) t = Inr (lr_changeset_transcript_sha256 receipt)"
    using assms by (auto simp: replay_authenticated_oci_layer_with_sink_def)
  then obtain counters visible rest where exact:
    "inspect_exact_ustar (gz_sha256 env) (Some (authenticated_sink downstream)) oci_layer_limits visible
      (transcript_new, w) = Inr (counters, lr_changeset_transcript_sha256 receipt, rest, (t, w'))"
    and digest: "lr_compressed_sha256 receipt = xl_compressed_digest expectation"
    by (auto simp: inspect_authenticated_inner_def oci_role_limits oci_image_limits_def Let_def)
  from inspect_exact_members [OF exact] obtain ms where
    fed: "feed_all (authenticated_sink downstream) (transcript_new, w) (concat (map mb_events ms))
      = Inr (t, w')"
    by (auto simp: fed_def)
  have split: "feed_all (authenticated_sink downstream) (s, u) es = Inr (s', u') \<Longrightarrow>
      feed_all transcript_sink s es = Inr s' \<and> feed_all downstream u es = Inr u'" for s u s' u' es
    by (induction es arbitrary: s u) (auto simp: authenticated_feed)
  have new: "transcript_phase transcript_new = Idle" "tr_hashed transcript_new = CHANGESET_TRANSCRIPT_DOMAIN"
    by (simp_all add: transcript_new_def transcript_phase_def)
  have "feed_all transcript_sink transcript_new (concat (map mb_events ms)) = Inr t"
    "feed_all downstream w (concat (map mb_events ms)) = Inr w'"
    using split [OF fed] by simp_all
  moreover from this(1) transcript.feed_all_sound new fin
  have "protocol_run Idle (concat (map mb_events ms)) = Some Idle
      \<and> lr_changeset_transcript_sha256 receipt = gz_sha256 env
          (CHANGESET_TRANSCRIPT_DOMAIN @ concat (map encode_event (concat (map mb_events ms))))"
    by (auto simp: transcript_finish_def transcript_phase_def dest!: transcript.feed_all_sound)
  ultimately show ?thesis using digest by blast
qed

theorem downstream_effects_authenticated_witness:
  "replay_authenticated_oci_layer_with_sink sample_gzip sample_layer sample_expectation recording_sink []
      = Inr (sample_receipt, mb_events sample_member)
   \<and> (\<exists>es. feed_all recording_sink [] es = Inr (mb_events sample_member)
        \<and> protocol_run Idle es = Some Idle)"
proof -
  have "replay_authenticated_oci_layer_with_sink sample_gzip sample_layer sample_expectation recording_sink []
      = Inr (sample_receipt, mb_events sample_member)"
    by (simp add: replay_authenticated_oci_layer_with_sink_def sample_authenticated transcript_finish_def
        del: and_then_eq_Inr)
      (simp add: sample_receipt_def sample_gzip_def)
  with downstream_effects_authenticated [OF this] show ?thesis by blast
qed

end
