(* ===== verification/B2Artifact.thy ===== *)
theory B2Artifact
  imports Prelude
begin

text \<open>
  The codec of the B2 verifier-data artifact (\<open>reproduction/src/constants_artifact.rs\<close>): its records,
  the byte cursor, decoder, encoder and validator, each in the order of the code. Arrays are lists of
  their fixed length, an ASCII \<open>String\<close> is its byte list, the histogram (a \<open>BTreeMap\<close>) is a map from
  operation names to counts. SHA-256 and \<open>hex::encode\<close> are parameters.
\<close>

section \<open>Constants\<close>

definition B2_RISC0_COMMIT :: bytes where
  "B2_RISC0_COMMIT = ascii ''8eb06ab020a92dc5b63ba6dd0836d432aba6d890''"

definition ARTIFACT_BYTES :: nat where "ARTIFACT_BYTES = 65119"

definition ARTIFACT_SHA256 :: string where
  "ARTIFACT_SHA256 = ''8c4a92b7d354890481eefdef233d4ca43f6bcd9f7cb00e4dd9e709da47789ef3''"

definition HEADER_BYTES :: nat where "HEADER_BYTES = 87"
definition ROOT_COUNT :: nat where "ROOT_COUNT = 28"
definition POSEIDON_ROUND_CONSTANTS :: nat where "POSEIDON_ROUND_CONSTANTS = 213"
definition POSEIDON_DIAGONAL_CONSTANTS :: nat where "POSEIDON_DIAGONAL_CONSTANTS = 24"
definition TAP_COUNT :: nat where "TAP_COUNT = 643"
definition OP_COUNT :: nat where "OP_COUNT = 12359"
definition FIELD_VARS :: nat where "FIELD_VARS = 11130"
definition MIX_VARS :: nat where "MIX_VARS = 1229"
definition RET_MIX_VAR :: nat where "RET_MIX_VAR = 1228"
definition PROOF_SYSTEM_INFO :: bytes where "PROOF_SYSTEM_INFO = ascii ''RISC0_STARK:v1__''"
definition CIRCUIT_INFO :: bytes where "CIRCUIT_INFO = ascii ''RECURSION:rev1v1''"

definition EXPECTED_HISTOGRAM :: "(string \<times> nat) list" where
  "EXPECTED_HISTOGRAM =
     [(''Add'', 4061), (''AndCond'', 152), (''AndEqz'', 1076), (''Const'', 284), (''ConstExt'', 0),
      (''Get'', 669), (''GetGlobal'', 52), (''Mul'', 4679), (''Sub'', 1385), (''True'', 1)]"

section \<open>Data\<close>

record BabyBearData =
  bb_modulus :: u32
  bb_extension_degree :: u8
  bb_extension_beta :: u32
  bb_max_root_po2 :: u8
  bb_reverse_roots :: "u32 list"
  bb_extension_coefficient_remap :: "u8 list"
  bb_extension_challenge_scale :: u8

record Poseidon2Data =
  p2_cells :: u8
  p2_rate :: u8
  p2_output_cells :: u8
  p2_rounds_half_full :: u8
  p2_rounds_partial :: u8
  p2_sbox_degree :: u8
  p2_round_constants :: "u32 list"
  p2_internal_diagonal :: "u32 list"

record StarkData =
  sk_queries :: u8
  sk_inverse_rate :: u8
  sk_fri_fold :: u8
  sk_fri_fold_po2 :: u8
  sk_fri_min_degree :: u16
  sk_output_size :: u8
  sk_mix_size :: u8
  sk_check_size :: u8

record ProtocolInfoData =
  pi_proof_system :: bytes
  pi_circuit :: bytes

record Tap =
  tp_group :: u8
  tp_offset :: u8
  tp_back :: u8
  tp_combo :: u8
  tp_skip :: u8

record TapDataSet =
  ts_group_sizes :: "u8 list"
  ts_combos_count :: u8
  ts_total_combo_backs :: u8
  ts_records :: "Tap list"

datatype PolyExtOp =
    OpConst u32
  | OpConstExt u32 u32 u32 u32
  | OpGet u16
  | OpGetGlobal u16 u16
  | OpAdd u16 u16
  | OpSub u16 u16
  | OpMul u16 u16
  | OpTrue
  | OpAndEqz u16 u16
  | OpAndCond u16 u16 u16

record PolyExtData =
  px_field_variables :: u16
  px_mix_variables :: u16
  px_ret_mix_variable :: u16
  px_histogram :: "string \<rightharpoonup> nat"
  px_operations :: "PolyExtOp list"

record ConstantsArtifact =
  ca_upstream_commit :: bytes
  ca_baby_bear :: BabyBearData
  ca_poseidon2 :: Poseidon2Data
  ca_stark :: StarkData
  ca_protocol_info :: ProtocolInfoData
  ca_taps :: TapDataSet
  ca_poly_ext :: PolyExtData

datatype B2Error =
    WrongLength nat | CursorOverflow | UnexpectedEof nat | NonAscii | InvalidUtf8
  | HeaderEnd nat | UnknownOpcode u8 | TrailingBytes nat | CountExceeds string
  | Violation string | ReencodingDiffers | IdentityMismatch string

section \<open>Operations of the constraint program\<close>

definition op_name :: "PolyExtOp \<Rightarrow> string" where
  "op_name op =
     (case op of
        OpConst _ \<Rightarrow> ''Const''
      | OpConstExt _ _ _ _ \<Rightarrow> ''ConstExt''
      | OpGet _ \<Rightarrow> ''Get''
      | OpGetGlobal _ _ \<Rightarrow> ''GetGlobal''
      | OpAdd _ _ \<Rightarrow> ''Add''
      | OpSub _ _ \<Rightarrow> ''Sub''
      | OpMul _ _ \<Rightarrow> ''Mul''
      | OpTrue \<Rightarrow> ''True''
      | OpAndEqz _ _ \<Rightarrow> ''AndEqz''
      | OpAndCond _ _ _ \<Rightarrow> ''AndCond'')"

text \<open>\<open>*out.entry(name).or_insert(0) += 1\<close>\<close>

definition count_name :: "string \<Rightarrow> (string \<rightharpoonup> nat) \<Rightarrow> (string \<rightharpoonup> nat)" where
  "count_name name out = out(name \<mapsto> (case out name of Some n \<Rightarrow> n | None \<Rightarrow> 0) + 1)"

definition histogram :: "PolyExtOp list \<Rightarrow> (string \<rightharpoonup> nat)" where
  "histogram operations =
     (let out = fold (\<lambda>op. count_name (op_name op)) operations Map.empty in
      case out ''ConstExt'' of Some _ \<Rightarrow> out | None \<Rightarrow> out(''ConstExt'' \<mapsto> 0))"

definition is_mix :: "PolyExtOp \<Rightarrow> bool" where
  "is_mix op = (case op of OpTrue \<Rightarrow> True | OpAndEqz _ _ \<Rightarrow> True | OpAndCond _ _ _ \<Rightarrow> True | _ \<Rightarrow> False)"

definition field_ref :: "nat \<Rightarrow> u16 \<Rightarrow> B2Error + unit" where
  "field_ref fp v = ensure (unat v < fp) (Violation ''field reference'')"

definition mix_ref :: "nat \<Rightarrow> u16 \<Rightarrow> B2Error + unit" where
  "mix_ref mix v = ensure (unat v < mix) (Violation ''mix reference'')"

definition validate_op_references ::
  "PolyExtOp \<Rightarrow> nat \<Rightarrow> nat \<Rightarrow> nat \<Rightarrow> B2Error + unit" where
  "validate_op_references op fp mix taps =
     (case op of
        OpConst value \<Rightarrow> ensure (value < 2013265921) (Violation ''Const'')
      | OpConstExt a b c d \<Rightarrow>
          ensure (list_all (\<lambda>value. value < 2013265921) [a, b, c, d]) (Violation ''ConstExt'')
      | OpTrue \<Rightarrow> Inr ()
      | OpGet tap \<Rightarrow> ensure (unat tap < taps) (Violation ''tap reference'')
      | OpGetGlobal grp offset \<Rightarrow>
          and_then (ensure (unat grp < 2) (Violation ''global group'')) (\<lambda>_.
          let bound = (if grp = 0 then 32 else 20) in
          ensure (unat offset < bound) (Violation ''global offset''))
      | OpAdd a b \<Rightarrow> and_then (field_ref fp a) (\<lambda>_. field_ref fp b)
      | OpSub a b \<Rightarrow> and_then (field_ref fp a) (\<lambda>_. field_ref fp b)
      | OpMul a b \<Rightarrow> and_then (field_ref fp a) (\<lambda>_. field_ref fp b)
      | OpAndEqz chain inner \<Rightarrow> and_then (mix_ref mix chain) (\<lambda>_. field_ref fp inner)
      | OpAndCond chain cond inner \<Rightarrow>
          and_then (mix_ref mix chain) (\<lambda>_.
          and_then (field_ref fp cond) (\<lambda>_. mix_ref mix inner)))"

text \<open>The two reference loops: over given operations, and the counters they end with.\<close>

fun check_operations ::
  "nat \<Rightarrow> nat \<Rightarrow> nat \<Rightarrow> PolyExtOp list \<Rightarrow> B2Error + nat \<times> nat" where
  "check_operations taps fp mix [] = Inr (fp, mix)"
| "check_operations taps fp mix (op # ops) =
     and_then (validate_op_references op fp mix taps) (\<lambda>_.
     if is_mix op then check_operations taps fp (mix + 1) ops
     else check_operations taps (fp + 1) mix ops)"

section \<open>Taps\<close>

definition check_tap :: "TapDataSet \<Rightarrow> Tap \<Rightarrow> B2Error + unit" where
  "check_tap taps tap =
     and_then (ensure (unat (tp_group tap) < length (ts_group_sizes taps)) (Violation ''tap group''))
       (\<lambda>_.
     and_then (ensure (tp_offset tap < ts_group_sizes taps ! unat (tp_group tap))
                 (Violation ''tap offset'')) (\<lambda>_.
     and_then (ensure (tp_combo tap < ts_combos_count taps) (Violation ''tap combo'')) (\<lambda>_.
     ensure (0 < tp_skip tap) (Violation ''tap skip''))))"

text \<open>The registers the table must list, in order: \<open>flat_map\<close> over the groups.\<close>

definition tap_registers :: "u8 list \<Rightarrow> (u8 \<times> u8) list" where
  "tap_registers group_sizes =
     concat (map (\<lambda>g. map (\<lambda>k. (word_of_nat g, word_of_nat k)) [0..<unat (group_sizes ! g)])
       [0..<length group_sizes])"

text \<open>The inner loop over one register's run; \<open>backs\<close> is the vector built so far.\<close>

fun run_backs :: "Tap \<Rightarrow> u8 list \<Rightarrow> Tap list \<Rightarrow> B2Error + u8 list" where
  "run_backs head backs [] = Inr backs"
| "run_backs head backs (tap # rest) =
     and_then (ensure (tp_group tap = tp_group head \<and> tp_offset tap = tp_offset head
                       \<and> tp_combo tap = tp_combo head \<and> tp_skip tap = tp_skip head)
                 (Violation ''tap run shape'')) (\<lambda>_.
     and_then (ensure (backs = [] \<or> tp_back tap > last backs) (Violation ''tap run order'')) (\<lambda>_.
     run_backs head (backs @ [tp_back tap]) rest))"

text \<open>
  The register walk. Each round takes one expected register, so the walk is bounded by their number;
  it returns the final position, the registers left and the shapes of the combos.
\<close>

fun tap_walk ::
  "Tap list \<Rightarrow> nat \<Rightarrow> (u8 \<times> u8) list \<Rightarrow> u8 list option list
     \<Rightarrow> B2Error + nat \<times> (u8 \<times> u8) list \<times> u8 list option list" where
  "tap_walk records position expected_registers combo_shapes =
     (if \<not> position < length records then Inr (position, expected_registers, combo_shapes)
      else
        let head = records ! position; width = unat (tp_skip head) in
        and_then (ok_or (checked_add_usize position width) (CountExceeds ''usize'')) (\<lambda>stop.
        and_then (ensure (stop \<le> length records) (Violation ''tap overrun'')) (\<lambda>_.
        case expected_registers of
          [] \<Rightarrow> Inl (Violation ''too many registers'')
        | expected # later \<Rightarrow>
            and_then (ensure ((tp_group head, tp_offset head) = expected) (Violation ''register order''))
              (\<lambda>_.
            and_then (run_backs head [] (slice records position stop)) (\<lambda>backs.
            let combo = unat (tp_combo head) in
            and_then
              (case combo_shapes ! combo of
                 Some previous \<Rightarrow>
                   and_then (ensure (previous = backs) (Violation ''combo shape'')) (\<lambda>_. Inr combo_shapes)
               | None \<Rightarrow> Inr (combo_shapes[combo := Some backs]))
              (\<lambda>combo_shapes. tap_walk records stop later combo_shapes))))))"

declare tap_walk.simps [simp del]

definition validate_taps :: "TapDataSet \<Rightarrow> B2Error + unit" where
  "validate_taps taps =
     (let records = ts_records taps in
      and_then (check_each (check_tap taps) records) (\<lambda>_.
      and_then (tap_walk records 0 (tap_registers (ts_group_sizes taps))
                  (replicate (unat (ts_combos_count taps)) None))
        (\<lambda>(position, expected_registers, combo_shapes).
      and_then (ensure (expected_registers = []) (Violation ''omitted register'')) (\<lambda>_.
      and_then (ensure (position = length records) (Violation ''register walk end'')) (\<lambda>_.
      and_then (ensure (list_all (\<lambda>s. s \<noteq> None) combo_shapes) (Violation ''omitted combo'')) (\<lambda>_.
      and_then (ensure (list_all (\<lambda>right. list_all (\<lambda>left. combo_shapes ! left \<noteq> combo_shapes ! right)
                          [0..<right]) [0..<length combo_shapes]) (Violation ''equal combos'')) (\<lambda>_.
      let combo_back_count = sum_list (map (\<lambda>s. length (the s)) combo_shapes) in
      ensure (combo_back_count = unat (ts_total_combo_backs taps)) (Violation ''combo backs''))))))))"

section \<open>The validator\<close>

definition validate_field_data :: "ConstantsArtifact \<Rightarrow> B2Error + unit" where
  "validate_field_data a =
     (let bb = ca_baby_bear a; p2 = ca_poseidon2 a in
      and_then (ensure (ca_upstream_commit a = B2_RISC0_COMMIT) (Violation ''commit'')) (\<lambda>_.
      and_then (ensure (bb_modulus bb = 2013265921) (Violation ''modulus'')) (\<lambda>_.
      and_then (ensure (bb_extension_degree bb = 4 \<and> bb_extension_beta bb = 11) (Violation ''Ext4'')) (\<lambda>_.
      and_then (ensure (bb_max_root_po2 bb = 27 \<and> length (bb_reverse_roots bb) = ROOT_COUNT)
                  (Violation ''root table'')) (\<lambda>_.
      and_then (ensure (list_all (\<lambda>v. v < bb_modulus bb) (bb_reverse_roots bb)) (Violation ''root''))
        (\<lambda>_.
      and_then (ensure (bb_extension_coefficient_remap bb = [0, 2, 1, 3]) (Violation ''remap'')) (\<lambda>_.
      and_then (ensure (bb_extension_challenge_scale bb = 3) (Violation ''scale'')) (\<lambda>_.
      and_then (ensure ((p2_cells p2, p2_rate p2, p2_output_cells p2) = (24, 16, 8))
                  (Violation ''Poseidon2 dimensions'')) (\<lambda>_.
      and_then (ensure ((p2_rounds_half_full p2, p2_rounds_partial p2, p2_sbox_degree p2) = (4, 21, 7))
                  (Violation ''Poseidon2 rounds'')) (\<lambda>_.
      and_then (ensure (length (p2_round_constants p2) = POSEIDON_ROUND_CONSTANTS
                        \<and> length (p2_internal_diagonal p2) = POSEIDON_DIAGONAL_CONSTANTS)
                  (Violation ''Poseidon2 tables'')) (\<lambda>_.
      ensure (list_all (\<lambda>v. v < bb_modulus bb) (p2_round_constants p2 @ p2_internal_diagonal p2))
        (Violation ''Poseidon2 constant''))))))))))))"

definition validate_parameters :: "ConstantsArtifact \<Rightarrow> B2Error + unit" where
  "validate_parameters a =
     (let sk = ca_stark a; info = ca_protocol_info a; taps = ca_taps a in
      and_then (ensure ((sk_queries sk, sk_inverse_rate sk, sk_fri_fold sk, sk_fri_fold_po2 sk,
                         sk_fri_min_degree sk) = (50, 4, 16, 4, 256)) (Violation ''FRI'')) (\<lambda>_.
      and_then (ensure ((sk_output_size sk, sk_mix_size sk, sk_check_size sk) = (32, 20, 16))
                  (Violation ''dimensions'')) (\<lambda>_.
      and_then (ensure (pi_proof_system info = PROOF_SYSTEM_INFO \<and> pi_circuit info = CIRCUIT_INFO)
                  (Violation ''protocol info'')) (\<lambda>_.
      and_then (ensure (ts_group_sizes taps = [12, 23, 128] \<and> ts_combos_count taps = 5
                        \<and> ts_total_combo_backs taps = 20) (Violation ''TapSet'')) (\<lambda>_.
      and_then (ensure (length (ts_records taps) = TAP_COUNT) (Violation ''tap count'')) (\<lambda>_.
      validate_taps taps))))))"

definition validate_program :: "ConstantsArtifact \<Rightarrow> B2Error + unit" where
  "validate_program a =
     (let px = ca_poly_ext a in
      and_then (ensure (length (px_operations px) = OP_COUNT) (Violation ''operation count'')) (\<lambda>_.
      and_then (ensure (unat (px_field_variables px) = FIELD_VARS \<and> unat (px_mix_variables px) = MIX_VARS
                        \<and> unat (px_ret_mix_variable px) = RET_MIX_VAR) (Violation ''variable census''))
        (\<lambda>_.
      and_then (ensure (px_mix_variables px = px_ret_mix_variable px + 1) (Violation ''retMixVariable''))
        (\<lambda>_.
      let expected = map_of EXPECTED_HISTOGRAM; actual = histogram (px_operations px) in
      and_then (ensure (actual = expected) (Violation ''histogram'')) (\<lambda>_.
      and_then (ensure (px_histogram px = actual) (Violation ''stored histogram'')) (\<lambda>_.
      and_then (check_operations (length (ts_records (ca_taps a))) 0 0 (px_operations px))
        (\<lambda>(fp, mix).
      ensure (fp = FIELD_VARS \<and> mix = MIX_VARS) (Violation ''stack census'')))))))) "

definition b2_validate :: "ConstantsArtifact \<Rightarrow> B2Error + unit" where
  "b2_validate a =
     and_then (validate_field_data a) (\<lambda>_.
     and_then (validate_parameters a) (\<lambda>_. validate_program a))"

section \<open>Encoding\<close>

definition encode_tap :: "Tap \<Rightarrow> bytes" where
  "encode_tap tap = [tp_group tap, tp_offset tap, tp_back tap, tp_combo tap, tp_skip tap]"

definition encode_op :: "PolyExtOp \<Rightarrow> bytes" where
  "encode_op op =
     (case op of
        OpConst v \<Rightarrow> [0] @ u32_to_le v
      | OpConstExt a b c d \<Rightarrow> [1] @ u32_to_le a @ u32_to_le b @ u32_to_le c @ u32_to_le d
      | OpGet v \<Rightarrow> [2] @ u16_to_le v
      | OpGetGlobal a b \<Rightarrow> [3] @ u16_to_le a @ u16_to_le b
      | OpAdd a b \<Rightarrow> [4] @ u16_to_le a @ u16_to_le b
      | OpSub a b \<Rightarrow> [5] @ u16_to_le a @ u16_to_le b
      | OpMul a b \<Rightarrow> [6] @ u16_to_le a @ u16_to_le b
      | OpTrue \<Rightarrow> [7]
      | OpAndEqz a b \<Rightarrow> [8] @ u16_to_le a @ u16_to_le b
      | OpAndCond a b c \<Rightarrow> [9] @ u16_to_le a @ u16_to_le b @ u16_to_le c)"

text \<open>The header in four runs of consecutive writes, with the counts as written.\<close>

definition header_field :: "BabyBearData \<Rightarrow> bytes" where
  "header_field bb =
     u32_to_le (bb_modulus bb) @ [bb_extension_degree bb] @ u32_to_le (bb_extension_beta bb)
     @ [bb_max_root_po2 bb]"

definition header_poseidon :: "Poseidon2Data \<Rightarrow> u16 \<Rightarrow> u8 \<Rightarrow> bytes" where
  "header_poseidon p2 rounds diagonal =
     [p2_cells p2, p2_rate p2, p2_output_cells p2, p2_rounds_half_full p2, p2_rounds_partial p2,
      p2_sbox_degree p2] @ u16_to_le rounds @ [diagonal]"

definition header_stark :: "StarkData \<Rightarrow> bytes" where
  "header_stark sk =
     [sk_queries sk, sk_inverse_rate sk, sk_fri_fold sk, sk_fri_fold_po2 sk]
     @ u16_to_le (sk_fri_min_degree sk) @ [sk_output_size sk, sk_mix_size sk, sk_check_size sk]"

definition header_taps :: "TapDataSet \<Rightarrow> u16 \<Rightarrow> bytes" where
  "header_taps taps count =
     u16_to_le count @ [3] @ ts_group_sizes taps @ [ts_combos_count taps, ts_total_combo_backs taps]"

definition header_program :: "PolyExtData \<Rightarrow> u16 \<Rightarrow> bytes" where
  "header_program px count =
     u16_to_le count @ u16_to_le (px_field_variables px) @ u16_to_le (px_mix_variables px)
     @ u16_to_le (px_ret_mix_variable px)"

definition header_info :: "BabyBearData \<Rightarrow> ProtocolInfoData \<Rightarrow> bytes" where
  "header_info bb info =
     bb_extension_coefficient_remap bb @ [0, 1, 2] @ [16] @ [16] @ [5] @ [bb_extension_challenge_scale bb]
     @ pi_proof_system info @ pi_circuit info"

definition encode_tables :: "ConstantsArtifact \<Rightarrow> bytes" where
  "encode_tables a =
     concat (map u32_to_le (bb_reverse_roots (ca_baby_bear a)))
     @ concat (map u32_to_le (p2_round_constants (ca_poseidon2 a)))
     @ concat (map u32_to_le (p2_internal_diagonal (ca_poseidon2 a)))
     @ concat (map encode_tap (ts_records (ca_taps a)))
     @ concat (map encode_op (px_operations (ca_poly_ext a)))"

definition b2_encode :: "ConstantsArtifact \<Rightarrow> B2Error + bytes" where
  "b2_encode a =
     and_then (b2_validate a) (\<lambda>_.
     and_then (ok_or (u16_try_from (length (p2_round_constants (ca_poseidon2 a))))
                 (CountExceeds ''round constants'')) (\<lambda>rounds.
     and_then (ok_or (u8_try_from (length (p2_internal_diagonal (ca_poseidon2 a))))
                 (CountExceeds ''diagonal'')) (\<lambda>diagonal.
     and_then (ok_or (u16_try_from (length (ts_records (ca_taps a)))) (CountExceeds ''taps'')) (\<lambda>taps.
     and_then (ok_or (u16_try_from (length (px_operations (ca_poly_ext a)))) (CountExceeds ''operations''))
       (\<lambda>operations.
     let out =
       header_field (ca_baby_bear a) @ header_poseidon (ca_poseidon2 a) rounds diagonal
       @ header_stark (ca_stark a) @ header_taps (ca_taps a) taps
       @ header_program (ca_poly_ext a) operations @ header_info (ca_baby_bear a) (ca_protocol_info a) in
     and_then (ensure (length out = HEADER_BYTES) (HeaderEnd (length out))) (\<lambda>_.
     let out = out @ encode_tables a in
     and_then (ensure (length out = ARTIFACT_BYTES) (WrongLength (length out))) (\<lambda>_.
     Inr out)))))))"

section \<open>The cursor\<close>

record Cursor =
  cu_bytes :: bytes
  cu_position :: nat

definition cu_new :: "bytes \<Rightarrow> Cursor" where
  "cu_new bytes = \<lparr>cu_bytes = bytes, cu_position = 0\<rparr>"

definition cu_take :: "nat \<Rightarrow> Cursor \<Rightarrow> B2Error + bytes \<times> Cursor" where
  "cu_take count cu =
     and_then (ok_or (checked_add_usize (cu_position cu) count) CursorOverflow) (\<lambda>stop.
     and_then (ensure (stop \<le> length (cu_bytes cu)) (UnexpectedEof (cu_position cu))) (\<lambda>_.
     Inr (slice (cu_bytes cu) (cu_position cu) stop, cu\<lparr>cu_position := stop\<rparr>)))"

definition cu_u8 :: "Cursor \<Rightarrow> B2Error + u8 \<times> Cursor" where
  "cu_u8 cu = and_then (cu_take 1 cu) (\<lambda>(bs, cu). Inr (bs ! 0, cu))"

definition cu_u16 :: "Cursor \<Rightarrow> B2Error + u16 \<times> Cursor" where
  "cu_u16 cu = and_then (cu_take 2 cu) (\<lambda>(bs, cu). Inr (u16_from_le bs, cu))"

definition cu_u32 :: "Cursor \<Rightarrow> B2Error + u32 \<times> Cursor" where
  "cu_u32 cu = and_then (cu_take 4 cu) (\<lambda>(bs, cu). Inr (u32_from_le bs, cu))"

fun cu_many :: "(Cursor \<Rightarrow> B2Error + 'a \<times> Cursor) \<Rightarrow> nat \<Rightarrow> Cursor \<Rightarrow> B2Error + 'a list \<times> Cursor" where
  "cu_many read 0 cu = Inr ([], cu)"
| "cu_many read (Suc n) cu =
     and_then (read cu) (\<lambda>(v, cu).
     and_then (cu_many read n cu) (\<lambda>(vs, cu). Inr (v # vs, cu)))"

definition cu_ascii :: "nat \<Rightarrow> Cursor \<Rightarrow> B2Error + bytes \<times> Cursor" where
  "cu_ascii count cu =
     and_then (cu_take count cu) (\<lambda>(bs, cu).
     and_then (ensure (list_all (\<lambda>b. b < 0x80) bs) NonAscii) (\<lambda>_.
     and_then (ensure (is_utf8 bs) InvalidUtf8) (\<lambda>_.
     Inr (bs, cu))))"

section \<open>Decoding\<close>

text \<open>The header in the runs of the encoder; the tables of the records are filled in later.\<close>

definition read_field :: "Cursor \<Rightarrow> B2Error + BabyBearData \<times> Cursor" where
  "read_field cu =
     and_then (cu_u32 cu) (\<lambda>(modulus, cu).
     and_then (cu_u8 cu) (\<lambda>(degree, cu).
     and_then (cu_u32 cu) (\<lambda>(beta, cu).
     and_then (cu_u8 cu) (\<lambda>(po2, cu).
     Inr (\<lparr>bb_modulus = modulus, bb_extension_degree = degree, bb_extension_beta = beta,
           bb_max_root_po2 = po2, bb_reverse_roots = [], bb_extension_coefficient_remap = [],
           bb_extension_challenge_scale = 0\<rparr>, cu)))))"

definition read_poseidon :: "Cursor \<Rightarrow> B2Error + (Poseidon2Data \<times> u16 \<times> u8) \<times> Cursor" where
  "read_poseidon cu =
     and_then (cu_u8 cu) (\<lambda>(cells, cu).
     and_then (cu_u8 cu) (\<lambda>(rate, cu).
     and_then (cu_u8 cu) (\<lambda>(output_cells, cu).
     and_then (cu_u8 cu) (\<lambda>(half_full, cu).
     and_then (cu_u8 cu) (\<lambda>(partial, cu).
     and_then (cu_u8 cu) (\<lambda>(degree, cu).
     and_then (cu_u16 cu) (\<lambda>(rounds, cu).
     and_then (cu_u8 cu) (\<lambda>(diagonal, cu).
     Inr ((\<lparr>p2_cells = cells, p2_rate = rate, p2_output_cells = output_cells,
            p2_rounds_half_full = half_full, p2_rounds_partial = partial, p2_sbox_degree = degree,
            p2_round_constants = [], p2_internal_diagonal = []\<rparr>, rounds, diagonal), cu)))))))))"

definition read_stark :: "Cursor \<Rightarrow> B2Error + StarkData \<times> Cursor" where
  "read_stark cu =
     and_then (cu_u8 cu) (\<lambda>(queries, cu).
     and_then (cu_u8 cu) (\<lambda>(inverse_rate, cu).
     and_then (cu_u8 cu) (\<lambda>(fri_fold, cu).
     and_then (cu_u8 cu) (\<lambda>(fri_fold_po2, cu).
     and_then (cu_u16 cu) (\<lambda>(min_degree, cu).
     and_then (cu_u8 cu) (\<lambda>(output_size, cu).
     and_then (cu_u8 cu) (\<lambda>(mix_size, cu).
     and_then (cu_u8 cu) (\<lambda>(check_size, cu).
     Inr (\<lparr>sk_queries = queries, sk_inverse_rate = inverse_rate, sk_fri_fold = fri_fold,
           sk_fri_fold_po2 = fri_fold_po2, sk_fri_min_degree = min_degree,
           sk_output_size = output_size, sk_mix_size = mix_size, sk_check_size = check_size\<rparr>,
          cu)))))))))"

definition read_taps_header :: "Cursor \<Rightarrow> B2Error + (TapDataSet \<times> u16) \<times> Cursor" where
  "read_taps_header cu =
     and_then (cu_u16 cu) (\<lambda>(count, cu).
     and_then (cu_u8 cu) (\<lambda>(groups, cu).
     and_then (ensure (groups = 3) (Violation ''group count'')) (\<lambda>_.
     and_then (cu_many cu_u8 3 cu) (\<lambda>(sizes, cu).
     and_then (cu_u8 cu) (\<lambda>(combos, cu).
     and_then (cu_u8 cu) (\<lambda>(backs, cu).
     Inr ((\<lparr>ts_group_sizes = sizes, ts_combos_count = combos, ts_total_combo_backs = backs,
            ts_records = []\<rparr>, count), cu)))))))"

definition read_program_header :: "Cursor \<Rightarrow> B2Error + (PolyExtData \<times> u16) \<times> Cursor" where
  "read_program_header cu =
     and_then (cu_u16 cu) (\<lambda>(count, cu).
     and_then (cu_u16 cu) (\<lambda>(field_variables, cu).
     and_then (cu_u16 cu) (\<lambda>(mix_variables, cu).
     and_then (cu_u16 cu) (\<lambda>(ret, cu).
     Inr ((\<lparr>px_field_variables = field_variables, px_mix_variables = mix_variables,
            px_ret_mix_variable = ret, px_histogram = Map.empty, px_operations = []\<rparr>, count), cu)))))"

definition read_info :: "Cursor \<Rightarrow> B2Error + (u8 list \<times> u8 \<times> ProtocolInfoData) \<times> Cursor" where
  "read_info cu =
     and_then (cu_many cu_u8 4 cu) (\<lambda>(remap, cu).
     and_then (cu_many cu_u8 3 cu) (\<lambda>(identifiers, cu).
     and_then (ensure (identifiers = [0, 1, 2]) (Violation ''group identifiers'')) (\<lambda>_.
     and_then (cu_u8 cu) (\<lambda>(proof_info_len, cu).
     and_then (cu_u8 cu) (\<lambda>(circuit_info_len, cu).
     and_then (cu_u8 cu) (\<lambda>(tap_bytes, cu).
     and_then (ensure (tap_bytes = 5) (Violation ''tap record width'')) (\<lambda>_.
     and_then (cu_u8 cu) (\<lambda>(scale, cu).
     and_then (cu_ascii (unat proof_info_len) cu) (\<lambda>(proof_system, cu).
     and_then (cu_ascii (unat circuit_info_len) cu) (\<lambda>(circuit, cu).
     and_then (ensure (cu_position cu = HEADER_BYTES) (HeaderEnd (cu_position cu))) (\<lambda>_.
     Inr ((remap, scale, \<lparr>pi_proof_system = proof_system, pi_circuit = circuit\<rparr>), cu))))))))))))"

definition read_tap :: "Cursor \<Rightarrow> B2Error + Tap \<times> Cursor" where
  "read_tap cu =
     and_then (cu_u8 cu) (\<lambda>(g, cu).
     and_then (cu_u8 cu) (\<lambda>(offset, cu).
     and_then (cu_u8 cu) (\<lambda>(back, cu).
     and_then (cu_u8 cu) (\<lambda>(combo, cu).
     and_then (cu_u8 cu) (\<lambda>(skip, cu).
     Inr (\<lparr>tp_group = g, tp_offset = offset, tp_back = back, tp_combo = combo, tp_skip = skip\<rparr>,
          cu))))))"

definition read_pair :: "(u16 \<Rightarrow> u16 \<Rightarrow> PolyExtOp) \<Rightarrow> Cursor \<Rightarrow> B2Error + PolyExtOp \<times> Cursor" where
  "read_pair op cu =
     and_then (cu_u16 cu) (\<lambda>(a, cu). and_then (cu_u16 cu) (\<lambda>(b, cu). Inr (op a b, cu)))"

text \<open>The \<open>match\<close> on the opcode tag.\<close>

definition read_op_args :: "u8 \<Rightarrow> Cursor \<Rightarrow> B2Error + PolyExtOp \<times> Cursor" where
  "read_op_args tag cu =
    (if tag = 0 then and_then (cu_u32 cu) (\<lambda>(v, cu). Inr (OpConst v, cu))
     else if tag = 1 then
       and_then (cu_u32 cu) (\<lambda>(a, cu).
       and_then (cu_u32 cu) (\<lambda>(b, cu).
       and_then (cu_u32 cu) (\<lambda>(c, cu).
       and_then (cu_u32 cu) (\<lambda>(d, cu). Inr (OpConstExt a b c d, cu)))))
     else if tag = 2 then and_then (cu_u16 cu) (\<lambda>(v, cu). Inr (OpGet v, cu))
     else if tag = 3 then read_pair OpGetGlobal cu
     else if tag = 4 then read_pair OpAdd cu
     else if tag = 5 then read_pair OpSub cu
     else if tag = 6 then read_pair OpMul cu
     else if tag = 7 then Inr (OpTrue, cu)
     else if tag = 8 then read_pair OpAndEqz cu
     else if tag = 9 then
       and_then (cu_u16 cu) (\<lambda>(a, cu).
       and_then (cu_u16 cu) (\<lambda>(b, cu).
       and_then (cu_u16 cu) (\<lambda>(c, cu). Inr (OpAndCond a b c, cu))))
     else Inl (UnknownOpcode tag))"

definition read_op :: "Cursor \<Rightarrow> B2Error + PolyExtOp \<times> Cursor" where
  "read_op cu = and_then (cu_u8 cu) (\<lambda>(tag, cu). read_op_args tag cu)"

fun read_ops :: "nat \<Rightarrow> nat \<Rightarrow> nat \<Rightarrow> nat \<Rightarrow> Cursor \<Rightarrow> B2Error + PolyExtOp list \<times> Cursor" where
  "read_ops taps fp mix 0 cu = Inr ([], cu)"
| "read_ops taps fp mix (Suc n) cu =
     and_then (read_op cu) (\<lambda>(op, cu).
     and_then (validate_op_references op fp mix taps) (\<lambda>_.
     and_then (if is_mix op then read_ops taps fp (mix + 1) n cu else read_ops taps (fp + 1) mix n cu)
       (\<lambda>(ops, cu). Inr (op # ops, cu))))"

text \<open>The tables after the header, read as one.\<close>

definition read_tables ::
  "nat \<Rightarrow> nat \<Rightarrow> nat \<Rightarrow> nat \<Rightarrow> Cursor
     \<Rightarrow> B2Error + (u32 list \<times> u32 list \<times> u32 list \<times> Tap list \<times> PolyExtOp list) \<times> Cursor" where
  "read_tables rounds diagonal taps ops cu =
     and_then (cu_many cu_u32 ROOT_COUNT cu) (\<lambda>(roots, cu).
     and_then (cu_many cu_u32 rounds cu) (\<lambda>(constants, cu).
     and_then (cu_many cu_u32 diagonal cu) (\<lambda>(internal, cu).
     and_then (cu_many read_tap taps cu) (\<lambda>(records, cu).
     and_then (read_ops taps 0 0 ops cu) (\<lambda>(operations, cu).
     Inr ((roots, constants, internal, records, operations), cu))))))"

definition assemble ::
  "BabyBearData \<Rightarrow> Poseidon2Data \<Rightarrow> StarkData \<Rightarrow> TapDataSet \<Rightarrow> PolyExtData \<Rightarrow> u8 list \<Rightarrow> u8
     \<Rightarrow> ProtocolInfoData \<Rightarrow> u32 list \<times> u32 list \<times> u32 list \<times> Tap list \<times> PolyExtOp list \<Rightarrow> ConstantsArtifact"
  where
  "assemble bb p2 sk ts px remap scale info = (\<lambda>(roots, constants, internal, records, operations).
     \<lparr>ca_upstream_commit = B2_RISC0_COMMIT,
      ca_baby_bear = bb\<lparr>bb_reverse_roots := roots, bb_extension_coefficient_remap := remap,
        bb_extension_challenge_scale := scale\<rparr>,
      ca_poseidon2 = p2\<lparr>p2_round_constants := constants, p2_internal_diagonal := internal\<rparr>,
      ca_stark = sk, ca_protocol_info = info, ca_taps = ts\<lparr>ts_records := records\<rparr>,
      ca_poly_ext = px\<lparr>px_histogram := histogram operations, px_operations := operations\<rparr>\<rparr>)"

definition b2_decode :: "bytes \<Rightarrow> B2Error + ConstantsArtifact" where
  "b2_decode bytes =
     and_then (ensure (length bytes = ARTIFACT_BYTES) (WrongLength (length bytes))) (\<lambda>_.
     and_then (read_field (cu_new bytes)) (\<lambda>(bb, cu).
     and_then (read_poseidon cu) (\<lambda>((p2, round_constant_count, diagonal_count), cu).
     and_then (read_stark cu) (\<lambda>(sk, cu).
     and_then (read_taps_header cu) (\<lambda>((ts, tap_count), cu).
     and_then (read_program_header cu) (\<lambda>((px, op_count), cu).
     and_then (read_info cu) (\<lambda>((remap, scale, info), cu).
     and_then (read_tables (unat round_constant_count) (unat diagonal_count) (unat tap_count)
                 (unat op_count) cu) (\<lambda>(tables, cu).
     and_then (ensure (cu_position cu = length bytes) (TrailingBytes (length bytes - cu_position cu)))
       (\<lambda>_.
     let a = assemble bb p2 sk ts px remap scale info tables in
     and_then (b2_validate a) (\<lambda>_. Inr a))))))))))"

definition verify_canonical ::
  "(bytes \<Rightarrow> bytes) \<Rightarrow> (bytes \<Rightarrow> string) \<Rightarrow> bytes \<Rightarrow> B2Error + ConstantsArtifact" where
  "verify_canonical sha256 hex_encode bytes =
     and_then (b2_decode bytes) (\<lambda>decoded.
     and_then (b2_encode decoded) (\<lambda>encoded.
     and_then (ensure (encoded = bytes) ReencodingDiffers) (\<lambda>_.
     let actual = hex_encode (sha256 bytes) in
     and_then (ensure (actual = ARTIFACT_SHA256) (IdentityMismatch actual)) (\<lambda>_.
     Inr decoded))))"

end
