(* ===== verification/B2Taps.thy ===== *)
theory B2Taps
  imports B2Artifact
begin

text \<open>
  The tap table of the B2 artifact. The register walk of \<open>validate_taps\<close> accepts a table exactly when
  it is the listing of a choice of combo shapes and of one combo per register.
\<close>

section \<open>The shape of a tap table\<close>

definition shape_ok :: "u8 list \<Rightarrow> bool" where
  "shape_ok s \<longleftrightarrow> s \<noteq> [] \<and> length s < 256 \<and> sorted_wrt (<) s"

definition tap_run :: "u8 list list \<Rightarrow> u8 \<times> u8 \<Rightarrow> nat \<Rightarrow> Tap list" where
  "tap_run shapes register c =
     map (\<lambda>b. \<lparr>tp_group = fst register, tp_offset = snd register, tp_back = b, tp_combo = word_of_nat c,
               tp_skip = word_of_nat (length (shapes ! c))\<rparr>) (shapes ! c)"

definition tap_runs :: "u8 list list \<Rightarrow> (u8 \<times> u8) list \<Rightarrow> nat list \<Rightarrow> Tap list" where
  "tap_runs shapes registers combos = concat (map2 (tap_run shapes) registers combos)"

definition tap_table :: "TapDataSet \<Rightarrow> u8 list list \<Rightarrow> nat list \<Rightarrow> bool" where
  "tap_table taps shapes combos \<longleftrightarrow>
     length shapes = unat (ts_combos_count taps)
     \<and> length combos = length (tap_registers (ts_group_sizes taps))
     \<and> set combos = {..<length shapes}
     \<and> distinct shapes \<and> list_all shape_ok shapes
     \<and> sum_list (map length shapes) = unat (ts_total_combo_backs taps)
     \<and> ts_records taps = tap_runs shapes (tap_registers (ts_group_sizes taps)) combos"

section \<open>One run\<close>

definition same_run :: "Tap \<Rightarrow> Tap \<Rightarrow> bool" where
  "same_run head tap \<longleftrightarrow> tp_group tap = tp_group head \<and> tp_offset tap = tp_offset head
     \<and> tp_combo tap = tp_combo head \<and> tp_skip tap = tp_skip head"

lemma sorted_last: "sorted_wrt (<) xs \<Longrightarrow> (\<forall>x \<in> set xs. x < b) \<longleftrightarrow> xs = [] \<or> last xs < b" for b :: u8
proof (induction xs rule: rev_induct)
  case Nil
  then show ?case by simp
next
  case (snoc x xs)
  then show ?case by (auto simp: sorted_wrt_append intro: order.strict_trans)
qed

lemma run_backs_eq:
  "sorted_wrt (<) backs \<Longrightarrow> run_backs head backs taps = Inr out \<longleftrightarrow>
    out = backs @ map tp_back taps \<and> list_all (same_run head) taps
    \<and> sorted_wrt (<) (backs @ map tp_back taps)"
proof (induction taps arbitrary: backs)
  case Nil
  then show ?case by auto
next
  case (Cons tap taps)
  have snoc: "sorted_wrt (<) (backs @ [tp_back tap]) \<longleftrightarrow> backs = [] \<or> last backs < tp_back tap"
    using Cons.prems sorted_last by (auto simp: sorted_wrt_append)
  have "sorted_wrt (<) (backs @ map tp_back (tap # taps)) \<Longrightarrow> sorted_wrt (<) (backs @ [tp_back tap])"
    by (simp add: sorted_wrt_append)
  moreover have "run_backs head backs (tap # taps) = Inr out \<longleftrightarrow>
      same_run head tap \<and> (backs = [] \<or> last backs < tp_back tap)
      \<and> run_backs head (backs @ [tp_back tap]) taps = Inr out"
    by (auto simp: same_run_def)
  ultimately show ?case using Cons.IH [of "backs @ [tp_back tap]"] snoc by auto
qed

lemma run_is_tap_run:
  assumes "list_all (same_run head) run" "length run = unat (tp_skip head)"
    and "shapes ! unat (tp_combo head) = map tp_back run"
  shows "run = tap_run shapes (tp_group head, tp_offset head) (unat (tp_combo head))"
proof (rule nth_equalityI)
  show "length run = length (tap_run shapes (tp_group head, tp_offset head) (unat (tp_combo head)))"
    using assms by (simp add: tap_run_def)
  fix i assume i: "i < length run"
  then have "same_run head (run ! i)" using assms(1) by (simp add: list_all_length)
  then show "run ! i = tap_run shapes (tp_group head, tp_offset head) (unat (tp_combo head)) ! i"
    using i assms(2,3) by (simp add: tap_run_def same_run_def)
qed

lemma tap_run_facts:
  assumes "shape_ok (shapes ! c)" "c < 256"
  shows "tap_run shapes r c \<noteq> []" "length (tap_run shapes r c) = length (shapes ! c)"
    "map tp_back (tap_run shapes r c) = shapes ! c"
    "\<And>tap. tap \<in> set (tap_run shapes r c) \<Longrightarrow> (tp_group tap, tp_offset tap) = r
       \<and> unat (tp_combo tap) = c \<and> unat (tp_skip tap) = length (shapes ! c)"
  using assms by (auto simp: tap_run_def shape_ok_def unat_of_nat comp_def)

section \<open>The walk\<close>

lemma tap_walk_end [simp]:
  "length records \<le> position \<Longrightarrow> tap_walk records position rs sh = Inr (position, rs, sh)"
  by (simp add: tap_walk.simps)

definition record_shape :: "nat \<Rightarrow> u8 list \<Rightarrow> u8 list option list \<Rightarrow> u8 list option list \<Rightarrow> bool" where
  "record_shape combo backs sh sh' \<longleftrightarrow>
     (case sh ! combo of Some previous \<Rightarrow> previous = backs \<and> sh' = sh | None \<Rightarrow> sh' = sh[combo := Some backs])"

lemma tap_walk_step:
  assumes "position < length records" "length records < usize_limit"
  shows "tap_walk records position rs sh = Inr r \<longleftrightarrow>
    (\<exists>later run sh'. let head = records ! position in
       rs = (tp_group head, tp_offset head) # later
       \<and> run = take (unat (tp_skip head)) (drop position records) \<and> length run = unat (tp_skip head)
       \<and> list_all (same_run head) run \<and> sorted_wrt (<) (map tp_back run)
       \<and> record_shape (unat (tp_combo head)) (map tp_back run) sh sh'
       \<and> tap_walk records (position + unat (tp_skip head)) later sh' = Inr r)"
proof -
  let ?head = "records ! position"
  have slice: "slice records position (position + unat (tp_skip ?head))
      = take (unat (tp_skip ?head)) (drop position records)"
    by (simp add: slice_def)
  have fits: "position + unat (tp_skip ?head) < usize_limit \<and> position + unat (tp_skip ?head) \<le> length records
      \<longleftrightarrow> length (take (unat (tp_skip ?head)) (drop position records)) = unat (tp_skip ?head)"
    using assms by auto
  show ?thesis
    using assms
    by (subst tap_walk.simps)
      (auto simp: Let_def slice run_backs_eq record_shape_def split: list.splits option.splits)
qed


lemma record_shape_facts:
  assumes "record_shape c backs sh sh'" "c < length sh"
  shows "length sh' = length sh" "sh' ! c = Some backs"
    "\<And>d. d \<noteq> c \<Longrightarrow> sh' ! d = sh ! d" "sh ! c = None \<or> sh ! c = Some backs"
  using assms by (auto simp: record_shape_def split: option.splits)

lemma tap_runs_Cons: "tap_runs shapes (r # rs) (c # cs) = tap_run shapes r c @ tap_runs shapes rs cs"
  by (simp add: tap_runs_def)

lemma walk_sound:
  assumes "tap_walk records position rs sh = Inr (position', [], sh')" "length sh = n"
    and "position \<le> length records" "length records < usize_limit"
    and "\<forall>tap \<in> set records. unat (tp_combo tap) < n \<and> 0 < tp_skip tap"
  shows "position' = length records \<and> length sh' = n
    \<and> (\<forall>c<n. sh ! c \<noteq> None \<longrightarrow> sh' ! c = sh ! c)
    \<and> (\<exists>combos. length combos = length rs \<and> set combos \<subseteq> {..<n}
         \<and> (\<forall>c \<in> set combos. \<exists>s. sh' ! c = Some s \<and> shape_ok s)
         \<and> (\<forall>c<n. c \<notin> set combos \<longrightarrow> sh' ! c = sh ! c)
         \<and> drop position records = tap_runs (map the sh') rs combos)"
  using assms
proof (induction rs arbitrary: position sh)
  case Nil
  then have "position = length records \<and> position' = length records \<and> sh' = sh"
    using tap_walk_step [of position records "[]" sh "(position', [], sh')"]
    by (cases "position = length records") (auto simp: Let_def)
  then show ?case using Nil by (auto simp: tap_runs_def)
next
  case (Cons r rs)
  have less: "position < length records"
  proof (rule ccontr)
    assume "\<not> position < length records"
    then show False using Cons.prems(1) by simp
  qed
  define head where "head = records ! position"
  define run where "run = take (unat (tp_skip head)) (drop position records)"
  define c where "c = unat (tp_combo head)"
  obtain sh1 where r: "r = (tp_group head, tp_offset head)"
    and run: "length run = unat (tp_skip head)" "list_all (same_run head) run"
      "sorted_wrt (<) (map tp_back run)"
    and shape: "record_shape c (map tp_back run) sh sh1"
    and walk: "tap_walk records (position + unat (tp_skip head)) rs sh1 = Inr (position', [], sh')"
    using Cons.prems(1) tap_walk_step [OF less Cons.prems(4), of "r # rs" sh]
    by (auto simp: Let_def head_def run_def c_def)
  have head: "c < n" "0 < tp_skip head"
    using Cons.prems(5) less by (auto simp: head_def c_def)
  have cn: "c < length sh" using head Cons.prems(2) by simp
  note sh1 = record_shape_facts [OF shape cn]
  have within: "position + unat (tp_skip head) \<le> length records"
    using run(1) less by (simp add: run_def)
  have len1: "length sh1 = n" using sh1(1) Cons.prems(2) by simp
  from Cons.IH [OF walk len1 within Cons.prems(4,5)]
  obtain combos where IH: "position' = length records" "length sh' = n"
    "\<forall>d<n. sh1 ! d \<noteq> None \<longrightarrow> sh' ! d = sh1 ! d" "length combos = length rs" "set combos \<subseteq> {..<n}"
    "\<forall>d \<in> set combos. \<exists>s. sh' ! d = Some s \<and> shape_ok s"
    "\<forall>d<n. d \<notin> set combos \<longrightarrow> sh' ! d = sh1 ! d"
    "drop (position + unat (tp_skip head)) records = tap_runs (map the sh') rs combos" by blast
  have final: "sh' ! c = Some (map tp_back run)" using IH(3) head sh1(2) by simp
  have ok: "shape_ok (map tp_back run)"
    using run head(2) unsigned_less [of "tp_skip head"]
    by (auto simp: shape_ok_def word_greater_zero_iff unat_eq_0)
  have "run = tap_run (map the sh') r c"
    unfolding r c_def using run(2,1) final head IH(2)
    by (intro run_is_tap_run) (simp_all add: c_def)
  moreover have "drop position records = run @ drop (position + unat (tp_skip head)) records"
    unfolding run_def by (metis append_take_drop_id drop_drop add.commute)
  ultimately have "drop position records = tap_runs (map the sh') (r # rs) (c # combos)"
    using IH(8) by (simp add: tap_runs_Cons)
  moreover have "sh' ! d = sh ! d" if "d < n" "sh ! d \<noteq> None" for d
    using that IH(3) sh1(2-4) final by (cases "d = c") auto
  moreover have "sh' ! d = sh ! d" if "d < n" "d \<notin> set (c # combos)" for d
    using that IH(7) sh1(3) by auto
  ultimately show ?case
    using IH(1,2,4-6) head(1) final ok by (intro conjI exI [of _ "c # combos"]) auto
qed

lemma walk_complete:
  assumes "drop position records = tap_runs shapes rs combos" "length combos = length rs"
    and "set combos \<subseteq> {..<n}" "n < 256" "length shapes = n" "list_all shape_ok shapes"
    and "length sh = n" "\<forall>c<n. sh ! c = None \<or> sh ! c = Some (shapes ! c)"
    and "position \<le> length records" "length records < usize_limit"
  shows "\<exists>sh'. tap_walk records position rs sh = Inr (length records, [], sh') \<and> length sh' = n
    \<and> (\<forall>c<n. sh' ! c = (if c \<in> set combos then Some (shapes ! c) else sh ! c))"
  using assms
proof (induction rs arbitrary: position sh combos)
  case Nil
  then show ?case by (simp add: tap_runs_def)
next
  case (Cons r rs)
  then obtain c cs where combos: "combos = c # cs" by (cases combos) auto
  have c: "c < n" "c < 256" using Cons.prems(3,4) combos by auto
  have ok: "shape_ok (shapes ! c)" using Cons.prems(5,6) c by (simp add: list_all_length)
  note facts = tap_run_facts [OF ok c(2)]
  let ?run = "tap_run shapes r c"
  have drop: "drop position records = ?run @ tap_runs shapes rs cs"
    using Cons.prems(1) combos by (simp add: tap_runs_Cons)
  then have less: "position < length records" using facts(1) by (cases "position < length records") auto
  have headin: "records ! position = hd ?run"
    using drop facts(1) less by (metis hd_append2 hd_drop_conv_nth)
  define head where "head = records ! position"
  have head: "(tp_group head, tp_offset head) = r" "unat (tp_combo head) = c"
    "unat (tp_skip head) = length ?run"
    using facts(4) [OF list.set_sel(1) [OF facts(1)]] facts(2) headin by (simp_all add: head_def)
  have run: "take (unat (tp_skip head)) (drop position records) = ?run"
    and rest: "drop (position + unat (tp_skip head)) records = tap_runs shapes rs cs"
  proof -
    show "take (unat (tp_skip head)) (drop position records) = ?run" using drop head(3) by simp
    have "drop (unat (tp_skip head)) (drop position records) = tap_runs shapes rs cs"
      using drop head(3) by simp
    then show "drop (position + unat (tp_skip head)) records = tap_runs shapes rs cs"
      by (simp add: add.commute)
  qed
  have same: "list_all (same_run head) ?run"
  proof (unfold list_all_iff, intro ballI)
    fix tap assume "tap \<in> set ?run"
    then have "(tp_group tap, tp_offset tap) = r" "unat (tp_combo tap) = c"
      "unat (tp_skip tap) = length (shapes ! c)" using facts(4) by blast+
    then show "same_run head tap"
      using head facts(2) by (auto simp: same_run_def word_unat_eq_iff)
  qed
  have sorted: "sorted_wrt (<) (map tp_back ?run)" using ok facts(3) by (simp add: shape_ok_def)
  define sh1 where "sh1 = (if sh ! c = None then sh[c := Some (shapes ! c)] else sh)"
  have len1: "length sh1 = n" using Cons.prems(7) by (simp add: sh1_def)
  have part: "\<forall>d<n. sh1 ! d = None \<or> sh1 ! d = Some (shapes ! d)"
    using Cons.prems(7,8) c(1) by (simp add: sh1_def nth_list_update)
  have "record_shape c (map tp_back ?run) sh sh1"
    using Cons.prems(8) c(1) facts(3) by (auto simp: record_shape_def sh1_def split: option.split)
  moreover have "position + unat (tp_skip head) \<le> length records"
    using arg_cong [OF run, of length] head(3) less by simp
  moreover from this obtain sh' where walk: "tap_walk records (position + unat (tp_skip head)) rs sh1
      = Inr (length records, [], sh')" "length sh' = n"
    "\<forall>d<n. sh' ! d = (if d \<in> set cs then Some (shapes ! d) else sh1 ! d)"
    using Cons.IH [OF rest _ _ Cons.prems(4-6) len1 part] Cons.prems(2,3,10) combos by auto
  ultimately have "tap_walk records position (r # rs) sh = Inr (length records, [], sh')"
    unfolding tap_walk_step [OF less Cons.prems(10)]
    using head run same sorted walk(1) by (auto simp: Let_def head_def)
  moreover have "\<forall>d<n. sh' ! d = (if d \<in> set combos then Some (shapes ! d) else sh ! d)"
    using walk(3) Cons.prems(7,8) c(1) combos by (auto simp: sh1_def nth_list_update)
  ultimately show ?case using walk(2) by blast
qed


section \<open>The check of the whole table\<close>

lemma register_ranges:
  assumes "length sizes \<le> 256" "r \<in> set (tap_registers sizes)"
  shows "unat (fst r) < length sizes \<and> snd r < sizes ! unat (fst r)"
proof -
  obtain g k where r: "g < length sizes" "k < unat (sizes ! g)" "r = (word_of_nat g, word_of_nat k)"
    using assms(2) by (auto simp: tap_registers_def)
  moreover have "unat (word_of_nat g :: u8) = g" using r(1) assms(1) by (simp add: unat_of_nat)
  moreover have "unat (word_of_nat k :: u8) = k"
    using r(2) unat_u8_bound [of "sizes ! g"] by (simp add: unat_of_nat)
  ultimately show ?thesis by (simp add: word_less_nat_alt)
qed

lemma distinct_pairs:
  "list_all (\<lambda>right. list_all (\<lambda>left. xs ! left \<noteq> xs ! right) [0..<right]) [0..<length xs] \<longleftrightarrow> distinct xs"
  (is "?L \<longleftrightarrow> ?R")
proof
  assume l: ?L
  show ?R
    unfolding distinct_conv_nth
  proof (intro allI impI)
    have later: "xs ! left \<noteq> xs ! right" if "right < length xs" "left < right" for left right
      using l that by (simp add: list_all_iff)
    fix i j assume "i < length xs" "j < length xs" "i \<noteq> j"
    then show "xs ! i \<noteq> xs ! j" using later [of i j] later [of j i] by (metis linorder_neqE_nat)
  qed
next
  assume ?R
  then show ?L by (auto simp: list_all_iff nth_eq_iff_index_eq)
qed

lemma runs_members:
  assumes "tap \<in> set (tap_runs shapes rs combos)" "length combos = length rs"
  shows "\<exists>r \<in> set rs. \<exists>c \<in> set combos. tap \<in> set (tap_run shapes r c)"
  using assms by (auto simp: tap_runs_def dest: set_zip_leftD set_zip_rightD)

lemma all_some: "list_all (\<lambda>s. s \<noteq> None) xs \<Longrightarrow> xs = map Some (map the xs)"
  by (induction xs) auto

lemma tap_table_sound:
  assumes "validate_taps taps = Inr ()" "length (ts_records taps) < usize_limit"
  shows "\<exists>shapes combos. tap_table taps shapes combos"
proof -
  let ?n = "unat (ts_combos_count taps)" and ?rs = "tap_registers (ts_group_sizes taps)"
  obtain position sh where each: "\<forall>tap \<in> set (ts_records taps). check_tap taps tap = Inr ()"
    and walk: "tap_walk (ts_records taps) 0 ?rs (replicate ?n None) = Inr (position, [], sh)"
    and some: "list_all (\<lambda>s. s \<noteq> None) sh" and distinct: "distinct sh"
    and total: "sum_list (map (\<lambda>s. length (the s)) sh) = unat (ts_total_combo_backs taps)"
    using assms(1) by (auto simp: validate_taps_def check_each_eq distinct_pairs Let_def)
  have "\<forall>tap \<in> set (ts_records taps). unat (tp_combo tap) < ?n \<and> 0 < tp_skip tap"
    using each by (auto simp: check_tap_def word_less_nat_alt)
  from walk_sound [OF walk _ _ assms(2) this]
  obtain combos where w: "length sh = ?n" "length combos = length ?rs" "set combos \<subseteq> {..<?n}"
    "\<forall>c \<in> set combos. \<exists>s. sh ! c = Some s \<and> shape_ok s"
    "\<forall>c < ?n. c \<notin> set combos \<longrightarrow> sh ! c = replicate ?n None ! c"
    "ts_records taps = tap_runs (map the sh) ?rs combos" by auto
  let ?shapes = "map the sh"
  have sh: "sh = map Some ?shapes" by (rule all_some [OF some])
  have used: "set combos = {..<?n}"
  proof -
    have "c \<in> set combos" if "c < ?n" for c
      using that w(1,5) some by (fastforce simp: list_all_length)
    then show ?thesis using w(3) by auto
  qed
  have "distinct ?shapes" using distinct sh by (metis distinct_map)
  moreover have "list_all shape_ok ?shapes"
  proof (unfold list_all_length, intro allI impI)
    fix i assume "i < length ?shapes"
    then obtain s where "sh ! i = Some s \<and> shape_ok s" using w(1,4) used by auto
    then show "shape_ok (?shapes ! i)" using \<open>i < length ?shapes\<close> by simp
  qed
  moreover have "sum_list (map length ?shapes) = unat (ts_total_combo_backs taps)"
    using total by (simp add: comp_def)
  ultimately have "tap_table taps ?shapes combos"
    using w used by (simp add: tap_table_def)
  then show ?thesis by blast
qed

lemma tap_table_complete:
  assumes table: "tap_table taps shapes combos" and groups: "length (ts_group_sizes taps) \<le> 256"
    and small: "length (ts_records taps) < usize_limit"
  shows "validate_taps taps = Inr ()"
proof -
  let ?n = "unat (ts_combos_count taps)" and ?rs = "tap_registers (ts_group_sizes taps)"
  have t: "length shapes = ?n" "length combos = length ?rs" "set combos = {..<?n}" "distinct shapes"
    "list_all shape_ok shapes" "sum_list (map length shapes) = unat (ts_total_combo_backs taps)"
    "ts_records taps = tap_runs shapes ?rs combos"
    using table by (simp_all add: tap_table_def)
  have n: "?n < 256" using unsigned_less [of "ts_combos_count taps"] by simp
  have each: "check_tap taps tap = Inr ()" if member: "tap \<in> set (ts_records taps)" for tap
  proof -
    obtain r c where rc: "r \<in> set ?rs" "c \<in> set combos" "tap \<in> set (tap_run shapes r c)"
      using runs_members [OF member [unfolded t(7)] t(2)] by blast
    have c: "c < ?n" using rc(2) t(3) by simp
    then have ok: "shape_ok (shapes ! c)" using t(1,5) by (simp add: list_all_length)
    have "(tp_group tap, tp_offset tap) = r" "unat (tp_combo tap) = c"
      "unat (tp_skip tap) = length (shapes ! c)"
      using tap_run_facts(4) [OF ok _ rc(3)] c n by simp_all
    moreover have "0 < length (shapes ! c)" using ok by (simp add: shape_ok_def)
    ultimately show ?thesis
      using register_ranges [OF groups rc(1)] c
      by (auto simp: check_tap_def word_less_nat_alt)
  qed
  obtain sh where walk: "tap_walk (ts_records taps) 0 ?rs (replicate ?n None)
      = Inr (length (ts_records taps), [], sh)" "length sh = ?n"
    "\<forall>c < ?n. sh ! c = Some (shapes ! c)"
    using walk_complete [of 0 "ts_records taps" shapes ?rs combos ?n "replicate ?n None"] t n small by auto
  have sh: "sh = map Some shapes" using walk(2,3) t(1) by (intro nth_equalityI) simp_all
  have "list_all (\<lambda>s. s \<noteq> None) sh" "distinct sh"
    "sum_list (map (\<lambda>s. length (the s)) sh) = unat (ts_total_combo_backs taps)"
    using t(4,6) by (simp_all add: sh distinct_map list_all_iff comp_def)
  then show ?thesis
    using each walk(1) by (simp add: validate_taps_def check_each_eq distinct_pairs Let_def)
qed

section \<open>Properties\<close>

text \<open>
  C33. The tap check is exact. A table with three groups is accepted exactly when there are as many combo
  shapes as declared, pairwise different, each a nonempty strictly increasing list of back offsets,
  of the declared total size, and one combo per register, every combo used, such that the table lists
  the registers in order, each as the run of its combo's shape.
\<close>

theorem tap_table_exact:
  "length (ts_group_sizes taps) = 3 \<and> length (ts_records taps) < usize_limit
      \<and> validate_taps taps = Inr () \<longleftrightarrow>
    length (ts_group_sizes taps) = 3 \<and> length (ts_records taps) < usize_limit
      \<and> (\<exists>shapes combos. tap_table taps shapes combos)"
  using tap_table_sound tap_table_complete by force

end
