(* ===== verification/B2Codec.thy ===== *)
theory B2Codec
  imports B2Artifact B2Taps Codec
begin

text \<open>
  The B2 artifact as a strict codec. The locale \<open>reader\<close> is the contract of the cursor's readers: a
  reader succeeds exactly on the encoding of a value and consumes it; each reader of the decoder is
  shown to keep it, so the decoder inverts the encoder. The histogram fixes how many operations of each
  kind there are and with that the length of an encoding.
\<close>

section \<open>What a cursor is about to read\<close>

definition front :: "Cursor \<Rightarrow> bytes \<Rightarrow> bool" where
  "front cu x \<longleftrightarrow>
     cu_position cu + length x \<le> length (cu_bytes cu)
     \<and> take (length x) (drop (cu_position cu) (cu_bytes cu)) = x"

definition advance :: "Cursor \<Rightarrow> nat \<Rightarrow> Cursor" where
  "advance cu n = cu\<lparr>cu_position := cu_position cu + n\<rparr>"

definition small :: "Cursor \<Rightarrow> bool" where
  "small cu \<longleftrightarrow> length (cu_bytes cu) < usize_limit"

lemma advance_simps [simp]:
  "cu_bytes (advance cu n) = cu_bytes cu"
  "cu_position (advance cu n) = cu_position cu + n"
  "small (advance cu n) = small cu"
  "advance (advance cu m) n = advance cu (m + n)"
  "advance cu 0 = cu"
  by (simp_all add: advance_def small_def add.assoc)

lemma front_append:
  "front cu (x @ y) \<longleftrightarrow> front cu x \<and> front (advance cu (length x)) y"
proof -
  let ?r = "drop (cu_position cu) (cu_bytes cu)"
  have "take (length x + length y) ?r = x @ y \<longleftrightarrow>
      take (length x) ?r = x \<and> take (length y) (drop (length x) ?r) = y"
    if "length x \<le> length ?r"
    using that unfolding take_add by (auto simp: append_eq_append_conv)
  then show ?thesis by (auto simp: front_def add.commute add.left_commute)
qed

lemma front_Cons: "front cu (b # x) \<longleftrightarrow> front cu [b] \<and> front (advance cu 1) x"
  using front_append [of cu "[b]" x] by simp

lemma front_unique: "front cu x \<Longrightarrow> front cu y \<Longrightarrow> length x = length y \<Longrightarrow> x = y"
  by (simp add: front_def)

lemma cu_take_eq:
  "small cu \<Longrightarrow> cu_take n cu = Inr (bs, cu') \<longleftrightarrow> length bs = n \<and> front cu bs \<and> cu' = advance cu n"
  by (auto simp: cu_take_def front_def small_def slice_def advance_def)

lemma front_position: "front cu x \<Longrightarrow> cu_position cu + length x \<le> length (cu_bytes cu)"
  by (simp add: front_def)

text \<open>
  The contract of a reader: it succeeds exactly on the encoding of an admissible value, which it
  consumes. Two readers in sequence read the concatenation, so a composite reader inherits the
  contract from its parts.
\<close>

locale reader =
  fixes read :: "Cursor \<Rightarrow> B2Error + 'a \<times> Cursor" and enc :: "'a \<Rightarrow> bytes" and ok :: "'a \<Rightarrow> bool"
  assumes read_eq:
    "small cu \<Longrightarrow> read cu = Inr (v, cu') \<longleftrightarrow>
      ok v \<and> front cu (enc v) \<and> cu' = advance cu (length (enc v))"
begin

lemma many_eq:
  "small cu \<Longrightarrow> cu_position cu \<le> length (cu_bytes cu) \<Longrightarrow> cu_many read n cu = Inr (vs, cu') \<longleftrightarrow>
    length vs = n \<and> list_all ok vs \<and> front cu (concat (map enc vs))
    \<and> cu' = advance cu (length (concat (map enc vs)))"
proof (induction n arbitrary: cu vs)
  case 0
  then show ?case by (auto simp: front_def)
next
  case (Suc n)
  show ?case
  proof (cases vs)
    case Nil
    then show ?thesis by auto
  next
    case (Cons w ws)
    have "cu_many read (Suc n) cu = Inr (w # ws, cu') \<longleftrightarrow>
        ok w \<and> front cu (enc w) \<and> cu_many read n (advance cu (length (enc w))) = Inr (ws, cu')"
      using Suc.prems by (auto simp: read_eq)
    also have "\<dots> \<longleftrightarrow> ok w \<and> front cu (enc w) \<and> length ws = n \<and> list_all ok ws
        \<and> front (advance cu (length (enc w))) (concat (map enc ws))
        \<and> cu' = advance cu (length (enc w) + length (concat (map enc ws)))"
      using Suc.prems Suc.IH [of "advance cu (length (enc w))" ws]
      by (auto simp: front_def simp del: length_concat)
    finally show ?thesis using Cons by (auto simp: front_append simp del: length_concat)
  qed
qed

lemma many_pos_eq:
  assumes "small cu" "0 < n"
  shows "cu_many read n cu = Inr (vs, cu') \<longleftrightarrow>
    length vs = n \<and> list_all ok vs \<and> front cu (concat (map enc vs))
    \<and> cu' = advance cu (length (concat (map enc vs)))"
proof (cases "cu_position cu \<le> length (cu_bytes cu)")
  case True
  with assms show ?thesis by (intro many_eq)
next
  case False
  then have "\<not> front cu x" for x using front_position [of cu x] by auto
  moreover from this have "read cu \<noteq> Inr (v, cu'')" for v cu'' using assms by (simp add: read_eq)
  ultimately show ?thesis using assms(2) by (cases n) auto
qed

end

lemma read_u8_eq:
  "small cu \<Longrightarrow> cu_u8 cu = Inr (v, cu') \<longleftrightarrow> front cu [v] \<and> cu' = advance cu 1"
  by (auto simp: cu_u8_def cu_take_eq length_Suc_conv)

lemma read_u16_eq:
  "small cu \<Longrightarrow> cu_u16 cu = Inr (v, cu') \<longleftrightarrow> front cu (u16_to_le v) \<and> cu' = advance cu 2"
  by (auto simp: cu_u16_def cu_take_eq intro: exI [of _ "u16_to_le v"])

lemma read_u32_eq:
  "small cu \<Longrightarrow> cu_u32 cu = Inr (v, cu') \<longleftrightarrow> front cu (u32_to_le v) \<and> cu' = advance cu 4"
  by (auto simp: cu_u32_def cu_take_eq intro: exI [of _ "u32_to_le v"])

interpretation u8: reader cu_u8 "\<lambda>v. [v]" "\<lambda>_. True"
  by unfold_locales (simp add: read_u8_eq)

interpretation u32: reader cu_u32 u32_to_le "\<lambda>_. True"
  by unfold_locales (simp add: read_u32_eq)

lemma read_ascii_eq:
  "small cu \<Longrightarrow> cu_ascii n cu = Inr (bs, cu') \<longleftrightarrow>
    length bs = n \<and> list_all (\<lambda>b. b < 0x80) bs \<and> front cu bs \<and> cu' = advance cu n"
  by (auto simp: cu_ascii_def cu_take_eq ascii_is_utf8)

lemmas read_simps = read_u8_eq read_u16_eq read_u32_eq read_ascii_eq

lemma read_tap_eq:
  "small cu \<Longrightarrow> read_tap cu = Inr (tap, cu') \<longleftrightarrow>
    front cu (encode_tap tap) \<and> cu' = advance cu (length (encode_tap tap))"
  by (cases tap)
    (auto simp: read_tap_def read_simps encode_tap_def front_Cons [of _ _ "_ # _"])

interpretation tap: reader read_tap encode_tap "\<lambda>_. True"
  by unfold_locales (simp add: read_tap_eq)

definition op_tag :: "PolyExtOp \<Rightarrow> u8" where
  "op_tag op = hd (encode_op op)"

definition op_args :: "PolyExtOp \<Rightarrow> bytes" where
  "op_args op = tl (encode_op op)"

lemma op_tag_args: "encode_op op = op_tag op # op_args op"
  by (cases op) (simp_all add: op_tag_def op_args_def encode_op_def)

lemma op_tag_simps:
  "op_tag (OpConst v) = 0" "op_tag (OpConstExt a b c d) = 1" "op_tag (OpGet w) = 2"
  "op_tag (OpGetGlobal e f) = 3" "op_tag (OpAdd e f) = 4" "op_tag (OpSub e f) = 5"
  "op_tag (OpMul e f) = 6" "op_tag OpTrue = 7" "op_tag (OpAndEqz e f) = 8" "op_tag (OpAndCond e f g) = 9"
  by (simp_all add: op_tag_def encode_op_def)

lemma op_args_simps:
  "op_args (OpConst v) = u32_to_le v"
  "op_args (OpConstExt a b c d) = u32_to_le a @ u32_to_le b @ u32_to_le c @ u32_to_le d"
  "op_args (OpGet w) = u16_to_le w" "op_args (OpGetGlobal e f) = u16_to_le e @ u16_to_le f"
  "op_args (OpAdd e f) = u16_to_le e @ u16_to_le f" "op_args (OpSub e f) = u16_to_le e @ u16_to_le f"
  "op_args (OpMul e f) = u16_to_le e @ u16_to_le f" "op_args OpTrue = []"
  "op_args (OpAndEqz e f) = u16_to_le e @ u16_to_le f"
  "op_args (OpAndCond e f g) = u16_to_le e @ u16_to_le f @ u16_to_le g"
  by (simp_all add: op_args_def encode_op_def)

lemma read_pair_eq:
  "small cu \<Longrightarrow> read_pair con cu = Inr (op, cu') \<longleftrightarrow>
    (\<exists>a b. op = con a b \<and> front cu (u16_to_le a @ u16_to_le b) \<and> cu' = advance cu 4)"
  by (auto simp: read_pair_def read_simps front_append)

lemma read_op_args_eq:
  "small cu \<Longrightarrow> cu_position cu \<le> length (cu_bytes cu) \<Longrightarrow> read_op_args tag cu = Inr (op, cu') \<longleftrightarrow>
    tag = op_tag op \<and> front cu (op_args op) \<and> cu' = advance cu (length (op_args op))"
  by (cases op)
    (auto simp: read_op_args_def read_simps read_pair_eq op_tag_simps op_args_simps front_append
      front_def [of _ "[]"] split: if_splits)

lemma read_op_eq:
  assumes "small cu"
  shows "read_op cu = Inr (op, cu') \<longleftrightarrow>
    front cu (encode_op op) \<and> cu' = advance cu (length (encode_op op))"
proof -
  have args: "read_op_args tag (advance cu 1) = Inr (op, cu') \<longleftrightarrow>
      tag = op_tag op \<and> front (advance cu 1) (op_args op) \<and> cu' = advance cu (1 + length (op_args op))"
    if "front cu [tag]" for tag
    using assms front_position [OF that] by (subst read_op_args_eq) simp_all
  have "read_op cu = Inr (op, cu') \<longleftrightarrow>
      (\<exists>tag. front cu [tag] \<and> read_op_args tag (advance cu 1) = Inr (op, cu'))"
    using assms by (auto simp: read_op_def read_u8_eq)
  also have "\<dots> \<longleftrightarrow> front cu [op_tag op] \<and> front (advance cu 1) (op_args op)
      \<and> cu' = advance cu (1 + length (op_args op))"
    using args by blast
  finally show ?thesis using front_append [of cu "[op_tag op]" "op_args op"] by (simp add: op_tag_args)
qed

interpretation op: reader read_op encode_op "\<lambda>_. True"
  by unfold_locales (simp add: read_op_eq)


section \<open>The header\<close>

lemma read_field_eq:
  "small cu \<Longrightarrow> read_field cu = Inr (bb, cu') \<longleftrightarrow>
    bb_reverse_roots bb = [] \<and> bb_extension_coefficient_remap bb = [] \<and> bb_extension_challenge_scale bb = 0
    \<and> front cu (header_field bb) \<and> cu' = advance cu 10"
  by (cases bb) (auto simp: read_field_def read_simps header_field_def front_append front_Cons [of _ _ "_ # _"]
      front_Cons [of _ _ "_ @ _"])

lemma read_poseidon_eq:
  "small cu \<Longrightarrow> read_poseidon cu = Inr ((p2, r, d), cu') \<longleftrightarrow>
    p2_round_constants p2 = [] \<and> p2_internal_diagonal p2 = []
    \<and> front cu (header_poseidon p2 r d) \<and> cu' = advance cu 9"
  by (cases p2) (auto simp: read_poseidon_def read_simps header_poseidon_def front_append
      front_Cons [of _ _ "_ # _"] front_Cons [of _ _ "_ @ _"])

lemma read_stark_eq:
  "small cu \<Longrightarrow> read_stark cu = Inr (sk, cu') \<longleftrightarrow> front cu (header_stark sk) \<and> cu' = advance cu 9"
  by (cases sk) (auto simp: read_stark_def read_simps header_stark_def front_append
      front_Cons [of _ _ "_ # _"] front_Cons [of _ _ "_ @ _"])

lemma concat_singletons: "concat (map (\<lambda>v. [v]) xs) = xs"
  by (induction xs) simp_all

lemma read_bytes_eq:
  "small cu \<Longrightarrow> 0 < n \<Longrightarrow> cu_many cu_u8 n cu = Inr (vs, cu') \<longleftrightarrow>
    length vs = n \<and> front cu vs \<and> cu' = advance cu n"
  by (auto simp: u8.many_pos_eq concat_singletons list_all_iff)

lemma read_program_header_eq:
  "small cu \<Longrightarrow> read_program_header cu = Inr ((px, n), cu') \<longleftrightarrow>
    px_histogram px = Map.empty \<and> px_operations px = []
    \<and> front cu (header_program px n) \<and> cu' = advance cu 8"
  by (cases px) (auto simp: read_program_header_def read_simps header_program_def front_append)

lemma read_taps_header_eq:
  "small cu \<Longrightarrow> read_taps_header cu = Inr ((ts, n), cu') \<longleftrightarrow>
    ts_records ts = [] \<and> length (ts_group_sizes ts) = 3 \<and> front cu (header_taps ts n)
    \<and> cu' = advance cu 8"
  by (cases ts) (auto simp: read_taps_header_def read_simps read_bytes_eq header_taps_def front_append
      front_Cons [of _ _ "_ # _"] front_Cons [of _ _ "_ @ _"])

definition info_bytes :: "u8 list \<Rightarrow> u8 \<Rightarrow> ProtocolInfoData \<Rightarrow> u8 \<Rightarrow> u8 \<Rightarrow> bytes" where
  "info_bytes remap scale info pl cl =
     remap @ [0, 1, 2] @ [pl, cl, 5, scale] @ pi_proof_system info @ pi_circuit info"

lemma read_info_eq:
  "small cu \<Longrightarrow> read_info cu = Inr ((remap, scale, info), cu') \<longleftrightarrow>
    (\<exists>pl cl. length remap = 4 \<and> unat pl = length (pi_proof_system info)
      \<and> unat cl = length (pi_circuit info)
      \<and> list_all (\<lambda>b. b < 0x80) (pi_proof_system info) \<and> list_all (\<lambda>b. b < 0x80) (pi_circuit info)
      \<and> front cu (info_bytes remap scale info pl cl)
      \<and> cu' = advance cu (length (info_bytes remap scale info pl cl)) \<and> cu_position cu' = HEADER_BYTES)"
  by (cases info) (auto simp: read_info_def read_simps read_bytes_eq info_bytes_def front_append
      front_Cons [of _ _ "_ # _"] front_Cons [of _ _ "_ @ _"] add.assoc, metis+)

section \<open>Operations\<close>

lemma read_ops_eq:
  "small cu \<Longrightarrow> cu_position cu \<le> length (cu_bytes cu) \<Longrightarrow> read_ops taps fp mix n cu = Inr (ops, cu') \<longleftrightarrow>
    length ops = n \<and> is_ok (check_operations taps fp mix ops) \<and> front cu (concat (map encode_op ops))
    \<and> cu' = advance cu (length (concat (map encode_op ops)))"
proof (induction n arbitrary: cu ops fp mix)
  case 0
  then show ?case by (auto simp: front_def)
next
  case (Suc n)
  show ?case
  proof (cases ops)
    case Nil
    then show ?thesis by auto
  next
    case (Cons op ops')
    let ?cu = "advance cu (length (encode_op op))"
    let ?fp = "if is_mix op then fp else fp + 1" and ?mix = "if is_mix op then mix + 1 else mix"
    have "read_ops taps fp mix (Suc n) cu = Inr (op # ops', cu') \<longleftrightarrow>
        front cu (encode_op op) \<and> validate_op_references op fp mix taps = Inr ()
        \<and> read_ops taps ?fp ?mix n ?cu = Inr (ops', cu')"
      using Suc.prems by (auto simp: read_op_eq)
    also have "\<dots> \<longleftrightarrow> front cu (encode_op op) \<and> validate_op_references op fp mix taps = Inr ()
        \<and> length ops' = n \<and> is_ok (check_operations taps ?fp ?mix ops')
        \<and> front ?cu (concat (map encode_op ops'))
        \<and> cu' = advance cu (length (encode_op op) + length (concat (map encode_op ops')))"
      using Suc.prems Suc.IH [of ?cu ?fp ?mix ops']
      by (auto simp: front_def simp del: length_concat)
    finally show ?thesis
      using Cons by (auto simp: front_append is_ok_iff simp del: length_concat)
  qed
qed


section \<open>The artifact\<close>

definition artifact_bytes :: "ConstantsArtifact \<Rightarrow> bytes" where
  "artifact_bytes a =
     header_field (ca_baby_bear a)
     @ header_poseidon (ca_poseidon2 a) (word_of_nat (length (p2_round_constants (ca_poseidon2 a))))
         (word_of_nat (length (p2_internal_diagonal (ca_poseidon2 a))))
     @ header_stark (ca_stark a)
     @ header_taps (ca_taps a) (word_of_nat (length (ts_records (ca_taps a))))
     @ header_program (ca_poly_ext a) (word_of_nat (length (px_operations (ca_poly_ext a))))
     @ header_info (ca_baby_bear a) (ca_protocol_info a)
     @ encode_tables a"

lemma validated_shapes:
  assumes "b2_validate a = Inr ()"
  shows "ca_upstream_commit a = B2_RISC0_COMMIT"
    "length (bb_reverse_roots (ca_baby_bear a)) = 28"
    "bb_extension_coefficient_remap (ca_baby_bear a) = [0, 2, 1, 3]"
    "length (p2_round_constants (ca_poseidon2 a)) = 213"
    "length (p2_internal_diagonal (ca_poseidon2 a)) = 24"
    "pi_proof_system (ca_protocol_info a) = PROOF_SYSTEM_INFO"
    "pi_circuit (ca_protocol_info a) = CIRCUIT_INFO"
    "ts_group_sizes (ca_taps a) = [12, 23, 128]"
    "length (ts_records (ca_taps a)) = 643"
    "length (px_operations (ca_poly_ext a)) = 12359"
    "px_histogram (ca_poly_ext a) = histogram (px_operations (ca_poly_ext a))"
    "histogram (px_operations (ca_poly_ext a)) = map_of EXPECTED_HISTOGRAM"
    "check_operations 643 0 0 (px_operations (ca_poly_ext a)) = Inr (11130, 1229)"
    "validate_taps (ca_taps a) = Inr ()"
  using assms
  by (auto simp: b2_validate_def validate_field_data_def validate_parameters_def validate_program_def
      ROOT_COUNT_def POSEIDON_ROUND_CONSTANTS_def POSEIDON_DIAGONAL_CONSTANTS_def TAP_COUNT_def
      OP_COUNT_def FIELD_VARS_def MIX_VARS_def Let_def split: prod.splits)

lemma info_lengths [simp]: "length PROOF_SYSTEM_INFO = 16" "length CIRCUIT_INFO = 16"
  by (simp_all add: PROOF_SYSTEM_INFO_def CIRCUIT_INFO_def)

lemma info_ascii:
  "list_all (\<lambda>b. b < 0x80) PROOF_SYSTEM_INFO" "list_all (\<lambda>b. b < 0x80) CIRCUIT_INFO"
  unfolding PROOF_SYSTEM_INFO_def CIRCUIT_INFO_def by code_simp+

text \<open>For readers of possibly empty tables the cursor must not stand beyond the end.\<close>

definition cursor_ok :: "Cursor \<Rightarrow> bool" where
  "cursor_ok cu \<longleftrightarrow> small cu \<and> cu_position cu \<le> length (cu_bytes cu)"

lemma cursor_ok_advance: "cursor_ok cu \<Longrightarrow> front cu x \<Longrightarrow> cursor_ok (advance cu (length x))"
  by (simp add: cursor_ok_def front_def)

lemma advance_add: "advance cu (m + n) = advance (advance cu m) n"
  by simp

lemma u32_many_eq:
  "cursor_ok cu \<Longrightarrow> cu_many cu_u32 n cu = Inr (vs, cu') \<longleftrightarrow>
    length vs = n \<and> front cu (concat (map u32_to_le vs))
    \<and> cu' = advance cu (length (concat (map u32_to_le vs)))"
  by (auto simp: u32.many_eq list_all_iff cursor_ok_def)

lemma tap_many_eq:
  "cursor_ok cu \<Longrightarrow> cu_many read_tap n cu = Inr (vs, cu') \<longleftrightarrow>
    length vs = n \<and> front cu (concat (map encode_tap vs))
    \<and> cu' = advance cu (length (concat (map encode_tap vs)))"
  by (auto simp: tap.many_eq list_all_iff cursor_ok_def)

lemma ops_eq:
  "cursor_ok cu \<Longrightarrow> read_ops taps fp mix n cu = Inr (ops, cu') \<longleftrightarrow>
    length ops = n \<and> is_ok (check_operations taps fp mix ops) \<and> front cu (concat (map encode_op ops))
    \<and> cu' = advance cu (length (concat (map encode_op ops)))"
  by (rule read_ops_eq) (simp_all add: cursor_ok_def)

definition tables_bytes :: "u32 list \<Rightarrow> u32 list \<Rightarrow> u32 list \<Rightarrow> Tap list \<Rightarrow> PolyExtOp list \<Rightarrow> bytes" where
  "tables_bytes roots constants internal records operations =
     concat (map u32_to_le roots) @ concat (map u32_to_le constants) @ concat (map u32_to_le internal)
     @ concat (map encode_tap records) @ concat (map encode_op operations)"

lemma read_tables_eq:
  assumes "cursor_ok cu"
  shows "read_tables rounds diagonal taps ops cu
      = Inr ((roots, constants, internal, records, operations), cu') \<longleftrightarrow>
    length roots = 28 \<and> length constants = rounds \<and> length internal = diagonal \<and> length records = taps
    \<and> length operations = ops \<and> is_ok (check_operations taps 0 0 operations)
    \<and> front cu (tables_bytes roots constants internal records operations)
    \<and> cu' = advance cu (length (tables_bytes roots constants internal records operations))"
  using assms
  by (auto simp: read_tables_def ROOT_COUNT_def u32_many_eq tap_many_eq ops_eq tables_bytes_def
      front_append cursor_ok_advance advance_add cong: conj_cong simp del: length_concat advance_simps(4))

lemma decode_steps:
  "b2_decode bytes = Inr a \<longleftrightarrow>
    (\<exists>bb cu1 p2 r d cu2 sk cu3 ts tc cu4 px oc cu5 remap scale info cu6 tables cu7.
       length bytes = ARTIFACT_BYTES
       \<and> read_field (cu_new bytes) = Inr (bb, cu1) \<and> read_poseidon cu1 = Inr ((p2, r, d), cu2)
       \<and> read_stark cu2 = Inr (sk, cu3) \<and> read_taps_header cu3 = Inr ((ts, tc), cu4)
       \<and> read_program_header cu4 = Inr ((px, oc), cu5) \<and> read_info cu5 = Inr ((remap, scale, info), cu6)
       \<and> read_tables (unat r) (unat d) (unat tc) (unat oc) cu6 = Inr (tables, cu7)
       \<and> cu_position cu7 = length bytes
       \<and> b2_validate (assemble bb p2 sk ts px remap scale info tables) = Inr ()
       \<and> assemble bb p2 sk ts px remap scale info tables = a)"
  by (simp add: b2_decode_def Let_def split_paired_Ex)

lemma length_headers:
  "length (header_field bb) = 10" "length (header_poseidon p2 r d) = 9" "length (header_stark sk) = 9"
  "length (ts_group_sizes ts) = 3 \<Longrightarrow> length (header_taps ts n) = 8" "length (header_program px n) = 8"
  by (simp_all add: header_field_def header_poseidon_def header_stark_def header_taps_def
      header_program_def)

lemma unat_u8_sixteen: "unat (w :: u8) = 16 \<longleftrightarrow> w = 16"
  by (simp add: word_unat_eq_iff)

lemma front_whole: "front (cu_new bytes) x \<Longrightarrow> length x = length bytes \<Longrightarrow> x = bytes"
  by (simp add: front_def cu_new_def)

text \<open>The header as its six readers consume it.\<close>

definition read_bytes_of_header ::
  "BabyBearData \<Rightarrow> Poseidon2Data \<Rightarrow> u16 \<Rightarrow> u8 \<Rightarrow> StarkData \<Rightarrow> TapDataSet \<Rightarrow> u16 \<Rightarrow> PolyExtData \<Rightarrow> u16
     \<Rightarrow> u8 list \<Rightarrow> u8 \<Rightarrow> ProtocolInfoData \<Rightarrow> u8 \<Rightarrow> u8 \<Rightarrow> bytes" where
  "read_bytes_of_header bb p2 r d sk ts tc px oc remap scale info pl cl =
     header_field bb @ header_poseidon p2 r d @ header_stark sk @ header_taps ts tc @ header_program px oc
     @ info_bytes remap scale info pl cl"

lemma header_steps:
  assumes "small cu"
    and "read_field cu = Inr (bb, cu1)" "read_poseidon cu1 = Inr ((p2, r, d), cu2)"
      "read_stark cu2 = Inr (sk, cu3)" "read_taps_header cu3 = Inr ((ts, tc), cu4)"
      "read_program_header cu4 = Inr ((px, oc), cu5)" "read_info cu5 = Inr ((remap, scale, info), cu6)"
  shows "\<exists>pl cl. front cu (read_bytes_of_header bb p2 r d sk ts tc px oc remap scale info pl cl)
      \<and> cu6 = advance cu (length (read_bytes_of_header bb p2 r d sk ts tc px oc remap scale info pl cl))
      \<and> unat pl = length (pi_proof_system info) \<and> unat cl = length (pi_circuit info)"
proof -
  have s1: "front cu (header_field bb)" "cu1 = advance cu 10"
    using assms(1,2) by (simp_all add: read_field_eq)
  have s2: "front cu1 (header_poseidon p2 r d)" "cu2 = advance cu1 9"
    using assms(1,3) s1 by (simp_all add: read_poseidon_eq)
  have s3: "front cu2 (header_stark sk)" "cu3 = advance cu2 9"
    using assms(1,4) s1 s2 by (simp_all add: read_stark_eq)
  have s4: "front cu3 (header_taps ts tc)" "cu4 = advance cu3 8" "length (ts_group_sizes ts) = 3"
    using assms(1,5) s1 s2 s3 by (simp_all add: read_taps_header_eq)
  have s5: "front cu4 (header_program px oc)" "cu5 = advance cu4 8"
    using assms(1,6) s1 s2 s3 s4 by (simp_all add: read_program_header_eq)
  have "small cu5" using assms(1) s1 s2 s3 s4 s5 by simp
  then obtain pl cl where "front cu5 (info_bytes remap scale info pl cl)"
    "cu6 = advance cu5 (length (info_bytes remap scale info pl cl))"
    "unat pl = length (pi_proof_system info)" "unat cl = length (pi_circuit info)"
    using assms(7) by (auto simp: read_info_eq)
  then show ?thesis
    using s1 s2 s3 s4 s5
    by (intro exI [of _ pl] exI [of _ cl])
      (simp add: read_bytes_of_header_def front_append length_headers)
qed

lemma decode_sound:
  assumes "b2_decode bytes = Inr a"
  shows "b2_validate a = Inr () \<and> bytes = artifact_bytes a \<and> length bytes = ARTIFACT_BYTES"
proof -
  obtain bb cu1 p2 r d cu2 sk cu3 ts tc cu4 px oc cu5 remap scale info cu6 roots constants internal
      records operations cu7 where len: "length bytes = ARTIFACT_BYTES"
    and steps: "read_field (cu_new bytes) = Inr (bb, cu1)" "read_poseidon cu1 = Inr ((p2, r, d), cu2)"
      "read_stark cu2 = Inr (sk, cu3)" "read_taps_header cu3 = Inr ((ts, tc), cu4)"
      "read_program_header cu4 = Inr ((px, oc), cu5)" "read_info cu5 = Inr ((remap, scale, info), cu6)"
    and tables: "read_tables (unat r) (unat d) (unat tc) (unat oc) cu6
        = Inr ((roots, constants, internal, records, operations), cu7)"
    and stop: "cu_position cu7 = length bytes"
    and valid: "b2_validate (assemble bb p2 sk ts px remap scale info
        (roots, constants, internal, records, operations)) = Inr ()"
    and a: "assemble bb p2 sk ts px remap scale info (roots, constants, internal, records, operations) = a"
    using assms unfolding decode_steps split_paired_Ex by (elim exE conjE) (rule that; assumption)
  have small: "small (cu_new bytes)" using len
    by (simp add: small_def cu_new_def ARTIFACT_BYTES_def usize_limit_def)
  obtain pl cl where h: "front (cu_new bytes) (read_bytes_of_header bb p2 r d sk ts tc px oc remap scale info pl cl)"
    "cu6 = advance (cu_new bytes)
      (length (read_bytes_of_header bb p2 r d sk ts tc px oc remap scale info pl cl))"
    "unat pl = length (pi_proof_system info)" "unat cl = length (pi_circuit info)"
    using header_steps [OF small steps] by blast
  have ok: "cursor_ok cu6"
    unfolding h(2) by (rule cursor_ok_advance [OF _ h(1)]) (use small in \<open>simp add: cursor_ok_def cu_new_def\<close>)
  have t: "length constants = unat r" "length internal = unat d" "length records = unat tc"
    "length operations = unat oc" "front cu6 (tables_bytes roots constants internal records operations)"
    "cu7 = advance cu6 (length (tables_bytes roots constants internal records operations))"
    using tables ok by (simp_all add: read_tables_eq)
  have "bytes = read_bytes_of_header bb p2 r d sk ts tc px oc remap scale info pl cl
      @ tables_bytes roots constants internal records operations" (is "_ = ?all")
  proof (rule front_whole [symmetric])
    show "front (cu_new bytes) ?all" using h(1,2) t(5) by (simp add: front_append)
    show "length ?all = length bytes" using stop h(2) t(6) by (simp add: cu_new_def)
  qed
  moreover have "pl = 16" "cl = 16"
    using h(3,4) validated_shapes(6,7) [OF valid]
    by (simp_all add: assemble_def unat_u8_sixteen)
  ultimately show ?thesis
    using valid t(1-4) a len
    by (auto simp: artifact_bytes_def read_bytes_of_header_def tables_bytes_def assemble_def encode_tables_def
        header_field_def header_poseidon_def header_stark_def header_taps_def header_program_def
        header_info_def info_bytes_def)
qed


section \<open>The length of an encoding\<close>

definition occurrences :: "string \<Rightarrow> PolyExtOp list \<Rightarrow> nat" where
  "occurrences name ops = length (filter (\<lambda>op. op_name op = name) ops)"

lemma histogram_fold:
  "fold (\<lambda>op. count_name (op_name op)) ops h name =
    (if occurrences name ops = 0 then h name
     else Some ((case h name of Some n \<Rightarrow> n | None \<Rightarrow> 0) + occurrences name ops))"
  by (induction ops arbitrary: h) (auto simp: occurrences_def count_name_def split: option.split)

lemma histogram_count:
  "histogram ops name = Some n \<Longrightarrow> occurrences name ops = n"
  by (auto simp: histogram_def Let_def histogram_fold split: option.splits if_splits)

lemma ops_length:
  "length (concat (map encode_op ops)) =
    5 * (occurrences ''Const'' ops + occurrences ''GetGlobal'' ops + occurrences ''Add'' ops
         + occurrences ''Sub'' ops + occurrences ''Mul'' ops + occurrences ''AndEqz'' ops)
    + 17 * occurrences ''ConstExt'' ops + 3 * occurrences ''Get'' ops + occurrences ''True'' ops
    + 7 * occurrences ''AndCond'' ops"
proof (induction ops)
  case Nil
  then show ?case by (simp add: occurrences_def)
next
  case (Cons op ops)
  then show ?case by (cases op) (simp_all add: occurrences_def encode_op_def op_name_def)
qed

lemma length_tables:
  "length (concat (map u32_to_le vs)) = 4 * length vs" "length (concat (map encode_tap ts)) = 5 * length ts"
  by (induction vs, simp_all, induction ts, simp_all add: encode_tap_def)

lemma artifact_length:
  assumes "b2_validate a = Inr ()"
  shows "length (artifact_bytes a) = ARTIFACT_BYTES"
proof -
  note v = validated_shapes [OF assms]
  have n: "occurrences name (px_operations (ca_poly_ext a)) = n"
    if "map_of EXPECTED_HISTOGRAM name = Some n" for name n
    using that histogram_count v(12) by simp
  have "length (concat (map encode_op (px_operations (ca_poly_ext a)))) = 60757"
    unfolding ops_length
    by (simp add: n [where name = "''Const''"] n [where name = "''GetGlobal''"] n [where name = "''Add''"]
      n [where name = "''Sub''"] n [where name = "''Mul''"] n [where name = "''AndEqz''"]
      n [where name = "''ConstExt''"] n [where name = "''Get''"] n [where name = "''True''"]
      n [where name = "''AndCond''"] EXPECTED_HISTOGRAM_def)
  then show ?thesis
    using v(2-10)
    by (simp add: artifact_bytes_def encode_tables_def length_headers header_info_def length_tables
        ARTIFACT_BYTES_def del: length_concat)
qed


section \<open>Exactness\<close>

lemma front_start: "front (cu_new (x @ y)) x"
  by (simp add: front_def cu_new_def)

lemma decode_complete:
  assumes valid: "b2_validate a = Inr ()"
  shows "b2_decode (artifact_bytes a) = Inr a"
proof -
  note v = validated_shapes [OF valid]
  let ?bb = "ca_baby_bear a" and ?ps = "ca_poseidon2 a" and ?sk = "ca_stark a" and ?ts = "ca_taps a"
    and ?px = "ca_poly_ext a" and ?info = "ca_protocol_info a"
  let ?bbe = "?bb\<lparr>bb_reverse_roots := [], bb_extension_coefficient_remap := [], bb_extension_challenge_scale := 0\<rparr>"
    and ?pse = "?ps\<lparr>p2_round_constants := [], p2_internal_diagonal := []\<rparr>"
    and ?tse = "?ts\<lparr>ts_records := []\<rparr>"
    and ?pxe = "?px\<lparr>px_histogram := Map.empty, px_operations := []\<rparr>"
  let ?tables = "tables_bytes (bb_reverse_roots ?bb) (p2_round_constants ?ps) (p2_internal_diagonal ?ps)
      (ts_records ?ts) (px_operations ?px)"
  let ?cu = "cu_new (artifact_bytes a)"
  let ?info_bytes = "info_bytes [0, 2, 1, 3] (bb_extension_challenge_scale ?bb) ?info 16 16"
  have len: "length (artifact_bytes a) = ARTIFACT_BYTES" by (rule artifact_length [OF valid])
  have small: "small ?cu"
    using len by (simp add: small_def cu_new_def ARTIFACT_BYTES_def usize_limit_def)
  have bytes: "artifact_bytes a = header_field ?bb @ header_poseidon ?ps 213 24 @ header_stark ?sk
      @ header_taps ?ts 643 @ header_program ?px 12359 @ ?info_bytes @ ?tables"
    using v by (simp add: artifact_bytes_def encode_tables_def tables_bytes_def header_info_def info_bytes_def)
  have blank: "header_field ?bbe = header_field ?bb" "header_poseidon ?pse = header_poseidon ?ps"
    "header_taps ?tse = header_taps ?ts" "header_program ?pxe = header_program ?px"
    "length ?info_bytes = 43"
    using v(6,7) by (simp_all add: header_field_def header_poseidon_def header_taps_def header_program_def
        info_bytes_def fun_eq_iff)
  have "front ?cu (header_field ?bb @ header_poseidon ?ps 213 24 @ header_stark ?sk
      @ header_taps ?ts 643 @ header_program ?px 12359 @ ?info_bytes @ ?tables)"
    using front_start [of "artifact_bytes a" "[]"] unfolding bytes by simp
  then have f: "front ?cu (header_field ?bbe)" "front (advance ?cu 10) (header_poseidon ?pse 213 24)"
    "front (advance ?cu 19) (header_stark ?sk)" "front (advance ?cu 28) (header_taps ?tse 643)"
    "front (advance ?cu 36) (header_program ?pxe 12359)" "front (advance ?cu 44) ?info_bytes"
    "front (advance ?cu 87) ?tables"
    using v(8) blank by (simp_all add: front_append length_headers)
  have "read_field ?cu = Inr (?bbe, advance ?cu 10)" using f(1) small by (simp add: read_field_eq)
  moreover have "read_poseidon (advance ?cu 10) = Inr ((?pse, 213, 24), advance ?cu 19)"
    using f(2) small by (simp add: read_poseidon_eq)
  moreover have "read_stark (advance ?cu 19) = Inr (?sk, advance ?cu 28)"
    using f(3) small by (simp add: read_stark_eq)
  moreover have "read_taps_header (advance ?cu 28) = Inr ((?tse, 643), advance ?cu 36)"
    using f(4) small v(8) by (simp add: read_taps_header_eq)
  moreover have "read_program_header (advance ?cu 36) = Inr ((?pxe, 12359), advance ?cu 44)"
    using f(5) small by (simp add: read_program_header_eq)
  moreover have "read_info (advance ?cu 44)
      = Inr (([0, 2, 1, 3], bb_extension_challenge_scale ?bb, ?info), advance ?cu 87)"
    using f(6) small v(6,7) info_ascii
    by (auto simp: read_info_eq info_bytes_def cu_new_def HEADER_BYTES_def intro!: exI [of _ 16])
  moreover have "read_tables (unat (213 :: u16)) (unat (24 :: u8)) (unat (643 :: u16)) (unat (12359 :: u16))
        (advance ?cu 87)
      = Inr ((bb_reverse_roots ?bb, p2_round_constants ?ps, p2_internal_diagonal ?ps, ts_records ?ts,
           px_operations ?px), advance (advance ?cu 87) (length ?tables))"
    using f(7) small v front_position [OF f(7)] by (subst read_tables_eq) (simp_all add: cursor_ok_def)
  moreover have "cu_position (advance (advance ?cu 87) (length ?tables)) = length (artifact_bytes a)"
    using v by (simp add: bytes length_headers info_bytes_def cu_new_def)
  moreover have "assemble ?bbe ?pse ?sk ?tse ?pxe [0, 2, 1, 3] (bb_extension_challenge_scale ?bb) ?info
      (bb_reverse_roots ?bb, p2_round_constants ?ps, p2_internal_diagonal ?ps, ts_records ?ts,
       px_operations ?px) = a"
    using v(1,3,11) by (simp add: assemble_def)
  ultimately show ?thesis
    using len valid unfolding decode_steps by (intro exI conjI) (assumption | simp)+
qed

lemma encode_eq:
  "b2_encode a = (case b2_validate a of Inl e \<Rightarrow> Inl e | Inr u \<Rightarrow> Inr (artifact_bytes a))"
proof (cases "b2_validate a")
  case (Inl e)
  then show ?thesis by (simp add: b2_encode_def)
next
  case (Inr u)
  then have valid: "b2_validate a = Inr ()" by simp
  note v = validated_shapes [OF valid]
  have counts: "u16_try_from 213 = Some 213" "u8_try_from 24 = Some 24" "u16_try_from 643 = Some 643"
    "u16_try_from 12359 = Some 12359"
    by (simp_all add: try_from_counts)
  have "b2_encode a = Inr (artifact_bytes a)"
    using artifact_length [OF valid] v
    by (simp add: b2_encode_def counts valid artifact_bytes_def length_headers header_info_def HEADER_BYTES_def
        Let_def del: and_then_eq_Inr)
  with valid show ?thesis by simp
qed

lemma encode_eq_Inr: "b2_encode a = Inr bytes \<longleftrightarrow> b2_validate a = Inr () \<and> bytes = artifact_bytes a"
  by (auto simp: encode_eq split: sum.split)

lemma decode_eq_Inr: "b2_decode bytes = Inr a \<longleftrightarrow> b2_validate a = Inr () \<and> bytes = artifact_bytes a"
  using decode_sound decode_complete by blast

interpretation b2: fixed_codec b2_encode b2_decode "\<lambda>a. b2_validate a = Inr ()" ARTIFACT_BYTES
  by unfold_locales (auto simp: encode_eq_Inr decode_eq_Inr artifact_length)

section \<open>References of the constraint program\<close>

fun field_refs :: "PolyExtOp \<Rightarrow> u16 list" where
  "field_refs (OpAdd a b) = [a, b]"
| "field_refs (OpSub a b) = [a, b]"
| "field_refs (OpMul a b) = [a, b]"
| "field_refs (OpAndEqz chain inner) = [inner]"
| "field_refs (OpAndCond chain cond inner) = [cond]"
| "field_refs _ = []"

fun mix_refs :: "PolyExtOp \<Rightarrow> u16 list" where
  "mix_refs (OpAndEqz chain inner) = [chain]"
| "mix_refs (OpAndCond chain cond inner) = [chain, inner]"
| "mix_refs _ = []"

fun constants_of :: "PolyExtOp \<Rightarrow> u32 list" where
  "constants_of (OpConst v) = [v]"
| "constants_of (OpConstExt a b c d) = [a, b, c, d]"
| "constants_of _ = []"

fun leaf_ok :: "nat \<Rightarrow> PolyExtOp \<Rightarrow> bool" where
  "leaf_ok taps (OpGet tap) = (unat tap < taps)"
| "leaf_ok taps (OpGetGlobal g k) = (g = 0 \<and> unat k < 32 \<or> g = 1 \<and> unat k < 20)"
| "leaf_ok taps _ = True"

definition fields_before :: "PolyExtOp list \<Rightarrow> nat \<Rightarrow> nat" where
  "fields_before ops i = length (filter (\<lambda>op. \<not> is_mix op) (take i ops))"

definition mixes_before :: "PolyExtOp list \<Rightarrow> nat \<Rightarrow> nat" where
  "mixes_before ops i = length (filter is_mix (take i ops))"

lemma two_globals: "unat (g :: u16) < 2 \<longleftrightarrow> g = 0 \<or> g = 1"
proof -
  have "unat g < 2 \<longleftrightarrow> unat g = 0 \<or> unat g = 1" by auto
  then show ?thesis by (simp add: word_unat_eq_iff)
qed

lemma references_eq:
  "validate_op_references op fp mix taps = Inr u \<longleftrightarrow>
    list_all (\<lambda>v. unat v < fp) (field_refs op) \<and> list_all (\<lambda>v. unat v < mix) (mix_refs op)
    \<and> list_all (\<lambda>v. v < 2013265921) (constants_of op) \<and> leaf_ok taps op"
  by (cases op) (auto simp: validate_op_references_def field_ref_def mix_ref_def two_globals Let_def)

lemma check_operations_eq:
  "check_operations taps fp mix ops = Inr (fp', mix') \<longleftrightarrow>
    fp' = fp + fields_before ops (length ops) \<and> mix' = mix + mixes_before ops (length ops)
    \<and> (\<forall>i < length ops. validate_op_references (ops ! i) (fp + fields_before ops i)
         (mix + mixes_before ops i) taps = Inr ())"
proof (induction ops arbitrary: fp mix)
  case Nil
  then show ?case by (auto simp: fields_before_def mixes_before_def)
next
  case (Cons op ops)
  let ?fp = "if is_mix op then fp else fp + 1" and ?mix = "if is_mix op then mix + 1 else mix"
  have before: "fp + fields_before (op # ops) (Suc i) = ?fp + fields_before ops i"
    "mix + mixes_before (op # ops) (Suc i) = ?mix + mixes_before ops i" for i
    by (simp_all add: fields_before_def mixes_before_def)
  have first: "fields_before (op # ops) 0 = 0" "mixes_before (op # ops) 0 = 0"
    by (simp_all add: fields_before_def mixes_before_def)
  have "check_operations taps fp mix (op # ops) = Inr (fp', mix') \<longleftrightarrow>
      validate_op_references op fp mix taps = Inr () \<and> check_operations taps ?fp ?mix ops = Inr (fp', mix')"
    by auto
  then show ?case
    unfolding Cons.IH [of ?fp ?mix] length_Cons All_less_Suc2 before by (auto simp: first before)
qed

section \<open>An artifact\<close>

text \<open>
  Five combo shapes over 163 registers and a program of the census, with zero constants and references
  to the first result.
\<close>

definition sample_shapes :: "u8 list list" where
  "sample_shapes = [[0], [0, 1], [0, 1, 2], [0, 1, 2, 3], [0, 1, 2, 3, 4, 5, 6, 7, 8, 9]]"

definition sample_combos :: "nat list" where
  "sample_combos = [0, 1, 2, 4] @ replicate 3 0 @ replicate 156 3"

definition sample_taps :: TapDataSet where
  "sample_taps =
     \<lparr>ts_group_sizes = [12, 23, 128], ts_combos_count = 5, ts_total_combo_backs = 20,
      ts_records = tap_runs sample_shapes (tap_registers [12, 23, 128]) sample_combos\<rparr>"

definition sample_operations :: "PolyExtOp list" where
  "sample_operations =
     replicate 284 (OpConst 0) @ replicate 669 (OpGet 0) @ replicate 52 (OpGetGlobal 0 0)
     @ replicate 4061 (OpAdd 0 0) @ replicate 1385 (OpSub 0 0) @ replicate 4679 (OpMul 0 0)
     @ [OpTrue] @ replicate 1076 (OpAndEqz 0 0) @ replicate 152 (OpAndCond 0 0 0)"

definition sample_artifact :: ConstantsArtifact where
  "sample_artifact =
     \<lparr>ca_upstream_commit = B2_RISC0_COMMIT,
      ca_baby_bear =
        \<lparr>bb_modulus = 2013265921, bb_extension_degree = 4, bb_extension_beta = 11, bb_max_root_po2 = 27,
         bb_reverse_roots = replicate 28 0, bb_extension_coefficient_remap = [0, 2, 1, 3],
         bb_extension_challenge_scale = 3\<rparr>,
      ca_poseidon2 =
        \<lparr>p2_cells = 24, p2_rate = 16, p2_output_cells = 8, p2_rounds_half_full = 4, p2_rounds_partial = 21,
         p2_sbox_degree = 7, p2_round_constants = replicate 213 0, p2_internal_diagonal = replicate 24 0\<rparr>,
      ca_stark =
        \<lparr>sk_queries = 50, sk_inverse_rate = 4, sk_fri_fold = 16, sk_fri_fold_po2 = 4,
         sk_fri_min_degree = 256, sk_output_size = 32, sk_mix_size = 20, sk_check_size = 16\<rparr>,
      ca_protocol_info = \<lparr>pi_proof_system = PROOF_SYSTEM_INFO, pi_circuit = CIRCUIT_INFO\<rparr>,
      ca_taps = sample_taps,
      ca_poly_ext =
        \<lparr>px_field_variables = 11130, px_mix_variables = 1229, px_ret_mix_variable = 1228,
         px_histogram = map_of EXPECTED_HISTOGRAM, px_operations = sample_operations\<rparr>\<rparr>"

lemma length_tap_runs:
  "length combos = length rs \<Longrightarrow> length (tap_runs shapes rs combos) = sum_list (map (\<lambda>c. length (shapes ! c)) combos)"
  by (induction rs combos rule: list_induct2') (simp_all add: tap_runs_def tap_run_def)

lemma length_registers: "length (tap_registers [12, 23, 128]) = 163"
  by (simp add: tap_registers_def upt_rec)

lemma sample_taps_valid: "length (ts_records sample_taps) = 643" "validate_taps sample_taps = Inr ()"
proof -
  have combos: "length sample_combos = length (tap_registers [12, 23, 128])"
    by (simp add: length_registers sample_combos_def)
  show len: "length (ts_records sample_taps) = 643"
    by (simp add: sample_taps_def length_tap_runs [OF combos])
      (simp add: sample_combos_def sample_shapes_def sum_list_replicate)
  have set: "set sample_combos = {..<5}" by (auto simp: sample_combos_def)
  have "tap_table sample_taps sample_shapes sample_combos"
    using combos set
    by (simp add: tap_table_def sample_taps_def)
      (simp add: sample_shapes_def shape_ok_def)
  then show "validate_taps sample_taps = Inr ()"
    by (rule tap_table_complete) (simp_all add: len usize_limit_def, simp add: sample_taps_def)
qed

lemma check_operations_append:
  "check_operations taps fp mix (xs @ ys)
    = and_then (check_operations taps fp mix xs) (\<lambda>(fp, mix). check_operations taps fp mix ys)"
  by (induction xs arbitrary: fp mix) (auto simp: and_then_def split: sum.split)

lemma check_operations_replicate:
  assumes "\<And>fp' mix'. fp \<le> fp' \<Longrightarrow> mix \<le> mix' \<Longrightarrow> validate_op_references op fp' mix' taps = Inr ()"
  shows "check_operations taps fp mix (replicate n op)
    = Inr (if is_mix op then (fp, mix + n) else (fp + n, mix))"
  using assms
proof (induction n arbitrary: fp mix)
  case 0
  then show ?case by simp
next
  case (Suc n)
  have "validate_op_references op fp mix taps = Inr ()" using Suc.prems by simp
  then show ?case using Suc.IH [of fp "mix + 1"] Suc.IH [of "fp + 1" mix] Suc.prems by simp
qed

lemma sample_operations_valid:
  "check_operations 643 0 0 sample_operations = Inr (11130, 1229)"
proof -
  have true_ok: "validate_op_references OpTrue fp mix taps = Inr ()" for fp mix taps
    by (simp add: references_eq)
  then show ?thesis
    by (simp add: sample_operations_def check_operations_append check_operations_replicate references_eq
        is_mix_def true_ok del: and_then_eq_Inr)
qed

lemma sample_histogram: "histogram sample_operations = map_of EXPECTED_HISTOGRAM"
proof
  fix name
  have "histogram sample_operations name =
      (if occurrences name sample_operations = 0 then (if name = ''ConstExt'' then Some 0 else None)
       else Some (occurrences name sample_operations))"
    by (auto simp: histogram_def Let_def histogram_fold split: option.split)
  also have "\<dots> = map_of EXPECTED_HISTOGRAM name"
    by (simp add: occurrences_def sample_operations_def op_name_def EXPECTED_HISTOGRAM_def filter_replicate)
  finally show "histogram sample_operations name = map_of EXPECTED_HISTOGRAM name" .
qed

lemma sample_artifact_valid: "b2_validate sample_artifact = Inr ()"
  using sample_taps_valid sample_operations_valid sample_histogram
  by (simp add: b2_validate_def validate_field_data_def validate_parameters_def validate_program_def
      sample_artifact_def ROOT_COUNT_def POSEIDON_ROUND_CONSTANTS_def POSEIDON_DIAGONAL_CONSTANTS_def
      TAP_COUNT_def OP_COUNT_def FIELD_VARS_def MIX_VARS_def RET_MIX_VAR_def Let_def list_all_iff)
    (simp add: sample_taps_def sample_operations_def)

section \<open>Properties\<close>

text \<open>
  C3. The artifact codec is exact: bytes decode to an artifact exactly when the artifact encodes to
  them. Encoding fails only with the validator's error, so its two internal length checks and its count
  conversions cannot fail, and every encoding has 65,119 bytes.
\<close>

theorem b2_codec_exact:
  "(b2_decode bytes = Inr a \<longleftrightarrow> b2_encode a = Inr bytes)
   \<and> (case b2_encode a of
        Inr out \<Rightarrow> b2_validate a = Inr () \<and> length out = 65119
      | Inl e \<Rightarrow> b2_validate a = Inl e)"
  using b2.decode_eq_iff [of bytes a] artifact_length [of a]
  by (auto simp: encode_eq_Inr encode_eq ARTIFACT_BYTES_def split: sum.split)

text \<open>
  The constraint program of a decoded artifact is straight-line code: every operand is the result of
  an earlier operation of its kind, every tap and global is in range, every constant is reduced, and
  the declared result is the last mix value.
\<close>

theorem program_references_backward:
  assumes "b2_decode bytes = Inr a"
  shows "let ops = px_operations (ca_poly_ext a) in
    length ops = 12359 \<and> fields_before ops 12359 = unat (px_field_variables (ca_poly_ext a))
    \<and> mixes_before ops 12359 = unat (px_ret_mix_variable (ca_poly_ext a)) + 1
    \<and> (\<forall>i < 12359.
         list_all (\<lambda>v. unat v < fields_before ops i) (field_refs (ops ! i))
         \<and> list_all (\<lambda>v. unat v < mixes_before ops i) (mix_refs (ops ! i))
         \<and> list_all (\<lambda>v. v < 2013265921) (constants_of (ops ! i)) \<and> leaf_ok 643 (ops ! i))"
proof -
  have valid: "b2_validate a = Inr ()" using assms by (simp add: decode_eq_Inr)
  note v = validated_shapes [OF valid]
  have "unat (px_field_variables (ca_poly_ext a)) = 11130" "unat (px_ret_mix_variable (ca_poly_ext a)) = 1228"
    using valid by (auto simp: b2_validate_def validate_program_def FIELD_VARS_def RET_MIX_VAR_def Let_def)
  then show ?thesis
    using v(13) [unfolded check_operations_eq] v(10) by (simp add: references_eq Let_def)
qed

theorem program_references_backward_witness:
  "b2_decode (artifact_bytes sample_artifact) = Inr sample_artifact
   \<and> fields_before sample_operations 12359 = 11130"
proof -
  have d: "b2_decode (artifact_bytes sample_artifact) = Inr sample_artifact"
    by (rule decode_complete [OF sample_artifact_valid])
  from program_references_backward [OF d] d show ?thesis by (simp add: Let_def sample_artifact_def)
qed

end
