(* ===== verification/B2Seal.thy ===== *)
theory B2Seal
  imports B2Codec Seal
begin

text \<open>
  The authenticated entry point of the seal projection: \<open>derive_seal_semantic_projection\<close> of
  \<open>reproduction/src/seal.rs\<close> verifies the B2 artifact (\<open>constants_artifact.rs\<close>) and derives the
  projection from it.
\<close>

definition seal_parameters_of :: "ConstantsArtifact \<Rightarrow> SealParameters" where
  "seal_parameters_of b2 =
     \<lparr>b2_modulus = bb_modulus (ca_baby_bear b2),
      b2_extension_degree = bb_extension_degree (ca_baby_bear b2),
      b2_queries = sk_queries (ca_stark b2), b2_fri_fold = sk_fri_fold (ca_stark b2),
      b2_output_size = sk_output_size (ca_stark b2), b2_check_size = sk_check_size (ca_stark b2),
      b2_group_sizes = ts_group_sizes (ca_taps b2)\<rparr>"

datatype AuthorityError = ArtifactRefused B2Error | ProjectionRefused SealError

definition derive_seal_semantic_projection ::
  "(bytes \<Rightarrow> bytes) \<Rightarrow> (bytes \<Rightarrow> string) \<Rightarrow> bytes \<Rightarrow> AuthorityError + SealSemanticProjection" where
  "derive_seal_semantic_projection sha256 hex_encode b2_bytes =
     and_then (map_err ArtifactRefused (verify_canonical sha256 hex_encode b2_bytes)) (\<lambda>b2.
     map_err ProjectionRefused (derive_projection (seal_parameters_of b2)))"

lemma verify_canonical_eq:
  "verify_canonical sha256 hex_encode bytes = Inr a \<longleftrightarrow>
    b2_decode bytes = Inr a \<and> hex_encode (sha256 bytes) = ARTIFACT_SHA256"
  by (auto simp: verify_canonical_def Let_def decode_eq_Inr encode_eq_Inr)

lemma validated_parameters:
  assumes "b2_validate a = Inr ()"
  shows "frozen_parameters (seal_parameters_of a)" "b2_modulus (seal_parameters_of a) = 2013265921"
  using assms
  by (auto simp: b2_validate_def validate_field_data_def validate_parameters_def seal_parameters_of_def
      frozen_parameters_def Let_def)

section \<open>Properties\<close>

text \<open>
  C32. Authentication is the only way the seal projection can fail. It succeeds exactly on bytes that
  decode as an artifact and hash to the pinned identity; it then yields the frozen column widths, the
  seven role lists and the field modulus, independently of the artifact's tables, and a failure is
  always that of the artifact.
\<close>

theorem authenticated_projection:
  "(case derive_seal_semantic_projection sha256 hex_encode b2_bytes of
      Inr p \<Rightarrow> is_ok (b2_decode b2_bytes) \<and> hex_encode (sha256 b2_bytes) = ARTIFACT_SHA256
        \<and> p = \<lparr>pj_modulus = 2013265921, pj_opening_column_widths = [12, 23, 128, 16, 64, 64, 64],
               pj_words_by_role = map role_words all_roles\<rparr>
    | Inl e \<Rightarrow> \<not> (is_ok (b2_decode b2_bytes) \<and> hex_encode (sha256 b2_bytes) = ARTIFACT_SHA256)
        \<and> (\<exists>cause. e = ArtifactRefused cause \<and> verify_canonical sha256 hex_encode b2_bytes = Inl cause))"
proof (cases "verify_canonical sha256 hex_encode b2_bytes")
  case (Inl cause)
  then have "\<not> (is_ok (b2_decode b2_bytes) \<and> hex_encode (sha256 b2_bytes) = ARTIFACT_SHA256)"
    using verify_canonical_eq [of sha256 hex_encode b2_bytes] by (auto simp: is_ok_iff)
  with Inl show ?thesis by (simp add: derive_seal_semantic_projection_def)
next
  case (Inr a)
  then have a: "b2_decode b2_bytes = Inr a" "hex_encode (sha256 b2_bytes) = ARTIFACT_SHA256"
    by (simp_all add: verify_canonical_eq)
  then have "b2_validate a = Inr ()" by (simp add: decode_eq_Inr)
  from validated_parameters [OF this] have "derive_projection (seal_parameters_of a)
      = Inr \<lparr>pj_modulus = 2013265921, pj_opening_column_widths = [12, 23, 128, 16, 64, 64, 64],
             pj_words_by_role = map role_words all_roles\<rparr>"
    by (simp add: derive_projection_frozen)
  with Inr a show ?thesis by (simp add: derive_seal_semantic_projection_def)
qed

end
