(* ===== verification/WireFds.thy ===== *)
theory WireFds
  imports Capacity AttemptPhase
begin

text \<open>
  The descriptor half of the appliance wire protocol
  (\<open>appliance/h0-tmpfs-provider/crates/contract/src/wire.rs\<close>): the identities, statuses and
  semantic roles of transferred descriptors, the closed contract between a role and what it may
  carry, and the canonical byte encoding of a descriptor commitment. The encodings are prefix
  codes: a field can be recovered from any byte string that starts with its encoding. The locale
  \<open>prefix_code\<close> states that contract once; every record of the protocol interprets it.
\<close>

section \<open>Constants and errors\<close>

definition FRAME_MAGIC :: bytes where "FRAME_MAGIC = ascii ''EIP45H0F''"
definition FRAME_VERSION :: u16 where "FRAME_VERSION = 1"
definition MAX_FRAME_BYTES :: nat where "MAX_FRAME_BYTES = 65536"
definition MAX_FRAME_FDS :: nat where "MAX_FRAME_FDS = 16"
definition MAX_SESSION_FRAMES :: u8 where "MAX_SESSION_FRAMES = 64"
definition FRAME_FIXED_HEADER_BYTES :: nat where "FRAME_FIXED_HEADER_BYTES = 82"

datatype FrameDirection =
  GeneratorToSupervisor | SupervisorToGenerator | SupervisorToWorker | WorkerToSupervisor

fun direction_code :: "FrameDirection \<Rightarrow> u8" where
  "direction_code GeneratorToSupervisor = 0"
| "direction_code SupervisorToGenerator = 1"
| "direction_code SupervisorToWorker = 2"
| "direction_code WorkerToSupervisor = 3"

datatype FdRole =
    CampaignInput u8
  | PublicationRoot
  | SupervisorProcess
  | GeneratorEndpoint
  | WorkerEndpoint
  | AttemptCgroup
  | UserNamespace
  | MountNamespace
  | Observation
  | FinalResult
  | MountedRoot
  | RoleRoot ReplayRole
  | RetainedEntry (re_role: ReplayRole) (re_index: u32)

datatype FrameField =
    DirectionField | OrdinalField | PhaseField | SessionIdField | PreviousHashField | BodyField
  | CredentialsField | FdCommitmentsField

datatype G0Field =
    IngressCount | IngressCommitment | IngressManifestLength | PublicationRootField
  | RequestRoleOrder | EndpointPair | SessionOfferChannel | NonceField | SupervisorProcessField
  | ProviderSessionChannel | InventoryCount | InventorySlot | InventoryStatus | InventorySeals
  | InventoryLength | GeneratorSealInstructionCount | WorkerManifestCount
  | WorkerManifestObservation | WorkerManifestCampaign | WorkerManifestObservationContentLength
  | WorkerManifestCampaignContentLength | WorkerManifestAggregateContentLength
  | WorkerManifestLength | GeneratorBoundInventory | GeneratorBoundFrame
  | WorkerBootstrapEndpoint | WorkerBootstrapInventory | WorkerBootstrapLength
  | WorkerExecBoundInventory | ClosedResultCommitment | GeneratorPeerSession | ClosedResultFrame
  | FinalResultContent | WorkerBootstrapFrame | WorkerBootstrapContent

datatype WireError =
    InvalidDescriptorIdentity
  | InvalidPeerProcessId
  | InvalidPidfdIdentity
  | RoleIndexOutOfRange u8
  | RoleIdentityMismatch FdRole
  | RoleStatusMismatch FdRole
  | RequiredMemfdSeals FdRole
  | TooManyFds nat
  | FrameOrdinalOutOfRange u8
  | BodyLengthOutOfRange nat
  | FrameTooLarge nat
  | ArithmeticOverflow
  | MissingMessageEnd
  | MessageTruncated
  | ControlTruncated
  | CredentialRecordCount u8
  | RightsRecordCount u8 u8
  | UnknownControlRecords u8
  | MalformedControlRecords u8
  | DuplicateFdRole FdRole
  | MagicMismatch
  | VersionMismatch u16
  | DeclaredBodyLengthMismatch u32 nat
  | DeclaredFdCountMismatch u8 nat
  | ExpectationDrift FrameField
  | TranscriptSessionMismatch
  | TranscriptOrdinalMismatch u8 u8
  | TranscriptPreviousHashMismatch
  | SessionFrameLimit
  | G0ContractDrift G0Field

definition push_lp16 :: "bytes \<Rightarrow> WireError + bytes" where
  "push_lp16 v =
     and_then (ok_or (u16_try_from (length v)) ArithmeticOverflow) (\<lambda>n. Inr (u16_to_le n @ v))"

section \<open>Descriptor observations\<close>

record DescriptorIdentity =
  di_device :: u64
  di_inode :: u64
  di_mount_id :: u64

definition descriptor_identity_new :: "u64 \<Rightarrow> u64 \<Rightarrow> u64 \<Rightarrow> WireError + DescriptorIdentity" where
  "descriptor_identity_new device inode mount_id =
     (if device = 0 \<or> inode = 0 \<or> mount_id = 0 then Inl InvalidDescriptorIdentity
      else Inr \<lparr>di_device = device, di_inode = inode, di_mount_id = mount_id\<rparr>)"

definition encode_descriptor_identity :: "DescriptorIdentity \<Rightarrow> bytes" where
  "encode_descriptor_identity d =
     u64_to_le (di_device d) @ u64_to_le (di_inode d) @ u64_to_le (di_mount_id d)"

record PeerCredentials =
  pc_process_id :: u32
  pc_user_id :: u32
  pc_group_id :: u32
  pc_user_namespace :: DescriptorIdentity

definition peer_credentials_new ::
    "u32 \<Rightarrow> u32 \<Rightarrow> u32 \<Rightarrow> DescriptorIdentity \<Rightarrow> WireError + PeerCredentials" where
  "peer_credentials_new process_id user_id group_id user_namespace =
     (if process_id = 0 then Inl InvalidPeerProcessId
      else Inr \<lparr>pc_process_id = process_id, pc_user_id = user_id, pc_group_id = group_id,
                pc_user_namespace = user_namespace\<rparr>)"

definition encode_peer_credentials :: "PeerCredentials \<Rightarrow> bytes" where
  "encode_peer_credentials c =
     u32_to_le (pc_process_id c) @ u32_to_le (pc_user_id c) @ u32_to_le (pc_group_id c)
     @ encode_descriptor_identity (pc_user_namespace c)"

datatype FilesystemNodeKind = DirectoryNode | RegularFileNode | SymbolicLinkNode

fun node_kind_code :: "FilesystemNodeKind \<Rightarrow> u8" where
  "node_kind_code DirectoryNode = 0"
| "node_kind_code RegularFileNode = 1"
| "node_kind_code SymbolicLinkNode = 2"

datatype NamespaceKind = UserNs | MountNs

fun namespace_kind_code :: "NamespaceKind \<Rightarrow> u8" where
  "namespace_kind_code UserNs = 0"
| "namespace_kind_code MountNs = 1"

datatype SealPresence = Absent | Present

definition is_present :: "SealPresence \<Rightarrow> bool" where
  "is_present s \<longleftrightarrow> s = Present"

fun seal_code :: "SealPresence \<Rightarrow> u8" where
  "seal_code Absent = 0"
| "seal_code Present = 1"

record MemfdSeals =
  ms_grow :: SealPresence
  ms_shrink :: SealPresence
  ms_write :: SealPresence
  ms_further_seals :: SealPresence

definition fixes_size :: "MemfdSeals \<Rightarrow> bool" where
  "fixes_size s \<longleftrightarrow> is_present (ms_grow s) \<and> is_present (ms_shrink s)"

definition fully_sealed :: "MemfdSeals \<Rightarrow> bool" where
  "fully_sealed s \<longleftrightarrow> fixes_size s \<and> is_present (ms_write s) \<and> is_present (ms_further_seals s)"

definition encode_seals :: "MemfdSeals \<Rightarrow> bytes" where
  "encode_seals s =
     [seal_code (ms_grow s), seal_code (ms_shrink s), seal_code (ms_write s),
      seal_code (ms_further_seals s)]"

datatype FdAccess =
  PathAccess | ReadOnly | WriteOnly | ReadWrite | ProcessAccess | SocketAccess

fun access_code :: "FdAccess \<Rightarrow> u8" where
  "access_code PathAccess = 0"
| "access_code ReadOnly = 1"
| "access_code WriteOnly = 2"
| "access_code ReadWrite = 3"
| "access_code ProcessAccess = 4"
| "access_code SocketAccess = 5"

record FdStatus =
  fs_access :: FdAccess
  fs_nonblocking :: bool
  fs_close_on_exec :: bool

definition bool_code :: "bool \<Rightarrow> u8" where
  "bool_code b = (if b then 1 else 0)"

definition encode_status :: "FdStatus \<Rightarrow> bytes" where
  "encode_status s =
     [access_code (fs_access s), bool_code (fs_nonblocking s), bool_code (fs_close_on_exec s)]"

section \<open>Roles and identities\<close>

fun replay_role_code :: "ReplayRole \<Rightarrow> u8" where
  "replay_role_code RustValidatorBuild = 0"
| "replay_role_code JvmValidatorBuild = 1"
| "replay_role_code RustVerifier = 2"
| "replay_role_code JvmVerifier = 3"

fun role_encoded_len :: "FdRole \<Rightarrow> nat" where
  "role_encoded_len (CampaignInput _) = 2"
| "role_encoded_len (RoleRoot _) = 2"
| "role_encoded_len (RetainedEntry _ _) = 6"
| "role_encoded_len _ = 1"

fun encode_role :: "FdRole \<Rightarrow> bytes" where
  "encode_role (CampaignInput index) = [0, index]"
| "encode_role PublicationRoot = [1]"
| "encode_role SupervisorProcess = [2]"
| "encode_role GeneratorEndpoint = [3]"
| "encode_role WorkerEndpoint = [4]"
| "encode_role AttemptCgroup = [5]"
| "encode_role UserNamespace = [6]"
| "encode_role MountNamespace = [7]"
| "encode_role Observation = [8]"
| "encode_role FinalResult = [9]"
| "encode_role MountedRoot = [10]"
| "encode_role (RoleRoot role) = [11, replay_role_code role]"
| "encode_role (RetainedEntry role index) = [12, replay_role_code role] @ u32_to_le index"

datatype FdIdentity =
    Filesystem DescriptorIdentity FilesystemNodeKind
  | Namespace DescriptorIdentity NamespaceKind
  | Memfd u64 bytes MemfdSeals
  | Pidfd u32 u64
  | SocketIdentity bytes
  | Cgroup bytes bytes

definition identity_validate :: "FdIdentity \<Rightarrow> WireError + unit" where
  "identity_validate i =
     (case i of
        Pidfd process_id start_epoch \<Rightarrow>
          if process_id = 0 \<or> start_epoch = 0 then Inl InvalidPidfdIdentity else Inr ()
      | _ \<Rightarrow> Inr ())"

fun encode_identity :: "FdIdentity \<Rightarrow> bytes" where
  "encode_identity (Filesystem descriptor node_kind) =
     0 # encode_descriptor_identity descriptor @ [node_kind_code node_kind]"
| "encode_identity (Namespace descriptor kind) =
     1 # encode_descriptor_identity descriptor @ [namespace_kind_code kind]"
| "encode_identity (Memfd len content_digest seals) =
     2 # u64_to_le len @ content_digest @ encode_seals seals"
| "encode_identity (Pidfd process_id start_epoch) =
     3 # u32_to_le process_id @ u64_to_le start_epoch"
| "encode_identity (SocketIdentity endpoint_digest) = 4 # endpoint_digest"
| "encode_identity (Cgroup hierarchy_digest path_digest) = 5 # hierarchy_digest @ path_digest"

section \<open>Commitments\<close>

record FdCommitment =
  fc_role :: FdRole
  fc_identity :: FdIdentity
  fc_status :: FdStatus

definition identity_matches :: "FdRole \<Rightarrow> FdIdentity \<Rightarrow> bool" where
  "identity_matches role identity =
     (case role of
        PublicationRoot \<Rightarrow> (case identity of Filesystem _ kind \<Rightarrow> kind = DirectoryNode | _ \<Rightarrow> False)
      | MountedRoot \<Rightarrow> (case identity of Filesystem _ kind \<Rightarrow> kind = DirectoryNode | _ \<Rightarrow> False)
      | RoleRoot _ \<Rightarrow> (case identity of Filesystem _ kind \<Rightarrow> kind = DirectoryNode | _ \<Rightarrow> False)
      | RetainedEntry _ _ \<Rightarrow> (case identity of Filesystem _ _ \<Rightarrow> True | _ \<Rightarrow> False)
      | CampaignInput _ \<Rightarrow> (case identity of Memfd _ _ _ \<Rightarrow> True | _ \<Rightarrow> False)
      | Observation \<Rightarrow> (case identity of Memfd _ _ _ \<Rightarrow> True | _ \<Rightarrow> False)
      | FinalResult \<Rightarrow> (case identity of Memfd _ _ _ \<Rightarrow> True | _ \<Rightarrow> False)
      | SupervisorProcess \<Rightarrow> (case identity of Pidfd _ _ \<Rightarrow> True | _ \<Rightarrow> False)
      | GeneratorEndpoint \<Rightarrow> (case identity of SocketIdentity _ \<Rightarrow> True | _ \<Rightarrow> False)
      | WorkerEndpoint \<Rightarrow> (case identity of SocketIdentity _ \<Rightarrow> True | _ \<Rightarrow> False)
      | AttemptCgroup \<Rightarrow> (case identity of Cgroup _ _ \<Rightarrow> True | _ \<Rightarrow> False)
      | UserNamespace \<Rightarrow> (case identity of Namespace _ kind \<Rightarrow> kind = UserNs | _ \<Rightarrow> False)
      | MountNamespace \<Rightarrow> (case identity of Namespace _ kind \<Rightarrow> kind = MountNs | _ \<Rightarrow> False))"

fun required_access :: "FdRole \<Rightarrow> FdAccess" where
  "required_access (CampaignInput _) = ReadOnly"
| "required_access FinalResult = ReadOnly"
| "required_access Observation = ReadWrite"
| "required_access SupervisorProcess = ProcessAccess"
| "required_access GeneratorEndpoint = SocketAccess"
| "required_access WorkerEndpoint = SocketAccess"
| "required_access _ = PathAccess"

definition is_endpoint :: "FdRole \<Rightarrow> bool" where
  "is_endpoint r \<longleftrightarrow> r = GeneratorEndpoint \<or> r = WorkerEndpoint"

fun required_seals :: "FdRole \<Rightarrow> MemfdSeals \<Rightarrow> bool" where
  "required_seals (CampaignInput _) seals = fully_sealed seals"
| "required_seals FinalResult seals = fully_sealed seals"
| "required_seals Observation seals = fixes_size seals"
| "required_seals _ _ = True"

definition commitment_validate :: "FdCommitment \<Rightarrow> WireError + unit" where
  "commitment_validate c =
     and_then (identity_validate (fc_identity c)) (\<lambda>_.
     and_then (case fc_role c of
                 CampaignInput index \<Rightarrow>
                   ensure (unat index < MAX_FRAME_FDS) (RoleIndexOutOfRange index)
               | _ \<Rightarrow> Inr ()) (\<lambda>_.
     and_then (ensure (identity_matches (fc_role c) (fc_identity c))
                (RoleIdentityMismatch (fc_role c))) (\<lambda>_.
     and_then (ensure (fs_access (fc_status c) = required_access (fc_role c)
                       \<and> (fs_nonblocking (fc_status c) \<longrightarrow> is_endpoint (fc_role c)))
                (RoleStatusMismatch (fc_role c))) (\<lambda>_.
     (case fc_identity c of
        Memfd _ _ seals \<Rightarrow>
          ensure (required_seals (fc_role c) seals) (RequiredMemfdSeals (fc_role c))
      | _ \<Rightarrow> Inr ())))))"

definition commitment_new ::
    "FdRole \<Rightarrow> FdIdentity \<Rightarrow> FdStatus \<Rightarrow> WireError + FdCommitment" where
  "commitment_new role identity status =
     (let c = \<lparr>fc_role = role, fc_identity = identity, fc_status = status\<rparr> in
      and_then (commitment_validate c) (\<lambda>_. Inr c))"

definition commitment_bytes :: "FdCommitment \<Rightarrow> bytes" where
  "commitment_bytes c =
     encode_role (fc_role c) @ encode_identity (fc_identity c) @ encode_status (fc_status c)"

definition encode_fd_commitment :: "FdCommitment \<Rightarrow> WireError + bytes" where
  "encode_fd_commitment c =
     and_then (commitment_validate c) (\<lambda>_. Inr (commitment_bytes c))"

definition encoded_fd_commitment_len :: "FdCommitment \<Rightarrow> WireError + u16" where
  "encoded_fd_commitment_len c =
     and_then (encode_fd_commitment c) (\<lambda>encoded.
     ok_or (u16_try_from (length encoded)) ArithmeticOverflow)"

section \<open>Prefix codes\<close>

text \<open>
  An encoding whose values are recovered from any byte string that starts with one: what follows
  is never taken for a part of it. \<open>wf\<close> states the lengths of the fixed-size arrays of a value.
\<close>

locale prefix_code =
  fixes wf :: "'a \<Rightarrow> bool" and enc :: "'a \<Rightarrow> bytes"
  assumes unique: "wf a \<Longrightarrow> wf b \<Longrightarrow> enc a @ u = enc b @ v \<Longrightarrow> a = b \<and> u = v"
begin

lemma append_iff: "wf a \<Longrightarrow> wf b \<Longrightarrow> enc a @ u = enc b @ v \<longleftrightarrow> a = b \<and> u = v"
  using unique by blast

lemma inject: "wf a \<Longrightarrow> wf b \<Longrightarrow> enc a = enc b \<longleftrightarrow> a = b"
  using append_iff [of a b "[]" "[]"] by simp

lemma concat_iff:
  "list_all wf as \<Longrightarrow> list_all wf bs \<Longrightarrow> length as = length bs \<Longrightarrow>
    concat (map enc as) @ u = concat (map enc bs) @ v \<longleftrightarrow> as = bs \<and> u = v"
proof (induction as arbitrary: bs)
  case Nil
  then show ?case by simp
next
  case (Cons a as)
  then obtain b bs' where bs: "bs = b # bs'" by (cases bs) auto
  with Cons show ?case using append_iff [of a b] by auto
qed

end

text \<open>The encodings of one length are the prefix codes that are injective.\<close>

locale sized_code =
  fixes wf :: "'a \<Rightarrow> bool" and enc :: "'a \<Rightarrow> bytes" and width :: nat
  assumes injective: "wf a \<Longrightarrow> wf b \<Longrightarrow> enc a = enc b \<Longrightarrow> a = b"
    and sized: "wf a \<Longrightarrow> length (enc a) = width"
begin

lemma prefix: "prefix_code wf enc"
proof
  fix a b u v
  assume ab: "wf a" "wf b" and eq: "enc a @ u = enc b @ v"
  then have "enc a = enc b \<and> u = v" using sized [of a] sized [of b] by simp
  with ab injective [of a b] show "a = b \<and> u = v" by blast
qed

lemma length_concat: "list_all wf as \<Longrightarrow> length (concat (map enc as)) = width * length as"
  by (induction as) (simp_all add: sized)

end

sublocale sized_code \<subseteq> prefix_code
  by (rule prefix)

section \<open>The encodings of the descriptor observations\<close>

named_theorems wire_codes "injectivity and lengths of the wire encodings"

lemma code_inject [simp, wire_codes]:
  "direction_code d = direction_code d' \<longleftrightarrow> d = d'"
  "node_kind_code k = node_kind_code k' \<longleftrightarrow> k = k'"
  "namespace_kind_code n = namespace_kind_code n' \<longleftrightarrow> n = n'"
  "seal_code s = seal_code s' \<longleftrightarrow> s = s'"
  "access_code a = access_code a' \<longleftrightarrow> a = a'"
  "bool_code b = bool_code b' \<longleftrightarrow> b = b'"
  "replay_role_code r = replay_role_code r' \<longleftrightarrow> r = r'"
        apply (cases d; cases d'; simp)
       apply (cases k; cases k'; simp)
      apply (cases n; cases n'; simp)
     apply (cases s; cases s'; simp)
    apply (cases a; cases a'; simp)
   apply (simp add: bool_code_def)
  apply (cases r; cases r'; simp)
  done

lemma observation_lengths [simp, wire_codes]:
  "length (encode_descriptor_identity d) = 24"
  "length (encode_peer_credentials c) = 36"
  "length (encode_seals s) = 4"
  "length (encode_status t) = 3"
  by (simp_all add: encode_descriptor_identity_def encode_peer_credentials_def encode_seals_def
      encode_status_def)

lemma observation_inject [simp, wire_codes]:
  "encode_descriptor_identity d = encode_descriptor_identity d' \<longleftrightarrow> d = d'"
  "encode_peer_credentials c = encode_peer_credentials c' \<longleftrightarrow> c = c'"
  "encode_seals s = encode_seals s' \<longleftrightarrow> s = s'"
  "encode_status t = encode_status t' \<longleftrightarrow> t = t'"
proof -
  show d: "encode_descriptor_identity d = encode_descriptor_identity d' \<longleftrightarrow> d = d'" for d d'
    by (cases d; cases d') (auto simp: encode_descriptor_identity_def)
  show "encode_peer_credentials c = encode_peer_credentials c' \<longleftrightarrow> c = c'"
    by (cases c; cases c') (auto simp: encode_peer_credentials_def d)
  show "encode_seals s = encode_seals s' \<longleftrightarrow> s = s'"
    by (cases s; cases s') (auto simp: encode_seals_def)
  show "encode_status t = encode_status t' \<longleftrightarrow> t = t'"
    by (cases t; cases t') (auto simp: encode_status_def)
qed

interpretation descriptor_code: sized_code "\<lambda>_. True" encode_descriptor_identity 24
  by unfold_locales simp_all

interpretation credentials_code: sized_code "\<lambda>_. True" encode_peer_credentials 36
  by unfold_locales simp_all

lemma length_encode_role [simp, wire_codes]: "length (encode_role r) = role_encoded_len r"
  by (cases r) simp_all

interpretation role_code: prefix_code "\<lambda>_. True" encode_role
proof
  fix a b u v
  assume "encode_role a @ u = encode_role b @ v"
  then show "a = b \<and> u = v" by (cases a; cases b) auto
qed

definition identity_wf :: "FdIdentity \<Rightarrow> bool" where
  "identity_wf i =
     (case i of
        Memfd _ content_digest _ \<Rightarrow> length content_digest = 32
      | SocketIdentity endpoint_digest \<Rightarrow> length endpoint_digest = 32
      | Cgroup hierarchy_digest path_digest \<Rightarrow>
          length hierarchy_digest = 32 \<and> length path_digest = 32
      | _ \<Rightarrow> True)"

fun identity_encoded_len :: "FdIdentity \<Rightarrow> nat" where
  "identity_encoded_len (Filesystem _ _) = 26"
| "identity_encoded_len (Namespace _ _) = 26"
| "identity_encoded_len (Memfd _ _ _) = 45"
| "identity_encoded_len (Pidfd _ _) = 13"
| "identity_encoded_len (SocketIdentity _) = 33"
| "identity_encoded_len (Cgroup _ _) = 65"

lemma length_encode_identity [simp, wire_codes]:
  "identity_wf i \<Longrightarrow> length (encode_identity i) = identity_encoded_len i"
  by (cases i) (simp_all add: identity_wf_def)

interpretation identity_code: prefix_code identity_wf encode_identity
proof
  fix a b u v
  assume "identity_wf a" "identity_wf b" "encode_identity a @ u = encode_identity b @ v"
  then show "a = b \<and> u = v" by (cases a; cases b) (auto simp: identity_wf_def)
qed

definition commitment_wf :: "FdCommitment \<Rightarrow> bool" where
  "commitment_wf c \<longleftrightarrow> identity_wf (fc_identity c)"

interpretation commitment_code: prefix_code commitment_wf commitment_bytes
proof
  fix a b u v
  assume wf: "commitment_wf a" "commitment_wf b" and eq: "commitment_bytes a @ u = commitment_bytes b @ v"
  then have "fc_role a = fc_role b" and rest:
    "encode_identity (fc_identity a) @ encode_status (fc_status a) @ u
      = encode_identity (fc_identity b) @ encode_status (fc_status b) @ v"
    by (simp_all add: commitment_bytes_def role_code.append_iff)
  moreover from rest have "fc_identity a = fc_identity b"
    and "encode_status (fc_status a) @ u = encode_status (fc_status b) @ v"
    using wf by (simp_all add: commitment_wf_def identity_code.append_iff)
  ultimately show "a = b \<and> u = v" by (cases a; cases b) simp
qed

lemma length_commitment_bytes [wire_codes]:
  "commitment_wf c \<Longrightarrow>
    length (commitment_bytes c) = role_encoded_len (fc_role c) + identity_encoded_len (fc_identity c) + 3"
  by (simp add: commitment_bytes_def commitment_wf_def)

section \<open>The role contract\<close>

text \<open>
  What each role may carry, one line per role: the identity, the access mode and the seals. Only
  the two socket endpoints may be non-blocking; close-on-exec is free.
\<close>

fun role_admits :: "FdRole \<Rightarrow> FdIdentity \<Rightarrow> FdAccess \<Rightarrow> bool" where
  "role_admits (CampaignInput n) i a \<longleftrightarrow>
     unat n < 16 \<and> (\<exists>len d s. i = Memfd len d s \<and> fully_sealed s) \<and> a = ReadOnly"
| "role_admits FinalResult i a \<longleftrightarrow> (\<exists>len d s. i = Memfd len d s \<and> fully_sealed s) \<and> a = ReadOnly"
| "role_admits Observation i a \<longleftrightarrow> (\<exists>len d s. i = Memfd len d s \<and> fixes_size s) \<and> a = ReadWrite"
| "role_admits SupervisorProcess i a \<longleftrightarrow>
     (\<exists>pid epoch. i = Pidfd pid epoch \<and> pid \<noteq> 0 \<and> epoch \<noteq> 0) \<and> a = ProcessAccess"
| "role_admits GeneratorEndpoint i a \<longleftrightarrow> (\<exists>d. i = SocketIdentity d) \<and> a = SocketAccess"
| "role_admits WorkerEndpoint i a \<longleftrightarrow> (\<exists>d. i = SocketIdentity d) \<and> a = SocketAccess"
| "role_admits AttemptCgroup i a \<longleftrightarrow> (\<exists>h p. i = Cgroup h p) \<and> a = PathAccess"
| "role_admits UserNamespace i a \<longleftrightarrow> (\<exists>d. i = Namespace d UserNs) \<and> a = PathAccess"
| "role_admits MountNamespace i a \<longleftrightarrow> (\<exists>d. i = Namespace d MountNs) \<and> a = PathAccess"
| "role_admits (RetainedEntry _ _) i a \<longleftrightarrow> (\<exists>d k. i = Filesystem d k) \<and> a = PathAccess"
| "role_admits PublicationRoot i a \<longleftrightarrow> (\<exists>d. i = Filesystem d DirectoryNode) \<and> a = PathAccess"
| "role_admits MountedRoot i a \<longleftrightarrow> (\<exists>d. i = Filesystem d DirectoryNode) \<and> a = PathAccess"
| "role_admits (RoleRoot _) i a \<longleftrightarrow> (\<exists>d. i = Filesystem d DirectoryNode) \<and> a = PathAccess"

definition commitment_ok :: "FdCommitment \<Rightarrow> bool" where
  "commitment_ok c \<longleftrightarrow>
     role_admits (fc_role c) (fc_identity c) (fs_access (fc_status c))
     \<and> (is_endpoint (fc_role c) \<or> \<not> fs_nonblocking (fc_status c))"

lemma commitment_validate_iff: "commitment_validate c = Inr u \<longleftrightarrow> commitment_ok c"
  by (cases "fc_role c"; cases "fc_identity c")
    (auto simp: commitment_validate_def commitment_ok_def identity_validate_def
      identity_matches_def MAX_FRAME_FDS_def is_endpoint_def)

lemma encode_fd_commitment_iff:
  "encode_fd_commitment c = Inr bs \<longleftrightarrow> commitment_ok c \<and> bs = commitment_bytes c"
  by (auto simp: encode_fd_commitment_def commitment_validate_iff)

lemma commitment_new_iff:
  "commitment_new r i s = Inr c \<longleftrightarrow>
     c = \<lparr>fc_role = r, fc_identity = i, fc_status = s\<rparr> \<and> commitment_ok c"
  by (auto simp: commitment_new_def commitment_validate_iff Let_def)

fun admitted_len :: "FdRole \<Rightarrow> nat" where
  "admitted_len (CampaignInput _) = 50"
| "admitted_len FinalResult = 49"
| "admitted_len Observation = 49"
| "admitted_len SupervisorProcess = 17"
| "admitted_len GeneratorEndpoint = 37"
| "admitted_len WorkerEndpoint = 37"
| "admitted_len AttemptCgroup = 69"
| "admitted_len (RetainedEntry _ _) = 35"
| "admitted_len (RoleRoot _) = 31"
| "admitted_len _ = 30"

lemma length_admitted:
  "commitment_wf c \<Longrightarrow> commitment_ok c \<Longrightarrow> length (commitment_bytes c) = admitted_len (fc_role c)"
  by (cases "fc_role c") (auto simp: commitment_ok_def length_commitment_bytes)

lemma admitted_len_bound: "admitted_len r \<le> 69"
  by (cases r) simp_all

lemma encoded_len_iff:
  assumes "commitment_wf c"
  shows "encoded_fd_commitment_len c = Inr n \<longleftrightarrow>
    commitment_ok c \<and> n = word_of_nat (admitted_len (fc_role c))"
  using assms length_admitted [of c] admitted_len_bound [of "fc_role c"]
  by (auto simp: encoded_fd_commitment_len_def encode_fd_commitment_iff try_from_counts)

lemma encoded_len_eq:
  "commitment_wf c \<Longrightarrow> commitment_ok c \<Longrightarrow>
    encoded_fd_commitment_len c = Inr (word_of_nat (admitted_len (fc_role c)))"
  by (simp add: encoded_len_iff)

section \<open>Properties\<close>

text \<open>
  A descriptor commitment is admitted exactly when its role carries the identity, access mode
  and seals of the role table and is non-blocking only at a socket endpoint; an admitted
  commitment is what the caller supplied.
\<close>

theorem commitment_admission_exact:
  "commitment_new r i s = Inr c \<longleftrightarrow>
     c = \<lparr>fc_role = r, fc_identity = i, fc_status = s\<rparr>
     \<and> role_admits r i (fs_access s) \<and> (is_endpoint r \<or> \<not> fs_nonblocking s)"
  by (auto simp: commitment_new_iff commitment_ok_def)

text \<open>
  The canonical encoding of descriptor commitments is a prefix code: two encoded commitments
  followed by arbitrary bytes are the same string only when the commitments and the rests are the
  same, and the length field announces exactly the encoded bytes, 69 at most.
\<close>

theorem commitment_encoding_exact:
  assumes "commitment_wf c" "commitment_wf d"
    and "encode_fd_commitment c = Inr x" "encode_fd_commitment d = Inr y"
  shows "(x @ u = y @ v \<longleftrightarrow> c = d \<and> u = v)
    \<and> encoded_fd_commitment_len c = Inr (word_of_nat (length x)) \<and> length x \<le> 69"
proof (intro conjI)
  show "x @ u = y @ v \<longleftrightarrow> c = d \<and> u = v"
    using assms by (auto simp: encode_fd_commitment_iff commitment_code.append_iff)
  have "length x = admitted_len (fc_role c)" "commitment_ok c"
    using assms by (simp_all add: encode_fd_commitment_iff length_admitted)
  then show "encoded_fd_commitment_len c = Inr (word_of_nat (length x))" "length x \<le> 69"
    using assms(1) admitted_len_bound [of "fc_role c"] by (simp_all add: encoded_len_eq)
qed

definition sample_seals :: MemfdSeals where
  "sample_seals = \<lparr>ms_grow = Present, ms_shrink = Present, ms_write = Present,
                   ms_further_seals = Present\<rparr>"

definition sample_result_fd :: FdCommitment where
  "sample_result_fd =
     \<lparr>fc_role = FinalResult, fc_identity = Memfd 5 (replicate 32 7) sample_seals,
      fc_status = \<lparr>fs_access = ReadOnly, fs_nonblocking = False, fs_close_on_exec = True\<rparr>\<rparr>"

definition sample_namespace :: DescriptorIdentity where
  "sample_namespace = \<lparr>di_device = 3, di_inode = 4, di_mount_id = 5\<rparr>"

definition sample_root_fd :: FdCommitment where
  "sample_root_fd =
     \<lparr>fc_role = PublicationRoot, fc_identity = Filesystem sample_namespace DirectoryNode,
      fc_status = \<lparr>fs_access = PathAccess, fs_nonblocking = False, fs_close_on_exec = False\<rparr>\<rparr>"

lemma sample_fds_ok:
  "commitment_ok sample_result_fd" "commitment_wf sample_result_fd"
  "commitment_ok sample_root_fd" "commitment_wf sample_root_fd"
  by (simp_all add: sample_result_fd_def sample_root_fd_def commitment_ok_def commitment_wf_def
      identity_wf_def sample_seals_def fully_sealed_def fixes_size_def is_present_def)

lemma commitment_encoding_exact_witness:
  "length (commitment_bytes sample_result_fd) \<le> 69
   \<and> encoded_fd_commitment_len sample_result_fd
      = Inr (word_of_nat (length (commitment_bytes sample_result_fd)))
   \<and> (commitment_bytes sample_result_fd @ [1] \<noteq> commitment_bytes sample_root_fd @ [2])"
proof -
  have e: "encode_fd_commitment sample_result_fd = Inr (commitment_bytes sample_result_fd)"
    "encode_fd_commitment sample_root_fd = Inr (commitment_bytes sample_root_fd)"
    by (simp_all add: encode_fd_commitment_iff sample_fds_ok)
  show ?thesis using commitment_encoding_exact [OF sample_fds_ok(2,4) e, of "[1]" "[2]"] by simp
qed

end
