(* ===== verification/WireSession.thy ===== *)
theory WireSession
  imports WireFds
begin

text \<open>
  The commitments from which an attempt's session is derived (same source file): the sealed
  ingress manifest, the publication target, the 772-byte request, the endpoint and channel
  identities, the 1,101-byte session offer, the four commit and reveal records and the 373-byte
  provider-session preimage. SHA-256 (crate \<open>sha2\<close>) is a parameter of the operations; what they
  need of it is that a digest has 32 bytes, and statements about equal digests exhibit the
  collision instead of excluding it.
\<close>

section \<open>Domains and sizes\<close>

definition SEALED_INGRESS_MANIFEST_DOMAIN :: bytes where
  "SEALED_INGRESS_MANIFEST_DOMAIN = ascii ''eip0045-b4-h0-sealed-ingress-manifest-v1'' @ [0]"

definition PUBLICATION_TARGET_DOMAIN :: bytes where
  "PUBLICATION_TARGET_DOMAIN = ascii ''eip0045-b4-h0-publication-target-v1'' @ [0]"

definition REQUEST_COMMITMENT_DOMAIN :: bytes where
  "REQUEST_COMMITMENT_DOMAIN = ascii ''eip0045-b4-h0-request-commitment-v1'' @ [0]"

definition ENDPOINT_COMMITMENT_DOMAIN :: bytes where
  "ENDPOINT_COMMITMENT_DOMAIN = ascii ''eip0045-b4-h0-seqpacket-endpoint-v1'' @ [0]"

definition GENERATOR_CHANNEL_IDENTITY_DOMAIN :: bytes where
  "GENERATOR_CHANNEL_IDENTITY_DOMAIN = ascii ''eip0045-b4-h0-generator-channel-identity-v1'' @ [0]"

definition WORKER_CHANNEL_IDENTITY_DOMAIN :: bytes where
  "WORKER_CHANNEL_IDENTITY_DOMAIN = ascii ''eip0045-b4-h0-worker-channel-identity-v1'' @ [0]"

definition SESSION_OFFER_DOMAIN :: bytes where
  "SESSION_OFFER_DOMAIN = ascii ''eip0045-b4-h0-session-offer-v1'' @ [0]"

definition NONCE_COMMITMENT_DOMAIN :: bytes where
  "NONCE_COMMITMENT_DOMAIN = ascii ''eip0045-b4-h0-nonce-commitment-v1'' @ [0]"

definition PRE_SESSION_RECORD_MAGIC :: bytes where
  "PRE_SESSION_RECORD_MAGIC = ascii ''EIP45H0N''"

definition PROVIDER_SESSION_DOMAIN :: bytes where
  "PROVIDER_SESSION_DOMAIN = ascii ''eip0045-b4-h0-session-id-v1'' @ [0]"

definition PROVIDER_ID :: bytes where
  "PROVIDER_ID = ascii ''eip0045-b4-tmpfs-metadata-provider-v1''"

definition POLICY_ID :: bytes where
  "POLICY_ID = ascii ''eip0045-b4-retained-host-rootfs-metadata-obligations-v2''"

definition SESSION_PROTOCOL_ID :: bytes where
  "SESSION_PROTOCOL_ID = ascii ''eip0045-b4-supervised-filesystem-session-v1''"

definition APPLIANCE_ID :: bytes where
  "APPLIANCE_ID = ascii ''eip0045-b4-buildroot-appliance-v1''"

definition G0_MAX_INGRESS_COUNT :: nat where "G0_MAX_INGRESS_COUNT = 15"
definition G0_REQUEST_PREIMAGE_BYTES :: nat where "G0_REQUEST_PREIMAGE_BYTES = 772"
definition G0_SESSION_OFFER_BYTES :: nat where "G0_SESSION_OFFER_BYTES = 1101"
definition G0_PRE_SESSION_RECORD_BYTES :: nat where "G0_PRE_SESSION_RECORD_BYTES = 75"
definition G0_PROVIDER_SESSION_PREIMAGE_BYTES :: nat where
  "G0_PROVIDER_SESSION_PREIMAGE_BYTES = 373"

lemma wire_domain_lengths [simp, wire_codes]:
  "length SEALED_INGRESS_MANIFEST_DOMAIN = 41" "length PUBLICATION_TARGET_DOMAIN = 36"
  "length REQUEST_COMMITMENT_DOMAIN = 36" "length ENDPOINT_COMMITMENT_DOMAIN = 36"
  "length GENERATOR_CHANNEL_IDENTITY_DOMAIN = 44" "length WORKER_CHANNEL_IDENTITY_DOMAIN = 41"
  "length SESSION_OFFER_DOMAIN = 31" "length NONCE_COMMITMENT_DOMAIN = 34"
  "length PRE_SESSION_RECORD_MAGIC = 8" "length PROVIDER_SESSION_DOMAIN = 28"
  "length PROVIDER_ID = 37" "length POLICY_ID = 55" "length SESSION_PROTOCOL_ID = 43"
  "length APPLIANCE_ID = 33"
  by (simp_all add: SEALED_INGRESS_MANIFEST_DOMAIN_def PUBLICATION_TARGET_DOMAIN_def
      REQUEST_COMMITMENT_DOMAIN_def ENDPOINT_COMMITMENT_DOMAIN_def
      GENERATOR_CHANNEL_IDENTITY_DOMAIN_def WORKER_CHANNEL_IDENTITY_DOMAIN_def
      SESSION_OFFER_DOMAIN_def NONCE_COMMITMENT_DOMAIN_def PRE_SESSION_RECORD_MAGIC_def
      PROVIDER_SESSION_DOMAIN_def PROVIDER_ID_def POLICY_ID_def SESSION_PROTOCOL_ID_def
      APPLIANCE_ID_def)

lemmas size_defs = G0_MAX_INGRESS_COUNT_def G0_REQUEST_PREIMAGE_BYTES_def
  G0_SESSION_OFFER_BYTES_def G0_PRE_SESSION_RECORD_BYTES_def G0_PROVIDER_SESSION_PREIMAGE_BYTES_def

text \<open>The conversion of a \<open>Vec<u8>\<close> to \<open>[u8; N]\<close>.\<close>

definition into_array :: "nat \<Rightarrow> bytes \<Rightarrow> WireError + bytes" where
  "into_array n bs = (if length bs = n then Inr bs else Inl ArithmeticOverflow)"

definition drift :: "G0Field \<Rightarrow> bool \<Rightarrow> WireError + unit" where
  "drift field b = (if b then Inl (G0ContractDrift field) else Inr ())"

lemma into_array_iff [simp]: "into_array n bs = Inr xs \<longleftrightarrow> length bs = n \<and> xs = bs"
  by (auto simp: into_array_def)

lemma drift_iff [simp]: "drift field b = Inr u \<longleftrightarrow> \<not> b"
  by (simp add: drift_def)

section \<open>Sealed ingress and publication target\<close>

record SealedIngressManifest =
  si_bytes :: bytes
  si_count :: u8
  si_digest :: bytes

fun ingress_records :: "nat \<Rightarrow> FdCommitment list \<Rightarrow> WireError + bytes" where
  "ingress_records ordinal [] = Inr []"
| "ingress_records ordinal (c # cs) =
     and_then (ok_or (u8_try_from ordinal) ArithmeticOverflow) (\<lambda>n.
     and_then (drift IngressCommitment (fc_role c \<noteq> CampaignInput n)) (\<lambda>_.
     and_then (encode_fd_commitment c) (\<lambda>encoded.
     and_then (encoded_fd_commitment_len c) (\<lambda>len.
     and_then (drift IngressCommitment (len \<noteq> 50)) (\<lambda>_.
     and_then (ingress_records (Suc ordinal) cs) (\<lambda>rest.
     Inr ([n] @ u16_to_le len @ encoded @ rest)))))))"

definition sealed_ingress_new ::
    "(bytes \<Rightarrow> bytes) \<Rightarrow> FdCommitment list \<Rightarrow> WireError + SealedIngressManifest" where
  "sealed_ingress_new sha cs =
     and_then (drift IngressCount (length cs > G0_MAX_INGRESS_COUNT)) (\<lambda>_.
     and_then (ok_or (u8_try_from (length cs)) (G0ContractDrift IngressCount)) (\<lambda>count.
     and_then (ok_or (checked_mul_usize (length cs) 53) ArithmeticOverflow) (\<lambda>records_bytes.
     and_then (ok_or (checked_add_usize 44 records_bytes) ArithmeticOverflow) (\<lambda>_.
     and_then (ingress_records 0 cs) (\<lambda>records.
     let bs = SEALED_INGRESS_MANIFEST_DOMAIN @ u16_to_le FRAME_VERSION @ [count] @ records in
     Inr \<lparr>si_bytes = bs, si_count = count, si_digest = sha bs\<rparr>)))))"

record PublicationTarget =
  pt_preimage :: bytes
  pt_digest :: bytes

definition publication_target_new ::
    "(bytes \<Rightarrow> bytes) \<Rightarrow> FdCommitment \<Rightarrow> bytes \<Rightarrow> bytes \<Rightarrow> WireError + PublicationTarget" where
  "publication_target_new sha root destination_input destination_completion =
     and_then (drift PublicationRootField (fc_role root \<noteq> PublicationRoot)) (\<lambda>_.
     and_then (encode_fd_commitment root) (\<lambda>encoded.
     and_then (encoded_fd_commitment_len root) (\<lambda>len.
     and_then (drift PublicationRootField (len \<noteq> 30)) (\<lambda>_.
     and_then (into_array 132 (PUBLICATION_TARGET_DOMAIN @ u16_to_le len @ encoded
                @ destination_input @ destination_completion)) (\<lambda>preimage.
     Inr \<lparr>pt_preimage = preimage, pt_digest = sha preimage\<rparr>)))))"

section \<open>Requests\<close>

record RequestRoleBlock =
  rb_role :: ReplayRole
  rb_runner_ai :: bytes
  rb_oci_layout_commitment :: bytes
  rb_rootfs_plan_commitment :: bytes

definition encode_role_block :: "RequestRoleBlock \<Rightarrow> bytes" where
  "encode_role_block b =
     [replay_role_code (rb_role b)] @ rb_runner_ai b @ rb_oci_layout_commitment b
     @ rb_rootfs_plan_commitment b"

record RequestCommitment =
  rq_preimage :: bytes
  rq_digest :: bytes
  rq_ingress_count :: u8

fun check_role_order :: "nat \<Rightarrow> RequestRoleBlock list \<Rightarrow> WireError + unit" where
  "check_role_order index [] = Inr ()"
| "check_role_order index (b # bs) =
     and_then (drift RequestRoleOrder (unat (replay_role_code (rb_role b)) \<noteq> index)) (\<lambda>_.
     check_role_order (Suc index) bs)"

definition request_new ::
    "(bytes \<Rightarrow> bytes) \<Rightarrow> bytes \<Rightarrow> bytes \<Rightarrow> bytes \<Rightarrow> SealedIngressManifest \<Rightarrow> PublicationTarget
      \<Rightarrow> RequestRoleBlock list \<Rightarrow> WireError + RequestCommitment" where
  "request_new sha allocation_epoch positive_input_set positive_generation_set ingress target
      role_blocks =
     and_then (check_role_order 0 role_blocks) (\<lambda>_.
     and_then (ok_or (checked_mul_usize (unat (si_count ingress)) 53) ArithmeticOverflow) (\<lambda>records.
     and_then (ok_or (checked_add_usize 44 records) ArithmeticOverflow) (\<lambda>expected.
     and_then (drift IngressManifestLength (length (si_bytes ingress) \<noteq> expected)) (\<lambda>_.
     and_then (ok_or (u64_try_from (length (si_bytes ingress))) ArithmeticOverflow) (\<lambda>ingress_length.
     and_then (push_lp16 PROVIDER_ID) (\<lambda>provider.
     and_then (push_lp16 POLICY_ID) (\<lambda>policy.
     and_then (push_lp16 SESSION_PROTOCOL_ID) (\<lambda>protocol.
     and_then (push_lp16 APPLIANCE_ID) (\<lambda>appliance.
     and_then (into_array G0_REQUEST_PREIMAGE_BYTES
       (REQUEST_COMMITMENT_DOMAIN @ u16_to_le FRAME_VERSION @ provider @ policy @ protocol
        @ appliance @ allocation_epoch @ positive_input_set @ positive_generation_set
        @ [si_count ingress] @ u64_to_le ingress_length
        @ si_digest ingress @ pt_digest target @ [4]
        @ concat (map encode_role_block role_blocks))) (\<lambda>preimage.
     Inr \<lparr>rq_preimage = preimage, rq_digest = sha preimage, rq_ingress_count = si_count ingress\<rparr>))))))))))"

section \<open>Endpoints and channels\<close>

datatype SeqpacketEndpointRole =
  EpGenerator | EpSupervisorGenerator | EpSupervisorWorker | EpWorker

fun endpoint_role_code :: "SeqpacketEndpointRole \<Rightarrow> u8" where
  "endpoint_role_code EpGenerator = 0"
| "endpoint_role_code EpSupervisorGenerator = 1"
| "endpoint_role_code EpSupervisorWorker = 2"
| "endpoint_role_code EpWorker = 3"

record SeqpacketEndpoint =
  ep_role :: SeqpacketEndpointRole
  ep_preimage :: bytes
  ep_digest :: bytes

definition endpoint_from_observation ::
    "(bytes \<Rightarrow> bytes) \<Rightarrow> SeqpacketEndpointRole \<Rightarrow> DescriptorIdentity \<Rightarrow> u64 \<Rightarrow> SeqpacketEndpoint" where
  "endpoint_from_observation sha role descriptor socket_cookie =
     (let preimage = ENDPOINT_COMMITMENT_DOMAIN @ u16_to_le FRAME_VERSION
            @ [endpoint_role_code role] @ encode_descriptor_identity descriptor
            @ u64_to_le socket_cookie @ u32_to_le 1 @ u32_to_le 5 @ u32_to_le 0 in
      \<lparr>ep_role = role, ep_preimage = preimage, ep_digest = sha preimage\<rparr>)"

datatype ChannelIdentityKind = GeneratorChannel | WorkerChannel

record ChannelIdentity =
  ch_kind :: ChannelIdentityKind
  ch_digest :: bytes

definition channel_from_digests ::
    "(bytes \<Rightarrow> bytes) \<Rightarrow> ChannelIdentityKind \<Rightarrow> bytes \<Rightarrow> bytes \<Rightarrow> bytes \<Rightarrow> ChannelIdentity" where
  "channel_from_digests sha kind domain first_digest second_digest =
     \<lparr>ch_kind = kind, ch_digest = sha (domain @ first_digest @ second_digest)\<rparr>"

definition channel_generator ::
    "(bytes \<Rightarrow> bytes) \<Rightarrow> SeqpacketEndpoint \<Rightarrow> SeqpacketEndpoint \<Rightarrow> WireError + ChannelIdentity" where
  "channel_generator sha generator supervisor =
     and_then (drift EndpointPair (ep_role generator \<noteq> EpGenerator
                                   \<or> ep_role supervisor \<noteq> EpSupervisorGenerator)) (\<lambda>_.
     Inr (channel_from_digests sha GeneratorChannel GENERATOR_CHANNEL_IDENTITY_DOMAIN
            (ep_digest generator) (ep_digest supervisor)))"

definition channel_worker ::
    "(bytes \<Rightarrow> bytes) \<Rightarrow> SeqpacketEndpoint \<Rightarrow> SeqpacketEndpoint \<Rightarrow> WireError + ChannelIdentity" where
  "channel_worker sha supervisor worker =
     and_then (drift EndpointPair (ep_role supervisor \<noteq> EpSupervisorWorker
                                   \<or> ep_role worker \<noteq> EpWorker)) (\<lambda>_.
     Inr (channel_from_digests sha WorkerChannel WORKER_CHANNEL_IDENTITY_DOMAIN
            (ep_digest supervisor) (ep_digest worker)))"

section \<open>Session offers\<close>

record SessionOfferInput =
  so_request :: RequestCommitment
  so_appliance_measurement :: bytes
  so_supervisor_measurement :: bytes
  so_generator_measurement :: bytes
  so_worker_measurement :: bytes
  so_supervisor_pid :: u32
  so_supervisor_start_epoch :: u64
  so_generator_channel :: ChannelIdentity
  so_worker_channel :: ChannelIdentity
  so_supervisor_generator_endpoint :: SeqpacketEndpoint
  so_receiver_user_namespace :: DescriptorIdentity

definition session_offer_new :: "SessionOfferInput \<Rightarrow> WireError + bytes" where
  "session_offer_new i =
     and_then (drift SupervisorProcessField
       (so_supervisor_pid i = 0 \<or> so_supervisor_start_epoch i = 0)) (\<lambda>_.
     and_then (drift SessionOfferChannel
       (ch_kind (so_generator_channel i) \<noteq> GeneratorChannel
        \<or> ch_kind (so_worker_channel i) \<noteq> WorkerChannel
        \<or> ep_role (so_supervisor_generator_endpoint i) \<noteq> EpSupervisorGenerator)) (\<lambda>_.
     and_then (push_lp16 SESSION_OFFER_DOMAIN) (\<lambda>domain.
     and_then (ok_or (u16_try_from G0_REQUEST_PREIMAGE_BYTES) ArithmeticOverflow) (\<lambda>request_len.
     into_array G0_SESSION_OFFER_BYTES
       (domain @ u16_to_le FRAME_VERSION @ u16_to_le request_len
        @ rq_preimage (so_request i) @ rq_digest (so_request i)
        @ so_appliance_measurement i @ so_supervisor_measurement i
        @ so_generator_measurement i @ so_worker_measurement i
        @ u32_to_le (so_supervisor_pid i) @ u64_to_le (so_supervisor_start_epoch i)
        @ ch_digest (so_generator_channel i) @ ch_digest (so_worker_channel i)
        @ ep_digest (so_supervisor_generator_endpoint i)
        @ encode_descriptor_identity (so_receiver_user_namespace i))))))"

section \<open>Commit and reveal\<close>

datatype NonceRole = NonceGenerator | NonceSupervisor

fun nonce_role_code :: "NonceRole \<Rightarrow> u8" where
  "nonce_role_code NonceGenerator = 0"
| "nonce_role_code NonceSupervisor = 1"

datatype PreSessionRecordKind =
  GeneratorCommit | SupervisorCommit | GeneratorReveal | SupervisorReveal

fun record_kind_code :: "PreSessionRecordKind \<Rightarrow> u8" where
  "record_kind_code GeneratorCommit = 0"
| "record_kind_code SupervisorCommit = 1"
| "record_kind_code GeneratorReveal = 2"
| "record_kind_code SupervisorReveal = 3"

definition nonce_commitment_from_digest ::
    "(bytes \<Rightarrow> bytes) \<Rightarrow> NonceRole \<Rightarrow> bytes \<Rightarrow> bytes \<Rightarrow> WireError + bytes" where
  "nonce_commitment_from_digest sha role request_digest nonce =
     and_then (drift NonceField (nonce = replicate 32 0)) (\<lambda>_.
     Inr (sha (NONCE_COMMITMENT_DOMAIN @ [nonce_role_code role] @ request_digest @ nonce)))"

definition nonce_commitment ::
    "(bytes \<Rightarrow> bytes) \<Rightarrow> NonceRole \<Rightarrow> RequestCommitment \<Rightarrow> bytes \<Rightarrow> WireError + bytes" where
  "nonce_commitment sha role request nonce =
     nonce_commitment_from_digest sha role (rq_digest request) nonce"

fun record_role :: "PreSessionRecordKind \<Rightarrow> NonceRole \<times> bool" where
  "record_role GeneratorCommit = (NonceGenerator, False)"
| "record_role SupervisorCommit = (NonceSupervisor, False)"
| "record_role GeneratorReveal = (NonceGenerator, True)"
| "record_role SupervisorReveal = (NonceSupervisor, True)"

definition encode_pre_session_record ::
    "(bytes \<Rightarrow> bytes) \<Rightarrow> PreSessionRecordKind \<Rightarrow> RequestCommitment \<Rightarrow> bytes \<Rightarrow> WireError + bytes" where
  "encode_pre_session_record sha kind request nonce =
     (let (role, reveal) = record_role kind in
      and_then (nonce_commitment sha role request nonce) (\<lambda>commitment.
      into_array G0_PRE_SESSION_RECORD_BYTES
        (PRE_SESSION_RECORD_MAGIC @ u16_to_le FRAME_VERSION @ [record_kind_code kind]
         @ rq_digest request @ (if reveal then nonce else commitment))))"

section \<open>Provider sessions\<close>

record ProviderSessionInput =
  ps_request :: RequestCommitment
  ps_appliance_measurement :: bytes
  ps_supervisor_measurement :: bytes
  ps_generator_measurement :: bytes
  ps_worker_measurement :: bytes
  ps_generator_nonce :: bytes
  ps_supervisor_nonce :: bytes
  ps_supervisor_pid :: u32
  ps_supervisor_start_epoch :: u64
  ps_generator_channel :: ChannelIdentity
  ps_worker_channel :: ChannelIdentity

record ProviderSession =
  pv_preimage :: bytes
  pv_session_id :: bytes
  pv_request_commitment :: bytes
  pv_generator_nonce_commitment :: bytes
  pv_supervisor_nonce_commitment :: bytes
  pv_generator_channel :: bytes
  pv_worker_channel :: bytes

definition provider_session_new ::
    "(bytes \<Rightarrow> bytes) \<Rightarrow> ProviderSessionInput \<Rightarrow> WireError + ProviderSession" where
  "provider_session_new sha i =
     and_then (drift SupervisorProcessField
       (ps_supervisor_pid i = 0 \<or> ps_supervisor_start_epoch i = 0)) (\<lambda>_.
     and_then (drift ProviderSessionChannel
       (ch_kind (ps_generator_channel i) \<noteq> GeneratorChannel
        \<or> ch_kind (ps_worker_channel i) \<noteq> WorkerChannel)) (\<lambda>_.
     and_then (nonce_commitment sha NonceGenerator (ps_request i) (ps_generator_nonce i)) (\<lambda>gen.
     and_then (nonce_commitment sha NonceSupervisor (ps_request i) (ps_supervisor_nonce i)) (\<lambda>sup.
     and_then (push_lp16 SESSION_PROTOCOL_ID) (\<lambda>protocol.
     and_then (into_array G0_PROVIDER_SESSION_PREIMAGE_BYTES
       (PROVIDER_SESSION_DOMAIN @ protocol @ rq_digest (ps_request i)
        @ ps_appliance_measurement i @ ps_supervisor_measurement i
        @ ps_generator_measurement i @ ps_worker_measurement i
        @ ps_generator_nonce i @ ps_supervisor_nonce i
        @ u32_to_le (ps_supervisor_pid i) @ u64_to_le (ps_supervisor_start_epoch i)
        @ ch_digest (ps_generator_channel i) @ ch_digest (ps_worker_channel i))) (\<lambda>preimage.
     Inr \<lparr>pv_preimage = preimage, pv_session_id = sha preimage,
          pv_request_commitment = rq_digest (ps_request i),
          pv_generator_nonce_commitment = gen, pv_supervisor_nonce_commitment = sup,
          pv_generator_channel = ch_digest (ps_generator_channel i),
          pv_worker_channel = ch_digest (ps_worker_channel i)\<rparr>))))))"

definition channel_generator_child ::
    "(bytes \<Rightarrow> bytes) \<Rightarrow> SeqpacketEndpoint \<Rightarrow> bytes \<Rightarrow> ProviderSession \<Rightarrow> WireError + ChannelIdentity" where
  "channel_generator_child sha local_endpoint peer_digest session =
     and_then (drift EndpointPair (ep_role local_endpoint \<noteq> EpGenerator)) (\<lambda>_.
     let channel = channel_from_digests sha GeneratorChannel GENERATOR_CHANNEL_IDENTITY_DOMAIN
           (ep_digest local_endpoint) peer_digest in
     and_then (drift EndpointPair (ch_digest channel \<noteq> pv_generator_channel session)) (\<lambda>_.
     Inr channel))"

definition channel_worker_child ::
    "(bytes \<Rightarrow> bytes) \<Rightarrow> SeqpacketEndpoint \<Rightarrow> bytes \<Rightarrow> ProviderSession \<Rightarrow> WireError + ChannelIdentity" where
  "channel_worker_child sha local_endpoint peer_digest session =
     and_then (drift EndpointPair (ep_role local_endpoint \<noteq> EpWorker)) (\<lambda>_.
     let channel = channel_from_digests sha WorkerChannel WORKER_CHANNEL_IDENTITY_DOMAIN
           peer_digest (ep_digest local_endpoint) in
     and_then (drift EndpointPair (ch_digest channel \<noteq> pv_worker_channel session)) (\<lambda>_.
     Inr channel))"

section \<open>Slotted descriptor records\<close>

text \<open>
  The manifests and inventories list commitments as records of a one-byte slot, a 16-bit length
  and the canonical commitment.
\<close>

definition slot_record :: "u8 \<times> FdCommitment \<Rightarrow> bytes" where
  "slot_record e = [fst e] @ u16_to_le (word_of_nat (length (commitment_bytes (snd e)))) @ commitment_bytes (snd e)"

lemma slot_record_pair:
  "slot_record (n, c) = [n] @ u16_to_le (word_of_nat (length (commitment_bytes c))) @ commitment_bytes c"
  by (simp add: slot_record_def)

interpretation slot_code: prefix_code "\<lambda>e. commitment_wf (snd e)" slot_record
proof
  fix a b :: "u8 \<times> FdCommitment" and u v
  assume "commitment_wf (snd a)" "commitment_wf (snd b)" "slot_record a @ u = slot_record b @ v"
  then show "a = b \<and> u = v"
    by (cases a; cases b) (auto simp: slot_record_def commitment_code.append_iff)
qed

fun number_from :: "nat \<Rightarrow> 'a list \<Rightarrow> (u8 \<times> 'a) list" where
  "number_from k [] = []"
| "number_from k (x # xs) = (word_of_nat k, x) # number_from (Suc k) xs"

lemma number_from_facts [simp]:
  "length (number_from k xs) = length xs" "map snd (number_from k xs) = xs"
  "number_from k xs = number_from k ys \<longleftrightarrow> xs = ys"
proof -
  show "length (number_from k xs) = length xs" "map snd (number_from k xs) = xs"
    by (induction xs arbitrary: k) simp_all
  show "number_from k xs = number_from k ys \<longleftrightarrow> xs = ys"
    by (induction xs arbitrary: k ys; case_tac ys) auto
qed

lemma list_all_number_from [simp]:
  "list_all (\<lambda>e. P (snd e)) (number_from k xs) = list_all P xs"
  by (induction xs arbitrary: k) simp_all

fun campaign_roles :: "nat \<Rightarrow> FdCommitment list \<Rightarrow> bool" where
  "campaign_roles k [] = True"
| "campaign_roles k (c # cs) \<longleftrightarrow> fc_role c = CampaignInput (word_of_nat k) \<and> campaign_roles (Suc k) cs"

lemma slot_records_length:
  "list_all commitment_wf cs \<Longrightarrow> list_all commitment_ok cs \<Longrightarrow> campaign_roles k cs \<Longrightarrow>
    length (concat (map slot_record (number_from j cs))) = 53 * length cs"
proof (induction cs arbitrary: k j)
  case (Cons c cs)
  then show ?case using Cons.IH [of "Suc k" "Suc j"] by (simp add: slot_record_pair length_admitted)
qed simp

section \<open>Exact forms\<close>

lemma push_lp16_iff: "push_lp16 v = Inr bs \<longleftrightarrow> length v < 65536 \<and> bs = u16_to_le (word_of_nat (length v)) @ v"
  by (auto simp: push_lp16_def try_from_counts)

lemma ingress_records_iff:
  assumes "list_all commitment_wf cs" "k + length cs \<le> 256"
  shows "ingress_records k cs = Inr bs \<longleftrightarrow>
    campaign_roles k cs \<and> list_all commitment_ok cs \<and> bs = concat (map slot_record (number_from k cs))"
  using assms
proof (induction cs arbitrary: k bs)
  case Nil
  then show ?case by auto
next
  case (Cons c cs)
  have n: "u8_try_from k = Some (word_of_nat k)" using Cons.prems by (simp add: u8_try_from_def)
  have IH: "ingress_records (Suc k) cs = Inr rest \<longleftrightarrow> campaign_roles (Suc k) cs
      \<and> list_all commitment_ok cs \<and> rest = concat (map slot_record (number_from (Suc k) cs))" for rest
    using Cons.prems Cons.IH [of "Suc k"] by simp
  show ?case
  proof (cases "fc_role c = CampaignInput (word_of_nat k) \<and> commitment_ok c")
    case True
    then have "encode_fd_commitment c = Inr (commitment_bytes c)"
      "encoded_fd_commitment_len c = Inr 50" "length (commitment_bytes c) = 50"
      using Cons.prems by (simp_all add: encode_fd_commitment_iff encoded_len_eq length_admitted)
    with True show ?thesis by (auto simp: n IH slot_record_pair)
  next
    case False
    then show ?thesis by (auto simp: n encode_fd_commitment_iff)
  qed
qed

definition ingress_bytes :: "FdCommitment list \<Rightarrow> bytes" where
  "ingress_bytes cs =
     SEALED_INGRESS_MANIFEST_DOMAIN @ u16_to_le FRAME_VERSION @ [word_of_nat (length cs)]
     @ concat (map slot_record (number_from 0 cs))"

definition ingress_ok :: "FdCommitment list \<Rightarrow> bool" where
  "ingress_ok cs \<longleftrightarrow> length cs \<le> 15 \<and> campaign_roles 0 cs \<and> list_all commitment_ok cs"

lemma sealed_ingress_iff:
  assumes "list_all commitment_wf cs"
  shows "sealed_ingress_new sha cs = Inr m \<longleftrightarrow>
    ingress_ok cs
    \<and> m = \<lparr>si_bytes = ingress_bytes cs, si_count = word_of_nat (length cs), si_digest = sha (ingress_bytes cs)\<rparr>"
proof (cases "length cs \<le> 15")
  case True
  then have "ingress_records 0 cs = Inr bs \<longleftrightarrow> campaign_roles 0 cs \<and> list_all commitment_ok cs
      \<and> bs = concat (map slot_record (number_from 0 cs))" for bs
    using assms by (simp add: ingress_records_iff)
  with True show ?thesis
    by (auto simp: sealed_ingress_new_def size_defs try_from_counts ingress_bytes_def ingress_ok_def
        usize_limit_def Let_def)
next
  case False
  then show ?thesis by (simp add: sealed_ingress_new_def ingress_ok_def size_defs)
qed

lemma length_ingress_bytes:
  "list_all commitment_wf cs \<Longrightarrow> ingress_ok cs \<Longrightarrow> length (ingress_bytes cs) = 44 + 53 * length cs"
  by (simp add: ingress_bytes_def ingress_ok_def slot_records_length [where k=0])

lemma ingress_bytes_inject:
  assumes "list_all commitment_wf cs" "list_all commitment_wf ds" "ingress_ok cs" "ingress_ok ds"
  shows "ingress_bytes cs = ingress_bytes ds \<longleftrightarrow> cs = ds"
proof
  assume eq: "ingress_bytes cs = ingress_bytes ds"
  have "length cs = length ds"
    using arg_cong [OF eq, of length] assms by (simp add: length_ingress_bytes)
  then show "cs = ds"
    using eq assms
      slot_code.concat_iff [of "number_from 0 cs" "number_from 0 ds" "[]" "[]"]
    by (simp add: ingress_bytes_def)
qed simp

definition target_bytes :: "FdCommitment \<Rightarrow> bytes \<Rightarrow> bytes \<Rightarrow> bytes" where
  "target_bytes root a b =
     PUBLICATION_TARGET_DOMAIN @ u16_to_le 30 @ commitment_bytes root @ a @ b"

lemma publication_target_iff:
  assumes "commitment_wf root" "length a = 32" "length b = 32"
  shows "publication_target_new sha root a b = Inr p \<longleftrightarrow>
    fc_role root = PublicationRoot \<and> commitment_ok root
    \<and> p = \<lparr>pt_preimage = target_bytes root a b, pt_digest = sha (target_bytes root a b)\<rparr>"
proof (cases "fc_role root = PublicationRoot \<and> commitment_ok root")
  case True
  then have "encode_fd_commitment root = Inr (commitment_bytes root)"
    "encoded_fd_commitment_len root = Inr 30" "length (commitment_bytes root) = 30"
    using assms by (simp_all add: encode_fd_commitment_iff encoded_len_eq length_admitted)
  with True assms show ?thesis by (auto simp: publication_target_new_def target_bytes_def)
next
  case False
  then show ?thesis by (auto simp: publication_target_new_def encode_fd_commitment_iff)
qed

lemma target_bytes_inject:
  assumes "commitment_wf r" "commitment_wf r'" "length a = 32" "length a' = 32"
  shows "target_bytes r a b = target_bytes r' a' b' \<longleftrightarrow> r = r' \<and> a = a' \<and> b = b'"
  using assms by (simp add: target_bytes_def commitment_code.append_iff)

definition role_block_wf :: "RequestRoleBlock \<Rightarrow> bool" where
  "role_block_wf b \<longleftrightarrow> length (rb_runner_ai b) = 32 \<and> length (rb_oci_layout_commitment b) = 32
     \<and> length (rb_rootfs_plan_commitment b) = 32"

interpretation block_code: sized_code role_block_wf encode_role_block 97
proof
  fix a b :: RequestRoleBlock
  assume "role_block_wf a" "role_block_wf b" "encode_role_block a = encode_role_block b"
  then show "a = b" by (cases a; cases b) (simp add: encode_role_block_def role_block_wf_def)
next
  fix a
  assume "role_block_wf a"
  then show "length (encode_role_block a) = 97"
    by (simp add: encode_role_block_def role_block_wf_def)
qed

definition request_bytes ::
    "bytes \<Rightarrow> bytes \<Rightarrow> bytes \<Rightarrow> SealedIngressManifest \<Rightarrow> PublicationTarget \<Rightarrow> RequestRoleBlock list \<Rightarrow> bytes" where
  "request_bytes e i g ingress target blocks =
     REQUEST_COMMITMENT_DOMAIN @ u16_to_le FRAME_VERSION @ (u16_to_le 37 @ PROVIDER_ID)
     @ (u16_to_le 55 @ POLICY_ID) @ (u16_to_le 43 @ SESSION_PROTOCOL_ID)
     @ (u16_to_le 33 @ APPLIANCE_ID) @ e @ i @ g @ [si_count ingress]
     @ u64_to_le (word_of_nat (length (si_bytes ingress))) @ si_digest ingress
     @ pt_digest target @ [4] @ concat (map encode_role_block blocks)"

lemma push_lp16_ids [simp]:
  "push_lp16 PROVIDER_ID = Inr (u16_to_le 37 @ PROVIDER_ID)"
  "push_lp16 POLICY_ID = Inr (u16_to_le 55 @ POLICY_ID)"
  "push_lp16 SESSION_PROTOCOL_ID = Inr (u16_to_le 43 @ SESSION_PROTOCOL_ID)"
  "push_lp16 APPLIANCE_ID = Inr (u16_to_le 33 @ APPLIANCE_ID)"
  "push_lp16 SESSION_OFFER_DOMAIN = Inr (u16_to_le 31 @ SESSION_OFFER_DOMAIN)"
  by (simp_all add: push_lp16_iff)

lemma check_role_order_iff:
  "check_role_order k bs = Inr u \<longleftrightarrow>
    map (\<lambda>b. unat (replay_role_code (rb_role b))) bs = [k..<k + length bs]"
proof (induction bs arbitrary: k)
  case (Cons b bs)
  have "[k..<k + length (b # bs)] = k # [Suc k..<Suc k + length bs]"
    by (simp add: upt_rec)
  then show ?case using Cons.IH [of "Suc k"] by simp
qed simp

lemma role_order:
  "length bs = 4 \<Longrightarrow> check_role_order 0 bs = Inr u \<longleftrightarrow> map rb_role bs = replay_roles"
proof -
  have code: "unat (replay_role_code r) = replay_role_ordinal r" for r by (cases r) simp_all
  have ordinal: "replay_role_ordinal r = replay_role_ordinal r' \<longleftrightarrow> r = r'" for r r'
    by (cases r; cases r') simp_all
  assume four: "length bs = 4"
  have "[0..<4] = map replay_role_ordinal replay_roles" by (simp add: replay_roles_def upt_rec)
  then have "check_role_order 0 bs = Inr u \<longleftrightarrow>
      map replay_role_ordinal (map rb_role bs) = map replay_role_ordinal replay_roles"
    using four by (simp add: check_role_order_iff code comp_def)
  also have "\<dots> \<longleftrightarrow> map rb_role bs = replay_roles"
    by (rule inj_map_eq_map) (simp add: inj_def ordinal)
  finally show ?thesis .
qed

text \<open>An ingress value is what its constructor made; the other arguments are arrays.\<close>

definition ingress_made :: "SealedIngressManifest \<Rightarrow> bool" where
  "ingress_made m \<longleftrightarrow> length (si_bytes m) = 44 + 53 * unat (si_count m) \<and> length (si_digest m) = 32"

lemma request_iff:
  assumes "length e = 32" "length i = 32" "length g = 32" "ingress_made m"
    and "length (pt_digest p) = 32" "length blocks = 4" "list_all role_block_wf blocks"
  shows "request_new sha e i g m p blocks = Inr r \<longleftrightarrow>
    map rb_role blocks = replay_roles
    \<and> r = \<lparr>rq_preimage = request_bytes e i g m p blocks,
          rq_digest = sha (request_bytes e i g m p blocks), rq_ingress_count = si_count m\<rparr>"
proof -
  have "length (request_bytes e i g m p blocks) = 772"
    using assms by (simp add: request_bytes_def ingress_made_def block_code.length_concat)
  then show ?thesis
    using assms unat_u8_bound [of "si_count m"]
    by (auto simp: request_new_def role_order ingress_made_def usize_limit_def u64_try_from_iff
        size_defs request_bytes_def)
qed

definition offer_bytes :: "SessionOfferInput \<Rightarrow> bytes" where
  "offer_bytes i =
     (u16_to_le 31 @ SESSION_OFFER_DOMAIN) @ u16_to_le FRAME_VERSION @ u16_to_le 772
     @ rq_preimage (so_request i) @ rq_digest (so_request i)
     @ so_appliance_measurement i @ so_supervisor_measurement i
     @ so_generator_measurement i @ so_worker_measurement i
     @ u32_to_le (so_supervisor_pid i) @ u64_to_le (so_supervisor_start_epoch i)
     @ ch_digest (so_generator_channel i) @ ch_digest (so_worker_channel i)
     @ ep_digest (so_supervisor_generator_endpoint i)
     @ encode_descriptor_identity (so_receiver_user_namespace i)"

lemma session_offer_iff:
  "session_offer_new i = Inr bs \<longleftrightarrow>
    so_supervisor_pid i \<noteq> 0 \<and> so_supervisor_start_epoch i \<noteq> 0
    \<and> ch_kind (so_generator_channel i) = GeneratorChannel
    \<and> ch_kind (so_worker_channel i) = WorkerChannel
    \<and> ep_role (so_supervisor_generator_endpoint i) = EpSupervisorGenerator
    \<and> length (offer_bytes i) = 1101 \<and> bs = offer_bytes i"
proof -
  have "u16_try_from 772 = Some 772" by (simp add: try_from_counts)
  then show ?thesis by (auto simp: session_offer_new_def offer_bytes_def size_defs)
qed

definition session_bytes :: "ProviderSessionInput \<Rightarrow> bytes" where
  "session_bytes i =
     PROVIDER_SESSION_DOMAIN @ (u16_to_le 43 @ SESSION_PROTOCOL_ID) @ rq_digest (ps_request i)
     @ ps_appliance_measurement i @ ps_supervisor_measurement i
     @ ps_generator_measurement i @ ps_worker_measurement i
     @ ps_generator_nonce i @ ps_supervisor_nonce i
     @ u32_to_le (ps_supervisor_pid i) @ u64_to_le (ps_supervisor_start_epoch i)
     @ ch_digest (ps_generator_channel i) @ ch_digest (ps_worker_channel i)"

definition nonce_bytes :: "NonceRole \<Rightarrow> bytes \<Rightarrow> bytes \<Rightarrow> bytes" where
  "nonce_bytes role request_digest nonce =
     NONCE_COMMITMENT_DOMAIN @ [nonce_role_code role] @ request_digest @ nonce"

lemma nonce_from_digest_iff:
  "nonce_commitment_from_digest sha role d nonce = Inr c \<longleftrightarrow>
    nonce \<noteq> replicate 32 0 \<and> c = sha (nonce_bytes role d nonce)"
  by (auto simp: nonce_commitment_from_digest_def nonce_bytes_def)

lemma nonce_commitment_iff:
  "nonce_commitment sha role r nonce = Inr c \<longleftrightarrow>
    nonce \<noteq> replicate 32 0 \<and> c = sha (nonce_bytes role (rq_digest r) nonce)"
  by (simp add: nonce_commitment_def nonce_from_digest_iff)

lemma provider_session_iff:
  "provider_session_new sha i = Inr s \<longleftrightarrow>
    ps_supervisor_pid i \<noteq> 0 \<and> ps_supervisor_start_epoch i \<noteq> 0
    \<and> ch_kind (ps_generator_channel i) = GeneratorChannel
    \<and> ch_kind (ps_worker_channel i) = WorkerChannel
    \<and> ps_generator_nonce i \<noteq> replicate 32 0 \<and> ps_supervisor_nonce i \<noteq> replicate 32 0
    \<and> length (session_bytes i) = 373
    \<and> s = \<lparr>pv_preimage = session_bytes i, pv_session_id = sha (session_bytes i),
          pv_request_commitment = rq_digest (ps_request i),
          pv_generator_nonce_commitment = sha (nonce_bytes NonceGenerator (rq_digest (ps_request i)) (ps_generator_nonce i)),
          pv_supervisor_nonce_commitment = sha (nonce_bytes NonceSupervisor (rq_digest (ps_request i)) (ps_supervisor_nonce i)),
          pv_generator_channel = ch_digest (ps_generator_channel i),
          pv_worker_channel = ch_digest (ps_worker_channel i)\<rparr>"
  by (auto simp: provider_session_new_def nonce_commitment_iff session_bytes_def size_defs)

definition record_bytes :: "(bytes \<Rightarrow> bytes) \<Rightarrow> PreSessionRecordKind \<Rightarrow> RequestCommitment \<Rightarrow> bytes \<Rightarrow> bytes" where
  "record_bytes sha kind request nonce =
     PRE_SESSION_RECORD_MAGIC @ u16_to_le FRAME_VERSION @ [record_kind_code kind] @ rq_digest request
     @ (if snd (record_role kind) then nonce
        else sha (nonce_bytes (fst (record_role kind)) (rq_digest request) nonce))"

lemma pre_session_record_iff:
  "encode_pre_session_record sha kind request nonce = Inr bs \<longleftrightarrow>
    nonce \<noteq> replicate 32 0 \<and> length (record_bytes sha kind request nonce) = 75
    \<and> bs = record_bytes sha kind request nonce"
  by (cases kind)
    (auto simp: encode_pre_session_record_def nonce_commitment_iff record_bytes_def size_defs)

end
