(* ===== verification/WireSessionBinding.thy ===== *)
theory WireSessionBinding
  imports WireSession
begin

text \<open>
  What the session identifier of an attempt commits to. The constructors of \<open>WireSession\<close> are
  composed in the order in which the supervisor needs their results; equal identifiers then mean
  equal facts, unless two different strings hashed at the same place collide.
\<close>

section \<open>What a session identifier binds\<close>

text \<open>
  Everything the supervisor commits to when it derives the request and the session of an attempt,
  and the derivation: the constructors in the order in which their results are needed.
\<close>

record RequestFacts =
  rf_allocation_epoch :: bytes
  rf_positive_input_set :: bytes
  rf_positive_generation_set :: bytes
  rf_ingress :: "FdCommitment list"
  rf_publication_root :: FdCommitment
  rf_destination_input :: bytes
  rf_destination_completion :: bytes
  rf_role_blocks :: "RequestRoleBlock list"

record SessionFacts = RequestFacts +
  sf_appliance_measurement :: bytes
  sf_supervisor_measurement :: bytes
  sf_generator_measurement :: bytes
  sf_worker_measurement :: bytes
  sf_generator_nonce :: bytes
  sf_supervisor_nonce :: bytes
  sf_supervisor_pid :: u32
  sf_supervisor_start_epoch :: u64
  sf_endpoints :: "SeqpacketEndpointRole \<Rightarrow> DescriptorIdentity \<times> u64"

definition facts_request :: "(bytes \<Rightarrow> bytes) \<Rightarrow> SessionFacts \<Rightarrow> WireError + RequestCommitment" where
  "facts_request sha f =
     and_then (sealed_ingress_new sha (rf_ingress f)) (\<lambda>ingress.
     and_then (publication_target_new sha (rf_publication_root f) (rf_destination_input f)
                (rf_destination_completion f)) (\<lambda>target.
     request_new sha (rf_allocation_epoch f) (rf_positive_input_set f)
       (rf_positive_generation_set f) ingress target (rf_role_blocks f)))"

definition facts_endpoint ::
    "(bytes \<Rightarrow> bytes) \<Rightarrow> SessionFacts \<Rightarrow> SeqpacketEndpointRole \<Rightarrow> SeqpacketEndpoint" where
  "facts_endpoint sha f role =
     endpoint_from_observation sha role (fst (sf_endpoints f role)) (snd (sf_endpoints f role))"

definition facts_session :: "(bytes \<Rightarrow> bytes) \<Rightarrow> SessionFacts \<Rightarrow> WireError + ProviderSession" where
  "facts_session sha f =
     and_then (facts_request sha f) (\<lambda>request.
     and_then (channel_generator sha (facts_endpoint sha f EpGenerator)
                (facts_endpoint sha f EpSupervisorGenerator)) (\<lambda>generator_channel.
     and_then (channel_worker sha (facts_endpoint sha f EpSupervisorWorker)
                (facts_endpoint sha f EpWorker)) (\<lambda>worker_channel.
     provider_session_new sha
       \<lparr>ps_request = request, ps_appliance_measurement = sf_appliance_measurement f,
        ps_supervisor_measurement = sf_supervisor_measurement f,
        ps_generator_measurement = sf_generator_measurement f,
        ps_worker_measurement = sf_worker_measurement f,
        ps_generator_nonce = sf_generator_nonce f, ps_supervisor_nonce = sf_supervisor_nonce f,
        ps_supervisor_pid = sf_supervisor_pid f,
        ps_supervisor_start_epoch = sf_supervisor_start_epoch f,
        ps_generator_channel = generator_channel, ps_worker_channel = worker_channel\<rparr>)))"

text \<open>The lengths of the fixed-size arrays among the facts.\<close>

definition facts_wf :: "SessionFacts \<Rightarrow> bool" where
  "facts_wf f \<longleftrightarrow>
     list_all (\<lambda>bs. length bs = 32)
       [rf_allocation_epoch f, rf_positive_input_set f, rf_positive_generation_set f,
        rf_destination_input f, rf_destination_completion f, sf_appliance_measurement f,
        sf_supervisor_measurement f, sf_generator_measurement f, sf_worker_measurement f,
        sf_generator_nonce f, sf_supervisor_nonce f]
     \<and> list_all commitment_wf (rf_ingress f) \<and> commitment_wf (rf_publication_root f)
     \<and> length (rf_role_blocks f) = 4 \<and> list_all role_block_wf (rf_role_blocks f)"

text \<open>The strings hashed on the way to the session identifier.\<close>

definition hashed_ingress :: "(bytes \<Rightarrow> bytes) \<Rightarrow> SessionFacts \<Rightarrow> SealedIngressManifest" where
  "hashed_ingress sha f =
     \<lparr>si_bytes = ingress_bytes (rf_ingress f), si_count = word_of_nat (length (rf_ingress f)),
      si_digest = sha (ingress_bytes (rf_ingress f))\<rparr>"

definition hashed_target :: "(bytes \<Rightarrow> bytes) \<Rightarrow> SessionFacts \<Rightarrow> PublicationTarget" where
  "hashed_target sha f =
     (let bs = target_bytes (rf_publication_root f) (rf_destination_input f) (rf_destination_completion f) in
      \<lparr>pt_preimage = bs, pt_digest = sha bs\<rparr>)"

definition hashed_request :: "(bytes \<Rightarrow> bytes) \<Rightarrow> SessionFacts \<Rightarrow> bytes" where
  "hashed_request sha f =
     request_bytes (rf_allocation_epoch f) (rf_positive_input_set f) (rf_positive_generation_set f)
       (hashed_ingress sha f) (hashed_target sha f) (rf_role_blocks f)"

definition hashed_channel ::
    "(bytes \<Rightarrow> bytes) \<Rightarrow> SessionFacts \<Rightarrow> bytes \<Rightarrow> SeqpacketEndpointRole \<Rightarrow> SeqpacketEndpointRole \<Rightarrow> bytes" where
  "hashed_channel sha f domain a b =
     domain @ ep_digest (facts_endpoint sha f a) @ ep_digest (facts_endpoint sha f b)"

definition hashed_strings :: "(bytes \<Rightarrow> bytes) \<Rightarrow> SessionFacts \<Rightarrow> ProviderSession \<Rightarrow> bytes list" where
  "hashed_strings sha f s =
     [pv_preimage s, hashed_request sha f, si_bytes (hashed_ingress sha f),
      pt_preimage (hashed_target sha f),
      hashed_channel sha f GENERATOR_CHANNEL_IDENTITY_DOMAIN EpGenerator EpSupervisorGenerator,
      hashed_channel sha f WORKER_CHANNEL_IDENTITY_DOMAIN EpSupervisorWorker EpWorker,
      ep_preimage (facts_endpoint sha f EpGenerator),
      ep_preimage (facts_endpoint sha f EpSupervisorGenerator),
      ep_preimage (facts_endpoint sha f EpSupervisorWorker),
      ep_preimage (facts_endpoint sha f EpWorker)]"

text \<open>Two different strings at the same place with the same digest.\<close>

definition collides :: "(bytes \<Rightarrow> bytes) \<Rightarrow> bytes list \<Rightarrow> bytes list \<Rightarrow> bool" where
  "collides sha xs ys \<longleftrightarrow> list_ex (\<lambda>(x, y). x \<noteq> y \<and> sha x = sha y) (zip xs ys)"

definition digests_32 :: "(bytes \<Rightarrow> bytes) \<Rightarrow> bool" where
  "digests_32 sha \<longleftrightarrow> (\<forall>x. length (sha x) = 32)"

lemma endpoint_role_code_inject [simp]: "endpoint_role_code a = endpoint_role_code b \<longleftrightarrow> a = b"
  by (cases a; cases b) simp_all

lemma endpoint_preimage_inject:
  "ep_preimage (endpoint_from_observation sha r d c) = ep_preimage (endpoint_from_observation sha r' d' c')
    \<longleftrightarrow> r = r' \<and> d = d' \<and> c = c'"
  by (auto simp: endpoint_from_observation_def Let_def)

lemma endpoint_observed [simp]:
  "ep_role (endpoint_from_observation sha r d c) = r"
  "ep_digest (endpoint_from_observation sha r d c) = sha (ep_preimage (endpoint_from_observation sha r d c))"
  "length (ep_preimage (endpoint_from_observation sha r d c)) = 83"
  by (simp_all add: endpoint_from_observation_def Let_def)

lemma facts_request_iff:
  assumes "digests_32 sha" "facts_wf f"
  shows "facts_request sha f = Inr r \<longleftrightarrow>
    ingress_ok (rf_ingress f) \<and> fc_role (rf_publication_root f) = PublicationRoot
    \<and> commitment_ok (rf_publication_root f) \<and> map rb_role (rf_role_blocks f) = replay_roles
    \<and> r = \<lparr>rq_preimage = hashed_request sha f, rq_digest = sha (hashed_request sha f),
          rq_ingress_count = word_of_nat (length (rf_ingress f))\<rparr>"
proof -
  have made: "ingress_made (hashed_ingress sha f)" if "ingress_ok (rf_ingress f)"
    using that assms
    by (simp add: ingress_made_def hashed_ingress_def length_ingress_bytes facts_wf_def digests_32_def
        unat_of_nat ingress_ok_def)
  have wf: "length (rf_allocation_epoch f) = 32" "length (rf_positive_input_set f) = 32"
    "length (rf_positive_generation_set f) = 32" "length (rf_destination_input f) = 32"
    "length (rf_destination_completion f) = 32" "list_all commitment_wf (rf_ingress f)"
    "commitment_wf (rf_publication_root f)" "length (rf_role_blocks f) = 4"
    "list_all role_block_wf (rf_role_blocks f)" "length (pt_digest (hashed_target sha f)) = 32"
    using assms by (simp_all add: facts_wf_def digests_32_def hashed_target_def Let_def)
  have "facts_request sha f = Inr r \<longleftrightarrow>
      ingress_ok (rf_ingress f) \<and> fc_role (rf_publication_root f) = PublicationRoot
      \<and> commitment_ok (rf_publication_root f)
      \<and> request_new sha (rf_allocation_epoch f) (rf_positive_input_set f) (rf_positive_generation_set f)
          (hashed_ingress sha f) (hashed_target sha f) (rf_role_blocks f) = Inr r"
    by (auto simp: facts_request_def sealed_ingress_iff publication_target_iff wf
        hashed_ingress_def hashed_target_def Let_def)
  moreover have "si_count (hashed_ingress sha f) = word_of_nat (length (rf_ingress f))"
    by (simp add: hashed_ingress_def)
  ultimately show ?thesis
    using request_iff [OF wf(1-3) made wf(10,8,9)] unfolding hashed_request_def by auto
qed

definition facts_channel_digests :: "(bytes \<Rightarrow> bytes) \<Rightarrow> SessionFacts \<Rightarrow> bytes \<times> bytes" where
  "facts_channel_digests sha f =
     (sha (hashed_channel sha f GENERATOR_CHANNEL_IDENTITY_DOMAIN EpGenerator EpSupervisorGenerator),
      sha (hashed_channel sha f WORKER_CHANNEL_IDENTITY_DOMAIN EpSupervisorWorker EpWorker))"

definition hashed_session :: "(bytes \<Rightarrow> bytes) \<Rightarrow> SessionFacts \<Rightarrow> bytes" where
  "hashed_session sha f =
     PROVIDER_SESSION_DOMAIN @ (u16_to_le 43 @ SESSION_PROTOCOL_ID) @ sha (hashed_request sha f)
     @ sf_appliance_measurement f @ sf_supervisor_measurement f
     @ sf_generator_measurement f @ sf_worker_measurement f
     @ sf_generator_nonce f @ sf_supervisor_nonce f
     @ u32_to_le (sf_supervisor_pid f) @ u64_to_le (sf_supervisor_start_epoch f)
     @ fst (facts_channel_digests sha f) @ snd (facts_channel_digests sha f)"

definition facts_ok :: "SessionFacts \<Rightarrow> bool" where
  "facts_ok f \<longleftrightarrow>
     ingress_ok (rf_ingress f) \<and> fc_role (rf_publication_root f) = PublicationRoot
     \<and> commitment_ok (rf_publication_root f) \<and> map rb_role (rf_role_blocks f) = replay_roles
     \<and> sf_supervisor_pid f \<noteq> 0 \<and> sf_supervisor_start_epoch f \<noteq> 0
     \<and> sf_generator_nonce f \<noteq> replicate 32 0 \<and> sf_supervisor_nonce f \<noteq> replicate 32 0"

definition session_value :: "(bytes \<Rightarrow> bytes) \<Rightarrow> SessionFacts \<Rightarrow> ProviderSession" where
  "session_value sha f =
     \<lparr>pv_preimage = hashed_session sha f, pv_session_id = sha (hashed_session sha f),
      pv_request_commitment = sha (hashed_request sha f),
      pv_generator_nonce_commitment = sha (nonce_bytes NonceGenerator (sha (hashed_request sha f)) (sf_generator_nonce f)),
      pv_supervisor_nonce_commitment = sha (nonce_bytes NonceSupervisor (sha (hashed_request sha f)) (sf_supervisor_nonce f)),
      pv_generator_channel = fst (facts_channel_digests sha f),
      pv_worker_channel = snd (facts_channel_digests sha f)\<rparr>"

lemma length_hashed_session:
  "digests_32 sha \<Longrightarrow> facts_wf f \<Longrightarrow> length (hashed_session sha f) = 373"
  by (simp add: hashed_session_def facts_wf_def digests_32_def facts_channel_digests_def)

lemma facts_session_iff:
  assumes "digests_32 sha" "facts_wf f"
  shows "facts_session sha f = Inr s \<longleftrightarrow> facts_ok f \<and> s = session_value sha f"
proof -
  have ends: "ep_role (facts_endpoint sha f r) = r" for r by (simp add: facts_endpoint_def)
  have bytes: "session_bytes
      \<lparr>ps_request = \<lparr>rq_preimage = hashed_request sha f, rq_digest = sha (hashed_request sha f),
                     rq_ingress_count = n\<rparr>,
       ps_appliance_measurement = sf_appliance_measurement f,
       ps_supervisor_measurement = sf_supervisor_measurement f,
       ps_generator_measurement = sf_generator_measurement f,
       ps_worker_measurement = sf_worker_measurement f,
       ps_generator_nonce = sf_generator_nonce f, ps_supervisor_nonce = sf_supervisor_nonce f,
       ps_supervisor_pid = sf_supervisor_pid f,
       ps_supervisor_start_epoch = sf_supervisor_start_epoch f,
       ps_generator_channel = \<lparr>ch_kind = GeneratorChannel, ch_digest = fst (facts_channel_digests sha f)\<rparr>,
       ps_worker_channel = \<lparr>ch_kind = WorkerChannel, ch_digest = snd (facts_channel_digests sha f)\<rparr>\<rparr>
      = hashed_session sha f" for n
    by (simp add: session_bytes_def hashed_session_def)
  have channels:
    "channel_generator sha (facts_endpoint sha f EpGenerator) (facts_endpoint sha f EpSupervisorGenerator)
      = Inr \<lparr>ch_kind = GeneratorChannel, ch_digest = fst (facts_channel_digests sha f)\<rparr>"
    "channel_worker sha (facts_endpoint sha f EpSupervisorWorker) (facts_endpoint sha f EpWorker)
      = Inr \<lparr>ch_kind = WorkerChannel, ch_digest = snd (facts_channel_digests sha f)\<rparr>"
    by (simp_all add: channel_generator_def channel_worker_def ends channel_from_digests_def
        facts_channel_digests_def hashed_channel_def drift_def)
  show ?thesis
    by (auto simp: facts_session_def facts_request_iff [OF assms] channels provider_session_iff bytes
        length_hashed_session [OF assms] facts_ok_def session_value_def)
qed

lemma facts_session_preimage:
  assumes "digests_32 sha" "facts_wf f" "facts_session sha f = Inr s"
  shows "ingress_ok (rf_ingress f) \<and> pv_preimage s = hashed_session sha f
    \<and> pv_session_id s = sha (hashed_session sha f)"
  using assms by (simp add: facts_session_iff facts_ok_def session_value_def)

lemma hashed_session_inject:
  assumes "digests_32 sha" "facts_wf f" "facts_wf g"
  shows "hashed_session sha f = hashed_session sha g \<longleftrightarrow>
    sha (hashed_request sha f) = sha (hashed_request sha g)
    \<and> sf_appliance_measurement f = sf_appliance_measurement g
    \<and> sf_supervisor_measurement f = sf_supervisor_measurement g
    \<and> sf_generator_measurement f = sf_generator_measurement g
    \<and> sf_worker_measurement f = sf_worker_measurement g
    \<and> sf_generator_nonce f = sf_generator_nonce g \<and> sf_supervisor_nonce f = sf_supervisor_nonce g
    \<and> sf_supervisor_pid f = sf_supervisor_pid g
    \<and> sf_supervisor_start_epoch f = sf_supervisor_start_epoch g
    \<and> facts_channel_digests sha f = facts_channel_digests sha g"
  using assms
  by (auto simp: hashed_session_def facts_wf_def digests_32_def facts_channel_digests_def)

lemma hashed_request_inject:
  assumes "digests_32 sha" "facts_wf f" "facts_wf g" "hashed_request sha f = hashed_request sha g"
  shows "rf_allocation_epoch f = rf_allocation_epoch g
    \<and> rf_positive_input_set f = rf_positive_input_set g
    \<and> rf_positive_generation_set f = rf_positive_generation_set g
    \<and> sha (ingress_bytes (rf_ingress f)) = sha (ingress_bytes (rf_ingress g))
    \<and> pt_digest (hashed_target sha f) = pt_digest (hashed_target sha g)
    \<and> rf_role_blocks f = rf_role_blocks g"
proof -
  have len: "length (pt_digest (hashed_target sha f)) = 32" "length (pt_digest (hashed_target sha g)) = 32"
    using assms(1) by (simp_all add: digests_32_def hashed_target_def Let_def)
  have "concat (map encode_role_block (rf_role_blocks f)) = concat (map encode_role_block (rf_role_blocks g))
      \<longleftrightarrow> rf_role_blocks f = rf_role_blocks g"
    using block_code.concat_iff [of "rf_role_blocks f" "rf_role_blocks g" "[]" "[]"] assms(2,3)
    by (simp add: facts_wf_def)
  with assms len show ?thesis
    by (simp add: hashed_request_def request_bytes_def facts_wf_def digests_32_def hashed_ingress_def)
qed

lemma endpoints_equal:
  assumes "\<And>r. ep_digest (facts_endpoint sha f r) = ep_digest (facts_endpoint sha g r)"
    and "\<And>r. sha (ep_preimage (facts_endpoint sha f r)) = sha (ep_preimage (facts_endpoint sha g r)) \<Longrightarrow>
           ep_preimage (facts_endpoint sha f r) = ep_preimage (facts_endpoint sha g r)"
  shows "sf_endpoints f = sf_endpoints g"
proof
  fix r
  have "ep_preimage (facts_endpoint sha f r) = ep_preimage (facts_endpoint sha g r)"
    using assms(1) [of r] by (intro assms(2)) (simp add: facts_endpoint_def)
  then show "sf_endpoints f r = sf_endpoints g r"
    by (simp add: facts_endpoint_def endpoint_preimage_inject prod_eq_iff)
qed

lemma no_collision:
  assumes "\<not> collides sha (hashed_strings sha f s) (hashed_strings sha g t)"
  shows "sha (pv_preimage s) = sha (pv_preimage t) \<Longrightarrow> pv_preimage s = pv_preimage t"
    and "sha (hashed_request sha f) = sha (hashed_request sha g) \<Longrightarrow> hashed_request sha f = hashed_request sha g"
    and "sha (si_bytes (hashed_ingress sha f)) = sha (si_bytes (hashed_ingress sha g)) \<Longrightarrow>
          si_bytes (hashed_ingress sha f) = si_bytes (hashed_ingress sha g)"
    and "sha (pt_preimage (hashed_target sha f)) = sha (pt_preimage (hashed_target sha g)) \<Longrightarrow>
          pt_preimage (hashed_target sha f) = pt_preimage (hashed_target sha g)"
    and "facts_channel_digests sha f = facts_channel_digests sha g \<Longrightarrow>
          hashed_channel sha f GENERATOR_CHANNEL_IDENTITY_DOMAIN EpGenerator EpSupervisorGenerator
            = hashed_channel sha g GENERATOR_CHANNEL_IDENTITY_DOMAIN EpGenerator EpSupervisorGenerator
          \<and> hashed_channel sha f WORKER_CHANNEL_IDENTITY_DOMAIN EpSupervisorWorker EpWorker
            = hashed_channel sha g WORKER_CHANNEL_IDENTITY_DOMAIN EpSupervisorWorker EpWorker"
    and "sha (ep_preimage (facts_endpoint sha f r)) = sha (ep_preimage (facts_endpoint sha g r)) \<Longrightarrow>
          ep_preimage (facts_endpoint sha f r) = ep_preimage (facts_endpoint sha g r)"
  using assms by (cases r; auto simp: collides_def hashed_strings_def facts_channel_digests_def)+

section \<open>Properties\<close>

text \<open>
  C8. Two attempts that derive the same session identifier committed to the same facts: the same
  request (allocation epoch, input and generation sets, ordered ingress commitments, publication
  root and destinations, role blocks), the same measurements, nonces and supervisor process, and
  the same four endpoint observations; otherwise two of the strings hashed on the way are
  different and have the same SHA-256 digest.
\<close>

theorem session_id_binds_facts:
  assumes "digests_32 sha" "facts_wf f" "facts_wf g"
    and "facts_session sha f = Inr s" "facts_session sha g = Inr t"
    and "pv_session_id s = pv_session_id t"
  shows "f = g \<or> collides sha (hashed_strings sha f s) (hashed_strings sha g t)"
proof (rule disjCI)
  assume none: "\<not> collides sha (hashed_strings sha f s) (hashed_strings sha g t)"
  note binds = no_collision [OF none]
  note s = facts_session_preimage [OF assms(1,2,4)] and t = facts_session_preimage [OF assms(1,3,5)]
  have "hashed_session sha f = hashed_session sha g" using binds(1) s t assms(6) by simp
  then have session: "sha (hashed_request sha f) = sha (hashed_request sha g)"
    "facts_channel_digests sha f = facts_channel_digests sha g"
    "sf_appliance_measurement f = sf_appliance_measurement g"
    "sf_supervisor_measurement f = sf_supervisor_measurement g"
    "sf_generator_measurement f = sf_generator_measurement g"
    "sf_worker_measurement f = sf_worker_measurement g"
    "sf_generator_nonce f = sf_generator_nonce g" "sf_supervisor_nonce f = sf_supervisor_nonce g"
    "sf_supervisor_pid f = sf_supervisor_pid g"
    "sf_supervisor_start_epoch f = sf_supervisor_start_epoch g"
    by (simp_all add: hashed_session_inject [OF assms(1-3)])
  note request = hashed_request_inject [OF assms(1-3) binds(2) [OF session(1)]]
  have ingress: "rf_ingress f = rf_ingress g"
    using binds(3) request ingress_bytes_inject [of "rf_ingress f" "rf_ingress g"] s t assms(2,3)
    by (simp add: hashed_ingress_def facts_wf_def)
  have target: "rf_publication_root f = rf_publication_root g
      \<and> rf_destination_input f = rf_destination_input g
      \<and> rf_destination_completion f = rf_destination_completion g"
    using binds(4) request assms(2,3)
    by (simp add: hashed_target_def Let_def target_bytes_inject facts_wf_def)
  have lens: "length (ep_digest (facts_endpoint sha h r)) = 32" for h r
    using assms(1) by (simp add: facts_endpoint_def digests_32_def)
  have "ep_digest (facts_endpoint sha f r) = ep_digest (facts_endpoint sha g r)" for r
    using binds(5) [OF session(2)] lens by (cases r) (simp_all add: hashed_channel_def)
  then have "sf_endpoints f = sf_endpoints g" by (rule endpoints_equal) (rule binds(6))
  with session request ingress target show "f = g"
    by (cases f; cases g) (simp add: RequestFacts.extend_def)
qed

definition sample_digest :: "bytes \<Rightarrow> bytes" where
  "sample_digest bs = take 32 (bs @ replicate 32 0)"

lemma sample_digest_32 [simp]: "digests_32 sample_digest"
  by (auto simp: digests_32_def sample_digest_def)

definition sample_input_fd :: FdCommitment where
  "sample_input_fd =
     \<lparr>fc_role = CampaignInput 0, fc_identity = Memfd 9 (replicate 32 8) sample_seals,
      fc_status = \<lparr>fs_access = ReadOnly, fs_nonblocking = False, fs_close_on_exec = False\<rparr>\<rparr>"

definition sample_role_block :: "ReplayRole \<Rightarrow> RequestRoleBlock" where
  "sample_role_block r =
     \<lparr>rb_role = r, rb_runner_ai = replicate 32 1, rb_oci_layout_commitment = replicate 32 2,
      rb_rootfs_plan_commitment = replicate 32 3\<rparr>"

definition sample_facts :: SessionFacts where
  "sample_facts =
     \<lparr>rf_allocation_epoch = replicate 32 1, rf_positive_input_set = replicate 32 2,
      rf_positive_generation_set = replicate 32 3, rf_ingress = [sample_input_fd],
      rf_publication_root = sample_root_fd, rf_destination_input = replicate 32 4,
      rf_destination_completion = replicate 32 5,
      rf_role_blocks = map sample_role_block replay_roles,
      sf_appliance_measurement = replicate 32 6, sf_supervisor_measurement = replicate 32 7,
      sf_generator_measurement = replicate 32 8, sf_worker_measurement = replicate 32 9,
      sf_generator_nonce = replicate 32 10, sf_supervisor_nonce = replicate 32 11,
      sf_supervisor_pid = 12, sf_supervisor_start_epoch = 13,
      sf_endpoints = (\<lambda>r. (sample_namespace, 14))\<rparr>"

lemma sample_input_ok: "commitment_ok sample_input_fd" "commitment_wf sample_input_fd"
  by (simp_all add: sample_input_fd_def commitment_ok_def commitment_wf_def
      identity_wf_def sample_seals_def fully_sealed_def fixes_size_def is_present_def)

lemma sample_facts_ok:
  "facts_wf sample_facts" "facts_ok sample_facts"
  "facts_wf (sample_facts\<lparr>sf_supervisor_pid := 99\<rparr>)" "facts_ok (sample_facts\<lparr>sf_supervisor_pid := 99\<rparr>)"
proof -
  show "facts_wf sample_facts" "facts_wf (sample_facts\<lparr>sf_supervisor_pid := 99\<rparr>)"
    by (simp_all add: sample_facts_def facts_wf_def sample_input_ok sample_fds_ok replay_roles_def
        sample_role_block_def role_block_wf_def)
  have "replicate 32 (n :: u8) \<noteq> replicate 32 0" if "n \<noteq> 0" for n
    using that by (simp add: replicate_eq_replicate)
  moreover have "fc_role sample_root_fd = PublicationRoot" "fc_role sample_input_fd = CampaignInput 0"
    by (simp_all add: sample_root_fd_def sample_input_fd_def)
  ultimately show "facts_ok sample_facts" "facts_ok (sample_facts\<lparr>sf_supervisor_pid := 99\<rparr>)"
    by (simp_all add: sample_facts_def facts_ok_def ingress_ok_def sample_input_ok sample_fds_ok
        replay_roles_def sample_role_block_def)
qed

lemma session_id_binds_facts_witness:
  "collides sample_digest
     (hashed_strings sample_digest sample_facts (session_value sample_digest sample_facts))
     (hashed_strings sample_digest (sample_facts\<lparr>sf_supervisor_pid := 99\<rparr>)
       (session_value sample_digest (sample_facts\<lparr>sf_supervisor_pid := 99\<rparr>)))"
proof -
  let ?g = "sample_facts\<lparr>sf_supervisor_pid := 99\<rparr>"
  have s: "facts_session sample_digest sample_facts = Inr (session_value sample_digest sample_facts)"
    "facts_session sample_digest ?g = Inr (session_value sample_digest ?g)"
    by (simp_all add: facts_session_iff sample_facts_ok)
  have "pv_session_id (session_value sample_digest f) = PROVIDER_SESSION_DOMAIN @ u16_to_le 43 @ ascii ''ei''" for f
    by (simp add: session_value_def sample_digest_def hashed_session_def SESSION_PROTOCOL_ID_def ascii_def)
  then have "pv_session_id (session_value sample_digest sample_facts) = pv_session_id (session_value sample_digest ?g)"
    by simp
  moreover have "sample_facts \<noteq> ?g" by (simp add: sample_facts_def)
  ultimately show ?thesis
    using session_id_binds_facts [OF sample_digest_32 sample_facts_ok(1,3) s] by blast
qed

end
