(* ===== verification/WireInventory.thy ===== *)
theory WireInventory
  imports WireSessionBinding
begin

text \<open>
  What the generator and worker processes are to hold (same source file): the closed process
  inventories with their reserved descriptor slots, the size policy of a worker transfer, the
  generator's installed-seal profile and the worker transfer manifest. Inventories and manifests
  are lists of slotted commitment records; the byte lengths that the sources check afterwards are
  determined by the shape and never differ.
\<close>

section \<open>Domains and bounds\<close>

definition PROCESS_INVENTORY_DOMAIN :: bytes where
  "PROCESS_INVENTORY_DOMAIN = ascii ''eip0045-b4-h0-process-inventory-v1'' @ [0]"

definition GENERATOR_SEAL_PROFILE_DOMAIN :: bytes where
  "GENERATOR_SEAL_PROFILE_DOMAIN = ascii ''eip0045-b4-h0-generator-seal-profile-v1'' @ [0]"

definition WORKER_TRANSFER_MANIFEST_DOMAIN :: bytes where
  "WORKER_TRANSFER_MANIFEST_DOMAIN = ascii ''eip0045-b4-h0-worker-transfer-manifest-v1'' @ [0]"

definition G0_WORKER_TRANSFER_ROLE_MAX_BYTES :: u64 where
  "G0_WORKER_TRANSFER_ROLE_MAX_BYTES = 1073741824"

definition G0_WORKER_TRANSFER_AGGREGATE_MAX_BYTES :: u64 where
  "G0_WORKER_TRANSFER_AGGREGATE_MAX_BYTES = 4294967296"

lemma inventory_domain_lengths [simp, wire_codes]:
  "length PROCESS_INVENTORY_DOMAIN = 35" "length GENERATOR_SEAL_PROFILE_DOMAIN = 40"
  "length WORKER_TRANSFER_MANIFEST_DOMAIN = 42"
  by (simp_all add: PROCESS_INVENTORY_DOMAIN_def GENERATOR_SEAL_PROFILE_DOMAIN_def
      WORKER_TRANSFER_MANIFEST_DOMAIN_def)

section \<open>Process inventories\<close>

datatype ProcessInventoryKind =
  GeneratorPostExec | WorkerInitialPostExec | WorkerExpectedPostTransfer

fun inventory_kind_code :: "ProcessInventoryKind \<Rightarrow> u8" where
  "inventory_kind_code GeneratorPostExec = 0"
| "inventory_kind_code WorkerInitialPostExec = 1"
| "inventory_kind_code WorkerExpectedPostTransfer = 2"

type_synonym InventoryEntry = "u8 \<times> FdCommitment"

record ProcessInventory =
  pi_kind :: ProcessInventoryKind
  pi_bytes :: bytes
  pi_digest :: bytes
  pi_campaign_count :: u8

definition require_inventory_entry ::
    "InventoryEntry \<Rightarrow> u8 \<Rightarrow> FdRole \<Rightarrow> bool \<Rightarrow> WireError + unit" where
  "require_inventory_entry entry reserved_fd role close_on_exec =
     and_then (drift InventorySlot (fst entry \<noteq> reserved_fd \<or> fc_role (snd entry) \<noteq> role)) (\<lambda>_.
     drift InventoryStatus (fs_nonblocking (fc_status (snd entry))
       \<or> fs_close_on_exec (fc_status (snd entry)) \<noteq> close_on_exec))"

definition require_fully_sealed_memfd :: "FdCommitment \<Rightarrow> WireError + unit" where
  "require_fully_sealed_memfd c =
     drift InventorySeals (\<not> (case fc_identity c of Memfd _ _ seals \<Rightarrow> fully_sealed seals | _ \<Rightarrow> False))"

definition unsealed_observation_seals :: "MemfdSeals \<Rightarrow> bool" where
  "unsealed_observation_seals s \<longleftrightarrow>
     ms_grow s = Present \<and> ms_shrink s = Present \<and> ms_write s = Absent \<and> ms_further_seals s = Absent"

definition require_size_fixed_unsealed_observation :: "FdCommitment \<Rightarrow> WireError + unit" where
  "require_size_fixed_unsealed_observation c =
     drift InventorySeals
       (\<not> (case fc_identity c of Memfd _ _ seals \<Rightarrow> unsealed_observation_seals seals | _ \<Rightarrow> False))"

definition inventory_campaign_count ::
    "ProcessInventoryKind \<Rightarrow> InventoryEntry list \<Rightarrow> WireError + nat" where
  "inventory_campaign_count kind entries =
     (case kind of
        GeneratorPostExec \<Rightarrow> ok_or (checked_sub_usize (length entries) 3) (G0ContractDrift InventoryCount)
      | WorkerInitialPostExec \<Rightarrow>
          and_then (drift InventoryCount (length entries \<noteq> 1)) (\<lambda>_. Inr 0)
      | WorkerExpectedPostTransfer \<Rightarrow>
          ok_or (checked_sub_usize (length entries) 2) (G0ContractDrift InventoryCount))"

fun validate_slots :: "u8 option \<Rightarrow> InventoryEntry list \<Rightarrow> WireError + unit" where
  "validate_slots previous [] = Inr ()"
| "validate_slots previous (entry # entries) =
     and_then (drift InventorySlot (case previous of None \<Rightarrow> False | Some p \<Rightarrow> fst entry \<le> p)) (\<lambda>_.
     and_then (commitment_validate (snd entry)) (\<lambda>_.
     validate_slots (Some (fst entry)) entries))"

fun require_campaign_entries :: "nat \<Rightarrow> bool \<Rightarrow> nat \<Rightarrow> InventoryEntry list \<Rightarrow> WireError + unit" where
  "require_campaign_entries base close_on_exec index [] = Inr ()"
| "require_campaign_entries base close_on_exec index (entry # entries) =
     and_then (ok_or (u8_try_from (base + index)) ArithmeticOverflow) (\<lambda>slot.
     and_then (ok_or (u8_try_from index) ArithmeticOverflow) (\<lambda>n.
     and_then (require_inventory_entry entry slot (CampaignInput n) close_on_exec) (\<lambda>_.
     and_then (require_fully_sealed_memfd (snd entry)) (\<lambda>_.
     require_campaign_entries base close_on_exec (Suc index) entries))))"

definition validate_process_inventory ::
    "ProcessInventoryKind \<Rightarrow> InventoryEntry list \<Rightarrow> WireError + u8" where
  "validate_process_inventory kind entries =
     and_then (inventory_campaign_count kind entries) (\<lambda>campaign_count.
     and_then (drift InventoryCount (campaign_count > G0_MAX_INGRESS_COUNT)) (\<lambda>_.
     and_then (validate_slots None entries) (\<lambda>_.
     and_then (case kind of
        GeneratorPostExec \<Rightarrow>
          and_then (require_inventory_entry (entries ! 0) 3 GeneratorEndpoint False) (\<lambda>_.
          and_then (require_inventory_entry (entries ! 1) 4 SupervisorProcess False) (\<lambda>_.
          and_then (require_inventory_entry (entries ! 2) 5 PublicationRoot False) (\<lambda>_.
          require_campaign_entries 6 False 0 (drop 3 entries))))
      | WorkerInitialPostExec \<Rightarrow> require_inventory_entry (entries ! 0) 3 WorkerEndpoint False
      | WorkerExpectedPostTransfer \<Rightarrow>
          and_then (require_inventory_entry (entries ! 0) 3 WorkerEndpoint True) (\<lambda>_.
          and_then (require_inventory_entry (entries ! 1) 4 Observation True) (\<lambda>_.
          and_then (require_size_fixed_unsealed_observation (snd (entries ! 1))) (\<lambda>_.
          require_campaign_entries 5 True 0 (drop 2 entries))))) (\<lambda>_.
     ok_or (u8_try_from campaign_count) ArithmeticOverflow))))"

fun inventory_records :: "InventoryEntry list \<Rightarrow> WireError + bytes" where
  "inventory_records [] = Inr []"
| "inventory_records (entry # entries) =
     and_then (encode_fd_commitment (snd entry)) (\<lambda>encoded.
     and_then (encoded_fd_commitment_len (snd entry)) (\<lambda>len.
     and_then (inventory_records entries) (\<lambda>rest.
     Inr ([fst entry] @ u16_to_le len @ encoded @ rest))))"

definition inventory_expected_len :: "ProcessInventoryKind \<Rightarrow> nat \<Rightarrow> nat" where
  "inventory_expected_len kind campaign_count =
     (case kind of
        GeneratorPostExec \<Rightarrow> 135 + 53 * campaign_count
      | WorkerInitialPostExec \<Rightarrow> 82
      | WorkerExpectedPostTransfer \<Rightarrow> 134 + 53 * campaign_count)"

definition process_inventory_new ::
    "(bytes \<Rightarrow> bytes) \<Rightarrow> ProcessInventoryKind \<Rightarrow> InventoryEntry list \<Rightarrow> WireError + ProcessInventory" where
  "process_inventory_new sha kind entries =
     and_then (validate_process_inventory kind entries) (\<lambda>campaign_count.
     and_then (ok_or (u16_try_from (length entries)) ArithmeticOverflow) (\<lambda>count.
     and_then (push_lp16 PROCESS_INVENTORY_DOMAIN) (\<lambda>domain.
     and_then (inventory_records entries) (\<lambda>records.
     let bs = domain @ u16_to_le FRAME_VERSION @ [inventory_kind_code kind] @ u16_to_le count @ records in
     and_then (drift InventoryLength (length bs \<noteq> inventory_expected_len kind (unat campaign_count))) (\<lambda>_.
     Inr \<lparr>pi_kind = kind, pi_bytes = bs, pi_digest = sha bs, pi_campaign_count = campaign_count\<rparr>)))))"

section \<open>The content policy of a worker transfer\<close>

definition worker_transfer_memfd_size :: "FdCommitment \<Rightarrow> G0Field \<Rightarrow> WireError + u64" where
  "worker_transfer_memfd_size c field =
     (case fc_identity c of Memfd len _ _ \<Rightarrow> Inr len | _ \<Rightarrow> Inl (G0ContractDrift field))"

fun aggregate_sizes :: "u64 \<Rightarrow> FdCommitment list \<Rightarrow> WireError + u64" where
  "aggregate_sizes aggregate [] = Inr aggregate"
| "aggregate_sizes aggregate (c # cs) =
     and_then (worker_transfer_memfd_size c WorkerManifestCampaign) (\<lambda>len.
     and_then (ok_or (checked_add_word aggregate len) ArithmeticOverflow) (\<lambda>aggregate'.
     aggregate_sizes aggregate' cs))"

fun check_campaign_sizes :: "FdCommitment list \<Rightarrow> WireError + unit" where
  "check_campaign_sizes [] = Inr ()"
| "check_campaign_sizes (c # cs) =
     and_then (worker_transfer_memfd_size c WorkerManifestCampaign) (\<lambda>len.
     and_then (drift WorkerManifestCampaignContentLength
       (len = 0 \<or> len > G0_WORKER_TRANSFER_ROLE_MAX_BYTES)) (\<lambda>_.
     check_campaign_sizes cs))"

definition require_worker_transfer_content_policy ::
    "FdCommitment \<Rightarrow> FdCommitment list \<Rightarrow> WireError + unit" where
  "require_worker_transfer_content_policy observation campaign_inputs =
     and_then (worker_transfer_memfd_size observation WorkerManifestObservation) (\<lambda>observation_size.
     and_then (aggregate_sizes observation_size campaign_inputs) (\<lambda>aggregate_size.
     and_then (drift WorkerManifestObservationContentLength
       (observation_size > G0_WORKER_TRANSFER_ROLE_MAX_BYTES)) (\<lambda>_.
     and_then (check_campaign_sizes campaign_inputs) (\<lambda>_.
     drift WorkerManifestAggregateContentLength
       (aggregate_size > G0_WORKER_TRANSFER_AGGREGATE_MAX_BYTES)))))"

section \<open>The generator's seal profile\<close>

record SockFilterInstruction =
  ins_code :: u16
  ins_jump_true :: u8
  ins_jump_false :: u8
  ins_value :: u32

record GeneratorSealProfile =
  gs_bytes :: bytes
  gs_digest :: bytes

definition encode_instruction :: "SockFilterInstruction \<Rightarrow> bytes" where
  "encode_instruction i =
     u16_to_le (ins_code i) @ [ins_jump_true i] @ [ins_jump_false i] @ u32_to_le (ins_value i)"

definition seal_profile_new ::
    "(bytes \<Rightarrow> bytes) \<Rightarrow> SockFilterInstruction list \<Rightarrow> WireError + GeneratorSealProfile" where
  "seal_profile_new sha instructions =
     and_then (drift GeneratorSealInstructionCount
       (instructions = [] \<or> length instructions > 4096)) (\<lambda>_.
     and_then (ok_or (u16_try_from (length instructions))
       (G0ContractDrift GeneratorSealInstructionCount)) (\<lambda>count.
     and_then (ok_or (checked_mul_usize (length instructions) 8) ArithmeticOverflow) (\<lambda>instruction_bytes.
     and_then (ok_or (checked_add_usize 47 instruction_bytes) ArithmeticOverflow) (\<lambda>_.
     let bs = GENERATOR_SEAL_PROFILE_DOMAIN @ u16_to_le count
           @ concat (map encode_instruction instructions) @ u32_to_le 0 @ [1] in
     Inr \<lparr>gs_bytes = bs, gs_digest = sha bs\<rparr>))))"

section \<open>The worker transfer manifest\<close>

record WorkerTransferManifest =
  wm_bytes :: bytes
  wm_digest :: bytes
  wm_campaign_count :: u8

fun check_manifest_inputs :: "nat \<Rightarrow> FdCommitment list \<Rightarrow> WireError + unit" where
  "check_manifest_inputs index [] = Inr ()"
| "check_manifest_inputs index (c # cs) =
     and_then (ok_or (u8_try_from index) ArithmeticOverflow) (\<lambda>n.
     and_then (drift WorkerManifestCampaign
       (fc_role c \<noteq> CampaignInput n \<or> fs_nonblocking (fc_status c)
        \<or> \<not> fs_close_on_exec (fc_status c))) (\<lambda>_.
     and_then (encoded_fd_commitment_len c) (\<lambda>len.
     and_then (drift WorkerManifestCampaign (len \<noteq> 50)) (\<lambda>_.
     and_then (require_fully_sealed_memfd c) (\<lambda>_.
     check_manifest_inputs (Suc index) cs)))))"

fun manifest_records :: "nat \<Rightarrow> FdCommitment list \<Rightarrow> WireError + bytes" where
  "manifest_records index [] = Inr []"
| "manifest_records index (c # cs) =
     and_then (ok_or (u8_try_from (5 + index)) ArithmeticOverflow) (\<lambda>slot.
     and_then (encoded_fd_commitment_len c) (\<lambda>len.
     and_then (encode_fd_commitment c) (\<lambda>encoded.
     and_then (manifest_records (Suc index) cs) (\<lambda>rest.
     Inr ([slot] @ u16_to_le len @ encoded @ rest)))))"

definition check_manifest_observation :: "FdCommitment \<Rightarrow> WireError + unit" where
  "check_manifest_observation observation =
     and_then (drift WorkerManifestObservation
       (fc_role observation \<noteq> Observation \<or> fs_nonblocking (fc_status observation)
        \<or> \<not> fs_close_on_exec (fc_status observation))) (\<lambda>_.
     and_then (encoded_fd_commitment_len observation) (\<lambda>len.
     and_then (drift WorkerManifestObservation (len \<noteq> 49)) (\<lambda>_.
     require_size_fixed_unsealed_observation observation)))"

definition transfer_manifest_new ::
    "(bytes \<Rightarrow> bytes) \<Rightarrow> FdCommitment \<Rightarrow> FdCommitment list \<Rightarrow> WireError + WorkerTransferManifest" where
  "transfer_manifest_new sha observation campaign_inputs =
     and_then (drift WorkerManifestCount (length campaign_inputs > G0_MAX_INGRESS_COUNT)) (\<lambda>_.
     and_then (check_manifest_observation observation) (\<lambda>_.
     and_then (check_manifest_inputs 0 campaign_inputs) (\<lambda>_.
     and_then (require_worker_transfer_content_policy observation campaign_inputs) (\<lambda>_.
     and_then (ok_or (u8_try_from (length campaign_inputs)) ArithmeticOverflow) (\<lambda>campaign_count.
     and_then (ok_or (checked_add_word campaign_count 1) ArithmeticOverflow) (\<lambda>total_count.
     and_then (ok_or (checked_mul_usize (length campaign_inputs) 53) ArithmeticOverflow) (\<lambda>records_len.
     and_then (ok_or (checked_add_usize 99 records_len) ArithmeticOverflow) (\<lambda>expected_length.
     and_then (push_lp16 WORKER_TRANSFER_MANIFEST_DOMAIN) (\<lambda>domain.
     and_then (encoded_fd_commitment_len observation) (\<lambda>observation_length.
     and_then (encode_fd_commitment observation) (\<lambda>observation_bytes.
     and_then (manifest_records 0 campaign_inputs) (\<lambda>records.
     let bs = domain @ u16_to_le FRAME_VERSION @ [total_count] @ [4] @ u16_to_le observation_length
           @ observation_bytes @ records in
     and_then (drift WorkerManifestLength (length bs \<noteq> expected_length \<or> length bs > 894)) (\<lambda>_.
     Inr \<lparr>wm_bytes = bs, wm_digest = sha bs, wm_campaign_count = campaign_count\<rparr>)))))))))))))"

section \<open>The shapes\<close>

lemma sealed_iff [simp]:
  "require_fully_sealed_memfd c = Inr u \<longleftrightarrow> (\<exists>len d s. fc_identity c = Memfd len d s \<and> fully_sealed s)"
  "require_size_fixed_unsealed_observation c = Inr u \<longleftrightarrow>
    (\<exists>len d s. fc_identity c = Memfd len d s \<and> unsealed_observation_seals s)"
  by (auto simp: require_fully_sealed_memfd_def require_size_fixed_unsealed_observation_def
      split: FdIdentity.splits)

definition blocking :: "bool \<Rightarrow> FdCommitment \<Rightarrow> bool" where
  "blocking close_on_exec c \<longleftrightarrow>
     \<not> fs_nonblocking (fc_status c) \<and> fs_close_on_exec (fc_status c) = close_on_exec"

lemma require_inventory_entry_iff [simp]:
  "require_inventory_entry e n r x = Inr u \<longleftrightarrow> fst e = n \<and> fc_role (snd e) = r \<and> blocking x (snd e)"
  by (auto simp: require_inventory_entry_def blocking_def)

lemma campaign_input_sealed:
  "commitment_ok c \<Longrightarrow> fc_role c = CampaignInput n \<Longrightarrow> \<exists>len d s. fc_identity c = Memfd len d s \<and> fully_sealed s"
  by (auto simp: commitment_ok_def)

lemma require_campaign_entries_iff:
  "base + k + length es \<le> 256 \<Longrightarrow> list_all (\<lambda>e. commitment_ok (snd e)) es \<Longrightarrow>
    require_campaign_entries base x k es = Inr u \<longleftrightarrow>
      es = number_from (base + k) (map snd es) \<and> campaign_roles k (map snd es)
      \<and> list_all (blocking x) (map snd es)"
proof (induction es arbitrary: k)
  case (Cons e es)
  have n: "u8_try_from (base + k) = Some (word_of_nat (base + k))" "u8_try_from k = Some (word_of_nat k)"
    using Cons.prems(1) by (simp_all add: u8_try_from_def)
  have ok: "commitment_ok (snd e)" using Cons.prems(2) by simp
  have IH: "require_campaign_entries base x (Suc k) es = Inr u \<longleftrightarrow>
      es = number_from (base + Suc k) (map snd es) \<and> campaign_roles (Suc k) (map snd es)
      \<and> list_all (blocking x) (map snd es)"
    using Cons.prems by (intro Cons.IH) simp_all
  have "require_campaign_entries base x k (e # es) = Inr u \<longleftrightarrow>
      fst e = word_of_nat (base + k) \<and> fc_role (snd e) = CampaignInput (word_of_nat k)
      \<and> blocking x (snd e) \<and> require_campaign_entries base x (Suc k) es = Inr u"
    using campaign_input_sealed [OF ok] by (auto simp: n simp del: of_nat_add)
  then show ?case unfolding IH by (cases e) auto
qed simp

lemma validate_slots_iff:
  "validate_slots p es = Inr u \<longleftrightarrow>
    list_all (\<lambda>e. commitment_ok (snd e)) es
    \<and> sorted_wrt (<) ((case p of None \<Rightarrow> [] | Some q \<Rightarrow> [q]) @ map fst es)"
proof (induction es arbitrary: p)
  case (Cons e es)
  have trans: "transp ((<) :: u8 \<Rightarrow> u8 \<Rightarrow> bool)" using less_trans by (auto simp: transp_on_def)
  show ?case
    using Cons.IH [of "Some (fst e)"] sorted_wrt2 [OF trans]
    by (auto simp: commitment_validate_iff not_le split: option.splits)
qed (simp split: option.splits)

lemma number_from_increasing:
  "k + length xs \<le> 256 \<Longrightarrow> (\<And>p. p \<in> set ps \<Longrightarrow> unat p < k) \<Longrightarrow> sorted_wrt (<) ps \<Longrightarrow>
    sorted_wrt (<) (ps @ map fst (number_from k xs :: (u8 \<times> 'a) list))"
proof (induction xs arbitrary: k ps)
  case (Cons x xs)
  have k: "unat (word_of_nat k :: u8) = k" using Cons.prems(1) by (simp add: unat_of_nat)
  have "sorted_wrt (<) ((ps @ [word_of_nat k]) @ map fst (number_from (Suc k) xs))"
  proof (rule Cons.IH)
    show "unat p < Suc k" if "p \<in> set (ps @ [word_of_nat k])" for p
      using that Cons.prems(2) k by (auto simp: less_Suc_eq)
    have "p < word_of_nat k" if "p \<in> set ps" for p
      using that Cons.prems(2) k by (simp add: word_less_nat_alt)
    then show "sorted_wrt (<) (ps @ [word_of_nat k])"
      using Cons.prems(3) by (simp add: sorted_wrt_append)
  qed (use Cons.prems in simp)
  then show ?case by simp
qed simp

text \<open>
  The one shape of each kind of inventory: consecutive slots from descriptor 3 on, the roles in
  their order followed by the numbered campaign inputs, every entry admitted and blocking, and
  close-on-exec exactly after the transfer.
\<close>

fun inventory_roles :: "ProcessInventoryKind \<Rightarrow> FdRole list" where
  "inventory_roles GeneratorPostExec = [GeneratorEndpoint, SupervisorProcess, PublicationRoot]"
| "inventory_roles WorkerInitialPostExec = [WorkerEndpoint]"
| "inventory_roles WorkerExpectedPostTransfer = [WorkerEndpoint, Observation]"

definition campaign_total :: "ProcessInventoryKind \<Rightarrow> InventoryEntry list \<Rightarrow> nat" where
  "campaign_total kind es = length es - length (inventory_roles kind)"

definition unsealed_observation :: "FdCommitment \<Rightarrow> bool" where
  "unsealed_observation c \<longleftrightarrow>
     (\<exists>len d s. fc_identity c = Memfd len d s \<and> unsealed_observation_seals s)"

definition numbered :: "nat \<Rightarrow> InventoryEntry list \<Rightarrow> bool" where
  "numbered k es \<longleftrightarrow> es = number_from k (map snd es)"

lemma numbered_simps [simp]:
  "numbered k []"
  "numbered k (e # es) \<longleftrightarrow> fst e = word_of_nat k \<and> numbered (Suc k) es"
  "numbered k (number_from k cs)"
  by (simp_all add: numbered_def) (cases e, auto)

definition inventory_shape :: "ProcessInventoryKind \<Rightarrow> InventoryEntry list \<Rightarrow> bool" where
  "inventory_shape kind es \<longleftrightarrow>
     numbered 3 es
     \<and> map fc_role (map snd es)
        = inventory_roles kind @ map (\<lambda>i. CampaignInput (word_of_nat i)) [0..<campaign_total kind es]
     \<and> campaign_total kind es \<le> (if kind = WorkerInitialPostExec then 0 else 15)
     \<and> list_all commitment_ok (map snd es)
     \<and> list_all (blocking (kind = WorkerExpectedPostTransfer)) (map snd es)
     \<and> (kind = WorkerExpectedPostTransfer \<longrightarrow> unsealed_observation (snd (es ! 1)))"

lemma campaign_roles_iff:
  "campaign_roles k cs \<longleftrightarrow> map fc_role cs = map (\<lambda>i. CampaignInput (word_of_nat i)) [k..<k + length cs]"
proof (induction cs arbitrary: k)
  case (Cons c cs)
  have "[k..<k + length (c # cs)] = k # [Suc k..<Suc k + length cs]" by (simp add: upt_rec)
  then show ?case using Cons.IH [of "Suc k"] by simp
qed simp

lemma list_all_snd [simp]: "list_all P (map snd es) = list_all (\<lambda>e. P (snd e)) es"
  by (simp add: list.pred_map comp_def)

lemma slots_increasing:
  assumes "numbered 3 es" "length es \<le> 253"
  shows "sorted_wrt (<) (map fst es)"
proof -
  have "sorted_wrt (<) ([] @ map fst (number_from 3 (map snd es)))"
    by (rule number_from_increasing) (use assms(2) in auto)
  then show ?thesis using assms(1) by (simp add: numbered_def)
qed

lemma campaign_entries:
  assumes "length ds \<le> 15" "base \<le> 6" "list_all (\<lambda>e. commitment_ok (snd e)) ds"
  shows "require_campaign_entries base x 0 ds = Inr () \<longleftrightarrow>
    numbered base ds
    \<and> map fc_role (map snd ds) = map (\<lambda>i. CampaignInput (word_of_nat i)) [0..<length ds]
    \<and> list_all (\<lambda>e. blocking x (snd e)) ds"
  using require_campaign_entries_iff [of base 0 ds x "()"] assms
  by (simp add: campaign_roles_iff numbered_def)

lemma shape_length:
  assumes "inventory_shape kind es"
  shows "length es = length (inventory_roles kind) + campaign_total kind es" "campaign_total kind es \<le> 15"
proof -
  have "length (map fc_role (map snd es)) = length (inventory_roles kind) + campaign_total kind es"
    using assms unfolding inventory_shape_def by (metis length_append length_map length_upt minus_nat.diff_0)
  then show "length es = length (inventory_roles kind) + campaign_total kind es" by simp
  show "campaign_total kind es \<le> 15" using assms by (simp add: inventory_shape_def split: if_splits)
qed

lemma validate_generator_iff:
  "validate_process_inventory GeneratorPostExec es = Inr n \<longleftrightarrow>
    inventory_shape GeneratorPostExec es \<and> n = word_of_nat (campaign_total GeneratorPostExec es)"
proof -
  consider a b c ds where "es = a # b # c # ds" "length ds \<le> 15"
    | "\<not> (3 \<le> length es \<and> length es \<le> 18)"
    by (cases es; cases "tl es"; cases "tl (tl es)"; fastforce)
  then show ?thesis
  proof cases
    case 1
    have shape: "inventory_shape GeneratorPostExec es \<longleftrightarrow>
        (fst a = 3 \<and> fst b = 4 \<and> fst c = 5 \<and> numbered 6 ds)
        \<and> (fc_role (snd a) = GeneratorEndpoint \<and> fc_role (snd b) = SupervisorProcess
           \<and> fc_role (snd c) = PublicationRoot
           \<and> map fc_role (map snd ds) = map (\<lambda>i. CampaignInput (word_of_nat i)) [0..<length ds])
        \<and> list_all (\<lambda>e. commitment_ok (snd e)) es
        \<and> blocking False (snd a) \<and> blocking False (snd b) \<and> blocking False (snd c)
        \<and> list_all (\<lambda>e. blocking False (snd e)) ds"
      using 1(2) by (cases a; cases b; cases c) (auto simp: 1(1) inventory_shape_def campaign_total_def)
    have steps: "validate_process_inventory GeneratorPostExec es = Inr n \<longleftrightarrow>
        validate_slots None es = Inr ()
        \<and> (fst a = 3 \<and> fc_role (snd a) = GeneratorEndpoint \<and> blocking False (snd a))
        \<and> (fst b = 4 \<and> fc_role (snd b) = SupervisorProcess \<and> blocking False (snd b))
        \<and> (fst c = 5 \<and> fc_role (snd c) = PublicationRoot \<and> blocking False (snd c))
        \<and> require_campaign_entries 6 False 0 ds = Inr () \<and> n = word_of_nat (length ds)"
      using 1(2)
      by (simp add: 1(1) validate_process_inventory_def inventory_campaign_count_def size_defs
          try_from_counts del: validate_slots.simps)
    have slots: "validate_slots None es = Inr () \<longleftrightarrow>
        list_all (\<lambda>e. commitment_ok (snd e)) es \<and> sorted_wrt (<) (map fst es)"
      by (simp add: validate_slots_iff)
    have tail: "require_campaign_entries 6 False 0 ds = Inr () \<longleftrightarrow> numbered 6 ds
          \<and> map fc_role (map snd ds) = map (\<lambda>i. CampaignInput (word_of_nat i)) [0..<length ds]
          \<and> list_all (\<lambda>e. blocking False (snd e)) ds"
      if "list_all (\<lambda>e. commitment_ok (snd e)) es"
      using that 1 by (intro campaign_entries) simp_all
    have increasing: "sorted_wrt (<) (map fst es)"
      if "fst a = 3" "fst b = 4" "fst c = 5" "numbered 6 ds"
      using that 1 by (intro slots_increasing) simp_all
    have total: "campaign_total GeneratorPostExec es = length ds"
      by (simp add: 1(1) campaign_total_def)
    show ?thesis
      using increasing tail unfolding steps shape slots total by argo
  next
    case 2
    then have "validate_process_inventory GeneratorPostExec es \<noteq> Inr n"
      by (auto simp: validate_process_inventory_def inventory_campaign_count_def size_defs)
    with 2 show ?thesis
      using shape_length [of GeneratorPostExec es] by auto
  qed
qed

lemma validate_worker_initial_iff:
  "validate_process_inventory WorkerInitialPostExec es = Inr n \<longleftrightarrow>
    inventory_shape WorkerInitialPostExec es \<and> n = word_of_nat (campaign_total WorkerInitialPostExec es)"
proof -
  consider a where "es = [a]" | "length es \<noteq> 1"
    by (cases es; cases "tl es"; fastforce)
  then show ?thesis
  proof cases
    case 1
    then show ?thesis
      by (auto simp: validate_process_inventory_def inventory_campaign_count_def size_defs
          try_from_counts inventory_shape_def campaign_total_def commitment_validate_iff)
  next
    case 2
    then have "validate_process_inventory WorkerInitialPostExec es \<noteq> Inr n"
      by (auto simp: validate_process_inventory_def inventory_campaign_count_def size_defs)
    moreover have "\<not> inventory_shape WorkerInitialPostExec es"
    proof
      assume shape: "inventory_shape WorkerInitialPostExec es"
      then have "campaign_total WorkerInitialPostExec es = 0" by (simp add: inventory_shape_def)
      with shape_length(1) [OF shape] 2 show False by simp
    qed
    ultimately show ?thesis by simp
  qed
qed

lemma validate_worker_transfer_iff:
  "validate_process_inventory WorkerExpectedPostTransfer es = Inr n \<longleftrightarrow>
    inventory_shape WorkerExpectedPostTransfer es
    \<and> n = word_of_nat (campaign_total WorkerExpectedPostTransfer es)"
proof -
  consider a b ds where "es = a # b # ds" "length ds \<le> 15"
    | "\<not> (2 \<le> length es \<and> length es \<le> 17)"
    by (cases es; cases "tl es"; fastforce)
  then show ?thesis
  proof cases
    case 1
    have shape: "inventory_shape WorkerExpectedPostTransfer es \<longleftrightarrow>
        (fst a = 3 \<and> fst b = 4 \<and> numbered 5 ds)
        \<and> (fc_role (snd a) = WorkerEndpoint \<and> fc_role (snd b) = Observation
           \<and> map fc_role (map snd ds) = map (\<lambda>i. CampaignInput (word_of_nat i)) [0..<length ds])
        \<and> list_all (\<lambda>e. commitment_ok (snd e)) es
        \<and> blocking True (snd a) \<and> blocking True (snd b)
        \<and> list_all (\<lambda>e. blocking True (snd e)) ds \<and> unsealed_observation (snd b)"
      using 1(2) by (cases a; cases b) (auto simp: 1(1) inventory_shape_def campaign_total_def)
    have steps: "validate_process_inventory WorkerExpectedPostTransfer es = Inr n \<longleftrightarrow>
        validate_slots None es = Inr ()
        \<and> (fst a = 3 \<and> fc_role (snd a) = WorkerEndpoint \<and> blocking True (snd a))
        \<and> (fst b = 4 \<and> fc_role (snd b) = Observation \<and> blocking True (snd b))
        \<and> unsealed_observation (snd b)
        \<and> require_campaign_entries 5 True 0 ds = Inr () \<and> n = word_of_nat (length ds)"
      using 1(2)
      by (simp add: 1(1) validate_process_inventory_def inventory_campaign_count_def size_defs
          try_from_counts unsealed_observation_def del: validate_slots.simps)
    have slots: "validate_slots None es = Inr () \<longleftrightarrow>
        list_all (\<lambda>e. commitment_ok (snd e)) es \<and> sorted_wrt (<) (map fst es)"
      by (simp add: validate_slots_iff)
    have tail: "require_campaign_entries 5 True 0 ds = Inr () \<longleftrightarrow> numbered 5 ds
          \<and> map fc_role (map snd ds) = map (\<lambda>i. CampaignInput (word_of_nat i)) [0..<length ds]
          \<and> list_all (\<lambda>e. blocking True (snd e)) ds"
      if "list_all (\<lambda>e. commitment_ok (snd e)) es"
      using that 1 by (intro campaign_entries) simp_all
    have increasing: "sorted_wrt (<) (map fst es)"
      if "fst a = 3" "fst b = 4" "numbered 5 ds"
      using that 1 by (intro slots_increasing) simp_all
    have total: "campaign_total WorkerExpectedPostTransfer es = length ds"
      by (simp add: 1(1) campaign_total_def)
    show ?thesis
      using increasing tail unfolding steps shape slots total by argo
  next
    case 2
    then have "validate_process_inventory WorkerExpectedPostTransfer es \<noteq> Inr n"
      by (auto simp: validate_process_inventory_def inventory_campaign_count_def size_defs)
    with 2 show ?thesis
      using shape_length [of WorkerExpectedPostTransfer es] by auto
  qed
qed

lemmas validate_inventory_iff =
  validate_generator_iff validate_worker_initial_iff validate_worker_transfer_iff

section \<open>The bytes\<close>

lemma inventory_records_iff:
  "list_all (\<lambda>e. commitment_wf (snd e)) es \<Longrightarrow> list_all (\<lambda>e. commitment_ok (snd e)) es \<Longrightarrow>
    inventory_records es = Inr (concat (map slot_record es))"
  by (induction es)
    (simp_all add: encode_fd_commitment_def commitment_validate_iff encoded_len_eq slot_record_def
      length_admitted)

lemma length_slot_records:
  "list_all (\<lambda>e. commitment_wf (snd e)) es \<Longrightarrow> list_all (\<lambda>e. commitment_ok (snd e)) es \<Longrightarrow>
    length (concat (map slot_record es)) = sum_list (map (\<lambda>r. 3 + admitted_len r) (map fc_role (map snd es)))"
  by (induction es) (simp_all add: slot_record_def length_admitted)

definition inventory_bytes :: "ProcessInventoryKind \<Rightarrow> InventoryEntry list \<Rightarrow> bytes" where
  "inventory_bytes kind es =
     (u16_to_le 35 @ PROCESS_INVENTORY_DOMAIN) @ u16_to_le FRAME_VERSION @ [inventory_kind_code kind]
     @ u16_to_le (word_of_nat (length es)) @ concat (map slot_record es)"

lemma length_inventory_bytes:
  assumes "list_all (\<lambda>e. commitment_wf (snd e)) es" "inventory_shape kind es"
  shows "length (inventory_bytes kind es) = inventory_expected_len kind (campaign_total kind es)"
proof -
  let ?cost = "\<lambda>r. 3 + admitted_len r"
  have "length (concat (map slot_record es)) = sum_list (map ?cost (map fc_role (map snd es)))"
    using assms by (intro length_slot_records) (simp_all add: inventory_shape_def)
  also have "map fc_role (map snd es) = inventory_roles kind
      @ map (\<lambda>i. CampaignInput (word_of_nat i)) [0..<campaign_total kind es]"
    using assms(2) by (simp add: inventory_shape_def)
  also have "sum_list (map ?cost \<dots>) = sum_list (map ?cost (inventory_roles kind)) + 53 * campaign_total kind es"
    by (simp add: comp_def sum_list_triv del: upt_Suc)
  finally show ?thesis
    using assms(2)
    by (cases kind) (simp_all add: inventory_bytes_def inventory_expected_len_def inventory_shape_def)
qed

definition inventory_value ::
    "(bytes \<Rightarrow> bytes) \<Rightarrow> ProcessInventoryKind \<Rightarrow> InventoryEntry list \<Rightarrow> ProcessInventory" where
  "inventory_value sha kind es =
     \<lparr>pi_kind = kind, pi_bytes = inventory_bytes kind es, pi_digest = sha (inventory_bytes kind es),
      pi_campaign_count = word_of_nat (campaign_total kind es)\<rparr>"

lemma process_inventory_iff:
  assumes "list_all (\<lambda>e. commitment_wf (snd e)) es"
  shows "process_inventory_new sha kind es = Inr p \<longleftrightarrow>
    inventory_shape kind es \<and> p = inventory_value sha kind es"
proof (cases "inventory_shape kind es")
  case True
  have small: "length es < 65536" "campaign_total kind es \<le> 15"
    using shape_length [OF True] by (cases kind; simp)+
  have "validate_process_inventory kind es = Inr (word_of_nat (campaign_total kind es))"
    using True by (cases kind) (simp_all add: validate_inventory_iff)
  moreover have "inventory_records es = Inr (concat (map slot_record es))"
    using True assms by (intro inventory_records_iff) (simp_all add: inventory_shape_def)
  moreover have "push_lp16 PROCESS_INVENTORY_DOMAIN = Inr (u16_to_le 35 @ PROCESS_INVENTORY_DOMAIN)"
    by (simp add: push_lp16_iff)
  moreover have "u16_try_from (length es) = Some (word_of_nat (length es))"
    using small by (simp add: u16_try_from_def)
  moreover have "unat (word_of_nat (campaign_total kind es) :: u8) = campaign_total kind es"
    using small(2) by (simp add: unat_of_nat)
  moreover have "drift InventoryLength (length (inventory_bytes kind es)
      \<noteq> inventory_expected_len kind (campaign_total kind es)) = Inr ()"
    using length_inventory_bytes [OF assms True] by simp
  ultimately have "process_inventory_new sha kind es = Inr (inventory_value sha kind es)"
    by (simp only: process_inventory_new_def and_then_simps ok_or_simps Let_def
        inventory_bytes_def [symmetric] append_assoc inventory_value_def)
      (simp add: inventory_bytes_def inventory_value_def)
  with True show ?thesis by auto
next
  case False
  then have "validate_process_inventory kind es \<noteq> Inr n" for n
    by (cases kind) (simp_all add: validate_inventory_iff)
  with False show ?thesis by (auto simp: process_inventory_new_def)
qed

lemma inventory_kind_code_inject [simp]: "inventory_kind_code a = inventory_kind_code b \<longleftrightarrow> a = b"
  by (cases a; cases b) simp_all

lemma inventory_bytes_inject:
  assumes "list_all (\<lambda>e. commitment_wf (snd e)) es" "list_all (\<lambda>e. commitment_wf (snd e)) fs"
    and "inventory_shape kind es" "inventory_shape kind' fs"
  shows "inventory_bytes kind es = inventory_bytes kind' fs \<longleftrightarrow> kind = kind' \<and> es = fs"
proof
  assume eq: "inventory_bytes kind es = inventory_bytes kind' fs"
  then have "kind = kind'" and count: "word_of_nat (length es) = (word_of_nat (length fs) :: u16)"
    and records: "concat (map slot_record es) = concat (map slot_record fs)"
    by (simp_all add: inventory_bytes_def)
  have "length es < 65536" "length fs < 65536"
    using shape_length [OF assms(3)] shape_length [OF assms(4)] by (cases kind; cases kind'; simp)+
  then have "length es = length fs"
    using arg_cong [OF count, of unat] by (simp add: unat_of_nat)
  then show "kind = kind' \<and> es = fs"
    using slot_code.concat_iff [of es fs "[]" "[]"] assms(1,2) records \<open>kind = kind'\<close> by simp
qed simp

section \<open>The transfer manifest and its content policy\<close>

fun memfd_len :: "FdIdentity \<Rightarrow> nat" where
  "memfd_len (Memfd len _ _) = unat len"
| "memfd_len _ = 0"

definition is_memfd :: "FdCommitment \<Rightarrow> bool" where
  "is_memfd c \<longleftrightarrow> (case fc_identity c of Memfd _ _ _ \<Rightarrow> True | _ \<Rightarrow> False)"

abbreviation content_len :: "FdCommitment \<Rightarrow> nat" where
  "content_len c \<equiv> memfd_len (fc_identity c)"

lemma memfd_size_iff: "worker_transfer_memfd_size c f = Inr n \<longleftrightarrow> is_memfd c \<and> unat n = content_len c"
  by (cases "fc_identity c") (auto simp: worker_transfer_memfd_size_def is_memfd_def word_unat_eq_iff)

lemma aggregate_sizes_iff:
  "aggregate_sizes a cs = Inr t \<longleftrightarrow>
    list_all is_memfd cs \<and> unat t = unat a + sum_list (map content_len cs)"
proof (induction cs arbitrary: a)
  case Nil
  then show ?case by (auto simp: word_unat_eq_iff)
next
  case (Cons c cs)
  show ?case
  proof
    assume "aggregate_sizes a (c # cs) = Inr t"
    then show "list_all is_memfd (c # cs) \<and> unat t = unat a + sum_list (map content_len (c # cs))"
      by (auto simp: Cons.IH memfd_size_iff)
  next
    assume total: "list_all is_memfd (c # cs) \<and> unat t = unat a + sum_list (map content_len (c # cs))"
    then obtain n d s where n: "fc_identity c = Memfd n d s"
      by (auto simp: is_memfd_def split: FdIdentity.splits)
    have "unat a + unat n < 2 ^ 64" using total n unat_u64_bound [of t] by simp
    then have "checked_add_word a n = Some (a + n)" "unat (a + n) = unat a + unat n"
      by (simp_all add: checked_add_word_def unat_word_ariths)
    then show "aggregate_sizes a (c # cs) = Inr t"
      using total n by (simp add: worker_transfer_memfd_size_def Cons.IH del: checked_add_word_eq_Some)
  qed
qed

lemma check_campaign_sizes_iff:
  "check_campaign_sizes cs = Inr u \<longleftrightarrow>
    list_all (\<lambda>c. is_memfd c \<and> 0 < content_len c \<and> content_len c \<le> 2 ^ 30) cs"
proof (induction cs)
  case (Cons c cs)
  then show ?case
    by (cases "fc_identity c")
      (auto simp: worker_transfer_memfd_size_def is_memfd_def word_less_nat_alt
        G0_WORKER_TRANSFER_ROLE_MAX_BYTES_def unat_gt_0)
qed simp

definition content_policy :: "FdCommitment \<Rightarrow> FdCommitment list \<Rightarrow> bool" where
  "content_policy observation cs \<longleftrightarrow>
     content_len observation \<le> 2 ^ 30 \<and> list_all (\<lambda>c. 0 < content_len c \<and> content_len c \<le> 2 ^ 30) cs
     \<and> content_len observation + sum_list (map content_len cs) \<le> 2 ^ 32"

lemma content_policy_iff:
  assumes "is_memfd observation" "list_all is_memfd cs"
  shows "require_worker_transfer_content_policy observation cs = Inr u \<longleftrightarrow> content_policy observation cs"
proof -
  obtain n d s where n: "fc_identity observation = Memfd n d s"
    using assms(1) by (auto simp: is_memfd_def split: FdIdentity.splits)
  let ?sum = "unat n + sum_list (map content_len cs)"
  have sizes: "check_campaign_sizes cs = Inr u' \<longleftrightarrow> list_all (\<lambda>c. 0 < content_len c \<and> content_len c \<le> 2 ^ 30) cs" for u'
    using assms(2) by (auto simp: check_campaign_sizes_iff list_all_iff)
  have "require_worker_transfer_content_policy observation cs = Inr u \<longleftrightarrow>
      (\<exists>t. aggregate_sizes n cs = Inr t \<and> unat t \<le> 2 ^ 32) \<and> unat n \<le> 2 ^ 30 \<and> check_campaign_sizes cs = Inr ()"
    by (auto simp: require_worker_transfer_content_policy_def worker_transfer_memfd_size_def n
        word_less_nat_alt not_less G0_WORKER_TRANSFER_ROLE_MAX_BYTES_def
        G0_WORKER_TRANSFER_AGGREGATE_MAX_BYTES_def)
  also have "(\<exists>t. aggregate_sizes n cs = Inr t \<and> unat t \<le> 2 ^ 32) \<longleftrightarrow> ?sum \<le> 2 ^ 32"
  proof
    assume "?sum \<le> 2 ^ 32"
    then have "unat (word_of_nat ?sum :: u64) = ?sum" by (simp add: unat_of_nat del: of_nat_add)
    with \<open>?sum \<le> 2 ^ 32\<close> show "\<exists>t. aggregate_sizes n cs = Inr t \<and> unat t \<le> 2 ^ 32"
      using assms(2) by (intro exI [of _ "word_of_nat ?sum"]) (simp add: aggregate_sizes_iff)
  qed (auto simp: aggregate_sizes_iff)
  finally show ?thesis by (auto simp: sizes content_policy_def n)
qed

definition transferable :: "FdCommitment \<Rightarrow> bool" where
  "transferable observation \<longleftrightarrow>
     fc_role observation = Observation \<and> commitment_ok observation \<and> blocking True observation
     \<and> unsealed_observation observation"

lemma check_manifest_observation_iff:
  assumes "commitment_wf c"
  shows "check_manifest_observation c = Inr u \<longleftrightarrow> transferable c"
  using assms
  by (auto simp: check_manifest_observation_def transferable_def encoded_len_iff blocking_def
      unsealed_observation_def)

lemma check_manifest_inputs_iff:
  "list_all commitment_wf cs \<Longrightarrow> k + length cs \<le> 256 \<Longrightarrow>
    check_manifest_inputs k cs = Inr u \<longleftrightarrow>
      campaign_roles k cs \<and> list_all commitment_ok cs \<and> list_all (blocking True) cs"
proof (induction cs arbitrary: k)
  case (Cons c cs)
  have "u8_try_from k = Some (word_of_nat k)" using Cons.prems by (simp add: u8_try_from_def)
  moreover have "check_manifest_inputs (Suc k) cs = Inr u \<longleftrightarrow>
      campaign_roles (Suc k) cs \<and> list_all commitment_ok cs \<and> list_all (blocking True) cs"
    using Cons.prems by (intro Cons.IH) simp_all
  ultimately show ?case
    using Cons.prems campaign_input_sealed [of c] by (auto simp: encoded_len_iff blocking_def [of True c])
qed simp

lemma manifest_records_eq:
  "list_all commitment_wf cs \<Longrightarrow> list_all commitment_ok cs \<Longrightarrow> k + length cs \<le> 251 \<Longrightarrow>
    manifest_records k cs = Inr (concat (map slot_record (number_from (5 + k) cs)))"
proof (induction cs arbitrary: k)
  case (Cons c cs)
  have "u8_try_from (5 + k) = Some (word_of_nat (5 + k))"
    using Cons.prems by (simp add: u8_try_from_def del: of_nat_add)
  moreover have "manifest_records (Suc k) cs = Inr (concat (map slot_record (number_from (5 + Suc k) cs)))"
    using Cons.prems by (intro Cons.IH) simp_all
  ultimately show ?case
    using Cons.prems
    by (simp add: encode_fd_commitment_def commitment_validate_iff encoded_len_eq slot_record_pair
        length_admitted del: of_nat_add)
qed simp

definition manifest_bytes :: "FdCommitment \<Rightarrow> FdCommitment list \<Rightarrow> bytes" where
  "manifest_bytes observation cs =
     (u16_to_le 42 @ WORKER_TRANSFER_MANIFEST_DOMAIN) @ u16_to_le FRAME_VERSION
     @ [word_of_nat (Suc (length cs))] @ concat (map slot_record ((4, observation) # number_from 5 cs))"

definition manifest_ok :: "FdCommitment \<Rightarrow> FdCommitment list \<Rightarrow> bool" where
  "manifest_ok observation cs \<longleftrightarrow>
     transferable observation \<and> length cs \<le> 15 \<and> campaign_roles 0 cs \<and> list_all commitment_ok cs
     \<and> list_all (blocking True) cs \<and> content_policy observation cs"

definition manifest_value :: "(bytes \<Rightarrow> bytes) \<Rightarrow> FdCommitment \<Rightarrow> FdCommitment list \<Rightarrow> WorkerTransferManifest" where
  "manifest_value sha observation cs =
     \<lparr>wm_bytes = manifest_bytes observation cs, wm_digest = sha (manifest_bytes observation cs),
      wm_campaign_count = word_of_nat (length cs)\<rparr>"

lemma length_manifest_bytes:
  assumes "commitment_wf observation" "list_all commitment_wf cs" "manifest_ok observation cs"
  shows "length (manifest_bytes observation cs) = 99 + 53 * length cs"
proof -
  have "length (concat (map slot_record (number_from 5 cs))) = 53 * length cs"
    using assms by (intro slot_records_length [where k = 0]) (simp_all add: manifest_ok_def)
  then show ?thesis
    using assms by (simp add: manifest_bytes_def slot_record_pair length_admitted manifest_ok_def transferable_def)
qed

lemma manifest_memfds:
  assumes "transferable observation" "list_all commitment_ok cs" "campaign_roles k cs"
  shows "is_memfd observation" "list_all is_memfd cs"
proof -
  show "is_memfd observation"
    using assms(1) by (auto simp: transferable_def unsealed_observation_def is_memfd_def)
  show "list_all is_memfd cs"
    using assms(2,3)
    by (induction cs arbitrary: k) (auto simp: is_memfd_def dest!: campaign_input_sealed)
qed

lemma transfer_manifest_iff:
  assumes wf: "commitment_wf observation" "list_all commitment_wf cs"
  shows "transfer_manifest_new sha observation cs = Inr m \<longleftrightarrow>
    manifest_ok observation cs \<and> m = manifest_value sha observation cs"
proof (cases "manifest_ok observation cs")
  case True
  then have ok: "transferable observation" "length cs \<le> 15" "campaign_roles 0 cs"
    "list_all commitment_ok cs" "list_all (blocking True) cs" "content_policy observation cs"
    by (simp_all add: manifest_ok_def)
  have checks: "check_manifest_observation observation = Inr ()" "check_manifest_inputs 0 cs = Inr ()"
    "require_worker_transfer_content_policy observation cs = Inr ()"
    "manifest_records 0 cs = Inr (concat (map slot_record (number_from 5 cs)))"
    using wf ok manifest_memfds [OF ok(1,4,3)]
    by (simp_all add: check_manifest_observation_iff check_manifest_inputs_iff content_policy_iff
        manifest_records_eq)
  have sizes: "u8_try_from (length cs) = Some (word_of_nat (length cs))"
    "checked_add_word (word_of_nat (length cs) :: u8) 1 = Some (word_of_nat (Suc (length cs)))"
    "checked_mul_usize (length cs) 53 = Some (length cs * 53)"
    "checked_add_usize 99 (length cs * 53) = Some (99 + length cs * 53)"
    using ok(2) by (simp_all add: u8_try_from_def unat_of_nat usize_limit_def del: of_nat_Suc)
  have observation: "encoded_fd_commitment_len observation = Inr 49"
    "encode_fd_commitment observation = Inr (commitment_bytes observation)"
    "length (commitment_bytes observation) = 49"
    using wf ok(1) by (simp_all add: transferable_def encoded_len_eq encode_fd_commitment_iff length_admitted)
  have "push_lp16 WORKER_TRANSFER_MANIFEST_DOMAIN = Inr (u16_to_le 42 @ WORKER_TRANSFER_MANIFEST_DOMAIN)"
    by (simp add: push_lp16_iff)
  then have "transfer_manifest_new sha observation cs = Inr (manifest_value sha observation cs)"
    using ok(2) length_manifest_bytes [OF wf True] observation(3)
    by (simp add: transfer_manifest_new_def checks sizes observation(1,2) Let_def drift_def size_defs
        manifest_value_def manifest_bytes_def slot_record_pair del: and_then_eq_Inr)
  with True show ?thesis by auto
next
  case False
  have "transfer_manifest_new sha observation cs \<noteq> Inr m"
  proof
    assume "transfer_manifest_new sha observation cs = Inr m"
    then have "length cs \<le> 15" "check_manifest_observation observation = Inr ()"
      "check_manifest_inputs 0 cs = Inr ()"
      "require_worker_transfer_content_policy observation cs = Inr ()"
      by (auto simp: transfer_manifest_new_def size_defs)
    with wf manifest_memfds [of observation cs 0] have "manifest_ok observation cs"
      by (auto simp: manifest_ok_def check_manifest_observation_iff check_manifest_inputs_iff content_policy_iff)
    with False show False by simp
  qed
  with False show ?thesis by simp
qed

section \<open>Seal profiles\<close>

interpretation instruction_code: sized_code "\<lambda>_. True" encode_instruction 8
proof
  fix a b :: SockFilterInstruction
  assume "encode_instruction a = encode_instruction b"
  then show "a = b" by (cases a; cases b) (simp add: encode_instruction_def)
qed (simp add: encode_instruction_def)

definition profile_bytes :: "SockFilterInstruction list \<Rightarrow> bytes" where
  "profile_bytes is =
     GENERATOR_SEAL_PROFILE_DOMAIN @ u16_to_le (word_of_nat (length is))
     @ concat (map encode_instruction is) @ u32_to_le 0 @ [1]"

lemma seal_profile_iff:
  "seal_profile_new sha is = Inr p \<longleftrightarrow>
    is \<noteq> [] \<and> length is \<le> 4096 \<and> p = \<lparr>gs_bytes = profile_bytes is, gs_digest = sha (profile_bytes is)\<rparr>"
proof (cases "length is \<le> 4096")
  case True
  then have "u16_try_from (length is) = Some (word_of_nat (length is))" by (simp add: u16_try_from_def)
  with True show ?thesis
    by (auto simp: seal_profile_new_def profile_bytes_def usize_limit_def Let_def)
qed (simp add: seal_profile_new_def)

lemma profile_bytes_inject:
  assumes "length is \<le> 4096" "length js \<le> 4096"
  shows "profile_bytes is = profile_bytes js \<longleftrightarrow> is = js"
proof
  assume eq: "profile_bytes is = profile_bytes js"
  have all: "list_all (\<lambda>_. True) xs" for xs :: "SockFilterInstruction list" by (simp add: list_all_iff)
  have "length (profile_bytes xs) = 47 + 8 * length xs" for xs
    by (simp add: profile_bytes_def instruction_code.length_concat [OF all])
  then have "length is = length js" using arg_cong [OF eq, of length] by simp
  then show "is = js"
    using eq instruction_code.concat_iff [OF all all, of "is" js "u32_to_le 0 @ [1]" "u32_to_le 0 @ [1]"]
    by (simp add: profile_bytes_def)
qed simp

section \<open>Properties\<close>

text \<open>
  C22. A process inventory is built exactly for the one shape of its kind: slots counted from
  descriptor 3, the roles of the kind followed by the numbered campaign inputs, every commitment
  admitted and blocking, close-on-exec exactly after a transfer and the observation unsealed for
  writing. The bytes have the announced length, which the final check therefore never refuses,
  and two inventories with the same bytes are the same inventory.
\<close>

theorem process_inventory_exact:
  assumes "list_all (\<lambda>e. commitment_wf (snd e)) es" "list_all (\<lambda>e. commitment_wf (snd e)) fs"
  shows "(process_inventory_new sha kind es = Inr p \<longleftrightarrow>
      inventory_shape kind es \<and> p = inventory_value sha kind es)
    \<and> (inventory_shape kind es \<longrightarrow>
        length (pi_bytes (inventory_value sha kind es)) = inventory_expected_len kind (campaign_total kind es))
    \<and> (inventory_shape kind es \<longrightarrow> inventory_shape kind' fs \<longrightarrow>
        pi_bytes (inventory_value sha kind es) = pi_bytes (inventory_value sha kind' fs) \<longrightarrow>
        kind = kind' \<and> es = fs)"
proof (intro conjI impI)
  show "process_inventory_new sha kind es = Inr p \<longleftrightarrow> inventory_shape kind es \<and> p = inventory_value sha kind es"
    by (rule process_inventory_iff [OF assms(1)])
  assume "inventory_shape kind es"
  then show "length (pi_bytes (inventory_value sha kind es)) = inventory_expected_len kind (campaign_total kind es)"
    by (simp add: inventory_value_def length_inventory_bytes [OF assms(1)])
next
  assume "inventory_shape kind es" "inventory_shape kind' fs"
    "pi_bytes (inventory_value sha kind es) = pi_bytes (inventory_value sha kind' fs)"
  then show "kind = kind'" "es = fs"
    using inventory_bytes_inject [OF assms] by (simp_all add: inventory_value_def)
qed

definition sample_worker_endpoint :: "bool \<Rightarrow> FdCommitment" where
  "sample_worker_endpoint close_on_exec =
     \<lparr>fc_role = WorkerEndpoint, fc_identity = SocketIdentity (replicate 32 6),
      fc_status = \<lparr>fs_access = SocketAccess, fs_nonblocking = False, fs_close_on_exec = close_on_exec\<rparr>\<rparr>"

definition sample_observation :: FdCommitment where
  "sample_observation =
     \<lparr>fc_role = Observation,
      fc_identity = Memfd 4096 (replicate 32 7) \<lparr>ms_grow = Present, ms_shrink = Present, ms_write = Absent,
        ms_further_seals = Absent\<rparr>,
      fc_status = \<lparr>fs_access = ReadWrite, fs_nonblocking = False, fs_close_on_exec = True\<rparr>\<rparr>"

definition sample_transferred_input :: FdCommitment where
  "sample_transferred_input =
     \<lparr>fc_role = CampaignInput 0, fc_identity = Memfd 9 (replicate 32 8) sample_seals,
      fc_status = \<lparr>fs_access = ReadOnly, fs_nonblocking = False, fs_close_on_exec = True\<rparr>\<rparr>"

definition sample_transfer_entries :: "InventoryEntry list" where
  "sample_transfer_entries =
     [(3, sample_worker_endpoint True), (4, sample_observation), (5, sample_transferred_input)]"

lemmas sample_fd_defs = sample_worker_endpoint_def sample_observation_def sample_transferred_input_def
  sample_seals_def

lemma sample_transfer_facts:
  "commitment_wf (sample_worker_endpoint b)" "commitment_wf sample_observation"
  "commitment_wf sample_transferred_input" "commitment_ok (sample_worker_endpoint b)"
  "commitment_ok sample_observation" "commitment_ok sample_transferred_input"
  "blocking b (sample_worker_endpoint b)" "blocking True sample_observation"
  "blocking True sample_transferred_input" "unsealed_observation sample_observation"
  "fc_role (sample_worker_endpoint b) = WorkerEndpoint" "fc_role sample_observation = Observation"
  "fc_role sample_transferred_input = CampaignInput 0"
  by (simp_all add: sample_fd_defs commitment_ok_def commitment_wf_def identity_wf_def
      fully_sealed_def fixes_size_def is_present_def blocking_def unsealed_observation_def
      unsealed_observation_seals_def)

lemma sample_transfer_shape: "inventory_shape WorkerExpectedPostTransfer sample_transfer_entries"
  by (simp add: inventory_shape_def sample_transfer_entries_def campaign_total_def sample_transfer_facts)

lemma process_inventory_exact_witness:
  "is_ok (process_inventory_new sample_digest WorkerExpectedPostTransfer sample_transfer_entries)
   \<and> length (pi_bytes (inventory_value sample_digest WorkerExpectedPostTransfer sample_transfer_entries)) = 187"
proof -
  have wf: "list_all (\<lambda>e. commitment_wf (snd e)) sample_transfer_entries"
    by (simp add: sample_transfer_entries_def sample_transfer_facts)
  have "campaign_total WorkerExpectedPostTransfer sample_transfer_entries = 1"
    by (simp add: campaign_total_def sample_transfer_entries_def)
  then show ?thesis
    using process_inventory_exact [OF wf wf, of sample_digest WorkerExpectedPostTransfer
        "inventory_value sample_digest WorkerExpectedPostTransfer sample_transfer_entries"
        WorkerExpectedPostTransfer] sample_transfer_shape
    by (simp add: is_ok_iff inventory_expected_len_def)
qed

text \<open>
  C23. A worker transfer manifest is built exactly for an observation and up to fifteen numbered,
  fully sealed campaign inputs that are blocking and close-on-exec, when the observation has at
  most 1 GiB, each input between 1 byte and 1 GiB and all together at most 4 GiB; no sum wraps.
  The manifest then has 99 bytes and 53 for each input, 894 at most, and lists exactly the entries
  that follow the worker's own endpoint in the expected post-transfer inventory.
\<close>

theorem transfer_manifest_exact:
  assumes "commitment_wf observation" "list_all commitment_wf cs" "commitment_wf endpoint"
  shows "(transfer_manifest_new sha observation cs = Inr m \<longleftrightarrow>
      manifest_ok observation cs \<and> m = manifest_value sha observation cs)
    \<and> (manifest_ok observation cs \<longrightarrow>
        length (manifest_bytes observation cs) = 99 + 53 * length cs
        \<and> length (manifest_bytes observation cs) \<le> 894
        \<and> (is_ok (process_inventory_new sha WorkerExpectedPostTransfer
                ((3, endpoint) # (4, observation) # number_from 5 cs)) \<longleftrightarrow>
            fc_role endpoint = WorkerEndpoint \<and> commitment_ok endpoint \<and> blocking True endpoint))"
proof (intro conjI impI)
  show "transfer_manifest_new sha observation cs = Inr m \<longleftrightarrow>
      manifest_ok observation cs \<and> m = manifest_value sha observation cs"
    by (rule transfer_manifest_iff [OF assms(1,2)])
  assume ok: "manifest_ok observation cs"
  show "length (manifest_bytes observation cs) = 99 + 53 * length cs"
    by (rule length_manifest_bytes [OF assms(1,2) ok])
  then show "length (manifest_bytes observation cs) \<le> 894" using ok by (simp add: manifest_ok_def)
  let ?es = "(3, endpoint) # (4, observation) # number_from 5 cs"
  have "list_all (\<lambda>e. commitment_wf (snd e)) ?es" using assms by simp
  then have "is_ok (process_inventory_new sha WorkerExpectedPostTransfer ?es) \<longleftrightarrow>
      inventory_shape WorkerExpectedPostTransfer ?es"
    by (simp add: is_ok_iff process_inventory_iff)
  then show "is_ok (process_inventory_new sha WorkerExpectedPostTransfer ?es) \<longleftrightarrow>
      fc_role endpoint = WorkerEndpoint \<and> commitment_ok endpoint \<and> blocking True endpoint"
    using ok
    by (auto simp: inventory_shape_def campaign_total_def manifest_ok_def transferable_def campaign_roles_iff)
qed

lemma transfer_manifest_exact_witness:
  "transfer_manifest_new sample_digest sample_observation [sample_transferred_input]
     = Inr (manifest_value sample_digest sample_observation [sample_transferred_input])
   \<and> length (manifest_bytes sample_observation [sample_transferred_input]) = 152"
proof -
  have "content_policy sample_observation [sample_transferred_input]"
    by (simp add: content_policy_def sample_fd_defs)
  then have "manifest_ok sample_observation [sample_transferred_input]"
    by (simp add: manifest_ok_def transferable_def sample_transfer_facts)
  then show ?thesis
    using transfer_manifest_exact [of sample_observation "[sample_transferred_input]"
        "sample_worker_endpoint True" sample_digest
        "manifest_value sample_digest sample_observation [sample_transferred_input]"]
    by (simp add: sample_transfer_facts)
qed

end
