(* ===== verification/WireFrame.thy ===== *)
theory WireFrame
  imports WireInventory
begin

text \<open>
  Frames and transcripts (same source file): the ancillary shape of a received message, the
  bounded frame with its stored declarations, the raw frame encoding, the comparison with an
  expectation, and the transcript chain, in which every accepted frame is bound, together with
  the peer's credentials and the transferred descriptors, to the digest of the one before.
\<close>

section \<open>Ancillary data\<close>

record AncillaryShape =
  an_message_end :: bool
  an_message_truncated :: bool
  an_control_truncated :: bool
  an_credential_records :: u8
  an_rights_records :: u8
  an_unknown_control_records :: u8
  an_malformed_control_records :: u8

definition ancillary_canonical :: "nat \<Rightarrow> AncillaryShape" where
  "ancillary_canonical fd_count =
     \<lparr>an_message_end = True, an_message_truncated = False, an_control_truncated = False,
      an_credential_records = 1, an_rights_records = (if fd_count = 0 then 0 else 1),
      an_unknown_control_records = 0, an_malformed_control_records = 0\<rparr>"

definition ancillary_validate :: "AncillaryShape \<Rightarrow> nat \<Rightarrow> WireError + unit" where
  "ancillary_validate a fd_count =
     (let expected_rights = bool_code (fd_count \<noteq> 0) in
      and_then (ensure (an_message_end a) MissingMessageEnd) (\<lambda>_.
      and_then (ensure (\<not> an_message_truncated a) MessageTruncated) (\<lambda>_.
      and_then (ensure (\<not> an_control_truncated a) ControlTruncated) (\<lambda>_.
      and_then (ensure (an_credential_records a = 1)
                 (CredentialRecordCount (an_credential_records a))) (\<lambda>_.
      and_then (ensure (an_rights_records a = expected_rights)
                 (RightsRecordCount (an_rights_records a) expected_rights)) (\<lambda>_.
      and_then (ensure (an_unknown_control_records a = 0)
                 (UnknownControlRecords (an_unknown_control_records a))) (\<lambda>_.
      ensure (an_malformed_control_records a = 0)
        (MalformedControlRecords (an_malformed_control_records a)))))))))"

section \<open>Frames\<close>

record FrameInput =
  fi_direction :: FrameDirection
  fi_ordinal :: u8
  fi_phase :: AttemptPhase
  fi_session_id :: bytes
  fi_previous_hash :: bytes
  fi_body :: bytes
  fi_credentials :: PeerCredentials
  fi_fd_commitments :: "FdCommitment list"
  fi_ancillary :: AncillaryShape

record WireFrame =
  wf_magic :: bytes
  wf_version :: u16
  wf_direction :: FrameDirection
  wf_ordinal :: u8
  wf_phase :: AttemptPhase
  wf_declared_body_length :: u32
  wf_session_id :: bytes
  wf_previous_hash :: bytes
  wf_declared_fd_count :: u8
  wf_body :: bytes
  wf_credentials :: PeerCredentials
  wf_fd_commitments :: "FdCommitment list"
  wf_ancillary :: AncillaryShape

fun validate_fd_inventory :: "FdCommitment list \<Rightarrow> FdCommitment list \<Rightarrow> WireError + unit" where
  "validate_fd_inventory prior [] = Inr ()"
| "validate_fd_inventory prior (c # cs) =
     and_then (commitment_validate c) (\<lambda>_.
     and_then (ensure (\<not> list_ex (\<lambda>p. fc_role p = fc_role c) prior) (DuplicateFdRole (fc_role c))) (\<lambda>_.
     validate_fd_inventory (prior @ [c]) cs))"

fun roles_length :: "nat \<Rightarrow> FdCommitment list \<Rightarrow> WireError + nat" where
  "roles_length len [] = Inr len"
| "roles_length len (c # cs) =
     and_then (ok_or (checked_add_usize len (role_encoded_len (fc_role c))) ArithmeticOverflow) (\<lambda>len'.
     roles_length len' cs)"

definition encoded_frame_len :: "nat \<Rightarrow> FdCommitment list \<Rightarrow> WireError + nat" where
  "encoded_frame_len body_length cs =
     and_then (roles_length 0 cs) (\<lambda>roles.
     and_then (ok_or (checked_add_usize FRAME_FIXED_HEADER_BYTES roles) ArithmeticOverflow) (\<lambda>header.
     ok_or (checked_add_usize header body_length) ArithmeticOverflow))"

definition validate_shape :: "WireFrame \<Rightarrow> WireError + unit" where
  "validate_shape f =
     and_then (ensure (wf_magic f = FRAME_MAGIC) MagicMismatch) (\<lambda>_.
     and_then (ensure (wf_version f = FRAME_VERSION) (VersionMismatch (wf_version f))) (\<lambda>_.
     and_then (ensure (wf_ordinal f < MAX_SESSION_FRAMES)
                (FrameOrdinalOutOfRange (wf_ordinal f))) (\<lambda>_.
     and_then (ensure (unat (wf_declared_body_length f) = length (wf_body f))
                (DeclaredBodyLengthMismatch (wf_declared_body_length f) (length (wf_body f)))) (\<lambda>_.
     and_then (ensure (unat (wf_declared_fd_count f) = length (wf_fd_commitments f))
                (DeclaredFdCountMismatch (wf_declared_fd_count f) (length (wf_fd_commitments f)))) (\<lambda>_.
     and_then (ensure (length (wf_fd_commitments f) \<le> MAX_FRAME_FDS)
                (TooManyFds (length (wf_fd_commitments f)))) (\<lambda>_.
     and_then (ancillary_validate (wf_ancillary f) (length (wf_fd_commitments f))) (\<lambda>_.
     and_then (validate_fd_inventory [] (wf_fd_commitments f)) (\<lambda>_.
     and_then (encoded_frame_len (length (wf_body f)) (wf_fd_commitments f)) (\<lambda>encoded_length.
     ensure (encoded_length \<le> MAX_FRAME_BYTES) (FrameTooLarge encoded_length))))))))))"

definition frame_new :: "FrameInput \<Rightarrow> WireError + WireFrame" where
  "frame_new i =
     (let fd_count = length (fi_fd_commitments i); body_length = length (fi_body i) in
      and_then (ensure (fi_ordinal i < MAX_SESSION_FRAMES)
                 (FrameOrdinalOutOfRange (fi_ordinal i))) (\<lambda>_.
      and_then (ensure (fd_count \<le> MAX_FRAME_FDS) (TooManyFds fd_count)) (\<lambda>_.
      and_then (ancillary_validate (fi_ancillary i) fd_count) (\<lambda>_.
      and_then (validate_fd_inventory [] (fi_fd_commitments i)) (\<lambda>_.
      and_then (ok_or (u32_try_from body_length) (BodyLengthOutOfRange body_length)) (\<lambda>declared_body_length.
      and_then (ok_or (u8_try_from fd_count) (TooManyFds fd_count)) (\<lambda>declared_fd_count.
      and_then (encoded_frame_len body_length (fi_fd_commitments i)) (\<lambda>encoded_length.
      and_then (ensure (encoded_length \<le> MAX_FRAME_BYTES) (FrameTooLarge encoded_length)) (\<lambda>_.
      let frame = \<lparr>wf_magic = FRAME_MAGIC, wf_version = FRAME_VERSION, wf_direction = fi_direction i,
                   wf_ordinal = fi_ordinal i, wf_phase = fi_phase i,
                   wf_declared_body_length = declared_body_length, wf_session_id = fi_session_id i,
                   wf_previous_hash = fi_previous_hash i, wf_declared_fd_count = declared_fd_count,
                   wf_body = fi_body i, wf_credentials = fi_credentials i,
                   wf_fd_commitments = fi_fd_commitments i, wf_ancillary = fi_ancillary i\<rparr> in
      and_then (validate_shape frame) (\<lambda>_. Inr frame))))))))))"

definition frame_encoded_len :: "WireFrame \<Rightarrow> WireError + nat" where
  "frame_encoded_len f =
     and_then (validate_shape f) (\<lambda>_. encoded_frame_len (length (wf_body f)) (wf_fd_commitments f))"

definition encode_raw_frame_parts ::
    "bytes \<Rightarrow> u16 \<Rightarrow> FrameDirection \<Rightarrow> u8 \<Rightarrow> AttemptPhase \<Rightarrow> u32 \<Rightarrow> bytes \<Rightarrow> bytes \<Rightarrow> u8
      \<Rightarrow> FdCommitment list \<Rightarrow> bytes \<Rightarrow> bytes" where
  "encode_raw_frame_parts magic version direction ordinal phase declared_body_length session_id
      previous_hash declared_fd_count fd_commitments body =
     magic @ u16_to_le version @ [direction_code direction] @ [ordinal] @ [wire_code phase]
     @ u32_to_le declared_body_length @ session_id @ previous_hash @ [declared_fd_count]
     @ concat (map (\<lambda>c. encode_role (fc_role c)) fd_commitments) @ body"

definition encode_raw_frame :: "WireFrame \<Rightarrow> WireError + bytes" where
  "encode_raw_frame f =
     and_then (frame_encoded_len f) (\<lambda>_.
     Inr (encode_raw_frame_parts (wf_magic f) (wf_version f) (wf_direction f) (wf_ordinal f)
            (wf_phase f) (wf_declared_body_length f) (wf_session_id f) (wf_previous_hash f)
            (wf_declared_fd_count f) (wf_fd_commitments f) (wf_body f)))"

section \<open>Expectations\<close>

record FrameExpectation =
  fx_direction :: FrameDirection
  fx_ordinal :: u8
  fx_phase :: AttemptPhase
  fx_session_id :: bytes
  fx_previous_hash :: bytes
  fx_body :: bytes
  fx_credentials :: PeerCredentials
  fx_fd_commitments :: "FdCommitment list"

definition validate_expected :: "WireFrame \<Rightarrow> FrameExpectation \<Rightarrow> WireError + unit" where
  "validate_expected f e =
     and_then (validate_shape f) (\<lambda>_.
     and_then (ensure (wf_direction f = fx_direction e) (ExpectationDrift DirectionField)) (\<lambda>_.
     and_then (ensure (wf_ordinal f = fx_ordinal e) (ExpectationDrift OrdinalField)) (\<lambda>_.
     and_then (ensure (wf_phase f = fx_phase e) (ExpectationDrift PhaseField)) (\<lambda>_.
     and_then (ensure (wf_session_id f = fx_session_id e) (ExpectationDrift SessionIdField)) (\<lambda>_.
     and_then (ensure (wf_previous_hash f = fx_previous_hash e)
                (ExpectationDrift PreviousHashField)) (\<lambda>_.
     and_then (ensure (wf_body f = fx_body e) (ExpectationDrift BodyField)) (\<lambda>_.
     and_then (ensure (wf_credentials f = fx_credentials e)
                (ExpectationDrift CredentialsField)) (\<lambda>_.
     ensure (wf_fd_commitments f = fx_fd_commitments e)
       (ExpectationDrift FdCommitmentsField)))))))))"

section \<open>Transcripts\<close>

definition TRANSCRIPT_DOMAIN :: bytes where
  "TRANSCRIPT_DOMAIN = ascii ''eip0045-b4-h0-frame-transcript-v1''"

record TranscriptCursor =
  tx_session_id :: bytes
  tx_next_ordinal :: u8
  tx_previous_hash :: bytes

definition cursor_start :: "bytes \<Rightarrow> bytes \<Rightarrow> TranscriptCursor" where
  "cursor_start session_id initial_hash =
     \<lparr>tx_session_id = session_id, tx_next_ordinal = 0, tx_previous_hash = initial_hash\<rparr>"

fun transcript_records :: "FdCommitment list \<Rightarrow> WireError + bytes" where
  "transcript_records [] = Inr []"
| "transcript_records (c # cs) =
     and_then (encode_fd_commitment c) (\<lambda>encoded.
     and_then (encoded_fd_commitment_len c) (\<lambda>len.
     and_then (transcript_records cs) (\<lambda>rest. Inr (u16_to_le len @ encoded @ rest))))"

definition prepare_transcript_bytes ::
    "bytes \<Rightarrow> u8 \<Rightarrow> bytes \<Rightarrow> WireFrame \<Rightarrow> WireError + bytes" where
  "prepare_transcript_bytes session_id next_ordinal previous_hash f =
     and_then (validate_shape f) (\<lambda>_.
     and_then (ensure (next_ordinal < MAX_SESSION_FRAMES) SessionFrameLimit) (\<lambda>_.
     and_then (ensure (wf_session_id f = session_id) TranscriptSessionMismatch) (\<lambda>_.
     and_then (ensure (wf_ordinal f = next_ordinal)
                (TranscriptOrdinalMismatch (wf_ordinal f) next_ordinal)) (\<lambda>_.
     and_then (ensure (wf_previous_hash f = previous_hash) TranscriptPreviousHashMismatch) (\<lambda>_.
     and_then (encode_raw_frame f) (\<lambda>raw_frame.
     and_then (ok_or (u16_try_from (length TRANSCRIPT_DOMAIN)) ArithmeticOverflow) (\<lambda>domain_length.
     and_then (ok_or (u32_try_from (length raw_frame)) ArithmeticOverflow) (\<lambda>raw_length.
     and_then (transcript_records (wf_fd_commitments f)) (\<lambda>records.
     Inr (u16_to_le domain_length @ TRANSCRIPT_DOMAIN @ previous_hash
          @ [direction_code (wf_direction f)] @ [wire_code (wf_phase f)] @ u32_to_le raw_length
          @ raw_frame @ encode_peer_credentials (wf_credentials f) @ [wf_declared_fd_count f]
          @ records))))))))))"

record TranscriptPreimage =
  tp_bytes :: bytes
  tp_session_id :: bytes
  tp_consumed_ordinal :: u8

definition cursor_prepare :: "TranscriptCursor \<Rightarrow> WireFrame \<Rightarrow> WireError + TranscriptPreimage" where
  "cursor_prepare c f =
     and_then (prepare_transcript_bytes (tx_session_id c) (tx_next_ordinal c) (tx_previous_hash c) f) (\<lambda>bs.
     Inr \<lparr>tp_bytes = bs, tp_session_id = tx_session_id c, tp_consumed_ordinal = tx_next_ordinal c\<rparr>)"

definition advance_with_external_digest :: "TranscriptPreimage \<Rightarrow> bytes \<Rightarrow> TranscriptCursor" where
  "advance_with_external_digest p digest =
     \<lparr>tx_session_id = tp_session_id p, tx_next_ordinal = tp_consumed_ordinal p + 1,
      tx_previous_hash = digest\<rparr>"

section \<open>Accepted frames\<close>

lemma ancillary_validate_iff [simp]: "ancillary_validate a n = Inr u \<longleftrightarrow> a = ancillary_canonical n"
  by (cases a) (auto simp: ancillary_validate_def ancillary_canonical_def Let_def bool_code_def)

lemma validate_fd_inventory_iff:
  "validate_fd_inventory ps cs = Inr u \<longleftrightarrow>
    list_all commitment_ok cs \<and> distinct (map fc_role cs) \<and> fc_role ` set ps \<inter> fc_role ` set cs = {}"
proof -
  have dup: "list_ex (\<lambda>p. fc_role p = r) ps \<longleftrightarrow> r \<in> fc_role ` set ps" for r and ps :: "FdCommitment list"
    by (force simp: list_ex_iff)
  show ?thesis
    by (induction cs arbitrary: ps) (auto simp: commitment_validate_iff dup)
qed

abbreviation roles_total :: "FdCommitment list \<Rightarrow> nat" where
  "roles_total cs \<equiv> sum_list (map (\<lambda>c. role_encoded_len (fc_role c)) cs)"

lemma role_encoded_len_bound: "role_encoded_len r \<le> 6"
  by (cases r) simp_all

lemma roles_length_eq:
  "len + 6 * length cs < usize_limit \<Longrightarrow> roles_length len cs = Inr (len + roles_total cs)"
proof (induction cs arbitrary: len)
  case (Cons c cs)
  have "len + role_encoded_len (fc_role c) + 6 * length cs < usize_limit"
    using Cons.prems role_encoded_len_bound [of "fc_role c"] by simp
  then show ?case
    using Cons.IH [of "len + role_encoded_len (fc_role c)"]
    by (simp add: checked_add_usize_def add.assoc)
qed simp

lemma roles_total_bound: "roles_total cs \<le> 6 * length cs"
proof (induction cs)
  case (Cons c cs)
  then show ?case using role_encoded_len_bound [of "fc_role c"] by simp
qed simp

lemma encoded_frame_len_iff:
  assumes "length cs \<le> 16"
  shows "(\<exists>n. encoded_frame_len b cs = Inr n \<and> n \<le> 65536) \<longleftrightarrow> 82 + roles_total cs + b \<le> 65536"
    and "82 + roles_total cs + b \<le> 65536 \<Longrightarrow> encoded_frame_len b cs = Inr (82 + roles_total cs + b)"
proof -
  have "roles_length 0 cs = Inr (roles_total cs)" using assms roles_length_eq [of 0 cs] by (simp add: usize_limit_def)
  moreover have "82 + roles_total cs < usize_limit" using assms roles_total_bound [of cs] by (simp add: usize_limit_def)
  ultimately have e: "encoded_frame_len b cs = ok_or (checked_add_usize (82 + roles_total cs) b) ArithmeticOverflow"
    by (simp add: encoded_frame_len_def checked_add_usize_def FRAME_FIXED_HEADER_BYTES_def)
  show "(\<exists>n. encoded_frame_len b cs = Inr n \<and> n \<le> 65536) \<longleftrightarrow> 82 + roles_total cs + b \<le> 65536"
    by (auto simp: e usize_limit_def)
  show "82 + roles_total cs + b \<le> 65536 \<Longrightarrow> encoded_frame_len b cs = Inr (82 + roles_total cs + b)"
    by (simp add: e usize_limit_def)
qed

text \<open>What the shape check demands of the declarations, the descriptors and the total length.\<close>

definition fds_ok :: "FdCommitment list \<Rightarrow> bool" where
  "fds_ok cs \<longleftrightarrow> length cs \<le> 16 \<and> list_all commitment_ok cs \<and> distinct (map fc_role cs)"

definition frame_ok :: "WireFrame \<Rightarrow> bool" where
  "frame_ok f \<longleftrightarrow>
     wf_magic f = FRAME_MAGIC \<and> wf_version f = FRAME_VERSION \<and> unat (wf_ordinal f) < 64
     \<and> unat (wf_declared_body_length f) = length (wf_body f)
     \<and> unat (wf_declared_fd_count f) = length (wf_fd_commitments f)
     \<and> fds_ok (wf_fd_commitments f)
     \<and> wf_ancillary f = ancillary_canonical (length (wf_fd_commitments f))
     \<and> 82 + roles_total (wf_fd_commitments f) + length (wf_body f) \<le> 65536"

lemma ordinal_bound_iff: "o' < MAX_SESSION_FRAMES \<longleftrightarrow> unat o' < 64"
  by (simp add: MAX_SESSION_FRAMES_def word_less_nat_alt)

lemma validate_shape_iff: "validate_shape f = Inr u \<longleftrightarrow> frame_ok f"
proof -
  have "validate_shape f = Inr u \<longleftrightarrow>
      wf_magic f = FRAME_MAGIC \<and> wf_version f = FRAME_VERSION \<and> unat (wf_ordinal f) < 64
      \<and> unat (wf_declared_body_length f) = length (wf_body f)
      \<and> unat (wf_declared_fd_count f) = length (wf_fd_commitments f)
      \<and> fds_ok (wf_fd_commitments f)
      \<and> wf_ancillary f = ancillary_canonical (length (wf_fd_commitments f))
      \<and> (\<exists>n. encoded_frame_len (length (wf_body f)) (wf_fd_commitments f) = Inr n \<and> n \<le> 65536)"
    by (auto simp: validate_shape_def ordinal_bound_iff validate_fd_inventory_iff fds_ok_def
        MAX_FRAME_FDS_def MAX_FRAME_BYTES_def)
  also have "\<dots> \<longleftrightarrow> frame_ok f"
    using encoded_frame_len_iff(1) [of "wf_fd_commitments f" "length (wf_body f)"]
    by (auto simp: frame_ok_def fds_ok_def)
  finally show ?thesis .
qed

definition input_ok :: "FrameInput \<Rightarrow> bool" where
  "input_ok i \<longleftrightarrow>
     unat (fi_ordinal i) < 64 \<and> fds_ok (fi_fd_commitments i)
     \<and> fi_ancillary i = ancillary_canonical (length (fi_fd_commitments i))
     \<and> 82 + roles_total (fi_fd_commitments i) + length (fi_body i) \<le> 65536"

definition frame_of :: "FrameInput \<Rightarrow> WireFrame" where
  "frame_of i =
     \<lparr>wf_magic = FRAME_MAGIC, wf_version = FRAME_VERSION, wf_direction = fi_direction i,
      wf_ordinal = fi_ordinal i, wf_phase = fi_phase i,
      wf_declared_body_length = word_of_nat (length (fi_body i)), wf_session_id = fi_session_id i,
      wf_previous_hash = fi_previous_hash i,
      wf_declared_fd_count = word_of_nat (length (fi_fd_commitments i)),
      wf_body = fi_body i, wf_credentials = fi_credentials i,
      wf_fd_commitments = fi_fd_commitments i, wf_ancillary = fi_ancillary i\<rparr>"

lemma frame_new_iff: "frame_new i = Inr f \<longleftrightarrow> input_ok i \<and> f = frame_of i"
proof (cases "input_ok i")
  case True
  then have ok: "fds_ok (fi_fd_commitments i)" "length (fi_fd_commitments i) \<le> 16"
    "82 + roles_total (fi_fd_commitments i) + length (fi_body i) \<le> 65536"
    by (simp_all add: input_ok_def fds_ok_def)
  then have sizes: "u8_try_from (length (fi_fd_commitments i)) = Some (word_of_nat (length (fi_fd_commitments i)))"
    "u32_try_from (length (fi_body i)) = Some (word_of_nat (length (fi_body i)))"
    "unat (word_of_nat (length (fi_fd_commitments i)) :: u8) = length (fi_fd_commitments i)"
    "unat (word_of_nat (length (fi_body i)) :: u32) = length (fi_body i)"
    by (simp_all add: u8_try_from_def u32_try_from_def unat_of_nat del: u32_try_from_eq_Some)
  have "frame_ok (frame_of i)"
    using True sizes(3,4) by (simp add: frame_ok_def frame_of_def input_ok_def)
  then have "validate_shape (frame_of i) = Inr ()" by (simp add: validate_shape_iff)
  moreover have "validate_fd_inventory [] (fi_fd_commitments i) = Inr ()"
    using ok(1) by (simp add: validate_fd_inventory_iff fds_ok_def)
  moreover have "ancillary_validate (fi_ancillary i) (length (fi_fd_commitments i)) = Inr ()"
    using True by (simp add: input_ok_def)
  ultimately have "frame_new i = Inr (frame_of i)"
    using True ok encoded_frame_len_iff(2) [OF ok(2,3)]
    by (simp add: frame_new_def sizes(1,2) Let_def frame_of_def input_ok_def ordinal_bound_iff
        MAX_FRAME_FDS_def MAX_FRAME_BYTES_def del: and_then_eq_Inr ancillary_validate_iff)
  with True show ?thesis by auto
next
  case False
  have "frame_new i \<noteq> Inr f"
  proof
    assume new: "frame_new i = Inr f"
    then have "unat (fi_ordinal i) < 64" "fds_ok (fi_fd_commitments i)"
      "fi_ancillary i = ancillary_canonical (length (fi_fd_commitments i))"
      "\<exists>n. encoded_frame_len (length (fi_body i)) (fi_fd_commitments i) = Inr n \<and> n \<le> 65536"
      by (auto simp: frame_new_def Let_def ordinal_bound_iff validate_fd_inventory_iff fds_ok_def
          MAX_FRAME_FDS_def MAX_FRAME_BYTES_def)
    with False show False
      using encoded_frame_len_iff(1) [of "fi_fd_commitments i" "length (fi_body i)"]
      by (simp add: input_ok_def fds_ok_def)
  qed
  with False show ?thesis by simp
qed

lemma frame_of_ok: "input_ok i \<Longrightarrow> frame_ok (frame_of i)"
  by (auto simp: input_ok_def frame_ok_def frame_of_def fds_ok_def unat_of_nat)

section \<open>Raw frames\<close>

definition frame_wf :: "WireFrame \<Rightarrow> bool" where
  "frame_wf f \<longleftrightarrow> length (wf_session_id f) = 32 \<and> length (wf_previous_hash f) = 32
     \<and> list_all commitment_wf (wf_fd_commitments f)"

definition raw_bytes :: "WireFrame \<Rightarrow> bytes" where
  "raw_bytes f =
     encode_raw_frame_parts (wf_magic f) (wf_version f) (wf_direction f) (wf_ordinal f)
       (wf_phase f) (wf_declared_body_length f) (wf_session_id f) (wf_previous_hash f)
       (wf_declared_fd_count f) (wf_fd_commitments f) (wf_body f)"

lemma encode_raw_frame_iff: "encode_raw_frame f = Inr bs \<longleftrightarrow> frame_ok f \<and> bs = raw_bytes f"
  using encoded_frame_len_iff(2) [of "wf_fd_commitments f" "length (wf_body f)"]
  by (auto simp: encode_raw_frame_def frame_encoded_len_def validate_shape_iff raw_bytes_def
      frame_ok_def fds_ok_def)

lemma length_role_bytes: "length (concat (map (\<lambda>c. encode_role (fc_role c)) cs)) = roles_total cs"
  by (induction cs) simp_all

lemma length_magic [simp]: "length FRAME_MAGIC = 8"
  by (simp add: FRAME_MAGIC_def)

lemma length_raw_bytes:
  "frame_ok f \<Longrightarrow> frame_wf f \<Longrightarrow>
    length (raw_bytes f) = 82 + roles_total (wf_fd_commitments f) + length (wf_body f)"
  by (simp add: raw_bytes_def encode_raw_frame_parts_def frame_ok_def frame_wf_def length_role_bytes)

lemma wire_code_inject [simp]: "wire_code p = wire_code q \<longleftrightarrow> p = q"
  using phase_index_inject [of p q] by (auto simp: phase_index_def)

text \<open>What a raw frame says: everything but the credentials and the identities of descriptors.\<close>

definition raw_view ::
    "WireFrame \<Rightarrow> FrameDirection \<times> u8 \<times> AttemptPhase \<times> bytes \<times> bytes \<times> FdRole list \<times> bytes" where
  "raw_view f =
     (wf_direction f, wf_ordinal f, wf_phase f, wf_session_id f, wf_previous_hash f,
      map fc_role (wf_fd_commitments f), wf_body f)"

lemma raw_bytes_prefix:
  assumes "frame_ok f" "frame_wf f" "frame_ok g" "frame_wf g"
  shows "raw_bytes f @ u = raw_bytes g @ v \<longleftrightarrow> raw_view f = raw_view g \<and> u = v"
proof
  let ?roles = "\<lambda>h. map fc_role (wf_fd_commitments h)"
  assume eq: "raw_bytes f @ u = raw_bytes g @ v"
  have split: "raw_bytes h @ w =
      FRAME_MAGIC @ u16_to_le FRAME_VERSION @ [direction_code (wf_direction h)] @ [wf_ordinal h]
      @ [wire_code (wf_phase h)] @ u32_to_le (wf_declared_body_length h) @ wf_session_id h
      @ wf_previous_hash h @ [wf_declared_fd_count h]
      @ concat (map encode_role (?roles h)) @ (wf_body h @ w)"
    if "frame_ok h" for h w
    using that by (simp add: raw_bytes_def encode_raw_frame_parts_def frame_ok_def comp_def)
  from eq have head: "wf_direction f = wf_direction g" "wf_ordinal f = wf_ordinal g"
    "wf_phase f = wf_phase g" "wf_declared_body_length f = wf_declared_body_length g"
    "wf_session_id f = wf_session_id g" "wf_previous_hash f = wf_previous_hash g"
    "wf_declared_fd_count f = wf_declared_fd_count g"
    and rest: "concat (map encode_role (?roles f)) @ (wf_body f @ u)
      = concat (map encode_role (?roles g)) @ (wf_body g @ v)"
    unfolding split [OF assms(1)] split [OF assms(3)]
    using assms(2,4) by (simp_all add: frame_wf_def)
  have counts: "length (?roles f) = length (?roles g)" "length (wf_body f) = length (wf_body g)"
    using assms head by (simp_all add: frame_ok_def)
  have all: "list_all (\<lambda>_. True) rs" for rs :: "FdRole list" by (simp add: list_all_iff)
  show "raw_view f = raw_view g \<and> u = v"
    using rest counts head role_code.concat_iff [OF all all counts(1)] by (simp add: raw_view_def)
next
  assume view: "raw_view f = raw_view g \<and> u = v"
  then have roles: "map fc_role (wf_fd_commitments f) = map fc_role (wf_fd_commitments g)"
    by (simp add: raw_view_def)
  then have "concat (map (\<lambda>c. encode_role (fc_role c)) (wf_fd_commitments f))
      = concat (map (\<lambda>c. encode_role (fc_role c)) (wf_fd_commitments g))"
    by (metis (no_types) list.map_comp comp_def map_eq_conv)
  moreover have "length (wf_fd_commitments f) = length (wf_fd_commitments g)"
    using arg_cong [OF roles, of length] by simp
  then have "wf_declared_fd_count f = wf_declared_fd_count g"
    "wf_declared_body_length f = wf_declared_body_length g"
    using assms(1,3) view by (simp_all add: frame_ok_def raw_view_def word_unat_eq_iff)
  ultimately show "raw_bytes f @ u = raw_bytes g @ v"
    using view assms(1,3) by (simp add: raw_bytes_def encode_raw_frame_parts_def raw_view_def frame_ok_def)
qed

section \<open>Transcript preimages\<close>

definition transcript_record :: "FdCommitment \<Rightarrow> bytes" where
  "transcript_record c = u16_to_le (word_of_nat (length (commitment_bytes c))) @ commitment_bytes c"

interpretation record_code: prefix_code commitment_wf transcript_record
proof
  fix a b u v
  assume "commitment_wf a" "commitment_wf b" "transcript_record a @ u = transcript_record b @ v"
  then show "a = b \<and> u = v" by (auto simp: transcript_record_def commitment_code.append_iff)
qed

lemma transcript_records_eq:
  "list_all commitment_wf cs \<Longrightarrow> list_all commitment_ok cs \<Longrightarrow>
    transcript_records cs = Inr (concat (map transcript_record cs))"
  by (induction cs)
    (simp_all add: encode_fd_commitment_def commitment_validate_iff encoded_len_eq
      transcript_record_def length_admitted)

definition transcript_bytes :: "WireFrame \<Rightarrow> bytes" where
  "transcript_bytes f =
     u16_to_le 33 @ TRANSCRIPT_DOMAIN @ wf_previous_hash f @ [direction_code (wf_direction f)]
     @ [wire_code (wf_phase f)] @ u32_to_le (word_of_nat (length (raw_bytes f))) @ raw_bytes f
     @ encode_peer_credentials (wf_credentials f) @ [wf_declared_fd_count f]
     @ concat (map transcript_record (wf_fd_commitments f))"

lemma length_transcript_domain [simp]: "length TRANSCRIPT_DOMAIN = 33"
  by (simp add: TRANSCRIPT_DOMAIN_def)

lemma prepare_transcript_iff:
  assumes "frame_wf f"
  shows "prepare_transcript_bytes sid n prev f = Inr bs \<longleftrightarrow>
    frame_ok f \<and> wf_session_id f = sid \<and> wf_ordinal f = n \<and> wf_previous_hash f = prev
    \<and> bs = transcript_bytes f"
proof (cases "frame_ok f")
  case True
  have raw: "encode_raw_frame f = Inr (raw_bytes f)" using True by (simp add: encode_raw_frame_iff)
  have "length (raw_bytes f) \<le> 65536"
    using True length_raw_bytes [OF True assms] by (simp add: frame_ok_def)
  then have "u32_try_from (length (raw_bytes f)) = Some (word_of_nat (length (raw_bytes f)))"
    by (simp add: u32_try_from_def del: u32_try_from_eq_Some)
  moreover have "u16_try_from 33 = Some 33" by (simp add: try_from_counts)
  moreover have "transcript_records (wf_fd_commitments f)
      = Inr (concat (map transcript_record (wf_fd_commitments f)))"
    using True assms by (intro transcript_records_eq) (simp_all add: frame_ok_def fds_ok_def frame_wf_def)
  moreover have "validate_shape f = Inr ()" using True by (simp add: validate_shape_iff)
  moreover have "wf_ordinal f < MAX_SESSION_FRAMES"
    using True by (simp add: ordinal_bound_iff frame_ok_def)
  ultimately show ?thesis
    using True raw
    by (auto simp: prepare_transcript_bytes_def transcript_bytes_def simp del: u32_try_from_eq_Some)
next
  case False
  then show ?thesis by (auto simp: prepare_transcript_bytes_def validate_shape_iff)
qed

text \<open>A transcript preimage determines the frame, its credentials and every descriptor.\<close>

lemma transcript_bytes_inject:
  assumes "frame_ok f" "frame_wf f" "frame_ok g" "frame_wf g"
  shows "transcript_bytes f = transcript_bytes g \<longleftrightarrow> f = g"
proof
  assume eq: "transcript_bytes f = transcript_bytes g"
  then have raw: "raw_bytes f @ encode_peer_credentials (wf_credentials f) @ [wf_declared_fd_count f]
        @ concat (map transcript_record (wf_fd_commitments f))
      = raw_bytes g @ encode_peer_credentials (wf_credentials g) @ [wf_declared_fd_count g]
        @ concat (map transcript_record (wf_fd_commitments g))"
    using assms(2,4) by (simp add: transcript_bytes_def frame_wf_def)
  then have view: "raw_view f = raw_view g" and rest:
    "encode_peer_credentials (wf_credentials f) @ [wf_declared_fd_count f]
        @ concat (map transcript_record (wf_fd_commitments f))
      = encode_peer_credentials (wf_credentials g) @ [wf_declared_fd_count g]
        @ concat (map transcript_record (wf_fd_commitments g))"
    unfolding raw_bytes_prefix [OF assms] by blast+
  from rest have creds: "wf_credentials f = wf_credentials g"
    and count: "wf_declared_fd_count f = wf_declared_fd_count g"
    and records: "concat (map transcript_record (wf_fd_commitments f))
      = concat (map transcript_record (wf_fd_commitments g))"
    by simp_all
  have len: "length (wf_fd_commitments f) = length (wf_fd_commitments g)"
    using count assms(1,3) by (simp add: frame_ok_def)
  then have fds: "wf_fd_commitments f = wf_fd_commitments g"
    using record_code.concat_iff [of "wf_fd_commitments f" "wf_fd_commitments g" "[]" "[]"] records assms(2,4)
    by (simp add: frame_wf_def)
  have "wf_declared_body_length f = wf_declared_body_length g"
    using view assms(1,3) by (simp add: frame_ok_def raw_view_def word_unat_eq_iff)
  then show "f = g"
    using view creds fds count assms(1,3)
    by (cases f; cases g) (simp add: raw_view_def frame_ok_def)
qed simp

section \<open>Chains\<close>

text \<open>
  The transcript of a session: each frame is prepared against the cursor, hashed, and the cursor
  is advanced with the digest.
\<close>

fun run_transcript ::
    "(bytes \<Rightarrow> bytes) \<Rightarrow> TranscriptCursor \<Rightarrow> WireFrame list \<Rightarrow> WireError + TranscriptCursor" where
  "run_transcript sha c [] = Inr c"
| "run_transcript sha c (f # fs) =
     and_then (cursor_prepare c f) (\<lambda>p.
     run_transcript sha (advance_with_external_digest p (sha (tp_bytes p))) fs)"

definition after_frame :: "(bytes \<Rightarrow> bytes) \<Rightarrow> TranscriptCursor \<Rightarrow> WireFrame \<Rightarrow> TranscriptCursor" where
  "after_frame sha c f =
     c\<lparr>tx_next_ordinal := tx_next_ordinal c + 1, tx_previous_hash := sha (transcript_bytes f)\<rparr>"

definition joins :: "TranscriptCursor \<Rightarrow> WireFrame \<Rightarrow> bool" where
  "joins c f \<longleftrightarrow> frame_ok f \<and> wf_session_id f = tx_session_id c \<and> wf_ordinal f = tx_next_ordinal c
     \<and> wf_previous_hash f = tx_previous_hash c"

lemma run_transcript_Cons:
  assumes "frame_wf f"
  shows "run_transcript sha c (f # fs) = Inr c' \<longleftrightarrow>
    joins c f \<and> run_transcript sha (after_frame sha c f) fs = Inr c'"
proof -
  have "cursor_prepare c f = Inr p \<longleftrightarrow> joins c f
      \<and> p = \<lparr>tp_bytes = transcript_bytes f, tp_session_id = tx_session_id c, tp_consumed_ordinal = tx_next_ordinal c\<rparr>" for p
    by (auto simp: cursor_prepare_def prepare_transcript_iff [OF assms] joins_def)
  moreover have "advance_with_external_digest
      \<lparr>tp_bytes = transcript_bytes f, tp_session_id = tx_session_id c, tp_consumed_ordinal = tx_next_ordinal c\<rparr> d
      = c\<lparr>tx_next_ordinal := tx_next_ordinal c + 1, tx_previous_hash := d\<rparr>" for d
    by (cases c) (simp add: advance_with_external_digest_def)
  ultimately show ?thesis by (auto simp: after_frame_def)
qed

text \<open>The chain: every frame carries the digest of the transcript of the one before it.\<close>

fun chained :: "(bytes \<Rightarrow> bytes) \<Rightarrow> bytes \<Rightarrow> bytes \<Rightarrow> nat \<Rightarrow> WireFrame list \<Rightarrow> bool" where
  "chained sha sid prev k [] = True"
| "chained sha sid prev k (f # fs) \<longleftrightarrow>
     frame_ok f \<and> wf_session_id f = sid \<and> unat (wf_ordinal f) = k \<and> wf_previous_hash f = prev
     \<and> chained sha sid (sha (transcript_bytes f)) (Suc k) fs"

definition last_digest :: "(bytes \<Rightarrow> bytes) \<Rightarrow> bytes \<Rightarrow> WireFrame list \<Rightarrow> bytes" where
  "last_digest sha prev fs = (if fs = [] then prev else sha (transcript_bytes (last fs)))"

lemma last_digest_simps [simp]:
  "last_digest sha prev [] = prev"
  "last_digest sha prev (f # fs) = last_digest sha (sha (transcript_bytes f)) fs"
  by (simp_all add: last_digest_def)

lemma chained_short: "chained sha sid prev k fs \<Longrightarrow> fs \<noteq> [] \<Longrightarrow> k + length fs \<le> 64"
proof (induction fs arbitrary: prev k)
  case (Cons f fs)
  then show ?case by (cases fs) (fastforce simp: frame_ok_def)+
qed simp

lemma run_transcript_iff:
  assumes "list_all frame_wf fs"
  shows "run_transcript sha c fs = Inr c' \<longleftrightarrow>
    chained sha (tx_session_id c) (tx_previous_hash c) (unat (tx_next_ordinal c)) fs
    \<and> c' = \<lparr>tx_session_id = tx_session_id c,
           tx_next_ordinal = tx_next_ordinal c + word_of_nat (length fs),
           tx_previous_hash = last_digest sha (tx_previous_hash c) fs\<rparr>"
  using assms
proof (induction fs arbitrary: c)
  case Nil
  then show ?case by (cases c) auto
next
  case (Cons f fs)
  let ?c = "after_frame sha c f"
  have IH: "run_transcript sha ?c fs = Inr c' \<longleftrightarrow>
      chained sha (tx_session_id c) (sha (transcript_bytes f)) (unat (tx_next_ordinal c + 1)) fs
      \<and> c' = \<lparr>tx_session_id = tx_session_id c,
             tx_next_ordinal = tx_next_ordinal c + word_of_nat (length (f # fs)),
             tx_previous_hash = last_digest sha (sha (transcript_bytes f)) fs\<rparr>"
    using Cons.prems Cons.IH [of ?c] by (simp add: after_frame_def add.assoc)
  have next_ordinal: "unat (tx_next_ordinal c + 1) = Suc (unat (tx_next_ordinal c))" if "joins c f"
    using that by (auto simp: joins_def frame_ok_def unat_word_ariths)
  have "run_transcript sha c (f # fs) = Inr c' \<longleftrightarrow> joins c f \<and> run_transcript sha ?c fs = Inr c'"
    using Cons.prems by (intro run_transcript_Cons) simp
  also have "\<dots> \<longleftrightarrow> joins c f
      \<and> chained sha (tx_session_id c) (sha (transcript_bytes f)) (Suc (unat (tx_next_ordinal c))) fs
      \<and> c' = \<lparr>tx_session_id = tx_session_id c,
             tx_next_ordinal = tx_next_ordinal c + word_of_nat (length (f # fs)),
             tx_previous_hash = last_digest sha (sha (transcript_bytes f)) fs\<rparr>"
    using next_ordinal IH by auto
  finally show ?case by (auto simp: joins_def word_unat_eq_iff)
qed

lemma chain_determined:
  assumes "list_all frame_wf fs" "list_all frame_wf gs" "length fs = length gs"
    and "chained sha sid prev k fs" "chained sha sid' prev' k gs"
    and "last_digest sha prev fs = last_digest sha prev' gs"
    and "\<not> collides sha (map transcript_bytes fs) (map transcript_bytes gs)"
  shows "fs = gs \<and> prev = prev'"
  using assms
proof (induction fs arbitrary: gs prev prev' k)
  case Nil
  then show ?case by simp
next
  case (Cons f fs)
  then obtain g gs' where gs: "gs = g # gs'" by (cases gs) auto
  have "fs = gs' \<and> sha (transcript_bytes f) = sha (transcript_bytes g)"
    using Cons.prems gs by (intro Cons.IH [of gs' _ "Suc k"]) (auto simp: collides_def)
  moreover from this have "transcript_bytes f = transcript_bytes g"
    using Cons.prems(7) gs by (auto simp: collides_def)
  ultimately show ?case
    using Cons.prems gs transcript_bytes_inject [of f g] by auto
qed

definition sample_credentials :: PeerCredentials where
  "sample_credentials =
     \<lparr>pc_process_id = 12, pc_user_id = 0, pc_group_id = 0, pc_user_namespace = sample_namespace\<rparr>"

definition sample_input :: "bytes \<Rightarrow> FrameInput" where
  "sample_input body =
     \<lparr>fi_direction = SupervisorToGenerator, fi_ordinal = 0, fi_phase = Closed,
      fi_session_id = replicate 32 1, fi_previous_hash = replicate 32 2, fi_body = body,
      fi_credentials = sample_credentials, fi_fd_commitments = [sample_result_fd],
      fi_ancillary = ancillary_canonical 1\<rparr>"

definition sample_frame :: "bytes \<Rightarrow> WireFrame" where
  "sample_frame body = frame_of (sample_input body)"

lemma sample_frame_facts:
  assumes "length body \<le> 1000"
  shows "frame_ok (sample_frame body)" "frame_wf (sample_frame body)"
    "wf_session_id (sample_frame body) = replicate 32 1" "wf_ordinal (sample_frame body) = 0"
    "wf_previous_hash (sample_frame body) = replicate 32 2" "wf_body (sample_frame body) = body"
proof -
  have "fc_role sample_result_fd = FinalResult" by (simp add: sample_result_fd_def)
  then show "frame_ok (sample_frame body)"
    using assms sample_fds_ok
    by (auto simp: sample_frame_def sample_input_def input_ok_def fds_ok_def intro!: frame_of_ok)
  show "frame_wf (sample_frame body)"
    by (simp add: sample_frame_def sample_input_def frame_of_def frame_wf_def sample_fds_ok)
qed (simp_all add: sample_frame_def sample_input_def frame_of_def)

section \<open>Properties\<close>

text \<open>
  C18. A raw frame is self-delimiting: two encoded frames followed by arbitrary bytes are the same
  string only when they agree in direction, ordinal, phase, session, previous digest, ordered
  descriptor roles and body, and the rests agree. A frame never exceeds 65,536 bytes.
\<close>

theorem raw_frame_exact:
  assumes "frame_wf f" "frame_wf g" and "encode_raw_frame f = Inr x" "encode_raw_frame g = Inr y"
  shows "(x @ u = y @ v \<longleftrightarrow> raw_view f = raw_view g \<and> u = v)
    \<and> frame_encoded_len f = Inr (length x) \<and> length x \<le> 65536"
proof (intro conjI)
  have ok: "frame_ok f" "frame_ok g" and bytes: "x = raw_bytes f" "y = raw_bytes g"
    using assms(3,4) by (simp_all add: encode_raw_frame_iff)
  show "x @ u = y @ v \<longleftrightarrow> raw_view f = raw_view g \<and> u = v"
    unfolding bytes by (rule raw_bytes_prefix [OF ok(1) assms(1) ok(2) assms(2)])
  have len: "length x = 82 + roles_total (wf_fd_commitments f) + length (wf_body f)"
    unfolding bytes by (rule length_raw_bytes [OF ok(1) assms(1)])
  then show "length x \<le> 65536" using ok(1) by (simp add: frame_ok_def)
  show "frame_encoded_len f = Inr (length x)"
    using ok(1) len encoded_frame_len_iff(2) [of "wf_fd_commitments f" "length (wf_body f)"]
    by (simp add: frame_encoded_len_def frame_ok_def fds_ok_def)
      (auto simp: validate_shape_iff frame_ok_def fds_ok_def)
qed

lemma raw_frame_exact_witness:
  "raw_bytes (sample_frame [1]) @ [5] \<noteq> raw_bytes (sample_frame [2]) @ [5]
   \<and> length (raw_bytes (sample_frame [1])) \<le> 65536"
proof -
  have wf: "frame_wf (sample_frame [1])" "frame_wf (sample_frame [2])" by (simp_all add: sample_frame_facts)
  have raw: "encode_raw_frame (sample_frame [1]) = Inr (raw_bytes (sample_frame [1]))"
    "encode_raw_frame (sample_frame [2]) = Inr (raw_bytes (sample_frame [2]))"
    by (simp_all add: encode_raw_frame_iff sample_frame_facts)
  show ?thesis
    using raw_frame_exact [OF wf raw, of "[5]" "[5]"] by (simp add: raw_view_def sample_frame_facts)
qed

text \<open>
  C17. A transcript accepts exactly the chained sequences of well-shaped frames: all of the
  cursor's session, with consecutive ordinals, each carrying the digest of the transcript of the
  one before it. A session that starts at ordinal zero therefore has at most 64 frames, and the
  one-byte ordinal never wraps.
\<close>

theorem transcript_run_exact:
  assumes "list_all frame_wf fs"
  shows "(run_transcript sha (cursor_start sid h0) fs = Inr c \<longleftrightarrow>
      chained sha sid h0 0 fs
      \<and> c = \<lparr>tx_session_id = sid, tx_next_ordinal = word_of_nat (length fs),
            tx_previous_hash = last_digest sha h0 fs\<rparr>)
    \<and> (chained sha sid h0 0 fs \<longrightarrow> length fs \<le> 64)"
  using run_transcript_iff [OF assms, of sha "cursor_start sid h0" c] chained_short [of sha sid h0 0 fs]
  by (cases "fs = []") (auto simp: cursor_start_def)

lemma transcript_run_exact_witness:
  "run_transcript sample_digest (cursor_start (replicate 32 1) (replicate 32 2)) [sample_frame [1]]
     = Inr \<lparr>tx_session_id = replicate 32 1, tx_next_ordinal = 1,
            tx_previous_hash = sample_digest (transcript_bytes (sample_frame [1]))\<rparr>"
proof -
  have wf: "list_all frame_wf [sample_frame [1]]" by (simp add: sample_frame_facts)
  show ?thesis
    using transcript_run_exact [OF wf, of sample_digest "replicate 32 1" "replicate 32 2"]
    by (simp add: sample_frame_facts del: run_transcript.simps)
qed

text \<open>
  C9. A transcript cursor binds the history that led to it: two sessions whose cursors are equal
  accepted the same frames in the same order, with the same peer credentials and descriptor
  identities, and started from the same digest; otherwise two different transcripts at the same
  position have the same SHA-256 digest.
\<close>

theorem transcript_binds_history:
  assumes "list_all frame_wf fs" "list_all frame_wf gs"
    and "run_transcript sha (cursor_start sid h0) fs = Inr c"
    and "run_transcript sha (cursor_start sid' h0') gs = Inr c"
  shows "(fs = gs \<and> sid = sid' \<and> h0 = h0')
    \<or> collides sha (map transcript_bytes fs) (map transcript_bytes gs)"
proof (rule disjCI)
  assume none: "\<not> collides sha (map transcript_bytes fs) (map transcript_bytes gs)"
  have chains: "chained sha sid h0 0 fs" "chained sha sid' h0' 0 gs" "sid = sid'"
    "last_digest sha h0 fs = last_digest sha h0' gs"
    "word_of_nat (length fs) = (word_of_nat (length gs) :: u8)"
    using assms(3,4) run_transcript_iff [OF assms(1), of sha "cursor_start sid h0" c]
      run_transcript_iff [OF assms(2), of sha "cursor_start sid' h0'" c]
    by (auto simp: cursor_start_def)
  have "length fs \<le> 64" "length gs \<le> 64"
    using chained_short [OF chains(1)] chained_short [OF chains(2)] by (cases "fs = []"; cases "gs = []"; simp)+
  then have "length fs = length gs"
    using arg_cong [OF chains(5), of unat] by (simp add: unat_of_nat)
  then show "fs = gs \<and> sid = sid' \<and> h0 = h0'"
    using chain_determined [OF assms(1,2) _ chains(1,2,4) none] chains(3) by simp
qed

lemma transcript_binds_history_witness:
  "collides sample_digest [transcript_bytes (sample_frame [1])] [transcript_bytes (sample_frame [2])]"
proof -
  have wf: "list_all frame_wf [sample_frame [1]]" "list_all frame_wf [sample_frame [2]]"
    by (simp_all add: sample_frame_facts)
  have same: "sample_digest (transcript_bytes (sample_frame [1])) = sample_digest (transcript_bytes (sample_frame [2]))"
    by (simp add: sample_digest_def transcript_bytes_def)
  have runs: "run_transcript sample_digest (cursor_start (replicate 32 1) (replicate 32 2)) [sample_frame body]
      = Inr \<lparr>tx_session_id = replicate 32 1, tx_next_ordinal = 1,
             tx_previous_hash = sample_digest (transcript_bytes (sample_frame body))\<rparr>"
    if "length body \<le> 1000" for body
    using that run_transcript_iff [of "[sample_frame body]"]
    by (simp add: sample_frame_facts cursor_start_def del: run_transcript.simps)
  have distinct: "sample_frame [1] \<noteq> sample_frame [2]"
    using sample_frame_facts(6) [of "[1]"] sample_frame_facts(6) [of "[2]"] by auto
  have a: "run_transcript sample_digest (cursor_start (replicate 32 1) (replicate 32 2)) [sample_frame [1]]
      = Inr \<lparr>tx_session_id = replicate 32 1, tx_next_ordinal = 1,
             tx_previous_hash = sample_digest (transcript_bytes (sample_frame [1]))\<rparr>"
    by (rule runs) simp
  have b: "run_transcript sample_digest (cursor_start (replicate 32 1) (replicate 32 2)) [sample_frame [2]]
      = Inr \<lparr>tx_session_id = replicate 32 1, tx_next_ordinal = 1,
             tx_previous_hash = sample_digest (transcript_bytes (sample_frame [1]))\<rparr>"
    unfolding same by (rule runs) simp
  show ?thesis
    using transcript_binds_history [OF wf a b] distinct by simp
qed

end
