(* ===== verification/WireBodies.thy ===== *)
theory WireBodies
  imports WireFrame
begin

text \<open>
  The four fixed bodies of the protocol and the frames that carry them (same source file):
  \<open>GeneratorBound\<close>, the worker bootstrap, \<open>WorkerExecBound\<close> and the closed result, the genesis
  digests that anchor the generator and the worker channel, and the transcript candidates the
  children compute before anything is received or enqueued.
\<close>

section \<open>Domains and sizes\<close>

definition GENERATOR_CHANNEL_GENESIS_DOMAIN :: bytes where
  "GENERATOR_CHANNEL_GENESIS_DOMAIN = ascii ''eip0045-b4-h0-generator-channel-genesis-v1'' @ [0]"

definition WORKER_CHANNEL_GENESIS_DOMAIN :: bytes where
  "WORKER_CHANNEL_GENESIS_DOMAIN = ascii ''eip0045-b4-h0-worker-channel-genesis-v1'' @ [0]"

definition GENERATOR_BOUND_BODY_DOMAIN :: bytes where
  "GENERATOR_BOUND_BODY_DOMAIN = ascii ''eip0045-b4-h0-generator-bound-body-v1'' @ [0]"

definition WORKER_BOOTSTRAP_BODY_DOMAIN :: bytes where
  "WORKER_BOOTSTRAP_BODY_DOMAIN = ascii ''eip0045-b4-h0-worker-bootstrap-body-v1'' @ [0]"

definition WORKER_EXEC_BOUND_BODY_DOMAIN :: bytes where
  "WORKER_EXEC_BOUND_BODY_DOMAIN = ascii ''eip0045-b4-h0-worker-exec-bound-body-v1'' @ [0]"

definition CLOSED_RESULT_BODY_DOMAIN :: bytes where
  "CLOSED_RESULT_BODY_DOMAIN = ascii ''eip0045-b4-h0-closed-result-body-v1'' @ [0]"

definition G0_GENERATOR_BOUND_BODY_BYTES :: nat where "G0_GENERATOR_BOUND_BODY_BYTES = 234"
definition G0_GENERATOR_BOUND_RAW_FRAME_BYTES :: nat where "G0_GENERATOR_BOUND_RAW_FRAME_BYTES = 316"
definition G0_WORKER_EXEC_BOUND_BODY_BYTES :: nat where "G0_WORKER_EXEC_BOUND_BODY_BYTES = 236"
definition G0_WORKER_EXEC_BOUND_RAW_FRAME_BYTES :: nat where "G0_WORKER_EXEC_BOUND_RAW_FRAME_BYTES = 318"
definition G0_CLOSED_RESULT_BODY_BYTES :: nat where "G0_CLOSED_RESULT_BODY_BYTES = 136"
definition G0_CLOSED_RESULT_RAW_FRAME_BYTES :: nat where "G0_CLOSED_RESULT_RAW_FRAME_BYTES = 219"
definition G0_FINAL_RESULT_MAX_BYTES :: nat where "G0_FINAL_RESULT_MAX_BYTES = 1048576"
definition G0_WORKER_BOOTSTRAP_FIXED_BODY_BYTES :: nat where
  "G0_WORKER_BOOTSTRAP_FIXED_BODY_BYTES = 674"

lemmas body_size_defs = G0_GENERATOR_BOUND_BODY_BYTES_def G0_GENERATOR_BOUND_RAW_FRAME_BYTES_def
  G0_WORKER_EXEC_BOUND_BODY_BYTES_def G0_WORKER_EXEC_BOUND_RAW_FRAME_BYTES_def
  G0_CLOSED_RESULT_BODY_BYTES_def G0_CLOSED_RESULT_RAW_FRAME_BYTES_def
  G0_FINAL_RESULT_MAX_BYTES_def G0_WORKER_BOOTSTRAP_FIXED_BODY_BYTES_def

lemma body_domain_lengths [simp, wire_codes]:
  "length GENERATOR_CHANNEL_GENESIS_DOMAIN = 43" "length WORKER_CHANNEL_GENESIS_DOMAIN = 40"
  "length GENERATOR_BOUND_BODY_DOMAIN = 38" "length WORKER_BOOTSTRAP_BODY_DOMAIN = 39"
  "length WORKER_EXEC_BOUND_BODY_DOMAIN = 40" "length CLOSED_RESULT_BODY_DOMAIN = 36"
  by (simp_all add: GENERATOR_CHANNEL_GENESIS_DOMAIN_def WORKER_CHANNEL_GENESIS_DOMAIN_def
      GENERATOR_BOUND_BODY_DOMAIN_def WORKER_BOOTSTRAP_BODY_DOMAIN_def
      WORKER_EXEC_BOUND_BODY_DOMAIN_def CLOSED_RESULT_BODY_DOMAIN_def)

lemma push_lp16_bodies [simp]:
  "push_lp16 GENERATOR_BOUND_BODY_DOMAIN = Inr (u16_to_le 38 @ GENERATOR_BOUND_BODY_DOMAIN)"
  "push_lp16 WORKER_BOOTSTRAP_BODY_DOMAIN = Inr (u16_to_le 39 @ WORKER_BOOTSTRAP_BODY_DOMAIN)"
  "push_lp16 WORKER_EXEC_BOUND_BODY_DOMAIN = Inr (u16_to_le 40 @ WORKER_EXEC_BOUND_BODY_DOMAIN)"
  "push_lp16 CLOSED_RESULT_BODY_DOMAIN = Inr (u16_to_le 36 @ CLOSED_RESULT_BODY_DOMAIN)"
  by (simp_all add: push_lp16_iff)

section \<open>Bodies\<close>

definition generator_bound_body_new ::
    "ProviderSession \<Rightarrow> GeneratorSealProfile \<Rightarrow> ProcessInventory \<Rightarrow> SealedIngressManifest \<Rightarrow> WireError + bytes" where
  "generator_bound_body_new session seal_profile inventory ingress =
     and_then (drift GeneratorBoundInventory (pi_kind inventory \<noteq> GeneratorPostExec
       \<or> pi_campaign_count inventory \<noteq> si_count ingress)) (\<lambda>_.
     and_then (push_lp16 GENERATOR_BOUND_BODY_DOMAIN) (\<lambda>domain.
     into_array G0_GENERATOR_BOUND_BODY_BYTES
       (domain @ u16_to_le FRAME_VERSION @ pv_request_commitment session
        @ pv_generator_nonce_commitment session @ pv_supervisor_nonce_commitment session
        @ gs_digest seal_profile @ pi_digest inventory @ si_digest ingress)))"

definition generator_bound_validate_session :: "bytes \<Rightarrow> ProviderSession \<Rightarrow> WireError + unit" where
  "generator_bound_validate_session body session =
     (if slice body 42 74 \<noteq> pv_request_commitment session
         \<or> slice body 74 106 \<noteq> pv_generator_nonce_commitment session
         \<or> slice body 106 138 \<noteq> pv_supervisor_nonce_commitment session
      then Inl (ExpectationDrift BodyField) else Inr ())"

record WorkerBootstrapBodyInput =
  wb_accepted_generator_bound_digest :: bytes
  wb_session :: ProviderSession
  wb_supervisor_worker_endpoint :: SeqpacketEndpoint
  wb_supervisor_receiver_user_namespace :: DescriptorIdentity
  wb_worker_receiver_view_uid :: u32
  wb_worker_receiver_view_gid :: u32
  wb_worker_initial_inventory :: ProcessInventory
  wb_worker_transfer_inventory :: ProcessInventory
  wb_worker_manifest :: WorkerTransferManifest

definition worker_bootstrap_body_new :: "WorkerBootstrapBodyInput \<Rightarrow> WireError + bytes" where
  "worker_bootstrap_body_new i =
     and_then (drift WorkerBootstrapEndpoint
       (ep_role (wb_supervisor_worker_endpoint i) \<noteq> EpSupervisorWorker)) (\<lambda>_.
     and_then (drift WorkerBootstrapInventory
       (pi_kind (wb_worker_initial_inventory i) \<noteq> WorkerInitialPostExec
        \<or> pi_kind (wb_worker_transfer_inventory i) \<noteq> WorkerExpectedPostTransfer
        \<or> pi_campaign_count (wb_worker_transfer_inventory i) \<noteq> wm_campaign_count (wb_worker_manifest i))) (\<lambda>_.
     and_then (ok_or (u16_try_from (length (wm_bytes (wb_worker_manifest i)))) ArithmeticOverflow) (\<lambda>manifest_length.
     and_then (ok_or (checked_add_usize G0_WORKER_BOOTSTRAP_FIXED_BODY_BYTES
       (length (wm_bytes (wb_worker_manifest i)))) ArithmeticOverflow) (\<lambda>expected_length.
     and_then (push_lp16 WORKER_BOOTSTRAP_BODY_DOMAIN) (\<lambda>domain.
     let bs = domain @ u16_to_le FRAME_VERSION @ wb_accepted_generator_bound_digest i
           @ pv_preimage (wb_session i) @ pv_generator_nonce_commitment (wb_session i)
           @ pv_supervisor_nonce_commitment (wb_session i)
           @ ep_digest (wb_supervisor_worker_endpoint i)
           @ encode_descriptor_identity (wb_supervisor_receiver_user_namespace i)
           @ u32_to_le (wb_worker_receiver_view_uid i) @ u32_to_le (wb_worker_receiver_view_gid i)
           @ pi_digest (wb_worker_initial_inventory i) @ pi_digest (wb_worker_transfer_inventory i)
           @ u16_to_le manifest_length @ wm_bytes (wb_worker_manifest i)
           @ wm_digest (wb_worker_manifest i) in
     and_then (drift WorkerBootstrapLength (length bs \<noteq> expected_length \<or> length bs > 1568)) (\<lambda>_.
     Inr bs))))))"

definition worker_exec_bound_body_new ::
    "ProviderSession \<Rightarrow> ProcessInventory \<Rightarrow> ProcessInventory \<Rightarrow> WorkerTransferManifest \<Rightarrow> WireError + bytes" where
  "worker_exec_bound_body_new session initial transfer manifest =
     and_then (drift WorkerExecBoundInventory
       (pi_kind initial \<noteq> WorkerInitialPostExec \<or> pi_kind transfer \<noteq> WorkerExpectedPostTransfer
        \<or> pi_campaign_count transfer \<noteq> wm_campaign_count manifest)) (\<lambda>_.
     and_then (push_lp16 WORKER_EXEC_BOUND_BODY_DOMAIN) (\<lambda>domain.
     into_array G0_WORKER_EXEC_BOUND_BODY_BYTES
       (domain @ u16_to_le FRAME_VERSION @ pv_request_commitment session
        @ pv_generator_nonce_commitment session @ pv_supervisor_nonce_commitment session
        @ pi_digest initial @ pi_digest transfer @ wm_digest manifest)))"

definition worker_exec_bound_validate_session :: "bytes \<Rightarrow> ProviderSession \<Rightarrow> WireError + unit" where
  "worker_exec_bound_validate_session body session =
     (if slice body 44 76 \<noteq> pv_request_commitment session
         \<or> slice body 76 108 \<noteq> pv_generator_nonce_commitment session
         \<or> slice body 108 140 \<noteq> pv_supervisor_nonce_commitment session
      then Inl (ExpectationDrift BodyField) else Inr ())"

definition closed_result_body_new ::
    "ProviderSession \<Rightarrow> bytes \<Rightarrow> FdCommitment \<Rightarrow> WireError + bytes" where
  "closed_result_body_new session terminal_worker_digest final_result =
     and_then (drift ClosedResultCommitment
       (fc_role final_result \<noteq> FinalResult \<or> fs_access (fc_status final_result) \<noteq> ReadOnly
        \<or> fs_nonblocking (fc_status final_result) \<or> \<not> fs_close_on_exec (fc_status final_result))) (\<lambda>_.
     and_then (encoded_fd_commitment_len final_result) (\<lambda>len.
     and_then (drift ClosedResultCommitment (len \<noteq> 49)) (\<lambda>_.
     and_then (require_fully_sealed_memfd final_result) (\<lambda>_.
     and_then (case fc_identity final_result of
                 Memfd size' content_digest _ \<Rightarrow> Inr (size', content_digest)
               | _ \<Rightarrow> Inl (G0ContractDrift ClosedResultCommitment)) (\<lambda>(size', content_digest).
     and_then (drift FinalResultContent
       (size' = 0 \<or> size' > word_of_nat G0_FINAL_RESULT_MAX_BYTES)) (\<lambda>_.
     and_then (push_lp16 CLOSED_RESULT_BODY_DOMAIN) (\<lambda>domain.
     into_array G0_CLOSED_RESULT_BODY_BYTES
       (domain @ u16_to_le FRAME_VERSION @ pv_request_commitment session
        @ terminal_worker_digest @ content_digest))))))))"

section \<open>Genesis digests and child frames\<close>

record SessionBinding =
  sb_session_id :: bytes
  sb_request_commitment :: bytes
  sb_generator_nonce_commitment :: bytes
  sb_supervisor_nonce_commitment :: bytes
  sb_generator_channel :: bytes
  sb_worker_channel :: bytes

definition binding_from_session :: "ProviderSession \<Rightarrow> SessionBinding" where
  "binding_from_session s =
     \<lparr>sb_session_id = pv_session_id s, sb_request_commitment = pv_request_commitment s,
      sb_generator_nonce_commitment = pv_generator_nonce_commitment s,
      sb_supervisor_nonce_commitment = pv_supervisor_nonce_commitment s,
      sb_generator_channel = pv_generator_channel s, sb_worker_channel = pv_worker_channel s\<rparr>"

definition generator_genesis :: "(bytes \<Rightarrow> bytes) \<Rightarrow> SessionBinding \<Rightarrow> bytes" where
  "generator_genesis sha b =
     sha (GENERATOR_CHANNEL_GENESIS_DOMAIN @ sb_session_id b @ sb_request_commitment b
          @ sb_generator_nonce_commitment b @ sb_supervisor_nonce_commitment b
          @ sb_generator_channel b)"

definition worker_genesis :: "(bytes \<Rightarrow> bytes) \<Rightarrow> SessionBinding \<Rightarrow> bytes \<Rightarrow> bytes" where
  "worker_genesis sha b accepted_generator_bound_digest =
     sha (WORKER_CHANNEL_GENESIS_DOMAIN @ sb_session_id b @ sb_request_commitment b
          @ sb_generator_nonce_commitment b @ sb_supervisor_nonce_commitment b
          @ accepted_generator_bound_digest @ sb_worker_channel b)"

definition encode_generator_bound_raw_frame ::
    "(bytes \<Rightarrow> bytes) \<Rightarrow> ProviderSession \<Rightarrow> bytes \<Rightarrow> WireError + bytes" where
  "encode_generator_bound_raw_frame sha session body =
     and_then (generator_bound_validate_session body session) (\<lambda>_.
     and_then (ok_or (u32_try_from G0_GENERATOR_BOUND_BODY_BYTES) ArithmeticOverflow) (\<lambda>body_length.
     into_array G0_GENERATOR_BOUND_RAW_FRAME_BYTES
       (encode_raw_frame_parts FRAME_MAGIC FRAME_VERSION GeneratorToSupervisor 0 GeneratorBound
          body_length (pv_session_id session)
          (generator_genesis sha (binding_from_session session)) 0 [] body)))"

definition encode_worker_exec_bound_raw_frame ::
    "ProviderSession \<Rightarrow> bytes \<Rightarrow> bytes \<Rightarrow> WireError + bytes" where
  "encode_worker_exec_bound_raw_frame session worker_bootstrap_digest body =
     and_then (worker_exec_bound_validate_session body session) (\<lambda>_.
     and_then (ok_or (u32_try_from G0_WORKER_EXEC_BOUND_BODY_BYTES) ArithmeticOverflow) (\<lambda>body_length.
     into_array G0_WORKER_EXEC_BOUND_RAW_FRAME_BYTES
       (encode_raw_frame_parts FRAME_MAGIC FRAME_VERSION WorkerToSupervisor 1 WorkerExecBound
          body_length (pv_session_id session) worker_bootstrap_digest 0 [] body)))"

section \<open>Transcript candidates\<close>

record GeneratorBoundCandidate =
  gc_transcript :: bytes
  gc_digest :: bytes
  gc_generator_genesis :: bytes
  gc_worker_genesis :: bytes

definition generator_bound_candidate_prepare ::
    "(bytes \<Rightarrow> bytes) \<Rightarrow> ProviderSession \<Rightarrow> WireFrame \<Rightarrow> WireError + GeneratorBoundCandidate" where
  "generator_bound_candidate_prepare sha session f =
     and_then (drift GeneratorBoundFrame
       (wf_direction f \<noteq> GeneratorToSupervisor \<or> wf_ordinal f \<noteq> 0 \<or> wf_phase f \<noteq> GeneratorBound
        \<or> wf_fd_commitments f \<noteq> [] \<or> length (wf_body f) \<noteq> G0_GENERATOR_BOUND_BODY_BYTES)) (\<lambda>_.
     let binding = binding_from_session session; genesis = generator_genesis sha binding in
     and_then (prepare_transcript_bytes (sb_session_id binding) 0 genesis f) (\<lambda>transcript.
     let digest = sha transcript in
     Inr \<lparr>gc_transcript = transcript, gc_digest = digest, gc_generator_genesis = genesis,
          gc_worker_genesis = worker_genesis sha binding digest\<rparr>))"

record TranscriptCandidate =
  td_transcript :: bytes
  td_digest :: bytes

definition transcript_candidate_prepare ::
    "(bytes \<Rightarrow> bytes) \<Rightarrow> ProviderSession \<Rightarrow> u8 \<Rightarrow> bytes \<Rightarrow> WireFrame \<Rightarrow> WireError + TranscriptCandidate" where
  "transcript_candidate_prepare sha session ordinal previous_digest f =
     and_then (prepare_transcript_bytes (pv_session_id session) ordinal previous_digest f) (\<lambda>transcript.
     Inr \<lparr>td_transcript = transcript, td_digest = sha transcript\<rparr>)"

section \<open>Exact forms\<close>

definition session_wf :: "ProviderSession \<Rightarrow> bool" where
  "session_wf s \<longleftrightarrow>
     length (pv_session_id s) = 32 \<and> length (pv_request_commitment s) = 32
     \<and> length (pv_generator_nonce_commitment s) = 32 \<and> length (pv_supervisor_nonce_commitment s) = 32
     \<and> length (pv_generator_channel s) = 32 \<and> length (pv_worker_channel s) = 32
     \<and> length (pv_preimage s) = 373"

definition generator_bound_bytes :: "ProviderSession \<Rightarrow> bytes \<Rightarrow> bytes \<Rightarrow> bytes \<Rightarrow> bytes" where
  "generator_bound_bytes s profile inventory ingress =
     (u16_to_le 38 @ GENERATOR_BOUND_BODY_DOMAIN) @ u16_to_le FRAME_VERSION @ pv_request_commitment s
     @ pv_generator_nonce_commitment s @ pv_supervisor_nonce_commitment s @ profile @ inventory @ ingress"

lemma generator_bound_body_iff:
  assumes "session_wf s" "length (gs_digest p) = 32" "length (pi_digest i) = 32" "length (si_digest m) = 32"
  shows "generator_bound_body_new s p i m = Inr body \<longleftrightarrow>
    pi_kind i = GeneratorPostExec \<and> pi_campaign_count i = si_count m
    \<and> body = generator_bound_bytes s (gs_digest p) (pi_digest i) (si_digest m)"
  using assms
  by (auto simp: generator_bound_body_new_def generator_bound_bytes_def body_size_defs session_wf_def)

lemma generator_bound_session_slices:
  assumes "session_wf s"
  shows "generator_bound_validate_session (generator_bound_bytes s a b c) s = Inr ()"
  using assms
  by (simp add: generator_bound_validate_session_def generator_bound_bytes_def session_wf_def slice_def)

definition bootstrap_bytes ::
    "bytes \<Rightarrow> ProviderSession \<Rightarrow> bytes \<Rightarrow> DescriptorIdentity \<Rightarrow> u32 \<Rightarrow> u32 \<Rightarrow> bytes \<Rightarrow> bytes
      \<Rightarrow> WorkerTransferManifest \<Rightarrow> bytes" where
  "bootstrap_bytes accepted s endpoint namespace uid gid initial transfer manifest =
     (u16_to_le 39 @ WORKER_BOOTSTRAP_BODY_DOMAIN) @ u16_to_le FRAME_VERSION @ accepted
     @ pv_preimage s @ pv_generator_nonce_commitment s @ pv_supervisor_nonce_commitment s
     @ endpoint @ encode_descriptor_identity namespace @ u32_to_le uid @ u32_to_le gid
     @ initial @ transfer @ u16_to_le (word_of_nat (length (wm_bytes manifest)))
     @ wm_bytes manifest @ wm_digest manifest"

lemma length_bootstrap_bytes:
  assumes "session_wf s" "length accepted = 32" "length endpoint = 32" "length initial = 32"
    "length transfer = 32" "length (wm_digest m) = 32"
  shows "length (bootstrap_bytes accepted s endpoint ns uid gid initial transfer m) = 674 + length (wm_bytes m)"
  using assms by (simp add: bootstrap_bytes_def session_wf_def)

lemma bootstrap_body_iff:
  assumes "session_wf (wb_session i)" "length (wb_accepted_generator_bound_digest i) = 32"
    "length (ep_digest (wb_supervisor_worker_endpoint i)) = 32"
    "length (pi_digest (wb_worker_initial_inventory i)) = 32"
    "length (pi_digest (wb_worker_transfer_inventory i)) = 32"
    "length (wm_digest (wb_worker_manifest i)) = 32" "length (wm_bytes (wb_worker_manifest i)) \<le> 894"
  shows "worker_bootstrap_body_new i = Inr body \<longleftrightarrow>
    ep_role (wb_supervisor_worker_endpoint i) = EpSupervisorWorker
    \<and> pi_kind (wb_worker_initial_inventory i) = WorkerInitialPostExec
    \<and> pi_kind (wb_worker_transfer_inventory i) = WorkerExpectedPostTransfer
    \<and> pi_campaign_count (wb_worker_transfer_inventory i) = wm_campaign_count (wb_worker_manifest i)
    \<and> body = bootstrap_bytes (wb_accepted_generator_bound_digest i) (wb_session i)
        (ep_digest (wb_supervisor_worker_endpoint i)) (wb_supervisor_receiver_user_namespace i)
        (wb_worker_receiver_view_uid i) (wb_worker_receiver_view_gid i)
        (pi_digest (wb_worker_initial_inventory i)) (pi_digest (wb_worker_transfer_inventory i))
        (wb_worker_manifest i)"
proof -
  have "u16_try_from (length (wm_bytes (wb_worker_manifest i)))
      = Some (word_of_nat (length (wm_bytes (wb_worker_manifest i))))"
    using assms(7) by (simp add: u16_try_from_def)
  then show ?thesis
    using assms(7) length_bootstrap_bytes [OF assms(1-6)]
    by (auto simp: worker_bootstrap_body_new_def Let_def bootstrap_bytes_def body_size_defs usize_limit_def)
qed

definition exec_bound_bytes :: "ProviderSession \<Rightarrow> bytes \<Rightarrow> bytes \<Rightarrow> bytes \<Rightarrow> bytes" where
  "exec_bound_bytes s initial transfer manifest =
     (u16_to_le 40 @ WORKER_EXEC_BOUND_BODY_DOMAIN) @ u16_to_le FRAME_VERSION @ pv_request_commitment s
     @ pv_generator_nonce_commitment s @ pv_supervisor_nonce_commitment s @ initial @ transfer @ manifest"

lemma exec_bound_body_iff:
  assumes "session_wf s" "length (pi_digest a) = 32" "length (pi_digest b) = 32" "length (wm_digest m) = 32"
  shows "worker_exec_bound_body_new s a b m = Inr body \<longleftrightarrow>
    pi_kind a = WorkerInitialPostExec \<and> pi_kind b = WorkerExpectedPostTransfer
    \<and> pi_campaign_count b = wm_campaign_count m
    \<and> body = exec_bound_bytes s (pi_digest a) (pi_digest b) (wm_digest m)"
  using assms
  by (auto simp: worker_exec_bound_body_new_def exec_bound_bytes_def body_size_defs session_wf_def)

definition closed_result_bytes :: "ProviderSession \<Rightarrow> bytes \<Rightarrow> bytes \<Rightarrow> bytes" where
  "closed_result_bytes s terminal content =
     (u16_to_le 36 @ CLOSED_RESULT_BODY_DOMAIN) @ u16_to_le FRAME_VERSION @ pv_request_commitment s
     @ terminal @ content"

definition final_result_fd :: "u64 \<Rightarrow> bytes \<Rightarrow> FdCommitment" where
  "final_result_fd len content =
     \<lparr>fc_role = FinalResult,
      fc_identity = Memfd len content \<lparr>ms_grow = Present, ms_shrink = Present, ms_write = Present,
        ms_further_seals = Present\<rparr>,
      fc_status = \<lparr>fs_access = ReadOnly, fs_nonblocking = False, fs_close_on_exec = True\<rparr>\<rparr>"

lemma final_result_fd_ok:
  "commitment_ok (final_result_fd len content)" "fc_role (final_result_fd len content) = FinalResult"
  "commitment_wf (final_result_fd len content) \<longleftrightarrow> length content = 32"
  by (simp_all add: final_result_fd_def commitment_ok_def commitment_wf_def identity_wf_def
      fully_sealed_def fixes_size_def is_present_def)

lemma fully_sealed_unique:
  "fully_sealed s \<longleftrightarrow> s = \<lparr>ms_grow = Present, ms_shrink = Present, ms_write = Present, ms_further_seals = Present\<rparr>"
  by (cases s) (simp add: fully_sealed_def fixes_size_def is_present_def)

lemma closed_result_body_iff:
  assumes "session_wf s" "length terminal = 32" "commitment_wf c"
  shows "closed_result_body_new s terminal c = Inr body \<longleftrightarrow>
    (\<exists>len content. c = final_result_fd len content \<and> 0 < unat len \<and> unat len \<le> 1048576
      \<and> body = closed_result_bytes s terminal content)"
proof
  assume new: "closed_result_body_new s terminal c = Inr body"
  then obtain len content seals where c: "fc_role c = FinalResult" "fs_access (fc_status c) = ReadOnly"
    "\<not> fs_nonblocking (fc_status c)" "fs_close_on_exec (fc_status c)"
    "fc_identity c = Memfd len content seals" "fully_sealed seals"
    "len \<noteq> 0" "\<not> 1048576 < len" "body = closed_result_bytes s terminal content"
    by (auto simp: closed_result_body_new_def body_size_defs closed_result_bytes_def)
  then have "c = final_result_fd len content"
    by (cases c; cases "fc_status c") (simp add: final_result_fd_def fully_sealed_unique)
  then show "\<exists>len content. c = final_result_fd len content \<and> 0 < unat len \<and> unat len \<le> 1048576
      \<and> body = closed_result_bytes s terminal content"
    using c(7-9) by (intro exI [of _ len] exI [of _ content]) (simp add: word_less_nat_alt unat_gt_0)
next
  assume "\<exists>len content. c = final_result_fd len content \<and> 0 < unat len \<and> unat len \<le> 1048576
      \<and> body = closed_result_bytes s terminal content"
  then obtain len content where c: "c = final_result_fd len content" "0 < unat len"
    "unat len \<le> 1048576" "body = closed_result_bytes s terminal content" by blast
  have "len \<noteq> 0" "\<not> 1048576 < len" using c(2,3) by (auto simp: word_less_nat_alt)
  moreover have "encoded_fd_commitment_len c = Inr 49"
    using assms(3) by (simp add: c(1) encoded_len_eq final_result_fd_ok)
  moreover have "length content = 32" using assms(3) by (simp add: c(1) final_result_fd_ok)
  ultimately show "closed_result_body_new s terminal c = Inr body"
    using assms(1,2)
    by (auto simp: closed_result_body_new_def c(1,4) body_size_defs closed_result_bytes_def
        session_wf_def final_result_fd_def fully_sealed_unique)
qed

section \<open>The child encoders agree with the frame encoder\<close>

definition generator_bound_input :: "(bytes \<Rightarrow> bytes) \<Rightarrow> ProviderSession \<Rightarrow> bytes \<Rightarrow> PeerCredentials \<Rightarrow> FrameInput" where
  "generator_bound_input sha s body creds =
     \<lparr>fi_direction = GeneratorToSupervisor, fi_ordinal = 0, fi_phase = GeneratorBound,
      fi_session_id = pv_session_id s, fi_previous_hash = generator_genesis sha (binding_from_session s),
      fi_body = body, fi_credentials = creds, fi_fd_commitments = [],
      fi_ancillary = ancillary_canonical 0\<rparr>"

definition exec_bound_input :: "ProviderSession \<Rightarrow> bytes \<Rightarrow> bytes \<Rightarrow> PeerCredentials \<Rightarrow> FrameInput" where
  "exec_bound_input s previous body creds =
     \<lparr>fi_direction = WorkerToSupervisor, fi_ordinal = 1, fi_phase = WorkerExecBound,
      fi_session_id = pv_session_id s, fi_previous_hash = previous,
      fi_body = body, fi_credentials = creds, fi_fd_commitments = [],
      fi_ancillary = ancillary_canonical 0\<rparr>"

lemma generator_bound_raw_iff:
  assumes "digests_32 sha" "session_wf s" "length body = 234"
  shows "encode_generator_bound_raw_frame sha s body = Inr raw \<longleftrightarrow>
    generator_bound_validate_session body s = Inr ()
    \<and> raw = raw_bytes (frame_of (generator_bound_input sha s body creds))"
proof -
  have "u32_try_from 234 = Some 234" by simp
  moreover have "length (generator_genesis sha b) = 32" for b
    using assms(1) by (simp add: generator_genesis_def digests_32_def)
  ultimately show ?thesis
    using assms
    by (auto simp: encode_generator_bound_raw_frame_def body_size_defs raw_bytes_def frame_of_def
        generator_bound_input_def encode_raw_frame_parts_def session_wf_def
        simp del: u32_try_from_eq_Some)
qed

lemma exec_bound_raw_iff:
  assumes "length previous = 32" "session_wf s" "length body = 236"
  shows "encode_worker_exec_bound_raw_frame s previous body = Inr raw \<longleftrightarrow>
    worker_exec_bound_validate_session body s = Inr ()
    \<and> raw = raw_bytes (frame_of (exec_bound_input s previous body creds))"
proof -
  have "u32_try_from 236 = Some 236" by simp
  then show ?thesis
    using assms
    by (auto simp: encode_worker_exec_bound_raw_frame_def body_size_defs raw_bytes_def frame_of_def
        exec_bound_input_def encode_raw_frame_parts_def session_wf_def
        simp del: u32_try_from_eq_Some)
qed

lemma exec_bound_session_slices:
  assumes "session_wf s"
  shows "worker_exec_bound_validate_session (exec_bound_bytes s a b c) s = Inr ()"
  using assms
  by (simp add: worker_exec_bound_validate_session_def exec_bound_bytes_def session_wf_def slice_def)

lemma child_inputs_ok:
  "length body \<le> 60000 \<Longrightarrow> input_ok (generator_bound_input sha s body creds)"
  "length body \<le> 60000 \<Longrightarrow> input_ok (exec_bound_input s previous body creds)"
  by (simp_all add: input_ok_def generator_bound_input_def exec_bound_input_def fds_ok_def)

section \<open>Properties\<close>

text \<open>
  The two encoders that the children use for their fixed frames produce exactly what the
  general frame encoder produces for the frame with the same fields, whatever the credentials: 316
  bytes for \<open>GeneratorBound\<close> and 318 for \<open>WorkerExecBound\<close>. They refuse exactly the bodies that do not bind
  the session, and the bodies built for the session always bind it.
\<close>

theorem child_frames_agree:
  assumes "digests_32 sha" "session_wf s" "length previous = 32"
  shows "(length body = 234 \<longrightarrow> encode_generator_bound_raw_frame sha s body =
      (case generator_bound_validate_session body s of
         Inl e \<Rightarrow> Inl e
       | Inr _ \<Rightarrow> and_then (frame_new (generator_bound_input sha s body creds)) encode_raw_frame))
    \<and> (length body = 236 \<longrightarrow> encode_worker_exec_bound_raw_frame s previous body =
      (case worker_exec_bound_validate_session body s of
         Inl e \<Rightarrow> Inl e
       | Inr _ \<Rightarrow> and_then (frame_new (exec_bound_input s previous body creds)) encode_raw_frame))
    \<and> (length p = 32 \<longrightarrow> length i = 32 \<longrightarrow> length m = 32 \<longrightarrow>
        is_ok (encode_generator_bound_raw_frame sha s (generator_bound_bytes s p i m))
        \<and> is_ok (encode_worker_exec_bound_raw_frame s previous (exec_bound_bytes s p i m)))"
proof (intro conjI impI)
  have frame: "and_then (frame_new i) encode_raw_frame = Inr (raw_bytes (frame_of i))" if "input_ok i" for i
    using that frame_of_ok [OF that] by (simp add: frame_new_iff encode_raw_frame_iff)
  show "encode_generator_bound_raw_frame sha s body =
      (case generator_bound_validate_session body s of
         Inl e \<Rightarrow> Inl e
       | Inr _ \<Rightarrow> and_then (frame_new (generator_bound_input sha s body creds)) encode_raw_frame)"
    if "length body = 234"
    using generator_bound_raw_iff [OF assms(1,2) that, of _ creds] that child_inputs_ok(1)
    by (cases "generator_bound_validate_session body s")
      (simp_all add: frame encode_generator_bound_raw_frame_def)
  show "encode_worker_exec_bound_raw_frame s previous body =
      (case worker_exec_bound_validate_session body s of
         Inl e \<Rightarrow> Inl e
       | Inr _ \<Rightarrow> and_then (frame_new (exec_bound_input s previous body creds)) encode_raw_frame)"
    if "length body = 236"
    using exec_bound_raw_iff [OF assms(3,2) that, of _ creds] that child_inputs_ok(2)
    by (cases "worker_exec_bound_validate_session body s")
      (simp_all add: frame encode_worker_exec_bound_raw_frame_def)
  assume len: "length p = 32" "length i = 32" "length m = 32"
  have "length (generator_bound_bytes s p i m) = 234" "length (exec_bound_bytes s p i m) = 236"
    using len assms(2) by (simp_all add: generator_bound_bytes_def exec_bound_bytes_def session_wf_def)
  then have "encode_generator_bound_raw_frame sha s (generator_bound_bytes s p i m)
      = Inr (raw_bytes (frame_of (generator_bound_input sha s (generator_bound_bytes s p i m) creds)))"
    "encode_worker_exec_bound_raw_frame s previous (exec_bound_bytes s p i m)
      = Inr (raw_bytes (frame_of (exec_bound_input s previous (exec_bound_bytes s p i m) creds)))"
    using generator_bound_raw_iff [OF assms(1,2), of "generator_bound_bytes s p i m" _ creds]
      exec_bound_raw_iff [OF assms(3,2), of "exec_bound_bytes s p i m" _ creds]
      generator_bound_session_slices [OF assms(2)] exec_bound_session_slices [OF assms(2)]
    by simp_all
  then show "is_ok (encode_generator_bound_raw_frame sha s (generator_bound_bytes s p i m))"
    "is_ok (encode_worker_exec_bound_raw_frame s previous (exec_bound_bytes s p i m))"
    by simp_all
qed

lemma facts_session_wf:
  assumes "digests_32 sha" "facts_wf f"
  shows "session_wf (session_value sha f)"
  using assms length_hashed_session [OF assms]
  by (simp add: session_wf_def session_value_def digests_32_def facts_channel_digests_def)

lemma child_frames_agree_witness:
  "is_ok (encode_generator_bound_raw_frame sample_digest (session_value sample_digest sample_facts)
     (generator_bound_bytes (session_value sample_digest sample_facts)
       (replicate 32 1) (replicate 32 2) (replicate 32 3)))"
proof -
  have "session_wf (session_value sample_digest sample_facts)"
    by (rule facts_session_wf) (simp_all add: sample_facts_ok)
  then show ?thesis
    using child_frames_agree [of sample_digest "session_value sample_digest sample_facts" "replicate 32 4"
        _ _ "replicate 32 1" "replicate 32 2" "replicate 32 3"]
    by simp
qed

end
