(* ===== verification/WirePeer.thy ===== *)
theory WirePeer
  imports WireBodies
begin

text \<open>
  The generator's half of the session handshake (same source file): the fixed-offset readers, the
  generator's local facts and its two records, and the reconstruction of the provider session from
  the five raw transport buffers, which agrees with the supervisor's derivation.
\<close>

section \<open>Reading fixed fields\<close>

definition g0_fixed_bytes :: "nat \<Rightarrow> bytes \<Rightarrow> nat \<Rightarrow> G0Field \<Rightarrow> WireError + bytes" where
  "g0_fixed_bytes n bs offset field =
     and_then (ok_or (checked_add_usize offset n) ArithmeticOverflow) (\<lambda>end_offset.
     ok_or (get_range bs offset end_offset) (G0ContractDrift field))"

definition g0_u16_le :: "bytes \<Rightarrow> nat \<Rightarrow> G0Field \<Rightarrow> WireError + u16" where
  "g0_u16_le bs offset field = and_then (g0_fixed_bytes 2 bs offset field) (\<lambda>v. Inr (u16_from_le v))"

definition g0_u32_le :: "bytes \<Rightarrow> nat \<Rightarrow> G0Field \<Rightarrow> WireError + u32" where
  "g0_u32_le bs offset field = and_then (g0_fixed_bytes 4 bs offset field) (\<lambda>v. Inr (u32_from_le v))"

definition g0_u64_le :: "bytes \<Rightarrow> nat \<Rightarrow> G0Field \<Rightarrow> WireError + u64" where
  "g0_u64_le bs offset field = and_then (g0_fixed_bytes 8 bs offset field) (\<lambda>v. Inr (u64_from_le v))"

definition g0_descriptor_identity :: "bytes \<Rightarrow> nat \<Rightarrow> G0Field \<Rightarrow> WireError + DescriptorIdentity" where
  "g0_descriptor_identity bs offset field =
     and_then (g0_u64_le bs offset field) (\<lambda>device.
     and_then (g0_u64_le bs (offset + 8) field) (\<lambda>inode.
     and_then (g0_u64_le bs (offset + 16) field) (\<lambda>mount_id.
     map_err (\<lambda>_. G0ContractDrift field) (descriptor_identity_new device inode mount_id))))"

text \<open>A field read at \<open>offset\<close> that differs from the expected value is a drift.\<close>

definition expect_u16 :: "bytes \<Rightarrow> nat \<Rightarrow> G0Field \<Rightarrow> u16 \<Rightarrow> WireError + unit" where
  "expect_u16 bs offset field v =
     and_then (g0_u16_le bs offset field) (\<lambda>w. drift field (w \<noteq> v))"

definition expect_range :: "bytes \<Rightarrow> nat \<Rightarrow> nat \<Rightarrow> G0Field \<Rightarrow> bytes \<Rightarrow> WireError + unit" where
  "expect_range bs a b field v = drift field (get_range bs a b \<noteq> Some v)"

definition expect_byte :: "bytes \<Rightarrow> nat \<Rightarrow> G0Field \<Rightarrow> u8 \<Rightarrow> WireError + unit" where
  "expect_byte bs i field v = drift field (get_index bs i \<noteq> Some v)"

section \<open>The generator's local facts\<close>

record GeneratorPeerLocalFacts =
  lf_request :: RequestCommitment
  lf_appliance_measurement :: bytes
  lf_supervisor_measurement :: bytes
  lf_generator_measurement :: bytes
  lf_worker_measurement :: bytes
  lf_generator_nonce :: bytes

definition local_facts_new ::
    "RequestCommitment \<Rightarrow> bytes \<Rightarrow> bytes \<Rightarrow> bytes \<Rightarrow> bytes \<Rightarrow> bytes \<Rightarrow> WireError + GeneratorPeerLocalFacts" where
  "local_facts_new request appliance supervisor generator worker nonce =
     and_then (drift NonceField (nonce = replicate 32 0)) (\<lambda>_.
     Inr \<lparr>lf_request = request, lf_appliance_measurement = appliance,
          lf_supervisor_measurement = supervisor, lf_generator_measurement = generator,
          lf_worker_measurement = worker, lf_generator_nonce = nonce\<rparr>)"

definition prepare_generator_commit_record ::
    "(bytes \<Rightarrow> bytes) \<Rightarrow> GeneratorPeerLocalFacts \<Rightarrow> WireError + bytes" where
  "prepare_generator_commit_record sha l =
     encode_pre_session_record sha GeneratorCommit (lf_request l) (lf_generator_nonce l)"

definition prepare_generator_reveal_record ::
    "(bytes \<Rightarrow> bytes) \<Rightarrow> GeneratorPeerLocalFacts \<Rightarrow> WireError + bytes" where
  "prepare_generator_reveal_record sha l =
     encode_pre_session_record sha GeneratorReveal (lf_request l) (lf_generator_nonce l)"

section \<open>The peer session\<close>

record GeneratorPeerSessionInput =
  gp_session_offer_raw :: bytes
  gp_generator_commit_raw :: bytes
  gp_supervisor_commit_raw :: bytes
  gp_generator_reveal_raw :: bytes
  gp_supervisor_reveal_raw :: bytes
  gp_local_facts :: GeneratorPeerLocalFacts
  gp_local_generator_endpoint :: SeqpacketEndpoint

record GeneratorPeerSession =
  gs_session :: ProviderSession
  gs_supervisor_pid :: u32
  gs_supervisor_start_epoch :: u64
  gs_supervisor_generator_endpoint_digest :: bytes
  gs_receiver_user_namespace :: DescriptorIdentity

definition check_offer :: "bytes \<Rightarrow> GeneratorPeerLocalFacts \<Rightarrow> WireError + unit" where
  "check_offer offer l =
     (let field = GeneratorPeerSession in
      and_then (ok_or (u16_try_from (length SESSION_OFFER_DOMAIN)) ArithmeticOverflow) (\<lambda>domain_length.
      and_then (expect_u16 offer 0 field domain_length) (\<lambda>_.
      and_then (expect_range offer 2 33 field SESSION_OFFER_DOMAIN) (\<lambda>_.
      and_then (expect_u16 offer 33 field FRAME_VERSION) (\<lambda>_.
      and_then (g0_u16_le offer 35 field) (\<lambda>request_length.
      and_then (drift field (unat request_length \<noteq> G0_REQUEST_PREIMAGE_BYTES)) (\<lambda>_.
      and_then (expect_range offer 37 809 field (rq_preimage (lf_request l))) (\<lambda>_.
      and_then (expect_range offer 809 841 field (rq_digest (lf_request l))) (\<lambda>_.
      and_then (expect_range offer 841 873 field (lf_appliance_measurement l)) (\<lambda>_.
      and_then (expect_range offer 873 905 field (lf_supervisor_measurement l)) (\<lambda>_.
      and_then (expect_range offer 905 937 field (lf_generator_measurement l)) (\<lambda>_.
      expect_range offer 937 969 field (lf_worker_measurement l)))))))))))))"

definition check_supervisor_reveal :: "bytes \<Rightarrow> GeneratorPeerLocalFacts \<Rightarrow> WireError + unit" where
  "check_supervisor_reveal reveal l =
     (let field = GeneratorPeerSession in
      and_then (expect_range reveal 0 8 field PRE_SESSION_RECORD_MAGIC) (\<lambda>_.
      and_then (expect_u16 reveal 8 field FRAME_VERSION) (\<lambda>_.
      and_then (expect_byte reveal 10 field (record_kind_code SupervisorReveal)) (\<lambda>_.
      expect_range reveal 11 43 field (rq_digest (lf_request l))))))"

definition expect_record ::
    "(bytes \<Rightarrow> bytes) \<Rightarrow> bytes \<Rightarrow> PreSessionRecordKind \<Rightarrow> RequestCommitment \<Rightarrow> bytes \<Rightarrow> WireError + unit" where
  "expect_record sha raw kind request nonce =
     and_then (encode_pre_session_record sha kind request nonce) (\<lambda>expected.
     drift GeneratorPeerSession (raw \<noteq> expected))"

definition check_records ::
    "(bytes \<Rightarrow> bytes) \<Rightarrow> GeneratorPeerSessionInput \<Rightarrow> bytes \<Rightarrow> WireError + unit" where
  "check_records sha i supervisor_nonce =
     (let l = gp_local_facts i in
      and_then (drift GeneratorPeerSession (supervisor_nonce = replicate 32 0)) (\<lambda>_.
      and_then (expect_record sha (gp_generator_commit_raw i) GeneratorCommit (lf_request l) (lf_generator_nonce l)) (\<lambda>_.
      and_then (expect_record sha (gp_generator_reveal_raw i) GeneratorReveal (lf_request l) (lf_generator_nonce l)) (\<lambda>_.
      and_then (expect_record sha (gp_supervisor_commit_raw i) SupervisorCommit (lf_request l) supervisor_nonce) (\<lambda>_.
      expect_record sha (gp_supervisor_reveal_raw i) SupervisorReveal (lf_request l) supervisor_nonce)))))"

definition peer_session_new ::
    "(bytes \<Rightarrow> bytes) \<Rightarrow> GeneratorPeerSessionInput \<Rightarrow> WireError + GeneratorPeerSession" where
  "peer_session_new sha i =
     (let field = GeneratorPeerSession; offer = gp_session_offer_raw i; l = gp_local_facts i in
      and_then (check_offer offer l) (\<lambda>_.
      and_then (g0_u32_le offer 969 field) (\<lambda>pid.
      and_then (g0_u64_le offer 973 field) (\<lambda>epoch.
      and_then (drift field (pid = 0 \<or> epoch = 0)) (\<lambda>_.
      and_then (g0_fixed_bytes 32 offer 981 field) (\<lambda>offered_generator_channel.
      and_then (g0_fixed_bytes 32 offer 1013 field) (\<lambda>offered_worker_channel.
      and_then (g0_fixed_bytes 32 offer 1045 field) (\<lambda>endpoint_digest.
      and_then (g0_descriptor_identity offer 1077 field) (\<lambda>namespace.
      and_then (drift field (ep_role (gp_local_generator_endpoint i) \<noteq> EpGenerator)) (\<lambda>_.
      let generator_channel = channel_from_digests sha GeneratorChannel
            GENERATOR_CHANNEL_IDENTITY_DOMAIN (ep_digest (gp_local_generator_endpoint i)) endpoint_digest in
      and_then (drift field (ch_digest generator_channel \<noteq> offered_generator_channel)) (\<lambda>_.
      let worker_channel = \<lparr>ch_kind = WorkerChannel, ch_digest = offered_worker_channel\<rparr> in
      and_then (check_supervisor_reveal (gp_supervisor_reveal_raw i) l) (\<lambda>_.
      and_then (g0_fixed_bytes 32 (gp_supervisor_reveal_raw i) 43 field) (\<lambda>supervisor_nonce.
      and_then (check_records sha i supervisor_nonce) (\<lambda>_.
      and_then (provider_session_new sha
        \<lparr>ps_request = lf_request l, ps_appliance_measurement = lf_appliance_measurement l,
         ps_supervisor_measurement = lf_supervisor_measurement l,
         ps_generator_measurement = lf_generator_measurement l,
         ps_worker_measurement = lf_worker_measurement l,
         ps_generator_nonce = lf_generator_nonce l, ps_supervisor_nonce = supervisor_nonce,
         ps_supervisor_pid = pid, ps_supervisor_start_epoch = epoch,
         ps_generator_channel = generator_channel, ps_worker_channel = worker_channel\<rparr>) (\<lambda>session.
      Inr \<lparr>gs_session = session, gs_supervisor_pid = pid, gs_supervisor_start_epoch = epoch,
           gs_supervisor_generator_endpoint_digest = endpoint_digest,
           gs_receiver_user_namespace = namespace\<rparr>)))))))))))))))"

definition prepare_generator_bound_body ::
    "GeneratorPeerSession \<Rightarrow> GeneratorSealProfile \<Rightarrow> ProcessInventory \<Rightarrow> SealedIngressManifest \<Rightarrow> WireError + bytes" where
  "prepare_generator_bound_body g seal_profile inventory ingress =
     generator_bound_body_new (gs_session g) seal_profile inventory ingress"

section \<open>Strings and their slices\<close>

text \<open>\<open>at_slices bs a xs\<close>: from offset \<open>a\<close> on, \<open>bs\<close> is cut into exactly the strings \<open>xs\<close>.\<close>

fun at_slices :: "bytes \<Rightarrow> nat \<Rightarrow> bytes list \<Rightarrow> bool" where
  "at_slices bs a [] \<longleftrightarrow> a = length bs"
| "at_slices bs a (x # xs) \<longleftrightarrow> slice bs a (a + length x) = x \<and> at_slices bs (a + length x) xs"

lemma at_slices_iff: "a \<le> length bs \<Longrightarrow> at_slices bs a xs \<longleftrightarrow> drop a bs = concat xs"
proof (induction xs arbitrary: a)
  case Nil
  then show ?case by auto
next
  case (Cons x xs)
  show ?case
  proof (cases "a + length x \<le> length bs")
    case True
    have "drop a bs = slice bs a (a + length x) @ drop (a + length x) bs"
      using append_take_drop_id [of "length x" "drop a bs"] by (simp add: slice_def add.commute)
    moreover have "length (slice bs a (a + length x)) = length x" using True by simp
    ultimately show ?thesis using Cons.IH [OF True] by (simp del: length_slice)
  next
    case False
    then have "length (slice bs a (a + length x)) < length x" "length (drop a bs) < length x"
      using Cons.prems by (auto simp: min_def)
    then have "slice bs a (a + length x) \<noteq> x" "drop a bs \<noteq> concat (x # xs)"
      by (auto simp del: length_slice dest!: arg_cong [of "drop a bs" _ length])
    then show ?thesis by simp
  qed
qed

lemma string_slices: "bs = concat xs \<longleftrightarrow> at_slices bs 0 xs"
  using at_slices_iff [of 0 bs xs] by simp

lemma byte_slice: "slice bs i (Suc i) = [x] \<longleftrightarrow> i < length bs \<and> bs ! i = x"
  by (cases "i < length bs") (simp_all add: slice_def Suc_diff_le take_Suc hd_drop_conv_nth)

lemma g0_reads [simp]:
  "offset + n \<le> length bs \<Longrightarrow> offset + n < usize_limit \<Longrightarrow>
    g0_fixed_bytes n bs offset field = Inr (slice bs offset (offset + n))"
  by (simp add: g0_fixed_bytes_def checked_add_usize_def get_range_def)

lemma expect_range_iff [simp]:
  "expect_range bs a b field v = Inr u \<longleftrightarrow> a \<le> b \<and> b \<le> length bs \<and> slice bs a b = v"
  by (auto simp: expect_range_def)

lemma expect_byte_iff [simp]: "expect_byte bs i field v = Inr u \<longleftrightarrow> i < length bs \<and> bs ! i = v"
  by (auto simp: expect_byte_def)

lemma expect_u16_iff [simp]:
  assumes "offset + 2 \<le> length bs" "offset + 2 < usize_limit"
  shows "expect_u16 bs offset field v = Inr u \<longleftrightarrow> slice bs offset (offset + 2) = u16_to_le v"
proof -
  have "length (slice bs offset (offset + 2)) = 2" using assms by simp
  then show ?thesis
    using assms by (simp add: expect_u16_def g0_u16_le_def uN_from_le_eq del: length_slice)
qed

lemma g0_word_reads [simp]:
  assumes "offset + 8 \<le> length bs" "offset + 8 < usize_limit"
  shows "g0_u32_le bs offset field = Inr v \<longleftrightarrow> slice bs offset (offset + 4) = u32_to_le v"
    and "g0_u64_le bs offset field = Inr w \<longleftrightarrow> slice bs offset (offset + 8) = u64_to_le w"
    and "g0_u16_le bs offset field = Inr x \<longleftrightarrow> slice bs offset (offset + 2) = u16_to_le x"
proof -
  have "length (slice bs offset (offset + 4)) = 4" "length (slice bs offset (offset + 8)) = 8"
    "length (slice bs offset (offset + 2)) = 2"
    using assms by simp_all
  then show "g0_u32_le bs offset field = Inr v \<longleftrightarrow> slice bs offset (offset + 4) = u32_to_le v"
    "g0_u64_le bs offset field = Inr w \<longleftrightarrow> slice bs offset (offset + 8) = u64_to_le w"
    "g0_u16_le bs offset field = Inr x \<longleftrightarrow> slice bs offset (offset + 2) = u16_to_le x"
    using assms
    by (simp_all add: g0_u32_le_def g0_u64_le_def g0_u16_le_def uN_from_le_eq del: length_slice)
qed

definition namespace_ok :: "DescriptorIdentity \<Rightarrow> bool" where
  "namespace_ok d \<longleftrightarrow> di_device d \<noteq> 0 \<and> di_inode d \<noteq> 0 \<and> di_mount_id d \<noteq> 0"

lemma g0_descriptor_iff [simp]:
  assumes "offset + 24 \<le> length bs" "offset + 24 < usize_limit"
  shows "g0_descriptor_identity bs offset field = Inr d \<longleftrightarrow>
    namespace_ok d \<and> slice bs offset (offset + 24) = encode_descriptor_identity d"
proof -
  have reads: "g0_u64_le bs offset field = Inr w \<longleftrightarrow> slice bs offset (offset + 8) = u64_to_le w"
    "g0_u64_le bs (offset + 8) field = Inr w \<longleftrightarrow> slice bs (offset + 8) (offset + 16) = u64_to_le w"
    "g0_u64_le bs (offset + 16) field = Inr w \<longleftrightarrow> slice bs (offset + 16) (offset + 24) = u64_to_le w" for w
    using assms by (simp_all add: add.assoc)
  have whole: "slice bs offset (offset + 24)
      = slice bs offset (offset + 8) @ slice bs (offset + 8) (offset + 16) @ slice bs (offset + 16) (offset + 24)"
    by (simp add: slice_append_slice)
  have new: "descriptor_identity_new a b c = Inr d \<longleftrightarrow>
      a \<noteq> 0 \<and> b \<noteq> 0 \<and> c \<noteq> 0 \<and> a = di_device d \<and> b = di_inode d \<and> c = di_mount_id d"
    for a b c
    by (cases d) (auto simp: descriptor_identity_new_def)
  have lens: "length (slice bs offset (offset + 8)) = 8"
    "length (slice bs (offset + 8) (offset + 16)) = 8"
    using assms by simp_all
  show ?thesis
    unfolding whole
    by (auto simp: g0_descriptor_identity_def reads new namespace_ok_def encode_descriptor_identity_def
        lens simp del: length_slice)
qed

section \<open>What the generator accepts\<close>

definition local_facts_wf :: "GeneratorPeerLocalFacts \<Rightarrow> bool" where
  "local_facts_wf l \<longleftrightarrow>
     length (rq_preimage (lf_request l)) = 772 \<and> length (rq_digest (lf_request l)) = 32
     \<and> length (lf_appliance_measurement l) = 32 \<and> length (lf_supervisor_measurement l) = 32
     \<and> length (lf_generator_measurement l) = 32 \<and> length (lf_worker_measurement l) = 32
     \<and> length (lf_generator_nonce l) = 32"

definition peer_input_wf :: "GeneratorPeerSessionInput \<Rightarrow> bool" where
  "peer_input_wf i \<longleftrightarrow>
     length (gp_session_offer_raw i) = 1101 \<and> length (gp_generator_commit_raw i) = 75
     \<and> length (gp_supervisor_commit_raw i) = 75 \<and> length (gp_generator_reveal_raw i) = 75
     \<and> length (gp_supervisor_reveal_raw i) = 75 \<and> local_facts_wf (gp_local_facts i)
     \<and> length (ep_digest (gp_local_generator_endpoint i)) = 32"

text \<open>What the supervisor alone contributes: its process, its endpoint, its nonce, the worker channel.\<close>

record SupervisorShare =
  sh_pid :: u32
  sh_start_epoch :: u64
  sh_worker_channel :: bytes
  sh_endpoint_digest :: bytes
  sh_namespace :: DescriptorIdentity
  sh_nonce :: bytes

definition share_wf :: "SupervisorShare \<Rightarrow> bool" where
  "share_wf h \<longleftrightarrow> length (sh_worker_channel h) = 32 \<and> length (sh_endpoint_digest h) = 32
     \<and> length (sh_nonce h) = 32"

definition share_ok :: "SupervisorShare \<Rightarrow> bool" where
  "share_ok h \<longleftrightarrow> share_wf h \<and> sh_pid h \<noteq> 0 \<and> sh_start_epoch h \<noteq> 0 \<and> namespace_ok (sh_namespace h)
     \<and> sh_nonce h \<noteq> replicate 32 0"

definition share_channel ::
    "(bytes \<Rightarrow> bytes) \<Rightarrow> SeqpacketEndpoint \<Rightarrow> SupervisorShare \<Rightarrow> ChannelIdentity" where
  "share_channel sha e h =
     channel_from_digests sha GeneratorChannel GENERATOR_CHANNEL_IDENTITY_DOMAIN (ep_digest e) (sh_endpoint_digest h)"

definition share_offer ::
    "(bytes \<Rightarrow> bytes) \<Rightarrow> GeneratorPeerLocalFacts \<Rightarrow> SeqpacketEndpoint \<Rightarrow> SupervisorShare \<Rightarrow> SessionOfferInput" where
  "share_offer sha l e h =
     \<lparr>so_request = lf_request l, so_appliance_measurement = lf_appliance_measurement l,
      so_supervisor_measurement = lf_supervisor_measurement l,
      so_generator_measurement = lf_generator_measurement l,
      so_worker_measurement = lf_worker_measurement l, so_supervisor_pid = sh_pid h,
      so_supervisor_start_epoch = sh_start_epoch h, so_generator_channel = share_channel sha e h,
      so_worker_channel = \<lparr>ch_kind = WorkerChannel, ch_digest = sh_worker_channel h\<rparr>,
      so_supervisor_generator_endpoint =
        \<lparr>ep_role = EpSupervisorGenerator, ep_preimage = [], ep_digest = sh_endpoint_digest h\<rparr>,
      so_receiver_user_namespace = sh_namespace h\<rparr>"

definition share_session ::
    "(bytes \<Rightarrow> bytes) \<Rightarrow> GeneratorPeerLocalFacts \<Rightarrow> SeqpacketEndpoint \<Rightarrow> SupervisorShare \<Rightarrow> ProviderSessionInput" where
  "share_session sha l e h =
     \<lparr>ps_request = lf_request l, ps_appliance_measurement = lf_appliance_measurement l,
      ps_supervisor_measurement = lf_supervisor_measurement l,
      ps_generator_measurement = lf_generator_measurement l,
      ps_worker_measurement = lf_worker_measurement l,
      ps_generator_nonce = lf_generator_nonce l, ps_supervisor_nonce = sh_nonce h,
      ps_supervisor_pid = sh_pid h, ps_supervisor_start_epoch = sh_start_epoch h,
      ps_generator_channel = share_channel sha e h,
      ps_worker_channel = \<lparr>ch_kind = WorkerChannel, ch_digest = sh_worker_channel h\<rparr>\<rparr>"

lemma offer_slices:
  assumes "digests_32 sha" "local_facts_wf l" "share_wf h"
  shows "offer = offer_bytes (share_offer sha l e h) \<longleftrightarrow>
    slice offer 0 2 = u16_to_le 31 \<and> slice offer 2 33 = SESSION_OFFER_DOMAIN
    \<and> slice offer 33 35 = u16_to_le FRAME_VERSION \<and> slice offer 35 37 = u16_to_le 772
    \<and> slice offer 37 809 = rq_preimage (lf_request l) \<and> slice offer 809 841 = rq_digest (lf_request l)
    \<and> slice offer 841 873 = lf_appliance_measurement l \<and> slice offer 873 905 = lf_supervisor_measurement l
    \<and> slice offer 905 937 = lf_generator_measurement l \<and> slice offer 937 969 = lf_worker_measurement l
    \<and> slice offer 969 973 = u32_to_le (sh_pid h) \<and> slice offer 973 981 = u64_to_le (sh_start_epoch h)
    \<and> slice offer 981 1013 = ch_digest (share_channel sha e h)
    \<and> slice offer 1013 1045 = sh_worker_channel h \<and> slice offer 1045 1077 = sh_endpoint_digest h
    \<and> slice offer 1077 1101 = encode_descriptor_identity (sh_namespace h) \<and> length offer = 1101"
proof -
  have digest: "length (ch_digest (share_channel sha e h)) = 32"
    using assms(1) by (simp add: share_channel_def channel_from_digests_def digests_32_def)
  have fields: "offer_bytes (share_offer sha l e h) = concat
      [u16_to_le 31, SESSION_OFFER_DOMAIN, u16_to_le FRAME_VERSION, u16_to_le 772,
       rq_preimage (lf_request l), rq_digest (lf_request l), lf_appliance_measurement l,
       lf_supervisor_measurement l, lf_generator_measurement l, lf_worker_measurement l,
       u32_to_le (sh_pid h), u64_to_le (sh_start_epoch h), ch_digest (share_channel sha e h),
       sh_worker_channel h, sh_endpoint_digest h, encode_descriptor_identity (sh_namespace h)]"
    by (simp add: offer_bytes_def share_offer_def)
  have "offer = offer_bytes (share_offer sha l e h) \<longleftrightarrow> at_slices offer 0
      [u16_to_le 31, SESSION_OFFER_DOMAIN, u16_to_le FRAME_VERSION, u16_to_le 772,
       rq_preimage (lf_request l), rq_digest (lf_request l), lf_appliance_measurement l,
       lf_supervisor_measurement l, lf_generator_measurement l, lf_worker_measurement l,
       u32_to_le (sh_pid h), u64_to_le (sh_start_epoch h), ch_digest (share_channel sha e h),
       sh_worker_channel h, sh_endpoint_digest h, encode_descriptor_identity (sh_namespace h)]"
    unfolding fields by (rule string_slices)
  then show ?thesis
    using assms(2,3) digest
    by (simp add: local_facts_wf_def share_wf_def eq_commute [of 1101] del: add_2_eq_Suc add_2_eq_Suc')
qed

lemma check_offer_iff:
  assumes "length offer = 1101"
  shows "check_offer offer l = Inr u \<longleftrightarrow>
    slice offer 0 2 = u16_to_le 31 \<and> slice offer 2 33 = SESSION_OFFER_DOMAIN
    \<and> slice offer 33 35 = u16_to_le FRAME_VERSION \<and> slice offer 35 37 = u16_to_le 772
    \<and> slice offer 37 809 = rq_preimage (lf_request l) \<and> slice offer 809 841 = rq_digest (lf_request l)
    \<and> slice offer 841 873 = lf_appliance_measurement l \<and> slice offer 873 905 = lf_supervisor_measurement l
    \<and> slice offer 905 937 = lf_generator_measurement l \<and> slice offer 937 969 = lf_worker_measurement l"
proof -
  have "u16_try_from 31 = Some 31" by (simp add: try_from_counts)
  moreover have "unat w = 772 \<longleftrightarrow> w = 772" for w :: u16 by (simp add: word_unat_eq_iff)
  ultimately show ?thesis
    using assms
    by (auto simp: check_offer_def Let_def usize_limit_def size_defs simp del: add_2_eq_Suc add_2_eq_Suc')
qed

definition session_of_share ::
    "(bytes \<Rightarrow> bytes) \<Rightarrow> GeneratorPeerLocalFacts \<Rightarrow> SeqpacketEndpoint \<Rightarrow> SupervisorShare \<Rightarrow> ProviderSession" where
  "session_of_share sha l e h =
     (let i = share_session sha l e h in
      \<lparr>pv_preimage = session_bytes i, pv_session_id = sha (session_bytes i),
       pv_request_commitment = rq_digest (lf_request l),
       pv_generator_nonce_commitment = sha (nonce_bytes NonceGenerator (rq_digest (lf_request l)) (lf_generator_nonce l)),
       pv_supervisor_nonce_commitment = sha (nonce_bytes NonceSupervisor (rq_digest (lf_request l)) (sh_nonce h)),
       pv_generator_channel = ch_digest (share_channel sha e h),
       pv_worker_channel = sh_worker_channel h\<rparr>)"

definition peer_of_share ::
    "(bytes \<Rightarrow> bytes) \<Rightarrow> GeneratorPeerLocalFacts \<Rightarrow> SeqpacketEndpoint \<Rightarrow> SupervisorShare \<Rightarrow> GeneratorPeerSession" where
  "peer_of_share sha l e h =
     \<lparr>gs_session = session_of_share sha l e h, gs_supervisor_pid = sh_pid h,
      gs_supervisor_start_epoch = sh_start_epoch h,
      gs_supervisor_generator_endpoint_digest = sh_endpoint_digest h,
      gs_receiver_user_namespace = sh_namespace h\<rparr>"

lemma length_share_session:
  assumes "digests_32 sha" "local_facts_wf l" "share_wf h"
  shows "length (session_bytes (share_session sha l e h)) = 373"
proof -
  have "length (ch_digest (share_channel sha e h)) = 32"
    using assms(1) by (simp add: share_channel_def channel_from_digests_def digests_32_def)
  then show ?thesis
    using assms(2,3) by (simp add: session_bytes_def share_session_def local_facts_wf_def share_wf_def)
qed

lemma share_session_iff:
  assumes "digests_32 sha" "local_facts_wf l" "share_wf h"
  shows "provider_session_new sha (share_session sha l e h) = Inr s \<longleftrightarrow>
    sh_pid h \<noteq> 0 \<and> sh_start_epoch h \<noteq> 0 \<and> lf_generator_nonce l \<noteq> replicate 32 0
    \<and> sh_nonce h \<noteq> replicate 32 0 \<and> s = session_of_share sha l e h"
  using length_share_session [OF assms]
  by (auto simp: provider_session_iff session_of_share_def Let_def)
    (auto simp: share_session_def share_channel_def channel_from_digests_def)

lemma record_lengths:
  assumes "digests_32 sha" "length (rq_digest r) = 32" "length nonce = 32"
  shows "length (record_bytes sha kind r nonce) = 75"
  using assms by (cases kind) (simp_all add: record_bytes_def digests_32_def)

lemma expect_record_iff:
  assumes "digests_32 sha" "length (rq_digest r) = 32" "length nonce = 32"
  shows "expect_record sha raw kind r nonce = Inr u \<longleftrightarrow>
    nonce \<noteq> replicate 32 0 \<and> raw = record_bytes sha kind r nonce"
  using record_lengths [OF assms] by (auto simp: expect_record_def pre_session_record_iff)

definition records_match ::
    "(bytes \<Rightarrow> bytes) \<Rightarrow> GeneratorPeerSessionInput \<Rightarrow> bytes \<Rightarrow> bool" where
  "records_match sha i nonce \<longleftrightarrow>
     (let l = gp_local_facts i; r = lf_request l in
      gp_generator_commit_raw i = record_bytes sha GeneratorCommit r (lf_generator_nonce l)
      \<and> gp_generator_reveal_raw i = record_bytes sha GeneratorReveal r (lf_generator_nonce l)
      \<and> gp_supervisor_commit_raw i = record_bytes sha SupervisorCommit r nonce
      \<and> gp_supervisor_reveal_raw i = record_bytes sha SupervisorReveal r nonce)"

lemma check_records_iff:
  assumes "digests_32 sha" "local_facts_wf (gp_local_facts i)" "length nonce = 32"
  shows "check_records sha i nonce = Inr u \<longleftrightarrow>
    nonce \<noteq> replicate 32 0 \<and> lf_generator_nonce (gp_local_facts i) \<noteq> replicate 32 0
    \<and> records_match sha i nonce"
  using assms
  by (auto simp: check_records_def Let_def expect_record_iff local_facts_wf_def records_match_def)

text \<open>A matching reveal record has the nonce where the generator reads it.\<close>

lemma reveal_read:
  assumes "length (rq_digest (lf_request l)) = 32" "length nonce = 32"
    and "raw = record_bytes sha SupervisorReveal (lf_request l) nonce"
  shows "slice raw 43 75 = nonce" "check_supervisor_reveal raw l = Inr ()"
proof -
  have raw: "raw = concat [PRE_SESSION_RECORD_MAGIC, u16_to_le FRAME_VERSION, [3], rq_digest (lf_request l), nonce]"
    using assms(3) by (simp add: record_bytes_def)
  have "at_slices raw 0 [PRE_SESSION_RECORD_MAGIC, u16_to_le FRAME_VERSION, [3], rq_digest (lf_request l), nonce]"
    by (rule string_slices [THEN iffD1, OF raw])
  then have cut: "slice raw 0 8 = PRE_SESSION_RECORD_MAGIC" "slice raw 8 10 = u16_to_le FRAME_VERSION"
    "slice raw 10 11 = [3]" "slice raw 11 43 = rq_digest (lf_request l)" "slice raw 43 75 = nonce"
    "length raw = 75"
    using assms(1,2) by (simp_all del: add_2_eq_Suc add_2_eq_Suc')
  show "slice raw 43 75 = nonce" by (rule cut)
  have "raw ! 10 = 3" using cut(3) byte_slice [of raw 10 3] by simp
  then show "check_supervisor_reveal raw l = Inr ()"
    using cut by (auto simp: check_supervisor_reveal_def Let_def usize_limit_def)
qed

lemma peer_session_iff:
  assumes sha: "digests_32 sha" and wf: "peer_input_wf i"
  defines "l \<equiv> gp_local_facts i" and "e \<equiv> gp_local_generator_endpoint i"
  shows "peer_session_new sha i = Inr g \<longleftrightarrow>
    (\<exists>h. share_ok h \<and> ep_role e = EpGenerator \<and> lf_generator_nonce l \<noteq> replicate 32 0
      \<and> gp_session_offer_raw i = offer_bytes (share_offer sha l e h)
      \<and> records_match sha i (sh_nonce h) \<and> g = peer_of_share sha l e h)" (is "_ = (\<exists>h. ?accepts h)")
proof
  let ?offer = "gp_session_offer_raw i"
  have lens: "length ?offer = 1101" "length (gp_supervisor_reveal_raw i) = 75" "local_facts_wf l"
    using wf by (simp_all add: peer_input_wf_def l_def)
  assume new: "peer_session_new sha i = Inr g"
  obtain pid epoch namespace session where steps: "check_offer ?offer l = Inr ()"
    "slice ?offer 969 973 = u32_to_le pid" "slice ?offer 973 981 = u64_to_le epoch" "pid \<noteq> 0" "epoch \<noteq> 0"
    "namespace_ok namespace" "slice ?offer 1077 1101 = encode_descriptor_identity namespace"
    "ep_role e = EpGenerator"
    "ch_digest (channel_from_digests sha GeneratorChannel GENERATOR_CHANNEL_IDENTITY_DOMAIN
      (ep_digest e) (slice ?offer 1045 1077)) = slice ?offer 981 1013"
    "check_records sha i (slice (gp_supervisor_reveal_raw i) 43 75) = Inr ()"
    and made: "\<And>h. h = \<lparr>sh_pid = pid, sh_start_epoch = epoch, sh_worker_channel = slice ?offer 1013 1045,
        sh_endpoint_digest = slice ?offer 1045 1077, sh_namespace = namespace,
        sh_nonce = slice (gp_supervisor_reveal_raw i) 43 75\<rparr> \<Longrightarrow>
      provider_session_new sha (share_session sha l e h) = Inr session"
    and g: "g = \<lparr>gs_session = session, gs_supervisor_pid = pid, gs_supervisor_start_epoch = epoch,
         gs_supervisor_generator_endpoint_digest = slice ?offer 1045 1077,
         gs_receiver_user_namespace = namespace\<rparr>"
    using new lens unfolding peer_session_new_def l_def [symmetric] e_def [symmetric]
    by (simp add: usize_limit_def Let_def share_session_def share_channel_def) blast
  let ?h = "\<lparr>sh_pid = pid, sh_start_epoch = epoch, sh_worker_channel = slice ?offer 1013 1045,
        sh_endpoint_digest = slice ?offer 1045 1077, sh_namespace = namespace,
        sh_nonce = slice (gp_supervisor_reveal_raw i) 43 75\<rparr>"
  have share: "share_wf ?h" using lens by (simp add: share_wf_def)
  have "?offer = offer_bytes (share_offer sha l e ?h)"
    using steps(1-3,7,9) lens
    by (simp add: offer_slices [OF sha lens(3) share] check_offer_iff share_channel_def)
  moreover have records: "sh_nonce ?h \<noteq> replicate 32 0 \<and> lf_generator_nonce l \<noteq> replicate 32 0
      \<and> records_match sha i (sh_nonce ?h)"
    using steps(10) check_records_iff [OF sha, of i "sh_nonce ?h"] lens(2,3) unfolding l_def by simp
  moreover have "session = session_of_share sha l e ?h"
    using made [of ?h] by (simp add: share_session_iff [OF sha lens(3) share])
  moreover have "share_ok ?h" using share steps(4-6) records by (simp add: share_ok_def)
  ultimately have "?accepts ?h" using steps(8) g by (simp add: peer_of_share_def)
  then show "\<exists>h. ?accepts h" by blast
next
  let ?offer = "gp_session_offer_raw i"
  have lens: "length ?offer = 1101" "length (gp_supervisor_reveal_raw i) = 75" "local_facts_wf l"
    using wf by (simp_all add: peer_input_wf_def l_def)
  assume "\<exists>h. ?accepts h"
  then obtain h where h: "share_ok h" "ep_role e = EpGenerator" "lf_generator_nonce l \<noteq> replicate 32 0"
    "?offer = offer_bytes (share_offer sha l e h)" "records_match sha i (sh_nonce h)"
    "g = peer_of_share sha l e h" by blast
  then have share: "share_wf h" "sh_pid h \<noteq> 0" "sh_start_epoch h \<noteq> 0" "namespace_ok (sh_namespace h)"
    "sh_nonce h \<noteq> replicate 32 0" "length (sh_nonce h) = 32"
    by (simp_all add: share_ok_def share_wf_def)
  note cut = offer_slices [OF sha lens(3) share(1), THEN iffD1, OF h(4)]
  have offer: "check_offer ?offer l = Inr ()" using cut lens by (simp add: check_offer_iff)
  have reveal: "slice (gp_supervisor_reveal_raw i) 43 75 = sh_nonce h"
    "check_supervisor_reveal (gp_supervisor_reveal_raw i) l = Inr ()"
    using reveal_read [of l "sh_nonce h" "gp_supervisor_reveal_raw i"] h(5) lens(3) share(6)
    by (simp_all add: records_match_def local_facts_wf_def Let_def l_def)
  have records: "check_records sha i (sh_nonce h) = Inr ()"
    using h(3,5) share(5,6) check_records_iff [OF sha, of i "sh_nonce h"] lens(3) unfolding l_def by simp
  have session: "provider_session_new sha (share_session sha l e h) = Inr (session_of_share sha l e h)"
    using h(3) share by (simp add: share_session_iff [OF sha lens(3) share(1)])
  show "peer_session_new sha i = Inr g"
    using offer cut lens reveal records session h(2,6) share
    unfolding peer_session_new_def l_def [symmetric] e_def [symmetric]
    by (simp add: usize_limit_def Let_def share_session_def share_channel_def peer_of_share_def)
qed

section \<open>Agreement\<close>

text \<open>The buffers that the two parties of one attempt exchange, from the facts of the attempt.\<close>

definition request_value :: "(bytes \<Rightarrow> bytes) \<Rightarrow> SessionFacts \<Rightarrow> RequestCommitment" where
  "request_value sha f =
     \<lparr>rq_preimage = hashed_request sha f, rq_digest = sha (hashed_request sha f),
      rq_ingress_count = word_of_nat (length (rf_ingress f))\<rparr>"

definition facts_local :: "(bytes \<Rightarrow> bytes) \<Rightarrow> SessionFacts \<Rightarrow> GeneratorPeerLocalFacts" where
  "facts_local sha f =
     \<lparr>lf_request = request_value sha f, lf_appliance_measurement = sf_appliance_measurement f,
      lf_supervisor_measurement = sf_supervisor_measurement f,
      lf_generator_measurement = sf_generator_measurement f,
      lf_worker_measurement = sf_worker_measurement f, lf_generator_nonce = sf_generator_nonce f\<rparr>"

definition facts_offer :: "(bytes \<Rightarrow> bytes) \<Rightarrow> SessionFacts \<Rightarrow> DescriptorIdentity \<Rightarrow> SessionOfferInput" where
  "facts_offer sha f namespace =
     \<lparr>so_request = request_value sha f, so_appliance_measurement = sf_appliance_measurement f,
      so_supervisor_measurement = sf_supervisor_measurement f,
      so_generator_measurement = sf_generator_measurement f,
      so_worker_measurement = sf_worker_measurement f, so_supervisor_pid = sf_supervisor_pid f,
      so_supervisor_start_epoch = sf_supervisor_start_epoch f,
      so_generator_channel = \<lparr>ch_kind = GeneratorChannel, ch_digest = fst (facts_channel_digests sha f)\<rparr>,
      so_worker_channel = \<lparr>ch_kind = WorkerChannel, ch_digest = snd (facts_channel_digests sha f)\<rparr>,
      so_supervisor_generator_endpoint = facts_endpoint sha f EpSupervisorGenerator,
      so_receiver_user_namespace = namespace\<rparr>"

definition facts_peer_input ::
    "(bytes \<Rightarrow> bytes) \<Rightarrow> SessionFacts \<Rightarrow> DescriptorIdentity \<Rightarrow> GeneratorPeerSessionInput" where
  "facts_peer_input sha f namespace =
     (let r = request_value sha f in
      \<lparr>gp_session_offer_raw = offer_bytes (facts_offer sha f namespace),
       gp_generator_commit_raw = record_bytes sha GeneratorCommit r (sf_generator_nonce f),
       gp_supervisor_commit_raw = record_bytes sha SupervisorCommit r (sf_supervisor_nonce f),
       gp_generator_reveal_raw = record_bytes sha GeneratorReveal r (sf_generator_nonce f),
       gp_supervisor_reveal_raw = record_bytes sha SupervisorReveal r (sf_supervisor_nonce f),
       gp_local_facts = facts_local sha f,
       gp_local_generator_endpoint = facts_endpoint sha f EpGenerator\<rparr>)"

definition facts_share :: "(bytes \<Rightarrow> bytes) \<Rightarrow> SessionFacts \<Rightarrow> DescriptorIdentity \<Rightarrow> SupervisorShare" where
  "facts_share sha f namespace =
     \<lparr>sh_pid = sf_supervisor_pid f, sh_start_epoch = sf_supervisor_start_epoch f,
      sh_worker_channel = snd (facts_channel_digests sha f),
      sh_endpoint_digest = ep_digest (facts_endpoint sha f EpSupervisorGenerator),
      sh_namespace = namespace, sh_nonce = sf_supervisor_nonce f\<rparr>"

lemma length_hashed_request:
  assumes "digests_32 sha" "facts_wf f" "facts_ok f"
  shows "length (hashed_request sha f) = 772"
proof -
  have "length (pt_digest (hashed_target sha f)) = 32"
    using assms(1) by (simp add: digests_32_def hashed_target_def Let_def)
  then show ?thesis
    using assms by (simp add: hashed_request_def request_bytes_def facts_wf_def digests_32_def
        hashed_ingress_def block_code.length_concat)
qed

lemma facts_share_values:
  "share_channel sha (facts_endpoint sha f EpGenerator) (facts_share sha f ns)
    = \<lparr>ch_kind = GeneratorChannel, ch_digest = fst (facts_channel_digests sha f)\<rparr>"
  "offer_bytes (share_offer sha (facts_local sha f) (facts_endpoint sha f EpGenerator) (facts_share sha f ns))
    = offer_bytes (facts_offer sha f ns)"
  "session_of_share sha (facts_local sha f) (facts_endpoint sha f EpGenerator) (facts_share sha f ns)
    = session_value sha f"
proof -
  show channel: "share_channel sha (facts_endpoint sha f EpGenerator) (facts_share sha f ns)
    = \<lparr>ch_kind = GeneratorChannel, ch_digest = fst (facts_channel_digests sha f)\<rparr>"
    by (simp add: share_channel_def channel_from_digests_def facts_share_def facts_channel_digests_def
        hashed_channel_def)
  show "offer_bytes (share_offer sha (facts_local sha f) (facts_endpoint sha f EpGenerator) (facts_share sha f ns))
    = offer_bytes (facts_offer sha f ns)"
    by (simp add: offer_bytes_def share_offer_def facts_offer_def channel) (simp add: facts_local_def facts_share_def)
  show "session_of_share sha (facts_local sha f) (facts_endpoint sha f EpGenerator) (facts_share sha f ns)
    = session_value sha f"
    by (simp add: session_of_share_def session_value_def session_bytes_def share_session_def channel Let_def)
      (simp add: facts_local_def facts_share_def hashed_session_def request_value_def)
qed

lemma facts_peer_wf:
  assumes "digests_32 sha" "facts_wf f" "facts_ok f"
  shows "peer_input_wf (facts_peer_input sha f ns)" "local_facts_wf (facts_local sha f)"
    "share_wf (facts_share sha f ns)"
proof -
  show local: "local_facts_wf (facts_local sha f)"
    using assms length_hashed_request [OF assms]
    by (simp add: local_facts_wf_def facts_local_def request_value_def facts_wf_def digests_32_def)
  show share: "share_wf (facts_share sha f ns)"
    using assms
    by (simp add: share_wf_def facts_share_def facts_wf_def digests_32_def facts_channel_digests_def facts_endpoint_def)
  have "length (offer_bytes (facts_offer sha f ns)) = 1101"
    using offer_slices [OF assms(1) local share, THEN iffD1, OF refl, of "facts_endpoint sha f EpGenerator"] unfolding facts_share_values by blast
  then show "peer_input_wf (facts_peer_input sha f ns)"
    using assms local record_lengths [OF assms(1)]
    by (simp add: peer_input_wf_def facts_peer_input_def Let_def facts_local_def facts_endpoint_def
        local_facts_wf_def facts_wf_def digests_32_def)
qed

section \<open>Properties\<close>

text \<open>
  C11. The generator accepts five transport buffers exactly when they are the canonical offer for its own
  request, measurements and endpoint and for some supervisor process, endpoint, namespace and worker
  channel, its own commit and reveal records, and the supervisor's commit and reveal of one non-zero
  nonce; the session it keeps is then the one derived from exactly these values.
\<close>

theorem peer_session_exact:
  assumes "digests_32 sha" "peer_input_wf i"
  shows "peer_session_new sha i = Inr g \<longleftrightarrow>
    (\<exists>h. share_ok h \<and> ep_role (gp_local_generator_endpoint i) = EpGenerator
      \<and> lf_generator_nonce (gp_local_facts i) \<noteq> replicate 32 0
      \<and> gp_session_offer_raw i
          = offer_bytes (share_offer sha (gp_local_facts i) (gp_local_generator_endpoint i) h)
      \<and> records_match sha i (sh_nonce h)
      \<and> g = peer_of_share sha (gp_local_facts i) (gp_local_generator_endpoint i) h)"
  by (rule peer_session_iff [OF assms])

text \<open>
  C20. The two parties of an attempt derive the same session: for admissible facts the supervisor's
  offer and the four records are encoded without error, the generator accepts them against its
  local facts, and the session it reconstructs is the one the supervisor derives.
\<close>

theorem sessions_agree:
  assumes "digests_32 sha" "facts_wf f" "facts_ok f" "namespace_ok namespace"
  shows "session_offer_new (facts_offer sha f namespace)
        = Inr (gp_session_offer_raw (facts_peer_input sha f namespace))
    \<and> prepare_generator_commit_record sha (facts_local sha f)
        = Inr (gp_generator_commit_raw (facts_peer_input sha f namespace))
    \<and> encode_pre_session_record sha SupervisorCommit (request_value sha f) (sf_supervisor_nonce f)
        = Inr (gp_supervisor_commit_raw (facts_peer_input sha f namespace))
    \<and> prepare_generator_reveal_record sha (facts_local sha f)
        = Inr (gp_generator_reveal_raw (facts_peer_input sha f namespace))
    \<and> encode_pre_session_record sha SupervisorReveal (request_value sha f) (sf_supervisor_nonce f)
        = Inr (gp_supervisor_reveal_raw (facts_peer_input sha f namespace))
    \<and> (\<exists>g. peer_session_new sha (facts_peer_input sha f namespace) = Inr g
        \<and> facts_session sha f = Inr (gs_session g))"
proof -
  let ?i = "facts_peer_input sha f namespace" and ?h = "facts_share sha f namespace"
  have wf: "peer_input_wf ?i" "local_facts_wf (facts_local sha f)" "share_wf ?h"
    by (rule facts_peer_wf [OF assms(1-3)])+
  have nonces: "sf_generator_nonce f \<noteq> replicate 32 0" "sf_supervisor_nonce f \<noteq> replicate 32 0"
    using assms(3) by (simp_all add: facts_ok_def)
  have i: "gp_local_facts ?i = facts_local sha f" "gp_local_generator_endpoint ?i = facts_endpoint sha f EpGenerator"
    "gp_session_offer_raw ?i = offer_bytes (facts_offer sha f namespace)"
    by (simp_all add: facts_peer_input_def Let_def)
  have "peer_session_new sha ?i
      = Inr (peer_of_share sha (facts_local sha f) (facts_endpoint sha f EpGenerator) ?h)"
    unfolding peer_session_iff [OF assms(1) wf(1)] i
  proof (intro exI [of _ ?h] conjI refl)
    show "share_ok ?h"
      using wf(3) assms(3,4) by (simp add: share_ok_def facts_ok_def facts_share_def)
    show "ep_role (facts_endpoint sha f EpGenerator) = EpGenerator" by (simp add: facts_endpoint_def)
    show "lf_generator_nonce (facts_local sha f) \<noteq> replicate 32 0" using nonces by (simp add: facts_local_def)
    show "offer_bytes (facts_offer sha f namespace)
        = offer_bytes (share_offer sha (facts_local sha f) (facts_endpoint sha f EpGenerator) ?h)"
      by (simp only: facts_share_values)
    show "records_match sha ?i (sh_nonce ?h)"
      by (simp add: records_match_def facts_peer_input_def Let_def facts_local_def facts_share_def)
  qed
  moreover have "facts_session sha f
      = Inr (gs_session (peer_of_share sha (facts_local sha f) (facts_endpoint sha f EpGenerator) ?h))"
    using assms by (simp add: facts_session_iff peer_of_share_def facts_share_values)
  moreover have "length (offer_bytes (facts_offer sha f namespace)) = 1101"
    using wf(1) by (simp add: peer_input_wf_def i)
  ultimately show ?thesis
    using wf(1) nonces assms(3)
    by (simp add: session_offer_iff pre_session_record_iff prepare_generator_commit_record_def
        prepare_generator_reveal_record_def facts_peer_input_def Let_def facts_local_def facts_ok_def
        peer_input_wf_def facts_offer_def facts_endpoint_def)
qed

definition sample_peer_input :: GeneratorPeerSessionInput where
  "sample_peer_input = facts_peer_input sample_digest sample_facts sample_namespace"

lemma sample_namespace_ok: "namespace_ok sample_namespace"
  by (simp add: namespace_ok_def sample_namespace_def)

lemma sessions_agree_witness:
  "\<exists>g. peer_session_new sample_digest sample_peer_input = Inr g
     \<and> facts_session sample_digest sample_facts = Inr (gs_session g)"
  using sessions_agree [OF sample_digest_32 sample_facts_ok(1,2) sample_namespace_ok]
  by (simp add: sample_peer_input_def)

lemma peer_session_exact_witness:
  "\<not> is_ok (peer_session_new sample_digest (sample_peer_input\<lparr>gp_supervisor_reveal_raw := replicate 75 0\<rparr>))"
proof -
  let ?i = "sample_peer_input\<lparr>gp_supervisor_reveal_raw := replicate 75 0\<rparr>"
  have "peer_input_wf sample_peer_input"
    unfolding sample_peer_input_def by (rule facts_peer_wf) (simp_all add: sample_facts_ok)
  then have wf: "peer_input_wf ?i" by (simp add: peer_input_wf_def)
  have "replicate 75 0 \<noteq> record_bytes sample_digest SupervisorReveal r nonce" for r nonce
    by (auto simp: record_bytes_def PRE_SESSION_RECORD_MAGIC_def ascii_def dest: arg_cong [of _ _ hd])
  then show ?thesis
    using peer_session_exact [OF sample_digest_32 wf] by (simp add: records_match_def Let_def is_ok_iff)
qed

end
