(* ===== verification/WireClosedResult.thy ===== *)
theory WireClosedResult
  imports WirePeer
begin

text \<open>
  The end of the generator's session (same source file): the outbound \<open>GeneratorBound\<close> frame with its
  private digest expectation, and the verification of the one closed result against the retained
  session, the physical content of the final result and that expectation. A consumed Rust value
  is an argument that the caller no longer has.
\<close>

section \<open>The closed result\<close>

record ClosedResultInboundInput =
  ci_received_raw_frame :: bytes
  ci_actual_rights_count :: nat
  ci_observed_credentials :: PeerCredentials

record ClosedResultInbound =
  ci_raw_frame :: bytes
  ci_credentials :: PeerCredentials
  ci_session_id :: bytes
  ci_claimed_generator_bound_digest :: bytes
  ci_terminal_worker_digest :: bytes
  ci_claimed_content_digest :: bytes

definition validate_closed_result_inbound ::
    "GeneratorPeerSession \<Rightarrow> ClosedResultInboundInput \<Rightarrow> WireError + ClosedResultInbound" where
  "validate_closed_result_inbound g i =
     (let field = ClosedResultFrame; raw = ci_received_raw_frame i in
      and_then (ok_or (u16_try_from (length CLOSED_RESULT_BODY_DOMAIN)) ArithmeticOverflow) (\<lambda>domain_length.
      and_then (drift field (ci_actual_rights_count i \<noteq> 1)) (\<lambda>_.
      and_then (expect_range raw 0 8 field FRAME_MAGIC) (\<lambda>_.
      and_then (expect_u16 raw 8 field FRAME_VERSION) (\<lambda>_.
      and_then (expect_byte raw 10 field (direction_code SupervisorToGenerator)) (\<lambda>_.
      and_then (expect_byte raw 11 field 1) (\<lambda>_.
      and_then (expect_byte raw 12 field (wire_code Closed)) (\<lambda>_.
      and_then (g0_u32_le raw 13 field) (\<lambda>body_length.
      and_then (drift field (unat body_length \<noteq> G0_CLOSED_RESULT_BODY_BYTES)) (\<lambda>_.
      and_then (expect_range raw 17 49 field (pv_session_id (gs_session g))) (\<lambda>_.
      and_then (expect_byte raw 81 field 1) (\<lambda>_.
      and_then (expect_byte raw 82 field 9) (\<lambda>_.
      and_then (expect_u16 raw 83 field domain_length) (\<lambda>_.
      and_then (expect_range raw 85 121 field CLOSED_RESULT_BODY_DOMAIN) (\<lambda>_.
      and_then (expect_u16 raw 121 field FRAME_VERSION) (\<lambda>_.
      and_then (expect_range raw 123 155 field (pv_request_commitment (gs_session g))) (\<lambda>_.
      and_then (g0_fixed_bytes 32 raw 49 field) (\<lambda>claimed_generator_bound.
      and_then (g0_fixed_bytes 32 raw 155 field) (\<lambda>terminal_worker.
      and_then (g0_fixed_bytes 32 raw 187 field) (\<lambda>claimed_content.
      Inr \<lparr>ci_raw_frame = raw, ci_credentials = ci_observed_credentials i,
           ci_session_id = pv_session_id (gs_session g),
           ci_claimed_generator_bound_digest = claimed_generator_bound,
           ci_terminal_worker_digest = terminal_worker,
           ci_claimed_content_digest = claimed_content\<rparr>))))))))))))))))))))"

definition final_result_content_digest :: "(bytes \<Rightarrow> bytes) \<Rightarrow> bytes \<Rightarrow> WireError + bytes" where
  "final_result_content_digest sha bs =
     and_then (drift FinalResultContent (bs = [] \<or> length bs > G0_FINAL_RESULT_MAX_BYTES)) (\<lambda>_.
     Inr (sha bs))"

record VerifiedClosedResultClaims =
  vc_claimed_generator_bound_digest :: bytes
  vc_terminal_worker_digest :: bytes
  vc_verified_content_digest :: bytes
  vc_transcript :: bytes

definition closed_result_input :: "ClosedResultInbound \<Rightarrow> FdCommitment \<Rightarrow> FrameInput" where
  "closed_result_input c final_result =
     \<lparr>fi_direction = SupervisorToGenerator, fi_ordinal = 1, fi_phase = Closed,
      fi_session_id = ci_session_id c, fi_previous_hash = ci_claimed_generator_bound_digest c,
      fi_body = drop 83 (ci_raw_frame c), fi_credentials = ci_credentials c,
      fi_fd_commitments = [final_result], fi_ancillary = ancillary_canonical 1\<rparr>"

definition verify_final_result_content ::
    "(bytes \<Rightarrow> bytes) \<Rightarrow> ClosedResultInbound \<Rightarrow> bytes \<Rightarrow> WireError + VerifiedClosedResultClaims" where
  "verify_final_result_content sha c bs =
     and_then (drift FinalResultContent (bs = [] \<or> length bs > G0_FINAL_RESULT_MAX_BYTES)) (\<lambda>_.
     and_then (ok_or (u64_try_from (length bs)) ArithmeticOverflow) (\<lambda>content_size.
     and_then (final_result_content_digest sha bs) (\<lambda>verified_content.
     and_then (drift FinalResultContent (verified_content \<noteq> ci_claimed_content_digest c)) (\<lambda>_.
     and_then (commitment_new FinalResult
       (Memfd content_size verified_content
          \<lparr>ms_grow = Present, ms_shrink = Present, ms_write = Present, ms_further_seals = Present\<rparr>)
       \<lparr>fs_access = ReadOnly, fs_nonblocking = False, fs_close_on_exec = True\<rparr>) (\<lambda>final_result.
     and_then (frame_new (closed_result_input c final_result)) (\<lambda>frame.
     and_then (encode_raw_frame frame) (\<lambda>canonical_raw.
     and_then (drift ClosedResultFrame (canonical_raw \<noteq> ci_raw_frame c)) (\<lambda>_.
     and_then (prepare_transcript_bytes (ci_session_id c) 1
                (ci_claimed_generator_bound_digest c) frame) (\<lambda>transcript.
     and_then (drift ClosedResultFrame (length transcript \<noteq> 380)) (\<lambda>_.
     Inr \<lparr>vc_claimed_generator_bound_digest = ci_claimed_generator_bound_digest c,
          vc_terminal_worker_digest = ci_terminal_worker_digest c,
          vc_verified_content_digest = verified_content, vc_transcript = transcript\<rparr>))))))))))"

record MatchedClosedResultClaims =
  mc_terminal_worker_digest :: bytes
  mc_verified_content_digest :: bytes

definition join_expected_generator_bound ::
    "VerifiedClosedResultClaims \<Rightarrow> bytes \<Rightarrow> WireError + MatchedClosedResultClaims" where
  "join_expected_generator_bound v expected =
     and_then (drift ClosedResultFrame (expected \<noteq> vc_claimed_generator_bound_digest v)) (\<lambda>_.
     Inr \<lparr>mc_terminal_worker_digest = vc_terminal_worker_digest v,
          mc_verified_content_digest = vc_verified_content_digest v\<rparr>)"

section \<open>The outbound frame and the wait for its result\<close>

record GeneratorBoundOutbound =
  go_session :: GeneratorPeerSession
  go_raw_frame :: bytes
  go_expected_digest :: bytes

definition generator_bound_outbound_prepare ::
    "(bytes \<Rightarrow> bytes) \<Rightarrow> GeneratorPeerSession \<Rightarrow> bytes \<Rightarrow> PeerCredentials \<Rightarrow> WireError + GeneratorBoundOutbound" where
  "generator_bound_outbound_prepare sha g body credentials =
     and_then (encode_generator_bound_raw_frame sha (gs_session g) body) (\<lambda>raw_frame.
     and_then (frame_new (generator_bound_input sha (gs_session g) body credentials)) (\<lambda>frame.
     and_then (generator_bound_candidate_prepare sha (gs_session g) frame) (\<lambda>candidate.
     and_then (encode_raw_frame frame) (\<lambda>encoded.
     and_then (drift GeneratorBoundFrame (encoded \<noteq> raw_frame)) (\<lambda>_.
     Inr \<lparr>go_session = g, go_raw_frame = raw_frame, go_expected_digest = gc_digest candidate\<rparr>)))))"

record AwaitClosedResult =
  aw_session :: GeneratorPeerSession
  aw_expected_digest :: bytes

definition into_await_closed_result :: "GeneratorBoundOutbound \<Rightarrow> AwaitClosedResult" where
  "into_await_closed_result g =
     \<lparr>aw_session = go_session g, aw_expected_digest = go_expected_digest g\<rparr>"

definition verify_observed_closed_result ::
    "(bytes \<Rightarrow> bytes) \<Rightarrow> AwaitClosedResult \<Rightarrow> ClosedResultInboundInput \<Rightarrow> bytes
      \<Rightarrow> WireError + MatchedClosedResultClaims" where
  "verify_observed_closed_result sha a i content =
     and_then (validate_closed_result_inbound (aw_session a) i) (\<lambda>inbound.
     and_then (verify_final_result_content sha inbound content) (\<lambda>claims.
     join_expected_generator_bound claims (aw_expected_digest a)))"

section \<open>Closed results\<close>

definition closed_frame ::
    "ProviderSession \<Rightarrow> bytes \<Rightarrow> bytes \<Rightarrow> u64 \<Rightarrow> bytes \<Rightarrow> PeerCredentials \<Rightarrow> WireFrame" where
  "closed_frame s previous terminal len content creds =
     frame_of \<lparr>fi_direction = SupervisorToGenerator, fi_ordinal = 1, fi_phase = Closed,
       fi_session_id = pv_session_id s, fi_previous_hash = previous,
       fi_body = closed_result_bytes s terminal content, fi_credentials = creds,
       fi_fd_commitments = [final_result_fd len content], fi_ancillary = ancillary_canonical 1\<rparr>"

definition closed_fields :: "ProviderSession \<Rightarrow> bytes \<Rightarrow> bytes \<Rightarrow> bytes \<Rightarrow> bytes list" where
  "closed_fields s previous terminal content =
     [FRAME_MAGIC, u16_to_le FRAME_VERSION, [direction_code SupervisorToGenerator], [1],
      [wire_code Closed], u32_to_le 136, pv_session_id s, previous, [1], [9],
      u16_to_le 36, CLOSED_RESULT_BODY_DOMAIN, u16_to_le FRAME_VERSION, pv_request_commitment s,
      terminal, content]"

lemma closed_frame_raw:
  assumes "session_wf s" "length terminal = 32" "length content = 32"
  shows "raw_bytes (closed_frame s previous terminal len content creds)
    = concat (closed_fields s previous terminal content)"
  using assms
  by (simp add: closed_frame_def raw_bytes_def frame_of_def encode_raw_frame_parts_def closed_fields_def
      closed_result_bytes_def final_result_fd_ok session_wf_def)

lemma closed_raw_slices:
  assumes "session_wf s" "length previous = 32" "length terminal = 32" "length content = 32"
  shows "raw = concat (closed_fields s previous terminal content) \<longleftrightarrow>
    slice raw 0 8 = FRAME_MAGIC \<and> slice raw 8 10 = u16_to_le FRAME_VERSION
    \<and> slice raw 10 11 = [direction_code SupervisorToGenerator] \<and> slice raw 11 12 = [1]
    \<and> slice raw 12 13 = [wire_code Closed] \<and> slice raw 13 17 = u32_to_le 136
    \<and> slice raw 17 49 = pv_session_id s \<and> slice raw 49 81 = previous \<and> slice raw 81 82 = [1]
    \<and> slice raw 82 83 = [9] \<and> slice raw 83 85 = u16_to_le 36
    \<and> slice raw 85 121 = CLOSED_RESULT_BODY_DOMAIN \<and> slice raw 121 123 = u16_to_le FRAME_VERSION
    \<and> slice raw 123 155 = pv_request_commitment s \<and> slice raw 155 187 = terminal
    \<and> slice raw 187 219 = content \<and> length raw = 219"
  unfolding string_slices
  using assms
  by (simp add: closed_fields_def session_wf_def eq_commute [of 219] del: add_2_eq_Suc add_2_eq_Suc')

lemma closed_inbound_iff:
  assumes "session_wf (gs_session g)" "length (ci_received_raw_frame i) = 219"
  shows "validate_closed_result_inbound g i = Inr c \<longleftrightarrow>
    ci_actual_rights_count i = 1
    \<and> (\<exists>previous terminal content. length previous = 32 \<and> length terminal = 32 \<and> length content = 32
        \<and> ci_received_raw_frame i = concat (closed_fields (gs_session g) previous terminal content)
        \<and> c = \<lparr>ci_raw_frame = ci_received_raw_frame i, ci_credentials = ci_observed_credentials i,
               ci_session_id = pv_session_id (gs_session g),
               ci_claimed_generator_bound_digest = previous, ci_terminal_worker_digest = terminal,
               ci_claimed_content_digest = content\<rparr>)"
proof -
  let ?raw = "ci_received_raw_frame i"
  have domain: "u16_try_from 36 = Some 36" by (simp add: try_from_counts)
  have bytes: "slice ?raw 10 11 = [x] \<longleftrightarrow> ?raw ! 10 = x" "slice ?raw 11 12 = [x] \<longleftrightarrow> ?raw ! 11 = x"
    "slice ?raw 12 13 = [x] \<longleftrightarrow> ?raw ! 12 = x" "slice ?raw 81 82 = [x] \<longleftrightarrow> ?raw ! 81 = x"
    "slice ?raw 82 83 = [x] \<longleftrightarrow> ?raw ! 82 = x" for x
    using byte_slice [of ?raw 10 x] byte_slice [of ?raw 11 x] byte_slice [of ?raw 12 x]
      byte_slice [of ?raw 81 x] byte_slice [of ?raw 82 x] assms(2)
    by simp_all
  have body: "unat w = 136 \<longleftrightarrow> w = 136" for w :: u32 by (simp add: word_unat_eq_iff)
  have lens: "length (slice ?raw 49 81) = 32" "length (slice ?raw 155 187) = 32" "length (slice ?raw 187 219) = 32"
    using assms(2) by simp_all
  have "validate_closed_result_inbound g i = Inr c \<longleftrightarrow>
      ci_actual_rights_count i = 1
      \<and> ?raw = concat (closed_fields (gs_session g) (slice ?raw 49 81) (slice ?raw 155 187) (slice ?raw 187 219))
      \<and> c = \<lparr>ci_raw_frame = ?raw, ci_credentials = ci_observed_credentials i,
             ci_session_id = pv_session_id (gs_session g),
             ci_claimed_generator_bound_digest = slice ?raw 49 81,
             ci_terminal_worker_digest = slice ?raw 155 187,
             ci_claimed_content_digest = slice ?raw 187 219\<rparr>"
    unfolding closed_raw_slices [OF assms(1) lens]
    using assms(2)
    by (auto simp: validate_closed_result_inbound_def Let_def domain bytes body usize_limit_def
        body_size_defs simp del: add_2_eq_Suc add_2_eq_Suc')
  also have "\<dots> \<longleftrightarrow> ci_actual_rights_count i = 1
    \<and> (\<exists>previous terminal content. length previous = 32 \<and> length terminal = 32 \<and> length content = 32
        \<and> ?raw = concat (closed_fields (gs_session g) previous terminal content)
        \<and> c = \<lparr>ci_raw_frame = ?raw, ci_credentials = ci_observed_credentials i,
               ci_session_id = pv_session_id (gs_session g),
               ci_claimed_generator_bound_digest = previous, ci_terminal_worker_digest = terminal,
               ci_claimed_content_digest = content\<rparr>)"
    using lens closed_raw_slices [OF assms(1)] by metis
  finally show ?thesis .
qed

lemma closed_frame_facts:
  assumes "session_wf s" "length previous = 32" "length terminal = 32" "length content = 32"
  shows "frame_ok (closed_frame s previous terminal len content creds)"
    "frame_wf (closed_frame s previous terminal len content creds)"
    "length (transcript_bytes (closed_frame s previous terminal len content creds)) = 380"
proof -
  let ?f = "closed_frame s previous terminal len content creds"
  show ok: "frame_ok ?f"
    unfolding closed_frame_def
    by (rule frame_of_ok)
      (use assms in \<open>simp add: input_ok_def fds_ok_def final_result_fd_ok closed_result_bytes_def session_wf_def\<close>)
  show wf: "frame_wf ?f"
    using assms by (simp add: closed_frame_def frame_of_def frame_wf_def final_result_fd_ok session_wf_def)
  have "length (raw_bytes ?f) = 219"
    using length_raw_bytes [OF ok wf] assms
    by (simp add: closed_frame_def frame_of_def final_result_fd_ok closed_result_bytes_def session_wf_def)
  then show "length (transcript_bytes ?f) = 380"
    using assms
    by (simp add: transcript_bytes_def)
      (simp add: closed_frame_def frame_of_def transcript_record_def length_admitted final_result_fd_ok)
qed

lemma verify_content_iff:
  assumes "digests_32 sha" "session_wf s" "length previous = 32" "length terminal = 32" "length content = 32"
    and c: "c = \<lparr>ci_raw_frame = concat (closed_fields s previous terminal content), ci_credentials = creds,
               ci_session_id = pv_session_id s, ci_claimed_generator_bound_digest = previous,
               ci_terminal_worker_digest = terminal, ci_claimed_content_digest = content\<rparr>"
  shows "verify_final_result_content sha c bs = Inr v \<longleftrightarrow>
    bs \<noteq> [] \<and> length bs \<le> 1048576 \<and> sha bs = content
    \<and> v = \<lparr>vc_claimed_generator_bound_digest = previous, vc_terminal_worker_digest = terminal,
          vc_verified_content_digest = content,
          vc_transcript = transcript_bytes (closed_frame s previous terminal (word_of_nat (length bs)) content creds)\<rparr>"
proof (cases "bs \<noteq> [] \<and> length bs \<le> 1048576 \<and> sha bs = content")
  case True
  let ?n = "word_of_nat (length bs) :: u64"
  let ?f = "closed_frame s previous terminal ?n content creds"
  have content: "final_result_content_digest sha bs = Inr content"
    using True by (simp add: final_result_content_digest_def drift_def body_size_defs)
  have size: "u64_try_from (length bs) = Some ?n" using True by (simp add: u64_try_from_def)
  have fd: "commitment_new FinalResult
       (Memfd ?n content \<lparr>ms_grow = Present, ms_shrink = Present, ms_write = Present, ms_further_seals = Present\<rparr>)
       \<lparr>fs_access = ReadOnly, fs_nonblocking = False, fs_close_on_exec = True\<rparr> = Inr (final_result_fd ?n content)"
    unfolding commitment_new_iff using final_result_fd_ok(1) [of ?n content] by (simp add: final_result_fd_def)
  have "drop 83 (concat (closed_fields s previous terminal content)) = closed_result_bytes s terminal content"
    using assms(2,3) by (simp add: closed_fields_def closed_result_bytes_def session_wf_def)
  then have input: "frame_of (closed_result_input c (final_result_fd ?n content)) = ?f"
    "input_ok (closed_result_input c (final_result_fd ?n content))"
    using assms(2,4,5)
    by (simp_all add: closed_result_input_def c closed_frame_def input_ok_def fds_ok_def final_result_fd_ok
        closed_result_bytes_def session_wf_def)
  then have frame: "frame_new (closed_result_input c (final_result_fd ?n content)) = Inr ?f"
    by (simp add: frame_new_iff)
  note facts = closed_frame_facts [OF assms(2-5), of ?n creds]
  have raw: "encode_raw_frame ?f = Inr (ci_raw_frame c)"
    using facts(1) by (simp add: encode_raw_frame_iff c closed_frame_raw assms)
  have transcript: "prepare_transcript_bytes (ci_session_id c) 1 previous ?f = Inr (transcript_bytes ?f)"
    unfolding prepare_transcript_iff [OF facts(2)]
    using facts(1) by (simp add: c closed_frame_def frame_of_def)
  have fields: "ci_claimed_content_digest c = content" "ci_claimed_generator_bound_digest c = previous"
    "ci_terminal_worker_digest c = terminal"
    by (simp_all add: c)
  show ?thesis
    using True facts(3)
    by (auto simp: verify_final_result_content_def content size fd frame raw transcript body_size_defs fields)
next
  case False
  then show ?thesis
    by (auto simp: verify_final_result_content_def final_result_content_digest_def body_size_defs c)
qed

lemma closed_result_iff:
  assumes "digests_32 sha" "session_wf (gs_session (aw_session a))" "length (aw_expected_digest a) = 32"
    and "length (ci_received_raw_frame i) = 219"
  shows "verify_observed_closed_result sha a i content = Inr m \<longleftrightarrow>
    ci_actual_rights_count i = 1 \<and> content \<noteq> [] \<and> length content \<le> 1048576
    \<and> (\<exists>terminal. length terminal = 32
        \<and> ci_received_raw_frame i = raw_bytes (closed_frame (gs_session (aw_session a)) (aw_expected_digest a)
            terminal (word_of_nat (length content)) (sha content) (ci_observed_credentials i))
        \<and> m = \<lparr>mc_terminal_worker_digest = terminal, mc_verified_content_digest = sha content\<rparr>)"
proof
  let ?s = "gs_session (aw_session a)"
  assume "verify_observed_closed_result sha a i content = Inr m"
  then obtain c v where c: "validate_closed_result_inbound (aw_session a) i = Inr c"
    and v: "verify_final_result_content sha c content = Inr v"
    and m: "join_expected_generator_bound v (aw_expected_digest a) = Inr m"
    by (auto simp: verify_observed_closed_result_def)
  then obtain previous terminal claimed where parts: "ci_actual_rights_count i = 1" "length previous = 32"
    "length terminal = 32" "length claimed = 32"
    "ci_received_raw_frame i = concat (closed_fields ?s previous terminal claimed)"
    "c = \<lparr>ci_raw_frame = concat (closed_fields ?s previous terminal claimed),
          ci_credentials = ci_observed_credentials i, ci_session_id = pv_session_id ?s,
          ci_claimed_generator_bound_digest = previous, ci_terminal_worker_digest = terminal,
          ci_claimed_content_digest = claimed\<rparr>"
    unfolding closed_inbound_iff [OF assms(2,4)] by auto
  note content = v [unfolded verify_content_iff [OF assms(1,2) parts(2-4,6)]]
  then have "aw_expected_digest a = previous"
    "m = \<lparr>mc_terminal_worker_digest = terminal, mc_verified_content_digest = sha content\<rparr>"
    using m by (auto simp: join_expected_generator_bound_def)
  then show "ci_actual_rights_count i = 1 \<and> content \<noteq> [] \<and> length content \<le> 1048576
    \<and> (\<exists>terminal. length terminal = 32
        \<and> ci_received_raw_frame i = raw_bytes (closed_frame ?s (aw_expected_digest a)
            terminal (word_of_nat (length content)) (sha content) (ci_observed_credentials i))
        \<and> m = \<lparr>mc_terminal_worker_digest = terminal, mc_verified_content_digest = sha content\<rparr>)"
    using content parts closed_frame_raw [OF assms(2) parts(3,4)] by auto
next
  let ?s = "gs_session (aw_session a)"
  assume "ci_actual_rights_count i = 1 \<and> content \<noteq> [] \<and> length content \<le> 1048576
    \<and> (\<exists>terminal. length terminal = 32
        \<and> ci_received_raw_frame i = raw_bytes (closed_frame ?s (aw_expected_digest a)
            terminal (word_of_nat (length content)) (sha content) (ci_observed_credentials i))
        \<and> m = \<lparr>mc_terminal_worker_digest = terminal, mc_verified_content_digest = sha content\<rparr>)"
  then obtain terminal where t: "ci_actual_rights_count i = 1" "content \<noteq> []" "length content \<le> 1048576"
    "length terminal = 32"
    "ci_received_raw_frame i = raw_bytes (closed_frame ?s (aw_expected_digest a)
        terminal (word_of_nat (length content)) (sha content) (ci_observed_credentials i))"
    "m = \<lparr>mc_terminal_worker_digest = terminal, mc_verified_content_digest = sha content\<rparr>" by blast
  have digest: "length (sha content) = 32" using assms(1) by (simp add: digests_32_def)
  have raw: "ci_received_raw_frame i = concat (closed_fields ?s (aw_expected_digest a) terminal (sha content))"
    using t(5) closed_frame_raw [OF assms(2) t(4) digest] by simp
  let ?c = "\<lparr>ci_raw_frame = concat (closed_fields ?s (aw_expected_digest a) terminal (sha content)),
          ci_credentials = ci_observed_credentials i, ci_session_id = pv_session_id ?s,
          ci_claimed_generator_bound_digest = aw_expected_digest a, ci_terminal_worker_digest = terminal,
          ci_claimed_content_digest = sha content\<rparr>"
  have "validate_closed_result_inbound (aw_session a) i = Inr ?c"
    unfolding closed_inbound_iff [OF assms(2,4)] using t(1,4) digest assms(3) raw by auto
  moreover have "verify_final_result_content sha ?c content
      = Inr \<lparr>vc_claimed_generator_bound_digest = aw_expected_digest a, vc_terminal_worker_digest = terminal,
          vc_verified_content_digest = sha content,
          vc_transcript = transcript_bytes (closed_frame ?s (aw_expected_digest a) terminal
            (word_of_nat (length content)) (sha content) (ci_observed_credentials i))\<rparr>"
    unfolding verify_content_iff [OF assms(1,2,3) t(4) digest refl] using t(2,3) by simp
  ultimately show "verify_observed_closed_result sha a i content = Inr m"
    by (simp add: verify_observed_closed_result_def join_expected_generator_bound_def t(6) drift_def)
qed

definition generator_bound_frame ::
    "(bytes \<Rightarrow> bytes) \<Rightarrow> ProviderSession \<Rightarrow> bytes \<Rightarrow> PeerCredentials \<Rightarrow> WireFrame" where
  "generator_bound_frame sha s body creds = frame_of (generator_bound_input sha s body creds)"

lemma generator_bound_frame_facts:
  assumes "digests_32 sha" "session_wf s" "length body = 234"
  shows "frame_ok (generator_bound_frame sha s body creds)" "frame_wf (generator_bound_frame sha s body creds)"
proof -
  show "frame_ok (generator_bound_frame sha s body creds)"
    unfolding generator_bound_frame_def by (rule frame_of_ok) (simp add: child_inputs_ok assms)
  have "length (generator_genesis sha b) = 32" for b
    using assms(1) by (simp add: generator_genesis_def digests_32_def)
  then show "frame_wf (generator_bound_frame sha s body creds)"
    using assms(2)
    by (simp add: frame_wf_def generator_bound_frame_def frame_of_def generator_bound_input_def session_wf_def)
qed

lemma outbound_iff:
  assumes "digests_32 sha" "session_wf (gs_session g)" "length body = 234"
  shows "generator_bound_outbound_prepare sha g body creds = Inr out \<longleftrightarrow>
    generator_bound_validate_session body (gs_session g) = Inr ()
    \<and> out = \<lparr>go_session = g, go_raw_frame = raw_bytes (generator_bound_frame sha (gs_session g) body creds),
            go_expected_digest = sha (transcript_bytes (generator_bound_frame sha (gs_session g) body creds))\<rparr>"
proof (cases "generator_bound_validate_session body (gs_session g) = Inr ()")
  case True
  let ?s = "gs_session g"
  let ?f = "generator_bound_frame sha ?s body creds"
  note facts = generator_bound_frame_facts [OF assms, of creds]
  have raw: "encode_generator_bound_raw_frame sha ?s body = Inr (raw_bytes ?f)"
    using True by (simp add: generator_bound_raw_iff [OF assms, of _ creds] generator_bound_frame_def)
  have new: "frame_new (generator_bound_input sha ?s body creds) = Inr ?f"
    using assms(3) by (simp add: frame_new_iff child_inputs_ok generator_bound_frame_def)
  have encode: "encode_raw_frame ?f = Inr (raw_bytes ?f)" using facts(1) by (simp add: encode_raw_frame_iff)
  have fields: "wf_direction ?f = GeneratorToSupervisor" "wf_ordinal ?f = 0" "wf_phase ?f = GeneratorBound"
    "wf_fd_commitments ?f = []" "length (wf_body ?f) = 234" "wf_session_id ?f = pv_session_id ?s"
    "wf_previous_hash ?f = generator_genesis sha (binding_from_session ?s)"
    using assms(3) by (simp_all add: generator_bound_frame_def frame_of_def generator_bound_input_def)
  have "prepare_transcript_bytes (pv_session_id ?s) 0 (generator_genesis sha (binding_from_session ?s)) ?f
      = Inr (transcript_bytes ?f)"
    unfolding prepare_transcript_iff [OF facts(2)] using facts(1) fields by simp
  moreover have "sb_session_id (binding_from_session ?s) = pv_session_id ?s"
    by (simp add: binding_from_session_def)
  ultimately have candidate: "\<exists>c. generator_bound_candidate_prepare sha ?s ?f = Inr c \<and> gc_digest c = sha (transcript_bytes ?f)"
    by (simp add: generator_bound_candidate_prepare_def fields drift_def Let_def body_size_defs)
  show ?thesis
    using True candidate by (auto simp: generator_bound_outbound_prepare_def raw new encode)
next
  case False
  then show ?thesis
    by (auto simp: generator_bound_outbound_prepare_def encode_generator_bound_raw_frame_def)
qed

section \<open>Properties\<close>

text \<open>
  C10. After a \<open>GeneratorBound\<close> frame was prepared, the generator accepts a closed result exactly when one
  descriptor arrived, the physical content has between one byte and one mebibyte, and the raw
  frame is the encoding of the closed frame of its own session whose body commits to the digest of
  that content and whose previous digest is the digest of its own credential-bound transcript. The
  body is the one the supervisor's constructor makes, and the claims returned are the frame's
  terminal worker digest and the digest of the content.
\<close>

theorem closed_result_exact:
  assumes "digests_32 sha" "session_wf (gs_session g)" "length body = 234"
    and "generator_bound_outbound_prepare sha g body creds = Inr out"
    and "length (ci_received_raw_frame i) = 219"
  shows "verify_observed_closed_result sha (into_await_closed_result out) i content = Inr m \<longleftrightarrow>
    ci_actual_rights_count i = 1 \<and> content \<noteq> [] \<and> length content \<le> 1048576
    \<and> (\<exists>terminal. length terminal = 32
        \<and> closed_result_body_new (gs_session g) terminal
            (final_result_fd (word_of_nat (length content)) (sha content))
          = Inr (closed_result_bytes (gs_session g) terminal (sha content))
        \<and> encode_raw_frame (closed_frame (gs_session g)
              (sha (transcript_bytes (generator_bound_frame sha (gs_session g) body creds)))
              terminal (word_of_nat (length content)) (sha content) (ci_observed_credentials i))
          = Inr (ci_received_raw_frame i)
        \<and> m = \<lparr>mc_terminal_worker_digest = terminal, mc_verified_content_digest = sha content\<rparr>)"
proof -
  let ?expected = "sha (transcript_bytes (generator_bound_frame sha (gs_session g) body creds))"
  have await: "gs_session (aw_session (into_await_closed_result out)) = gs_session g"
    "aw_expected_digest (into_await_closed_result out) = ?expected"
    using assms(4) outbound_iff [OF assms(1-3)] by (simp_all add: into_await_closed_result_def)
  have digests: "length (sha x) = 32" for x using assms(1) by (simp add: digests_32_def)
  have frames: "encode_raw_frame (closed_frame (gs_session g) ?expected terminal n (sha content) c)
      = Inr (raw_bytes (closed_frame (gs_session g) ?expected terminal n (sha content) c))"
    if "length terminal = 32" for terminal n c
    using that closed_frame_facts(1) [OF assms(2) digests that digests] by (simp add: encode_raw_frame_iff)
  have bodies: "closed_result_body_new (gs_session g) terminal (final_result_fd (word_of_nat (length content)) (sha content))
      = Inr (closed_result_bytes (gs_session g) terminal (sha content))"
    if "length terminal = 32" "content \<noteq> []" "length content \<le> 1048576" for terminal
  proof -
    have "unat (word_of_nat (length content) :: u64) = length content"
      using that(3) by (simp add: unat_of_nat)
    moreover have wf: "commitment_wf (final_result_fd (word_of_nat (length content)) (sha content))"
      by (simp add: final_result_fd_ok digests)
    ultimately show ?thesis
      unfolding closed_result_body_iff [OF assms(2) that(1) wf]
      using that(2,3) by (intro exI [of _ "word_of_nat (length content)"] exI [of _ "sha content"]) simp
  qed
  show ?thesis
    using closed_result_iff [of sha "into_await_closed_result out" i content m] assms(1,2,5) digests await
      frames bodies
    by (auto 0 3)
qed

lemma closed_result_exact_witness:
  "\<exists>out raw m. generator_bound_outbound_prepare sample_digest
        (peer_of_share sample_digest (facts_local sample_digest sample_facts)
          (facts_endpoint sample_digest sample_facts EpGenerator)
          (facts_share sample_digest sample_facts sample_namespace))
        (generator_bound_bytes (session_value sample_digest sample_facts) (replicate 32 1) (replicate 32 2) (replicate 32 3))
        sample_credentials = Inr out
     \<and> verify_observed_closed_result sample_digest (into_await_closed_result out)
         \<lparr>ci_received_raw_frame = raw, ci_actual_rights_count = 1, ci_observed_credentials = sample_credentials\<rparr>
         [1, 2, 3] = Inr m \<and> mc_verified_content_digest m = sample_digest [1, 2, 3]"
proof -
  let ?g = "peer_of_share sample_digest (facts_local sample_digest sample_facts)
    (facts_endpoint sample_digest sample_facts EpGenerator) (facts_share sample_digest sample_facts sample_namespace)"
  let ?s = "session_value sample_digest sample_facts"
  let ?body = "generator_bound_bytes ?s (replicate 32 1) (replicate 32 2) (replicate 32 3)"
  have s: "gs_session ?g = ?s" by (simp add: peer_of_share_def facts_share_values)
  have wf: "session_wf ?s" by (rule facts_session_wf) (simp_all add: sample_facts_ok)
  then have len: "length ?body = 234" by (simp add: generator_bound_bytes_def session_wf_def)
  have "generator_bound_validate_session ?body ?s = Inr ()" by (rule generator_bound_session_slices [OF wf])
  then obtain out where out: "generator_bound_outbound_prepare sample_digest ?g ?body sample_credentials = Inr out"
    using outbound_iff [of sample_digest ?g ?body sample_credentials] wf len by (auto simp: s)
  let ?f = "closed_frame ?s (sample_digest (transcript_bytes (generator_bound_frame sample_digest ?s ?body sample_credentials)))
    (replicate 32 4) 3 (sample_digest [1, 2, 3]) sample_credentials"
  let ?i = "\<lparr>ci_received_raw_frame = raw_bytes ?f, ci_actual_rights_count = 1, ci_observed_credentials = sample_credentials\<rparr>"
  have digest: "length (sample_digest x) = 32" for x using sample_digest_32 by (simp add: digests_32_def)
  note f = closed_frame_facts [OF wf digest _ digest, where terminal = "replicate 32 4" and len = 3
      and creds = sample_credentials]
  have "length (raw_bytes ?f) = 219"
    using length_raw_bytes [OF f(1,2)] wf digest
    by (simp add: closed_frame_def frame_of_def final_result_fd_ok closed_result_bytes_def session_wf_def)
  moreover have "closed_result_body_new ?s (replicate 32 4) (final_result_fd 3 (sample_digest [1, 2, 3]))
      = Inr (closed_result_bytes ?s (replicate 32 4) (sample_digest [1, 2, 3]))"
    by (subst closed_result_body_iff [OF wf]) (auto simp: final_result_fd_ok digest intro!: exI [of _ 3])
  moreover have "encode_raw_frame ?f = Inr (raw_bytes ?f)" using f(1) by (simp add: encode_raw_frame_iff)
  ultimately have "verify_observed_closed_result sample_digest (into_await_closed_result out) ?i [1, 2, 3]
      = Inr \<lparr>mc_terminal_worker_digest = replicate 32 4, mc_verified_content_digest = sample_digest [1, 2, 3]\<rparr>"
    using closed_result_exact [OF sample_digest_32 _ len out, of ?i "[1, 2, 3]"
        "\<lparr>mc_terminal_worker_digest = replicate 32 4, mc_verified_content_digest = sample_digest [1, 2, 3]\<rparr>"] wf
    by (auto simp: s)
  with out show ?thesis by (intro exI conjI) (assumption | simp)+
qed

end
