(* ===== verification/WireWorker.thy ===== *)
theory WireWorker
  imports WireClosedResult
begin

text \<open>
  The worker's side of a session (same source file): the parsers of the provider-session preimage
  and of the transfer manifest, the byte-exact reconstruction of the one bootstrap frame, the
  outbound \<open>WorkerExecBound\<close> frame and the streaming verifier of the transferred contents.
\<close>

section \<open>Parsers\<close>

definition provider_session_from_preimage ::
    "(bytes \<Rightarrow> bytes) \<Rightarrow> bytes \<Rightarrow> WireError + ProviderSession \<times> u32" where
  "provider_session_from_preimage sha bs =
     (let field = WorkerBootstrapFrame in
      and_then (drift field (length bs \<noteq> G0_PROVIDER_SESSION_PREIMAGE_BYTES)) (\<lambda>_.
      and_then (expect_range bs 0 28 field PROVIDER_SESSION_DOMAIN) (\<lambda>_.
      and_then (g0_u16_le bs 28 field) (\<lambda>protocol_length.
      and_then (drift field (unat protocol_length \<noteq> length SESSION_PROTOCOL_ID)) (\<lambda>_.
      and_then (expect_range bs 30 73 field SESSION_PROTOCOL_ID) (\<lambda>_.
      and_then (g0_fixed_bytes 32 bs 73 field) (\<lambda>request.
      and_then (g0_fixed_bytes 32 bs 233 field) (\<lambda>generator_nonce.
      and_then (g0_fixed_bytes 32 bs 265 field) (\<lambda>supervisor_nonce.
      and_then (g0_u32_le bs 297 field) (\<lambda>pid.
      and_then (g0_u64_le bs 301 field) (\<lambda>epoch.
      and_then (drift field (pid = 0 \<or> epoch = 0)) (\<lambda>_.
      and_then (map_err (\<lambda>_. G0ContractDrift field)
        (nonce_commitment_from_digest sha NonceGenerator request generator_nonce)) (\<lambda>gen.
      and_then (map_err (\<lambda>_. G0ContractDrift field)
        (nonce_commitment_from_digest sha NonceSupervisor request supervisor_nonce)) (\<lambda>sup.
      and_then (g0_fixed_bytes 32 bs 309 field) (\<lambda>generator_channel.
      and_then (g0_fixed_bytes 32 bs 341 field) (\<lambda>worker_channel.
      Inr (\<lparr>pv_preimage = bs, pv_session_id = sha bs, pv_request_commitment = request,
            pv_generator_nonce_commitment = gen, pv_supervisor_nonce_commitment = sup,
            pv_generator_channel = generator_channel, pv_worker_channel = worker_channel\<rparr>, pid)))))))))))))))))"

definition manifest_role_shape ::
    "FdRole \<Rightarrow> WireError + nat \<times> nat \<times> MemfdSeals \<times> FdStatus" where
  "manifest_role_shape role =
     (case role of
        Observation \<Rightarrow>
          Inr (49, 1, \<lparr>ms_grow = Present, ms_shrink = Present, ms_write = Absent, ms_further_seals = Absent\<rparr>,
               \<lparr>fs_access = ReadWrite, fs_nonblocking = False, fs_close_on_exec = True\<rparr>)
      | CampaignInput _ \<Rightarrow>
          Inr (50, 2, \<lparr>ms_grow = Present, ms_shrink = Present, ms_write = Present, ms_further_seals = Present\<rparr>,
               \<lparr>fs_access = ReadOnly, fs_nonblocking = False, fs_close_on_exec = True\<rparr>)
      | _ \<Rightarrow> Inl (G0ContractDrift WorkerBootstrapFrame))"

definition worker_manifest_memfd :: "bytes \<Rightarrow> FdRole \<Rightarrow> WireError + FdCommitment" where
  "worker_manifest_memfd bs role =
     (let field = WorkerBootstrapFrame in
      and_then (manifest_role_shape role) (\<lambda>(encoded_length, identity_offset, seals, status).
      and_then (drift field (length bs \<noteq> encoded_length)) (\<lambda>_.
      and_then (expect_byte bs identity_offset field 2) (\<lambda>_.
      and_then (ok_or (checked_add_usize identity_offset 1) ArithmeticOverflow) (\<lambda>size_offset.
      and_then (ok_or (checked_add_usize size_offset 8) ArithmeticOverflow) (\<lambda>digest_offset.
      and_then (g0_u64_le bs size_offset field) (\<lambda>content_size.
      and_then (g0_fixed_bytes 32 bs digest_offset field) (\<lambda>content_digest.
      and_then (map_err (\<lambda>_. G0ContractDrift field)
        (commitment_new role (Memfd content_size content_digest seals) status)) (\<lambda>commitment.
      and_then (encode_fd_commitment commitment) (\<lambda>encoded.
      and_then (drift field (encoded \<noteq> bs)) (\<lambda>_.
      Inr commitment)))))))))))"

fun manifest_inputs_from_raw :: "bytes \<Rightarrow> nat \<Rightarrow> nat \<Rightarrow> WireError + FdCommitment list" where
  "manifest_inputs_from_raw bs index 0 = Inr []"
| "manifest_inputs_from_raw bs index (Suc remaining) =
     (let field = WorkerBootstrapFrame in
      and_then (ok_or (checked_mul_usize index 53) ArithmeticOverflow) (\<lambda>offset.
      and_then (ok_or (checked_add_usize 99 offset) ArithmeticOverflow) (\<lambda>start.
      and_then (ok_or (checked_add_usize start 53) ArithmeticOverflow) (\<lambda>end_offset.
      and_then (ok_or (get_range bs start end_offset) (G0ContractDrift field)) (\<lambda>rec.
      and_then (ok_or (u8_try_from (5 + index)) ArithmeticOverflow) (\<lambda>slot.
      and_then (expect_byte rec 0 field slot) (\<lambda>_.
      and_then (expect_u16 rec 1 field 50) (\<lambda>_.
      and_then (ok_or (u8_try_from index) ArithmeticOverflow) (\<lambda>n.
      and_then (worker_manifest_memfd (drop 3 rec) (CampaignInput n)) (\<lambda>c.
      and_then (manifest_inputs_from_raw bs (Suc index) remaining) (\<lambda>cs.
      Inr (c # cs))))))))))))"

definition worker_manifest_from_raw ::
    "(bytes \<Rightarrow> bytes) \<Rightarrow> bytes \<Rightarrow> nat \<Rightarrow> WireError + WorkerTransferManifest \<times> FdCommitment list" where
  "worker_manifest_from_raw sha bs campaign_count =
     (let field = WorkerBootstrapFrame in
      and_then (ok_or (checked_mul_usize campaign_count 53) ArithmeticOverflow) (\<lambda>records_length.
      and_then (ok_or (checked_add_usize 99 records_length) ArithmeticOverflow) (\<lambda>expected_length.
      and_then (drift field (length bs \<noteq> expected_length)) (\<lambda>_.
      and_then (g0_u16_le bs 0 field) (\<lambda>domain_length.
      and_then (drift field (unat domain_length \<noteq> length WORKER_TRANSFER_MANIFEST_DOMAIN)) (\<lambda>_.
      and_then (expect_range bs 2 44 field WORKER_TRANSFER_MANIFEST_DOMAIN) (\<lambda>_.
      and_then (expect_u16 bs 44 field FRAME_VERSION) (\<lambda>_.
      and_then (ok_or (get_index bs 46) (G0ContractDrift field)) (\<lambda>total_count.
      and_then (drift field (unat total_count \<noteq> campaign_count + 1)) (\<lambda>_.
      and_then (expect_byte bs 47 field 4) (\<lambda>_.
      and_then (expect_u16 bs 48 field 49) (\<lambda>_.
      and_then (ok_or (get_range bs 50 99) (G0ContractDrift field)) (\<lambda>observation_bytes.
      and_then (worker_manifest_memfd observation_bytes Observation) (\<lambda>observation.
      and_then (manifest_inputs_from_raw bs 0 campaign_count) (\<lambda>campaign_inputs.
      and_then (transfer_manifest_new sha observation campaign_inputs) (\<lambda>manifest.
      and_then (drift field (wm_bytes manifest \<noteq> bs)) (\<lambda>_.
      Inr (manifest, observation # campaign_inputs))))))))))))))))))"

section \<open>The bootstrap frame\<close>

record WorkerBootstrapInboundInput =
  wi_received_raw_frame :: bytes
  wi_actual_rights_count :: nat
  wi_observed_credentials :: PeerCredentials
  wi_local_worker_endpoint :: SeqpacketEndpoint
  wi_expected_outer_uid :: u32
  wi_expected_outer_gid :: u32

record WorkerBootstrapInbound =
  wc_session :: ProviderSession
  wc_bootstrap_digest :: bytes
  wc_receiver_user_namespace :: DescriptorIdentity
  wc_expected_outer_uid :: u32
  wc_expected_outer_gid :: u32
  wc_worker_initial_inventory :: ProcessInventory
  wc_worker_transfer_inventory :: ProcessInventory
  wc_worker_manifest :: WorkerTransferManifest
  wc_transfer_commitments :: "FdCommitment list"

text \<open>The lengths that the declared descriptor count fixes: of the manifest, body and frame.\<close>

definition bootstrap_lengths :: "nat \<Rightarrow> WireError + nat \<times> nat \<times> nat \<times> nat" where
  "bootstrap_lengths campaign_count =
     and_then (ok_or (checked_mul_usize campaign_count 53) ArithmeticOverflow) (\<lambda>records.
     and_then (ok_or (checked_add_usize 99 records) ArithmeticOverflow) (\<lambda>manifest_length.
     and_then (ok_or (checked_add_usize G0_WORKER_BOOTSTRAP_FIXED_BODY_BYTES manifest_length) ArithmeticOverflow) (\<lambda>body_length.
     and_then (ok_or (checked_mul_usize campaign_count 2) ArithmeticOverflow) (\<lambda>campaign_roles_length.
     and_then (ok_or (checked_add_usize 1 campaign_roles_length) ArithmeticOverflow) (\<lambda>roles_length.
     and_then (ok_or (checked_add_usize FRAME_FIXED_HEADER_BYTES roles_length) ArithmeticOverflow) (\<lambda>body_start.
     and_then (ok_or (checked_add_usize body_start body_length) ArithmeticOverflow) (\<lambda>raw_length.
     Inr (manifest_length, body_length, body_start, raw_length))))))))"

fun check_campaign_role_bytes :: "bytes \<Rightarrow> nat \<Rightarrow> nat \<Rightarrow> WireError + unit" where
  "check_campaign_role_bytes raw index 0 = Inr ()"
| "check_campaign_role_bytes raw index (Suc remaining) =
     (let field = WorkerBootstrapFrame in
      and_then (ok_or (checked_mul_usize index 2) ArithmeticOverflow) (\<lambda>offset.
      and_then (ok_or (checked_add_usize 83 offset) ArithmeticOverflow) (\<lambda>role_offset.
      and_then (expect_byte raw role_offset field 0) (\<lambda>_.
      and_then (ok_or (u8_try_from index) ArithmeticOverflow) (\<lambda>n.
      and_then (expect_byte raw (role_offset + 1) field n) (\<lambda>_.
      check_campaign_role_bytes raw (Suc index) remaining))))))"

definition check_bootstrap_header :: "bytes \<Rightarrow> nat \<Rightarrow> nat \<Rightarrow> WireError + unit" where
  "check_bootstrap_header raw body_length raw_length =
     (let field = WorkerBootstrapFrame in
      and_then (drift field (length raw \<noteq> raw_length)) (\<lambda>_.
      and_then (expect_range raw 0 8 field FRAME_MAGIC) (\<lambda>_.
      and_then (expect_u16 raw 8 field FRAME_VERSION) (\<lambda>_.
      and_then (expect_byte raw 10 field (direction_code SupervisorToWorker)) (\<lambda>_.
      and_then (expect_byte raw 11 field 0) (\<lambda>_.
      and_then (expect_byte raw 12 field (wire_code UserMapsVerified)) (\<lambda>_.
      and_then (g0_u32_le raw 13 field) (\<lambda>declared.
      and_then (drift field (unat declared \<noteq> body_length)) (\<lambda>_.
      expect_byte raw 82 field 8)))))))))"

definition check_bootstrap_domain :: "bytes \<Rightarrow> WireError + unit" where
  "check_bootstrap_domain body =
     (let field = WorkerBootstrapFrame in
      and_then (g0_u16_le body 0 field) (\<lambda>domain_length.
      and_then (drift field (unat domain_length \<noteq> length WORKER_BOOTSTRAP_BODY_DOMAIN)) (\<lambda>_.
      and_then (expect_range body 2 41 field WORKER_BOOTSTRAP_BODY_DOMAIN) (\<lambda>_.
      expect_u16 body 41 field FRAME_VERSION))))"

definition check_bootstrap_session ::
    "bytes \<Rightarrow> bytes \<Rightarrow> ProviderSession \<Rightarrow> u32 \<Rightarrow> WorkerBootstrapInboundInput \<Rightarrow> WireError + unit" where
  "check_bootstrap_session raw body session supervisor_pid i =
     (let field = WorkerBootstrapFrame in
      and_then (expect_range raw 17 49 field (pv_session_id session)) (\<lambda>_.
      and_then (expect_range body 448 480 field (pv_generator_nonce_commitment session)) (\<lambda>_.
      and_then (expect_range body 480 512 field (pv_supervisor_nonce_commitment session)) (\<lambda>_.
      and_then (drift field (pc_process_id (wi_observed_credentials i) \<noteq> supervisor_pid)) (\<lambda>_.
      and_then (drift field (pc_user_id (wi_observed_credentials i) \<noteq> 0)) (\<lambda>_.
      and_then (drift field (pc_group_id (wi_observed_credentials i) \<noteq> 0)) (\<lambda>_.
      and_then (drift field (ep_role (wi_local_worker_endpoint i) \<noteq> EpWorker)) (\<lambda>_.
      and_then (g0_u32_le body 568 field) (\<lambda>uid.
      and_then (drift field (uid \<noteq> wi_expected_outer_uid i)) (\<lambda>_.
      and_then (g0_u32_le body 572 field) (\<lambda>gid.
      drift field (gid \<noteq> wi_expected_outer_gid i))))))))))))"

definition worker_endpoint_fd :: "bytes \<Rightarrow> bool \<Rightarrow> WireError + FdCommitment" where
  "worker_endpoint_fd endpoint_digest close_on_exec =
     commitment_new WorkerEndpoint (SocketIdentity endpoint_digest)
       \<lparr>fs_access = SocketAccess, fs_nonblocking = False, fs_close_on_exec = close_on_exec\<rparr>"

fun number_entries :: "nat \<Rightarrow> FdCommitment list \<Rightarrow> WireError + InventoryEntry list" where
  "number_entries index [] = Inr []"
| "number_entries index (c # cs) =
     and_then (ok_or (u8_try_from (4 + index)) ArithmeticOverflow) (\<lambda>slot.
     and_then (number_entries (Suc index) cs) (\<lambda>rest. Inr ((slot, c) # rest)))"

definition bootstrap_input ::
    "ProviderSession \<Rightarrow> bytes \<Rightarrow> bytes \<Rightarrow> PeerCredentials \<Rightarrow> FdCommitment list \<Rightarrow> nat \<Rightarrow> FrameInput" where
  "bootstrap_input session previous body credentials commitments fd_count =
     \<lparr>fi_direction = SupervisorToWorker, fi_ordinal = 0, fi_phase = UserMapsVerified,
      fi_session_id = pv_session_id session, fi_previous_hash = previous, fi_body = body,
      fi_credentials = credentials, fi_fd_commitments = commitments,
      fi_ancillary = ancillary_canonical fd_count\<rparr>"

definition bootstrap_inbound_new ::
    "(bytes \<Rightarrow> bytes) \<Rightarrow> WorkerBootstrapInboundInput \<Rightarrow> WireError + WorkerBootstrapInbound" where
  "bootstrap_inbound_new sha i =
     (let field = WorkerBootstrapFrame; raw = wi_received_raw_frame i; local_endpoint = wi_local_worker_endpoint i in
      and_then (ok_or (get_index raw 81) (G0ContractDrift field)) (\<lambda>declared.
      let declared_fd_count = unat declared in
      and_then (drift field (declared_fd_count = 0 \<or> declared_fd_count > MAX_FRAME_FDS
        \<or> wi_actual_rights_count i \<noteq> declared_fd_count)) (\<lambda>_.
      let campaign_count = declared_fd_count - 1 in
      and_then (drift field (campaign_count > G0_MAX_INGRESS_COUNT)) (\<lambda>_.
      and_then (bootstrap_lengths campaign_count) (\<lambda>(manifest_length, body_length, body_start, raw_length).
      and_then (check_bootstrap_header raw body_length raw_length) (\<lambda>_.
      and_then (check_campaign_role_bytes raw 0 campaign_count) (\<lambda>_.
      and_then (ok_or (get_range raw body_start (length raw)) (G0ContractDrift field)) (\<lambda>body.
      and_then (check_bootstrap_domain body) (\<lambda>_.
      and_then (g0_fixed_bytes 32 body 43 field) (\<lambda>accepted.
      and_then (ok_or (get_range body 75 448) (G0ContractDrift field)) (\<lambda>preimage.
      and_then (provider_session_from_preimage sha preimage) (\<lambda>(session, supervisor_pid).
      and_then (check_bootstrap_session raw body session supervisor_pid i) (\<lambda>_.
      and_then (g0_fixed_bytes 32 body 512 field) (\<lambda>endpoint_digest.
      and_then (map_err (\<lambda>_. G0ContractDrift field)
        (channel_worker_child sha local_endpoint endpoint_digest session)) (\<lambda>_.
      and_then (g0_descriptor_identity body 544 field) (\<lambda>namespace.
      and_then (g0_u16_le body 640 field) (\<lambda>declared_manifest_length.
      and_then (drift field (unat declared_manifest_length \<noteq> manifest_length)) (\<lambda>_.
      and_then (ok_or (checked_add_usize 642 manifest_length) ArithmeticOverflow) (\<lambda>manifest_end.
      and_then (ok_or (get_range body 642 manifest_end) (G0ContractDrift field)) (\<lambda>manifest_raw.
      and_then (worker_manifest_from_raw sha manifest_raw campaign_count) (\<lambda>(manifest, commitments).
      and_then (expect_range body manifest_end (manifest_end + 32) field (wm_digest manifest)) (\<lambda>_.
      and_then (worker_endpoint_fd (ep_digest local_endpoint) False) (\<lambda>endpoint_initial.
      and_then (worker_endpoint_fd (ep_digest local_endpoint) True) (\<lambda>endpoint_transfer.
      and_then (process_inventory_new sha WorkerInitialPostExec [(3, endpoint_initial)]) (\<lambda>initial.
      and_then (number_entries 0 commitments) (\<lambda>entries.
      and_then (process_inventory_new sha WorkerExpectedPostTransfer ((3, endpoint_transfer) # entries)) (\<lambda>transfer.
      and_then (expect_range body 576 608 field (pi_digest initial)) (\<lambda>_.
      and_then (expect_range body 608 640 field (pi_digest transfer)) (\<lambda>_.
      and_then (push_lp16 WORKER_BOOTSTRAP_BODY_DOMAIN) (\<lambda>domain.
      and_then (ok_or (u16_try_from manifest_length) ArithmeticOverflow) (\<lambda>manifest_length16.
      let canonical_body = domain @ u16_to_le FRAME_VERSION @ accepted @ pv_preimage session
            @ pv_generator_nonce_commitment session @ pv_supervisor_nonce_commitment session
            @ endpoint_digest @ encode_descriptor_identity namespace
            @ u32_to_le (wi_expected_outer_uid i) @ u32_to_le (wi_expected_outer_gid i)
            @ pi_digest initial @ pi_digest transfer @ u16_to_le manifest_length16
            @ wm_bytes manifest @ wm_digest manifest in
      and_then (drift field (canonical_body \<noteq> body)) (\<lambda>_.
      let genesis = worker_genesis sha (binding_from_session session) accepted in
      and_then (frame_new (bootstrap_input session genesis canonical_body (wi_observed_credentials i)
        commitments declared_fd_count)) (\<lambda>frame.
      and_then (encode_raw_frame frame) (\<lambda>encoded.
      and_then (drift field (encoded \<noteq> raw)) (\<lambda>_.
      and_then (transcript_candidate_prepare sha session 0 genesis frame) (\<lambda>bootstrap.
      Inr \<lparr>wc_session = session, wc_bootstrap_digest = td_digest bootstrap,
           wc_receiver_user_namespace = namespace,
           wc_expected_outer_uid = wi_expected_outer_uid i,
           wc_expected_outer_gid = wi_expected_outer_gid i,
           wc_worker_initial_inventory = initial, wc_worker_transfer_inventory = transfer,
           wc_worker_manifest = manifest, wc_transfer_commitments = commitments\<rparr>))))))))))))))))))))))))))))))))))))"

section \<open>Contents\<close>

text \<open>The hasher is the bytes fed to it.\<close>

record ContentVerifier =
  cv_expected_size :: u64
  cv_expected_digest :: bytes
  cv_next_offset :: u64
  cv_hashed :: bytes

definition G0_WORKER_BOOTSTRAP_HASH_CHUNK_BYTES :: nat where
  "G0_WORKER_BOOTSTRAP_HASH_CHUNK_BYTES = 65536"

definition verifier_from_commitment ::
    "FdCommitment \<Rightarrow> u64 \<Rightarrow> FdStatus \<Rightarrow> MemfdSeals \<Rightarrow> WireError + ContentVerifier" where
  "verifier_from_commitment c observed_size observed_status observed_seals =
     (case fc_identity c of
        Memfd len content_digest seals \<Rightarrow>
          and_then (drift WorkerBootstrapContent (observed_size \<noteq> len \<or> observed_status \<noteq> fc_status c
            \<or> observed_seals \<noteq> seals)) (\<lambda>_.
          Inr \<lparr>cv_expected_size = len, cv_expected_digest = content_digest, cv_next_offset = 0,
               cv_hashed = []\<rparr>)
      | _ \<Rightarrow> Inl (G0ContractDrift WorkerBootstrapContent))"

definition start_observation_verifier ::
    "WorkerBootstrapInbound \<Rightarrow> u64 \<Rightarrow> FdStatus \<Rightarrow> MemfdSeals \<Rightarrow> WireError + ContentVerifier" where
  "start_observation_verifier w observed_size observed_status observed_seals =
     and_then (ok_or (get_index (wc_transfer_commitments w) 0) (G0ContractDrift WorkerBootstrapContent)) (\<lambda>c.
     and_then (drift WorkerBootstrapContent (fc_role c \<noteq> Observation)) (\<lambda>_.
     verifier_from_commitment c observed_size observed_status observed_seals))"

definition start_campaign_verifier ::
    "WorkerBootstrapInbound \<Rightarrow> u8 \<Rightarrow> u64 \<Rightarrow> FdStatus \<Rightarrow> MemfdSeals \<Rightarrow> WireError + ContentVerifier" where
  "start_campaign_verifier w index observed_size observed_status observed_seals =
     and_then (ok_or (checked_add_usize (unat index) 1) ArithmeticOverflow) (\<lambda>position.
     and_then (ok_or (get_index (wc_transfer_commitments w) position) (G0ContractDrift WorkerBootstrapContent)) (\<lambda>c.
     and_then (drift WorkerBootstrapContent (fc_role c \<noteq> CampaignInput index)) (\<lambda>_.
     verifier_from_commitment c observed_size observed_status observed_seals)))"

definition verifier_update_at :: "ContentVerifier \<Rightarrow> u64 \<Rightarrow> bytes \<Rightarrow> WireError + ContentVerifier" where
  "verifier_update_at v offset chunk =
     (let field = WorkerBootstrapContent in
      and_then (drift field (offset \<noteq> cv_next_offset v \<or> chunk = []
        \<or> length chunk > G0_WORKER_BOOTSTRAP_HASH_CHUNK_BYTES)) (\<lambda>_.
      and_then (ok_or (u64_try_from (length chunk)) ArithmeticOverflow) (\<lambda>chunk_length.
      and_then (ok_or (checked_add_word (cv_next_offset v) chunk_length) ArithmeticOverflow) (\<lambda>next_offset.
      and_then (drift field (next_offset > cv_expected_size v)) (\<lambda>_.
      Inr (v\<lparr>cv_hashed := cv_hashed v @ chunk, cv_next_offset := next_offset\<rparr>))))))"

definition verifier_finish :: "(bytes \<Rightarrow> bytes) \<Rightarrow> ContentVerifier \<Rightarrow> WireError + unit" where
  "verifier_finish sha v =
     (let field = WorkerBootstrapContent in
      and_then (drift field (cv_next_offset v \<noteq> cv_expected_size v)) (\<lambda>_.
      drift field (sha (cv_hashed v) \<noteq> cv_expected_digest v)))"

section \<open>The worker's answer\<close>

record WorkerExecBoundOutbound =
  wo_raw_frame :: bytes
  wo_transcript_digest :: bytes

definition prepare_worker_exec_bound ::
    "(bytes \<Rightarrow> bytes) \<Rightarrow> WorkerBootstrapInbound \<Rightarrow> PeerCredentials \<Rightarrow> WireError + WorkerExecBoundOutbound" where
  "prepare_worker_exec_bound sha w credentials =
     and_then (drift WorkerBootstrapFrame
       (pc_user_namespace credentials \<noteq> wc_receiver_user_namespace w
        \<or> pc_user_id credentials \<noteq> wc_expected_outer_uid w
        \<or> pc_group_id credentials \<noteq> wc_expected_outer_gid w)) (\<lambda>_.
     and_then (worker_exec_bound_body_new (wc_session w) (wc_worker_initial_inventory w)
       (wc_worker_transfer_inventory w) (wc_worker_manifest w)) (\<lambda>body.
     and_then (encode_worker_exec_bound_raw_frame (wc_session w) (wc_bootstrap_digest w) body) (\<lambda>raw_frame.
     and_then (frame_new (exec_bound_input (wc_session w) (wc_bootstrap_digest w) body credentials)) (\<lambda>frame.
     and_then (encode_raw_frame frame) (\<lambda>encoded.
     and_then (drift WorkerBootstrapFrame (encoded \<noteq> raw_frame)) (\<lambda>_.
     and_then (transcript_candidate_prepare sha (wc_session w) 1 (wc_bootstrap_digest w) frame) (\<lambda>transcript.
     Inr \<lparr>wo_raw_frame = raw_frame, wo_transcript_digest = td_digest transcript\<rparr>)))))))"

section \<open>The transfer manifest is parsed exactly\<close>

definition observation_fd :: "u64 \<Rightarrow> bytes \<Rightarrow> FdCommitment" where
  "observation_fd len content =
     \<lparr>fc_role = Observation,
      fc_identity = Memfd len content \<lparr>ms_grow = Present, ms_shrink = Present, ms_write = Absent,
        ms_further_seals = Absent\<rparr>,
      fc_status = \<lparr>fs_access = ReadWrite, fs_nonblocking = False, fs_close_on_exec = True\<rparr>\<rparr>"

definition input_fd :: "u8 \<Rightarrow> u64 \<Rightarrow> bytes \<Rightarrow> FdCommitment" where
  "input_fd n len content =
     \<lparr>fc_role = CampaignInput n,
      fc_identity = Memfd len content \<lparr>ms_grow = Present, ms_shrink = Present, ms_write = Present,
        ms_further_seals = Present\<rparr>,
      fc_status = \<lparr>fs_access = ReadOnly, fs_nonblocking = False, fs_close_on_exec = True\<rparr>\<rparr>"

lemma transfer_fds:
  "commitment_ok (observation_fd len d)" "commitment_wf (observation_fd len d) \<longleftrightarrow> length d = 32"
  "unat n < 16 \<Longrightarrow> commitment_ok (input_fd n len d)" "commitment_wf (input_fd n len d) \<longleftrightarrow> length d = 32"
  by (simp_all add: observation_fd_def input_fd_def commitment_ok_def commitment_wf_def identity_wf_def
      fully_sealed_def fixes_size_def is_present_def)

lemma transferable_fd:
  "commitment_wf c \<Longrightarrow> transferable c \<longleftrightarrow> (\<exists>len d. length d = 32 \<and> c = observation_fd len d)"
proof
  assume "commitment_wf c" "transferable c"
  moreover from this obtain len d s where i: "fc_identity c = Memfd len d s" "unsealed_observation_seals s"
    by (auto simp: transferable_def unsealed_observation_def)
  ultimately have "c = observation_fd len d \<and> length d = 32"
    by (cases c; cases "fc_status c"; cases s)
      (auto simp: observation_fd_def transferable_def blocking_def unsealed_observation_seals_def
        commitment_ok_def commitment_wf_def identity_wf_def)
  then show "\<exists>len d. length d = 32 \<and> c = observation_fd len d" by blast
next
  assume "\<exists>len d. length d = 32 \<and> c = observation_fd len d"
  then show "transferable c"
    by (auto simp: transferable_def transfer_fds(1) blocking_def unsealed_observation_def)
      (simp_all add: observation_fd_def unsealed_observation_seals_def)
qed

lemma campaign_fd:
  assumes "commitment_wf c" "fc_role c = CampaignInput n"
  shows "commitment_ok c \<and> blocking True c \<longleftrightarrow>
    unat n < 16 \<and> (\<exists>len d. length d = 32 \<and> c = input_fd n len d)"
proof
  assume c: "commitment_ok c \<and> blocking True c"
  then obtain len d s where i: "fc_identity c = Memfd len d s" "fully_sealed s" and n: "unat n < 16"
    using assms(2) by (auto simp: commitment_ok_def)
  have "c = input_fd n len d \<and> length d = 32"
    using i assms c
    by (cases c; cases "fc_status c")
      (auto simp: input_fd_def blocking_def fully_sealed_unique commitment_ok_def commitment_wf_def identity_wf_def)
  with n show "unat n < 16 \<and> (\<exists>len d. length d = 32 \<and> c = input_fd n len d)" by blast
next
  assume "unat n < 16 \<and> (\<exists>len d. length d = 32 \<and> c = input_fd n len d)"
  then show "commitment_ok c \<and> blocking True c"
    by (auto simp: transfer_fds(3) blocking_def) (simp_all add: input_fd_def)
qed

lemma observation_bytes:
  "commitment_bytes (observation_fd len d)
    = concat [[8], [2], u64_to_le len, d, [1, 1, 0, 0], [3, 0, 1]]"
  by (simp add: commitment_bytes_def observation_fd_def encode_seals_def encode_status_def bool_code_def)

lemma input_bytes:
  "commitment_bytes (input_fd n len d) = concat [[0, n], [2], u64_to_le len, d, [1, 1, 1, 1], [1, 0, 1]]"
  by (simp add: commitment_bytes_def input_fd_def encode_seals_def encode_status_def bool_code_def)

lemma offsets:
  "checked_add_usize (Suc 0) (Suc 0) = Some 2" "checked_add_usize 2 8 = Some 10"
  "checked_add_usize 2 (Suc 0) = Some 3" "checked_add_usize 3 8 = Some 11"
  by (simp_all add: usize_limit_def)

lemma observation_memfd_iff:
  "worker_manifest_memfd bs Observation = Inr c \<longleftrightarrow>
    (\<exists>len d. length d = 32 \<and> c = observation_fd len d \<and> bs = commitment_bytes c)"
proof
  assume read: "worker_manifest_memfd bs Observation = Inr c"
  then obtain len d where "c = observation_fd len d" "length bs = 49" "bs = commitment_bytes c" "d = slice bs 10 42"
    by (auto simp: worker_manifest_memfd_def manifest_role_shape_def Let_def commitment_new_iff
        encode_fd_commitment_iff usize_limit_def observation_fd_def)
  moreover from this have "length d = 32" by simp
  ultimately show "\<exists>len d. length d = 32 \<and> c = observation_fd len d \<and> bs = commitment_bytes c" by metis
next
  assume "\<exists>len d. length d = 32 \<and> c = observation_fd len d \<and> bs = commitment_bytes c"
  then obtain len d where c: "length d = 32" "c = observation_fd len d" "bs = commitment_bytes c" by blast
  have "at_slices bs 0 [[8], [2], u64_to_le len, d, [1, 1, 0, 0], [3, 0, 1]]"
    using observation_bytes [of len d] c(2,3) by (intro string_slices [THEN iffD1]) simp
  then have cut: "slice bs 1 2 = [2]" "slice bs 2 10 = u64_to_le len" "slice bs 10 42 = d" "length bs = 49"
    using c(1) by (simp_all add: numeral_2_eq_2 numeral_3_eq_3)
  have "bs ! 1 = 2" using cut(1) byte_slice [of bs 1 2] by (simp add: numeral_2_eq_2)
  then have steps: "expect_byte bs 1 WorkerBootstrapFrame 2 = Inr ()"
    "g0_u64_le bs 2 WorkerBootstrapFrame = Inr len" "g0_fixed_bytes 32 bs 10 WorkerBootstrapFrame = Inr d"
    using cut by (simp_all add: usize_limit_def del: add_2_eq_Suc add_2_eq_Suc')
  have "commitment_new Observation
      (Memfd len d \<lparr>ms_grow = Present, ms_shrink = Present, ms_write = Absent, ms_further_seals = Absent\<rparr>)
      \<lparr>fs_access = ReadWrite, fs_nonblocking = False, fs_close_on_exec = True\<rparr> = Inr c"
    "encode_fd_commitment c = Inr bs"
    using transfer_fds(1) [of len d] c by (simp_all add: commitment_new_iff encode_fd_commitment_iff observation_fd_def)
  then show "worker_manifest_memfd bs Observation = Inr c"
    using steps cut(4)
    by (simp add: worker_manifest_memfd_def manifest_role_shape_def drift_def usize_limit_def Let_def
        and_then_simps offsets del: add_2_eq_Suc add_2_eq_Suc' and_then_eq_Inr g0_word_reads g0_reads expect_byte_iff)
qed

lemma input_memfd_iff:
  assumes n: "unat n < 16"
  shows "worker_manifest_memfd bs (CampaignInput n) = Inr c \<longleftrightarrow>
    (\<exists>len d. length d = 32 \<and> c = input_fd n len d \<and> bs = commitment_bytes c)"
proof
  assume read: "worker_manifest_memfd bs (CampaignInput n) = Inr c"
  then obtain len d where "c = input_fd n len d" "length bs = 50" "bs = commitment_bytes c" "d = slice bs 11 43"
    by (auto simp: worker_manifest_memfd_def manifest_role_shape_def Let_def commitment_new_iff
        encode_fd_commitment_iff usize_limit_def input_fd_def)
  moreover from this have "length d = 32" by simp
  ultimately show "\<exists>len d. length d = 32 \<and> c = input_fd n len d \<and> bs = commitment_bytes c" by metis
next
  assume "\<exists>len d. length d = 32 \<and> c = input_fd n len d \<and> bs = commitment_bytes c"
  then obtain len d where c: "length d = 32" "c = input_fd n len d" "bs = commitment_bytes c" by blast
  have "at_slices bs 0 [[0, n], [2], u64_to_le len, d, [1, 1, 1, 1], [1, 0, 1]]"
    using input_bytes [of n len d] c(2,3) by (intro string_slices [THEN iffD1]) simp
  then have cut: "slice bs 2 3 = [2]" "slice bs 3 11 = u64_to_le len" "slice bs 11 43 = d" "length bs = 50"
    using c(1) by (simp_all add: numeral_2_eq_2 numeral_3_eq_3)
  have "bs ! 2 = 2" using cut(1,4) byte_slice [of bs 2 2] by (simp add: numeral_2_eq_2 numeral_3_eq_3)
  then have steps: "expect_byte bs 2 WorkerBootstrapFrame 2 = Inr ()"
    "g0_u64_le bs 3 WorkerBootstrapFrame = Inr len" "g0_fixed_bytes 32 bs 11 WorkerBootstrapFrame = Inr d"
    using cut by (simp_all add: usize_limit_def del: add_2_eq_Suc add_2_eq_Suc')
  have "commitment_new (CampaignInput n)
      (Memfd len d \<lparr>ms_grow = Present, ms_shrink = Present, ms_write = Present, ms_further_seals = Present\<rparr>)
      \<lparr>fs_access = ReadOnly, fs_nonblocking = False, fs_close_on_exec = True\<rparr> = Inr c"
    "encode_fd_commitment c = Inr bs"
    using transfer_fds(3) [OF n, of len d] c by (simp_all add: commitment_new_iff encode_fd_commitment_iff input_fd_def)
  then show "worker_manifest_memfd bs (CampaignInput n) = Inr c"
    using steps cut(4)
    by (simp add: worker_manifest_memfd_def manifest_role_shape_def drift_def usize_limit_def Let_def
        and_then_simps offsets del: add_2_eq_Suc add_2_eq_Suc' and_then_eq_Inr g0_word_reads g0_reads expect_byte_iff)
qed

definition inputs_ok :: "nat \<Rightarrow> FdCommitment list \<Rightarrow> bool" where
  "inputs_ok k cs \<longleftrightarrow> list_all commitment_wf cs \<and> list_all commitment_ok cs
     \<and> list_all (blocking True) cs \<and> campaign_roles k cs"

lemma input_record:
  assumes "k < 16" "length rec = 53"
  shows "rec ! 0 = word_of_nat (5 + k) \<and> slice rec 1 3 = u16_to_le 50
      \<and> worker_manifest_memfd (drop 3 rec) (CampaignInput (word_of_nat k)) = Inr c
    \<longleftrightarrow> rec = slot_record (word_of_nat (5 + k), c) \<and> inputs_ok k [c]"
proof -
  let ?n = "word_of_nat k :: u8"
  have n: "unat ?n = k" using assms(1) by (simp add: unat_of_nat)
  have ok: "inputs_ok k [c] \<longleftrightarrow> (\<exists>len d. length d = 32 \<and> c = input_fd ?n len d)"
    using campaign_fd [of c ?n] n assms(1) transfer_fds(3,4) [of ?n]
    by (auto simp: inputs_ok_def input_fd_def)
  have "slot_record (word_of_nat (5 + k), c)
      = concat [[word_of_nat (5 + k)], u16_to_le 50, commitment_bytes c]" if "inputs_ok k [c]"
    using that by (auto simp: slot_record_pair inputs_ok_def length_admitted)
  moreover have "rec = concat [[word_of_nat (5 + k)], u16_to_le 50, commitment_bytes c] \<longleftrightarrow>
      rec ! 0 = word_of_nat (5 + k) \<and> slice rec 1 3 = u16_to_le 50 \<and> drop 3 rec = commitment_bytes c"
    if "inputs_ok k [c]"
    unfolding string_slices using assms that byte_slice [of rec 0 "word_of_nat (5 + k)"]
    by (simp add: inputs_ok_def length_admitted numeral_3_eq_3) (simp add: slice_def)
  moreover have "worker_manifest_memfd (drop 3 rec) (CampaignInput ?n) = Inr c \<longleftrightarrow>
      inputs_ok k [c] \<and> drop 3 rec = commitment_bytes c"
    using input_memfd_iff [of ?n "drop 3 rec" c] n assms(1) ok by auto
  ultimately show ?thesis by metis
qed

lemma inputs_from_raw_iff:
  assumes "length bs = 99 + 53 * (k + r)" "k + r \<le> 15"
  shows "manifest_inputs_from_raw bs k r = Inr cs \<longleftrightarrow>
    drop (99 + 53 * k) bs = concat (map slot_record (number_from (5 + k) cs)) \<and> inputs_ok k cs"
  using assms
proof (induction r arbitrary: k cs)
  case 0
  then show ?case
    by (cases cs) (auto simp: inputs_ok_def slot_record_pair)
next
  case (Suc r)
  let ?a = "99 + 53 * k"
  let ?rec = "slice bs ?a (?a + 53)"
  have cut: "drop ?a bs = ?rec @ drop (99 + 53 * Suc k) bs" "length ?rec = 53"
    using Suc.prems append_take_drop_id [of 53 "drop ?a bs"] by (simp_all add: slice_def add.commute)
  have "u8_try_from (5 + k) = Some (word_of_nat (5 + k))" "u8_try_from k = Some (word_of_nat k)"
    using Suc.prems by (simp_all add: u8_try_from_def)
  then have step: "manifest_inputs_from_raw bs k (Suc r) = Inr cs \<longleftrightarrow>
      (\<exists>c ds. cs = c # ds \<and> ?rec ! 0 = word_of_nat (5 + k) \<and> slice ?rec 1 3 = u16_to_le 50
        \<and> worker_manifest_memfd (drop 3 ?rec) (CampaignInput (word_of_nat k)) = Inr c
        \<and> manifest_inputs_from_raw bs (Suc k) r = Inr ds)"
    using Suc.prems cut(2) length_greater_0_conv [of ?rec]
    by (auto simp: Let_def usize_limit_def get_range_def mult.commute [of k] numeral_3_eq_3)
  show ?case
  proof (cases cs)
    case Nil
    then show ?thesis using cut step by auto
  next
    case (Cons c ds)
    have "drop ?a bs = concat (map slot_record (number_from (5 + k) cs)) \<and> inputs_ok k cs \<longleftrightarrow>
      ?rec = slot_record (word_of_nat (5 + k), c) \<and> inputs_ok k [c]
      \<and> drop (99 + 53 * Suc k) bs = concat (map slot_record (number_from (5 + Suc k) ds)) \<and> inputs_ok (Suc k) ds"
    proof -
      have "length (slot_record (word_of_nat (5 + k), c)) = length ?rec" if "inputs_ok k [c]"
        using that cut(2) by (simp add: inputs_ok_def slot_record_pair length_admitted)
      then have "?rec @ t = slot_record (word_of_nat (5 + k), c) @ w \<longleftrightarrow>
          ?rec = slot_record (word_of_nat (5 + k), c) \<and> t = w" if "inputs_ok k [c]" for t w
        using that append_eq_append_conv by metis
      moreover have "inputs_ok k (c # ds) \<longleftrightarrow> inputs_ok k [c] \<and> inputs_ok (Suc k) ds"
        by (auto simp: inputs_ok_def)
      moreover have "concat (map slot_record (number_from (5 + k) (c # ds)))
          = slot_record (word_of_nat (5 + k), c) @ concat (map slot_record (number_from (5 + Suc k) ds))"
        by simp
      ultimately show ?thesis unfolding cut(1) Cons by metis
    qed
    then show ?thesis
      using step Cons input_record [OF _ cut(2), of k c] Suc.IH [of "Suc k" ds] Suc.prems by auto
  qed
qed

lemma manifest_slices:
  assumes "manifest_ok observation cs" "commitment_wf observation" "list_all commitment_wf cs"
    and bs: "length bs = 99 + 53 * length cs"
  shows "bs = manifest_bytes observation cs \<longleftrightarrow>
    slice bs 0 2 = u16_to_le 42 \<and> slice bs 2 44 = WORKER_TRANSFER_MANIFEST_DOMAIN
    \<and> slice bs 44 46 = u16_to_le FRAME_VERSION \<and> bs ! 46 = word_of_nat (Suc (length cs)) \<and> bs ! 47 = 4
    \<and> slice bs 48 50 = u16_to_le 49 \<and> slice bs 50 99 = commitment_bytes observation
    \<and> drop 99 bs = concat (map slot_record (number_from 5 cs))"
proof -
  have ob: "length (commitment_bytes observation) = 49"
    using assms by (simp add: manifest_ok_def transferable_def length_admitted)
  have tail: "length (concat (map slot_record (number_from 5 cs))) = 53 * length cs"
    using assms by (intro slot_records_length [where k = 0]) (simp_all add: manifest_ok_def)
  have "manifest_bytes observation cs
      = concat [u16_to_le 42, WORKER_TRANSFER_MANIFEST_DOMAIN, u16_to_le FRAME_VERSION,
          [word_of_nat (Suc (length cs))], [4], u16_to_le 49, commitment_bytes observation,
          concat (map slot_record (number_from 5 cs))]"
    using ob by (simp add: manifest_bytes_def slot_record_pair)
  also have "bs = \<dots> \<longleftrightarrow> at_slices bs 0 [u16_to_le 42, WORKER_TRANSFER_MANIFEST_DOMAIN,
      u16_to_le FRAME_VERSION, [word_of_nat (Suc (length cs))], [4], u16_to_le 49,
      commitment_bytes observation, concat (map slot_record (number_from 5 cs))]"
    by (rule string_slices)
  also have "\<dots> \<longleftrightarrow> slice bs 0 2 = u16_to_le 42 \<and> slice bs 2 44 = WORKER_TRANSFER_MANIFEST_DOMAIN
    \<and> slice bs 44 46 = u16_to_le FRAME_VERSION \<and> slice bs 46 (Suc 46) = [word_of_nat (Suc (length cs))]
    \<and> slice bs 47 (Suc 47) = [4]
    \<and> slice bs 48 50 = u16_to_le 49 \<and> slice bs 50 99 = commitment_bytes observation
    \<and> drop 99 bs = concat (map slot_record (number_from 5 cs))"
    using ob tail bs by (simp add: slice_def del: add_2_eq_Suc add_2_eq_Suc')
  finally show ?thesis using bs unfolding byte_slice by simp
qed

definition manifest_readable :: "bytes \<Rightarrow> nat \<Rightarrow> bool" where
  "manifest_readable bs n \<longleftrightarrow> length bs = 99 + 53 * n \<and> slice bs 0 2 = u16_to_le 42
    \<and> slice bs 2 44 = WORKER_TRANSFER_MANIFEST_DOMAIN
    \<and> slice bs 44 46 = u16_to_le FRAME_VERSION \<and> bs ! 46 = word_of_nat (Suc n) \<and> bs ! 47 = 4
    \<and> slice bs 48 50 = u16_to_le 49"

lemma worker_manifest_iff:
  assumes n: "n \<le> 15"
  shows "worker_manifest_from_raw sha bs n = Inr (m, cs) \<longleftrightarrow>
    (\<exists>observation inputs. cs = observation # inputs \<and> length inputs = n \<and> list_all commitment_wf cs
      \<and> transfer_manifest_new sha observation inputs = Inr m \<and> wm_bytes m = bs)"
proof -
  have read: "worker_manifest_from_raw sha bs n = Inr (m, cs) \<longleftrightarrow> manifest_readable bs n
      \<and> (\<exists>observation inputs. cs = observation # inputs
        \<and> worker_manifest_memfd (slice bs 50 99) Observation = Inr observation
        \<and> manifest_inputs_from_raw bs 0 n = Inr inputs
        \<and> transfer_manifest_new sha observation inputs = Inr m \<and> wm_bytes m = bs)"
  proof (cases "length bs = 99 + 53 * n")
    case True
    have "unat (word_of_nat (Suc n) :: u8) = Suc n" using n by (simp add: unat_of_nat del: of_nat_Suc)
    then have count: "unat w = Suc n \<longleftrightarrow> w = word_of_nat (Suc n)" for w :: u8
      by (metis word_unat_eq_iff)
    have domain: "length WORKER_TRANSFER_MANIFEST_DOMAIN = 42" by simp
    have d: "unat w = 42 \<longleftrightarrow> w = 42" for w :: u16 by (simp add: word_unat_eq_iff)
    show ?thesis
      using n True
      by (auto simp: worker_manifest_from_raw_def Let_def usize_limit_def domain d count manifest_readable_def
          get_range_def mult.commute [of n] simp del: of_nat_Suc add_2_eq_Suc add_2_eq_Suc')
  next
    case False
    with n show ?thesis
      by (auto simp: worker_manifest_from_raw_def Let_def usize_limit_def manifest_readable_def mult.commute [of n])
  qed
  show ?thesis
  proof
    assume "worker_manifest_from_raw sha bs n = Inr (m, cs)"
    then obtain observation inputs where parsed: "manifest_readable bs n" "cs = observation # inputs"
        "worker_manifest_memfd (slice bs 50 99) Observation = Inr observation"
        "manifest_inputs_from_raw bs 0 n = Inr inputs"
        "transfer_manifest_new sha observation inputs = Inr m" "wm_bytes m = bs"
      unfolding read by blast
    have len: "length bs = 99 + 53 * (0 + n)" "0 + n \<le> 15" using parsed(1) n by (simp_all add: manifest_readable_def)
    have inputs: "inputs_ok 0 inputs" "drop 99 bs = concat (map slot_record (number_from 5 inputs))"
      using parsed(4) inputs_from_raw_iff [OF len] by simp_all
    have "length (drop 99 bs) = 53 * length inputs"
      unfolding inputs(2) using inputs(1) by (intro slot_records_length [where k = 0]) (simp_all add: inputs_ok_def)
    then have "length inputs = n" using len(1) by simp
    moreover have "commitment_wf observation"
      using parsed(3) transfer_fds(2) by (auto simp: observation_memfd_iff)
    ultimately show "\<exists>observation inputs. cs = observation # inputs \<and> length inputs = n \<and> list_all commitment_wf cs
      \<and> transfer_manifest_new sha observation inputs = Inr m \<and> wm_bytes m = bs"
      using parsed inputs(1) by (simp add: inputs_ok_def)
  next
    assume "\<exists>observation inputs. cs = observation # inputs \<and> length inputs = n \<and> list_all commitment_wf cs
      \<and> transfer_manifest_new sha observation inputs = Inr m \<and> wm_bytes m = bs"
    then obtain observation inputs where built: "cs = observation # inputs" "length inputs = n"
        "commitment_wf observation" "list_all commitment_wf inputs"
        "transfer_manifest_new sha observation inputs = Inr m" "wm_bytes m = bs"
      by auto
    then have ok: "manifest_ok observation inputs" and bs: "bs = manifest_bytes observation inputs"
      by (auto simp: transfer_manifest_iff manifest_value_def)
    have len: "length bs = 99 + 53 * length inputs"
      unfolding bs using built ok by (intro length_manifest_bytes)
    note fields = manifest_slices [OF ok built(3,4) len, THEN iffD1, OF bs]
    have "manifest_readable bs n" using fields len built(2) by (simp add: manifest_readable_def)
    moreover have "worker_manifest_memfd (slice bs 50 99) Observation = Inr observation"
      using fields ok built(3) transferable_fd [OF built(3)] by (auto simp: observation_memfd_iff manifest_ok_def)
    moreover have "manifest_inputs_from_raw bs 0 n = Inr inputs"
      using fields ok built(2,4) len n inputs_from_raw_iff [of bs 0 n inputs]
      by (simp add: inputs_ok_def manifest_ok_def)
    ultimately show "worker_manifest_from_raw sha bs n = Inr (m, cs)"
      unfolding read using built by blast
  qed
qed

section \<open>The session preimage is parsed exactly\<close>

definition session_input_wf :: "ProviderSessionInput \<Rightarrow> bool" where
  "session_input_wf i \<longleftrightarrow> length (rq_digest (ps_request i)) = 32
     \<and> length (ps_appliance_measurement i) = 32 \<and> length (ps_supervisor_measurement i) = 32
     \<and> length (ps_generator_measurement i) = 32 \<and> length (ps_worker_measurement i) = 32
     \<and> length (ps_generator_nonce i) = 32 \<and> length (ps_supervisor_nonce i) = 32
     \<and> length (ch_digest (ps_generator_channel i)) = 32 \<and> length (ch_digest (ps_worker_channel i)) = 32"

lemma session_slices:
  assumes "session_input_wf i"
  shows "bs = session_bytes i \<longleftrightarrow>
    slice bs 0 28 = PROVIDER_SESSION_DOMAIN \<and> slice bs 28 30 = u16_to_le 43
    \<and> slice bs 30 73 = SESSION_PROTOCOL_ID \<and> slice bs 73 105 = rq_digest (ps_request i)
    \<and> slice bs 105 137 = ps_appliance_measurement i \<and> slice bs 137 169 = ps_supervisor_measurement i
    \<and> slice bs 169 201 = ps_generator_measurement i \<and> slice bs 201 233 = ps_worker_measurement i
    \<and> slice bs 233 265 = ps_generator_nonce i \<and> slice bs 265 297 = ps_supervisor_nonce i
    \<and> slice bs 297 301 = u32_to_le (ps_supervisor_pid i) \<and> slice bs 301 309 = u64_to_le (ps_supervisor_start_epoch i)
    \<and> slice bs 309 341 = ch_digest (ps_generator_channel i) \<and> slice bs 341 373 = ch_digest (ps_worker_channel i)
    \<and> length bs = 373"
proof -
  have fields: "session_bytes i = concat
      [PROVIDER_SESSION_DOMAIN, u16_to_le 43, SESSION_PROTOCOL_ID, rq_digest (ps_request i),
       ps_appliance_measurement i, ps_supervisor_measurement i, ps_generator_measurement i,
       ps_worker_measurement i, ps_generator_nonce i, ps_supervisor_nonce i,
       u32_to_le (ps_supervisor_pid i), u64_to_le (ps_supervisor_start_epoch i),
       ch_digest (ps_generator_channel i), ch_digest (ps_worker_channel i)]"
    by (simp add: session_bytes_def)
  have "bs = session_bytes i \<longleftrightarrow> at_slices bs 0
      [PROVIDER_SESSION_DOMAIN, u16_to_le 43, SESSION_PROTOCOL_ID, rq_digest (ps_request i),
       ps_appliance_measurement i, ps_supervisor_measurement i, ps_generator_measurement i,
       ps_worker_measurement i, ps_generator_nonce i, ps_supervisor_nonce i,
       u32_to_le (ps_supervisor_pid i), u64_to_le (ps_supervisor_start_epoch i),
       ch_digest (ps_generator_channel i), ch_digest (ps_worker_channel i)]"
    unfolding fields by (rule string_slices)
  then show ?thesis
    using assms by (simp add: session_input_wf_def eq_commute [of 373] del: add_2_eq_Suc add_2_eq_Suc')
qed

definition session_read ::
    "(bytes \<Rightarrow> bytes) \<Rightarrow> bytes \<Rightarrow> ProviderSession" where
  "session_read sha bs =
     \<lparr>pv_preimage = bs, pv_session_id = sha bs, pv_request_commitment = slice bs 73 105,
      pv_generator_nonce_commitment = sha (nonce_bytes NonceGenerator (slice bs 73 105) (slice bs 233 265)),
      pv_supervisor_nonce_commitment = sha (nonce_bytes NonceSupervisor (slice bs 73 105) (slice bs 265 297)),
      pv_generator_channel = slice bs 309 341, pv_worker_channel = slice bs 341 373\<rparr>"

lemma session_from_preimage_iff:
  "provider_session_from_preimage sha bs = Inr (s, pid) \<longleftrightarrow>
    length bs = 373 \<and> slice bs 0 28 = PROVIDER_SESSION_DOMAIN \<and> slice bs 28 30 = u16_to_le 43
    \<and> slice bs 30 73 = SESSION_PROTOCOL_ID \<and> slice bs 297 301 = u32_to_le pid \<and> pid \<noteq> 0
    \<and> slice bs 301 309 \<noteq> u64_to_le 0 \<and> slice bs 233 265 \<noteq> replicate 32 0
    \<and> slice bs 265 297 \<noteq> replicate 32 0 \<and> s = session_read sha bs"
proof (cases "length bs = 373")
  case True
  have "unat w = 43 \<longleftrightarrow> w = 43" for w :: u16 by (simp add: word_unat_eq_iff)
  moreover obtain epoch where "slice bs 301 309 = u64_to_le epoch"
    using that [of "u64_from_le (slice bs 301 309)"] True uN_from_le_eq(3) [of "slice bs 301 309"] by simp
  ultimately show ?thesis
    using True
    by (auto simp: provider_session_from_preimage_def Let_def usize_limit_def size_defs nonce_from_digest_iff
        session_read_def simp del: add_2_eq_Suc add_2_eq_Suc')
qed (simp add: provider_session_from_preimage_def size_defs)

lemma session_read_iff:
  "provider_session_from_preimage sha bs = Inr (s, pid) \<longleftrightarrow>
    (\<exists>i. session_input_wf i \<and> ps_supervisor_pid i = pid \<and> provider_session_new sha i = Inr s \<and> pv_preimage s = bs)"
proof
  assume "provider_session_from_preimage sha bs = Inr (s, pid)"
  then have bs: "length bs = 373" "slice bs 0 28 = PROVIDER_SESSION_DOMAIN" "slice bs 28 30 = u16_to_le 43"
    "slice bs 30 73 = SESSION_PROTOCOL_ID" "slice bs 297 301 = u32_to_le pid" "pid \<noteq> 0"
    "slice bs 301 309 \<noteq> u64_to_le 0" "slice bs 233 265 \<noteq> replicate 32 0"
    "slice bs 265 297 \<noteq> replicate 32 0" "s = session_read sha bs"
    unfolding session_from_preimage_iff by blast+
  define epoch where "epoch = u64_from_le (slice bs 301 309)"
  have epoch: "slice bs 301 309 = u64_to_le epoch"
    unfolding epoch_def using bs(1) uN_from_le_eq(3) [of "slice bs 301 309" "u64_from_le (slice bs 301 309)"] by simp
  define i where "i = \<lparr>ps_request = \<lparr>rq_preimage = [], rq_digest = slice bs 73 105, rq_ingress_count = 0\<rparr>,
    ps_appliance_measurement = slice bs 105 137, ps_supervisor_measurement = slice bs 137 169,
    ps_generator_measurement = slice bs 169 201, ps_worker_measurement = slice bs 201 233,
    ps_generator_nonce = slice bs 233 265, ps_supervisor_nonce = slice bs 265 297, ps_supervisor_pid = pid,
    ps_supervisor_start_epoch = epoch,
    ps_generator_channel = \<lparr>ch_kind = GeneratorChannel, ch_digest = slice bs 309 341\<rparr>,
    ps_worker_channel = \<lparr>ch_kind = WorkerChannel, ch_digest = slice bs 341 373\<rparr>\<rparr>"
  have wf: "session_input_wf i" using bs(1) by (simp add: session_input_wf_def i_def)
  have "bs = session_bytes i"
    unfolding session_slices [OF wf] using bs(1-5) epoch by (simp add: i_def)
  moreover from this have "provider_session_new sha i = Inr s"
    using bs epoch by (auto simp: provider_session_iff session_read_def i_def)
  moreover have "pv_preimage s = bs" using bs(10) by (simp add: session_read_def)
  ultimately show "\<exists>i. session_input_wf i \<and> ps_supervisor_pid i = pid
      \<and> provider_session_new sha i = Inr s \<and> pv_preimage s = bs"
    using wf by (intro exI [of _ i]) (simp add: i_def)
next
  assume "\<exists>i. session_input_wf i \<and> ps_supervisor_pid i = pid \<and> provider_session_new sha i = Inr s \<and> pv_preimage s = bs"
  then obtain i where i: "session_input_wf i" "ps_supervisor_pid i = pid" "provider_session_new sha i = Inr s"
    "pv_preimage s = bs" by blast
  then have "bs = session_bytes i" by (auto simp: provider_session_iff)
  note fields = session_slices [OF i(1), THEN iffD1, OF this]
  have "s = session_read sha bs" using i fields by (auto simp: provider_session_iff session_read_def)
  then show "provider_session_from_preimage sha bs = Inr (s, pid)"
    unfolding session_from_preimage_iff using i fields by (auto simp: provider_session_iff)
qed

section \<open>The contents are checked exactly\<close>

fun run_updates :: "ContentVerifier \<Rightarrow> (u64 \<times> bytes) list \<Rightarrow> WireError + ContentVerifier" where
  "run_updates v [] = Inr v"
| "run_updates v ((offset, chunk) # us) = and_then (verifier_update_at v offset chunk) (\<lambda>v'. run_updates v' us)"

text \<open>The chunks tile the content from offset \<open>a\<close> on, in order and without gap or overlap.\<close>

fun tiles_from :: "nat \<Rightarrow> (u64 \<times> bytes) list \<Rightarrow> bool" where
  "tiles_from a [] = True"
| "tiles_from a ((offset, chunk) # us) \<longleftrightarrow>
     unat offset = a \<and> chunk \<noteq> [] \<and> length chunk \<le> 65536 \<and> tiles_from (a + length chunk) us"

abbreviation fed :: "(u64 \<times> bytes) list \<Rightarrow> bytes" where
  "fed us \<equiv> concat (map snd us)"

lemma update_iff:
  "verifier_update_at v offset chunk = Inr v' \<longleftrightarrow>
    offset = cv_next_offset v \<and> chunk \<noteq> [] \<and> length chunk \<le> 65536
    \<and> unat (cv_next_offset v) + length chunk \<le> unat (cv_expected_size v)
    \<and> v' = v\<lparr>cv_hashed := cv_hashed v @ chunk,
        cv_next_offset := word_of_nat (unat (cv_next_offset v) + length chunk)\<rparr>"
proof (cases "length chunk \<le> 65536")
  case True
  then have n: "unat (word_of_nat (length chunk) :: u64) = length chunk" by (simp add: unat_of_nat)
  show ?thesis
  proof (cases "unat (cv_next_offset v) + length chunk < 2 ^ 64")
    case fits: True
    have sum: "word_of_nat (unat (cv_next_offset v) + length chunk) = cv_next_offset v + word_of_nat (length chunk)"
      by simp
    have "unat (cv_next_offset v + word_of_nat (length chunk)) = unat (cv_next_offset v) + length chunk"
      using fits n by (simp add: unat_word_ariths)
    then show ?thesis
      using True fits n word_unat_eq_iff [of _ "cv_next_offset v + word_of_nat (length chunk)"]
      by (auto simp: verifier_update_at_def G0_WORKER_BOOTSTRAP_HASH_CHUNK_BYTES_def u64_try_from_iff
          word_le_nat_alt not_less sum simp del: of_nat_add)
  next
    case False
    then have "unat x \<noteq> unat (cv_next_offset v) + length chunk" for x :: u64
      using unat_u64_bound [of x] by simp
    then show ?thesis
      using False True n unat_u64_bound [of "cv_expected_size v"]
      by (auto simp: verifier_update_at_def u64_try_from_iff)
  qed
qed (auto simp: verifier_update_at_def G0_WORKER_BOOTSTRAP_HASH_CHUNK_BYTES_def)

lemma run_updates_iff:
  "run_updates v us = Inr v' \<longleftrightarrow>
    tiles_from (unat (cv_next_offset v)) us
    \<and> (us \<noteq> [] \<longrightarrow> unat (cv_next_offset v) + length (fed us) \<le> unat (cv_expected_size v))
    \<and> v' = v\<lparr>cv_hashed := cv_hashed v @ fed us,
        cv_next_offset := word_of_nat (unat (cv_next_offset v) + length (fed us))\<rparr>"
proof (induction us arbitrary: v)
  case (Cons u us)
  obtain offset chunk where u: "u = (offset, chunk)" by fastforce
  let ?w = "v\<lparr>cv_hashed := cv_hashed v @ chunk,
        cv_next_offset := word_of_nat (unat (cv_next_offset v) + length chunk)\<rparr>"
  have fits: "unat (word_of_nat (unat (cv_next_offset v) + length chunk) :: u64) = unat (cv_next_offset v) + length chunk"
    if "unat (cv_next_offset v) + length chunk \<le> unat (cv_expected_size v)"
    using that unat_u64_bound [of "cv_expected_size v"] by (simp add: unat_of_nat del: of_nat_add)
  have "run_updates v (u # us) = Inr v' \<longleftrightarrow> verifier_update_at v offset chunk = Inr ?w \<and> run_updates ?w us = Inr v'"
    by (auto simp: u update_iff)
  also have "\<dots> \<longleftrightarrow> tiles_from (unat (cv_next_offset v)) (u # us)
      \<and> unat (cv_next_offset v) + length (fed (u # us)) \<le> unat (cv_expected_size v)
      \<and> v' = v\<lparr>cv_hashed := cv_hashed v @ fed (u # us),
          cv_next_offset := word_of_nat (unat (cv_next_offset v) + length (fed (u # us)))\<rparr>"
    unfolding update_iff Cons.IH using fits by (auto simp: u add.assoc word_unat_eq_iff simp del: of_nat_add)
  finally show ?case by simp
qed auto

text \<open>A verifier that was started, fed with the chunks and finished.\<close>

definition verify_contents ::
    "(bytes \<Rightarrow> bytes) \<Rightarrow> (WireError + ContentVerifier) \<Rightarrow> (u64 \<times> bytes) list \<Rightarrow> WireError + unit" where
  "verify_contents sha started us =
     and_then started (\<lambda>v. and_then (run_updates v us) (verifier_finish sha))"

definition contents_match ::
    "(bytes \<Rightarrow> bytes) \<Rightarrow> FdCommitment \<Rightarrow> u64 \<Rightarrow> FdStatus \<Rightarrow> MemfdSeals \<Rightarrow> (u64 \<times> bytes) list \<Rightarrow> bool" where
  "contents_match sha c len status seals us \<longleftrightarrow>
     fc_identity c = Memfd len (sha (fed us)) seals \<and> fc_status c = status
     \<and> tiles_from 0 us \<and> length (fed us) = unat len"

lemma verify_contents_iff:
  "verify_contents sha (verifier_from_commitment c len status seals) us = Inr u \<longleftrightarrow>
    contents_match sha c len status seals us"
proof (cases "fc_identity c")
  case (Memfd size d s)
  have count: "(us \<noteq> [] \<longrightarrow> length (fed us) \<le> unat len) \<and> word_of_nat (length (fed us)) = len
      \<longleftrightarrow> length (fed us) = unat len"
  proof (cases "length (fed us) \<le> unat len")
    case True
    then have "unat (word_of_nat (length (fed us)) :: u64) = length (fed us)"
      using unat_u64_bound [of len] by (simp add: unat_of_nat)
    then show ?thesis using True by (metis word_unat_eq_iff)
  next
    case False
    then have "us \<noteq> []" by auto
    with False show ?thesis by auto
  qed
  have "verify_contents sha (verifier_from_commitment c len status seals) us = Inr u \<longleftrightarrow>
      size = len \<and> fc_status c = status \<and> s = seals \<and> tiles_from 0 us \<and> d = sha (fed us)
      \<and> (us \<noteq> [] \<longrightarrow> length (fed us) \<le> unat len) \<and> word_of_nat (length (fed us)) = len"
    unfolding verify_contents_def verifier_from_commitment_def Memfd
    by (cases "len = size \<and> status = fc_status c \<and> seals = s")
      (auto simp: run_updates_iff verifier_finish_def simp del: word_of_nat_eq_0_iff)
  then show ?thesis unfolding count by (auto simp: contents_match_def Memfd)
qed (simp_all add: verify_contents_def verifier_from_commitment_def contents_match_def)

lemma inputs_from_raw_length: "manifest_inputs_from_raw bs k r = Inr cs \<Longrightarrow> length cs = r"
  by (induction bs k r arbitrary: cs rule: manifest_inputs_from_raw.induct) (auto simp: Let_def)

section \<open>Properties\<close>

text \<open>
  The worker's parser of a transfer manifest inverts its constructor: it accepts a byte string
  exactly when the constructor builds that string from an observation and the declared number of
  campaign inputs, and then it returns those commitments and the constructed manifest.
\<close>

theorem transfer_manifest_read_exact:
  "worker_manifest_from_raw sha bs n = Inr (m, cs) \<longleftrightarrow>
    (\<exists>observation inputs. cs = observation # inputs \<and> length inputs = n \<and> list_all commitment_wf cs
      \<and> transfer_manifest_new sha observation inputs = Inr m \<and> wm_bytes m = bs)"
proof (cases "n \<le> 15")
  case True
  then show ?thesis by (rule worker_manifest_iff)
next
  case False
  then have "transfer_manifest_new sha observation inputs \<noteq> Inr m" if "length inputs = n" for observation inputs
    using that by (auto simp: transfer_manifest_new_def size_defs)
  then show ?thesis
    by (auto simp: worker_manifest_from_raw_def Let_def dest!: inputs_from_raw_length)
qed

text \<open>
  The worker's parser of a session preimage inverts the session constructor: it accepts a byte
  string exactly when the constructor builds a session with that preimage from some request digest,
  measurements, nonces, process and channels, and then it returns this session, with every derived
  nonce commitment and the session id, and the supervisor's process id.
\<close>

theorem session_preimage_read_exact:
  "provider_session_from_preimage sha bs = Inr (s, pid) \<longleftrightarrow>
    (\<exists>i. session_input_wf i \<and> ps_supervisor_pid i = pid \<and> provider_session_new sha i = Inr s
      \<and> pv_preimage s = bs)"
  by (rule session_read_iff)

text \<open>
  C19. The worker takes the streamed contents of a transferred descriptor exactly when the committed
  descriptor at that position has the expected role, its committed size, status and seals are the
  observed ones, the chunks are non-empty, at most 64 KiB each and tile the content in order without
  gap or overlap, and the bytes fed have the committed size and digest.
\<close>

theorem content_verification_exact:
  "(verify_contents sha (start_observation_verifier w len status seals) us = Inr () \<longleftrightarrow>
      (\<exists>c rest. wc_transfer_commitments w = c # rest \<and> fc_role c = Observation
        \<and> contents_match sha c len status seals us))
   \<and> (verify_contents sha (start_campaign_verifier w index len status seals) us = Inr () \<longleftrightarrow>
      unat index + 1 < length (wc_transfer_commitments w)
      \<and> (let c = wc_transfer_commitments w ! (unat index + 1) in
          fc_role c = CampaignInput index \<and> contents_match sha c len status seals us))"
proof
  have first: "0 < length xs \<longleftrightarrow> (\<exists>c rest. xs = c # rest)" for xs :: "FdCommitment list"
    by (cases xs) auto
  have "verify_contents sha (start_observation_verifier w len status seals) us = Inr () \<longleftrightarrow>
      0 < length (wc_transfer_commitments w) \<and> fc_role (wc_transfer_commitments w ! 0) = Observation
      \<and> verify_contents sha (verifier_from_commitment (wc_transfer_commitments w ! 0) len status seals) us = Inr ()"
    by (auto simp: start_observation_verifier_def verify_contents_def)
  then show "verify_contents sha (start_observation_verifier w len status seals) us = Inr () \<longleftrightarrow>
      (\<exists>c rest. wc_transfer_commitments w = c # rest \<and> fc_role c = Observation
        \<and> contents_match sha c len status seals us)"
    unfolding first verify_contents_iff by auto
  have "unat index + 1 < usize_limit" using unat_u8_bound [of index] by (simp add: usize_limit_def)
  then have "verify_contents sha (start_campaign_verifier w index len status seals) us = Inr () \<longleftrightarrow>
      unat index + 1 < length (wc_transfer_commitments w)
      \<and> fc_role (wc_transfer_commitments w ! (unat index + 1)) = CampaignInput index
      \<and> verify_contents sha (verifier_from_commitment (wc_transfer_commitments w ! (unat index + 1)) len status seals) us
          = Inr ()"
    by (auto simp: start_campaign_verifier_def verify_contents_def)
  then show "verify_contents sha (start_campaign_verifier w index len status seals) us = Inr () \<longleftrightarrow>
      unat index + 1 < length (wc_transfer_commitments w)
      \<and> (let c = wc_transfer_commitments w ! (unat index + 1) in
          fc_role c = CampaignInput index \<and> contents_match sha c len status seals us)"
    unfolding verify_contents_iff by (simp add: Let_def)
qed

end
