(* ===== verification/WireBootstrap.thy ===== *)
theory WireBootstrap
  imports WireWorker
begin

text \<open>
  The worker accepts exactly the bootstrap frames that the supervisor's constructors build, and it
  can always answer them (same source file): soundness and completeness of the byte-exact
  reconstruction in \<open>G0WorkerBootstrapInboundCandidateV1::try_new\<close>.
\<close>

section \<open>The bootstrap frame is parsed exactly\<close>

definition endpoint_fd :: "bytes \<Rightarrow> bool \<Rightarrow> FdCommitment" where
  "endpoint_fd d close_on_exec =
     \<lparr>fc_role = WorkerEndpoint, fc_identity = SocketIdentity d,
      fc_status = \<lparr>fs_access = SocketAccess, fs_nonblocking = False, fs_close_on_exec = close_on_exec\<rparr>\<rparr>"

lemma worker_endpoint_fd_eq: "worker_endpoint_fd d b = Inr (endpoint_fd d b)"
  by (simp add: worker_endpoint_fd_def endpoint_fd_def commitment_new_iff commitment_ok_def)

lemma endpoint_fd_facts [simp]:
  "commitment_ok (endpoint_fd d b)" "commitment_wf (endpoint_fd d b) \<longleftrightarrow> length d = 32"
  "fc_role (endpoint_fd d b) = WorkerEndpoint" "blocking c (endpoint_fd d b) \<longleftrightarrow> b = c"
  by (auto simp: endpoint_fd_def commitment_ok_def commitment_wf_def identity_wf_def blocking_def)

lemma number_entries_iff:
  "length cs + k \<le> 251 \<Longrightarrow> number_entries k cs = Inr (number_from (4 + k) cs)"
  by (induction cs arbitrary: k) (simp_all add: u8_try_from_def)

abbreviation initial_entries :: "bytes \<Rightarrow> InventoryEntry list" where
  "initial_entries d \<equiv> [(3, endpoint_fd d False)]"

abbreviation transfer_entries :: "bytes \<Rightarrow> FdCommitment list \<Rightarrow> InventoryEntry list" where
  "transfer_entries d cs \<equiv> (3, endpoint_fd d True) # number_from 4 cs"

lemma worker_inventories:
  assumes "length d = 32" "manifest_ok observation inputs" "list_all commitment_wf (observation # inputs)"
  shows "process_inventory_new sha WorkerInitialPostExec (initial_entries d)
      = Inr (inventory_value sha WorkerInitialPostExec (initial_entries d))"
    "process_inventory_new sha WorkerExpectedPostTransfer (transfer_entries d (observation # inputs))
      = Inr (inventory_value sha WorkerExpectedPostTransfer (transfer_entries d (observation # inputs)))"
    "campaign_total WorkerExpectedPostTransfer (transfer_entries d (observation # inputs)) = length inputs"
proof -
  show total: "campaign_total WorkerExpectedPostTransfer (transfer_entries d (observation # inputs)) = length inputs"
    by (simp add: campaign_total_def)
  have "inventory_shape WorkerInitialPostExec (initial_entries d)"
    by (simp add: inventory_shape_def campaign_total_def)
  then show "process_inventory_new sha WorkerInitialPostExec (initial_entries d)
      = Inr (inventory_value sha WorkerInitialPostExec (initial_entries d))"
    using assms(1) by (simp add: process_inventory_iff)
  have "inventory_shape WorkerExpectedPostTransfer (transfer_entries d (observation # inputs))"
    using assms(2)
    by (auto simp: inventory_shape_def campaign_total_def manifest_ok_def transferable_def campaign_roles_iff)
  then show "process_inventory_new sha WorkerExpectedPostTransfer (transfer_entries d (observation # inputs))
      = Inr (inventory_value sha WorkerExpectedPostTransfer (transfer_entries d (observation # inputs)))"
    using assms(1,3) by (simp add: process_inventory_iff)
qed

text \<open>What the supervisor alone knows of a bootstrap frame.\<close>

record BootstrapShare =
  bs_input :: ProviderSessionInput
  bs_accepted :: bytes
  bs_endpoint :: bytes
  bs_namespace :: DescriptorIdentity
  bs_observation :: FdCommitment
  bs_inputs :: "FdCommitment list"

definition bootstrap_share_wf :: "BootstrapShare \<Rightarrow> bool" where
  "bootstrap_share_wf h \<longleftrightarrow> session_input_wf (bs_input h) \<and> length (bs_accepted h) = 32
     \<and> length (bs_endpoint h) = 32 \<and> commitment_wf (bs_observation h) \<and> list_all commitment_wf (bs_inputs h)"

abbreviation bs_commitments :: "BootstrapShare \<Rightarrow> FdCommitment list" where
  "bs_commitments h \<equiv> bs_observation h # bs_inputs h"

definition share_body ::
    "(bytes \<Rightarrow> bytes) \<Rightarrow> bytes \<Rightarrow> u32 \<Rightarrow> u32 \<Rightarrow> BootstrapShare \<Rightarrow> ProviderSession \<Rightarrow> bytes" where
  "share_body sha d uid gid h s =
     bootstrap_bytes (bs_accepted h) s (bs_endpoint h) (bs_namespace h) uid gid
       (pi_digest (inventory_value sha WorkerInitialPostExec (initial_entries d)))
       (pi_digest (inventory_value sha WorkerExpectedPostTransfer (transfer_entries d (bs_commitments h))))
       (manifest_value sha (bs_observation h) (bs_inputs h))"

definition bootstrap_frame ::
    "(bytes \<Rightarrow> bytes) \<Rightarrow> WorkerBootstrapInboundInput \<Rightarrow> BootstrapShare \<Rightarrow> ProviderSession \<Rightarrow> WireFrame" where
  "bootstrap_frame sha i h s =
     frame_of (bootstrap_input s (worker_genesis sha (binding_from_session s) (bs_accepted h))
       (share_body sha (ep_digest (wi_local_worker_endpoint i)) (wi_expected_outer_uid i) (wi_expected_outer_gid i) h s)
       (wi_observed_credentials i) (bs_commitments h) (Suc (length (bs_inputs h))))"

definition share_inbound ::
    "(bytes \<Rightarrow> bytes) \<Rightarrow> WorkerBootstrapInboundInput \<Rightarrow> BootstrapShare \<Rightarrow> ProviderSession \<Rightarrow> WorkerBootstrapInbound" where
  "share_inbound sha i h s =
     (let d = ep_digest (wi_local_worker_endpoint i) in
      \<lparr>wc_session = s, wc_bootstrap_digest = sha (transcript_bytes (bootstrap_frame sha i h s)),
       wc_receiver_user_namespace = bs_namespace h, wc_expected_outer_uid = wi_expected_outer_uid i,
       wc_expected_outer_gid = wi_expected_outer_gid i,
       wc_worker_initial_inventory = inventory_value sha WorkerInitialPostExec (initial_entries d),
       wc_worker_transfer_inventory = inventory_value sha WorkerExpectedPostTransfer (transfer_entries d (bs_commitments h)),
       wc_worker_manifest = manifest_value sha (bs_observation h) (bs_inputs h),
       wc_transfer_commitments = bs_commitments h\<rparr>)"

definition bootstrap_ok ::
    "(bytes \<Rightarrow> bytes) \<Rightarrow> WorkerBootstrapInboundInput \<Rightarrow> BootstrapShare \<Rightarrow> ProviderSession \<Rightarrow> bool" where
  "bootstrap_ok sha i h s \<longleftrightarrow>
     provider_session_new sha (bs_input h) = Inr s
     \<and> pc_process_id (wi_observed_credentials i) = ps_supervisor_pid (bs_input h)
     \<and> pc_user_id (wi_observed_credentials i) = 0 \<and> pc_group_id (wi_observed_credentials i) = 0
     \<and> ep_role (wi_local_worker_endpoint i) = EpWorker
     \<and> pv_worker_channel s = sha (WORKER_CHANNEL_IDENTITY_DOMAIN @ bs_endpoint h @ ep_digest (wi_local_worker_endpoint i))
     \<and> namespace_ok (bs_namespace h) \<and> manifest_ok (bs_observation h) (bs_inputs h)"

lemma session_new_wf:
  assumes "digests_32 sha" "session_input_wf i" "provider_session_new sha i = Inr s"
  shows "session_wf s" "pv_preimage s = session_bytes i" "pv_session_id s = sha (pv_preimage s)"
  using assms by (auto simp: provider_session_iff session_wf_def session_input_wf_def digests_32_def)

lemma manifest_digests:
  assumes "digests_32 sha"
  shows "length (wm_digest (manifest_value sha observation cs)) = 32" "length (pi_digest (inventory_value sha k es)) = 32"
  using assms by (simp_all add: manifest_value_def inventory_value_def digests_32_def)

lemma share_manifest:
  assumes "bootstrap_share_wf h" "bootstrap_ok sha i h s"
  shows "length (bs_inputs h) \<le> 15" "manifest_ok (bs_observation h) (bs_inputs h)"
    "wm_bytes (manifest_value sha (bs_observation h) (bs_inputs h)) = manifest_bytes (bs_observation h) (bs_inputs h)"
    "length (manifest_bytes (bs_observation h) (bs_inputs h)) = 99 + 53 * length (bs_inputs h)"
  using assms length_manifest_bytes [of "bs_observation h" "bs_inputs h"]
  by (simp_all add: bootstrap_ok_def manifest_ok_def manifest_value_def bootstrap_share_wf_def)

lemma length_share_body:
  assumes "digests_32 sha" "bootstrap_share_wf h" "bootstrap_ok sha i h s"
  shows "length (share_body sha d uid gid h s) = 773 + 53 * length (bs_inputs h)"
proof -
  have "session_wf s" using assms session_new_wf(1) by (auto simp: bootstrap_ok_def bootstrap_share_wf_def)
  then show ?thesis
    using assms share_manifest(3,4) [OF assms(2,3)] manifest_digests [OF assms(1)]
    by (simp add: share_body_def length_bootstrap_bytes bootstrap_share_wf_def)
qed

lemma manifest_roles:
  assumes "manifest_ok observation inputs"
  shows "map fc_role (observation # inputs) = Observation # map (\<lambda>j. CampaignInput (word_of_nat j)) [0..<length inputs]"
    "distinct (map fc_role (observation # inputs))" "roles_total (observation # inputs) = 1 + 2 * length inputs"
proof -
  have small: "length inputs \<le> 15" and roles: "map fc_role inputs
      = map (\<lambda>j. CampaignInput (word_of_nat j)) [0..<length inputs]"
    using assms by (auto simp: manifest_ok_def campaign_roles_iff)
  then show all: "map fc_role (observation # inputs)
      = Observation # map (\<lambda>j. CampaignInput (word_of_nat j)) [0..<length inputs]"
    using assms by (simp add: manifest_ok_def transferable_def)
  have "inj_on (\<lambda>j. CampaignInput (word_of_nat j)) {0..<length inputs}"
  proof (rule inj_onI)
    fix a b assume "a \<in> {0..<length inputs}" "b \<in> {0..<length inputs}"
      "CampaignInput (word_of_nat a) = CampaignInput (word_of_nat b)"
    then have "unat (word_of_nat a :: u8) = unat (word_of_nat b :: u8)" "a < 16" "b < 16" using small by auto
    then show "a = b" by (simp add: unat_of_nat)
  qed
  then show "distinct (map fc_role (observation # inputs))"
    unfolding all by (auto simp: distinct_map)
  have "roles_total (observation # inputs) = sum_list (map role_encoded_len (map fc_role (observation # inputs)))"
    by (simp add: comp_def)
  then show "roles_total (observation # inputs) = 1 + 2 * length inputs"
    unfolding all by (simp add: comp_def sum_list_triv)
qed

lemma bootstrap_frame_ok:
  assumes "digests_32 sha" "bootstrap_share_wf h" "bootstrap_ok sha i h s"
  shows "frame_ok (bootstrap_frame sha i h s)" "frame_wf (bootstrap_frame sha i h s)"
    "input_ok (bootstrap_input s previous (share_body sha d uid gid h s) creds (bs_commitments h) (Suc (length (bs_inputs h))))"
proof -
  note m = share_manifest [OF assms(2,3)]
  have "list_all commitment_ok (bs_commitments h)" "length (bs_commitments h) \<le> 16"
    using m(1,2) by (simp_all add: manifest_ok_def transferable_def)
  then show input: "input_ok (bootstrap_input s previous (share_body sha d uid gid h s) creds (bs_commitments h)
      (Suc (length (bs_inputs h))))" for previous d uid gid creds
    using m(1) manifest_roles(2,3) [OF m(2)] length_share_body [OF assms]
    by (simp add: input_ok_def fds_ok_def bootstrap_input_def)
  then show "frame_ok (bootstrap_frame sha i h s)" unfolding bootstrap_frame_def by (rule frame_of_ok)
  have "session_wf s" using assms session_new_wf(1) by (auto simp: bootstrap_ok_def bootstrap_share_wf_def)
  then show "frame_wf (bootstrap_frame sha i h s)"
    using assms(1,2) by (simp add: bootstrap_frame_def frame_of_def bootstrap_input_def frame_wf_def session_wf_def
        worker_genesis_def digests_32_def bootstrap_share_wf_def)
qed

lemma bootstrap_lengths_eq:
  "n \<le> 15 \<Longrightarrow> bootstrap_lengths n = Inr (99 + n * 53, 674 + (99 + n * 53), 82 + (1 + n * 2),
    82 + (1 + n * 2) + (674 + (99 + n * 53)))"
  by (simp add: bootstrap_lengths_def checked_mul_usize_def checked_add_usize_def usize_limit_def size_defs body_size_defs
      FRAME_FIXED_HEADER_BYTES_def)

lemma bootstrap_sound:
  assumes sha: "digests_32 sha" and local: "length (ep_digest (wi_local_worker_endpoint i)) = 32"
    and read: "bootstrap_inbound_new sha i = Inr w"
  obtains h s where "bootstrap_share_wf h" "bootstrap_ok sha i h s"
    "wi_actual_rights_count i = Suc (length (bs_inputs h))"
    "wi_received_raw_frame i = raw_bytes (bootstrap_frame sha i h s)" "w = share_inbound sha i h s"
proof -
  let ?raw = "wi_received_raw_frame i"
  define n where "n = unat (?raw ! 81) - 1"
  have n: "unat (?raw ! 81) = Suc n" "n \<le> 15" "wi_actual_rights_count i = Suc n"
    using read by (auto simp: bootstrap_inbound_new_def Let_def n_def size_defs)
  obtain body accepted preimage session pid endpoint namespace m cs initial transfer entries frame td x where
    steps: "check_bootstrap_header ?raw (674 + (99 + n * 53)) (82 + (1 + n * 2) + (674 + (99 + n * 53))) = Inr ()"
      "body = slice ?raw (82 + (1 + n * 2)) (length ?raw)"
      "provider_session_from_preimage sha preimage = Inr (session, pid)"
      "check_bootstrap_session ?raw body session pid i = Inr ()"
      "g0_fixed_bytes 32 body 43 WorkerBootstrapFrame = Inr accepted"
      "g0_fixed_bytes 32 body 512 WorkerBootstrapFrame = Inr endpoint"
      "map_err (\<lambda>_. G0ContractDrift WorkerBootstrapFrame)
         (channel_worker_child sha (wi_local_worker_endpoint i) endpoint session) = Inr x"
      "g0_descriptor_identity body 544 WorkerBootstrapFrame = Inr namespace"
      "worker_manifest_from_raw sha (slice body 642 (642 + (99 + n * 53))) n = Inr (m, cs)"
      "process_inventory_new sha WorkerInitialPostExec (initial_entries (ep_digest (wi_local_worker_endpoint i))) = Inr initial"
      "number_entries 0 cs = Inr entries"
      "process_inventory_new sha WorkerExpectedPostTransfer
         ((3, endpoint_fd (ep_digest (wi_local_worker_endpoint i)) True) # entries) = Inr transfer"
      "body = (u16_to_le 39 @ WORKER_BOOTSTRAP_BODY_DOMAIN) @ u16_to_le FRAME_VERSION @ accepted @ pv_preimage session
            @ pv_generator_nonce_commitment session @ pv_supervisor_nonce_commitment session
            @ endpoint @ encode_descriptor_identity namespace
            @ u32_to_le (wi_expected_outer_uid i) @ u32_to_le (wi_expected_outer_gid i)
            @ pi_digest initial @ pi_digest transfer @ u16_to_le (word_of_nat (99 + n * 53))
            @ wm_bytes m @ wm_digest m"
      "frame_new (bootstrap_input session (worker_genesis sha (binding_from_session session) accepted)
         body (wi_observed_credentials i) cs (Suc n)) = Inr frame"
      "encode_raw_frame frame = Inr ?raw"
      "transcript_candidate_prepare sha session 0 (worker_genesis sha (binding_from_session session) accepted) frame = Inr td"
      "w = \<lparr>wc_session = session, wc_bootstrap_digest = td_digest td,
           wc_receiver_user_namespace = namespace,
           wc_expected_outer_uid = wi_expected_outer_uid i,
           wc_expected_outer_gid = wi_expected_outer_gid i,
           wc_worker_initial_inventory = initial, wc_worker_transfer_inventory = transfer,
           wc_worker_manifest = m, wc_transfer_commitments = cs\<rparr>"
  proof -
    have idx: "get_index ?raw 81 = Some (?raw ! 81)"
      using read by (auto simp: bootstrap_inbound_new_def Let_def get_index_def split: if_splits)
    have len16: "u16_try_from (99 + n * 53) = Some (word_of_nat (99 + n * 53))"
      using n(2) by (simp add: u16_try_from_def)
    have end_offset: "checked_add_usize 642 (99 + n * 53) = Some (642 + (99 + n * 53))"
      using n(2) by (simp add: usize_limit_def)
    from read show thesis
      by (simp only: bootstrap_inbound_new_def Let_def idx n(1) bootstrap_lengths_eq [OF n(2)] end_offset
          len16 push_lp16_bodies ok_or_simps and_then_simps diff_Suc_1
          and_then_eq_Inr ok_or_eq_Inr split_paired_Ex prod.case worker_endpoint_fd_eq
          get_range_eq_Some drift_iff sum.inject not_not)
        (elim exE conjE, rule that, (assumption | simp)+)
  qed
  have body: "length body = 773 + 53 * n"
    using steps(1) unfolding steps(2) by (auto simp: check_bootstrap_header_def Let_def)
  have facts: "length accepted = 32" "length endpoint = 32" "namespace_ok namespace"
    using steps(5,6,8) body by (auto simp: usize_limit_def)
  obtain psi where psi: "session_input_wf psi" "ps_supervisor_pid psi = pid" "provider_session_new sha psi = Inr session"
    "pv_preimage session = preimage"
    using steps(3) unfolding session_read_iff by blast
  obtain observation inputs where cs: "cs = observation # inputs" "length inputs = n" "list_all commitment_wf cs"
    "transfer_manifest_new sha observation inputs = Inr m"
    using steps(9) unfolding worker_manifest_iff [OF n(2)] by blast
  then have m: "manifest_ok observation inputs" "m = manifest_value sha observation inputs"
    by (simp_all add: transfer_manifest_iff)
  define h where "h = \<lparr>bs_input = psi, bs_accepted = accepted, bs_endpoint = endpoint, bs_namespace = namespace,
    bs_observation = observation, bs_inputs = inputs\<rparr>"
  have wf: "bootstrap_share_wf h" using psi(1) facts cs by (simp add: bootstrap_share_wf_def h_def)
  have ok: "bootstrap_ok sha i h session"
    using psi steps(4,7) facts(3) m(1) body
    by (auto simp: bootstrap_ok_def h_def check_bootstrap_session_def Let_def channel_worker_child_def
        channel_from_digests_def)
  have entries: "entries = number_from 4 cs" using steps(11) number_entries_iff [of cs 0] cs n(2) by simp
  have inventories: "initial = inventory_value sha WorkerInitialPostExec (initial_entries (ep_digest (wi_local_worker_endpoint i)))"
    "transfer = inventory_value sha WorkerExpectedPostTransfer
       (transfer_entries (ep_digest (wi_local_worker_endpoint i)) (bs_commitments h))"
    using steps(10,12) worker_inventories [OF local m(1)] cs by (simp_all add: entries h_def)
  have "wm_bytes m = manifest_bytes observation inputs" using m(2) by (simp add: manifest_value_def)
  then have len: "length (wm_bytes m) = 99 + n * 53"
    using length_manifest_bytes [of observation inputs] m cs by simp
  have "body = share_body sha (ep_digest (wi_local_worker_endpoint i)) (wi_expected_outer_uid i)
      (wi_expected_outer_gid i) h session"
    unfolding steps(13) share_body_def bootstrap_bytes_def inventories [symmetric]
    using m(2) len by (simp add: h_def)
  then have frame: "frame = bootstrap_frame sha i h session"
    using steps(14) cs by (simp add: frame_new_iff bootstrap_frame_def h_def)
  note frame_facts = bootstrap_frame_ok [OF sha wf ok]
  show thesis
  proof (rule that [OF wf ok])
    show "wi_actual_rights_count i = Suc (length (bs_inputs h))" using n(3) cs by (simp add: h_def)
    show "?raw = raw_bytes (bootstrap_frame sha i h session)"
      using steps(15) by (simp add: frame encode_raw_frame_iff)
    have "td_digest td = sha (transcript_bytes frame)"
      using steps(16) frame_facts(2)
      by (auto simp: transcript_candidate_prepare_def prepare_transcript_iff frame)
    then show "w = share_inbound sha i h session"
      using steps(17) inventories m(2) cs by (simp add: share_inbound_def Let_def frame h_def)
  qed
qed

lemma numbered_pairs:
  "j < n \<Longrightarrow> concat (map (\<lambda>j. [0, word_of_nat j :: u8]) [k..<k + n]) ! (2 * j) = 0
    \<and> concat (map (\<lambda>j. [0, word_of_nat j :: u8]) [k..<k + n]) ! Suc (2 * j) = word_of_nat (k + j)"
proof (induction j arbitrary: k n)
  case 0
  then show ?case by (cases n) (simp_all add: upt_rec [of k])
next
  case (Suc j)
  then obtain r where n: "n = Suc r" "j < r" by (cases n) auto
  have "[k..<k + n] = k # [Suc k..<Suc k + r]" by (simp add: n(1) upt_rec [of k])
  then show ?case using Suc.IH [OF n(2), of "Suc k"] by simp
qed

lemma check_roles_complete:
  assumes "\<And>j. j < r \<Longrightarrow> raw ! (83 + 2 * (k + j)) = 0 \<and> raw ! (84 + 2 * (k + j)) = word_of_nat (k + j)"
    and "83 + 2 * (k + r) \<le> length raw" "k + r \<le> 15"
  shows "check_campaign_role_bytes raw k r = Inr ()"
  using assms
proof (induction r arbitrary: k)
  case (Suc r)
  have "check_campaign_role_bytes raw (Suc k) r = Inr ()"
    using Suc.prems(1) [of "Suc j" for j] Suc.prems(2,3) by (intro Suc.IH) auto
  moreover have "raw ! (83 + 2 * k) = 0" "raw ! (84 + 2 * k) = word_of_nat k" using Suc.prems(1) [of 0] by simp_all
  ultimately show ?case
    using Suc.prems(2,3) by (simp add: Let_def usize_limit_def u8_try_from_def mult.commute [of k])
qed simp

lemma bootstrap_raw_slices:
  assumes "digests_32 sha" "bootstrap_share_wf h" "bootstrap_ok sha i h s"
    and raw: "raw = raw_bytes (bootstrap_frame sha i h s)"
    and n: "n = length (bs_inputs h)"
  shows "slice raw 0 8 = FRAME_MAGIC \<and> slice raw 8 10 = u16_to_le FRAME_VERSION
    \<and> raw ! 10 = direction_code SupervisorToWorker \<and> raw ! 11 = 0 \<and> raw ! 12 = wire_code UserMapsVerified
    \<and> slice raw 13 17 = u32_to_le (word_of_nat (773 + 53 * n)) \<and> slice raw 17 49 = pv_session_id s
    \<and> raw ! 81 = word_of_nat (Suc n) \<and> raw ! 82 = 8
    \<and> slice raw 83 (83 + 2 * n) = concat (map (\<lambda>j. [0, word_of_nat j]) [0..<n])
    \<and> drop (83 + 2 * n) raw = share_body sha (ep_digest (wi_local_worker_endpoint i)) (wi_expected_outer_uid i)
        (wi_expected_outer_gid i) h s
    \<and> length raw = 856 + 55 * n"
proof -
  let ?body = "share_body sha (ep_digest (wi_local_worker_endpoint i)) (wi_expected_outer_uid i) (wi_expected_outer_gid i) h s"
  let ?genesis = "worker_genesis sha (binding_from_session s) (bs_accepted h)"
  let ?roles = "concat (map (\<lambda>j. [0, word_of_nat j :: u8]) [0..<n])"
  have s: "session_wf s" using assms session_new_wf(1) by (auto simp: bootstrap_ok_def bootstrap_share_wf_def)
  have lens: "length ?body = 773 + 53 * n" "length ?genesis = 32" "length ?roles = 2 * n"
    using length_share_body [OF assms(1-3)] n assms(1)
    by (simp_all add: worker_genesis_def digests_32_def length_concat comp_def sum_list_triv)
  have roles: "concat (map (\<lambda>c. encode_role (fc_role c)) (bs_commitments h)) = [8] @ ?roles"
  proof -
    have "concat (map (\<lambda>c. encode_role (fc_role c)) (bs_commitments h))
        = concat (map encode_role (map fc_role (bs_commitments h)))" by (simp add: comp_def)
    then show ?thesis
      unfolding manifest_roles(1) [OF share_manifest(2) [OF assms(2,3)]] n by (simp add: comp_def)
  qed
  have fields: "raw = concat [FRAME_MAGIC, u16_to_le FRAME_VERSION, [direction_code SupervisorToWorker], [0],
      [wire_code UserMapsVerified], u32_to_le (word_of_nat (773 + 53 * n)), pv_session_id s, ?genesis,
      [word_of_nat (Suc n)], [8], ?roles, ?body]"
    using roles lens(1) n
    by (simp add: raw raw_bytes_def bootstrap_frame_def frame_of_def bootstrap_input_def encode_raw_frame_parts_def)
  have "at_slices raw 0 [FRAME_MAGIC, u16_to_le FRAME_VERSION, [direction_code SupervisorToWorker], [0],
      [wire_code UserMapsVerified], u32_to_le (word_of_nat (773 + 53 * n)), pv_session_id s, ?genesis,
      [word_of_nat (Suc n)], [8], ?roles, ?body]"
    using fields unfolding string_slices .
  then have cut: "slice raw 0 8 = FRAME_MAGIC" "slice raw 8 10 = u16_to_le FRAME_VERSION"
    "slice raw 10 (Suc 10) = [direction_code SupervisorToWorker]" "slice raw 11 (Suc 11) = [0]"
    "slice raw 12 (Suc 12) = [wire_code UserMapsVerified]"
    "slice raw 13 17 = u32_to_le (word_of_nat (773 + 53 * n))" "slice raw 17 49 = pv_session_id s"
    "slice raw 81 (Suc 81) = [word_of_nat (Suc n)]" "slice raw 82 (Suc 82) = [8]"
    "slice raw 83 (83 + 2 * n) = ?roles" "slice raw (83 + 2 * n) (length raw) = ?body" "length raw = 856 + 55 * n"
    using lens s by (auto simp add: session_wf_def algebra_simps)
  then have "drop (83 + 2 * n) raw = ?body" by (simp add: slice_def)
  with cut show ?thesis unfolding byte_slice by simp
qed

lemma bootstrap_body_slices:
  assumes "digests_32 sha" "bootstrap_share_wf h" "bootstrap_ok sha i h s" "length d = 32"
    and body: "body = share_body sha d uid gid h s" and n: "n = length (bs_inputs h)"
  shows "slice body 0 2 = u16_to_le 39 \<and> slice body 2 41 = WORKER_BOOTSTRAP_BODY_DOMAIN
    \<and> slice body 41 43 = u16_to_le FRAME_VERSION \<and> slice body 43 75 = bs_accepted h
    \<and> slice body 75 448 = pv_preimage s \<and> slice body 448 480 = pv_generator_nonce_commitment s
    \<and> slice body 480 512 = pv_supervisor_nonce_commitment s \<and> slice body 512 544 = bs_endpoint h
    \<and> slice body 544 568 = encode_descriptor_identity (bs_namespace h)
    \<and> slice body 568 572 = u32_to_le uid \<and> slice body 572 576 = u32_to_le gid
    \<and> slice body 576 608 = sha (inventory_bytes WorkerInitialPostExec (initial_entries d))
    \<and> slice body 608 640 = sha (inventory_bytes WorkerExpectedPostTransfer (transfer_entries d (bs_commitments h)))
    \<and> slice body 640 642 = u16_to_le (word_of_nat (99 + 53 * n))
    \<and> slice body 642 (741 + 53 * n) = manifest_bytes (bs_observation h) (bs_inputs h)
    \<and> slice body (741 + 53 * n) (773 + 53 * n) = sha (manifest_bytes (bs_observation h) (bs_inputs h))
    \<and> length body = 773 + 53 * n"
proof -
  let ?fields = "[u16_to_le 39, WORKER_BOOTSTRAP_BODY_DOMAIN, u16_to_le FRAME_VERSION, bs_accepted h, pv_preimage s,
      pv_generator_nonce_commitment s, pv_supervisor_nonce_commitment s, bs_endpoint h,
      encode_descriptor_identity (bs_namespace h), u32_to_le uid, u32_to_le gid,
      sha (inventory_bytes WorkerInitialPostExec (initial_entries d)),
      sha (inventory_bytes WorkerExpectedPostTransfer (transfer_entries d (bs_commitments h))),
      u16_to_le (word_of_nat (99 + 53 * n)), manifest_bytes (bs_observation h) (bs_inputs h),
      sha (manifest_bytes (bs_observation h) (bs_inputs h))]"
  have s: "session_wf s" using assms session_new_wf(1) by (auto simp: bootstrap_ok_def bootstrap_share_wf_def)
  note m = share_manifest [OF assms(2,3)]
  have "body = concat ?fields"
    using m n by (simp add: body share_body_def bootstrap_bytes_def inventory_value_def manifest_value_def)
  then have "at_slices body 0 ?fields" unfolding string_slices .
  then show ?thesis
    using s m(4) n assms(1,2) length_share_body [OF assms(1-3)] body
    by (simp add: session_wf_def bootstrap_share_wf_def digests_32_def numeral_2_eq_2 numeral_3_eq_3)
qed

lemma bootstrap_complete:
  assumes sha: "digests_32 sha" and local: "length (ep_digest (wi_local_worker_endpoint i)) = 32"
    and h: "bootstrap_share_wf h" "bootstrap_ok sha i h s"
    and rights: "wi_actual_rights_count i = Suc (length (bs_inputs h))"
    and raw: "wi_received_raw_frame i = raw_bytes (bootstrap_frame sha i h s)"
  shows "bootstrap_inbound_new sha i = Inr (share_inbound sha i h s)"
proof -
  define n where "n = length (bs_inputs h)"
  define body where "body = share_body sha (ep_digest (wi_local_worker_endpoint i)) (wi_expected_outer_uid i)
    (wi_expected_outer_gid i) h s"
  let ?raw = "wi_received_raw_frame i"
  let ?m = "manifest_value sha (bs_observation h) (bs_inputs h)"
  let ?d = "ep_digest (wi_local_worker_endpoint i)"
  let ?initial = "inventory_value sha WorkerInitialPostExec (initial_entries ?d)"
  let ?transfer = "inventory_value sha WorkerExpectedPostTransfer (transfer_entries ?d (bs_commitments h))"
  note m = share_manifest [OF h] and frame = bootstrap_frame_ok [OF sha h]
  note r = bootstrap_raw_slices [OF sha h raw n_def, folded body_def]
  note b = bootstrap_body_slices [OF sha h local body_def n_def]
  have n: "n \<le> 15" using m(1) by (simp add: n_def)
  have counts: "unat (word_of_nat (Suc n) :: u8) = Suc n" "unat (word_of_nat (773 + 53 * n) :: u32) = 773 + 53 * n"
    "unat (word_of_nat (99 + n * 53) :: u16) = 99 + n * 53"
    using n by (simp_all add: unat_of_nat del: of_nat_Suc of_nat_add)
  have conditions: "(Suc n = 0 \<or> MAX_FRAME_FDS < Suc n \<or> wi_actual_rights_count i \<noteq> Suc n) = False"
    "(G0_MAX_INGRESS_COUNT < n) = False"
    using n rights by (simp_all add: n_def size_defs MAX_FRAME_FDS_def)
  have idx: "get_index ?raw 81 = Some (word_of_nat (Suc n))" using r by (simp add: get_index_def)
  have header: "check_bootstrap_header ?raw (674 + (99 + n * 53)) (82 + (1 + n * 2) + (674 + (99 + n * 53))) = Inr ()"
    using r counts(2) by (simp add: check_bootstrap_header_def Let_def usize_limit_def mult.commute [of n]
        del: add_2_eq_Suc add_2_eq_Suc')
  have roles: "check_campaign_role_bytes ?raw 0 n = Inr ()"
  proof (rule check_roles_complete)
    have len: "length ?raw = 856 + 55 * n" using r by blast
    fix j assume j: "j < n"
    then have "slice ?raw 83 (83 + 2 * n) ! (2 * j) = ?raw ! (83 + 2 * j)"
      "slice ?raw 83 (83 + 2 * n) ! Suc (2 * j) = ?raw ! (84 + 2 * j)"
      using len by (simp_all add: slice_def)
    then show "?raw ! (83 + 2 * (0 + j)) = 0 \<and> ?raw ! (84 + 2 * (0 + j)) = word_of_nat (0 + j)"
      using r numbered_pairs [OF j, of 0] by simp
  qed (use r n in simp_all)
  have body_range: "get_range ?raw (82 + (1 + n * 2)) (length ?raw) = Some body"
  proof -
    have "drop (83 + 2 * n) ?raw = body" "length ?raw = 856 + 55 * n" "length body = 773 + 53 * n" using r b by blast+
    then show ?thesis by (simp add: slice_def mult.commute [of n])
  qed
  have domain: "check_bootstrap_domain body = Inr ()"
    using b exI [of "\<lambda>x :: u16. unat x = 39" 39] by (simp add: check_bootstrap_domain_def Let_def usize_limit_def word_unat_eq_iff
        del: add_2_eq_Suc add_2_eq_Suc')
  have reads: "g0_fixed_bytes 32 body 43 WorkerBootstrapFrame = Inr (bs_accepted h)"
    "g0_fixed_bytes 32 body 512 WorkerBootstrapFrame = Inr (bs_endpoint h)"
    "get_range body 75 448 = Some (pv_preimage s)"
    "g0_descriptor_identity body 544 WorkerBootstrapFrame = Inr (bs_namespace h)"
    "g0_u16_le body 640 WorkerBootstrapFrame = Inr (word_of_nat (99 + n * 53))"
    using b h(2) by (simp_all add: usize_limit_def bootstrap_ok_def mult.commute [of n])
  have session: "provider_session_from_preimage sha (pv_preimage s) = Inr (s, ps_supervisor_pid (bs_input h))"
    unfolding session_read_iff using h by (auto simp: bootstrap_ok_def bootstrap_share_wf_def)
  have checks: "check_bootstrap_session ?raw body s (ps_supervisor_pid (bs_input h)) i = Inr ()"
    using r b h(2) by (simp add: check_bootstrap_session_def Let_def usize_limit_def bootstrap_ok_def)
  have channel: "\<exists>c. channel_worker_child sha (wi_local_worker_endpoint i) (bs_endpoint h) s = Inr c"
    using h(2) by (simp add: channel_worker_child_def channel_from_digests_def bootstrap_ok_def)
  have end_offset: "checked_add_usize 642 (99 + n * 53) = Some (642 + (99 + n * 53))"
    using n by (simp add: usize_limit_def)
  have manifest: "get_range body 642 (642 + (99 + n * 53)) = Some (wm_bytes ?m)"
    "expect_range body (642 + (99 + n * 53)) (642 + (99 + n * 53) + 32) WorkerBootstrapFrame (wm_digest ?m) = Inr ()"
    "worker_manifest_from_raw sha (wm_bytes ?m) n = Inr (?m, bs_commitments h)"
    "expect_range body 576 608 WorkerBootstrapFrame (pi_digest ?initial) = Inr ()"
    "expect_range body 608 640 WorkerBootstrapFrame (pi_digest ?transfer) = Inr ()"
  proof -
    show "worker_manifest_from_raw sha (wm_bytes ?m) n = Inr (?m, bs_commitments h)"
      unfolding worker_manifest_iff [OF n] using h(1) m(2)
      by (auto simp: n_def transfer_manifest_iff bootstrap_share_wf_def)
  qed (use b in \<open>simp_all add: manifest_value_def inventory_value_def mult.commute [of n]\<close>)
  have entries: "number_entries 0 (bs_commitments h) = Inr (number_from 4 (bs_commitments h))"
    using number_entries_iff [of "bs_commitments h" 0] m(1) by simp
  have inventories: "process_inventory_new sha WorkerInitialPostExec (initial_entries ?d) = Inr ?initial"
    "process_inventory_new sha WorkerExpectedPostTransfer (transfer_entries ?d (bs_commitments h)) = Inr ?transfer"
    using worker_inventories [OF local m(2)] h(1) by (simp_all add: bootstrap_share_wf_def)
  have len16: "u16_try_from (99 + n * 53) = Some (word_of_nat (99 + n * 53))"
    using n by (simp add: u16_try_from_def)
  have "length (wm_bytes ?m) = 99 + n * 53" using m(3,4) by (simp add: n_def)
  then have canonical: "(u16_to_le 39 @ WORKER_BOOTSTRAP_BODY_DOMAIN) @ u16_to_le FRAME_VERSION @ bs_accepted h @ pv_preimage s
            @ pv_generator_nonce_commitment s @ pv_supervisor_nonce_commitment s
            @ bs_endpoint h @ encode_descriptor_identity (bs_namespace h)
            @ u32_to_le (wi_expected_outer_uid i) @ u32_to_le (wi_expected_outer_gid i)
            @ pi_digest ?initial @ pi_digest ?transfer @ u16_to_le (word_of_nat (99 + n * 53))
            @ wm_bytes ?m @ wm_digest ?m = body"
    by (simp add: body_def share_body_def bootstrap_bytes_def)
  let ?g = "worker_genesis sha (binding_from_session s) (bs_accepted h)"
  have sent: "frame_new (bootstrap_input s ?g body (wi_observed_credentials i) (bs_commitments h) (Suc n))
      = Inr (bootstrap_frame sha i h s)"
    using frame(3) by (simp add: frame_new_iff bootstrap_frame_def body_def n_def)
  have encoded: "encode_raw_frame (bootstrap_frame sha i h s) = Inr ?raw" using frame(1) raw by (simp add: encode_raw_frame_iff)
  have "prepare_transcript_bytes (pv_session_id s) 0 ?g (bootstrap_frame sha i h s)
      = Inr (transcript_bytes (bootstrap_frame sha i h s))"
    using frame(1) by (simp add: prepare_transcript_iff [OF frame(2)])
      (simp add: bootstrap_frame_def frame_of_def bootstrap_input_def)
  then have candidate: "transcript_candidate_prepare sha s 0 ?g (bootstrap_frame sha i h s)
      = Inr \<lparr>td_transcript = transcript_bytes (bootstrap_frame sha i h s),
             td_digest = sha (transcript_bytes (bootstrap_frame sha i h s))\<rparr>"
    by (simp add: transcript_candidate_prepare_def)
  obtain c where channel: "channel_worker_child sha (wi_local_worker_endpoint i) (bs_endpoint h) s = Inr c"
    using channel by blast
  have ok: "drift field False = Inr ()" for field by simp
  show ?thesis
    by (simp only: bootstrap_inbound_new_def Let_def idx counts(1,3) conditions diff_Suc_1 bootstrap_lengths_eq [OF n]
        header roles body_range domain reads session checks channel end_offset manifest entries inventories len16
        canonical sent encoded candidate worker_endpoint_fd_eq push_lp16_bodies map_err_simps ok_or_simps
        and_then_simps prod.case ok not_True_eq_False share_inbound_def TranscriptCandidate.simps simp_thms)
qed

section \<open>The worker's answer\<close>

definition share_credentials :: "WorkerBootstrapInboundInput \<Rightarrow> BootstrapShare \<Rightarrow> PeerCredentials \<Rightarrow> bool" where
  "share_credentials i h creds \<longleftrightarrow> pc_user_namespace creds = bs_namespace h
     \<and> pc_user_id creds = wi_expected_outer_uid i \<and> pc_group_id creds = wi_expected_outer_gid i"

definition answer_frame ::
    "(bytes \<Rightarrow> bytes) \<Rightarrow> WorkerBootstrapInboundInput \<Rightarrow> BootstrapShare \<Rightarrow> ProviderSession \<Rightarrow> PeerCredentials \<Rightarrow> WireFrame" where
  "answer_frame sha i h s creds =
     (let w = share_inbound sha i h s in
      frame_of (exec_bound_input s (wc_bootstrap_digest w)
        (exec_bound_bytes s (pi_digest (wc_worker_initial_inventory w)) (pi_digest (wc_worker_transfer_inventory w))
          (wm_digest (wc_worker_manifest w))) creds))"

lemma answer_iff:
  assumes sha: "digests_32 sha" and h: "bootstrap_share_wf h" "bootstrap_ok sha i h s"
  shows "prepare_worker_exec_bound sha (share_inbound sha i h s) creds = Inr r \<longleftrightarrow>
    share_credentials i h creds
    \<and> r = \<lparr>wo_raw_frame = raw_bytes (answer_frame sha i h s creds),
           wo_transcript_digest = sha (transcript_bytes (answer_frame sha i h s creds))\<rparr>"
proof (cases "share_credentials i h creds")
  case True
  let ?w = "share_inbound sha i h s"
  let ?body = "exec_bound_bytes s (pi_digest (wc_worker_initial_inventory ?w))
    (pi_digest (wc_worker_transfer_inventory ?w)) (wm_digest (wc_worker_manifest ?w))"
  let ?input = "exec_bound_input s (wc_bootstrap_digest ?w) ?body creds"
  have s: "session_wf s" using sha h session_new_wf(1) by (auto simp: bootstrap_ok_def bootstrap_share_wf_def)
  have total: "campaign_total WorkerExpectedPostTransfer (transfer_entries d (bs_commitments h)) = length (bs_inputs h)" for d
    by (simp add: campaign_total_def)
  have w: "wc_session ?w = s" "length (wc_bootstrap_digest ?w) = 32"
    "pi_kind (wc_worker_initial_inventory ?w) = WorkerInitialPostExec"
    "pi_kind (wc_worker_transfer_inventory ?w) = WorkerExpectedPostTransfer"
    "pi_campaign_count (wc_worker_transfer_inventory ?w) = wm_campaign_count (wc_worker_manifest ?w)"
    "length (pi_digest (wc_worker_initial_inventory ?w)) = 32" "length (pi_digest (wc_worker_transfer_inventory ?w)) = 32"
    "length (wm_digest (wc_worker_manifest ?w)) = 32"
    using sha total by (simp_all add: share_inbound_def Let_def inventory_value_def manifest_value_def digests_32_def
        del: number_from.simps)
  have body: "worker_exec_bound_body_new s (wc_worker_initial_inventory ?w) (wc_worker_transfer_inventory ?w)
      (wc_worker_manifest ?w) = Inr ?body"
    using w by (simp add: exec_bound_body_iff [OF s])
  have len: "length ?body = 236" using w s by (simp add: exec_bound_bytes_def session_wf_def)
  have raw: "encode_worker_exec_bound_raw_frame s (wc_bootstrap_digest ?w) ?body = Inr (raw_bytes (frame_of ?input))"
    using exec_bound_raw_iff [OF w(2) s len] exec_bound_session_slices [OF s] by blast
  have input: "input_ok ?input" using child_inputs_ok(2) len by simp
  then have frame: "frame_new ?input = Inr (frame_of ?input)" "encode_raw_frame (frame_of ?input) = Inr (raw_bytes (frame_of ?input))"
    using frame_of_ok by (simp_all add: frame_new_iff encode_raw_frame_iff)
  have "frame_wf (frame_of ?input)"
    using w(2) s by (simp add: frame_of_def exec_bound_input_def frame_wf_def session_wf_def)
  then have "prepare_transcript_bytes (pv_session_id s) 1 (wc_bootstrap_digest ?w) (frame_of ?input)
      = Inr (transcript_bytes (frame_of ?input))"
    using frame_of_ok [OF input] by (simp add: prepare_transcript_iff)
      (simp add: frame_of_def exec_bound_input_def)
  then have candidate: "transcript_candidate_prepare sha s 1 (wc_bootstrap_digest ?w) (frame_of ?input)
      = Inr \<lparr>td_transcript = transcript_bytes (frame_of ?input), td_digest = sha (transcript_bytes (frame_of ?input))\<rparr>"
    by (simp add: transcript_candidate_prepare_def)
  have credentials: "pc_user_namespace creds = wc_receiver_user_namespace ?w"
    "pc_user_id creds = wc_expected_outer_uid ?w" "pc_group_id creds = wc_expected_outer_gid ?w"
    using True by (simp_all add: share_credentials_def share_inbound_def Let_def)
  have ok: "drift field False = Inr ()" for field by simp
  have "prepare_worker_exec_bound sha ?w creds
      = Inr \<lparr>wo_raw_frame = raw_bytes (frame_of ?input), wo_transcript_digest = sha (transcript_bytes (frame_of ?input))\<rparr>"
    by (simp only: prepare_worker_exec_bound_def credentials not_True_eq_False simp_thms ok w(1) body raw frame
        candidate and_then_simps TranscriptCandidate.simps)
  then show ?thesis using True by (auto simp: answer_frame_def Let_def)
next
  case False
  then have "drift WorkerBootstrapFrame (pc_user_namespace creds \<noteq> wc_receiver_user_namespace (share_inbound sha i h s)
      \<or> pc_user_id creds \<noteq> wc_expected_outer_uid (share_inbound sha i h s)
      \<or> pc_group_id creds \<noteq> wc_expected_outer_gid (share_inbound sha i h s)) = Inl (G0ContractDrift WorkerBootstrapFrame)"
    by (auto simp: share_credentials_def share_inbound_def Let_def drift_def)
  then show ?thesis using False by (simp add: prepare_worker_exec_bound_def)
qed

section \<open>Properties\<close>

definition supervisor_body_input ::
    "(bytes \<Rightarrow> bytes) \<Rightarrow> WorkerBootstrapInboundInput \<Rightarrow> BootstrapShare \<Rightarrow> ProviderSession \<Rightarrow> WorkerBootstrapBodyInput" where
  "supervisor_body_input sha i h s =
     \<lparr>wb_accepted_generator_bound_digest = bs_accepted h, wb_session = s,
      wb_supervisor_worker_endpoint = \<lparr>ep_role = EpSupervisorWorker, ep_preimage = [], ep_digest = bs_endpoint h\<rparr>,
      wb_supervisor_receiver_user_namespace = bs_namespace h,
      wb_worker_receiver_view_uid = wi_expected_outer_uid i, wb_worker_receiver_view_gid = wi_expected_outer_gid i,
      wb_worker_initial_inventory = wc_worker_initial_inventory (share_inbound sha i h s),
      wb_worker_transfer_inventory = wc_worker_transfer_inventory (share_inbound sha i h s),
      wb_worker_manifest = wc_worker_manifest (share_inbound sha i h s)\<rparr>"

lemma supervisor_body:
  assumes "digests_32 sha" "bootstrap_share_wf h" "bootstrap_ok sha i h s"
  shows "worker_bootstrap_body_new (supervisor_body_input sha i h s) = Inr (wf_body (bootstrap_frame sha i h s))"
proof -
  have s: "session_wf s" using assms session_new_wf(1) by (auto simp: bootstrap_ok_def bootstrap_share_wf_def)
  have total: "campaign_total WorkerExpectedPostTransfer (transfer_entries d (bs_commitments h)) = length (bs_inputs h)" for d
    by (simp add: campaign_total_def)
  have len: "length (wm_bytes (manifest_value sha (bs_observation h) (bs_inputs h))) \<le> 894"
    using share_manifest [OF assms(2,3)] by simp
  show ?thesis
    using s assms(1,2) total len manifest_digests [OF assms(1)]
    by (subst bootstrap_body_iff)
      (simp_all add: supervisor_body_input_def share_inbound_def Let_def bootstrap_share_wf_def
        bootstrap_frame_def frame_of_def bootstrap_input_def share_body_def, simp_all add: inventory_value_def manifest_value_def)
qed

text \<open>
  C7. The worker accepts a raw bootstrap frame exactly when a supervisor's share exists (a session
  input, the accepted generator digest, an endpoint digest, a namespace, an observation and campaign
  inputs) from which the constructors build this frame byte for byte, for the worker's own endpoint
  and expected ids, with the kernel's credentials naming the session's supervisor and one right for
  each commitment; and the body of that frame is what the supervisor's body constructor returns.
\<close>

theorem bootstrap_frame_exact:
  assumes "digests_32 sha" "length (ep_digest (wi_local_worker_endpoint i)) = 32"
  shows "bootstrap_inbound_new sha i = Inr w \<longleftrightarrow>
    (\<exists>h s. bootstrap_share_wf h \<and> bootstrap_ok sha i h s
      \<and> wi_actual_rights_count i = Suc (length (bs_inputs h))
      \<and> encode_raw_frame (bootstrap_frame sha i h s) = Inr (wi_received_raw_frame i)
      \<and> worker_bootstrap_body_new (supervisor_body_input sha i h s) = Inr (wf_body (bootstrap_frame sha i h s))
      \<and> w = share_inbound sha i h s)"
proof
  assume "bootstrap_inbound_new sha i = Inr w"
  then obtain h s where "bootstrap_share_wf h" "bootstrap_ok sha i h s"
      "wi_actual_rights_count i = Suc (length (bs_inputs h))"
      "wi_received_raw_frame i = raw_bytes (bootstrap_frame sha i h s)" "w = share_inbound sha i h s"
    by (rule bootstrap_sound [OF assms])
  then show "\<exists>h s. bootstrap_share_wf h \<and> bootstrap_ok sha i h s
      \<and> wi_actual_rights_count i = Suc (length (bs_inputs h))
      \<and> encode_raw_frame (bootstrap_frame sha i h s) = Inr (wi_received_raw_frame i)
      \<and> worker_bootstrap_body_new (supervisor_body_input sha i h s) = Inr (wf_body (bootstrap_frame sha i h s))
      \<and> w = share_inbound sha i h s"
    using bootstrap_frame_ok(1) [OF assms(1)] supervisor_body [OF assms(1)]
    by (intro exI [of _ h] exI [of _ s]) (simp add: encode_raw_frame_iff)
next
  assume "\<exists>h s. bootstrap_share_wf h \<and> bootstrap_ok sha i h s
      \<and> wi_actual_rights_count i = Suc (length (bs_inputs h))
      \<and> encode_raw_frame (bootstrap_frame sha i h s) = Inr (wi_received_raw_frame i)
      \<and> worker_bootstrap_body_new (supervisor_body_input sha i h s) = Inr (wf_body (bootstrap_frame sha i h s))
      \<and> w = share_inbound sha i h s"
  then show "bootstrap_inbound_new sha i = Inr w"
    using bootstrap_complete [OF assms] by (auto simp: encode_raw_frame_iff)
qed

text \<open>
  C21. A worker that accepted a bootstrap frame can always answer it: with any credentials that carry
  the expected outer user and group in the announced namespace the exec-bound frame is prepared and
  equals the general encoding of that frame, chained to the bootstrap transcript at ordinal one; with
  any other credentials it is refused.
\<close>

theorem worker_can_answer:
  assumes "digests_32 sha" "length (ep_digest (wi_local_worker_endpoint i)) = 32"
    and "bootstrap_inbound_new sha i = Inr w"
  shows "(is_ok (prepare_worker_exec_bound sha w creds) \<longleftrightarrow>
      pc_user_namespace creds = wc_receiver_user_namespace w \<and> pc_user_id creds = wi_expected_outer_uid i
      \<and> pc_group_id creds = wi_expected_outer_gid i)
    \<and> (prepare_worker_exec_bound sha w creds = Inr r \<longrightarrow>
        (\<exists>body. worker_exec_bound_body_new (wc_session w) (wc_worker_initial_inventory w)
            (wc_worker_transfer_inventory w) (wc_worker_manifest w) = Inr body
          \<and> and_then (frame_new (exec_bound_input (wc_session w) (wc_bootstrap_digest w) body creds)) encode_raw_frame
            = Inr (wo_raw_frame r)))"
proof -
  obtain h s where h: "bootstrap_share_wf h" "bootstrap_ok sha i h s" and w: "w = share_inbound sha i h s"
    by (rule bootstrap_sound [OF assms])
  have "is_ok (prepare_worker_exec_bound sha w creds) \<longleftrightarrow> share_credentials i h creds"
    unfolding is_ok_iff w using answer_iff [OF assms(1) h] by blast
  moreover have "wc_receiver_user_namespace w = bs_namespace h" by (simp add: w share_inbound_def Let_def)
  ultimately show ?thesis
    by (auto simp: share_credentials_def prepare_worker_exec_bound_def)
qed

definition sample_endpoint :: SeqpacketEndpoint where
  "sample_endpoint = \<lparr>ep_role = EpWorker, ep_preimage = [], ep_digest = replicate 32 6\<rparr>"

definition sample_share :: BootstrapShare where
  "sample_share =
     \<lparr>bs_input = \<lparr>ps_request = \<lparr>rq_preimage = [], rq_digest = replicate 32 1, rq_ingress_count = 0\<rparr>,
        ps_appliance_measurement = replicate 32 2, ps_supervisor_measurement = replicate 32 3,
        ps_generator_measurement = replicate 32 4, ps_worker_measurement = replicate 32 5,
        ps_generator_nonce = replicate 32 6, ps_supervisor_nonce = replicate 32 7, ps_supervisor_pid = 12,
        ps_supervisor_start_epoch = 8,
        ps_generator_channel = \<lparr>ch_kind = GeneratorChannel, ch_digest = replicate 32 9\<rparr>,
        ps_worker_channel = \<lparr>ch_kind = WorkerChannel,
          ch_digest = sample_digest (WORKER_CHANNEL_IDENTITY_DOMAIN @ replicate 32 5 @ replicate 32 6)\<rparr>\<rparr>,
      bs_accepted = replicate 32 4, bs_endpoint = replicate 32 5, bs_namespace = sample_namespace,
      bs_observation = sample_observation, bs_inputs = [sample_transferred_input]\<rparr>"

definition sample_received :: "bytes \<Rightarrow> WorkerBootstrapInboundInput" where
  "sample_received raw =
     \<lparr>wi_received_raw_frame = raw, wi_actual_rights_count = 2, wi_observed_credentials = sample_credentials,
      wi_local_worker_endpoint = sample_endpoint, wi_expected_outer_uid = 1000, wi_expected_outer_gid = 1001\<rparr>"

definition sample_worker_session :: ProviderSession where
  "sample_worker_session = session_read sample_digest (session_bytes (bs_input sample_share))"

lemma sample_share_ok:
  "bootstrap_share_wf sample_share" "bootstrap_ok sample_digest (sample_received raw) sample_share sample_worker_session"
proof -
  have wf: "session_input_wf (bs_input sample_share)"
    by (simp add: session_input_wf_def sample_share_def sample_digest_def)
  then show "bootstrap_share_wf sample_share"
    by (simp add: bootstrap_share_wf_def) (simp add: sample_share_def sample_transfer_facts)
  note fields = session_slices [OF wf, THEN iffD1, OF refl]
  have "replicate 32 a = (replicate 32 b :: bytes) \<longleftrightarrow> a = b" for a b by simp
  then have s: "provider_session_new sample_digest (bs_input sample_share) = Inr sample_worker_session"
    unfolding provider_session_iff sample_worker_session_def session_read_def using fields
    by (simp add: sample_share_def)
  have "content_policy sample_observation [sample_transferred_input]"
    by (simp add: content_policy_def sample_fd_defs)
  then have "manifest_ok sample_observation [sample_transferred_input]"
    by (simp add: manifest_ok_def transferable_def sample_transfer_facts)
  moreover have "pv_worker_channel sample_worker_session
      = sample_digest (WORKER_CHANNEL_IDENTITY_DOMAIN @ replicate 32 5 @ replicate 32 6)"
    using fields by (simp add: sample_worker_session_def session_read_def) (simp add: sample_share_def)
  ultimately show "bootstrap_ok sample_digest (sample_received raw) sample_share sample_worker_session"
    unfolding bootstrap_ok_def
    by (simp add: s) (simp add: sample_share_def sample_received_def sample_credentials_def sample_endpoint_def
        namespace_ok_def sample_namespace_def)
qed

definition sample_bootstrap :: WorkerBootstrapInboundInput where
  "sample_bootstrap =
     sample_received (raw_bytes (bootstrap_frame sample_digest (sample_received []) sample_share sample_worker_session))"

lemma sample_bootstrap_frame:
  "bootstrap_frame sample_digest sample_bootstrap sample_share sample_worker_session
    = bootstrap_frame sample_digest (sample_received []) sample_share sample_worker_session"
  by (simp add: bootstrap_frame_def sample_bootstrap_def sample_received_def)

lemma sample_bootstrap_facts:
  "length (ep_digest (wi_local_worker_endpoint sample_bootstrap)) = 32"
  "bootstrap_ok sample_digest sample_bootstrap sample_share sample_worker_session"
  "wi_actual_rights_count sample_bootstrap = Suc (length (bs_inputs sample_share))"
  "wi_received_raw_frame sample_bootstrap
    = raw_bytes (bootstrap_frame sample_digest sample_bootstrap sample_share sample_worker_session)"
  unfolding sample_bootstrap_frame
  using sample_share_ok(2) by (simp_all add: sample_bootstrap_def) (simp_all add: sample_received_def sample_endpoint_def sample_share_def)

lemma bootstrap_frame_exact_witness:
  "bootstrap_inbound_new sample_digest sample_bootstrap
    = Inr (share_inbound sample_digest sample_bootstrap sample_share sample_worker_session)"
  unfolding bootstrap_frame_exact [OF sample_digest_32 sample_bootstrap_facts(1)]
  using sample_bootstrap_facts sample_share_ok(1) supervisor_body [OF sample_digest_32 sample_share_ok(1)]
    bootstrap_frame_ok(1) [OF sample_digest_32 sample_share_ok(1)]
  by (intro exI [of _ sample_share] exI [of _ sample_worker_session]) (simp add: encode_raw_frame_iff)

lemma worker_can_answer_witness:
  "is_ok (prepare_worker_exec_bound sample_digest
      (share_inbound sample_digest sample_bootstrap sample_share sample_worker_session)
      \<lparr>pc_process_id = 40, pc_user_id = 1000, pc_group_id = 1001, pc_user_namespace = sample_namespace\<rparr>)"
proof -
  have "bootstrap_inbound_new sample_digest sample_bootstrap
      = Inr (share_inbound sample_digest sample_bootstrap sample_share sample_worker_session)"
    using bootstrap_complete [OF sample_digest_32 sample_bootstrap_facts(1) sample_share_ok(1)] sample_bootstrap_facts
    by blast
  from worker_can_answer [OF sample_digest_32 sample_bootstrap_facts(1) this]
  show ?thesis
    by (simp add: sample_bootstrap_def sample_received_def share_inbound_def Let_def sample_share_def)
qed

end
