(* ===== verification/ElfFormat.thy ===== *)
theory ElfFormat
  imports ArtifactImport
begin

text \<open>
  The ELF64 data that the AMD64 inspector reads
  (\<open>generator/src/b4_campaign_executor/amd64_elf_inspection.rs\<close>). The parsers of the \<open>elf\<close> crate are
  not in the repository: they are the fields of the record \<open>elf_crate\<close>, an argument of every operation
  that calls them, and the numbers of its module \<open>abi\<close> are those the ELF specification publishes. The
  locale \<open>elf_reader\<close> states the one documented fact the inspector's \<open>unreachable!\<close> relies on; the
  reader of the specification interprets it. A \<open>str\<close> is its bytes.
\<close>

section \<open>The published constants\<close>

type_synonym i64 = "64 word"

abbreviation (input) ELFCLASS64 :: u8 where "ELFCLASS64 \<equiv> 2"
abbreviation (input) ELFDATA2LSB :: u8 where "ELFDATA2LSB \<equiv> 1"
abbreviation (input) EV_CURRENT :: u8 where "EV_CURRENT \<equiv> 1"
abbreviation (input) ELFOSABI_SYSV :: u8 where "ELFOSABI_SYSV \<equiv> 0"
abbreviation (input) ELFOSABI_LINUX :: u8 where "ELFOSABI_LINUX \<equiv> 3"
abbreviation (input) ET_EXEC :: u16 where "ET_EXEC \<equiv> 2"
abbreviation (input) ET_DYN :: u16 where "ET_DYN \<equiv> 3"
abbreviation (input) EM_X86_64 :: u16 where "EM_X86_64 \<equiv> 62"

abbreviation (input) PT_LOAD :: u32 where "PT_LOAD \<equiv> 1"
abbreviation (input) PT_DYNAMIC :: u32 where "PT_DYNAMIC \<equiv> 2"
abbreviation (input) PT_INTERP :: u32 where "PT_INTERP \<equiv> 3"
abbreviation (input) PT_SHLIB :: u32 where "PT_SHLIB \<equiv> 5"
abbreviation (input) PT_GNU_STACK :: u32 where "PT_GNU_STACK \<equiv> 0x6474e551"
abbreviation (input) PF_X :: u32 where "PF_X \<equiv> 1"
abbreviation (input) PF_W :: u32 where "PF_W \<equiv> 2"
abbreviation (input) PF_R :: u32 where "PF_R \<equiv> 4"

abbreviation (input) SHN_UNDEF :: u16 where "SHN_UNDEF \<equiv> 0"
abbreviation (input) SHN_XINDEX :: u16 where "SHN_XINDEX \<equiv> 0xffff"
abbreviation (input) SHT_NULL :: u32 where "SHT_NULL \<equiv> 0"
abbreviation (input) SHT_SYMTAB :: u32 where "SHT_SYMTAB \<equiv> 2"
abbreviation (input) SHT_STRTAB :: u32 where "SHT_STRTAB \<equiv> 3"
abbreviation (input) SHT_RELA :: u32 where "SHT_RELA \<equiv> 4"
abbreviation (input) SHT_HASH :: u32 where "SHT_HASH \<equiv> 5"
abbreviation (input) SHT_DYNAMIC :: u32 where "SHT_DYNAMIC \<equiv> 6"
abbreviation (input) SHT_NOBITS :: u32 where "SHT_NOBITS \<equiv> 8"
abbreviation (input) SHT_REL :: u32 where "SHT_REL \<equiv> 9"
abbreviation (input) SHT_DYNSYM :: u32 where "SHT_DYNSYM \<equiv> 11"
abbreviation (input) SHT_GROUP :: u32 where "SHT_GROUP \<equiv> 17"
abbreviation (input) SHT_SYMTAB_SHNDX :: u32 where "SHT_SYMTAB_SHNDX \<equiv> 18"
abbreviation (input) SHT_GNU_HASH :: u32 where "SHT_GNU_HASH \<equiv> 0x6ffffff6"
abbreviation (input) SHT_GNU_LIBLIST :: u32 where "SHT_GNU_LIBLIST \<equiv> 0x6ffffff7"
abbreviation (input) SHT_GNU_VERDEF :: u32 where "SHT_GNU_VERDEF \<equiv> 0x6ffffffd"
abbreviation (input) SHT_GNU_VERNEED :: u32 where "SHT_GNU_VERNEED \<equiv> 0x6ffffffe"
abbreviation (input) SHT_GNU_VERSYM :: u32 where "SHT_GNU_VERSYM \<equiv> 0x6fffffff"
abbreviation (input) SHF_INFO_LINK :: u64 where "SHF_INFO_LINK \<equiv> 0x40"
abbreviation (input) SHF_LINK_ORDER :: u64 where "SHF_LINK_ORDER \<equiv> 0x80"

abbreviation (input) DT_NULL :: i64 where "DT_NULL \<equiv> 0"
abbreviation (input) DT_NEEDED :: i64 where "DT_NEEDED \<equiv> 1"
abbreviation (input) DT_STRTAB :: i64 where "DT_STRTAB \<equiv> 5"
abbreviation (input) DT_STRSZ :: i64 where "DT_STRSZ \<equiv> 10"
abbreviation (input) DT_SONAME :: i64 where "DT_SONAME \<equiv> 14"
abbreviation (input) DT_RPATH :: i64 where "DT_RPATH \<equiv> 15"
abbreviation (input) DT_RUNPATH :: i64 where "DT_RUNPATH \<equiv> 29"
abbreviation (input) DT_FLAGS :: i64 where "DT_FLAGS \<equiv> 30"
abbreviation (input) DT_FLAGS_1 :: i64 where "DT_FLAGS_1 \<equiv> 0x6ffffffb"
abbreviation (input) DT_CONFIG :: i64 where "DT_CONFIG \<equiv> 0x6ffffefa"
abbreviation (input) DT_DEPAUDIT :: i64 where "DT_DEPAUDIT \<equiv> 0x6ffffefb"
abbreviation (input) DT_AUDIT :: i64 where "DT_AUDIT \<equiv> 0x6ffffefc"

section \<open>Constants of the inspector\<close>

definition ELF64_HEADER_BYTES :: nat where "ELF64_HEADER_BYTES = 64"
definition ELF64_PROGRAM_HEADER_BYTES :: u16 where "ELF64_PROGRAM_HEADER_BYTES = 56"
definition ELF64_SECTION_HEADER_BYTES :: u16 where "ELF64_SECTION_HEADER_BYTES = 64"
definition ELF64_DYNAMIC_ENTRY_BYTES :: nat where "ELF64_DYNAMIC_ENTRY_BYTES = 16"
definition ELF_SHN_LORESERVE :: u16 where "ELF_SHN_LORESERVE = 0xff00"
definition ELF_DT_AUXILIARY :: i64 where "ELF_DT_AUXILIARY = 0x7ffffffd"
definition ELF_DT_FILTER :: i64 where "ELF_DT_FILTER = 0x7fffffff"

lemmas elf_sizes =
  ELF64_HEADER_BYTES_def ELF64_PROGRAM_HEADER_BYTES_def ELF64_SECTION_HEADER_BYTES_def
  ELF64_DYNAMIC_ENTRY_BYTES_def ELF_SHN_LORESERVE_def

section \<open>Parsed headers\<close>

datatype ElfClass = ELF32 | ELF64

text \<open>The result of \<open>parse_ident\<close> without the endianness marker: class, OS ABI, ABI version.\<close>

type_synonym elf_ident = "ElfClass \<times> u8 \<times> u8"

record FileHeader =
  h_version :: u32
  h_osabi :: u8
  h_e_type :: u16
  h_e_machine :: u16
  h_e_entry :: u64
  h_e_phoff :: u64
  h_e_shoff :: u64
  h_e_ehsize :: u16
  h_e_phentsize :: u16
  h_e_phnum :: u16
  h_e_shentsize :: u16
  h_e_shnum :: u16
  h_e_shstrndx :: u16

record ProgramHeader =
  p_type :: u32
  p_flags :: u32
  p_offset :: u64
  p_vaddr :: u64
  p_filesz :: u64
  p_memsz :: u64
  p_align :: u64

record SectionHeader =
  sh_name :: u32
  sh_type :: u32
  sh_flags :: u64
  sh_addr :: u64
  sh_offset :: u64
  sh_size :: u64
  sh_link :: u32
  sh_info :: u32
  sh_addralign :: u64
  sh_entsize :: u64

record elf_crate =
  parse_ident :: "bytes \<Rightarrow> elf_ident option"
  parse_tail :: "elf_ident \<Rightarrow> bytes \<Rightarrow> FileHeader option"
  segment_table :: "bytes \<Rightarrow> ProgramHeader list"
  section_header_table :: "bytes \<Rightarrow> SectionHeader list"

text \<open>The OS ABI of a parsed header is byte 7 of the ident it was parsed with.\<close>

locale elf_reader =
  fixes ident_parser :: "bytes \<Rightarrow> elf_ident option"
    and tail_parser :: "elf_ident \<Rightarrow> bytes \<Rightarrow> FileHeader option"
  assumes ident_osabi: "ident_parser bs = Some ident \<Longrightarrow> fst (snd ident) = bs ! 7"
    and tail_osabi: "tail_parser ident rest = Some header \<Longrightarrow> h_osabi header = fst (snd ident)"
begin

lemma header_osabi:
  "ident_parser bs = Some ident \<Longrightarrow> tail_parser ident rest = Some header \<Longrightarrow> h_osabi header = bs ! 7"
  by (simp add: ident_osabi tail_osabi)

end

section \<open>The reader of the specification\<close>

text \<open>
  What the specification says of the little-endian ELF64 layouts: the concrete reader on which the
  properties' witnesses run. A table is read entry by entry; a trailing partial entry is not an entry.
\<close>

definition gabi_ident :: "bytes \<Rightarrow> elf_ident option" where
  "gabi_ident bs =
     (if length bs < 16 \<or> take 4 bs \<noteq> [0x7f, 0x45, 0x4c, 0x46] \<or> bs ! 4 \<notin> {1, 2} \<or> bs ! 5 \<noteq> 1
         \<or> bs ! 6 \<noteq> 1 then None
      else Some (if bs ! 4 = 2 then ELF64 else ELF32, bs ! 7, bs ! 8))"

definition le16_at :: "bytes \<Rightarrow> nat \<Rightarrow> u16" where "le16_at bs i = u16_from_le (slice bs i (i + 2))"
definition le32_at :: "bytes \<Rightarrow> nat \<Rightarrow> u32" where "le32_at bs i = u32_from_le (slice bs i (i + 4))"
definition le64_at :: "bytes \<Rightarrow> nat \<Rightarrow> u64" where "le64_at bs i = u64_from_le (slice bs i (i + 8))"

definition gabi_tail :: "elf_ident \<Rightarrow> bytes \<Rightarrow> FileHeader option" where
  "gabi_tail ident bs =
     (if fst ident \<noteq> ELF64 \<or> length bs < 48 then None
      else Some \<lparr>h_version = le32_at bs 4, h_osabi = fst (snd ident), h_e_type = le16_at bs 0,
                 h_e_machine = le16_at bs 2, h_e_entry = le64_at bs 8, h_e_phoff = le64_at bs 16,
                 h_e_shoff = le64_at bs 24, h_e_ehsize = le16_at bs 36, h_e_phentsize = le16_at bs 38,
                 h_e_phnum = le16_at bs 40, h_e_shentsize = le16_at bs 42, h_e_shnum = le16_at bs 44,
                 h_e_shstrndx = le16_at bs 46\<rparr>)"

definition gabi_segment :: "bytes \<Rightarrow> ProgramHeader" where
  "gabi_segment bs =
     \<lparr>p_type = le32_at bs 0, p_flags = le32_at bs 4, p_offset = le64_at bs 8, p_vaddr = le64_at bs 16,
      p_filesz = le64_at bs 32, p_memsz = le64_at bs 40, p_align = le64_at bs 48\<rparr>"

definition gabi_section :: "bytes \<Rightarrow> SectionHeader" where
  "gabi_section bs =
     \<lparr>sh_name = le32_at bs 0, sh_type = le32_at bs 4, sh_flags = le64_at bs 8, sh_addr = le64_at bs 16,
      sh_offset = le64_at bs 24, sh_size = le64_at bs 32, sh_link = le32_at bs 40, sh_info = le32_at bs 44,
      sh_addralign = le64_at bs 48, sh_entsize = le64_at bs 56\<rparr>"

definition entries_of :: "nat \<Rightarrow> bytes \<Rightarrow> bytes list" where
  "entries_of n bs = map (\<lambda>i. slice bs (i * n) (i * n + n)) [0..<length bs div n]"

definition gabi :: elf_crate where
  "gabi =
     \<lparr>parse_ident = gabi_ident, parse_tail = gabi_tail,
      segment_table = \<lambda>bs. map gabi_segment (entries_of 56 bs),
      section_header_table = \<lambda>bs. map gabi_section (entries_of 64 bs)\<rparr>"

interpretation gabi: elf_reader gabi_ident gabi_tail
  by unfold_locales (auto simp: gabi_ident_def gabi_tail_def split: if_splits)

section \<open>Errors\<close>

text \<open>
  One constructor per message, grouped by the function that raises it; a message with a label carries
  it. \<open>ElfPanicked\<close> is an index out of range, an \<open>expect\<close> on \<open>None\<close> or \<open>unreachable!\<close>.
\<close>

datatype RangeLabel =
    ProgramHeaderTable | ProgramHeaderFileRange | SectionHeaderTableRange | SectionFileRange
  | SectionNameStringTable | RuntimeInterpreterPayload | RuntimeDynamicArray | RuntimeDynamicStringTable

datatype HeaderRejection =
    MagicInvalid | NotElf64 | NotLittleEndian | IdentVersion | OsAbiRejected | AbiVersion | IdentPadding
  | IdentUnparsed | HeaderUnparsed | TypeRejected | MachineRejected | HeaderVersion | HeaderSize

datatype SegmentRejection =
    ProgramHeaderEntrySize | ProgramTableOverflow | ProgramTableIncomplete | FileSizeAboveMemory
  | LoadAlignment | LoadIncongruent | LoadMemoryOverflow | WritableExecutable | SecondInterpreter
  | SecondDynamic | GnuStackRejected | SharedLibrarySegment | NoLoad | NoReadableLoad | GnuStackMissing
  | LoadRangesOverlap

datatype SectionRejection =
    AbsentNotZero | ExtendedNumbering | SectionEntrySize | NameIndexOutside | SectionTableOverflow
  | SectionTableIncomplete | SectionZeroNotNull | LinkOutside | InfoOutside | NamesNotStrtab
  | NamesNotNulBounded | NameOffsetOutside

datatype DynamicLabel = DtNeeded | DtSoname | DtRunpath

datatype DynamicRejection =
    DynamicSegmentMissing | ArrayIncomplete | NoBoundedNull | RepeatsStrtab | RepeatsStrsz
  | NeededCountOverflow | RepeatsSoname | RepeatsRunpath | RejectedFlag | RejectedFlag1
  | StringsWithoutTable | StringsWithoutSize | VirtualOverflow RangeLabel | LoadVirtualOverflow RangeLabel | FileOffsetOverflow RangeLabel
  | MapsTwice RangeLabel | MapsNowhere RangeLabel | TableWithoutNul | RepeatsNeeded | RejectedLoaderTag i64 | RejectedRpath
  | UnlistedTag i64 | StringOffsetOutside DynamicLabel | StringUnterminated DynamicLabel
  | StringNotUtf8 DynamicLabel | BasenameRejected DynamicLabel

datatype PathRejection =
    RunpathNotPrintable | ComponentForm | OriginEmbedded | OriginRepeated | OriginSuffixNoncanonical
  | AbsoluteExpansion | AbsoluteNoncanonical | InterpreterNotAbsolute | InterpreterNoncanonical
  | InterpreterPayload | InterpreterNotUtf8

datatype LinkageRejection =
    EntryNotExecutable | InterpreterMissing | DynamicMissing | CarriesSoname | NotSharedObject
  | DsoSegments | DsoEntry | DsoWithoutSoname | ProjectionDiffers

datatype ElfError =
    ElfBudget BudgetError
  | LengthConversion
  | RangeOverflowed RangeLabel
  | RangeOutside RangeLabel
  | Header HeaderRejection
  | Segments SegmentRejection
  | Sections SectionRejection
  | Dynamic DynamicRejection
  | Path PathRejection
  | Linkage LinkageRejection
  | ElfPanicked

end
