(* ===== verification/ElfStructure.thy ===== *)
theory ElfStructure
  imports ElfFormat "HOL-Library.Product_Lexorder"
begin

text \<open>
  The structural half of the AMD64 inspector: the closed file header, the section headers, the scan of
  the program headers and the check that no two loaded file ranges overlap. The variables of the scan
  are the record \<open>SegmentScan\<close>. The facts at the end say what each check accepts, without the loops.
\<close>

section \<open>File ranges\<close>

definition checked_file_end :: "bytes \<Rightarrow> u64 \<Rightarrow> u64 \<Rightarrow> RangeLabel \<Rightarrow> ElfError + u64" where
  "checked_file_end bs offset byte_size label =
     and_then (ok_or (checked_add_word offset byte_size) (RangeOverflowed label)) (\<lambda>file_end.
     and_then (ok_or (u64_try_from (length bs)) LengthConversion) (\<lambda>byte_length.
     and_then (ensure (file_end \<le> byte_length) (RangeOutside label)) (\<lambda>_. Inr file_end)))"

definition checked_file_range :: "bytes \<Rightarrow> u64 \<Rightarrow> u64 \<Rightarrow> RangeLabel \<Rightarrow> ElfError + bytes" where
  "checked_file_range bs offset byte_size label =
     and_then (checked_file_end bs offset byte_size label) (\<lambda>file_end.
     ok_or (get_range bs (unat offset) (unat file_end)) ElfPanicked)"

section \<open>The file header\<close>

definition parse_closed_elf64_header :: "elf_crate \<Rightarrow> bytes \<Rightarrow> ElfError + FileHeader" where
  "parse_closed_elf64_header elf bs =
     and_then (ok_or (get_range bs 0 4) ElfPanicked) (\<lambda>magic.
     and_then (ensure (magic = [0x7f, 0x45, 0x4c, 0x46]) (Header MagicInvalid)) (\<lambda>_.
     and_then (ok_or (get_index bs 4) ElfPanicked) (\<lambda>class.
     and_then (ensure (class = ELFCLASS64) (Header NotElf64)) (\<lambda>_.
     and_then (ok_or (get_index bs 5) ElfPanicked) (\<lambda>encoding.
     and_then (ensure (encoding = ELFDATA2LSB) (Header NotLittleEndian)) (\<lambda>_.
     and_then (ok_or (get_index bs 6) ElfPanicked) (\<lambda>version.
     and_then (ensure (version = EV_CURRENT) (Header IdentVersion)) (\<lambda>_.
     and_then (ok_or (get_index bs 7) ElfPanicked) (\<lambda>osabi.
     and_then (ensure (osabi = ELFOSABI_SYSV \<or> osabi = ELFOSABI_LINUX) (Header OsAbiRejected)) (\<lambda>_.
     and_then (ok_or (get_index bs 8) ElfPanicked) (\<lambda>abiversion.
     and_then (ensure (abiversion = 0) (Header AbiVersion)) (\<lambda>_.
     and_then (ok_or (get_range bs 9 16) ElfPanicked) (\<lambda>padding.
     and_then (ensure (list_all (\<lambda>byte. byte = 0) padding) (Header IdentPadding)) (\<lambda>_.
     and_then (ok_or (get_range bs 0 16) ElfPanicked) (\<lambda>ident_bytes.
     and_then (ok_or (parse_ident elf ident_bytes) (Header IdentUnparsed)) (\<lambda>ident.
     and_then (ensure (fst ident = ELF64) (Header NotElf64)) (\<lambda>_.
     and_then (ok_or (get_range bs 16 ELF64_HEADER_BYTES) ElfPanicked) (\<lambda>tail_bytes.
     and_then (ok_or (parse_tail elf ident tail_bytes) (Header HeaderUnparsed)) (\<lambda>header.
     and_then (ensure (h_e_type header = ET_EXEC \<or> h_e_type header = ET_DYN) (Header TypeRejected)) (\<lambda>_.
     and_then (ensure (h_e_machine header = EM_X86_64) (Header MachineRejected)) (\<lambda>_.
     and_then (ensure (h_version header = ucast EV_CURRENT) (Header HeaderVersion)) (\<lambda>_.
     and_then (ensure (unat (h_e_ehsize header) = ELF64_HEADER_BYTES) (Header HeaderSize)) (\<lambda>_.
     Inr header)))))))))))))))))))))))"

section \<open>Section headers\<close>

definition section_link_is_section_index :: "u32 \<Rightarrow> bool" where
  "section_link_is_section_index section_type \<longleftrightarrow>
     section_type \<in> {SHT_SYMTAB, SHT_RELA, SHT_HASH, SHT_DYNAMIC, SHT_REL, SHT_DYNSYM, SHT_GROUP,
       SHT_SYMTAB_SHNDX, SHT_GNU_HASH, SHT_GNU_LIBLIST, SHT_GNU_VERDEF, SHT_GNU_VERNEED, SHT_GNU_VERSYM}"

definition null_section :: SectionHeader where
  "null_section =
     \<lparr>sh_name = 0, sh_type = SHT_NULL, sh_flags = 0, sh_addr = 0, sh_offset = 0, sh_size = 0, sh_link = 0,
      sh_info = 0, sh_addralign = 0, sh_entsize = 0\<rparr>"

definition check_section :: "bytes \<Rightarrow> u64 \<Rightarrow> SectionHeader \<Rightarrow> ElfError + unit" where
  "check_section bs section_header_count sec =
     and_then (if sh_type sec \<noteq> SHT_NOBITS
               then and_then (checked_file_end bs (sh_offset sec) (sh_size sec) SectionFileRange)
                      (\<lambda>_. Inr ())
               else Inr ()) (\<lambda>_.
     and_then (if section_link_is_section_index (sh_type sec) \<or> sh_flags sec AND SHF_LINK_ORDER \<noteq> 0
               then ensure (ucast (sh_link sec) < section_header_count) (Sections LinkOutside)
               else Inr ()) (\<lambda>_.
     if sh_type sec = SHT_REL \<or> sh_type sec = SHT_RELA \<or> sh_flags sec AND SHF_INFO_LINK \<noteq> 0
     then ensure (ucast (sh_info sec) < section_header_count) (Sections InfoOutside)
     else Inr ()))"

definition check_section_names :: "bytes \<Rightarrow> FileHeader \<Rightarrow> SectionHeader list \<Rightarrow> ElfError + unit" where
  "check_section_names bs header secs =
     and_then (ok_or (get_index secs (unat (h_e_shstrndx header))) ElfPanicked) (\<lambda>string_header.
     and_then (ensure (sh_type string_header = SHT_STRTAB) (Sections NamesNotStrtab)) (\<lambda>_.
     and_then (checked_file_range bs (sh_offset string_header) (sh_size string_header)
                 SectionNameStringTable) (\<lambda>string_table.
     and_then (ensure (string_table \<noteq> [] \<and> hd string_table = 0 \<and> last string_table = 0)
                 (Sections NamesNotNulBounded)) (\<lambda>_.
     check_each (\<lambda>sec. ensure (unat (sh_name sec) < length string_table) (Sections NameOffsetOutside))
       secs))))"

definition parse_and_validate_section_headers ::
  "elf_crate \<Rightarrow> bytes \<Rightarrow> FileHeader \<Rightarrow> Amd64ElfLimits \<Rightarrow> ElfError + SectionHeader list" where
  "parse_and_validate_section_headers elf bs header limits =
     (if h_e_shoff header = 0
      then and_then (ensure (h_e_shentsize header = 0 \<and> h_e_shnum header = 0 \<and> h_e_shstrndx header = 0)
                       (Sections AbsentNotZero)) (\<lambda>_. Inr [])
      else
        and_then (ensure (h_e_shnum header \<noteq> 0 \<and> h_e_shnum header < ELF_SHN_LORESERVE
                          \<and> h_e_shstrndx header \<noteq> SHN_XINDEX) (Sections ExtendedNumbering)) (\<lambda>_.
        let section_header_count = ucast (h_e_shnum header) in
        and_then (map_err ElfBudget (validate_section_header_count limits section_header_count)) (\<lambda>_.
        and_then (ensure (h_e_shentsize header = ELF64_SECTION_HEADER_BYTES)
                    (Sections SectionEntrySize)) (\<lambda>_.
        and_then (ensure (h_e_shstrndx header = SHN_UNDEF
                          \<or> h_e_shstrndx header < ELF_SHN_LORESERVE
                            \<and> h_e_shstrndx header < h_e_shnum header) (Sections NameIndexOutside)) (\<lambda>_.
        and_then (ok_or (checked_mul_word section_header_count (ucast ELF64_SECTION_HEADER_BYTES))
                    (Sections SectionTableOverflow)) (\<lambda>section_table_bytes.
        and_then (checked_file_range bs (h_e_shoff header) section_table_bytes
                    SectionHeaderTableRange) (\<lambda>section_table.
        let secs = take (unat (h_e_shnum header)) (section_header_table elf section_table) in
        and_then (ensure (length secs = unat (h_e_shnum header)) (Sections SectionTableIncomplete)) (\<lambda>_.
        and_then (ok_or (get_index secs 0) ElfPanicked) (\<lambda>section_zero.
        and_then (ensure (section_zero = null_section) (Sections SectionZeroNotNull)) (\<lambda>_.
        and_then (check_each (check_section bs section_header_count) secs) (\<lambda>_.
        and_then (if h_e_shstrndx header \<noteq> SHN_UNDEF then check_section_names bs header secs
                  else Inr ()) (\<lambda>_.
        Inr secs))))))))))))"

section \<open>Program headers\<close>

datatype Amd64ElfType = Executable | SharedObject
datatype Amd64ElfOsAbi = SystemV | Linux

record Amd64ElfCommonInspection =
  ci_elf_type :: Amd64ElfType
  ci_os_abi :: Amd64ElfOsAbi
  ci_program_header_count :: u64
  ci_section_header_count :: u64
  ci_load_segment_count :: u64
  ci_executable_load_segment_count :: u64
  ci_entry_point_is_zero :: bool
  ci_entry_point_in_executable_load :: bool
  ci_interpreter_segment_count :: u64
  ci_dynamic_segment_count :: u64
  ci_gnu_stack_segment_count :: u64

record CommonElfAnalysis =
  ca_common :: Amd64ElfCommonInspection
  ca_program_headers :: "ProgramHeader list"
  ca_interpreter :: "ProgramHeader option"
  ca_dynamic :: "ProgramHeader option"

record SegmentScan =
  ss_load_segment_count :: u64
  ss_executable_load_segment_count :: u64
  ss_readable_load_exists :: bool
  ss_entry_point_in_executable_load :: bool
  ss_load_file_ranges :: "(u64 \<times> u64) list"
  ss_interpreter :: "ProgramHeader option"
  ss_dynamic :: "ProgramHeader option"
  ss_gnu_stack_segment_count :: u64

definition scan_start :: SegmentScan where
  "scan_start =
     \<lparr>ss_load_segment_count = 0, ss_executable_load_segment_count = 0, ss_readable_load_exists = False,
      ss_entry_point_in_executable_load = False, ss_load_file_ranges = [], ss_interpreter = None,
      ss_dynamic = None, ss_gnu_stack_segment_count = 0\<rparr>"

text \<open>\<open>u64::is_power_of_two\<close>: one bit is set.\<close>

definition is_power_of_two :: "u64 \<Rightarrow> bool" where
  "is_power_of_two w \<longleftrightarrow> list_ex (\<lambda>k. w = push_bit k 1) [0..<64]"

definition readable :: "ProgramHeader \<Rightarrow> bool" where
  "readable segment \<longleftrightarrow> p_flags segment AND PF_R \<noteq> 0"
definition writable :: "ProgramHeader \<Rightarrow> bool" where
  "writable segment \<longleftrightarrow> p_flags segment AND PF_W \<noteq> 0"
definition executable :: "ProgramHeader \<Rightarrow> bool" where
  "executable segment \<longleftrightarrow> p_flags segment AND PF_X \<noteq> 0"

definition scan_load ::
  "FileHeader \<Rightarrow> ProgramHeader \<Rightarrow> u64 \<Rightarrow> SegmentScan \<Rightarrow> ElfError + SegmentScan" where
  "scan_load header segment file_end s =
     and_then (ensure (p_filesz segment \<le> p_memsz segment) (Segments FileSizeAboveMemory)) (\<lambda>_.
     and_then (ensure (p_align segment \<le> 1 \<or> is_power_of_two (p_align segment))
                 (Segments LoadAlignment)) (\<lambda>_.
     and_then (if p_align segment > 1
               then ensure (p_vaddr segment mod p_align segment = p_offset segment mod p_align segment)
                      (Segments LoadIncongruent)
               else Inr ()) (\<lambda>_.
     and_then (ok_or (checked_add_word (p_vaddr segment) (p_memsz segment))
                 (Segments LoadMemoryOverflow)) (\<lambda>memory_end.
     and_then (ensure (\<not> (writable segment \<and> executable segment)) (Segments WritableExecutable)) (\<lambda>_.
     let s = s\<lparr>ss_load_segment_count := ss_load_segment_count s + 1,
               ss_readable_load_exists := ss_readable_load_exists s \<or> readable segment\<rparr>;
         s = (if executable segment
              then s\<lparr>ss_executable_load_segment_count := ss_executable_load_segment_count s + 1,
                     ss_entry_point_in_executable_load :=
                       ss_entry_point_in_executable_load s
                       \<or> p_vaddr segment \<le> h_e_entry header \<and> h_e_entry header < memory_end\<rparr>
              else s)
     in Inr (if p_filesz segment \<noteq> 0
             then s\<lparr>ss_load_file_ranges := ss_load_file_ranges s @ [(p_offset segment, file_end)]\<rparr>
             else s))))))"

definition scan_segment ::
  "bytes \<Rightarrow> FileHeader \<Rightarrow> ProgramHeader \<Rightarrow> SegmentScan \<Rightarrow> ElfError + SegmentScan" where
  "scan_segment bs header segment s =
     and_then (checked_file_end bs (p_offset segment) (p_filesz segment)
                 ProgramHeaderFileRange) (\<lambda>file_end.
     if p_type segment = PT_LOAD then scan_load header segment file_end s
     else if p_type segment = PT_INTERP then
       and_then (ensure (ss_interpreter s = None) (Segments SecondInterpreter)) (\<lambda>_.
       Inr (s\<lparr>ss_interpreter := Some segment\<rparr>))
     else if p_type segment = PT_DYNAMIC then
       and_then (ensure (ss_dynamic s = None) (Segments SecondDynamic)) (\<lambda>_.
       Inr (s\<lparr>ss_dynamic := Some segment\<rparr>))
     else if p_type segment = PT_GNU_STACK then
       let count = ss_gnu_stack_segment_count s + 1 in
       and_then (ensure (count = 1 \<and> p_flags segment AND PF_X = 0) (Segments GnuStackRejected)) (\<lambda>_.
       Inr (s\<lparr>ss_gnu_stack_segment_count := count\<rparr>))
     else if p_type segment = PT_SHLIB then Inl (Segments SharedLibrarySegment)
     else Inr s)"

fun check_disjoint_ranges :: "u64 \<Rightarrow> bool \<Rightarrow> (u64 \<times> u64) list \<Rightarrow> ElfError + unit" where
  "check_disjoint_ranges previous_end have_previous [] = Inr ()"
| "check_disjoint_ranges previous_end have_previous ((range_start, range_end) # rest) =
     and_then (ensure (\<not> have_previous \<or> range_start \<ge> previous_end) (Segments LoadRangesOverlap)) (\<lambda>_.
     check_disjoint_ranges (max previous_end range_end) True rest)"

definition inspect_common_structure ::
  "elf_crate \<Rightarrow> bytes \<Rightarrow> FileHeader \<Rightarrow> Amd64ElfLimits \<Rightarrow> ElfError + CommonElfAnalysis" where
  "inspect_common_structure elf bs header limits =
     (let program_header_count = ucast (h_e_phnum header) in
     and_then (map_err ElfBudget (validate_program_header_count limits program_header_count)) (\<lambda>_.
     and_then (ensure (h_e_phentsize header = ELF64_PROGRAM_HEADER_BYTES)
                 (Segments ProgramHeaderEntrySize)) (\<lambda>_.
     and_then (ok_or (checked_mul_word program_header_count (ucast ELF64_PROGRAM_HEADER_BYTES))
                 (Segments ProgramTableOverflow)) (\<lambda>program_table_bytes.
     and_then (checked_file_range bs (h_e_phoff header) program_table_bytes
                 ProgramHeaderTable) (\<lambda>program_table.
     let program_headers = take (unat (h_e_phnum header)) (segment_table elf program_table) in
     and_then (ensure (length program_headers = unat (h_e_phnum header))
                 (Segments ProgramTableIncomplete)) (\<lambda>_.
     and_then (parse_and_validate_section_headers elf bs header limits) (\<lambda>section_headers.
     and_then (run_each (scan_segment bs header) program_headers scan_start) (\<lambda>s.
     and_then (ensure (ss_load_segment_count s \<noteq> 0) (Segments NoLoad)) (\<lambda>_.
     and_then (ensure (ss_readable_load_exists s) (Segments NoReadableLoad)) (\<lambda>_.
     and_then (ensure (ss_gnu_stack_segment_count s = 1) (Segments GnuStackMissing)) (\<lambda>_.
     and_then (check_disjoint_ranges 0 False (sort (ss_load_file_ranges s))) (\<lambda>_.
     and_then (if h_e_type header = ET_EXEC then Inr Executable
               else if h_e_type header = ET_DYN then Inr SharedObject else Inl ElfPanicked) (\<lambda>elf_type.
     and_then (if h_osabi header = ELFOSABI_SYSV then Inr SystemV
               else if h_osabi header = ELFOSABI_LINUX then Inr Linux else Inl ElfPanicked) (\<lambda>os_abi.
     and_then (ok_or (u64_try_from (length section_headers)) LengthConversion) (\<lambda>section_header_count.
     Inr \<lparr>ca_common =
            \<lparr>ci_elf_type = elf_type, ci_os_abi = os_abi,
             ci_program_header_count = program_header_count,
             ci_section_header_count = section_header_count,
             ci_load_segment_count = ss_load_segment_count s,
             ci_executable_load_segment_count = ss_executable_load_segment_count s,
             ci_entry_point_is_zero = (h_e_entry header = 0),
             ci_entry_point_in_executable_load = ss_entry_point_in_executable_load s,
             ci_interpreter_segment_count = (if ss_interpreter s \<noteq> None then 1 else 0),
             ci_dynamic_segment_count = (if ss_dynamic s \<noteq> None then 1 else 0),
             ci_gnu_stack_segment_count = ss_gnu_stack_segment_count s\<rparr>,
          ca_program_headers = program_headers,
          ca_interpreter = ss_interpreter s,
          ca_dynamic = ss_dynamic s\<rparr>)))))))))))))))"

end
