(* ===== verification/ElfStructureFacts.thy ===== *)
theory ElfStructureFacts
  imports ElfStructure "HOL-Library.Multiset"
begin

text \<open>
  What the structural checks of the AMD64 inspector accept, without their loops: ranges, the section
  table, the scan of the program headers as counts and filters, disjointness as a property of any two
  ranges, the closed header; and that none of them panics.
\<close>

section \<open>What the checks accept\<close>

text \<open>A result is safe when it is not a panic.\<close>

definition panic_free :: "ElfError + 'a \<Rightarrow> bool" where
  "panic_free r \<longleftrightarrow> r \<noteq> Inl ElfPanicked"

named_theorems panic_rules "results that are not panics"

lemma panic_free_basic [panic_rules]:
  "panic_free (Inr x)"
  "panic_free (Inl e) \<longleftrightarrow> e \<noteq> ElfPanicked"
  "panic_free (ensure b e) \<longleftrightarrow> b \<or> e \<noteq> ElfPanicked"
  "panic_free (ok_or y e) \<longleftrightarrow> y \<noteq> None \<or> e \<noteq> ElfPanicked"
  "panic_free (map_err ElfBudget r)"
  by (auto simp: panic_free_def ok_or_def map_err_def split: option.splits sum.splits)

lemma panic_free_and_then:
  "panic_free r \<Longrightarrow> (\<And>x. r = Inr x \<Longrightarrow> panic_free (f x)) \<Longrightarrow> panic_free (and_then r f)"
  by (auto simp: panic_free_def and_then_eq_Inl)

lemma panic_free_check_each: "(\<And>x. panic_free (f x)) \<Longrightarrow> panic_free (check_each f xs)"
  by (induction xs) (auto intro: panic_free_and_then simp: panic_rules)

lemma panic_free_run_each: "(\<And>x s. panic_free (f x s)) \<Longrightarrow> panic_free (run_each f xs s)"
  by (induction xs arbitrary: s) (auto intro: panic_free_and_then simp: panic_rules)

lemma checked_file_end_eq:
  "checked_file_end bs offset byte_size label = Inr file_end \<longleftrightarrow>
    length bs < 2 ^ 64 \<and> unat offset + unat byte_size \<le> length bs \<and> file_end = offset + byte_size"
proof -
  have "unat file_end = unat offset + unat byte_size \<and> length bs < 2 ^ 64 \<and> file_end \<le> word_of_nat (length bs)
      \<longleftrightarrow> length bs < 2 ^ 64 \<and> unat offset + unat byte_size \<le> length bs \<and> file_end = offset + byte_size"
    by (auto simp: word_le_nat_alt unat_of_nat word_unat_eq_iff unat_word_ariths)
  then show ?thesis by (auto simp: checked_file_end_def u64_try_from_iff)
qed

lemma unat_file_end:
  "length bs < 2 ^ 64 \<Longrightarrow> unat offset + unat byte_size \<le> length bs \<Longrightarrow>
    unat (offset + byte_size :: u64) = unat offset + unat byte_size"
  by (simp add: unat_word_ariths)

lemma checked_file_range_eq:
  "checked_file_range bs offset byte_size label = Inr r \<longleftrightarrow>
    length bs < 2 ^ 64 \<and> unat offset + unat byte_size \<le> length bs
    \<and> r = slice bs (unat offset) (unat offset + unat byte_size)"
  by (auto simp: checked_file_range_def checked_file_end_eq unat_file_end)

lemma panic_free_checked_file_end: "panic_free (checked_file_end bs offset byte_size label)"
  unfolding checked_file_end_def by (intro panic_free_and_then) (simp_all add: panic_rules)

lemma panic_free_checked_file_range: "panic_free (checked_file_range bs offset byte_size label)"
  unfolding checked_file_range_def
  by (intro panic_free_and_then panic_free_checked_file_end)
    (auto simp: panic_rules checked_file_end_eq get_range_def unat_file_end)

section \<open>Sections\<close>

lemma panic_free_check_section: "panic_free (check_section bs n sec)"
  unfolding check_section_def
  by (intro panic_free_and_then) (auto intro!: panic_free_and_then panic_free_checked_file_end simp: panic_rules)

lemma section_names_panic_free:
  "unat (h_e_shstrndx header) < length secs \<Longrightarrow> panic_free (check_section_names bs header secs)"
  unfolding check_section_names_def
  by (intro panic_free_and_then panic_free_checked_file_range panic_free_check_each)
    (auto simp: panic_rules get_index_def)

lemma section_headers_panic_free:
  "panic_free (parse_and_validate_section_headers elf bs header limits)"
proof (cases "h_e_shoff header = 0")
  case True
  then show ?thesis
    by (auto simp: parse_and_validate_section_headers_def panic_rules intro!: panic_free_and_then)
next
  case False
  have zero: "unat (h_e_shnum header) \<noteq> 0" if "h_e_shnum header \<noteq> 0"
    using that by (simp add: unat_eq_0)
  show ?thesis
    using False zero unfolding parse_and_validate_section_headers_def Let_def
    by (simp, intro panic_free_and_then panic_free_checked_file_range panic_free_check_each
        panic_free_check_section)
      (auto simp: panic_rules get_index_def word_less_nat_alt intro: section_names_panic_free)
qed

section \<open>Program headers\<close>

definition is_load :: "ProgramHeader \<Rightarrow> bool" where "is_load g \<longleftrightarrow> p_type g = PT_LOAD"
definition is_interp :: "ProgramHeader \<Rightarrow> bool" where "is_interp g \<longleftrightarrow> p_type g = PT_INTERP"
definition is_dynamic :: "ProgramHeader \<Rightarrow> bool" where "is_dynamic g \<longleftrightarrow> p_type g = PT_DYNAMIC"
definition is_gnu_stack :: "ProgramHeader \<Rightarrow> bool" where "is_gnu_stack g \<longleftrightarrow> p_type g = PT_GNU_STACK"

text \<open>A loaded segment whose range of virtual addresses contains the entry point.\<close>

definition holds_entry :: "FileHeader \<Rightarrow> ProgramHeader \<Rightarrow> bool" where
  "holds_entry header g \<longleftrightarrow>
     is_load g \<and> executable g \<and> unat (p_vaddr g) \<le> unat (h_e_entry header)
     \<and> unat (h_e_entry header) < unat (p_vaddr g) + unat (p_memsz g)"

text \<open>The conditions on one program header.\<close>

definition sound_load :: "ProgramHeader \<Rightarrow> bool" where
  "sound_load g \<longleftrightarrow>
     p_filesz g \<le> p_memsz g
     \<and> (p_align g > 1 \<longrightarrow>
          is_power_of_two (p_align g) \<and> p_vaddr g mod p_align g = p_offset g mod p_align g)
     \<and> unat (p_vaddr g) + unat (p_memsz g) < 2 ^ 64
     \<and> \<not> (writable g \<and> executable g)"

definition sound_segment :: "bytes \<Rightarrow> ProgramHeader \<Rightarrow> bool" where
  "sound_segment bs g \<longleftrightarrow>
     unat (p_offset g) + unat (p_filesz g) \<le> length bs
     \<and> (is_load g \<longrightarrow> sound_load g)
     \<and> p_type g \<noteq> PT_SHLIB
     \<and> (is_gnu_stack g \<longrightarrow> \<not> executable g)"

text \<open>The file range of a loaded segment.\<close>

definition file_range :: "ProgramHeader \<Rightarrow> u64 \<times> u64" where
  "file_range g = (p_offset g, p_offset g + p_filesz g)"

definition loaded_ranges :: "ProgramHeader list \<Rightarrow> (u64 \<times> u64) list" where
  "loaded_ranges gs = map file_range (filter (\<lambda>g. is_load g \<and> p_filesz g \<noteq> 0) gs)"

definition scan_summary :: "FileHeader \<Rightarrow> ProgramHeader list \<Rightarrow> SegmentScan" where
  "scan_summary header gs =
     \<lparr>ss_load_segment_count = of_nat (length (filter is_load gs)),
      ss_executable_load_segment_count = of_nat (length (filter (\<lambda>g. is_load g \<and> executable g) gs)),
      ss_readable_load_exists = list_ex (\<lambda>g. is_load g \<and> readable g) gs,
      ss_entry_point_in_executable_load = list_ex (holds_entry header) gs,
      ss_load_file_ranges = loaded_ranges gs,
      ss_interpreter = find is_interp gs,
      ss_dynamic = find is_dynamic gs,
      ss_gnu_stack_segment_count = of_nat (length (filter is_gnu_stack gs))\<rparr>"

definition at_most_one :: "('a \<Rightarrow> bool) \<Rightarrow> 'a list \<Rightarrow> bool" where
  "at_most_one P xs \<longleftrightarrow> length (filter P xs) \<le> 1"

lemma find_snoc: "find P (xs @ [x]) = (case find P xs of None \<Rightarrow> if P x then Some x else None | Some y \<Rightarrow> Some y)"
  by (induction xs) auto

lemma find_None_filter: "find P xs = None \<longleftrightarrow> length (filter P xs) = 0"
  by (induction xs) auto

lemma at_most_one_snoc:
  "at_most_one P (xs @ [x]) \<longleftrightarrow> at_most_one P xs \<and> (P x \<longrightarrow> length (filter P xs) = 0)"
  by (auto simp: at_most_one_def)

lemma small_count_zero: "n \<le> 1 \<Longrightarrow> (of_nat n :: u64) + 1 = 1 \<longleftrightarrow> n = 0"
  by (cases n) auto

lemma is_power_of_two_positive: "is_power_of_two w \<Longrightarrow> w \<noteq> 0"
  by (auto simp: is_power_of_two_def list_ex_iff push_bit_eq_mult)

lemma unat_add_u64: "unat a + unat b < 2 ^ 64 \<Longrightarrow> unat (a + b :: u64) = unat a + unat b"
  by (simp add: unat_word_ariths)

lemma checked_add_u64:
  "checked_add_word a b = Some (m :: u64) \<longleftrightarrow> unat a + unat b < 2 ^ 64 \<and> m = a + b"
  using unat_u64_bound [of m] by (auto simp: word_unat_eq_iff unat_add_u64)

lemma scan_load_eq:
  assumes "is_load g"
  shows "scan_load header g file_end s = Inr s' \<longleftrightarrow>
    sound_load g
    \<and> s' = s\<lparr>ss_load_segment_count := ss_load_segment_count s + 1,
            ss_executable_load_segment_count :=
              ss_executable_load_segment_count s + (if executable g then 1 else 0),
            ss_readable_load_exists := ss_readable_load_exists s \<or> readable g,
            ss_entry_point_in_executable_load :=
              ss_entry_point_in_executable_load s \<or> holds_entry header g,
            ss_load_file_ranges :=
              ss_load_file_ranges s @ (if p_filesz g \<noteq> 0 then [(p_offset g, file_end)] else [])\<rparr>"
proof -
  have align: "p_align g \<le> 1 \<or> is_power_of_two (p_align g) \<longleftrightarrow>
      (p_align g > 1 \<longrightarrow> is_power_of_two (p_align g))" by auto
  have entry: "holds_entry header g \<longleftrightarrow> executable g \<and> p_vaddr g \<le> h_e_entry header
      \<and> h_e_entry header < p_vaddr g + p_memsz g" if "unat (p_vaddr g) + unat (p_memsz g) < 2 ^ 64"
    using that assms by (auto simp: holds_entry_def word_le_nat_alt word_less_nat_alt unat_add_u64)
  show ?thesis
    by (cases "executable g"; cases "p_filesz g = 0")
      (auto simp: scan_load_def Let_def align checked_add_u64 sound_load_def entry simp del: checked_add_word_eq_Some)
qed

lemmas segment_kinds = is_load_def is_interp_def is_dynamic_def is_gnu_stack_def

lemma file_range_of: "file_range g = (p_offset g, p_offset g + p_filesz g)"
  by (simp add: file_range_def)

lemma scan_summary_snoc:
  "scan_summary header (gs @ [g]) =
    (let s = scan_summary header gs in
     s\<lparr>ss_load_segment_count := ss_load_segment_count s + (if is_load g then 1 else 0),
       ss_executable_load_segment_count :=
         ss_executable_load_segment_count s + (if is_load g \<and> executable g then 1 else 0),
       ss_readable_load_exists := ss_readable_load_exists s \<or> is_load g \<and> readable g,
       ss_entry_point_in_executable_load := ss_entry_point_in_executable_load s \<or> holds_entry header g,
       ss_load_file_ranges := ss_load_file_ranges s
         @ (if is_load g \<and> p_filesz g \<noteq> 0 then [file_range g] else []),
       ss_interpreter := (case ss_interpreter s of None \<Rightarrow> if is_interp g then Some g else None | x \<Rightarrow> x),
       ss_dynamic := (case ss_dynamic s of None \<Rightarrow> if is_dynamic g then Some g else None | x \<Rightarrow> x),
       ss_gnu_stack_segment_count := ss_gnu_stack_segment_count s + (if is_gnu_stack g then 1 else 0)\<rparr>)"
  by (simp add: scan_summary_def loaded_ranges_def find_snoc split: option.splits)

lemma scan_segment_eq:
  assumes "length bs < 2 ^ 64" "at_most_one is_gnu_stack gs"
  shows "scan_segment bs header g (scan_summary header gs) = Inr s \<longleftrightarrow>
    sound_segment bs g
    \<and> (is_interp g \<longrightarrow> length (filter is_interp gs) = 0)
    \<and> (is_dynamic g \<longrightarrow> length (filter is_dynamic gs) = 0)
    \<and> (is_gnu_stack g \<longrightarrow> length (filter is_gnu_stack gs) = 0)
    \<and> s = scan_summary header (gs @ [g])"
proof -
  let ?s = "scan_summary header gs"
  have parts: "length (filter is_interp gs) = 0 \<longleftrightarrow> ss_interpreter ?s = None"
      "length (filter is_dynamic gs) = 0 \<longleftrightarrow> ss_dynamic ?s = None"
      "length (filter is_gnu_stack gs) = 0 \<longleftrightarrow> ss_gnu_stack_segment_count ?s = 0"
    using small_count_zero [of "length (filter is_gnu_stack gs)"] assms(2)
    by (simp_all add: scan_summary_def at_most_one_def find_None_filter)
  have range: "checked_file_end bs (p_offset g) (p_filesz g) ProgramHeaderFileRange = Inr file_end \<longleftrightarrow>
      unat (p_offset g) + unat (p_filesz g) \<le> length bs \<and> file_end = p_offset g + p_filesz g" for file_end
    using assms(1) by (simp add: checked_file_end_eq)
  obtain a b c d e i j k where fields: "?s =
      \<lparr>ss_load_segment_count = a, ss_executable_load_segment_count = b, ss_readable_load_exists = c,
       ss_entry_point_in_executable_load = d, ss_load_file_ranges = e, ss_interpreter = i, ss_dynamic = j,
       ss_gnu_stack_segment_count = k\<rparr>"
    by (cases ?s) auto
  note parts = parts [unfolded fields SegmentScan.simps]
  have merge: "(case x of None \<Rightarrow> None | Some y \<Rightarrow> Some y) = x" for x :: "ProgramHeader option"
    by (cases x) simp_all
  have flag: "p_flags g AND PF_X = 0 \<longleftrightarrow> \<not> executable g" by (simp add: executable_def)
  consider (load) "is_load g" | (interp) "is_interp g" | (dynamic) "is_dynamic g"
    | (stack) "is_gnu_stack g"
    | (other) "\<not> is_load g" "\<not> is_interp g" "\<not> is_dynamic g" "\<not> is_gnu_stack g" by blast
  then show ?thesis
  proof cases
    case load
    then have "p_type g = PT_LOAD" by (simp add: is_load_def)
    then show ?thesis
      using load
      by (auto simp: scan_segment_def fields merge range scan_load_eq scan_summary_snoc Let_def sound_segment_def segment_kinds
          file_range_def)
  next
    case interp
    then have "p_type g = PT_INTERP" by (simp add: is_interp_def)
    then show ?thesis
      by (auto simp: scan_segment_def fields merge range parts scan_summary_snoc fields Let_def sound_segment_def
          segment_kinds holds_entry_def
          simp del: length_0_conv)
next
    case dynamic
    then have "p_type g = PT_DYNAMIC" by (simp add: is_dynamic_def)
    then show ?thesis
      by (auto simp: scan_segment_def fields merge range parts scan_summary_snoc fields Let_def sound_segment_def
          segment_kinds holds_entry_def
          simp del: length_0_conv)
next
    case stack
    then have "p_type g = PT_GNU_STACK" by (simp add: is_gnu_stack_def)
    then show ?thesis
      by (auto simp: scan_segment_def fields merge range parts flag scan_summary_snoc Let_def sound_segment_def segment_kinds
          holds_entry_def
          simp del: length_0_conv)
next
    case other
    then show ?thesis
      by (auto simp: scan_segment_def fields merge range scan_summary_snoc Let_def sound_segment_def segment_kinds holds_entry_def
          split: option.splits)
  qed
qed

lemma scan_exact:
  assumes "length bs < 2 ^ 64"
  shows "run_each (scan_segment bs header) gs scan_start = Inr s \<longleftrightarrow>
    list_all (sound_segment bs) gs \<and> at_most_one is_interp gs \<and> at_most_one is_dynamic gs
    \<and> at_most_one is_gnu_stack gs \<and> s = scan_summary header gs"
proof (induction gs arbitrary: s rule: rev_induct)
  case Nil
  show ?case
    by (auto simp: scan_start_def scan_summary_def loaded_ranges_def at_most_one_def)
next
  case (snoc g gs)
  show ?case
    using scan_segment_eq [OF assms, where gs = gs and g = g and header = header and s = s]
    by (auto simp: run_each_append snoc.IH at_most_one_snoc)
qed

lemma panic_free_scan_segment: "panic_free (scan_segment bs header g s)"
  unfolding scan_segment_def
  by (intro panic_free_and_then panic_free_checked_file_end)
    (auto intro!: panic_free_and_then simp: panic_rules Let_def scan_load_def)

section \<open>Disjoint file ranges\<close>

text \<open>Any two of the ranges are disjoint.\<close>

definition pairwise_disjoint :: "(u64 \<times> u64) list \<Rightarrow> bool" where
  "pairwise_disjoint = sorted_wrt (\<lambda>a b. snd a \<le> fst b \<or> snd b \<le> fst a)"

lemma sorted_wrt_symmetric_perm:
  assumes "symp R" "mset xs = mset ys"
  shows "sorted_wrt R xs \<longleftrightarrow> sorted_wrt R ys"
  using assms(2)
proof (induction xs arbitrary: ys)
  case Nil
  then show ?case by simp
next
  case (Cons x xs)
  from Cons.prems have "x \<in> set ys" by (metis list.set_intros(1) mset_eq_setD)
  then obtain us vs where ys: "ys = us @ x # vs" by (meson split_list)
  with Cons.prems have rest: "mset xs = mset (us @ vs)" by simp
  have "sorted_wrt R ys \<longleftrightarrow> (\<forall>y \<in> set (us @ vs). R x y) \<and> sorted_wrt R (us @ vs)"
    using assms(1) unfolding ys by (auto simp: sorted_wrt_append dest: sympD)
  also have "set (us @ vs) = set xs" using rest by (metis mset_eq_setD)
  finally show ?case using Cons.IH [OF rest] by simp
qed

lemma check_disjoint_sorted:
  "sorted ys \<Longrightarrow> (\<forall>y \<in> set ys. fst y < snd y) \<Longrightarrow> (have_previous \<or> previous_end = 0) \<Longrightarrow>
    check_disjoint_ranges previous_end have_previous ys = Inr u \<longleftrightarrow>
    (\<forall>y \<in> set ys. previous_end \<le> fst y) \<and> pairwise_disjoint ys"
proof (induction previous_end have_previous ys rule: check_disjoint_ranges.induct)
  case (1 p q)
  then show ?case by (simp add: pairwise_disjoint_def)
next
  case (2 p q a b rest)
  have order: "a \<le> fst y" "fst y < snd y" if "y \<in> set rest" for y
    using 2(2,3) that by (auto simp: less_eq_prod_def)
  have after: "snd y \<le> a \<longleftrightarrow> False" if "y \<in> set rest" for y
    using order [OF that] by auto
  have "check_disjoint_ranges (max p b) True rest = Inr u \<longleftrightarrow>
      (\<forall>y \<in> set rest. max p b \<le> fst y) \<and> pairwise_disjoint rest" (is "?l \<longleftrightarrow> ?r")
    if "\<not> q \<or> p \<le> a"
    using 2 that by (intro 2(1)) auto
  then show ?case
    using 2(4) order(1) after by (auto simp: pairwise_disjoint_def intro: order_trans)
qed

lemma check_disjoint_exact:
  assumes "\<forall>y \<in> set ranges. fst y < snd y"
  shows "check_disjoint_ranges 0 False (sort ranges) = Inr u \<longleftrightarrow> pairwise_disjoint ranges"
proof -
  have "symp (\<lambda>a b :: u64 \<times> u64. snd a \<le> fst b \<or> snd b \<le> fst a)" by (auto intro: sympI)
  then have "pairwise_disjoint (sort ranges) \<longleftrightarrow> pairwise_disjoint ranges"
    unfolding pairwise_disjoint_def by (rule sorted_wrt_symmetric_perm) simp
  then show ?thesis using assms by (subst check_disjoint_sorted) auto
qed

lemma panic_free_check_disjoint: "panic_free (check_disjoint_ranges p q ranges)"
  by (induction p q ranges rule: check_disjoint_ranges.induct)
    (auto intro!: panic_free_and_then simp: panic_rules)

section \<open>The section table\<close>

text \<open>A section lies in the file, and its links name sections of the table.\<close>

definition sound_section :: "bytes \<Rightarrow> nat \<Rightarrow> SectionHeader \<Rightarrow> bool" where
  "sound_section bs shnum sec \<longleftrightarrow>
     (sh_type sec \<noteq> SHT_NOBITS \<longrightarrow> unat (sh_offset sec) + unat (sh_size sec) \<le> length bs)
     \<and> (section_link_is_section_index (sh_type sec) \<or> sh_flags sec AND SHF_LINK_ORDER \<noteq> 0
          \<longrightarrow> unat (sh_link sec) < shnum)
     \<and> (sh_type sec = SHT_REL \<or> sh_type sec = SHT_RELA \<or> sh_flags sec AND SHF_INFO_LINK \<noteq> 0
          \<longrightarrow> unat (sh_info sec) < shnum)"

text \<open>The selected string table lies in the file, is bounded by NULs and contains every name offset.\<close>

definition sound_names :: "bytes \<Rightarrow> SectionHeader \<Rightarrow> SectionHeader list \<Rightarrow> bool" where
  "sound_names bs names secs \<longleftrightarrow>
     (let table = slice bs (unat (sh_offset names)) (unat (sh_offset names) + unat (sh_size names)) in
      sh_type names = SHT_STRTAB \<and> unat (sh_offset names) + unat (sh_size names) \<le> length bs
      \<and> 0 < length table \<and> table ! 0 = 0 \<and> table ! (length table - 1) = 0
      \<and> (\<forall>sec \<in> set secs. unat (sh_name sec) < length table))"

definition sound_section_table ::
  "elf_crate \<Rightarrow> bytes \<Rightarrow> FileHeader \<Rightarrow> Amd64ElfLimits \<Rightarrow> SectionHeader list \<Rightarrow> bool" where
  "sound_section_table elf bs header limits secs \<longleftrightarrow>
     (let shnum = unat (h_e_shnum header); table_start = unat (h_e_shoff header);
          names = unat (h_e_shstrndx header) in
      shnum < 0xff00 \<and> shnum \<le> unat (el_maximum_section_headers limits)
      \<and> h_e_shentsize header = 64
      \<and> table_start + shnum * 64 \<le> length bs
      \<and> secs = take shnum (section_header_table elf (slice bs table_start (table_start + shnum * 64)))
      \<and> length secs = shnum \<and> 0 < shnum \<and> secs ! 0 = null_section
      \<and> list_all (sound_section bs shnum) secs
      \<and> (names \<noteq> 0 \<longrightarrow> names < shnum \<and> sound_names bs (secs ! names) secs))"

lemma ucast_u16_u64: "unat (ucast (w :: u16) :: u64) = unat w"
  by (simp add: unsigned_ucast_eq take_bit_nat_eq_self_iff) (use unat_u16_bound [of w] in simp)

lemma ucast_u32_u64: "unat (ucast (w :: u32) :: u64) = unat w"
  by (simp add: unsigned_ucast_eq take_bit_nat_eq_self_iff) (use unat_u32_bound [of w] in simp)

lemma check_section_eq:
  assumes "length bs < 2 ^ 64"
  shows "check_section bs (ucast (shnum :: u16)) sec = Inr u \<longleftrightarrow> sound_section bs (unat shnum) sec"
  using assms
  by (auto simp: check_section_def sound_section_def checked_file_end_eq word_less_nat_alt
      ucast_u16_u64 ucast_u32_u64)

lemma check_section_names_eq:
  assumes "length bs < 2 ^ 64" "unat (h_e_shstrndx header) < length secs"
  shows "check_section_names bs header secs = Inr u \<longleftrightarrow>
    sound_names bs (secs ! unat (h_e_shstrndx header)) secs"
  using assms
  by (auto simp: check_section_names_def sound_names_def checked_file_range_eq check_each_eq Let_def
      hd_conv_nth last_conv_nth simp del: length_slice)

lemma table_bytes_u64:
  "checked_mul_word (ucast (shnum :: u16)) k = Some (table_bytes :: u64) \<longleftrightarrow>
    unat k * unat shnum < 2 ^ 64 \<and> unat table_bytes = unat shnum * unat k"
  using unat_u64_bound [of table_bytes] by (auto simp: ucast_u16_u64 mult.commute)

lemma section_table_present:
  assumes "h_e_shoff header \<noteq> 0"
  shows "parse_and_validate_section_headers elf bs header limits = Inr secs \<longleftrightarrow>
    length bs < 2 ^ 64 \<and> sound_section_table elf bs header limits secs"
proof -
  let ?n = "h_e_shnum header" and ?i = "h_e_shstrndx header"
  have zero: "?n \<noteq> 0 \<longleftrightarrow> 0 < unat ?n" by (metis gr0I unat_0 unat_eq_0 word_unat_eq_iff less_irrefl)
  have table: "checked_mul_word (ucast ?n) 64 = Some table_bytes \<longleftrightarrow>
      table_bytes = of_nat (unat ?n * 64)" for table_bytes :: u64
    using unat_u16_bound [of ?n]
    by (auto simp: table_bytes_u64 elf_sizes word_unat_eq_iff [of table_bytes] unat_of_nat ucast_u16_u64
        simp del: of_nat_mult)
  have table_size: "unat (of_nat (unat ?n * 64) :: u64) = unat ?n * 64"
    using unat_u16_bound [of ?n] by (simp add: unat_of_nat del: of_nat_mult)
  have names: "h_e_shstrndx header = 0 \<longleftrightarrow> unat (h_e_shstrndx header) = 0" by (simp add: unat_eq_0)
  have low: "?n < 0xff00 \<longleftrightarrow> unat ?n < 0xff00" by (simp add: word_less_nat_alt)
  have limit: "validate_section_header_count limits (ucast ?n) = Inr u \<longleftrightarrow>
      unat ?n \<le> unat (el_maximum_section_headers limits)" for u
    by (simp add: validate_section_header_count_def word_le_nat_alt ucast_u16_u64)
  have index: "(?i = SHN_UNDEF \<or> ?i < ELF_SHN_LORESERVE \<and> ?i < ?n) \<longleftrightarrow> (unat ?i \<noteq> 0 \<longrightarrow> unat ?i < unat ?n)"
    if "unat ?n < 0xff00"
    using that by (auto simp: names word_less_nat_alt elf_sizes)
  have xindex: "?i \<noteq> SHN_XINDEX" if "unat ?i \<noteq> 0 \<longrightarrow> unat ?i < unat ?n" "unat ?n < 0xff00"
    using that by auto
  show ?thesis
  proof (cases "length bs < 2 ^ 64")
    case False
    then show ?thesis
      using assms by (auto simp: parse_and_validate_section_headers_def Let_def checked_file_range_eq)
  next
    case True
    let ?secs = "take (unat ?n) (section_header_table elf
      (slice bs (unat (h_e_shoff header)) (unat (h_e_shoff header) + unat ?n * 64)))"
    have "parse_and_validate_section_headers elf bs header limits = Inr secs \<longleftrightarrow>
        0 < unat ?n \<and> unat ?n < 0xff00 \<and> ?i \<noteq> SHN_XINDEX
        \<and> unat ?n \<le> unat (el_maximum_section_headers limits)
        \<and> h_e_shentsize header = 64 \<and> (?i = SHN_UNDEF \<or> ?i < ELF_SHN_LORESERVE \<and> ?i < ?n)
        \<and> unat (h_e_shoff header) + unat ?n * 64 \<le> length bs \<and> length ?secs = unat ?n
        \<and> ?secs ! 0 = null_section \<and> (\<forall>sec \<in> set ?secs. sound_section bs (unat ?n) sec)
        \<and> (?i \<noteq> 0 \<longrightarrow> check_section_names bs header ?secs = Inr ()) \<and> secs = ?secs"
      using assms True
      by (auto simp: parse_and_validate_section_headers_def Let_def zero low limit table table_size
          checked_file_range_eq check_each_eq check_section_eq elf_sizes
          simp del: of_nat_mult length_take checked_mul_word_eq_Some)
    moreover have "check_section_names bs header ?secs = Inr () \<longleftrightarrow> sound_names bs (?secs ! unat ?i) ?secs"
      if "unat ?i < length ?secs"
      using check_section_names_eq [OF True that] .
    ultimately show ?thesis
      using index xindex True
      by (auto simp: sound_section_table_def Let_def names list_all_iff simp del: length_take)
  qed
qed

lemma section_count_bound:
  "parse_and_validate_section_headers elf bs header limits = Inr secs \<Longrightarrow> length secs < 65536"
proof (cases "h_e_shoff header = 0")
  case True
  then show "parse_and_validate_section_headers elf bs header limits = Inr secs \<Longrightarrow> length secs < 65536"
    by (auto simp: parse_and_validate_section_headers_def)
next
  case False
  then show "parse_and_validate_section_headers elf bs header limits = Inr secs \<Longrightarrow> length secs < 65536"
    using unat_u16_bound [of "h_e_shnum header"]
    by (auto simp: section_table_present sound_section_table_def Let_def)
qed

section \<open>The whole structure\<close>

definition sound_program_headers ::
  "elf_crate \<Rightarrow> bytes \<Rightarrow> FileHeader \<Rightarrow> Amd64ElfLimits \<Rightarrow> ProgramHeader list \<Rightarrow> bool" where
  "sound_program_headers elf bs header limits gs \<longleftrightarrow>
     (let phnum = unat (h_e_phnum header); table_start = unat (h_e_phoff header) in
      0 < phnum \<and> phnum \<le> unat (el_maximum_program_headers limits)
      \<and> h_e_phentsize header = 56
      \<and> table_start + phnum * 56 \<le> length bs
      \<and> gs = take phnum (segment_table elf (slice bs table_start (table_start + phnum * 56)))
      \<and> length gs = phnum
      \<and> list_all (sound_segment bs) gs
      \<and> at_most_one is_interp gs \<and> at_most_one is_dynamic gs
      \<and> length (filter is_gnu_stack gs) = 1
      \<and> list_ex (\<lambda>g. is_load g \<and> readable g) gs
      \<and> pairwise_disjoint (loaded_ranges gs))"

definition analysis_of ::
  "FileHeader \<Rightarrow> SectionHeader list \<Rightarrow> ProgramHeader list \<Rightarrow> CommonElfAnalysis" where
  "analysis_of header secs gs =
     \<lparr>ca_common =
        \<lparr>ci_elf_type = (if h_e_type header = ET_EXEC then Executable else SharedObject),
         ci_os_abi = (if h_osabi header = ELFOSABI_SYSV then SystemV else Linux),
         ci_program_header_count = of_nat (length gs),
         ci_section_header_count = of_nat (length secs),
         ci_load_segment_count = of_nat (length (filter is_load gs)),
         ci_executable_load_segment_count = of_nat (length (filter (\<lambda>g. is_load g \<and> executable g) gs)),
         ci_entry_point_is_zero = (h_e_entry header = 0),
         ci_entry_point_in_executable_load = list_ex (holds_entry header) gs,
         ci_interpreter_segment_count = of_nat (length (filter is_interp gs)),
         ci_dynamic_segment_count = of_nat (length (filter is_dynamic gs)),
         ci_gnu_stack_segment_count = 1\<rparr>,
      ca_program_headers = gs,
      ca_interpreter = find is_interp gs,
      ca_dynamic = find is_dynamic gs\<rparr>"

lemma ranges_nonempty:
  assumes "length bs < 2 ^ 64" "list_all (sound_segment bs) gs"
  shows "\<forall>y \<in> set (loaded_ranges gs). fst y < snd y"
proof
  fix y
  assume "y \<in> set (loaded_ranges gs)"
  then obtain g where g: "g \<in> set gs" "p_filesz g \<noteq> 0" "y = file_range g"
    by (auto simp: loaded_ranges_def)
  with assms have "unat (p_offset g) + unat (p_filesz g) \<le> length bs"
    by (auto simp: list_all_iff sound_segment_def)
  then show "fst y < snd y"
    using assms(1) g(2,3) by (simp add: file_range_def word_less_nat_alt unat_file_end unat_gt_0)
qed

lemma at_most_one_count:
  "at_most_one P gs \<Longrightarrow> (if find P gs \<noteq> None then 1 else 0 :: u64) = of_nat (length (filter P gs))"
  by (cases "filter P gs") (auto simp: at_most_one_def find_None_filter)

lemma load_count_positive:
  assumes "length gs < 65536" "list_ex (\<lambda>g. is_load g \<and> readable g) gs"
  shows "(of_nat (length (filter is_load gs)) :: u64) \<noteq> 0"
proof -
  from assms(2) have "filter is_load gs \<noteq> []" by (auto simp: list_ex_iff filter_empty_conv)
  moreover have "length (filter is_load gs) < 65536"
    using assms(1) length_filter_le [of is_load gs] by (rule order.strict_trans1 [rotated])
  ultimately have "unat (of_nat (length (filter is_load gs)) :: u64) \<noteq> 0" by (simp add: unat_of_nat)
  then show ?thesis by auto
qed

lemma ucast_u16_of_nat: "(ucast (w :: u16) :: u64) = of_nat (unat w)"
  using unat_u16_bound [of w] by (simp add: word_unat_eq_iff ucast_u16_u64 unat_of_nat)

lemma analysis_of_scan:
  assumes "at_most_one is_interp gs" "at_most_one is_dynamic gs" "length gs = unat (phnum :: u16)"
    "ss_gnu_stack_segment_count (scan_summary header gs) = 1"
  shows "(let s = scan_summary header gs in
    \<lparr>ca_common =
       \<lparr>ci_elf_type = if h_e_type header = ET_EXEC then Executable else SharedObject,
        ci_os_abi = if h_osabi header = ELFOSABI_SYSV then SystemV else Linux,
        ci_program_header_count = ucast phnum,
        ci_section_header_count = of_nat (length secs),
        ci_load_segment_count = ss_load_segment_count s,
        ci_executable_load_segment_count = ss_executable_load_segment_count s,
        ci_entry_point_is_zero = (h_e_entry header = 0),
        ci_entry_point_in_executable_load = ss_entry_point_in_executable_load s,
        ci_interpreter_segment_count = (if ss_interpreter s \<noteq> None then 1 else 0),
        ci_dynamic_segment_count = (if ss_dynamic s \<noteq> None then 1 else 0),
        ci_gnu_stack_segment_count = ss_gnu_stack_segment_count s\<rparr>,
     ca_program_headers = gs, ca_interpreter = ss_interpreter s, ca_dynamic = ss_dynamic s\<rparr>)
    = analysis_of header secs gs"
  unfolding Let_def assms(4)
  by (simp only: scan_summary_def SegmentScan.simps analysis_of_def at_most_one_count [OF assms(1)]
      at_most_one_count [OF assms(2)] ucast_u16_of_nat assms(3))

theorem structure_exact:
  "inspect_common_structure elf bs header limits = Inr analysis \<longleftrightarrow>
    length bs < 2 ^ 64
    \<and> h_e_type header \<in> {ET_EXEC, ET_DYN} \<and> h_osabi header \<in> {ELFOSABI_SYSV, ELFOSABI_LINUX}
    \<and> (\<exists>secs gs. parse_and_validate_section_headers elf bs header limits = Inr secs
         \<and> sound_program_headers elf bs header limits gs
         \<and> analysis = analysis_of header secs gs)" (is "_ \<longleftrightarrow> ?rhs")
proof (cases "length bs < 2 ^ 64")
  case False
  then show ?thesis
    by (auto simp: inspect_common_structure_def Let_def checked_file_range_eq)
next
  case True
  let ?n = "h_e_phnum header"
  let ?phoff = "unat (h_e_phoff header)"
  let ?gs = "take (unat ?n) (segment_table elf (slice bs ?phoff (?phoff + unat ?n * 56)))"
  have limit: "validate_program_header_count limits (ucast ?n) = Inr u \<longleftrightarrow>
      0 < unat ?n \<and> unat ?n \<le> unat (el_maximum_program_headers limits)" for u
    by (auto simp: validate_program_header_count_def in_closed_range_def word_le_nat_alt ucast_u16_u64)
  have table: "checked_mul_word (ucast ?n) (ucast (56 :: u16)) = Some table_bytes \<longleftrightarrow>
      table_bytes = of_nat (unat ?n * 56)" for table_bytes :: u64
    using unat_u16_bound [of ?n]
    by (auto simp: table_bytes_u64 word_unat_eq_iff [of table_bytes] unat_of_nat ucast_u16_u64
        simp del: of_nat_mult)
  have table_size: "unat (of_nat (unat ?n * 56) :: u64) = unat ?n * 56"
    using unat_u16_bound [of ?n] by (simp add: unat_of_nat del: of_nat_mult)
  let ?scanned = "\<lambda>gs. list_all (sound_segment bs) gs \<and> at_most_one is_interp gs
    \<and> at_most_one is_dynamic gs \<and> at_most_one is_gnu_stack gs"
  let ?s = "scan_summary header ?gs"
  have type: "(if h_e_type header = ET_EXEC then Inr Executable
               else if h_e_type header = ET_DYN then Inr SharedObject else Inl ElfPanicked) = Inr t \<longleftrightarrow>
      h_e_type header \<in> {ET_EXEC, ET_DYN} \<and> t = (if h_e_type header = ET_EXEC then Executable else SharedObject)"
    for t by auto
  have os: "(if h_osabi header = ELFOSABI_SYSV then Inr SystemV
               else if h_osabi header = ELFOSABI_LINUX then Inr Linux else Inl ElfPanicked) = Inr t \<longleftrightarrow>
      h_osabi header \<in> {ELFOSABI_SYSV, ELFOSABI_LINUX}
      \<and> t = (if h_osabi header = ELFOSABI_SYSV then SystemV else Linux)"
    for t by auto
  let ?read = "0 < unat ?n \<and> unat ?n \<le> unat (el_maximum_program_headers limits)
        \<and> h_e_phentsize header = 56 \<and> ?phoff + unat ?n * 56 \<le> length bs \<and> length ?gs = unat ?n"
  let ?analysis = "\<lambda>secs. \<lparr>ca_common =
            \<lparr>ci_elf_type = if h_e_type header = ET_EXEC then Executable else SharedObject,
             ci_os_abi = if h_osabi header = ELFOSABI_SYSV then SystemV else Linux,
             ci_program_header_count = ucast ?n,
             ci_section_header_count = of_nat (length secs),
             ci_load_segment_count = ss_load_segment_count ?s,
             ci_executable_load_segment_count = ss_executable_load_segment_count ?s,
             ci_entry_point_is_zero = (h_e_entry header = 0),
             ci_entry_point_in_executable_load = ss_entry_point_in_executable_load ?s,
             ci_interpreter_segment_count = (if ss_interpreter ?s \<noteq> None then 1 else 0),
             ci_dynamic_segment_count = (if ss_dynamic ?s \<noteq> None then 1 else 0),
             ci_gnu_stack_segment_count = ss_gnu_stack_segment_count ?s\<rparr>,
          ca_program_headers = ?gs, ca_interpreter = ss_interpreter ?s, ca_dynamic = ss_dynamic ?s\<rparr>"
  have "inspect_common_structure elf bs header limits = Inr analysis \<longleftrightarrow>
      ?read \<and> ?scanned ?gs \<and> ss_load_segment_count ?s \<noteq> 0 \<and> ss_readable_load_exists ?s
      \<and> ss_gnu_stack_segment_count ?s = 1
      \<and> check_disjoint_ranges 0 False (sort (ss_load_file_ranges ?s)) = Inr ()
      \<and> h_e_type header \<in> {ET_EXEC, ET_DYN} \<and> h_osabi header \<in> {ELFOSABI_SYSV, ELFOSABI_LINUX}
      \<and> (\<exists>secs. parse_and_validate_section_headers elf bs header limits = Inr secs
           \<and> length secs < 2 ^ 64 \<and> analysis = ?analysis secs)"
    using True
    by (simp only: inspect_common_structure_def Let_def elf_sizes and_then_simps and_then_eq_Inr ok_or_eq_Inr
        map_err_eq_Inr ensure_eq_Inr limit table table_size checked_file_range_eq scan_exact [OF True] type os
        u64_try_from_iff sum.inject)
      (auto simp: table_size simp del: length_take of_nat_mult)
  also have "\<dots> \<longleftrightarrow> h_e_type header \<in> {ET_EXEC, ET_DYN} \<and> h_osabi header \<in> {ELFOSABI_SYSV, ELFOSABI_LINUX}
      \<and> (\<exists>secs. parse_and_validate_section_headers elf bs header limits = Inr secs
           \<and> sound_program_headers elf bs header limits ?gs \<and> analysis = analysis_of header secs ?gs)"
    (is "?l \<longleftrightarrow> ?r")
  proof -
    have summary: "ss_load_segment_count ?s = of_nat (length (filter is_load ?gs))"
        "ss_readable_load_exists ?s \<longleftrightarrow> list_ex (\<lambda>g. is_load g \<and> readable g) ?gs"
        "ss_gnu_stack_segment_count ?s = of_nat (length (filter is_gnu_stack ?gs))"
        "ss_load_file_ranges ?s = loaded_ranges ?gs"
      by (simp_all add: scan_summary_def)
    have stack: "(of_nat (length (filter is_gnu_stack ?gs)) :: u64) = 1 \<longleftrightarrow> length (filter is_gnu_stack ?gs) = 1"
      if "at_most_one is_gnu_stack ?gs"
      using that by (cases "filter is_gnu_stack ?gs") (auto simp: at_most_one_def)
    have one: "length (filter is_gnu_stack ?gs) = 1 \<Longrightarrow> at_most_one is_gnu_stack ?gs"
      by (simp add: at_most_one_def)
    have short: "length ?gs < 65536" if "length ?gs = unat ?n"
      using unat_u16_bound [of ?n] that by simp
    have same: "?analysis secs = analysis_of header secs ?gs" if "?scanned ?gs" "length ?gs = unat ?n"
        "ss_gnu_stack_segment_count ?s = 1" for secs
      using analysis_of_scan [of ?gs ?n header secs] that unfolding Let_def by blast
    have sound: "sound_program_headers elf bs header limits ?gs \<longleftrightarrow>
        ?read \<and> ?scanned ?gs \<and> ss_load_segment_count ?s \<noteq> 0 \<and> ss_readable_load_exists ?s
        \<and> ss_gnu_stack_segment_count ?s = 1
        \<and> check_disjoint_ranges 0 False (sort (ss_load_file_ranges ?s)) = Inr ()"
      unfolding sound_program_headers_def Let_def summary
      using stack one short load_count_positive [of ?gs] check_disjoint_exact [OF ranges_nonempty [OF True]]
      by blast
    show ?thesis
      unfolding sound using same section_count_bound by fastforce
  qed
  also have "\<dots> \<longleftrightarrow> ?rhs"
    using True by (auto simp: sound_program_headers_def Let_def)
  finally show ?thesis .
qed

lemma structure_panic_free:
  assumes "h_e_type header \<in> {ET_EXEC, ET_DYN}" "h_osabi header \<in> {ELFOSABI_SYSV, ELFOSABI_LINUX}"
  shows "panic_free (inspect_common_structure elf bs header limits)"
  using assms unfolding inspect_common_structure_def Let_def
  by (intro panic_free_and_then panic_free_checked_file_range section_headers_panic_free
      panic_free_run_each panic_free_scan_segment panic_free_check_disjoint)
    (auto simp: panic_rules)

section \<open>The file header\<close>

definition closed_ident :: "bytes \<Rightarrow> bool" where
  "closed_ident bs \<longleftrightarrow>
     take 7 bs = [0x7f, 0x45, 0x4c, 0x46, ELFCLASS64, ELFDATA2LSB, EV_CURRENT]
     \<and> bs ! 7 \<in> {ELFOSABI_SYSV, ELFOSABI_LINUX} \<and> slice bs 8 16 = replicate 8 0"

definition closed_header :: "FileHeader \<Rightarrow> bool" where
  "closed_header header \<longleftrightarrow>
     h_e_type header \<in> {ET_EXEC, ET_DYN} \<and> h_e_machine header = EM_X86_64
     \<and> h_version header = 1 \<and> h_e_ehsize header = 64"

lemma ident_split:
  assumes "64 \<le> length bs"
  shows "closed_ident bs \<longleftrightarrow>
    take 4 bs = [0x7f, 0x45, 0x4c, 0x46] \<and> bs ! 4 = ELFCLASS64 \<and> bs ! 5 = ELFDATA2LSB \<and> bs ! 6 = EV_CURRENT
    \<and> bs ! 7 \<in> {ELFOSABI_SYSV, ELFOSABI_LINUX} \<and> bs ! 8 = 0
    \<and> list_all (\<lambda>byte. byte = 0) (slice bs 9 16)"
proof -
  have seven: "take 7 bs = take 4 bs @ [bs ! 4, bs ! 5, bs ! 6]"
    using assms by (simp add: take_Suc_conv_app_nth numeral_eq_Suc)
  have eight: "slice bs 8 16 = bs ! 8 # slice bs 9 16"
    using assms by (simp add: slice_def Cons_nth_drop_Suc [of 8 bs, symmetric])
  have pad: "list_all (\<lambda>byte. byte = 0) (slice bs 9 16) \<longleftrightarrow> slice bs 9 16 = replicate 7 0"
    using assms by (simp add: list_all_eq_replicate)
  show ?thesis
    unfolding closed_ident_def seven eight pad using assms by (auto simp: numeral_eq_Suc)
qed

lemma header_exact_parts:
  assumes "64 \<le> length bs"
  shows "parse_closed_elf64_header elf bs = Inr header \<longleftrightarrow>
    closed_ident bs
    \<and> (\<exists>ident. parse_ident elf (take 16 bs) = Some ident \<and> fst ident = ELF64
         \<and> parse_tail elf ident (slice bs 16 64) = Some header)
    \<and> closed_header header"
proof -
  have index: "get_index bs i = Some (bs ! i)" if "i < 64" for i
    using assms that by (simp add: get_index_def)
  have range: "get_range bs i j = Some (slice bs i j)" if "i \<le> j" "j \<le> 64" for i j
    using assms that by (simp add: get_range_def)
  have zero: "slice bs 0 n = take n bs" for n by (simp add: slice_def)
  have ehsize: "unat (h_e_ehsize header) = 64 \<longleftrightarrow> h_e_ehsize header = 64"
    by (auto simp: word_unat_eq_iff)
  show ?thesis
    unfolding ident_split [OF assms]
    by (auto simp: parse_closed_elf64_header_def index range zero elf_sizes closed_header_def
        word_unat_eq_iff [of _ 64])
qed

lemma header_panic_free:
  assumes "64 \<le> length bs"
  shows "panic_free (parse_closed_elf64_header elf bs)"
  unfolding parse_closed_elf64_header_def
  using assms by (intro panic_free_and_then) (auto simp: panic_rules get_index_def get_range_def elf_sizes)

lemma header_closed:
  assumes reader: "elf_reader (parse_ident elf) (parse_tail elf)"
    and long: "64 \<le> length bs"
    and header: "parse_closed_elf64_header elf bs = Inr header"
  shows "closed_header header" "h_osabi header \<in> {ELFOSABI_SYSV, ELFOSABI_LINUX}"
proof -
  from header obtain ident where parts: "closed_ident bs" "closed_header header"
      "parse_ident elf (take 16 bs) = Some ident" "parse_tail elf ident (slice bs 16 64) = Some header"
    unfolding header_exact_parts [OF long] by auto
  have "h_osabi header = take 16 bs ! 7" by (rule elf_reader.header_osabi [OF reader parts(3,4)])
  then show "closed_header header" "h_osabi header \<in> {ELFOSABI_SYSV, ELFOSABI_LINUX}"
    using parts(1,2) by (simp_all add: closed_ident_def)
qed

end
