(* ===== verification/ElfDynamic.thy ===== *)
theory ElfDynamic
  imports ElfStructure OciPath
begin

text \<open>
  The dynamic half of the AMD64 inspector: the dynamic array up to its first \<open>DT_NULL\<close>, the string table
  it names through the loaded segments, and the needed libraries, SONAME and RUNPATH read from it. A loop
  that pushes is \<open>map_each\<close>; one that replaces an option is \<open>run_each\<close> on the option.
\<close>

section \<open>Dynamic tags\<close>

datatype Amd64ElfAcceptedDynamicTag =
    Null | Needed | PltRelSize | PltGot | Hash | StringTable | SymbolTable | Rela | RelaSize
  | RelaEntrySize | StringTableSize | SymbolEntrySize | Init | Fini | Soname | Rel | RelSize | RelEntrySize
  | PltRel | Debug | JumpRel | BindNow | InitArray | FiniArray | InitArraySize | FiniArraySize | Runpath
  | Flags | PreinitArray | PreinitArraySize | SymbolTableSectionIndex | GnuHash | VersionSymbol | RelaCount
  | RelCount | Flags1 | VersionDefinition | VersionDefinitionCount | VersionNeed | VersionNeedCount

definition startup_dynamic_tags :: "(i64 \<times> Amd64ElfAcceptedDynamicTag) list" where
  "startup_dynamic_tags =
     [(DT_NULL, Null), (DT_NEEDED, Needed), (2, PltRelSize), (3, PltGot), (4, Hash),
      (DT_STRTAB, StringTable), (6, SymbolTable), (7, Rela), (8, RelaSize), (9, RelaEntrySize),
      (DT_STRSZ, StringTableSize), (11, SymbolEntrySize), (12, Init), (13, Fini), (DT_SONAME, Soname),
      (17, Rel), (18, RelSize), (19, RelEntrySize), (20, PltRel), (21, Debug), (23, JumpRel), (24, BindNow),
      (25, InitArray), (26, FiniArray), (27, InitArraySize), (28, FiniArraySize), (DT_RUNPATH, Runpath),
      (DT_FLAGS, Flags), (32, PreinitArray), (33, PreinitArraySize), (34, SymbolTableSectionIndex),
      (0x6ffffef5, GnuHash), (0x6ffffff0, VersionSymbol), (0x6ffffff9, RelaCount), (0x6ffffffa, RelCount),
      (DT_FLAGS_1, Flags1), (0x6ffffffc, VersionDefinition), (0x6ffffffd, VersionDefinitionCount),
      (0x6ffffffe, VersionNeed), (0x6fffffff, VersionNeedCount)]"

definition classify_startup_dynamic_tag :: "i64 \<Rightarrow> ElfError + Amd64ElfAcceptedDynamicTag" where
  "classify_startup_dynamic_tag tag =
     (case map_of startup_dynamic_tags tag of
        Some accepted \<Rightarrow> Inr accepted
      | None \<Rightarrow>
          if tag \<in> {DT_CONFIG, DT_DEPAUDIT, DT_AUDIT, ELF_DT_AUXILIARY, ELF_DT_FILTER}
          then Inl (Dynamic (RejectedLoaderTag tag))
          else if tag = DT_RPATH then Inl (Dynamic RejectedRpath)
          else Inl (Dynamic (UnlistedTag tag)))"

text \<open>\<open>DF_BIND_NOW\<close>, \<open>DF_ORIGIN\<close> and \<open>DF_STATIC_TLS\<close>.\<close>

definition allowed_dt_flags_mask :: u64 where "allowed_dt_flags_mask = 0x08 OR 0x01 OR 0x10"

text \<open>
  \<open>DF_1_NOW\<close>, \<open>DF_1_NODELETE\<close>, \<open>DF_1_INITFIRST\<close>, \<open>DF_1_NOOPEN\<close>, \<open>DF_1_ORIGIN\<close>, \<open>DF_1_NODUMP\<close> and \<open>DF_1_PIE\<close>.
\<close>

definition allowed_dt_flags_1_mask :: u64 where
  "allowed_dt_flags_1_mask = 0x01 OR 0x08 OR 0x20 OR 0x40 OR 0x80 OR 0x1000 OR 0x08000000"

definition validate_startup_dynamic_flags :: "i64 \<Rightarrow> u64 \<Rightarrow> ElfError + unit" where
  "validate_startup_dynamic_flags tag value =
     (if tag = DT_FLAGS then ensure (value AND NOT allowed_dt_flags_mask = 0) (Dynamic RejectedFlag)
      else if tag = DT_FLAGS_1 then ensure (value AND NOT allowed_dt_flags_1_mask = 0) (Dynamic RejectedFlag1)
      else Inr ())"

section \<open>The dynamic array\<close>

record Amd64ElfDynamicRecord =
  d_tag :: i64
  d_un :: u64

record ParsedStartupDynamicRecords =
  pd_accepted_records :: "Amd64ElfDynamicRecord list"
  pd_accepted_tags :: "Amd64ElfAcceptedDynamicTag list"
  pd_needed_offsets :: "(u64 \<times> u64) list"
  pd_soname_offset :: "(u64 \<times> u64) option"
  pd_runpath_offset :: "(u64 \<times> u64) option"
  pd_string_table_address :: "u64 option"
  pd_string_table_size :: "u64 option"
  pd_needed_library_count :: u64

definition parsed_start :: ParsedStartupDynamicRecords where
  "parsed_start =
     \<lparr>pd_accepted_records = [], pd_accepted_tags = [], pd_needed_offsets = [], pd_soname_offset = None,
      pd_runpath_offset = None, pd_string_table_address = None, pd_string_table_size = None,
      pd_needed_library_count = 0\<rparr>"

definition retain_startup_dynamic_record ::
  "ParsedStartupDynamicRecords \<Rightarrow> i64 \<Rightarrow> u64 \<Rightarrow> u64 \<Rightarrow> Amd64ElfAcceptedDynamicTag \<Rightarrow>
   RuntimeAmd64ElfLimits \<Rightarrow> ElfError + bool \<times> ParsedStartupDynamicRecords" where
  "retain_startup_dynamic_record parsed tag value dynamic_ordinal accepted_tag limits =
     and_then (validate_startup_dynamic_flags tag value) (\<lambda>_.
     let parsed = parsed\<lparr>pd_accepted_records := pd_accepted_records parsed @ [\<lparr>d_tag = tag, d_un = value\<rparr>],
                         pd_accepted_tags := pd_accepted_tags parsed @ [accepted_tag]\<rparr> in
     if tag = DT_NULL then Inr (True, parsed)
     else if tag = DT_STRTAB then
       and_then (ensure (pd_string_table_address parsed = None) (Dynamic RepeatsStrtab)) (\<lambda>_.
       Inr (False, parsed\<lparr>pd_string_table_address := Some value\<rparr>))
     else if tag = DT_STRSZ then
       and_then (ensure (pd_string_table_size parsed = None) (Dynamic RepeatsStrsz)) (\<lambda>_.
       Inr (False, parsed\<lparr>pd_string_table_size := Some value\<rparr>))
     else if tag = DT_NEEDED then
       and_then (ok_or (checked_add_word (pd_needed_library_count parsed) 1)
                   (Dynamic NeededCountOverflow)) (\<lambda>needed_library_count.
       and_then (map_err ElfBudget (validate_needed_library_count limits needed_library_count)) (\<lambda>_.
       Inr (False, parsed\<lparr>pd_needed_library_count := needed_library_count,
                          pd_needed_offsets := pd_needed_offsets parsed @ [(dynamic_ordinal, value)]\<rparr>)))
     else if tag = DT_SONAME then
       and_then (ensure (pd_soname_offset parsed = None) (Dynamic RepeatsSoname)) (\<lambda>_.
       Inr (False, parsed\<lparr>pd_soname_offset := Some (dynamic_ordinal, value)\<rparr>))
     else if tag = DT_RUNPATH then
       and_then (ensure (pd_runpath_offset parsed = None) (Dynamic RepeatsRunpath)) (\<lambda>_.
       Inr (False, parsed\<lparr>pd_runpath_offset := Some (dynamic_ordinal, value)\<rparr>))
     else Inr (False, parsed))"

text \<open>The loop over the entries from \<open>index\<close> on, at most \<open>n\<close> of them; it tells whether it met \<open>DT_NULL\<close>.\<close>

fun dynamic_loop ::
  "bytes \<Rightarrow> RuntimeAmd64ElfLimits \<Rightarrow> nat \<Rightarrow> nat \<Rightarrow> ParsedStartupDynamicRecords \<Rightarrow>
   ElfError + bool \<times> ParsedStartupDynamicRecords" where
  "dynamic_loop dynamic_bytes limits index 0 parsed = Inr (False, parsed)"
| "dynamic_loop dynamic_bytes limits index (Suc n) parsed =
     (let offset = index * ELF64_DYNAMIC_ENTRY_BYTES in
     and_then (ok_or (get_range dynamic_bytes offset (offset + 8)) ElfPanicked) (\<lambda>tag_bytes.
     and_then (ok_or (get_range dynamic_bytes (offset + 8) (offset + 16)) ElfPanicked) (\<lambda>value_bytes.
     let tag = u64_from_le tag_bytes; value = u64_from_le value_bytes in
     and_then (ok_or (u64_try_from index) LengthConversion) (\<lambda>dynamic_ordinal.
     and_then (classify_startup_dynamic_tag tag) (\<lambda>accepted_tag.
     and_then (retain_startup_dynamic_record parsed tag value dynamic_ordinal accepted_tag limits)
       (\<lambda>(found_null, parsed).
     if found_null then Inr (True, parsed)
     else dynamic_loop dynamic_bytes limits (index + 1) n parsed))))))"

definition parse_startup_dynamic_records ::
  "bytes \<Rightarrow> RuntimeAmd64ElfLimits \<Rightarrow> ElfError + ParsedStartupDynamicRecords" where
  "parse_startup_dynamic_records dynamic_bytes limits =
     (let maximum_entries = unat (rt_maximum_dynamic_entries limits);
          declared_entries = length dynamic_bytes div ELF64_DYNAMIC_ENTRY_BYTES in
     and_then (dynamic_loop dynamic_bytes limits 0 (min declared_entries maximum_entries) parsed_start)
       (\<lambda>(found_null, parsed).
     and_then (ensure found_null (Dynamic NoBoundedNull)) (\<lambda>_.
     and_then (ok_or (u64_try_from (length (pd_accepted_records parsed))) LengthConversion)
       (\<lambda>dynamic_entry_count.
     and_then (map_err ElfBudget (validate_dynamic_entry_count limits dynamic_entry_count)) (\<lambda>_.
     Inr parsed)))))"

section \<open>The dynamic string table\<close>

definition map_load ::
  "u64 \<Rightarrow> u64 \<Rightarrow> RangeLabel \<Rightarrow> ProgramHeader \<Rightarrow> u64 option \<Rightarrow> ElfError + u64 option" where
  "map_load virtual_address virtual_end label load mapped =
     and_then (ok_or (checked_add_word (p_vaddr load) (p_filesz load))
                 (Dynamic (LoadVirtualOverflow label))) (\<lambda>load_file_virtual_end.
     if p_vaddr load \<le> virtual_address \<and> virtual_end \<le> load_file_virtual_end then
       let relative = virtual_address - p_vaddr load in
       and_then (ok_or (checked_add_word (p_offset load) relative)
                   (Dynamic (FileOffsetOverflow label))) (\<lambda>file_offset.
       and_then (ensure (mapped = None) (Dynamic (MapsTwice label))) (\<lambda>_. Inr (Some file_offset)))
     else Inr mapped)"

definition map_virtual_file_range ::
  "bytes \<Rightarrow> ProgramHeader list \<Rightarrow> u64 \<Rightarrow> u64 \<Rightarrow> RangeLabel \<Rightarrow> ElfError + bytes" where
  "map_virtual_file_range bs program_headers virtual_address byte_length label =
     and_then (ok_or (checked_add_word virtual_address byte_length)
                 (Dynamic (VirtualOverflow label))) (\<lambda>virtual_end.
     and_then (run_each (map_load virtual_address virtual_end label)
                 (filter (\<lambda>segment. p_type segment = PT_LOAD) program_headers) None) (\<lambda>mapped_file_offset.
     and_then (ok_or mapped_file_offset (Dynamic (MapsNowhere label))) (\<lambda>file_offset.
     checked_file_range bs file_offset byte_length label)))"

definition resolve_startup_dynamic_string_table ::
  "bytes \<Rightarrow> CommonElfAnalysis \<Rightarrow> ParsedStartupDynamicRecords \<Rightarrow> ElfError + bytes option" where
  "resolve_startup_dynamic_string_table bs analysis parsed =
     (let has_dynamic_strings = (pd_needed_offsets parsed \<noteq> [] \<or> pd_soname_offset parsed \<noteq> None
                                 \<or> pd_runpath_offset parsed \<noteq> None) in
     and_then (if has_dynamic_strings
               then and_then (ok_or (pd_string_table_address parsed) (Dynamic StringsWithoutTable)) (\<lambda>address.
                    and_then (ok_or (pd_string_table_size parsed) (Dynamic StringsWithoutSize)) (\<lambda>table_size.
                    and_then (map_virtual_file_range bs (ca_program_headers analysis) address table_size
                                RuntimeDynamicStringTable) (\<lambda>table. Inr (Some table))))
               else Inr None) (\<lambda>string_table.
     and_then (case string_table of
                 Some table \<Rightarrow> ensure (list_ex (\<lambda>byte. byte = 0) table) (Dynamic TableWithoutNul)
               | None \<Rightarrow> Inr ()) (\<lambda>_.
     Inr string_table)))"

definition dynamic_string_at :: "bytes \<Rightarrow> u64 \<Rightarrow> DynamicLabel \<Rightarrow> ElfError + bytes" where
  "dynamic_string_at string_table offset label =
     and_then (ok_or (get_range string_table (unat offset) (length string_table))
                 (Dynamic (StringOffsetOutside label))) (\<lambda>rest.
     let value = takeWhile (\<lambda>byte. byte \<noteq> 0) rest in
     and_then (ensure (length value < length rest) (Dynamic (StringUnterminated label))) (\<lambda>_.
     and_then (ensure (is_utf8 value) (Dynamic (StringNotUtf8 label))) (\<lambda>_. Inr value)))"

section \<open>Names and paths\<close>

abbreviation (input) BACKSLASH :: u8 where "BACKSLASH \<equiv> 0x5c"
abbreviation (input) DOLLAR :: u8 where "DOLLAR \<equiv> 0x24"
abbreviation (input) COLON :: u8 where "COLON \<equiv> 0x3a"
abbreviation (input) SEMICOLON :: u8 where "SEMICOLON \<equiv> 0x3b"

definition printable_ascii :: "u8 \<Rightarrow> bool" where
  "printable_ascii byte \<longleftrightarrow> in_range 0x20 0x7e byte"

definition validate_dynamic_basename :: "bytes \<Rightarrow> DynamicLabel \<Rightarrow> ElfError + unit" where
  "validate_dynamic_basename value label =
     and_then (ok_or (u64_try_from (length value)) LengthConversion) (\<lambda>byte_length.
     and_then (map_err ElfBudget
                 (validate_dynamic_basename_bytes startup_dependency_closure_limits byte_length)) (\<lambda>_.
     ensure (list_all (\<lambda>byte. printable_ascii byte \<and> byte \<noteq> SLASH \<and> byte \<noteq> BACKSLASH) value)
       (Dynamic (BasenameRejected label))))"

record Amd64ElfNeededLibrary =
  nl_dynamic_ordinal :: u64
  nl_requested_name :: bytes

definition needed_library :: "bytes option \<Rightarrow> u64 \<times> u64 \<Rightarrow> ElfError + Amd64ElfNeededLibrary" where
  "needed_library string_table needed =
     and_then (ok_or string_table ElfPanicked) (\<lambda>table.
     and_then (dynamic_string_at table (snd needed) DtNeeded) (\<lambda>requested_name.
     and_then (validate_dynamic_basename requested_name DtNeeded) (\<lambda>_.
     Inr \<lparr>nl_dynamic_ordinal = fst needed, nl_requested_name = requested_name\<rparr>)))"

definition resolve_needed_libraries ::
  "(u64 \<times> u64) list \<Rightarrow> bytes option \<Rightarrow> ElfError + Amd64ElfNeededLibrary list" where
  "resolve_needed_libraries needed_offsets string_table =
     and_then (map_each (needed_library string_table) needed_offsets) (\<lambda>needed_libraries.
     let sorted_needed = sort (map nl_requested_name needed_libraries) in
     and_then (ensure (distinct_adj sorted_needed) (Dynamic RepeatsNeeded)) (\<lambda>_.
     Inr needed_libraries))"

datatype Amd64ElfRunpathComponent =
    Absolute bytes
  | OriginRelative (origin_raw: bytes) (origin_suffix: bytes)

record Amd64ElfValidatedRunpath =
  vr_raw :: bytes
  vr_components :: "Amd64ElfRunpathComponent list"

definition ORIGIN_TOKEN :: bytes where "ORIGIN_TOKEN = ascii ''$ORIGIN''"
definition ORIGIN_BRACED :: bytes where "ORIGIN_BRACED = ascii ''${ORIGIN}''"

definition validate_absolute_runpath_component :: "bytes \<Rightarrow> ElfError + unit" where
  "validate_absolute_runpath_component component =
     and_then (ensure (DOLLAR \<notin> set component) (Path AbsoluteExpansion)) (\<lambda>_.
     check_each (\<lambda>segment.
        ensure (segment \<noteq> [] \<and> segment \<noteq> ascii ''.'' \<and> segment \<noteq> ascii ''..''
                \<and> list_all (\<lambda>byte. printable_ascii byte \<and> byte \<noteq> SLASH) segment) (Path AbsoluteNoncanonical))
       (split_byte SLASH (drop 1 component)))"

definition runpath_component ::
  "StartupClosureLimits \<Rightarrow> bytes \<Rightarrow> ElfError + Amd64ElfRunpathComponent" where
  "runpath_component limits component =
     and_then (ok_or (u64_try_from (length component)) LengthConversion) (\<lambda>byte_length.
     and_then (map_err ElfBudget (validate_runpath_component_bytes limits byte_length)) (\<lambda>_.
     if starts_with component [SLASH] then
       and_then (validate_absolute_runpath_component component) (\<lambda>_. Inr (Absolute component))
     else
       and_then (ok_or (case strip_prefix ORIGIN_TOKEN component of
                          Some suffix \<Rightarrow> Some suffix
                        | None \<Rightarrow> strip_prefix ORIGIN_BRACED component) (Path ComponentForm)) (\<lambda>suffix.
       and_then (ensure (suffix = [] \<or> starts_with suffix [SLASH]) (Path OriginEmbedded)) (\<lambda>_.
       and_then (ensure (DOLLAR \<notin> set suffix) (Path OriginRepeated)) (\<lambda>_.
       and_then (case strip_prefix [SLASH] suffix of
                   Some path \<Rightarrow>
                     check_each (\<lambda>segment.
                       ensure (segment \<noteq> [] \<and> segment \<noteq> ascii ''.''
                               \<and> list_all (\<lambda>byte. printable_ascii byte
                                    \<and> byte \<noteq> SLASH \<and> byte \<noteq> BACKSLASH \<and> byte \<noteq> DOLLAR) segment)
                         (Path OriginSuffixNoncanonical)) (split_byte SLASH path)
                 | None \<Rightarrow> Inr ()) (\<lambda>_.
       Inr (OriginRelative component suffix)))))))"

definition validate_runpath :: "bytes \<Rightarrow> StartupClosureLimits \<Rightarrow> ElfError + Amd64ElfValidatedRunpath" where
  "validate_runpath raw limits =
     and_then (ensure (list_all printable_ascii raw \<and> SEMICOLON \<notin> set raw \<and> BACKSLASH \<notin> set raw)
                 (Path RunpathNotPrintable)) (\<lambda>_.
     and_then (ok_or (u64_try_from (length (split_byte COLON raw))) LengthConversion) (\<lambda>component_count.
     and_then (map_err ElfBudget (validate_runpath_component_count limits component_count)) (\<lambda>_.
     and_then (map_each (runpath_component limits) (split_byte COLON raw)) (\<lambda>components.
     Inr \<lparr>vr_raw = raw, vr_components = components\<rparr>))))"

definition validate_interpreter_path :: "bytes \<Rightarrow> ElfError + unit" where
  "validate_interpreter_path path =
     and_then (ensure (2 \<le> length path \<and> length path \<le> 240 \<and> starts_with path [SLASH])
                 (Path InterpreterNotAbsolute)) (\<lambda>_.
     check_each (\<lambda>component.
        ensure (component \<noteq> [] \<and> component \<noteq> ascii ''.'' \<and> component \<noteq> ascii ''..''
                \<and> list_all (\<lambda>byte. printable_ascii byte \<and> byte \<noteq> SLASH) component)
          (Path InterpreterNoncanonical))
       (split_byte SLASH (drop 1 path)))"

section \<open>The startup linkage\<close>

record Amd64ElfStartupDynamicInspection =
  sd_accepted_records :: "Amd64ElfDynamicRecord list"
  sd_accepted_tags :: "Amd64ElfAcceptedDynamicTag list"
  sd_needed_libraries :: "Amd64ElfNeededLibrary list"
  sd_soname :: "bytes option"
  sd_runpath :: "Amd64ElfValidatedRunpath option"

definition resolve_soname :: "ParsedStartupDynamicRecords \<Rightarrow> bytes option \<Rightarrow> ElfError + bytes option" where
  "resolve_soname parsed string_table =
     (case pd_soname_offset parsed of
        None \<Rightarrow> Inr None
      | Some (_, offset) \<Rightarrow>
          and_then (ok_or string_table ElfPanicked) (\<lambda>table.
          and_then (dynamic_string_at table offset DtSoname) (\<lambda>soname.
          and_then (validate_dynamic_basename soname DtSoname) (\<lambda>_. Inr (Some soname)))))"

definition resolve_runpath ::
  "ParsedStartupDynamicRecords \<Rightarrow> bytes option \<Rightarrow> ElfError + Amd64ElfValidatedRunpath option" where
  "resolve_runpath parsed string_table =
     (case pd_runpath_offset parsed of
        None \<Rightarrow> Inr None
      | Some (_, offset) \<Rightarrow>
          and_then (ok_or string_table ElfPanicked) (\<lambda>table.
          and_then (dynamic_string_at table offset DtRunpath) (\<lambda>runpath.
          and_then (validate_runpath runpath startup_dependency_closure_limits) (\<lambda>validated.
          Inr (Some validated)))))"

definition inspect_startup_dynamic_linkage ::
  "bytes \<Rightarrow> CommonElfAnalysis \<Rightarrow> RuntimeAmd64ElfLimits \<Rightarrow> ElfError + Amd64ElfStartupDynamicInspection" where
  "inspect_startup_dynamic_linkage bs analysis limits =
     and_then (ok_or (ca_dynamic analysis) (Dynamic DynamicSegmentMissing)) (\<lambda>segment.
     and_then (checked_file_range bs (p_offset segment) (p_filesz segment)
                 RuntimeDynamicArray) (\<lambda>dynamic_bytes.
     and_then (ensure (dynamic_bytes \<noteq> [] \<and> length dynamic_bytes mod ELF64_DYNAMIC_ENTRY_BYTES = 0)
                 (Dynamic ArrayIncomplete)) (\<lambda>_.
     and_then (parse_startup_dynamic_records dynamic_bytes limits) (\<lambda>parsed.
     and_then (resolve_startup_dynamic_string_table bs analysis parsed) (\<lambda>string_table.
     and_then (resolve_needed_libraries (pd_needed_offsets parsed) string_table) (\<lambda>needed_libraries.
     and_then (resolve_soname parsed string_table) (\<lambda>soname.
     and_then (resolve_runpath parsed string_table) (\<lambda>runpath.
     Inr \<lparr>sd_accepted_records = pd_accepted_records parsed,
          sd_accepted_tags = pd_accepted_tags parsed,
          sd_needed_libraries = needed_libraries,
          sd_soname = soname,
          sd_runpath = runpath\<rparr>))))))))"

end
