(* ===== verification/ElfDynamicFacts.thy ===== *)
theory ElfDynamicFacts
  imports ElfStructureFacts ElfDynamic
begin

text \<open>
  What the dynamic half of the AMD64 inspector accepts: the records up to the first \<open>DT_NULL\<close> as a list,
  a virtual range as the one loaded segment that spans it, the names and search paths by their grammar,
  and the whole linkage as a relation; and that none of it panics.
\<close>

section \<open>Entries of the dynamic array\<close>

definition dynamic_entry :: "bytes \<Rightarrow> nat \<Rightarrow> Amd64ElfDynamicRecord" where
  "dynamic_entry bs i = \<lparr>d_tag = le64_at bs (16 * i), d_un = le64_at bs (16 * i + 8)\<rparr>"

definition dynamic_entries :: "bytes \<Rightarrow> nat \<Rightarrow> Amd64ElfDynamicRecord list" where
  "dynamic_entries bs n = map (dynamic_entry bs) [0..<n]"

definition has_tag :: "i64 \<Rightarrow> Amd64ElfDynamicRecord \<Rightarrow> bool" where
  "has_tag tag r \<longleftrightarrow> d_tag r = tag"

text \<open>The records with a tag, each with its ordinal and value.\<close>

definition tagged :: "i64 \<Rightarrow> Amd64ElfDynamicRecord list \<Rightarrow> (u64 \<times> u64) list" where
  "tagged tag rs = [(of_nat i, d_un r). (i, r) \<leftarrow> enumerate 0 rs, has_tag tag r]"

definition first_of :: "'a list \<Rightarrow> 'a option" where
  "first_of xs = (case xs of [] \<Rightarrow> None | x # _ \<Rightarrow> Some x)"

definition parsed_of :: "Amd64ElfDynamicRecord list \<Rightarrow> ParsedStartupDynamicRecords" where
  "parsed_of rs =
     \<lparr>pd_accepted_records = rs,
      pd_accepted_tags = map (\<lambda>r. the (map_of startup_dynamic_tags (d_tag r))) rs,
      pd_needed_offsets = tagged DT_NEEDED rs,
      pd_soname_offset = first_of (tagged DT_SONAME rs),
      pd_runpath_offset = first_of (tagged DT_RUNPATH rs),
      pd_string_table_address = map_option snd (first_of (tagged DT_STRTAB rs)),
      pd_string_table_size = map_option snd (first_of (tagged DT_STRSZ rs)),
      pd_needed_library_count = of_nat (length (tagged DT_NEEDED rs))\<rparr>"

text \<open>The conditions on one record, and on the records together.\<close>

definition sound_record :: "Amd64ElfDynamicRecord \<Rightarrow> bool" where
  "sound_record r \<longleftrightarrow>
     d_tag r \<in> fst ` set startup_dynamic_tags
     \<and> (d_tag r = DT_FLAGS \<longrightarrow> d_un r AND NOT 0x19 = 0)
     \<and> (d_tag r = DT_FLAGS_1 \<longrightarrow> d_un r AND NOT 0x080010e9 = 0)"

definition sound_records :: "RuntimeAmd64ElfLimits \<Rightarrow> Amd64ElfDynamicRecord list \<Rightarrow> bool" where
  "sound_records limits rs \<longleftrightarrow>
     list_all sound_record rs
     \<and> (\<forall>tag \<in> {DT_STRTAB, DT_STRSZ, DT_SONAME, DT_RUNPATH}. length (tagged tag rs) \<le> 1)
     \<and> length (tagged DT_NEEDED rs) \<le> unat (rt_maximum_needed_libraries limits)"

lemma masks: "allowed_dt_flags_mask = 0x19" "allowed_dt_flags_1_mask = 0x080010e9"
  by (simp_all add: allowed_dt_flags_mask_def allowed_dt_flags_1_mask_def)

lemma classify_eq:
  "classify_startup_dynamic_tag tag = Inr accepted \<longleftrightarrow>
    tag \<in> fst ` set startup_dynamic_tags \<and> accepted = the (map_of startup_dynamic_tags tag)"
proof (cases "map_of startup_dynamic_tags tag")
  case None
  then have "tag \<notin> fst ` set startup_dynamic_tags" by (simp add: map_of_eq_None_iff)
  with None show ?thesis by (simp add: classify_startup_dynamic_tag_def)
next
  case (Some t)
  then have "tag \<in> fst ` set startup_dynamic_tags" by (metis map_of_eq_None_iff option.distinct(1))
  with Some show ?thesis by (auto simp: classify_startup_dynamic_tag_def)
qed

lemma flags_eq:
  "validate_startup_dynamic_flags tag value = Inr u \<longleftrightarrow>
    (tag = DT_FLAGS \<longrightarrow> value AND NOT 0x19 = 0) \<and> (tag = DT_FLAGS_1 \<longrightarrow> value AND NOT 0x080010e9 = 0)"
  by (auto simp: validate_startup_dynamic_flags_def masks)

lemma tagged_snoc:
  "tagged tag (rs @ [r]) = tagged tag rs @ (if has_tag tag r then [(of_nat (length rs), d_un r)] else [])"
  by (simp add: tagged_def enumerate_append_eq)

lemma tagged_Nil [simp]: "tagged tag [] = []"
  by (simp add: tagged_def)

lemma length_tagged: "length (tagged tag rs) \<le> length rs"
  by (induction rs rule: rev_induct) (auto simp: tagged_snoc)

lemma first_of_snoc: "first_of (xs @ [x]) = (if xs = [] then Some x else first_of xs)"
  by (cases xs) (auto simp: first_of_def)

lemma first_of_Nil [simp]: "first_of [] = None"
  by (simp add: first_of_def)

lemma first_of_None [simp]: "first_of xs = None \<longleftrightarrow> xs = []"
  by (cases xs) (auto simp: first_of_def)

lemma sound_records_snoc:
  "sound_records limits (rs @ [r]) \<longleftrightarrow>
    sound_records limits rs \<and> sound_record r
    \<and> (\<forall>tag \<in> {DT_STRTAB, DT_STRSZ, DT_SONAME, DT_RUNPATH}. has_tag tag r \<longrightarrow> tagged tag rs = [])
    \<and> (has_tag DT_NEEDED r \<longrightarrow>
         Suc (length (tagged DT_NEEDED rs)) \<le> unat (rt_maximum_needed_libraries limits))"
  by (auto simp: sound_records_def tagged_snoc)

lemma needed_count_step:
  assumes "Suc (length xs) < 2 ^ 64"
  shows "checked_add_word (of_nat (length xs)) 1 = Some (m :: u64) \<longleftrightarrow> m = of_nat (length xs) + 1"
    and "(of_nat (length xs) + 1 :: u64) \<le> limit \<longleftrightarrow> Suc (length xs) \<le> unat limit"
proof -
  have suc: "unat (of_nat (Suc (length xs)) :: u64) = Suc (length xs)"
    using assms by (simp add: unat_of_nat del: of_nat_Suc)
  have len: "unat (of_nat (length xs) :: u64) = length xs"
    using assms by (simp add: unat_of_nat)
  show "checked_add_word (of_nat (length xs)) 1 = Some (m :: u64) \<longleftrightarrow> m = of_nat (length xs) + 1"
    unfolding checked_add_u64 len using assms by simp
  show "(of_nat (length xs) + 1 :: u64) \<le> limit \<longleftrightarrow> Suc (length xs) \<le> unat limit"
    using suc by (simp add: word_le_nat_alt add.commute)
qed

lemma retain_eq:
  assumes "sound_records limits rs" "Suc (length rs) < 2 ^ 64"
    and "d_tag r \<in> fst ` set startup_dynamic_tags"
  shows "retain_startup_dynamic_record (parsed_of rs) (d_tag r) (d_un r) (of_nat (length rs))
      (the (map_of startup_dynamic_tags (d_tag r))) limits = Inr (found_null, parsed) \<longleftrightarrow>
    sound_records limits (rs @ [r]) \<and> (found_null \<longleftrightarrow> d_tag r = DT_NULL) \<and> parsed = parsed_of (rs @ [r])"
proof -
  have short: "Suc (length (tagged DT_NEEDED rs)) < 2 ^ 64"
    using assms(2) length_tagged [of DT_NEEDED rs] by simp
  obtain tag val where r: "r = \<lparr>d_tag = tag, d_un = val\<rparr>" by (cases r) auto
  note step = needed_count_step [OF short]
  consider "tag = DT_NULL" | "tag = DT_STRTAB" | "tag = DT_STRSZ" | "tag = DT_NEEDED"
    | "tag = DT_SONAME" | "tag = DT_RUNPATH"
    | (other) "tag \<notin> {DT_NULL, DT_STRTAB, DT_STRSZ, DT_NEEDED, DT_SONAME, DT_RUNPATH}" by auto
  then show ?thesis
    using assms(1,3) unfolding r
    by cases
      (auto simp: retain_startup_dynamic_record_def Let_def flags_eq sound_records_snoc sound_record_def
        parsed_of_def tagged_snoc first_of_snoc has_tag_def step validate_needed_library_count_def
        simp del: checked_add_word_eq_Some)
qed

lemma dynamic_entries_simps:
  "length (dynamic_entries bs n) = n"
  "i < n \<Longrightarrow> dynamic_entries bs n ! i = dynamic_entry bs i"
  "dynamic_entries bs (Suc n) = dynamic_entries bs n @ [dynamic_entry bs n]"
  by (simp_all add: dynamic_entries_def)

text \<open>One turn of the loop, at an index whose entry lies in the array.\<close>

lemma dynamic_turn:
  assumes "16 * Suc index \<le> length bs" "Suc index < 2 ^ 64" "sound_records limits (dynamic_entries bs index)"
  shows "dynamic_loop bs limits index (Suc n) (parsed_of (dynamic_entries bs index)) = Inr (True, parsed) \<longleftrightarrow>
    sound_records limits (dynamic_entries bs (Suc index))
    \<and> (if d_tag (dynamic_entry bs index) = DT_NULL then parsed = parsed_of (dynamic_entries bs (Suc index))
       else dynamic_loop bs limits (Suc index) n (parsed_of (dynamic_entries bs (Suc index))) = Inr (True, parsed))"
proof -
  let ?rs = "dynamic_entries bs index" and ?r = "dynamic_entry bs index"
  have tag: "u64_from_le (slice bs (index * 16) (index * 16 + 8)) = d_tag ?r"
    and val: "u64_from_le (slice bs (index * 16 + 8) (index * 16 + 16)) = d_un ?r"
    by (simp_all add: dynamic_entry_def le64_at_def mult.commute add.commute)
  have ranges: "get_range bs (index * 16) (index * 16 + 8) = Some (slice bs (index * 16) (index * 16 + 8))"
    "get_range bs (index * 16 + 8) (index * 16 + 16) = Some (slice bs (index * 16 + 8) (index * 16 + 16))"
    using assms(1) by (simp_all add: get_range_def)
  have ordinal: "u64_try_from index = Some (of_nat index)"
    using assms(2) by (simp add: u64_try_from_def)
  have listed: "sound_records limits (?rs @ [?r]) \<Longrightarrow> d_tag ?r \<in> fst ` set startup_dynamic_tags"
    by (simp add: sound_records_snoc sound_record_def)
  have retain: "retain_startup_dynamic_record (parsed_of ?rs) (d_tag ?r) (d_un ?r) (of_nat index)
        (the (map_of startup_dynamic_tags (d_tag ?r))) limits = Inr (found_null, p) \<longleftrightarrow>
      sound_records limits (?rs @ [?r]) \<and> (found_null \<longleftrightarrow> d_tag ?r = DT_NULL) \<and> p = parsed_of (?rs @ [?r])"
    if "d_tag ?r \<in> fst ` set startup_dynamic_tags" for found_null p
    using retain_eq [OF assms(3) _ that] assms(2) by (simp add: dynamic_entries_simps)
  note turn = dynamic_loop.simps Let_def elf_sizes ranges ordinal ok_or_simps and_then_simps tag val
    dynamic_entries_simps(3)
  show ?thesis
  proof (cases "d_tag ?r \<in> fst ` set startup_dynamic_tags")
    case True
    have classified: "classify_startup_dynamic_tag (d_tag ?r) = Inr (the (map_of startup_dynamic_tags (d_tag ?r)))"
      using True by (simp only: classify_eq simp_thms)
    show ?thesis
      unfolding turn classified
      by (simp only: and_then_eq_Inr split_paired_Ex prod.case retain [OF True]) auto
  next
    case False
    then show ?thesis
      unfolding turn using listed by (auto simp: classify_eq)
  qed
qed

lemma sound_entries_shrink:
  "sound_records limits (dynamic_entries bs (Suc k)) \<Longrightarrow> index \<le> k \<Longrightarrow>
    sound_records limits (dynamic_entries bs (Suc index))"
proof (induction k)
  case 0
  then show ?case by simp
next
  case (Suc k)
  then show ?case
    by (cases "index = Suc k") (auto simp: dynamic_entries_simps(3) [of _ "Suc k"] sound_records_snoc)
qed

lemma dynamic_loop_eq:
  assumes "16 * (index + n) \<le> length bs" "index + n < 2 ^ 64"
    and "sound_records limits (dynamic_entries bs index)"
  shows "dynamic_loop bs limits index n (parsed_of (dynamic_entries bs index)) = Inr (True, parsed) \<longleftrightarrow>
    (\<exists>k. index \<le> k \<and> k < index + n
       \<and> d_tag (dynamic_entry bs k) = DT_NULL
       \<and> (\<forall>i. index \<le> i \<and> i < k \<longrightarrow> d_tag (dynamic_entry bs i) \<noteq> DT_NULL)
       \<and> sound_records limits (dynamic_entries bs (Suc k))
       \<and> parsed = parsed_of (dynamic_entries bs (Suc k)))"
  using assms
proof (induction n arbitrary: index)
  case 0
  then show ?case by simp
next
  case (Suc n)
  show ?case (is "_ \<longleftrightarrow> (\<exists>k. ?at k)")
  proof (cases "d_tag (dynamic_entry bs index) = DT_NULL")
    case True
    then have "(\<exists>k. ?at k) \<longleftrightarrow> ?at index"
      using le_less_linear [of _ index] by (metis le_neq_implies_less order_refl)
    with True show ?thesis
      using Suc.prems by (auto simp: dynamic_turn simp del: dynamic_loop.simps)
  next
    case False
    have shift: "(\<exists>k. ?at k) \<longleftrightarrow> (\<exists>k. Suc index \<le> k \<and> k < Suc index + n
       \<and> d_tag (dynamic_entry bs k) = DT_NULL
       \<and> (\<forall>i. Suc index \<le> i \<and> i < k \<longrightarrow> d_tag (dynamic_entry bs i) \<noteq> DT_NULL)
       \<and> sound_records limits (dynamic_entries bs (Suc k))
       \<and> parsed = parsed_of (dynamic_entries bs (Suc k)))"
      using False by (metis Suc_leI add_Suc add_Suc_right le_eq_less_or_eq less_Suc_eq_le Suc_le_eq)
    show ?thesis
      unfolding shift using False Suc.prems Suc.IH [of "Suc index"]
        sound_entries_shrink [of limits bs _ index]
      by (auto simp: dynamic_turn simp del: dynamic_loop.simps dest: Suc_leD)
  qed
qed

definition first_null :: "bytes \<Rightarrow> nat \<Rightarrow> bool" where
  "first_null bs k \<longleftrightarrow>
     d_tag (dynamic_entry bs k) = DT_NULL \<and> (\<forall>i < k. d_tag (dynamic_entry bs i) \<noteq> DT_NULL)"

lemma parse_records_eq:
  "parse_startup_dynamic_records bs limits = Inr parsed \<longleftrightarrow>
    (\<exists>k. first_null bs k \<and> 16 * Suc k \<le> length bs \<and> Suc k \<le> unat (rt_maximum_dynamic_entries limits)
       \<and> sound_records limits (dynamic_entries bs (Suc k))
       \<and> parsed = parsed_of (dynamic_entries bs (Suc k)))"
proof -
  let ?max = "unat (rt_maximum_dynamic_entries limits)"
  let ?n = "min (length bs div 16) ?max"
  have start: "parsed_start = parsed_of (dynamic_entries bs 0)" "sound_records limits (dynamic_entries bs 0)"
    by (simp_all add: parsed_start_def parsed_of_def dynamic_entries_def sound_records_def)
  have bound: "16 * (0 + ?n) \<le> length bs" "0 + ?n < 2 ^ 64"
    using unat_u64_bound [of "rt_maximum_dynamic_entries limits"] by auto
  have inside: "k < ?n \<longleftrightarrow> 16 * Suc k \<le> length bs \<and> Suc k \<le> ?max" for k by auto
  have budget: "u64_try_from (Suc k) = Some (of_nat (Suc k))"
      "validate_dynamic_entry_count limits (of_nat (Suc k)) = Inr ()" if "Suc k \<le> ?max" for k
    using that unat_u64_bound [of "rt_maximum_dynamic_entries limits"]
    by (simp_all add: u64_try_from_def validate_dynamic_entry_count_def in_closed_range_def word_le_nat_alt
        unat_of_nat del: of_nat_Suc)
  have entries: "length (pd_accepted_records (parsed_of rs)) = length rs" for rs
    by (simp add: parsed_of_def)
  have "parse_startup_dynamic_records bs limits = Inr parsed \<longleftrightarrow>
      dynamic_loop bs limits 0 ?n (parsed_of (dynamic_entries bs 0)) = Inr (True, parsed)
      \<and> (\<exists>n. u64_try_from (length (pd_accepted_records parsed)) = Some n
           \<and> validate_dynamic_entry_count limits n = Inr ())"
    by (auto simp: parse_startup_dynamic_records_def Let_def elf_sizes start(1) split: prod.splits)
  also have "\<dots> \<longleftrightarrow> (\<exists>k. first_null bs k \<and> k < ?n \<and> sound_records limits (dynamic_entries bs (Suc k))
       \<and> parsed = parsed_of (dynamic_entries bs (Suc k)))"
    unfolding dynamic_loop_eq [OF bound start(2)]
    using budget by (fastforce simp: first_null_def entries dynamic_entries_simps)
  finally show ?thesis unfolding inside by blast
qed

section \<open>Virtual ranges\<close>

text \<open>A loaded segment spans a virtual range when the range lies in the part that comes from the file.\<close>

definition spans :: "u64 \<Rightarrow> u64 \<Rightarrow> ProgramHeader \<Rightarrow> bool" where
  "spans address byte_length g \<longleftrightarrow>
     unat (p_vaddr g) \<le> unat address
     \<and> unat address + unat byte_length \<le> unat (p_vaddr g) + unat (p_filesz g)"

definition file_position :: "u64 \<Rightarrow> ProgramHeader \<Rightarrow> nat" where
  "file_position address g = unat (p_offset g) + (unat address - unat (p_vaddr g))"

definition maps_cleanly :: "u64 \<Rightarrow> u64 \<Rightarrow> ProgramHeader \<Rightarrow> bool" where
  "maps_cleanly address byte_length g \<longleftrightarrow>
     unat (p_vaddr g) + unat (p_filesz g) < 2 ^ 64
     \<and> (spans address byte_length g \<longrightarrow> file_position address g < 2 ^ 64)"

lemma map_load_eq:
  assumes "unat address + unat byte_length < 2 ^ 64"
  shows "map_load address (address + byte_length) label g mapped = Inr mapped' \<longleftrightarrow>
    maps_cleanly address byte_length g
    \<and> (if spans address byte_length g
       then mapped = None \<and> mapped' = Some (of_nat (file_position address g)) else mapped' = mapped)"
proof (cases "unat (p_vaddr g) + unat (p_filesz g) < 2 ^ 64")
  case False
  then show ?thesis by (auto simp: map_load_def checked_add_u64 maps_cleanly_def simp del: checked_add_word_eq_Some)
next
  case True
  have cover: "p_vaddr g \<le> address \<and> address + byte_length \<le> p_vaddr g + p_filesz g \<longleftrightarrow>
      spans address byte_length g"
    using True assms by (simp add: spans_def word_le_nat_alt unat_add_u64)
  show ?thesis
  proof (cases "spans address byte_length g")
    case False
    with True show ?thesis
      unfolding map_load_def
      by (auto simp: checked_add_u64 cover maps_cleanly_def simp del: checked_add_word_eq_Some)
  next
    case covered: True
    then have sub: "unat (address - p_vaddr g) = unat address - unat (p_vaddr g)"
      by (simp add: spans_def unat_sub word_le_nat_alt)
    have position: "unat (p_offset g) + unat (address - p_vaddr g) = file_position address g"
      by (simp add: sub file_position_def)
    then have value_eq: "p_offset g + (address - p_vaddr g) = of_nat (file_position address g)"
      if "file_position address g < 2 ^ 64"
      using that by (simp add: word_unat_eq_iff unat_add_u64 unat_of_nat)
    show ?thesis
      unfolding map_load_def
      using True covered position value_eq
      by (auto simp: checked_add_u64 cover Let_def maps_cleanly_def simp del: checked_add_word_eq_Some)
  qed
qed

lemma map_loads_eq:
  assumes "unat address + unat byte_length < 2 ^ 64"
  shows "run_each (map_load address (address + byte_length) label) gs None = Inr mapped \<longleftrightarrow>
    list_all (maps_cleanly address byte_length) gs \<and> at_most_one (spans address byte_length) gs
    \<and> mapped = map_option (\<lambda>g. of_nat (file_position address g)) (find (spans address byte_length) gs)"
proof (induction gs arbitrary: mapped rule: rev_induct)
  case Nil
  then show ?case by (auto simp: at_most_one_def)
next
  case (snoc g gs)
  have none: "find (spans address byte_length) gs = None \<longleftrightarrow>
      length (filter (spans address byte_length) gs) = 0"
    by (rule find_None_filter)
  show ?case
    using none
    by (cases "find (spans address byte_length) gs")
      (auto simp: run_each_append snoc.IH map_load_eq [OF assms] at_most_one_snoc find_snoc)
qed

lemma find_filter_Some:
  "at_most_one P xs \<Longrightarrow> find P xs = Some x \<longleftrightarrow> filter P xs = [x]"
  by (induction xs) (auto simp: at_most_one_def)

text \<open>The string table: one loaded segment spans the range, and the bytes are read at its file position.\<close>

lemma virtual_range_eq:
  "map_virtual_file_range bs gs address byte_length label = Inr table \<longleftrightarrow>
    length bs < 2 ^ 64 \<and> unat address + unat byte_length < 2 ^ 64
    \<and> list_all (maps_cleanly address byte_length) (filter is_load gs)
    \<and> (\<exists>g. filter (spans address byte_length) (filter is_load gs) = [g]
         \<and> file_position address g + unat byte_length \<le> length bs
         \<and> table = slice bs (file_position address g) (file_position address g + unat byte_length))"
proof (cases "unat address + unat byte_length < 2 ^ 64")
  case False
  then show ?thesis
    by (auto simp: map_virtual_file_range_def checked_add_u64 simp del: checked_add_word_eq_Some)
next
  case True
  let ?loads = "filter is_load gs"
  have loads: "filter (\<lambda>segment. p_type segment = PT_LOAD) gs = ?loads"
    by (rule filter_cong) (simp_all add: is_load_def)
  have position: "unat (of_nat (file_position address g) :: u64) = file_position address g"
    if "list_all (maps_cleanly address byte_length) ?loads"
      "filter (spans address byte_length) ?loads = [g]" for g
  proof -
    from that(2) have "g \<in> set (filter (spans address byte_length) ?loads)" by simp
    then have "g \<in> set ?loads" "spans address byte_length g" by simp_all
    then have "file_position address g < 2 ^ 64" using that(1) by (auto simp: list_all_iff maps_cleanly_def)
    then show ?thesis by (simp add: unat_of_nat)
  qed
  have one: "filter (spans address byte_length) ?loads = [g] \<Longrightarrow> at_most_one (spans address byte_length) ?loads"
    for g by (simp add: at_most_one_def)
  have "map_virtual_file_range bs gs address byte_length label = Inr table \<longleftrightarrow>
      (\<exists>g. list_all (maps_cleanly address byte_length) ?loads
         \<and> filter (spans address byte_length) ?loads = [g]
         \<and> checked_file_range bs (of_nat (file_position address g)) byte_length label = Inr table)"
    using True one
    by (auto simp: map_virtual_file_range_def checked_add_u64 loads map_loads_eq [OF True] find_filter_Some
        simp del: checked_add_word_eq_Some filter_filter)
  also have "\<dots> \<longleftrightarrow> length bs < 2 ^ 64 \<and> list_all (maps_cleanly address byte_length) ?loads
      \<and> (\<exists>g. filter (spans address byte_length) ?loads = [g]
         \<and> file_position address g + unat byte_length \<le> length bs
         \<and> table = slice bs (file_position address g) (file_position address g + unat byte_length))"
    using position by (auto simp: checked_file_range_eq simp del: filter_filter)
  finally show ?thesis using True by blast
qed

section \<open>Strings\<close>

text \<open>The NUL-terminated UTF-8 string at an offset of the table.\<close>

definition string_at :: "bytes \<Rightarrow> nat \<Rightarrow> bytes \<Rightarrow> bool" where
  "string_at table offset str \<longleftrightarrow>
     offset + length str < length table \<and> slice table offset (offset + length str) = str
     \<and> table ! (offset + length str) = 0 \<and> 0 \<notin> set str \<and> is_utf8 str"

lemma take_while_exact:
  "takeWhile P xs = ys \<and> length ys < length xs \<longleftrightarrow>
    length ys < length xs \<and> take (length ys) xs = ys \<and> \<not> P (xs ! length ys) \<and> list_all P ys"
proof
  assume "takeWhile P xs = ys \<and> length ys < length xs"
  then show "length ys < length xs \<and> take (length ys) xs = ys \<and> \<not> P (xs ! length ys) \<and> list_all P ys"
    using nth_length_takeWhile [of P xs] takeWhile_eq_take [of P xs]
    by (auto simp: list_all_iff dest: set_takeWhileD)
next
  assume r: "length ys < length xs \<and> take (length ys) xs = ys \<and> \<not> P (xs ! length ys) \<and> list_all P ys"
  then have "xs = ys @ xs ! length ys # drop (Suc (length ys)) xs" by (metis id_take_nth_drop)
  then have "takeWhile P xs = ys" using r
    by (metis (no_types, lifting) list_all_iff takeWhile.simps(2) takeWhile_append2 append_Nil2)
  with r show "takeWhile P xs = ys \<and> length ys < length xs" by simp
qed

lemma dynamic_string_eq:
  "dynamic_string_at table offset label = Inr str \<longleftrightarrow> string_at table (unat offset) str"
proof -
  have "dynamic_string_at table offset label = Inr str \<longleftrightarrow>
      unat offset \<le> length table
      \<and> takeWhile (\<lambda>byte. byte \<noteq> 0) (drop (unat offset) table) = str
      \<and> length str < length (drop (unat offset) table) \<and> is_utf8 str"
    by (auto simp: dynamic_string_at_def Let_def slice_def simp del: is_utf8.simps)
  also have "\<dots> \<longleftrightarrow> unat offset \<le> length table
      \<and> (length str < length (drop (unat offset) table) \<and> take (length str) (drop (unat offset) table) = str
         \<and> \<not> drop (unat offset) table ! length str \<noteq> 0 \<and> list_all (\<lambda>byte. byte \<noteq> 0) str) \<and> is_utf8 str"
    using take_while_exact [of "\<lambda>byte. byte \<noteq> 0" "drop (unat offset) table" str] by blast
  also have "\<dots> \<longleftrightarrow> string_at table (unat offset) str"
    by (auto simp: string_at_def slice_def list_all_iff simp del: is_utf8.simps)
  finally show ?thesis .
qed

section \<open>Names\<close>

definition sound_basename :: "bytes \<Rightarrow> bool" where
  "sound_basename name \<longleftrightarrow>
     1 \<le> length name \<and> length name \<le> 240
     \<and> list_all (\<lambda>byte. printable_ascii byte \<and> byte \<noteq> SLASH \<and> byte \<noteq> BACKSLASH) name"

lemma in_budget_range:
  "(\<exists>n. u64_try_from len = Some n \<and> in_closed_range low high n name = Inr u) \<longleftrightarrow>
    unat low \<le> len \<and> len \<le> unat high"
  using unat_u64_bound [of high]
  by (auto simp: u64_try_from_iff in_closed_range_def word_le_nat_alt unat_of_nat)

lemma basename_eq: "validate_dynamic_basename name label = Inr u \<longleftrightarrow> sound_basename name"
  using in_budget_range [of "length name" 1 240 "''dynamic basename byte length''" "()"]
  by (auto simp: validate_dynamic_basename_def validate_dynamic_basename_bytes_def sound_basename_def
      startup_dependency_closure_limits_def)

lemma distinct_adj_sorted: "sorted xs \<Longrightarrow> distinct_adj xs \<longleftrightarrow> distinct xs"
  by (induction xs rule: induct_list012) (auto simp: less_le)

lemma needed_library_eq:
  "needed_library (Some table) needed = Inr library \<longleftrightarrow>
    (\<exists>name. string_at table (unat (snd needed)) name \<and> sound_basename name
       \<and> library = \<lparr>nl_dynamic_ordinal = fst needed, nl_requested_name = name\<rparr>)"
  by (auto simp: needed_library_def dynamic_string_eq basename_eq)

lemma needed_libraries_eq:
  "resolve_needed_libraries offsets (Some table) = Inr libraries \<longleftrightarrow>
    list_all2 (\<lambda>needed library. string_at table (unat (snd needed)) (nl_requested_name library)
       \<and> sound_basename (nl_requested_name library) \<and> nl_dynamic_ordinal library = fst needed)
      offsets libraries
    \<and> distinct (map nl_requested_name libraries)"
proof -
  have library: "needed_library (Some table) needed = Inr library \<longleftrightarrow>
      string_at table (unat (snd needed)) (nl_requested_name library)
      \<and> sound_basename (nl_requested_name library) \<and> nl_dynamic_ordinal library = fst needed"
    for needed library
    by (cases library) (auto simp: needed_library_eq)
  show ?thesis
    by (auto simp: resolve_needed_libraries_def Let_def map_each_eq library distinct_adj_sorted)
qed

lemma needed_libraries_none:
  "resolve_needed_libraries offsets None = Inr libraries \<longleftrightarrow> offsets = [] \<and> libraries = []"
  by (cases offsets) (auto simp: resolve_needed_libraries_def needed_library_def Let_def)

section \<open>Search paths\<close>

lemma startup_limit_values:
  "sc_dynamic_basename_bytes startup_dependency_closure_limits = 240"
  "sc_runpath_components startup_dependency_closure_limits = 16"
  "sc_runpath_component_bytes startup_dependency_closure_limits = 240"
  by (simp_all add: startup_dependency_closure_limits_def)

lemma split_pieces_subset: "d \<in> set (split_byte c xs) \<Longrightarrow> set d \<subseteq> set xs"
proof (induction xs arbitrary: d)
  case Nil
  then show ?case by simp
next
  case (Cons x xs)
  have first: "set (hd (split_byte c xs)) \<subseteq> set xs" by (rule Cons.IH) simp
  have rest: "set e \<subseteq> set xs" if "e \<in> set (tl (split_byte c xs))" for e
    using that by (intro Cons.IH) (simp add: list.set_sel(2))
  show ?case using Cons.prems Cons.IH rest first [THEN subsetD] by (auto split: if_splits)
qed

definition plain_segment :: "bytes \<Rightarrow> bool" where
  "plain_segment segment \<longleftrightarrow>
     segment \<noteq> [] \<and> segment \<noteq> ascii ''.'' \<and> list_all printable_ascii segment \<and> SLASH \<notin> set segment"

text \<open>A component of the search path: an absolute path, or one relative to the origin.\<close>

definition absolute_component :: "bytes \<Rightarrow> bool" where
  "absolute_component component \<longleftrightarrow>
     (\<exists>path. component = SLASH # path \<and> DOLLAR \<notin> set path
       \<and> list_all (\<lambda>s. plain_segment s \<and> s \<noteq> ascii ''..'') (split_byte SLASH path))"

definition origin_tail :: "bytes \<Rightarrow> bool" where
  "origin_tail suffix \<longleftrightarrow>
     suffix = []
     \<or> (\<exists>path. suffix = SLASH # path \<and> DOLLAR \<notin> set path
          \<and> list_all (\<lambda>s. plain_segment s \<and> BACKSLASH \<notin> set s) (split_byte SLASH path))"

definition component_of :: "bytes \<Rightarrow> Amd64ElfRunpathComponent \<Rightarrow> bool" where
  "component_of component c \<longleftrightarrow>
     1 \<le> length component \<and> length component \<le> 240
     \<and> (absolute_component component \<and> c = Absolute component
        \<or> (\<exists>token \<in> {ORIGIN_TOKEN, ORIGIN_BRACED}. \<exists>suffix. component = token @ suffix \<and> origin_tail suffix
             \<and> c = OriginRelative component suffix))"

lemma origin_tokens:
  "ORIGIN_TOKEN = [0x24, 0x4f, 0x52, 0x49, 0x47, 0x49, 0x4e]"
  "ORIGIN_BRACED = [0x24, 0x7b, 0x4f, 0x52, 0x49, 0x47, 0x49, 0x4e, 0x7d]"
  by (simp_all add: ORIGIN_TOKEN_def ORIGIN_BRACED_def ascii_def)

lemma origin_choice:
  "(case strip_prefix ORIGIN_TOKEN component of Some suffix \<Rightarrow> Some suffix
    | None \<Rightarrow> strip_prefix ORIGIN_BRACED component) = Some suffix \<longleftrightarrow>
    (\<exists>token \<in> {ORIGIN_TOKEN, ORIGIN_BRACED}. component = token @ suffix)"
proof -
  have apart: "ORIGIN_TOKEN @ a \<noteq> ORIGIN_BRACED @ b" for a b by (simp add: origin_tokens)
  show ?thesis
  proof (cases "strip_prefix ORIGIN_TOKEN component")
    case None
    then have "component \<noteq> ORIGIN_TOKEN @ suffix" by (metis option.distinct(1) strip_prefix_eq_Some)
    with None show ?thesis by simp
  next
    case (Some a)
    then have "component = ORIGIN_TOKEN @ a" by simp
    then show ?thesis unfolding Some option.case using apart by auto
  qed
qed

lemma absolute_eq:
  "validate_absolute_runpath_component (SLASH # path) = Inr u \<longleftrightarrow> absolute_component (SLASH # path)"
  by (auto simp: validate_absolute_runpath_component_def absolute_component_def plain_segment_def check_each_eq
      list_all_iff SLASH_def)


lemma origin_tail_eq:
  "ensure (suffix = [] \<or> starts_with suffix [SLASH]) ea = Inr ()
    \<and> ensure (DOLLAR \<notin> set suffix) eb = Inr ()
    \<and> (case strip_prefix [SLASH] suffix of
         Some path \<Rightarrow>
           check_each (\<lambda>segment.
             ensure (segment \<noteq> [] \<and> segment \<noteq> ascii ''.''
                     \<and> list_all (\<lambda>byte. printable_ascii byte
                          \<and> byte \<noteq> SLASH \<and> byte \<noteq> BACKSLASH \<and> byte \<noteq> DOLLAR) segment) ec) (split_byte SLASH path)
       | None \<Rightarrow> Inr ()) = Inr ()
    \<longleftrightarrow> origin_tail suffix"
proof (cases suffix)
  case Nil
  then show ?thesis by (simp add: origin_tail_def strip_prefix_def starts_with_def)
next
  case (Cons c path)
  show ?thesis
  proof (cases "c = SLASH")
    case False
    then show ?thesis by (simp add: Cons origin_tail_def)
  next
    case True
    have clean: "DOLLAR \<notin> set segment" if "DOLLAR \<notin> set path" "segment \<in> set (split_byte SLASH path)" for segment
      using that split_pieces_subset by blast
    have strip: "strip_prefix [SLASH] (SLASH # path) = Some path" by simp
    show ?thesis
      unfolding Cons True strip
      using clean
      by (auto simp: origin_tail_def check_each_eq plain_segment_def list_all_iff SLASH_def)
  qed
qed

lemma unit_chain:
  "and_then a (\<lambda>_. and_then b (\<lambda>_. and_then d (\<lambda>_. Inr r))) = Inr c \<longleftrightarrow>
    (a = Inr () \<and> b = Inr () \<and> d = Inr ()) \<and> c = r"
  by (cases a; cases b; cases d) auto

lemma budget_chain:
  "and_then (ok_or (u64_try_from len) e) (\<lambda>n. and_then (map_err f (in_closed_range low high n name)) (\<lambda>_. r))
      = Inr c \<longleftrightarrow> unat low \<le> len \<and> len \<le> unat high \<and> r = Inr c"
  using in_budget_range [of len low high name "()"] by auto

lemma origin_chain:
  "and_then (ensure (suffix = [] \<or> starts_with suffix [SLASH]) ea) (\<lambda>_.
   and_then (ensure (DOLLAR \<notin> set suffix) eb) (\<lambda>_.
   and_then (case strip_prefix [SLASH] suffix of
         Some path \<Rightarrow>
           check_each (\<lambda>segment.
             ensure (segment \<noteq> [] \<and> segment \<noteq> ascii ''.''
                     \<and> list_all (\<lambda>byte. printable_ascii byte
                          \<and> byte \<noteq> SLASH \<and> byte \<noteq> BACKSLASH \<and> byte \<noteq> DOLLAR) segment) ec) (split_byte SLASH path)
       | None \<Rightarrow> Inr ()) (\<lambda>_. Inr r))) = Inr c
    \<longleftrightarrow> origin_tail suffix \<and> c = r"
  unfolding unit_chain origin_tail_eq ..

lemma runpath_component_eq:
  "runpath_component startup_dependency_closure_limits component = Inr c \<longleftrightarrow> component_of component c"
proof -
  let ?budget = "1 \<le> length component \<and> length component \<le> 240"
  note unfolds = runpath_component_def validate_runpath_component_bytes_def startup_limit_values budget_chain
  show ?thesis
  proof (cases "starts_with component [SLASH]")
    case True
    then obtain path where path: "component = SLASH # path" by auto
    have "runpath_component startup_dependency_closure_limits component = Inr c \<longleftrightarrow>
        ?budget \<and> absolute_component component \<and> c = Absolute component"
      using True unfolding unfolds path by (auto simp: absolute_eq)
    moreover have "component \<noteq> token @ suffix" if "token \<in> {ORIGIN_TOKEN, ORIGIN_BRACED}" for token suffix
      using that path by (auto simp: origin_tokens SLASH_def)
    ultimately show ?thesis by (auto simp: component_of_def)
  next
    case False
    then have "\<not> absolute_component component" by (auto simp: absolute_component_def)
    moreover have "runpath_component startup_dependency_closure_limits component = Inr c \<longleftrightarrow>
        ?budget \<and> (\<exists>token \<in> {ORIGIN_TOKEN, ORIGIN_BRACED}. \<exists>suffix. component = token @ suffix
          \<and> origin_tail suffix \<and> c = OriginRelative component suffix)"
      unfolding unfolds if_not_P [OF False]
      unfolding and_then_eq_Inr [of "ok_or x e" for x e] ok_or_eq_Inr origin_choice origin_chain
      by auto
    ultimately show ?thesis by (auto simp: component_of_def)
  qed
qed

text \<open>A search path: at most sixteen components of printable bytes, each well formed.\<close>

definition sound_runpath :: "bytes \<Rightarrow> Amd64ElfValidatedRunpath \<Rightarrow> bool" where
  "sound_runpath raw v \<longleftrightarrow>
     list_all printable_ascii raw \<and> SEMICOLON \<notin> set raw \<and> BACKSLASH \<notin> set raw
     \<and> length (split_byte COLON raw) \<le> 16
     \<and> vr_raw v = raw \<and> list_all2 component_of (split_byte COLON raw) (vr_components v)"

lemma runpath_eq:
  "validate_runpath raw startup_dependency_closure_limits = Inr v \<longleftrightarrow> sound_runpath raw v"
proof -
  have positive: "1 \<le> length (split_byte COLON raw)"
    using split_byte_not_Nil [of COLON raw] by (cases "split_byte COLON raw") simp_all
  show ?thesis
    using in_budget_range [of "length (split_byte COLON raw)" 1 16 "''RUNPATH component count''" "()"] positive
    by (cases v)
      (auto simp: validate_runpath_def validate_runpath_component_count_def sound_runpath_def map_each_eq
        runpath_component_eq startup_limit_values)
qed

section \<open>The startup linkage\<close>

text \<open>One loaded segment alone covers the virtual range, and its bytes at the file position are the table.\<close>

definition maps_to :: "bytes \<Rightarrow> ProgramHeader list \<Rightarrow> u64 \<Rightarrow> u64 \<Rightarrow> bytes \<Rightarrow> bool" where
  "maps_to bs gs address byte_length table \<longleftrightarrow>
     unat address + unat byte_length < 2 ^ 64
     \<and> list_all (maps_cleanly address byte_length) (filter is_load gs)
     \<and> (\<exists>g. filter (spans address byte_length) (filter is_load gs) = [g]
          \<and> file_position address g + unat byte_length \<le> length bs
          \<and> table = slice bs (file_position address g) (file_position address g + unat byte_length))"

lemma virtual_range_maps:
  "map_virtual_file_range bs gs address byte_length label = Inr table \<longleftrightarrow>
    length bs < 2 ^ 64 \<and> maps_to bs gs address byte_length table"
  unfolding virtual_range_eq maps_to_def by blast

definition names_strings :: "Amd64ElfDynamicRecord list \<Rightarrow> bool" where
  "names_strings rs \<longleftrightarrow> (\<exists>tag \<in> {DT_NEEDED, DT_SONAME, DT_RUNPATH}. tagged tag rs \<noteq> [])"

text \<open>The strings that the records name, read from the table.\<close>

definition linked_strings ::
  "Amd64ElfDynamicRecord list \<Rightarrow> bytes \<Rightarrow> Amd64ElfStartupDynamicInspection \<Rightarrow> bool" where
  "linked_strings rs table sd \<longleftrightarrow>
     list_all2 (\<lambda>needed library. string_at table (unat (snd needed)) (nl_requested_name library)
         \<and> sound_basename (nl_requested_name library) \<and> nl_dynamic_ordinal library = fst needed)
       (tagged DT_NEEDED rs) (sd_needed_libraries sd)
     \<and> distinct (map nl_requested_name (sd_needed_libraries sd))
     \<and> (case first_of (tagged DT_SONAME rs) of
          None \<Rightarrow> sd_soname sd = None
        | Some (_, offset) \<Rightarrow>
            \<exists>soname. string_at table (unat offset) soname \<and> sound_basename soname \<and> sd_soname sd = Some soname)
     \<and> (case first_of (tagged DT_RUNPATH rs) of
          None \<Rightarrow> sd_runpath sd = None
        | Some (_, offset) \<Rightarrow>
            \<exists>raw v. string_at table (unat offset) raw \<and> sound_runpath raw v \<and> sd_runpath sd = Some v)"

definition sound_linkage ::
  "bytes \<Rightarrow> ProgramHeader list \<Rightarrow> Amd64ElfDynamicRecord list \<Rightarrow> Amd64ElfStartupDynamicInspection \<Rightarrow> bool" where
  "sound_linkage bs gs rs sd \<longleftrightarrow>
     sd_accepted_records sd = rs
     \<and> sd_accepted_tags sd = map (\<lambda>r. the (map_of startup_dynamic_tags (d_tag r))) rs
     \<and> (if names_strings rs
        then \<exists>i address j table_size table.
               tagged DT_STRTAB rs = [(i, address)] \<and> tagged DT_STRSZ rs = [(j, table_size)]
               \<and> maps_to bs gs address table_size table \<and> 0 \<in> set table \<and> linked_strings rs table sd
        else sd_needed_libraries sd = [] \<and> sd_soname sd = None \<and> sd_runpath sd = None)"

definition dynamic_array ::
  "bytes \<Rightarrow> ProgramHeader \<Rightarrow> RuntimeAmd64ElfLimits \<Rightarrow> Amd64ElfDynamicRecord list \<Rightarrow> bool" where
  "dynamic_array bs segment limits rs \<longleftrightarrow>
     (let first = unat (p_offset segment); last = first + unat (p_filesz segment); array = slice bs first last in
      last \<le> length bs \<and> 0 < unat (p_filesz segment) \<and> 16 dvd unat (p_filesz segment)
      \<and> (\<exists>k. first_null array k \<and> 16 * Suc k \<le> unat (p_filesz segment)
           \<and> Suc k \<le> unat (rt_maximum_dynamic_entries limits)
           \<and> rs = dynamic_entries array (Suc k))
      \<and> sound_records limits rs)"

lemma dynamic_array_sound: "dynamic_array bs segment limits rs \<Longrightarrow> sound_records limits rs"
  by (simp add: dynamic_array_def Let_def)

lemma dynamic_array_eq:
  assumes "length bs < 2 ^ 64"
  shows "(\<exists>array. checked_file_range bs (p_offset segment) (p_filesz segment) label = Inr array
      \<and> array \<noteq> [] \<and> length array mod 16 = 0 \<and> parse_startup_dynamic_records array limits = Inr parsed) \<longleftrightarrow>
    (\<exists>rs. dynamic_array bs segment limits rs \<and> parsed = parsed_of rs)"
  using assms
  by (auto simp: checked_file_range_eq parse_records_eq dynamic_array_def Let_def dvd_eq_mod_eq_0
      simp flip: length_greater_0_conv)

lemma first_of_single: "length xs \<le> 1 \<Longrightarrow> first_of xs = Some x \<longleftrightarrow> xs = [x]"
  by (cases xs) (auto simp: first_of_def)

lemma string_table_eq:
  assumes "length bs < 2 ^ 64" "sound_records limits rs"
  shows "resolve_startup_dynamic_string_table bs analysis (parsed_of rs) = Inr string_table \<longleftrightarrow>
    (if names_strings rs
     then \<exists>i address j table_size table.
            tagged DT_STRTAB rs = [(i, address)] \<and> tagged DT_STRSZ rs = [(j, table_size)]
            \<and> maps_to bs (ca_program_headers analysis) address table_size table \<and> 0 \<in> set table
            \<and> string_table = Some table
     else string_table = None)"
proof -
  have has: "pd_needed_offsets (parsed_of rs) \<noteq> [] \<or> pd_soname_offset (parsed_of rs) \<noteq> None
      \<or> pd_runpath_offset (parsed_of rs) \<noteq> None \<longleftrightarrow> names_strings rs"
    by (auto simp: parsed_of_def names_strings_def)
  have address: "pd_string_table_address (parsed_of rs) = Some address \<longleftrightarrow>
      (\<exists>i. tagged DT_STRTAB rs = [(i, address)])"
    and table_size: "pd_string_table_size (parsed_of rs) = Some table_size \<longleftrightarrow>
      (\<exists>j. tagged DT_STRSZ rs = [(j, table_size)])" for address table_size
    using assms(2) by (auto simp: parsed_of_def sound_records_def first_of_single)
  show ?thesis
    unfolding resolve_startup_dynamic_string_table_def Let_def has
    by (cases "names_strings rs")
      (use assms(1) in \<open>auto simp: address table_size virtual_range_maps list_ex_iff\<close>)
qed

lemma soname_eq:
  "resolve_soname parsed string_table = Inr soname \<longleftrightarrow>
    (case pd_soname_offset parsed of
       None \<Rightarrow> soname = None
     | Some (_, offset) \<Rightarrow> \<exists>table name. string_table = Some table \<and> string_at table (unat offset) name
         \<and> sound_basename name \<and> soname = Some name)"
  by (auto simp: resolve_soname_def dynamic_string_eq basename_eq split: option.splits)

lemma resolved_runpath_eq:
  "resolve_runpath parsed string_table = Inr runpath \<longleftrightarrow>
    (case pd_runpath_offset parsed of
       None \<Rightarrow> runpath = None
     | Some (_, offset) \<Rightarrow> \<exists>table raw v. string_table = Some table \<and> string_at table (unat offset) raw
         \<and> sound_runpath raw v \<and> runpath = Some v)"
  by (auto simp: resolve_runpath_def dynamic_string_eq runpath_eq split: option.splits)

lemma linkage_eq:
  assumes "length bs < 2 ^ 64"
  shows "inspect_startup_dynamic_linkage bs analysis limits = Inr sd \<longleftrightarrow>
    (\<exists>segment rs. ca_dynamic analysis = Some segment \<and> dynamic_array bs segment limits rs
       \<and> sound_linkage bs (ca_program_headers analysis) rs sd)"
proof -
  let ?strings = "\<lambda>rs string_table. resolve_startup_dynamic_string_table bs analysis (parsed_of rs) = Inr string_table
      \<and> resolve_needed_libraries (tagged DT_NEEDED rs) string_table = Inr (sd_needed_libraries sd)
      \<and> resolve_soname (parsed_of rs) string_table = Inr (sd_soname sd)
      \<and> resolve_runpath (parsed_of rs) string_table = Inr (sd_runpath sd)"
  have parsed: "pd_accepted_records (parsed_of rs) = rs" "pd_needed_offsets (parsed_of rs) = tagged DT_NEEDED rs"
    "pd_soname_offset (parsed_of rs) = first_of (tagged DT_SONAME rs)"
    "pd_runpath_offset (parsed_of rs) = first_of (tagged DT_RUNPATH rs)"
    "pd_accepted_tags (parsed_of rs) = map (\<lambda>r. the (map_of startup_dynamic_tags (d_tag r))) rs" for rs
    by (simp_all add: parsed_of_def)
  have strings: "(\<exists>string_table. ?strings rs string_table) \<longleftrightarrow>
      (if names_strings rs
        then \<exists>i address j table_size table.
               tagged DT_STRTAB rs = [(i, address)] \<and> tagged DT_STRSZ rs = [(j, table_size)]
               \<and> maps_to bs (ca_program_headers analysis) address table_size table \<and> 0 \<in> set table
               \<and> linked_strings rs table sd
        else sd_needed_libraries sd = [] \<and> sd_soname sd = None \<and> sd_runpath sd = None)"
    if "sound_records limits rs" for rs
  proof (cases "names_strings rs")
    case True
    have linked: "resolve_needed_libraries (tagged DT_NEEDED rs) (Some table) = Inr (sd_needed_libraries sd)
        \<and> resolve_soname (parsed_of rs) (Some table) = Inr (sd_soname sd)
        \<and> resolve_runpath (parsed_of rs) (Some table) = Inr (sd_runpath sd) \<longleftrightarrow> linked_strings rs table sd" for table
      by (auto simp: soname_eq resolved_runpath_eq parsed linked_strings_def needed_libraries_eq
          split: option.splits)
    show ?thesis
      unfolding string_table_eq [OF assms that] if_P [OF True] linked [symmetric] by blast
  next
    case False
    then have "tagged DT_NEEDED rs = []" "tagged DT_SONAME rs = []" "tagged DT_RUNPATH rs = []"
      by (auto simp: names_strings_def)
    with False show ?thesis
      by (auto simp: string_table_eq [OF assms that] soname_eq resolved_runpath_eq parsed needed_libraries_none)
  qed
  have through: "(\<exists>parsed. (\<exists>rs. A rs \<and> parsed = parsed_of rs) \<and> Q parsed) \<longleftrightarrow> (\<exists>rs. A rs \<and> Q (parsed_of rs))"
    for A Q by blast
  have "inspect_startup_dynamic_linkage bs analysis limits = Inr sd \<longleftrightarrow>
      (\<exists>segment. ca_dynamic analysis = Some segment
        \<and> (\<exists>parsed. (\<exists>array. checked_file_range bs (p_offset segment) (p_filesz segment) RuntimeDynamicArray = Inr array
               \<and> array \<noteq> [] \<and> length array mod 16 = 0 \<and> parse_startup_dynamic_records array limits = Inr parsed)
          \<and> sd_accepted_records sd = pd_accepted_records parsed \<and> sd_accepted_tags sd = pd_accepted_tags parsed
          \<and> (\<exists>string_table. resolve_startup_dynamic_string_table bs analysis parsed = Inr string_table
              \<and> resolve_needed_libraries (pd_needed_offsets parsed) string_table = Inr (sd_needed_libraries sd)
              \<and> resolve_soname parsed string_table = Inr (sd_soname sd)
              \<and> resolve_runpath parsed string_table = Inr (sd_runpath sd))))"
    by (cases sd) (auto simp: inspect_startup_dynamic_linkage_def elf_sizes)
  also have "\<dots> \<longleftrightarrow> (\<exists>segment. ca_dynamic analysis = Some segment
        \<and> (\<exists>rs. dynamic_array bs segment limits rs \<and> sd_accepted_records sd = rs
          \<and> sd_accepted_tags sd = map (\<lambda>r. the (map_of startup_dynamic_tags (d_tag r))) rs
          \<and> (\<exists>string_table. ?strings rs string_table)))"
    unfolding dynamic_array_eq [OF assms] through parsed ..
  also have "\<dots> \<longleftrightarrow> (\<exists>segment rs. ca_dynamic analysis = Some segment \<and> dynamic_array bs segment limits rs
       \<and> sound_linkage bs (ca_program_headers analysis) rs sd)"
    unfolding sound_linkage_def using strings [OF dynamic_array_sound] by blast
  finally show ?thesis .
qed

section \<open>No panics\<close>

lemma panic_free_map_each: "(\<And>x. x \<in> set xs \<Longrightarrow> panic_free (f x)) \<Longrightarrow> panic_free (map_each f xs)"
  by (induction xs) (auto intro!: panic_free_and_then simp: panic_rules)

lemma panic_free_retain:
  "panic_free (retain_startup_dynamic_record parsed tag val ordinal accepted limits)"
  unfolding retain_startup_dynamic_record_def Let_def validate_startup_dynamic_flags_def
  by (auto intro!: panic_free_and_then simp: panic_rules)

lemma panic_free_classify: "panic_free (classify_startup_dynamic_tag tag)"
  by (auto simp: classify_startup_dynamic_tag_def panic_rules split: option.splits)

lemma panic_free_dynamic_loop:
  "16 * (index + n) \<le> length bs \<Longrightarrow> panic_free (dynamic_loop bs limits index n parsed)"
proof (induction n arbitrary: index parsed)
  case 0
  then show ?case by (simp add: panic_rules)
next
  case (Suc n)
  have step: "panic_free (case x of (found_null, p) \<Rightarrow>
      if found_null then Inr (True, p) else dynamic_loop bs limits (index + 1) n p)" for x
    using Suc.IH [of "index + 1"] Suc.prems by (auto simp: panic_rules split: prod.splits)
  show ?case
    unfolding dynamic_loop.simps Let_def
    by (intro panic_free_and_then panic_free_classify panic_free_retain step)
      (use Suc.prems in \<open>auto simp: panic_rules get_range_def elf_sizes\<close>)
qed

lemma panic_free_parse_records: "panic_free (parse_startup_dynamic_records bs limits)"
  unfolding parse_startup_dynamic_records_def Let_def
  by (intro panic_free_and_then panic_free_dynamic_loop)
    (auto intro!: panic_free_and_then simp: panic_rules elf_sizes min_def split: prod.splits)

lemma panic_free_virtual_range: "panic_free (map_virtual_file_range bs gs address byte_length label)"
proof -
  have "panic_free (map_load address e label g mapped)" for e g mapped
    unfolding map_load_def Let_def by (auto intro!: panic_free_and_then simp: panic_rules)
  then show ?thesis
    unfolding map_virtual_file_range_def
    by (intro panic_free_and_then panic_free_run_each panic_free_checked_file_range) (auto simp: panic_rules)
qed

lemma panic_free_string_table: "panic_free (resolve_startup_dynamic_string_table bs analysis parsed)"
  unfolding resolve_startup_dynamic_string_table_def Let_def
  by (auto intro!: panic_free_and_then panic_free_virtual_range simp: panic_rules split: option.splits)

lemma string_table_present:
  "resolve_startup_dynamic_string_table bs analysis parsed = Inr string_table \<Longrightarrow>
    pd_needed_offsets parsed \<noteq> [] \<or> pd_soname_offset parsed \<noteq> None \<or> pd_runpath_offset parsed \<noteq> None \<Longrightarrow>
    string_table \<noteq> None"
  unfolding resolve_startup_dynamic_string_table_def Let_def by auto

lemma panic_free_string_at: "panic_free (dynamic_string_at table offset label)"
  unfolding dynamic_string_at_def Let_def by (auto intro!: panic_free_and_then simp: panic_rules)

lemma panic_free_basename: "panic_free (validate_dynamic_basename name label)"
  unfolding validate_dynamic_basename_def by (auto intro!: panic_free_and_then simp: panic_rules)

lemma panic_free_runpath: "panic_free (validate_runpath raw limits)"
proof -
  have "panic_free (runpath_component limits component)" for component
    unfolding runpath_component_def validate_absolute_runpath_component_def
    by (auto intro!: panic_free_and_then panic_free_check_each simp: panic_rules split: option.splits)
  then show ?thesis
    unfolding validate_runpath_def
    by (auto intro!: panic_free_and_then panic_free_map_each simp: panic_rules)
qed

lemma panic_free_interpreter_path: "panic_free (validate_interpreter_path path)"
  unfolding validate_interpreter_path_def
  by (auto intro!: panic_free_and_then panic_free_check_each simp: panic_rules)

lemma panic_free_linkage: "panic_free (inspect_startup_dynamic_linkage bs analysis limits)"
proof -
  have needed: "panic_free (resolve_needed_libraries offsets string_table)"
    if "offsets \<noteq> [] \<longrightarrow> string_table \<noteq> None" for offsets string_table
  proof -
    have "panic_free (needed_library string_table needed)" if "string_table \<noteq> None" for needed
      unfolding needed_library_def using that
      by (auto intro!: panic_free_and_then panic_free_string_at panic_free_basename simp: panic_rules)
    then show ?thesis
      unfolding resolve_needed_libraries_def Let_def using that
      by (intro panic_free_and_then panic_free_map_each) (auto simp: panic_rules)
  qed
  have soname: "panic_free (resolve_soname parsed string_table)"
    if "pd_soname_offset parsed \<noteq> None \<longrightarrow> string_table \<noteq> None" for parsed string_table
    unfolding resolve_soname_def using that
    by (auto intro!: panic_free_and_then panic_free_string_at panic_free_basename simp: panic_rules
        split: option.splits)
  have runpath: "panic_free (resolve_runpath parsed string_table)"
    if "pd_runpath_offset parsed \<noteq> None \<longrightarrow> string_table \<noteq> None" for parsed string_table
    unfolding resolve_runpath_def using that
    by (auto intro!: panic_free_and_then panic_free_string_at panic_free_runpath simp: panic_rules
        split: option.splits)
  show ?thesis
    unfolding inspect_startup_dynamic_linkage_def
    by (intro panic_free_and_then panic_free_checked_file_range panic_free_parse_records
        panic_free_string_table needed soname runpath)
      (auto simp: panic_rules dest: string_table_present)
qed

end
