(* ===== verification/ElfInspection.thy ===== *)
theory ElfInspection
  imports ElfDynamicFacts
begin

text \<open>
  The entry points of the AMD64 inspector: a runtime executable, a startup dependency, and the comparison
  of a runtime executable with the identity of the positive gate
  (\<open>reproduction/src/b4_positive_gate.rs\<close>). SHA-256 (the crate \<open>sha2\<close>) and the \<open>elf\<close> crate are
  arguments; the effect that receives the projections is one too.
\<close>

section \<open>Projections\<close>

record RuntimeAmd64ElfInspection =
  ri_interpreter_path :: bytes
  ri_dynamic_entry_count :: u64
  ri_needed_library_count :: u64
  ri_startup_dynamic :: Amd64ElfStartupDynamicInspection

record InspectedAmd64Elf =
  ie_bytes :: bytes
  ie_byte_length :: u64
  ie_sha256 :: bytes
  ie_common :: Amd64ElfCommonInspection
  ie_runtime :: RuntimeAmd64ElfInspection

record StartupDependencyDsoInspection =
  di_byte_length :: u64
  di_sha256 :: bytes
  di_common :: Amd64ElfCommonInspection
  di_dynamic :: Amd64ElfStartupDynamicInspection

text \<open>The SONAME of an accepted dependency; the code expects it.\<close>

definition dso_soname :: "StartupDependencyDsoInspection \<Rightarrow> ElfError + bytes" where
  "dso_soname inspected = ok_or (sd_soname (di_dynamic inspected)) ElfPanicked"

record B4PositiveRuntimeElfIdentity =
  pe_image_path :: bytes
  pe_byte_length :: u64
  pe_sha256 :: bytes
  pe_elf_type :: bytes
  pe_os_abi :: bytes
  pe_program_header_count :: u64
  pe_section_header_count :: u64
  pe_load_segment_count :: u64
  pe_executable_load_segment_count :: u64
  pe_interpreter_path :: bytes
  pe_dynamic_entry_count :: u64
  pe_needed_library_count :: u64
  pe_gnu_stack_segment_count :: u64

section \<open>Entry points\<close>

definition inspect_runtime_linkage ::
  "bytes \<Rightarrow> CommonElfAnalysis \<Rightarrow> RuntimeAmd64ElfLimits \<Rightarrow> ElfError + RuntimeAmd64ElfInspection" where
  "inspect_runtime_linkage bs analysis limits =
     and_then (ok_or (ca_interpreter analysis) (Linkage InterpreterMissing)) (\<lambda>interpreter.
     and_then (ok_or (ca_dynamic analysis) (Linkage DynamicMissing)) (\<lambda>_.
     and_then (checked_file_range bs (p_offset interpreter) (p_filesz interpreter)
                 RuntimeInterpreterPayload) (\<lambda>interpreter_bytes.
     and_then (ensure (2 \<le> length interpreter_bytes \<and> length interpreter_bytes \<le> 241
                       \<and> last interpreter_bytes = 0 \<and> 0 \<notin> set (butlast interpreter_bytes))
                 (Path InterpreterPayload)) (\<lambda>_.
     let interpreter_path = butlast interpreter_bytes in
     and_then (ensure (is_utf8 interpreter_path) (Path InterpreterNotUtf8)) (\<lambda>_.
     and_then (validate_interpreter_path interpreter_path) (\<lambda>_.
     and_then (inspect_startup_dynamic_linkage bs analysis limits) (\<lambda>startup_dynamic.
     and_then (ensure (sd_soname startup_dynamic = None) (Linkage CarriesSoname)) (\<lambda>_.
     and_then (ok_or (u64_try_from (length (sd_accepted_records startup_dynamic)))
                 LengthConversion) (\<lambda>dynamic_entry_count.
     and_then (ok_or (u64_try_from (length (sd_needed_libraries startup_dynamic)))
                 LengthConversion) (\<lambda>needed_library_count.
     Inr \<lparr>ri_interpreter_path = interpreter_path,
          ri_dynamic_entry_count = dynamic_entry_count,
          ri_needed_library_count = needed_library_count,
          ri_startup_dynamic = startup_dynamic\<rparr>))))))))))"

definition inspect_runtime_amd64_elf ::
  "elf_crate \<Rightarrow> (bytes \<Rightarrow> bytes) \<Rightarrow> bytes \<Rightarrow> ElfError + InspectedAmd64Elf" where
  "inspect_runtime_amd64_elf elf sha bs =
     (let limits = role_limits (Amd64Elf Runtime) in
     and_then (ok_or (u64_try_from (length bs)) LengthConversion) (\<lambda>byte_length.
     and_then (map_err ElfBudget (validate_encoded_length limits byte_length)) (\<lambda>_.
     and_then (map_err ElfBudget (require_amd64_elf limits)) (\<lambda>work_limits.
     and_then (parse_closed_elf64_header elf bs) (\<lambda>header.
     and_then (inspect_common_structure elf bs header work_limits) (\<lambda>analysis.
     and_then (ensure (ci_entry_point_in_executable_load (ca_common analysis))
                 (Linkage EntryNotExecutable)) (\<lambda>_.
     and_then (map_err ElfBudget (require_runtime_linkage work_limits)) (\<lambda>runtime_limits.
     and_then (inspect_runtime_linkage bs analysis runtime_limits) (\<lambda>runtime.
     Inr \<lparr>ie_bytes = bs, ie_byte_length = byte_length, ie_sha256 = sha bs,
          ie_common = ca_common analysis, ie_runtime = runtime\<rparr>)))))))))"

definition inspect_startup_dependency_amd64_dso ::
  "elf_crate \<Rightarrow> (bytes \<Rightarrow> bytes) \<Rightarrow> bytes \<Rightarrow> ElfError + StartupDependencyDsoInspection" where
  "inspect_startup_dependency_amd64_dso elf sha bs =
     (let limits = role_limits (Amd64Elf Runtime) in
     and_then (ok_or (u64_try_from (length bs)) LengthConversion) (\<lambda>byte_length.
     and_then (map_err ElfBudget (validate_encoded_length limits byte_length)) (\<lambda>_.
     and_then (map_err ElfBudget (require_amd64_elf limits)) (\<lambda>work_limits.
     and_then (parse_closed_elf64_header elf bs) (\<lambda>header.
     and_then (ensure (h_e_type header = ET_DYN) (Linkage NotSharedObject)) (\<lambda>_.
     and_then (inspect_common_structure elf bs header work_limits) (\<lambda>analysis.
     and_then (ensure (ca_interpreter analysis = None \<and> ca_dynamic analysis \<noteq> None)
                 (Linkage DsoSegments)) (\<lambda>_.
     and_then (ensure (h_e_entry header = 0 \<or> ci_entry_point_in_executable_load (ca_common analysis))
                 (Linkage DsoEntry)) (\<lambda>_.
     and_then (map_err ElfBudget (require_runtime_linkage work_limits)) (\<lambda>runtime_limits.
     and_then (inspect_startup_dynamic_linkage bs analysis runtime_limits) (\<lambda>dynamic.
     and_then (ensure (sd_soname dynamic \<noteq> None) (Linkage DsoWithoutSoname)) (\<lambda>_.
     Inr \<lparr>di_byte_length = byte_length, di_sha256 = sha bs, di_common = ca_common analysis,
          di_dynamic = dynamic\<rparr>))))))))))))"

definition elf_type_name :: "Amd64ElfType \<Rightarrow> bytes" where
  "elf_type_name t = (case t of Executable \<Rightarrow> ascii ''et-exec'' | SharedObject \<Rightarrow> ascii ''et-dyn'')"

definition os_abi_name :: "Amd64ElfOsAbi \<Rightarrow> bytes" where
  "os_abi_name t = (case t of SystemV \<Rightarrow> ascii ''sysv'' | Linux \<Rightarrow> ascii ''linux'')"

definition matches_identity :: "InspectedAmd64Elf \<Rightarrow> B4PositiveRuntimeElfIdentity \<Rightarrow> bool" where
  "matches_identity inspected expected \<longleftrightarrow>
     (let common = ie_common inspected; runtime = ie_runtime inspected in
      ie_byte_length inspected = pe_byte_length expected
      \<and> ie_sha256 inspected = pe_sha256 expected
      \<and> elf_type_name (ci_elf_type common) = pe_elf_type expected
      \<and> os_abi_name (ci_os_abi common) = pe_os_abi expected
      \<and> ci_program_header_count common = pe_program_header_count expected
      \<and> ci_section_header_count common = pe_section_header_count expected
      \<and> ci_load_segment_count common = pe_load_segment_count expected
      \<and> ci_executable_load_segment_count common = pe_executable_load_segment_count expected
      \<and> ci_interpreter_segment_count common = 1
      \<and> ci_dynamic_segment_count common = 1
      \<and> ri_interpreter_path runtime = pe_interpreter_path expected
      \<and> ri_dynamic_entry_count runtime = pe_dynamic_entry_count expected
      \<and> ri_needed_library_count runtime = pe_needed_library_count expected
      \<and> ci_gnu_stack_segment_count common = pe_gnu_stack_segment_count expected)"

definition with_gate_bound_runtime_amd64_elf ::
  "elf_crate \<Rightarrow> (bytes \<Rightarrow> bytes) \<Rightarrow> bytes \<Rightarrow> B4PositiveRuntimeElfIdentity \<Rightarrow>
   (bytes \<Rightarrow> Amd64ElfCommonInspection \<Rightarrow> Amd64ElfStartupDynamicInspection \<Rightarrow> ElfError + unit) \<Rightarrow>
   ElfError + unit" where
  "with_gate_bound_runtime_amd64_elf elf sha bs expected effect =
     and_then (inspect_runtime_amd64_elf elf sha bs) (\<lambda>inspected.
     and_then (ensure (matches_identity inspected expected) (Linkage ProjectionDiffers)) (\<lambda>_.
     effect (ri_interpreter_path (ie_runtime inspected)) (ie_common inspected)
       (ri_startup_dynamic (ie_runtime inspected))))"

definition with_inspected_startup_dependency_amd64_dso ::
  "elf_crate \<Rightarrow> (bytes \<Rightarrow> bytes) \<Rightarrow> bytes \<Rightarrow> (StartupDependencyDsoInspection \<Rightarrow> ElfError + unit) \<Rightarrow>
   ElfError + unit" where
  "with_inspected_startup_dependency_amd64_dso elf sha bs effect =
     and_then (inspect_startup_dependency_amd64_dso elf sha bs) effect"

end
