(* ===== verification/ElfInspectionFacts.thy ===== *)
theory ElfInspectionFacts
  imports ElfInspection
begin

text \<open>
  The two entry points of the AMD64 inspector as relations on the file: what a runtime executable and a
  startup dependency are, and that neither inspector panics.
\<close>

section \<open>The accepted files\<close>

definition runtime_limits :: RuntimeAmd64ElfLimits where
  "runtime_limits = \<lparr>rt_maximum_dynamic_entries = 65534, rt_maximum_needed_libraries = 4096\<rparr>"

definition elf_limits :: Amd64ElfLimits where
  "elf_limits =
     \<lparr>el_maximum_program_headers = 65534, el_maximum_section_headers = 65279,
      el_runtime_linkage = Some runtime_limits\<rparr>"

definition header_of :: "elf_crate \<Rightarrow> bytes \<Rightarrow> FileHeader \<Rightarrow> bool" where
  "header_of elf bs header \<longleftrightarrow>
     closed_ident bs \<and> closed_header header
     \<and> (\<exists>ident. parse_ident elf (take 16 bs) = Some ident \<and> fst ident = ELF64
          \<and> parse_tail elf ident (slice bs 16 64) = Some header)
     \<and> h_osabi header \<in> {ELFOSABI_SYSV, ELFOSABI_LINUX}"

definition section_table_of :: "elf_crate \<Rightarrow> bytes \<Rightarrow> FileHeader \<Rightarrow> SectionHeader list \<Rightarrow> bool" where
  "section_table_of elf bs header secs \<longleftrightarrow>
     (if h_e_shoff header = 0
      then secs = [] \<and> h_e_shentsize header = 0 \<and> h_e_shnum header = 0 \<and> h_e_shstrndx header = 0
      else sound_section_table elf bs header elf_limits secs)"

definition interpreter_of :: "bytes \<Rightarrow> ProgramHeader \<Rightarrow> bytes \<Rightarrow> bool" where
  "interpreter_of bs g path \<longleftrightarrow>
     unat (p_offset g) + unat (p_filesz g) \<le> length bs
     \<and> slice bs (unat (p_offset g)) (unat (p_offset g) + unat (p_filesz g)) = path @ [0]
     \<and> 2 \<le> length path \<and> length path \<le> 240
     \<and> (\<exists>rest. path = SLASH # rest
          \<and> list_all (\<lambda>s. plain_segment s \<and> s \<noteq> ascii ''..'') (split_byte SLASH rest))"

lemma role_budget:
  "(\<exists>n. u64_try_from (length bs) = Some n \<and> validate_encoded_length (role_limits (Amd64Elf Runtime)) n = Inr u
      \<and> Q n) \<longleftrightarrow> 64 \<le> length bs \<and> length bs \<le> 2 ^ 30 \<and> Q (of_nat (length bs))"
  by (auto simp: role_limits.simps u64_try_from_iff validate_encoded_length_def in_closed_range_def word_le_nat_alt unat_of_nat)

lemma role_contracts:
  "require_amd64_elf (role_limits (Amd64Elf Runtime)) = Inr elf_limits"
  "require_runtime_linkage elf_limits = Inr runtime_limits"
  by (simp_all add: role_limits.simps require_amd64_elf_def require_runtime_linkage_def elf_limits_def runtime_limits_def)

lemma section_table_eq:
  assumes "length bs < 2 ^ 64"
  shows "parse_and_validate_section_headers elf bs header elf_limits = Inr secs \<longleftrightarrow>
    section_table_of elf bs header secs"
proof (cases "h_e_shoff header = 0")
  case True
  then show ?thesis by (auto simp: parse_and_validate_section_headers_def section_table_of_def)
next
  case False
  with assms show ?thesis by (simp add: section_table_present section_table_of_def)
qed

lemma structure_eq:
  assumes "length bs < 2 ^ 64"
  shows "inspect_common_structure elf bs header elf_limits = Inr analysis \<longleftrightarrow>
    h_e_type header \<in> {ET_EXEC, ET_DYN} \<and> h_osabi header \<in> {ELFOSABI_SYSV, ELFOSABI_LINUX}
    \<and> (\<exists>secs gs. section_table_of elf bs header secs
         \<and> sound_program_headers elf bs header elf_limits gs
         \<and> analysis = analysis_of header secs gs)"
  unfolding structure_exact using assms by (simp add: section_table_eq)

lemma split_covers: "x \<in> set xs \<Longrightarrow> x = c \<or> (\<exists>d \<in> set (split_byte c xs). x \<in> set d)"
proof (induction xs)
  case Nil
  then show ?case by simp
next
  case (Cons y xs)
  have "set (split_byte c xs) = insert (hd (split_byte c xs)) (set (tl (split_byte c xs)))"
    by (metis list.collapse list.simps(15) split_byte_not_Nil)
  with Cons show ?case by auto
qed

lemma printable_path:
  assumes "list_all (\<lambda>s. plain_segment s \<and> s \<noteq> ascii ''..'') (split_byte SLASH rest)"
  shows "list_all printable_ascii (SLASH # rest)"
proof -
  have "printable_ascii x" if "x \<in> set rest" for x
    using split_covers [OF that, of SLASH] assms
    by (auto simp: list_all_iff plain_segment_def printable_ascii_def in_range_def SLASH_def)
  then show ?thesis by (auto simp: list_all_iff printable_ascii_def in_range_def SLASH_def)
qed

lemma printable_utf8: "list_all printable_ascii bs \<Longrightarrow> is_utf8 bs \<and> 0 \<notin> set bs"
  using ascii_is_utf8 [of bs]
  by (auto simp: list_all_iff printable_ascii_def in_range_def word_le_nat_alt word_less_nat_alt
      simp del: is_utf8.simps) fastforce+

lemma interpreter_path_eq:
  "validate_interpreter_path path = Inr u \<longleftrightarrow>
    2 \<le> length path \<and> length path \<le> 240
    \<and> (\<exists>rest. path = SLASH # rest
         \<and> list_all (\<lambda>s. plain_segment s \<and> s \<noteq> ascii ''..'') (split_byte SLASH rest))"
  by (fastforce simp: validate_interpreter_path_def check_each_eq plain_segment_def list_all_iff)

lemma payload_eq:
  "2 \<le> length payload \<and> length payload \<le> 241 \<and> last payload = 0 \<and> 0 \<notin> set (butlast payload)
    \<and> is_utf8 (butlast payload) \<and> validate_interpreter_path (butlast payload) = Inr () \<and> path = butlast payload
    \<longleftrightarrow> payload = path @ [0] \<and> validate_interpreter_path path = Inr ()"
proof
  assume "2 \<le> length payload \<and> length payload \<le> 241 \<and> last payload = 0 \<and> 0 \<notin> set (butlast payload)
    \<and> is_utf8 (butlast payload) \<and> validate_interpreter_path (butlast payload) = Inr () \<and> path = butlast payload"
  then show "payload = path @ [0] \<and> validate_interpreter_path path = Inr ()"
    by (metis append_butlast_last_id list.size(3) not_numeral_le_zero)
next
  assume r: "payload = path @ [0] \<and> validate_interpreter_path path = Inr ()"
  then obtain rest where "2 \<le> length path" "length path \<le> 240" "path = SLASH # rest"
      "list_all (\<lambda>s. plain_segment s \<and> s \<noteq> ascii ''..'') (split_byte SLASH rest)"
    by (auto simp: interpreter_path_eq)
  with r printable_utf8 [OF printable_path] show "2 \<le> length payload \<and> length payload \<le> 241 \<and> last payload = 0
    \<and> 0 \<notin> set (butlast payload) \<and> is_utf8 (butlast payload)
    \<and> validate_interpreter_path (butlast payload) = Inr () \<and> path = butlast payload"
    by (simp del: is_utf8.simps)
qed

lemma linkage_counts:
  assumes "dynamic_array bs segment limits rs" "sound_linkage bs gs rs sd"
  shows "length (sd_accepted_records sd) < 2 ^ 64" "length (sd_needed_libraries sd) < 2 ^ 64"
proof -
  from assms(1) have "length rs \<le> unat (rt_maximum_dynamic_entries limits)"
    by (auto simp: dynamic_array_def Let_def dynamic_entries_simps)
  then have rs: "length rs < 2 ^ 64"
    using unat_u64_bound [of "rt_maximum_dynamic_entries limits"] by simp
  then show "length (sd_accepted_records sd) < 2 ^ 64" using assms(2) by (simp add: sound_linkage_def)
  have "length (sd_needed_libraries sd) \<le> length (tagged DT_NEEDED rs)"
    using assms(2) by (auto simp: sound_linkage_def linked_strings_def dest: list_all2_lengthD split: if_splits)
  then show "length (sd_needed_libraries sd) < 2 ^ 64" using rs length_tagged [of DT_NEEDED rs] by simp
qed

definition runtime_of :: "bytes \<Rightarrow> Amd64ElfStartupDynamicInspection \<Rightarrow> RuntimeAmd64ElfInspection" where
  "runtime_of path sd =
     \<lparr>ri_interpreter_path = path,
      ri_dynamic_entry_count = of_nat (length (sd_accepted_records sd)),
      ri_needed_library_count = of_nat (length (sd_needed_libraries sd)),
      ri_startup_dynamic = sd\<rparr>"

lemma runtime_linkage_eq:
  assumes "length bs < 2 ^ 64"
  shows "inspect_runtime_linkage bs analysis limits = Inr runtime \<longleftrightarrow>
    (\<exists>interpreter segment path rs sd.
       ca_interpreter analysis = Some interpreter \<and> ca_dynamic analysis = Some segment
       \<and> interpreter_of bs interpreter path
       \<and> dynamic_array bs segment limits rs \<and> sound_linkage bs (ca_program_headers analysis) rs sd
       \<and> sd_soname sd = None \<and> runtime = runtime_of path sd)"
proof -
  let ?link = "inspect_startup_dynamic_linkage bs analysis limits"
  have payload: "(\<exists>payload. checked_file_range bs (p_offset g) (p_filesz g) label = Inr payload
      \<and> 2 \<le> length payload \<and> length payload \<le> 241 \<and> last payload = 0 \<and> 0 \<notin> set (butlast payload)
      \<and> is_utf8 (butlast payload) \<and> validate_interpreter_path (butlast payload) = Inr ()
      \<and> path = butlast payload) \<longleftrightarrow> interpreter_of bs g path" for g label path
    unfolding payload_eq
    using assms by (auto simp: checked_file_range_eq interpreter_of_def interpreter_path_eq)
  have counts: "u64_try_from (length (sd_accepted_records sd)) = Some (of_nat (length (sd_accepted_records sd)))"
      "u64_try_from (length (sd_needed_libraries sd)) = Some (of_nat (length (sd_needed_libraries sd)))"
    if "?link = Inr sd" for sd
    using that linkage_counts unfolding linkage_eq [OF assms] by (auto simp: u64_try_from_def)
  have "inspect_runtime_linkage bs analysis limits = Inr runtime \<longleftrightarrow>
      (\<exists>interpreter segment path. ca_interpreter analysis = Some interpreter \<and> ca_dynamic analysis = Some segment
        \<and> (\<exists>payload. checked_file_range bs (p_offset interpreter) (p_filesz interpreter)
              RuntimeInterpreterPayload = Inr payload
            \<and> 2 \<le> length payload \<and> length payload \<le> 241 \<and> last payload = 0 \<and> 0 \<notin> set (butlast payload)
            \<and> is_utf8 (butlast payload) \<and> validate_interpreter_path (butlast payload) = Inr ()
            \<and> path = butlast payload)
        \<and> (\<exists>sd. ?link = Inr sd \<and> sd_soname sd = None \<and> runtime = runtime_of path sd))"
    unfolding inspect_runtime_linkage_def Let_def
    by (auto simp: counts runtime_of_def simp del: is_utf8.simps)
  also have "\<dots> \<longleftrightarrow> (\<exists>interpreter segment path rs sd.
       ca_interpreter analysis = Some interpreter \<and> ca_dynamic analysis = Some segment
       \<and> interpreter_of bs interpreter path
       \<and> dynamic_array bs segment limits rs \<and> sound_linkage bs (ca_program_headers analysis) rs sd
       \<and> sd_soname sd = None \<and> runtime = runtime_of path sd)"
    unfolding payload linkage_eq [OF assms] by blast
  finally show ?thesis .
qed

lemma header_eq:
  assumes "64 \<le> length bs"
  shows "parse_closed_elf64_header elf bs = Inr header \<and> h_osabi header \<in> {ELFOSABI_SYSV, ELFOSABI_LINUX} \<longleftrightarrow>
    header_of elf bs header"
  unfolding header_exact_parts [OF assms] header_of_def by blast

lemma header_type: "header_of elf bs header \<Longrightarrow> h_e_type header \<in> {ET_EXEC, ET_DYN}"
  by (simp add: header_of_def closed_header_def)

text \<open>What an accepted runtime executable is, and the projection of it.\<close>

definition runtime_elf ::
  "elf_crate \<Rightarrow> bytes \<Rightarrow> FileHeader \<Rightarrow> SectionHeader list \<Rightarrow> ProgramHeader list \<Rightarrow> bytes \<Rightarrow>
   Amd64ElfStartupDynamicInspection \<Rightarrow> bool" where
  "runtime_elf elf bs header secs gs path sd \<longleftrightarrow>
     64 \<le> length bs \<and> length bs \<le> 2 ^ 30
     \<and> header_of elf bs header \<and> section_table_of elf bs header secs
     \<and> sound_program_headers elf bs header elf_limits gs
     \<and> list_ex (holds_entry header) gs
     \<and> (\<exists>interpreter segment rs. filter is_interp gs = [interpreter] \<and> filter is_dynamic gs = [segment]
          \<and> interpreter_of bs interpreter path \<and> dynamic_array bs segment runtime_limits rs
          \<and> sound_linkage bs gs rs sd)
     \<and> sd_soname sd = None"

definition runtime_projection ::
  "(bytes \<Rightarrow> bytes) \<Rightarrow> bytes \<Rightarrow> FileHeader \<Rightarrow> SectionHeader list \<Rightarrow> ProgramHeader list \<Rightarrow> bytes \<Rightarrow>
   Amd64ElfStartupDynamicInspection \<Rightarrow> InspectedAmd64Elf" where
  "runtime_projection sha bs header secs gs path sd =
     \<lparr>ie_bytes = bs, ie_byte_length = of_nat (length bs), ie_sha256 = sha bs,
      ie_common = ca_common (analysis_of header secs gs), ie_runtime = runtime_of path sd\<rparr>"

lemma analysis_of_parts:
  "ca_program_headers (analysis_of header secs gs) = gs"
  "ca_interpreter (analysis_of header secs gs) = find is_interp gs"
  "ca_dynamic (analysis_of header secs gs) = find is_dynamic gs"
  "ci_entry_point_in_executable_load (ca_common (analysis_of header secs gs)) \<longleftrightarrow> list_ex (holds_entry header) gs"
  by (simp_all add: analysis_of_def)

lemma sound_headers_once:
  assumes "sound_program_headers elf bs header limits gs"
  shows "find is_interp gs = Some g \<longleftrightarrow> filter is_interp gs = [g]"
    and "find is_dynamic gs = Some g \<longleftrightarrow> filter is_dynamic gs = [g]"
  using assms by (auto simp: sound_program_headers_def Let_def find_filter_Some)

lemma runtime_elf_eq:
  "inspect_runtime_amd64_elf elf sha bs = Inr inspected \<longleftrightarrow>
    (\<exists>header secs gs path sd. runtime_elf elf bs header secs gs path sd
       \<and> inspected = runtime_projection sha bs header secs gs path sd)"
proof (cases "64 \<le> length bs \<and> length bs \<le> 2 ^ 30")
  case False
  have "inspect_runtime_amd64_elf elf sha bs \<noteq> Inr inspected"
    using False role_budget [of bs "()" "\<lambda>_. True"]
    by (auto simp: inspect_runtime_amd64_elf_def Let_def)
  with False show ?thesis by (auto simp: runtime_elf_def)
next
  case True
  then have small: "length bs < 2 ^ 64" by simp
  have "inspect_runtime_amd64_elf elf sha bs = Inr inspected \<longleftrightarrow>
      (\<exists>header analysis runtime. parse_closed_elf64_header elf bs = Inr header
        \<and> inspect_common_structure elf bs header elf_limits = Inr analysis
        \<and> ci_entry_point_in_executable_load (ca_common analysis)
        \<and> inspect_runtime_linkage bs analysis runtime_limits = Inr runtime
        \<and> inspected = \<lparr>ie_bytes = bs, ie_byte_length = of_nat (length bs), ie_sha256 = sha bs,
            ie_common = ca_common analysis, ie_runtime = runtime\<rparr>)"
    using role_budget [of bs "()" "\<lambda>n. \<exists>header analysis runtime. parse_closed_elf64_header elf bs = Inr header
        \<and> inspect_common_structure elf bs header elf_limits = Inr analysis
        \<and> ci_entry_point_in_executable_load (ca_common analysis)
        \<and> inspect_runtime_linkage bs analysis runtime_limits = Inr runtime
        \<and> inspected = \<lparr>ie_bytes = bs, ie_byte_length = n, ie_sha256 = sha bs,
            ie_common = ca_common analysis, ie_runtime = runtime\<rparr>"] True
    by (simp only: inspect_runtime_amd64_elf_def Let_def and_then_eq_Inr ok_or_eq_Inr map_err_eq_Inr role_contracts
        ensure_eq_Inr sum.inject) (auto simp: role_contracts)
  also have "\<dots> \<longleftrightarrow> (\<exists>header secs gs path sd. runtime_elf elf bs header secs gs path sd
       \<and> inspected = runtime_projection sha bs header secs gs path sd)" (is "?l \<longleftrightarrow> ?r")
  proof
    assume ?l
    then obtain header analysis runtime where l: "parse_closed_elf64_header elf bs = Inr header"
        "inspect_common_structure elf bs header elf_limits = Inr analysis"
        "ci_entry_point_in_executable_load (ca_common analysis)"
        "inspect_runtime_linkage bs analysis runtime_limits = Inr runtime"
        "inspected = \<lparr>ie_bytes = bs, ie_byte_length = of_nat (length bs), ie_sha256 = sha bs,
            ie_common = ca_common analysis, ie_runtime = runtime\<rparr>"
      by blast
    from l(2) obtain secs gs where g: "h_osabi header \<in> {ELFOSABI_SYSV, ELFOSABI_LINUX}"
        "section_table_of elf bs header secs" "sound_program_headers elf bs header elf_limits gs"
        "analysis = analysis_of header secs gs"
      unfolding structure_eq [OF small] by blast
    from l(4) obtain interpreter segment path rs sd where r: "find is_interp gs = Some interpreter"
        "find is_dynamic gs = Some segment" "interpreter_of bs interpreter path"
        "dynamic_array bs segment runtime_limits rs" "sound_linkage bs gs rs sd"
        "sd_soname sd = None" "runtime = runtime_of path sd"
      unfolding runtime_linkage_eq [OF small] g(4) analysis_of_parts by blast
    have "header_of elf bs header" using l(1) g(1) header_eq [of bs elf header] True by blast
    moreover have "list_ex (holds_entry header) gs" using l(3) unfolding g(4) analysis_of_parts .
    ultimately have "runtime_elf elf bs header secs gs path sd"
      using True g(2,3) r unfolding runtime_elf_def sound_headers_once [OF g(3)] by blast
    then show ?r using l(5) g(4) r(7) unfolding runtime_projection_def by blast
  next
    assume ?r
    then obtain header secs gs path sd where e: "runtime_elf elf bs header secs gs path sd"
        "inspected = runtime_projection sha bs header secs gs path sd" by blast
    from e(1) have g: "header_of elf bs header" "section_table_of elf bs header secs"
        "sound_program_headers elf bs header elf_limits gs" "list_ex (holds_entry header) gs"
      by (simp_all only: runtime_elf_def)
    have "parse_closed_elf64_header elf bs = Inr header \<and> h_osabi header \<in> {ELFOSABI_SYSV, ELFOSABI_LINUX}"
      using header_eq [of bs elf header] True g(1) by blast
    moreover have "inspect_common_structure elf bs header elf_limits = Inr (analysis_of header secs gs)"
      unfolding structure_eq [OF small] using calculation g(2,3) header_type [OF g(1)] by blast
    moreover have "inspect_runtime_linkage bs (analysis_of header secs gs) runtime_limits = Inr (runtime_of path sd)"
      using e(1) unfolding runtime_linkage_eq [OF small] analysis_of_parts runtime_elf_def
        sound_headers_once [OF g(3)] by blast
    moreover have "ci_entry_point_in_executable_load (ca_common (analysis_of header secs gs))"
      unfolding analysis_of_parts by (rule g(4))
    ultimately show ?l unfolding e(2) runtime_projection_def by blast
  qed
  finally show ?thesis .
qed

section \<open>Startup dependencies\<close>

definition dependency_elf ::
  "elf_crate \<Rightarrow> bytes \<Rightarrow> FileHeader \<Rightarrow> SectionHeader list \<Rightarrow> ProgramHeader list \<Rightarrow>
   Amd64ElfStartupDynamicInspection \<Rightarrow> bool" where
  "dependency_elf elf bs header secs gs sd \<longleftrightarrow>
     64 \<le> length bs \<and> length bs \<le> 2 ^ 30
     \<and> header_of elf bs header \<and> h_e_type header = ET_DYN
     \<and> section_table_of elf bs header secs
     \<and> sound_program_headers elf bs header elf_limits gs
     \<and> (h_e_entry header = 0 \<or> list_ex (holds_entry header) gs)
     \<and> filter is_interp gs = []
     \<and> (\<exists>segment rs. filter is_dynamic gs = [segment] \<and> dynamic_array bs segment runtime_limits rs
          \<and> sound_linkage bs gs rs sd)
     \<and> sd_soname sd \<noteq> None"

lemma dependency_elf_eq:
  "inspect_startup_dependency_amd64_dso elf sha bs = Inr inspected \<longleftrightarrow>
    (\<exists>header secs gs sd. dependency_elf elf bs header secs gs sd
       \<and> inspected = \<lparr>di_byte_length = of_nat (length bs), di_sha256 = sha bs,
           di_common = ca_common (analysis_of header secs gs), di_dynamic = sd\<rparr>)"
proof (cases "64 \<le> length bs \<and> length bs \<le> 2 ^ 30")
  case False
  have "inspect_startup_dependency_amd64_dso elf sha bs \<noteq> Inr inspected"
    using False role_budget [of bs "()" "\<lambda>_. True"]
    by (auto simp: inspect_startup_dependency_amd64_dso_def Let_def)
  with False show ?thesis by (auto simp: dependency_elf_def)
next
  case True
  then have small: "length bs < 2 ^ 64" by simp
  let ?steps = "\<lambda>n header analysis sd. parse_closed_elf64_header elf bs = Inr header
        \<and> h_e_type header = ET_DYN
        \<and> inspect_common_structure elf bs header elf_limits = Inr analysis
        \<and> ca_interpreter analysis = None \<and> ca_dynamic analysis \<noteq> None
        \<and> (h_e_entry header = 0 \<or> ci_entry_point_in_executable_load (ca_common analysis))
        \<and> inspect_startup_dynamic_linkage bs analysis runtime_limits = Inr sd \<and> sd_soname sd \<noteq> None
        \<and> inspected = \<lparr>di_byte_length = n, di_sha256 = sha bs, di_common = ca_common analysis, di_dynamic = sd\<rparr>"
  have "inspect_startup_dependency_amd64_dso elf sha bs = Inr inspected \<longleftrightarrow>
      (\<exists>header analysis sd. ?steps (of_nat (length bs)) header analysis sd)"
    using role_budget [of bs "()" "\<lambda>n. \<exists>header analysis sd. ?steps n header analysis sd"] True
    by (simp only: inspect_startup_dependency_amd64_dso_def Let_def and_then_eq_Inr ok_or_eq_Inr map_err_eq_Inr
        role_contracts ensure_eq_Inr sum.inject) (auto simp: role_contracts)
  also have "\<dots> \<longleftrightarrow> (\<exists>header secs gs sd. dependency_elf elf bs header secs gs sd
       \<and> inspected = \<lparr>di_byte_length = of_nat (length bs), di_sha256 = sha bs,
           di_common = ca_common (analysis_of header secs gs), di_dynamic = sd\<rparr>)" (is "?l \<longleftrightarrow> ?r")
  proof
    assume ?l
    then obtain header analysis sd where l: "?steps (of_nat (length bs)) header analysis sd" by blast
    then obtain secs gs where g: "h_osabi header \<in> {ELFOSABI_SYSV, ELFOSABI_LINUX}"
        "section_table_of elf bs header secs" "sound_program_headers elf bs header elf_limits gs"
        "analysis = analysis_of header secs gs"
      unfolding structure_eq [OF small] by blast
    have a: "find is_interp gs = None" "h_e_entry header = 0 \<or> list_ex (holds_entry header) gs"
      using l unfolding g(4) analysis_of_parts by blast+
    from l obtain segment rs where r: "find is_dynamic gs = Some segment"
        "dynamic_array bs segment runtime_limits rs" "sound_linkage bs gs rs sd"
      unfolding linkage_eq [OF small] g(4) analysis_of_parts by blast
    have "header_of elf bs header" using l g(1) header_eq [of bs elf header] True by blast
    then have "dependency_elf elf bs header secs gs sd"
      using True g(2,3) r a l unfolding dependency_elf_def sound_headers_once [OF g(3)]
      by (simp add: find_None_filter) blast
    then show ?r using l g(4) by blast
  next
    assume ?r
    then obtain header secs gs sd where e: "dependency_elf elf bs header secs gs sd"
        "inspected = \<lparr>di_byte_length = of_nat (length bs), di_sha256 = sha bs,
           di_common = ca_common (analysis_of header secs gs), di_dynamic = sd\<rparr>" by blast
    from e(1) have g: "header_of elf bs header" "section_table_of elf bs header secs"
        "sound_program_headers elf bs header elf_limits gs" "h_e_type header = ET_DYN" "sd_soname sd \<noteq> None"
        "h_e_entry header = 0 \<or> list_ex (holds_entry header) gs" "filter is_interp gs = []"
      unfolding dependency_elf_def by blast+
    obtain segment rs where d: "find is_dynamic gs = Some segment"
        "dynamic_array bs segment runtime_limits rs" "sound_linkage bs gs rs sd"
      using e(1) unfolding dependency_elf_def sound_headers_once [OF g(3)] by blast
    have "parse_closed_elf64_header elf bs = Inr header \<and> h_osabi header \<in> {ELFOSABI_SYSV, ELFOSABI_LINUX}"
      using header_eq [of bs elf header] True g(1) by blast
    moreover have "inspect_common_structure elf bs header elf_limits = Inr (analysis_of header secs gs)"
      unfolding structure_eq [OF small] using calculation g(2,3) header_type [OF g(1)] by blast
    moreover have "inspect_startup_dynamic_linkage bs (analysis_of header secs gs) runtime_limits = Inr sd"
      unfolding linkage_eq [OF small] analysis_of_parts using d by blast
    moreover have "ca_interpreter (analysis_of header secs gs) = None" "ca_dynamic (analysis_of header secs gs) \<noteq> None"
      using g(7) d(1) by (simp_all add: analysis_of_parts find_None_filter)
    moreover have "h_e_entry header = 0 \<or> ci_entry_point_in_executable_load (ca_common (analysis_of header secs gs))"
      using g(6) unfolding analysis_of_parts .
    ultimately show ?l using e(2) g(4,5) by blast
  qed
  finally show ?thesis .
qed

section \<open>No panics\<close>

lemma encoded_minimum:
  "u64_try_from (length bs) = Some n \<Longrightarrow> validate_encoded_length (role_limits (Amd64Elf Runtime)) n = Inr u \<Longrightarrow>
    64 \<le> length bs"
  using role_budget [of bs u "\<lambda>_. True"] by blast

lemma runtime_panic_free:
  assumes "elf_reader (parse_ident elf) (parse_tail elf)"
  shows "panic_free (inspect_runtime_amd64_elf elf sha bs)"
proof -
  have linkage: "panic_free (inspect_runtime_linkage bs analysis limits)" for analysis limits
    unfolding inspect_runtime_linkage_def Let_def
    by (intro panic_free_and_then panic_free_checked_file_range panic_free_interpreter_path panic_free_linkage)
      (auto simp: panic_rules)
  show ?thesis
    unfolding inspect_runtime_amd64_elf_def Let_def
  proof (intro panic_free_and_then header_panic_free structure_panic_free linkage)
    fix n u limits header
    assume a: "ok_or (u64_try_from (length bs)) LengthConversion = Inr n"
      "map_err ElfBudget (validate_encoded_length (role_limits (Amd64Elf Runtime)) n) = Inr u"
    then show long: "64 \<le> length bs" using encoded_minimum by simp
    assume header: "parse_closed_elf64_header elf bs = Inr header"
    show "h_e_type header \<in> {ET_EXEC, ET_DYN}" "h_osabi header \<in> {ELFOSABI_SYSV, ELFOSABI_LINUX}"
      using header_closed [OF assms long header] by (simp_all add: closed_header_def)
  qed (auto simp: panic_rules)
qed

lemma dependency_panic_free:
  assumes "elf_reader (parse_ident elf) (parse_tail elf)"
  shows "panic_free (inspect_startup_dependency_amd64_dso elf sha bs)"
  unfolding inspect_startup_dependency_amd64_dso_def Let_def
proof (intro panic_free_and_then header_panic_free structure_panic_free panic_free_linkage)
  fix n u limits header
  assume a: "ok_or (u64_try_from (length bs)) LengthConversion = Inr n"
    "map_err ElfBudget (validate_encoded_length (role_limits (Amd64Elf Runtime)) n) = Inr u"
  then show long: "64 \<le> length bs" using encoded_minimum by simp
  assume header: "parse_closed_elf64_header elf bs = Inr header"
  show "h_e_type header \<in> {ET_EXEC, ET_DYN}" "h_osabi header \<in> {ELFOSABI_SYSV, ELFOSABI_LINUX}"
    using header_closed [OF assms long header] by (simp_all add: closed_header_def)
qed (auto simp: panic_rules)

lemma soname_panic_free:
  assumes "elf_reader (parse_ident elf) (parse_tail elf)"
  shows "panic_free (and_then (inspect_startup_dependency_amd64_dso elf sha bs) dso_soname)"
proof (rule panic_free_and_then [OF dependency_panic_free [OF assms]])
  fix inspected
  assume "inspect_startup_dependency_amd64_dso elf sha bs = Inr inspected"
  then have "sd_soname (di_dynamic inspected) \<noteq> None"
    unfolding dependency_elf_eq dependency_elf_def by auto
  then show "panic_free (dso_soname inspected)" by (auto simp: dso_soname_def panic_rules)
qed

end
