(* ===== verification/ElfExample.thy ===== *)
theory ElfExample
  imports ElfInspectionFacts
begin

text \<open>
  A dynamically linked executable of 359 bytes, read by the reader of the specification: one loaded
  segment over the file, the interpreter \<open>/ld\<close>, one needed library \<open>a\<close> and a non-executable stack.
\<close>

section \<open>The file\<close>

definition ld_header :: bytes where
  "ld_header =
    [127, 69, 76, 70, 2, 1, 1, 0, 0, 0, 0, 0, 0, 0, 0, 0, 2, 0, 62, 0, 1, 0, 0, 0, 64, 0, 64, 0, 0, 0,
     0, 0, 64, 0, 0, 0, 0, 0, 0, 0, 0, 0, 0, 0, 0, 0, 0, 0, 0, 0, 0, 0, 64, 0, 56, 0, 4, 0, 0, 0, 0, 0,
     0, 0]"

definition ld_segment0 :: bytes where
  "ld_segment0 =
    [1, 0, 0, 0, 5, 0, 0, 0, 0, 0, 0, 0, 0, 0, 0, 0, 0, 0, 64, 0, 0, 0, 0, 0, 0, 0, 64, 0, 0, 0, 0, 0,
     103, 1, 0, 0, 0, 0, 0, 0, 103, 1, 0, 0, 0, 0, 0, 0, 0, 16, 0, 0, 0, 0, 0, 0]"

definition ld_segment1 :: bytes where
  "ld_segment1 =
    [3, 0, 0, 0, 4, 0, 0, 0, 32, 1, 0, 0, 0, 0, 0, 0, 32, 1, 64, 0, 0, 0, 0, 0, 32, 1, 64, 0, 0, 0, 0,
     0, 4, 0, 0, 0, 0, 0, 0, 0, 4, 0, 0, 0, 0, 0, 0, 0, 1, 0, 0, 0, 0, 0, 0, 0]"

definition ld_segment2 :: bytes where
  "ld_segment2 =
    [2, 0, 0, 0, 4, 0, 0, 0, 36, 1, 0, 0, 0, 0, 0, 0, 36, 1, 64, 0, 0, 0, 0, 0, 36, 1, 64, 0, 0, 0, 0,
     0, 64, 0, 0, 0, 0, 0, 0, 0, 64, 0, 0, 0, 0, 0, 0, 0, 8, 0, 0, 0, 0, 0, 0, 0]"

definition ld_segment3 :: bytes where
  "ld_segment3 =
    [81, 229, 116, 100, 6, 0, 0, 0, 0, 0, 0, 0, 0, 0, 0, 0, 0, 0, 0, 0, 0, 0, 0, 0, 0, 0, 0, 0, 0, 0, 0,
     0, 0, 0, 0, 0, 0, 0, 0, 0, 0, 0, 0, 0, 0, 0, 0, 0, 16, 0, 0, 0, 0, 0, 0, 0]"

definition ld_interpreter :: bytes where
  "ld_interpreter =
    [47, 108, 100, 0]"

definition ld_dynamic :: bytes where
  "ld_dynamic =
    [5, 0, 0, 0, 0, 0, 0, 0, 100, 1, 64, 0, 0, 0, 0, 0, 10, 0, 0, 0, 0, 0, 0, 0, 3, 0, 0, 0, 0, 0, 0, 0,
     1, 0, 0, 0, 0, 0, 0, 0, 1, 0, 0, 0, 0, 0, 0, 0, 0, 0, 0, 0, 0, 0, 0, 0, 0, 0, 0, 0, 0, 0, 0, 0]"

definition ld_strings :: bytes where
  "ld_strings =
    [0, 97, 0]"

definition ld_file :: bytes where
  "ld_file = ld_header @ ld_segment0 @ ld_segment1 @ ld_segment2 @ ld_segment3 @ ld_interpreter @ ld_dynamic
     @ ld_strings"

lemmas ld_defs = ld_header_def ld_segment0_def ld_segment1_def ld_segment2_def ld_segment3_def
  ld_interpreter_def ld_dynamic_def ld_strings_def

lemma ld_lengths:
  "length ld_header = 64" "length ld_segment0 = 56" "length ld_segment1 = 56" "length ld_segment2 = 56"
  "length ld_segment3 = 56" "length ld_interpreter = 4" "length ld_dynamic = 64" "length ld_strings = 3"
  by (simp_all add: ld_defs)

lemma ld_length: "length ld_file = 359"
  by (simp add: ld_file_def ld_lengths)

lemma ld_header_parsed: "parse_closed_elf64_header gabi ld_file = Inr
   \<lparr>h_version = 1, h_osabi = 0, h_e_type = 2, h_e_machine = 62, h_e_entry = 0x400040, h_e_phoff = 64, h_e_shoff = 0,
    h_e_ehsize = 64, h_e_phentsize = 56, h_e_phnum = 4, h_e_shentsize = 0, h_e_shnum = 0, h_e_shstrndx = 0\<rparr>"
proof -
  have tail: "slice ld_file 16 64 = slice ld_header 16 64" 
    by (simp add: ld_file_def ld_lengths slice_append_left)
  have pre: "slice ld_file i j = slice ld_header i j" if "j \<le> 16" for i j
    using that by (simp add: ld_file_def ld_lengths slice_append_left)
  have idx: "ld_file ! i = ld_header ! i" if "i < 64" for i using that by (simp add: ld_file_def nth_append ld_lengths)
  show ?thesis
    by (simp add: parse_closed_elf64_header_def get_range_def get_index_def ld_length tail pre idx elf_sizes)
      (simp add: ld_header_def slice_def gabi_def gabi_ident_def gabi_tail_def le16_at_def le32_at_def le64_at_def
        u16_from_le_def u32_from_le_def u64_from_le_def)
qed

section \<open>Its projection\<close>

definition ld_file_header :: FileHeader where
  "ld_file_header =
     \<lparr>h_version = 1, h_osabi = 0, h_e_type = 2, h_e_machine = 62, h_e_entry = 0x400040, h_e_phoff = 64,
      h_e_shoff = 0, h_e_ehsize = 64, h_e_phentsize = 56, h_e_phnum = 4, h_e_shentsize = 0, h_e_shnum = 0,
      h_e_shstrndx = 0\<rparr>"

definition ld_program_headers :: "ProgramHeader list" where
  "ld_program_headers =
     [\<lparr>p_type = 1, p_flags = 5, p_offset = 0, p_vaddr = 0x400000, p_filesz = 359, p_memsz = 359, p_align = 4096\<rparr>,
      \<lparr>p_type = 3, p_flags = 4, p_offset = 288, p_vaddr = 0x400120, p_filesz = 4, p_memsz = 4, p_align = 1\<rparr>,
      \<lparr>p_type = 2, p_flags = 4, p_offset = 292, p_vaddr = 0x400124, p_filesz = 64, p_memsz = 64, p_align = 8\<rparr>,
      \<lparr>p_type = 0x6474e551, p_flags = 6, p_offset = 0, p_vaddr = 0, p_filesz = 0, p_memsz = 0, p_align = 16\<rparr>]"

lemma ld_slices:
  "slice ld_file 64 288 = ld_segment0 @ ld_segment1 @ ld_segment2 @ ld_segment3"
  "slice ld_file 288 292 = ld_interpreter"
  "slice ld_file 292 356 = ld_dynamic"
  "slice ld_file 356 359 = ld_strings"
  by (simp_all add: ld_file_def slice_def ld_lengths)

lemma ld_segments: "segment_table gabi (slice ld_file 64 288) = ld_program_headers"
proof -
  have split: "entries_of 56 (a @ b @ c @ d) = [a, b, c, d]"
    if "length a = 56" "length b = 56" "length c = 56" "length d = 56" for a b c d :: bytes
    using that by (simp add: entries_of_def upt_rec slice_def)
  show ?thesis
    unfolding ld_slices
    by (simp add: gabi_def split ld_lengths)
      (simp add: gabi_segment_def ld_defs slice_def le32_at_def le64_at_def u32_from_le_def u64_from_le_def
        ld_program_headers_def)
qed

lemma ld_power: "is_power_of_two 4096"
  by (simp add: is_power_of_two_def upt_rec)

lemma ld_structure: "sound_program_headers gabi ld_file ld_file_header elf_limits ld_program_headers"
  using ld_segments ld_power
  by (simp add: sound_program_headers_def ld_file_header_def elf_limits_def ld_length) (simp add: ld_program_headers_def sound_segment_def sound_load_def
       segment_kinds readable_def writable_def executable_def at_most_one_def pairwise_disjoint_def loaded_ranges_def ld_length ld_power)

definition ld_records :: "Amd64ElfDynamicRecord list" where
  "ld_records =
     [\<lparr>d_tag = 5, d_un = 0x400164\<rparr>, \<lparr>d_tag = 10, d_un = 3\<rparr>, \<lparr>d_tag = 1, d_un = 1\<rparr>, \<lparr>d_tag = 0, d_un = 0\<rparr>]"

definition ld_linkage :: Amd64ElfStartupDynamicInspection where
  "ld_linkage =
     \<lparr>sd_accepted_records = ld_records, sd_accepted_tags = [StringTable, StringTableSize, Needed, Null],
      sd_needed_libraries = [\<lparr>nl_dynamic_ordinal = 2, nl_requested_name = ascii ''a''\<rparr>],
      sd_soname = None, sd_runpath = None\<rparr>"

lemma ld_array:
  "dynamic_array ld_file (ld_program_headers ! 2) runtime_limits ld_records"
proof -
  have entry: "dynamic_entry ld_dynamic 0 = ld_records ! 0" "dynamic_entry ld_dynamic (Suc 0) = ld_records ! 1"
    "dynamic_entry ld_dynamic 2 = ld_records ! 2" "dynamic_entry ld_dynamic 3 = ld_records ! 3"
    by (simp_all add: dynamic_entry_def ld_defs slice_def le64_at_def u64_from_le_def ld_records_def)
  have "d_tag (dynamic_entry ld_dynamic i) \<noteq> 0" if "i < 3" for i
  proof -
    from that consider "i = 0" | "i = Suc 0" | "i = 2" by linarith
    then show ?thesis by cases (simp_all add: entry, simp_all add: ld_records_def)
  qed
  then have "first_null ld_dynamic 3" by (simp add: first_null_def entry) (simp add: ld_records_def)
  moreover have "dynamic_entries ld_dynamic 4 = ld_records"
  proof -
    have "[0..<4] = [0, Suc 0, 2, 3]" by (simp add: upt_rec numeral_eq_Suc)
    then show ?thesis by (simp add: dynamic_entries_def entry) (simp add: ld_records_def)
  qed
  moreover have "sound_records runtime_limits ld_records"
    by (auto simp: ld_records_def sound_records_def sound_record_def startup_dynamic_tags_def runtime_limits_def
        tagged_def has_tag_def)
  ultimately show ?thesis
    by (auto simp: dynamic_array_def ld_program_headers_def ld_slices ld_length runtime_limits_def intro!: exI [of _ 3])
qed

lemma ld_linked: "sound_linkage ld_file ld_program_headers ld_records ld_linkage"
proof -
  have tags: "tagged DT_NEEDED ld_records = [(2, 1)]" "tagged DT_SONAME ld_records = []"
    "tagged DT_RUNPATH ld_records = []" "tagged DT_STRTAB ld_records = [(0, 0x400164)]"
    "tagged DT_STRSZ ld_records = [(1, 3)]"
    by (simp_all add: tagged_def ld_records_def has_tag_def)
  have "string_at ld_strings 1 (ascii ''a'')"
    using ascii_is_utf8 [of "ascii ''a''"] by (simp add: string_at_def ld_defs slice_def ascii_def)
  moreover have "sound_basename (ascii ''a'')"
    by (simp add: sound_basename_def ascii_def printable_ascii_def in_range_def SLASH_def)
  moreover have "maps_to ld_file ld_program_headers 0x400164 3 ld_strings"
    by (simp add: maps_to_def ld_program_headers_def maps_cleanly_def spans_def file_position_def is_load_def
        ld_length ld_slices)
  moreover have "0 \<in> set ld_strings" by (simp add: ld_defs)
  moreover have "sd_accepted_tags ld_linkage = map (\<lambda>r. the (map_of startup_dynamic_tags (d_tag r))) ld_records"
    by (simp add: ld_linkage_def ld_records_def startup_dynamic_tags_def)
  ultimately show ?thesis
    by (auto simp: sound_linkage_def names_strings_def linked_strings_def tags ld_linkage_def)
qed

lemma ld_accepted: "runtime_elf gabi ld_file ld_file_header [] ld_program_headers (ascii ''/ld'') ld_linkage"
proof -
  have header: "header_of gabi ld_file ld_file_header"
    using header_eq [of ld_file gabi ld_file_header] ld_header_parsed by (simp add: ld_length ld_file_header_def)
  have interp: "interpreter_of ld_file (ld_program_headers ! 1) (ascii ''/ld'')"
    by (simp add: interpreter_of_def ld_program_headers_def ld_length ld_slices)
      (simp add: ld_defs ascii_def SLASH_def plain_segment_def printable_ascii_def in_range_def)
  have parts: "filter is_interp ld_program_headers = [ld_program_headers ! 1]"
      "filter is_dynamic ld_program_headers = [ld_program_headers ! 2]"
      "list_ex (holds_entry ld_file_header) ld_program_headers"
    by (simp_all add: ld_program_headers_def segment_kinds holds_entry_def executable_def ld_file_header_def)
  have "section_table_of gabi ld_file ld_file_header []" "sd_soname ld_linkage = None"
    by (simp_all add: section_table_of_def ld_file_header_def ld_linkage_def)
  moreover have "64 \<le> length ld_file \<and> length ld_file \<le> 2 ^ 30" by (simp add: ld_length)
  ultimately show ?thesis
    unfolding runtime_elf_def using header interp parts ld_structure ld_array ld_linked by blast
qed

end
