(* ===== verification/ElfProperties.thy ===== *)
theory ElfProperties
  imports ElfExample
begin

text \<open>The properties of the AMD64 inspector: what it accepts, that it never panics, and what the gate gives.\<close>

text \<open>
  C12. A file is a runtime executable exactly when all of this holds. It is between 64 bytes and one gibibyte.
  Its header is the closed one. Its section table is absent, with the four header fields zero, or sound. Its
  program header table, of 1 to 65534 entries of 56 bytes, lies in the file; every segment lies in the file
  and none has the reserved SHLIB type; no loaded segment is both writable and executable (the other
  segments are not constrained in this way); each loaded segment is no smaller in memory than in the file,
  does not wrap and, when it asks for an alignment above one, asks for a power of two to which its address
  and offset are congruent; there is one stack segment and it is not executable; there is a readable loaded
  segment; and the nonempty file ranges of the loaded segments are pairwise disjoint. An executable loaded
  segment holds the entry point. There is one interpreter segment and it holds a canonical absolute path;
  there is one dynamic segment and it links soundly, without a SONAME. The projection is then the counts,
  the path and the linkage of the file.
\<close>

theorem runtime_elf_exact:
  "inspect_runtime_amd64_elf elf sha bs = Inr inspected \<longleftrightarrow>
    (\<exists>header secs gs path sd. runtime_elf elf bs header secs gs path sd
       \<and> inspected = runtime_projection sha bs header secs gs path sd)"
  by (rule runtime_elf_eq)

text \<open>
  C14. Neither inspector panics, on any bytes, nor does reading the SONAME of an accepted dependency: no
  index is out of range, no \<open>expect\<close> meets \<open>None\<close> and no \<open>unreachable!\<close> is reached, when the parsed
  header's OS ABI is the byte of the ident.
\<close>

theorem elf_never_panics:
  assumes "elf_reader (parse_ident elf) (parse_tail elf)"
  shows "inspect_runtime_amd64_elf elf sha bs \<noteq> Inl ElfPanicked
    \<and> and_then (inspect_startup_dependency_amd64_dso elf sha bs) dso_soname \<noteq> Inl ElfPanicked"
  using runtime_panic_free [OF assms] soname_panic_free [OF assms] by (simp add: panic_free_def)

theorem elf_never_panics_witness:
  "inspect_runtime_amd64_elf gabi (\<lambda>_. replicate 32 0) (ld_file @ [1]) \<noteq> Inl ElfPanicked
    \<and> and_then (inspect_startup_dependency_amd64_dso gabi (\<lambda>_. replicate 32 0) (ld_file @ [1])) dso_soname
      \<noteq> Inl ElfPanicked"
  using gabi.elf_reader_axioms by (intro elf_never_panics) (simp add: gabi_def)

text \<open>
  C13. The effect behind the gate runs only on a hardened executable that is the one the gate measured. The
  file's length, digest, ELF type and OS ABI, its interpreter path, and its numbers of program headers,
  section headers, loaded segments, executable loaded segments, stack segments, dynamic entries and needed
  libraries are those of the identity; no loaded segment is both writable and executable, and each lies in
  the file; the nonempty loaded ranges are pairwise disjoint; an executable segment holds the entry point; the one
  stack segment is not executable; no dynamic record carries an RPATH. The effect is applied to the path,
  the common projection and the linkage of that very file.
\<close>

theorem gate_bound_elf_hardened:
  assumes "with_gate_bound_runtime_amd64_elf elf sha bs expected effect = Inr ()"
  shows "\<exists>header secs gs interpreter segment rs path sd.
    parse_closed_elf64_header elf bs = Inr header
    \<and> section_table_of elf bs header secs
    \<and> (let phoff = unat (h_e_phoff header); phnum = unat (h_e_phnum header) in
       gs = take phnum (segment_table elf (slice bs phoff (phoff + phnum * 56))) \<and> length gs = phnum)
    \<and> filter is_interp gs = [interpreter] \<and> interpreter_of bs interpreter path
    \<and> filter is_dynamic gs = [segment] \<and> dynamic_array bs segment runtime_limits rs
    \<and> sound_linkage bs gs rs sd
    \<and> length bs = unat (pe_byte_length expected) \<and> sha bs = pe_sha256 expected
    \<and> pe_elf_type expected = (if h_e_type header = ET_EXEC then ascii ''et-exec'' else ascii ''et-dyn'')
    \<and> pe_os_abi expected = (if h_osabi header = ELFOSABI_SYSV then ascii ''sysv'' else ascii ''linux'')
    \<and> path = pe_interpreter_path expected
    \<and> length gs = unat (pe_program_header_count expected)
    \<and> length secs = unat (pe_section_header_count expected)
    \<and> length (filter is_load gs) = unat (pe_load_segment_count expected)
    \<and> length (filter (\<lambda>g. is_load g \<and> executable g) gs) = unat (pe_executable_load_segment_count expected)
    \<and> length (filter is_gnu_stack gs) = unat (pe_gnu_stack_segment_count expected)
    \<and> length rs = unat (pe_dynamic_entry_count expected)
    \<and> length (sd_needed_libraries sd) = unat (pe_needed_library_count expected)
    \<and> (\<forall>g \<in> set (filter is_load gs).
         \<not> (writable g \<and> executable g) \<and> unat (p_offset g) + unat (p_filesz g) \<le> length bs)
    \<and> pairwise_disjoint (loaded_ranges gs)
    \<and> (\<exists>g \<in> set gs. holds_entry header g)
    \<and> (\<exists>g. filter is_gnu_stack gs = [g] \<and> \<not> executable g)
    \<and> (\<forall>r \<in> set rs. d_tag r \<noteq> DT_RPATH)
    \<and> effect path (ca_common (analysis_of header secs gs)) sd = Inr ()"
proof -
  from assms obtain inspected where i: "inspect_runtime_amd64_elf elf sha bs = Inr inspected"
      "matches_identity inspected expected"
      "effect (ri_interpreter_path (ie_runtime inspected)) (ie_common inspected)
         (ri_startup_dynamic (ie_runtime inspected)) = Inr ()"
    by (auto simp: with_gate_bound_runtime_amd64_elf_def)
  from i(1) obtain header secs gs path sd where e: "runtime_elf elf bs header secs gs path sd"
      "inspected = runtime_projection sha bs header secs gs path sd"
    unfolding runtime_elf_eq by blast
  have g: "sound_program_headers elf bs header elf_limits gs" "header_of elf bs header"
      "list_ex (holds_entry header) gs" "64 \<le> length bs" "length bs \<le> 2 ^ 30"
      "section_table_of elf bs header secs"
    using e(1) unfolding runtime_elf_def by blast+
  obtain interpreter segment rs where link: "filter is_interp gs = [interpreter]"
      "interpreter_of bs interpreter path" "filter is_dynamic gs = [segment]"
      "dynamic_array bs segment runtime_limits rs" "sound_linkage bs gs rs sd"
    using e(1) unfolding runtime_elf_def by blast
  have records: "sd_accepted_records sd = rs" using link(5) by (simp add: sound_linkage_def)
  have rpath: "\<forall>r \<in> set rs. d_tag r \<noteq> DT_RPATH"
    using dynamic_array_sound [OF link(4)]
    by (auto simp: sound_records_def list_all_iff sound_record_def startup_dynamic_tags_def)
  have header: "parse_closed_elf64_header elf bs = Inr header"
    using header_eq [OF g(4), of elf header] g(2) by blast
  have sizes: "length gs < 65536" "length secs < 65536"
    using g(1,6) unat_u16_bound [of "h_e_phnum header"] unat_u16_bound [of "h_e_shnum header"]
    by (auto simp: sound_program_headers_def section_table_of_def sound_section_table_def Let_def
        split: if_splits)
  have filtered: "length (filter P gs) < 65536" for P
    using sizes(1) by (rule order.strict_trans1 [OF length_filter_le])
  have one_stack: "length (filter is_gnu_stack gs) = 1"
    using g(1) unfolding sound_program_headers_def Let_def by blast
  have same: "pe_byte_length expected = of_nat (length bs)" "pe_sha256 expected = sha bs"
      "pe_elf_type expected = elf_type_name (if h_e_type header = ET_EXEC then Executable else SharedObject)"
      "pe_os_abi expected = os_abi_name (if h_osabi header = ELFOSABI_SYSV then SystemV else Linux)"
      "pe_interpreter_path expected = path" "pe_program_header_count expected = of_nat (length gs)"
      "pe_section_header_count expected = of_nat (length secs)"
      "pe_load_segment_count expected = of_nat (length (filter is_load gs))"
      "pe_executable_load_segment_count expected
        = of_nat (length (filter (\<lambda>g. is_load g \<and> executable g) gs))"
      "pe_gnu_stack_segment_count expected = 1"
      "pe_dynamic_entry_count expected = of_nat (length (sd_accepted_records sd))"
      "pe_needed_library_count expected = of_nat (length (sd_needed_libraries sd))"
    using i(2) unfolding e(2) matches_identity_def Let_def runtime_projection_def runtime_of_def analysis_of_def
    by (simp_all only: InspectedAmd64Elf.simps RuntimeAmd64ElfInspection.simps
        Amd64ElfCommonInspection.simps CommonElfAnalysis.simps)
  have counts: "length bs = unat (pe_byte_length expected)"
      "length gs = unat (pe_program_header_count expected)"
      "length secs = unat (pe_section_header_count expected)"
      "length (filter is_load gs) = unat (pe_load_segment_count expected)"
      "length (filter (\<lambda>g. is_load g \<and> executable g) gs) = unat (pe_executable_load_segment_count expected)"
      "length (filter is_gnu_stack gs) = unat (pe_gnu_stack_segment_count expected)"
      "length rs = unat (pe_dynamic_entry_count expected)"
      "length (sd_needed_libraries sd) = unat (pe_needed_library_count expected)"
    using g(5) sizes filtered [of is_load] filtered [of "\<lambda>g. is_load g \<and> executable g"] linkage_counts [OF link(4,5)] records
    unfolding same one_stack by (simp_all add: unat_of_nat)
  have names: "pe_elf_type expected = (if h_e_type header = ET_EXEC then ascii ''et-exec'' else ascii ''et-dyn'')"
      "pe_os_abi expected = (if h_osabi header = ELFOSABI_SYSV then ascii ''sysv'' else ascii ''linux'')"
    unfolding same by (simp_all add: elf_type_name_def os_abi_name_def)
  have stack: "\<exists>g. filter is_gnu_stack gs = [g] \<and> \<not> executable g"
  proof -
    from one_stack obtain g where one: "filter is_gnu_stack gs = [g]"
      by (auto simp: length_Suc_conv)
    then have "g \<in> set (filter is_gnu_stack gs)" by simp
    then have "\<not> executable g" using g(1)
      by (auto simp: sound_program_headers_def Let_def list_all_iff sound_segment_def)
    with one show ?thesis by blast
  qed
  have table: "let phoff = unat (h_e_phoff header); phnum = unat (h_e_phnum header) in
       gs = take phnum (segment_table elf (slice bs phoff (phoff + phnum * 56))) \<and> length gs = phnum"
    using g(1) unfolding sound_program_headers_def Let_def by blast
  have loaded: "\<forall>g \<in> set (filter is_load gs).
         \<not> (writable g \<and> executable g) \<and> unat (p_offset g) + unat (p_filesz g) \<le> length bs"
    using g(1) unfolding sound_program_headers_def Let_def
    by (simp add: list_all_iff sound_segment_def sound_load_def)
  have disjoint: "pairwise_disjoint (loaded_ranges gs)"
    using g(1) unfolding sound_program_headers_def Let_def by blast
  have entry: "\<exists>g \<in> set gs. holds_entry header g" using g(3) by (simp add: list_ex_iff)
  have run: "effect path (ca_common (analysis_of header secs gs)) sd = Inr ()"
    using i(3) unfolding e(2) by (simp add: runtime_projection_def runtime_of_def)
  show ?thesis
    using header g(6) table link counts(1) same(2) [symmetric] names same(5) [symmetric] counts(2-) loaded disjoint
      entry stack rpath run
    by - (rule exI [of _ header], rule exI [of _ secs], rule exI [of _ gs], rule exI [of _ interpreter],
        rule exI [of _ segment], rule exI [of _ rs], rule exI [of _ path], rule exI [of _ sd],
        (rule conjI, assumption)+, assumption)
qed

definition ld_identity :: B4PositiveRuntimeElfIdentity where
  "ld_identity =
     \<lparr>pe_image_path = ascii ''/bin/a'', pe_byte_length = 359, pe_sha256 = replicate 32 0,
      pe_elf_type = ascii ''et-exec'', pe_os_abi = ascii ''sysv'', pe_program_header_count = 4,
      pe_section_header_count = 0, pe_load_segment_count = 1, pe_executable_load_segment_count = 1,
      pe_interpreter_path = ascii ''/ld'', pe_dynamic_entry_count = 4, pe_needed_library_count = 1,
      pe_gnu_stack_segment_count = 1\<rparr>"

lemma ld_gate:
  "with_gate_bound_runtime_amd64_elf gabi (\<lambda>_. replicate 32 0) ld_file ld_identity (\<lambda>_ _ _. Inr ()) = Inr ()"
proof -
  have "inspect_runtime_amd64_elf gabi (\<lambda>_. replicate 32 0) ld_file
      = Inr (runtime_projection (\<lambda>_. replicate 32 0) ld_file ld_file_header [] ld_program_headers
               (ascii ''/ld'') ld_linkage)"
    unfolding runtime_elf_eq using ld_accepted by blast
  moreover have "matches_identity (runtime_projection (\<lambda>_. replicate 32 0) ld_file ld_file_header []
      ld_program_headers (ascii ''/ld'') ld_linkage) ld_identity"
    by (simp add: matches_identity_def runtime_projection_def runtime_of_def analysis_of_def ld_identity_def
        ld_length ld_linkage_def ld_records_def elf_type_name_def os_abi_name_def)
      (simp add: ld_file_header_def ld_program_headers_def segment_kinds executable_def)
  ultimately show ?thesis by (simp add: with_gate_bound_runtime_amd64_elf_def)
qed

theorem gate_bound_elf_hardened_witness:
  "\<exists>gs. length gs = 4 \<and> pairwise_disjoint (loaded_ranges gs)
     \<and> (\<exists>g \<in> set gs. holds_entry ld_file_header g) \<and> (\<exists>g. filter is_gnu_stack gs = [g] \<and> \<not> executable g)"
proof -
  have "parse_closed_elf64_header gabi ld_file = Inr ld_file_header"
    by (simp add: ld_header_parsed ld_file_header_def)
  moreover have "unat (pe_program_header_count ld_identity) = 4" by (simp add: ld_identity_def)
  ultimately show ?thesis using gate_bound_elf_hardened [OF ld_gate] by (metis (no_types, lifting) sum.inject(2))
qed

text \<open>
  C24. The records of a dynamic array are those up to its first \<open>DT_NULL\<close>, which must come within the
  array and the budget; each has a listed tag and allowed flags, the string table, its size, the SONAME
  and the RUNPATH occur at most once, and the needed libraries are within their budget.
\<close>

theorem dynamic_records_exact:
  "parse_startup_dynamic_records bs limits = Inr parsed \<longleftrightarrow>
    (\<exists>k. first_null bs k \<and> 16 * Suc k \<le> length bs \<and> Suc k \<le> unat (rt_maximum_dynamic_entries limits)
       \<and> sound_records limits (dynamic_entries bs (Suc k))
       \<and> parsed = parsed_of (dynamic_entries bs (Suc k)))"
  by (rule parse_records_eq)

text \<open>
  C25. A virtual range maps to file bytes exactly when it does not wrap, no loaded segment's own ranges
  wrap, exactly one loaded segment holds it in its file-backed part, and the bytes at that segment's file
  position lie in the file; the bytes are then those.
\<close>

theorem virtual_range_exact:
  "map_virtual_file_range bs gs address byte_length label = Inr table \<longleftrightarrow>
    length bs < 2 ^ 64 \<and> unat address + unat byte_length < 2 ^ 64
    \<and> list_all (maps_cleanly address byte_length) (filter is_load gs)
    \<and> (\<exists>g. filter (spans address byte_length) (filter is_load gs) = [g]
         \<and> file_position address g + unat byte_length \<le> length bs
         \<and> table = slice bs (file_position address g) (file_position address g + unat byte_length))"
  by (rule virtual_range_eq)

end
