(* ===== verification/Spec2Isabelle.thy ===== *)
theory Spec2Isabelle
  imports
    GuestProgram ProfileManifest ReceiptClaim Seal Capacity AttemptPhase OutputManifest
    OciLayerBinding B2Seal WireBootstrap ElfProperties
begin

text \<open>
  Verification development for the EIP-0045 reproduction repository.

  The repository reproduces a calibration proof: a guest program runs in a zkVM and commits a
  statement, the host recomputes every digest and layout the statement and its receipt depend on, and
  a campaign executor imports the immutable artifacts the run uses. The development models the parts
  that decide about bytes. It follows one discipline: a strict decoder accepts exactly the canonical
  encodings, a digest is computed over an injective encoding, and a budget is exact.

  Reading guide. \<open>Prelude\<close> fixes how Rust values are represented (words for machine integers, byte
  lists for slices and arrays, \<open>'e + 'a\<close> for \<open>Result\<close>) and holds the shared lemmas; its operator
  \<open>and_then\<close> is the question-mark operator. \<open>Codec\<close> states the contract of a strict wire format as a
  locale; the codecs below are interpretations of it.

  Guest (\<open>methods/src/lib.rs\<close>, \<open>methods/guest/src/main.rs\<close>).
  \<open>GuestAbi\<close> models the 60-byte input header: the constructors per mode, \<open>header_decode\<close> and
  \<open>header_encode\<close>, the length checks and the workload recurrence. Decoding is exact and every
  constructor yields a header the decoder accepts. \<open>GuestProgram\<close> models the whole \<open>main\<close> over an
  abstract environment (\<open>guest_env\<close>: read, commit, verify, exit); its laws \<open>env_laws\<close> say that a read
  consumes the input in order and a commit appends to the journal. The guest commits exactly the
  statement bytes it read, after the workload gate and the assumption checks, and it always finishes:
  the loops carry their termination measures, no fuel is involved.

  Statement and profile (\<open>reproduction/src\<close>). \<open>Constants\<close> holds the pinned constants of
  \<open>constants.rs\<close> at their types, the two validators, and the fact that the pinned values pass them.
  \<open>Canonical\<close> is the lexical layer of \<open>canonical.rs\<close>. \<open>ErgoStatement\<close> (\<open>ergo_statement.rs\<close>) is the
  span layout with its encoder and parser; the spans tile every admissible length. \<open>ProfileIdentity\<close>
  (\<open>profile.rs\<close>) builds the contract identifier and the profile preimage. \<open>ProfileManifest\<close>
  (\<open>profile_manifest.rs\<close>) is the binary manifest: cursor decoder, grammar, encoder, the initial target
  and the package check that ties manifest, artifact bytes and profile identifier together.
  \<open>ReceiptClaim\<close> (\<open>claim.rs\<close>) is the tagged-struct hashing of the receipt claim.

  Verifier data and seal (\<open>reproduction/src/constants_artifact.rs\<close>, \<open>seal.rs\<close>). \<open>B2Artifact\<close> is the
  65,119-byte artifact of verifier constants: cursor decoder, encoder, validator and authentication.
  \<open>B2Taps\<close> shows what the register walk over its tap table accepts, \<open>B2Codec\<close> that decoder and encoder
  are inverse, that the operation census fixes the length, and that the constraint program only refers
  backward; it also builds a concrete artifact. \<open>Seal\<close> models the span tables, the word decoder, the
  projection of a seal into roles, a partition of its words, and the search for the first word whose
  reversed bytes are not reduced. \<open>B2Seal\<close> composes the two: once the artifact is authenticated the
  projection cannot fail.

  Provider (\<open>appliance/h0-tmpfs-provider/crates/contract/src\<close>). \<open>Capacity\<close> (\<open>lib.rs\<close>) is the capacity
  plan: per-entry projection, aggregation, memory admission and the mount request, with a refinement
  to the unbounded arithmetic it approximates. \<open>AttemptPhase\<close> (\<open>state.rs\<close>) is the affine progress
  value over the 25 phases as a transition relation with its reachable traces.

  Wire protocol (\<open>wire.rs\<close> of the same crate), the messages between generator, supervisor and worker.
  \<open>WireFds\<close>: what a passed descriptor is committed to and which commitments a role admits; the locales
  \<open>prefix_code\<close> and \<open>sized_code\<close> are the contract of the record encodings. \<open>WireSession\<close>: sealed
  ingress, request, channels, offer, the commit-and-reveal records and the provider session;
  \<open>WireSessionBinding\<close>: a session identifier binds every fact below it, or two named strings collide.
  \<open>WireInventory\<close>: process inventories, the content policy and the transfer manifest. \<open>WireFrame\<close>:
  frames, their raw bytes and the transcript chain; \<open>WireBodies\<close>: the four bodies, the genesis digests
  and the children's own encoders, which agree with the general one. \<open>WirePeer\<close> and
  \<open>WireClosedResult\<close>: the generator rebuilds the session from an offer and accepts exactly the result
  frame joined to its own bound frame. \<open>WireWorker\<close> and \<open>WireBootstrap\<close>: the worker's parsers, its
  content verifier, and the exact set of bootstrap frames it accepts and can answer.

  Outputs (\<open>reproduction/src/manifest.rs\<close>). \<open>OutputManifest\<close> models the traversal of a directory tree,
  the hashing loop, the two-snapshot build and the validation against it. The tree carries the answers of
  the operating system: a directory that cannot be listed, an entry that cannot be yielded or inspected,
  a file that cannot be opened, inspected or read to its end are constructors of its types.

  Artifact imports (\<open>generator/src/b4_campaign_executor\<close>). \<open>ArtifactImport\<close>
  (\<open>artifact_import_contract.rs\<close>) holds the role table and every budget operation; the locale
  \<open>budget\<close> is the contract of an accumulating one. The OCI layer import
  (\<open>oci_image_layout_import/layer.rs\<close>) is spread over six theories. \<open>OciPath\<close>: paths, symlink
  containment, whiteouts. \<open>OciTranscript\<close>: the changeset transcript and the replay sinks, with the
  locales \<open>observing_sink\<close> and \<open>lawful_sink\<close>. \<open>OciLayer\<close>: header parser, counters, the inspection loop
  and the gzip envelope. \<open>UstarHeader\<close>: the header parser is exact. \<open>OciLayerFacts\<close>: a replay repeats
  the inspection. \<open>OciLayerBinding\<close>: an accepted stream is unrolled into its members, and the
  changeset digest binds the stream.

  AMD64 executables (\<open>amd64_elf_inspection.rs\<close>). \<open>ElfFormat\<close>: the headers, the published constants,
  the \<open>elf\<close> crate as a record of parsers with the locale \<open>elf_reader\<close>, and the errors, a panic among
  them. \<open>ElfStructure\<close> and \<open>ElfDynamic\<close>: the structural checks and the dynamic linkage;
  \<open>ElfInspection\<close>: the runtime and dependency inspectors and the comparison with the positive gate
  (\<open>b4_positive_gate.rs\<close>). \<open>ElfStructureFacts\<close>, \<open>ElfDynamicFacts\<close> and \<open>ElfInspectionFacts\<close> say what
  each accepts as a relation on the file and show that none panics; \<open>ElfExample\<close> is an accepted file and
  \<open>ElfProperties\<close> states the results.

  Third-party code is a parameter: SHA-256 and BLAKE2b-256 (a function on byte lists, with the digest
  length as hypothesis where it matters), the \<open>hex\<close> crate, the Deflate decoder, CRC-32, the \<open>elf\<close>
  crate and the zkVM environment. No theorem assumes a hash function is injective; where a statement needs collision
  freedom it names the two preimages concerned. An incremental hasher is the list of the bytes fed to
  it. A reader is the list of the bytes it delivers before its end or first error.

  Bounds. \<open>usize\<close> is 64 bits wide. Lengths that the code keeps in a \<open>u64\<close> are words; where the code
  converts a \<open>usize\<close> to a \<open>u64\<close> the conversion cannot fail at this width.

  Not modelled: the prover and the verifier calls, file-system mutation through descriptors (root
  filesystem construction, custody, publication), the Linux system-call layer, JSON parsing and
  canonicalisation (\<open>serde_json\<close>, \<open>serde_jcs\<close>), and the large closed campaign records that compare
  JSON documents field by field.
\<close>

end
